(* ===== verification/Prelude.thy ===== *)
theory Prelude
  imports Main "HOL-Library.Char_ord" "HOL-Library.List_Lexorder" "HOL-Library.Word"
begin

text \<open>
  Shared vocabulary of the development. A Rust \<open>anyhow::Result<T>\<close> is a sum whose left side
  is the error message; the \<open>?\<close> operator, \<open>collect::<Result<Vec<_>>>()\<close> and a \<open>for\<close> loop
  whose body may return early are the combinators \<open>and_then\<close>, \<open>collect_res\<close> and
  \<open>each_res\<close>. \<open>retain_new\<close> is the idiom \<open>v.retain(|x| seen.insert(key(x)))\<close>.
  Unsigned machine integers that the code subtracts or multiplies are words; identifiers,
  priorities and signed counters that the code only compares are \<open>int\<close> or \<open>nat\<close>.
\<close>

named_theorems res_simps \<open>unfolding rules for the result combinators\<close>

type_synonym 'a res = "string + 'a"

type_synonym u16 = "16 word"
type_synonym u32 = "32 word"
type_synonym u64 = "64 word"

abbreviation Ok :: "'a \<Rightarrow> 'a res" where "Ok \<equiv> Inr"
abbreviation Err :: "string \<Rightarrow> 'a res" where "Err \<equiv> Inl"

definition and_then :: "'a res \<Rightarrow> ('a \<Rightarrow> 'b res) \<Rightarrow> 'b res" where
  "and_then r f = (case r of Inl e \<Rightarrow> Err e | Inr x \<Rightarrow> f x)"

definition is_ok :: "'a res \<Rightarrow> bool" where
  "is_ok r = (case r of Inl _ \<Rightarrow> False | Inr _ \<Rightarrow> True)"

definition ok_or :: "string \<Rightarrow> 'a option \<Rightarrow> 'a res" where
  "ok_or e x = (case x of None \<Rightarrow> Err e | Some v \<Rightarrow> Ok v)"

fun collect_res :: "'a res list \<Rightarrow> 'a list res" where
  "collect_res [] = Ok []"
| "collect_res (Inl e # rs) = Err e"
| "collect_res (Inr x # rs) = and_then (collect_res rs) (\<lambda>xs. Ok (x # xs))"

fun each_res :: "('a \<Rightarrow> unit res) \<Rightarrow> 'a list \<Rightarrow> unit res" where
  "each_res f [] = Ok ()"
| "each_res f (x # xs) = and_then (f x) (\<lambda>_. each_res f xs)"

fun retain_new :: "('a \<Rightarrow> 'k) \<Rightarrow> 'k list \<Rightarrow> 'a list \<Rightarrow> 'a list" where
  "retain_new key seen [] = []"
| "retain_new key seen (x # xs) =
     (if key x \<in> set seen then retain_new key seen xs
      else x # retain_new key (key x # seen) xs)"

subsection \<open>Results\<close>

lemma and_then_simps [simp, res_simps]:
  "and_then (Inl e) f = Inl e"
  "and_then (Inr x) f = f x"
  by (simp_all add: and_then_def)

lemma is_ok_simps [simp, res_simps]:
  "is_ok (Inl e) = False"
  "is_ok (Inr x) = True"
  by (simp_all add: is_ok_def)

lemma ok_or_simps [simp, res_simps]:
  "ok_or e None = Inl e"
  "ok_or e (Some v) = Inr v"
  by (simp_all add: ok_or_def)

lemma and_then_Inr_iff: "and_then r f = Inr y \<longleftrightarrow> (\<exists>x. r = Inr x \<and> f x = Inr y)"
  by (cases r) auto

lemma and_then_Inl_iff:
  "and_then r f = Inl e \<longleftrightarrow> r = Inl e \<or> (\<exists>x. r = Inr x \<and> f x = Inl e)"
  by (cases r) auto

lemma is_ok_iff: "is_ok r \<longleftrightarrow> (\<exists>x. r = Inr x)"
  by (cases r) auto

lemma is_ok_and_then: "is_ok (and_then r f) \<longleftrightarrow> (\<exists>x. r = Inr x \<and> is_ok (f x))"
  by (cases r) auto

lemma not_is_ok_iff: "\<not> is_ok r \<longleftrightarrow> (\<exists>e. r = Inl e)"
  by (cases r) auto

lemma is_ok_if: "is_ok (if b then r else s) \<longleftrightarrow> (if b then is_ok r else is_ok s)"
  by simp

lemma ok_or_Inr_iff: "ok_or e x = Inr v \<longleftrightarrow> x = Some v"
  by (cases x) auto

lemma is_ok_ok_or [simp]: "is_ok (ok_or e x) \<longleftrightarrow> x \<noteq> None"
  by (cases x) auto

lemma each_res_ok_iff: "is_ok (each_res f xs) \<longleftrightarrow> (\<forall>x \<in> set xs. is_ok (f x))"
proof (induction xs)
  case Nil
  then show ?case by simp
next
  case (Cons x xs)
  then show ?case by (cases "f x") auto
qed

lemma unit_res_cases: "(r :: unit res) = Inr () \<or> (\<exists>e. r = Inl e)"
  by (cases r) auto

lemma is_ok_unit: "is_ok (r :: unit res) \<longleftrightarrow> r = Inr ()"
  by (cases r) auto

lemma collect_res_Inr_iff:
  "collect_res rs = Inr xs \<longleftrightarrow> rs = map Inr xs"
proof (induction rs arbitrary: xs)
  case Nil
  then show ?case by auto
next
  case (Cons r rs)
  then show ?case
    by (cases r; cases xs) (auto simp: and_then_Inr_iff)
qed

lemma collect_res_map_Inr [simp]: "collect_res (map Inr xs) = Inr xs"
  by (simp add: collect_res_Inr_iff)

lemma is_ok_collect_res: "is_ok (collect_res rs) \<longleftrightarrow> (\<forall>r \<in> set rs. is_ok r)"
proof (induction rs)
  case Nil
  then show ?case by simp
next
  case (Cons r rs)
  then show ?case by (cases r; cases "collect_res rs") auto
qed

lemma collect_res_nth:
  assumes "collect_res (map f xs) = Inr ys"
  shows "length ys = length xs" and "i < length xs \<Longrightarrow> f (xs ! i) = Inr (ys ! i)"
proof -
  have eq: "map f xs = map Inr ys"
    using assms by (simp add: collect_res_Inr_iff)
  then show "length ys = length xs"
    by (metis length_map)
  show "f (xs ! i) = Inr (ys ! i)" if "i < length xs"
    using that eq by (metis length_map nth_map)
qed

lemma collect_res_in:
  assumes "collect_res (map f xs) = Inr ys" and "y \<in> set ys"
  obtains x where "x \<in> set xs" "f x = Inr y"
proof -
  have "map f xs = map Inr ys"
    using assms(1) by (simp add: collect_res_Inr_iff)
  then have "Inr y \<in> f ` set xs"
    using assms(2) by (metis imageI list.set_map)
  then show ?thesis using that by auto
qed

subsection \<open>Deduplication that keeps first occurrences\<close>

lemma retain_new_subset: "set (retain_new key seen xs) \<subseteq> set xs"
  by (induction key seen xs rule: retain_new.induct) auto

lemma retain_new_keys:
  "key ` set (retain_new key seen xs) = key ` set xs - set seen"
  by (induction key seen xs rule: retain_new.induct) auto

lemma retain_new_distinct: "distinct (map key (retain_new key seen xs))"
proof (induction key seen xs rule: retain_new.induct)
  case (1 key seen)
  then show ?case by simp
next
  case (2 key seen x xs)
  have "key x \<notin> key ` set (retain_new key (key x # seen) xs)"
    by (simp add: retain_new_keys)
  with 2 show ?case by auto
qed

lemma retain_new_all_new:
  "distinct (map key xs) \<Longrightarrow> key ` set xs \<inter> set seen = {} \<Longrightarrow> retain_new key seen xs = xs"
  by (induction key seen xs rule: retain_new.induct) auto

lemma retain_new_idem:
  "retain_new key seen (retain_new key seen xs) = retain_new key seen xs"
proof (rule retain_new_all_new)
  show "distinct (map key (retain_new key seen xs))" by (rule retain_new_distinct)
  show "key ` set (retain_new key seen xs) \<inter> set seen = {}"
    by (auto simp: retain_new_keys)
qed

lemma retain_new_Nil_iff:
  "retain_new key [] xs = [] \<longleftrightarrow> xs = []"
  by (cases xs) auto

subsection \<open>First match\<close>

lemma find_Some_mem: "List.find P xs = Some x \<Longrightarrow> x \<in> set xs \<and> P x"
  by (induction xs) (auto split: if_splits)

lemma find_None_all: "List.find P xs = None \<longleftrightarrow> (\<forall>x \<in> set xs. \<not> P x)"
  by (induction xs) auto

lemma find_first:
  "List.find P xs = Some x \<longleftrightarrow>
     (\<exists>ys zs. xs = ys @ x # zs \<and> P x \<and> (\<forall>y \<in> set ys. \<not> P y))"
proof (induction xs)
  case Nil
  then show ?case by simp
next
  case (Cons a xs)
  show ?case
  proof (cases "P a")
    case True
    then show ?thesis
      by (auto simp: Cons_eq_append_conv)
  next
    case False
    then have "List.find P (a # xs) = List.find P xs" by simp
    also have "\<dots> = Some x \<longleftrightarrow> (\<exists>ys zs. a # xs = ys @ x # zs \<and> P x \<and> (\<forall>y \<in> set ys. \<not> P y))"
      unfolding Cons.IH using False
      by (auto simp: Cons_eq_append_conv) (metis set_ConsD)+
    finally show ?thesis .
  qed
qed

subsection \<open>Stable ordering by a key\<close>

text \<open>
  Rust's \<open>sort_by_key\<close> is stable, and so is the library's \<open>sort_key\<close>; the next fact is what
  a consumer of the sorted vector uses: the chosen element comes first among those with its key.
\<close>

lemma sort_key_find_best:
  fixes key :: "'a \<Rightarrow> 'b::linorder"
  assumes "List.find P (sort_key key xs) = Some x"
  shows "x \<in> set xs \<and> P x \<and> (\<forall>y \<in> set xs. P y \<longrightarrow> key x \<le> key y)"
proof -
  obtain ys zs where split: "sort_key key xs = ys @ x # zs" and px: "P x"
    and none: "\<forall>y \<in> set ys. \<not> P y"
    using assms by (auto simp: find_first)
  have sorted: "sorted (map key (ys @ x # zs))"
    unfolding split [symmetric] by (rule sorted_sort_key)
  have set: "set xs = set ys \<union> {x} \<union> set zs"
    by (metis Un_assoc Un_insert_left insert_is_Un list.set(2) set_append set_sort split sup_bot_left)
  have "key x \<le> key y" if "y \<in> set xs" "P y" for y
  proof -
    have "y = x \<or> y \<in> set zs" using that none set by auto
    then show ?thesis using sorted by (auto simp: sorted_append)
  qed
  then show ?thesis using px set by auto
qed

lemma find_conj_filter: "List.find (\<lambda>y. P y \<and> Q y) xs = List.find P (filter Q xs)"
  by (induction xs) auto

text \<open>Among elements with the winner's key, the winner also came first in the unsorted vector.\<close>

lemma sort_key_find_stable:
  fixes key :: "'a \<Rightarrow> 'b::linorder"
  assumes "List.find P (sort_key key xs) = Some x"
  shows "List.find (\<lambda>y. P y \<and> key y = key x) xs = Some x"
proof -
  let ?Q = "\<lambda>y. key y = key x"
  have "List.find (\<lambda>y. P y \<and> ?Q y) (sort_key key xs) = Some x"
    using assms unfolding find_first by blast
  then have "List.find P (filter ?Q (sort_key key xs)) = Some x"
    by (simp only: find_conj_filter)
  then show ?thesis
    by (simp only: sort_key_stable find_conj_filter)
qed

lemma find_Some_if: "\<exists>x \<in> set xs. P x \<Longrightarrow> \<exists>y. List.find P xs = Some y"
  by (induction xs) auto

end
