(* ===== verification/RustStr.thy ===== *)
theory RustStr
  imports Prelude
begin

text \<open>
  The parts of Rust's standard string API the program uses. A Rust \<open>String\<close> is a vector of
  bytes holding valid UTF-8; here it is a HOL \<open>string\<close>, one \<open>char\<close> per byte, so \<open>len()\<close> is
  \<open>length\<close> and \<open>bytes()\<close> is the list itself. \<open>trim\<close> and \<open>char::is_control\<close> speak about code
  points: they are written over the UTF-8 encodings of the Unicode White\_Space characters and
  of the Cc category, and agree with Rust on every valid UTF-8 string. Ordering of strings is
  bytewise lexicographic, as \<open>Ord for String\<close>.
\<close>

definition byte :: "char \<Rightarrow> nat" where
  "byte c = of_char c"

definition is_digit :: "char \<Rightarrow> bool" where
  "is_digit c \<longleftrightarrow> 48 \<le> byte c \<and> byte c \<le> 57"

definition is_lower :: "char \<Rightarrow> bool" where
  "is_lower c \<longleftrightarrow> 97 \<le> byte c \<and> byte c \<le> 122"

definition is_upper :: "char \<Rightarrow> bool" where
  "is_upper c \<longleftrightarrow> 65 \<le> byte c \<and> byte c \<le> 90"

definition is_alphanumeric :: "char \<Rightarrow> bool" where
  "is_alphanumeric c \<longleftrightarrow> is_digit c \<or> is_lower c \<or> is_upper c"

definition is_hexdigit :: "char \<Rightarrow> bool" where
  "is_hexdigit c \<longleftrightarrow> is_digit c \<or> (97 \<le> byte c \<and> byte c \<le> 102) \<or> (65 \<le> byte c \<and> byte c \<le> 70)"

definition is_ascii :: "char \<Rightarrow> bool" where
  "is_ascii c \<longleftrightarrow> byte c < 128"

definition is_ascii_control :: "char \<Rightarrow> bool" where
  "is_ascii_control c \<longleftrightarrow> byte c < 32 \<or> byte c = 127"

text \<open>\<open>chars().any(char::is_control)\<close>: U+0000--U+001F, U+007F and U+0080--U+009F (C2 80--C2 9F).\<close>

fun has_control :: "string \<Rightarrow> bool" where
  "has_control [] = False"
| "has_control (c # cs) =
     (is_ascii_control c
      \<or> (byte c = 194 \<and> (case cs of [] \<Rightarrow> False | d # _ \<Rightarrow> 128 \<le> byte d \<and> byte d < 160))
      \<or> has_control cs)"

definition lower_char :: "char \<Rightarrow> char" where
  "lower_char c = (if is_upper c then char_of (byte c + 32) else c)"

definition upper_char :: "char \<Rightarrow> char" where
  "upper_char c = (if is_lower c then char_of (byte c - 32) else c)"

definition to_ascii_lowercase :: "string \<Rightarrow> string" where
  "to_ascii_lowercase s = map lower_char s"

definition to_ascii_uppercase :: "string \<Rightarrow> string" where
  "to_ascii_uppercase s = map upper_char s"

definition eq_ignore_ascii_case :: "string \<Rightarrow> string \<Rightarrow> bool" where
  "eq_ignore_ascii_case s t \<longleftrightarrow> to_ascii_lowercase s = to_ascii_lowercase t"

definition starts_with :: "string \<Rightarrow> string \<Rightarrow> bool" where
  "starts_with s p \<longleftrightarrow> take (length p) s = p"

definition ends_with :: "string \<Rightarrow> string \<Rightarrow> bool" where
  "ends_with s p \<longleftrightarrow> starts_with (rev s) (rev p)"

definition strip_prefix :: "string \<Rightarrow> string \<Rightarrow> string option" where
  "strip_prefix p s = (if starts_with s p then Some (drop (length p) s) else None)"

fun contains_str :: "string \<Rightarrow> string \<Rightarrow> bool" where
  "contains_str [] p \<longleftrightarrow> p = []"
| "contains_str (c # cs) p \<longleftrightarrow> starts_with (c # cs) p \<or> contains_str cs p"

text \<open>
  Length of the White\_Space character a string starts with: 0 for none, else the number of
  bytes of its encoding (U+0009--U+000D, U+0020, U+0085, U+00A0, U+1680, U+2000--U+200A,
  U+2028, U+2029, U+202F, U+205F, U+3000).
\<close>

definition ws3 :: "nat \<Rightarrow> nat \<Rightarrow> nat \<Rightarrow> bool" where
  "ws3 a b c \<longleftrightarrow>
     a = 225 \<and> b = 154 \<and> c = 128
     \<or> a = 226 \<and> b = 128 \<and> (128 \<le> c \<and> c \<le> 138 \<or> c = 168 \<or> c = 169 \<or> c = 175)
     \<or> a = 226 \<and> b = 129 \<and> c = 159
     \<or> a = 227 \<and> b = 128 \<and> c = 128"

definition ws2 :: "nat \<Rightarrow> nat \<Rightarrow> bool" where
  "ws2 a b \<longleftrightarrow> a = 194 \<and> (b = 133 \<or> b = 160)"

definition ws1 :: "nat \<Rightarrow> bool" where
  "ws1 a \<longleftrightarrow> 9 \<le> a \<and> a \<le> 13 \<or> a = 32"

definition ws_len :: "string \<Rightarrow> nat" where
  "ws_len s = (case s of [] \<Rightarrow> 0
     | a # as \<Rightarrow> if ws1 (byte a) then 1
       else (case as of [] \<Rightarrow> 0
         | b # bs \<Rightarrow> if ws2 (byte a) (byte b) then 2
           else (case bs of [] \<Rightarrow> 0
             | c # _ \<Rightarrow> if ws3 (byte a) (byte b) (byte c) then 3 else 0)))"

definition ws_len_rev :: "string \<Rightarrow> nat" where
  "ws_len_rev s = (case s of [] \<Rightarrow> 0
     | a # as \<Rightarrow> if ws1 (byte a) then 1
       else (case as of [] \<Rightarrow> 0
         | b # bs \<Rightarrow> if ws2 (byte b) (byte a) then 2
           else (case bs of [] \<Rightarrow> 0
             | c # _ \<Rightarrow> if ws3 (byte c) (byte b) (byte a) then 3 else 0)))"

function strip_ws :: "(string \<Rightarrow> nat) \<Rightarrow> string \<Rightarrow> string" where
  "strip_ws w s = (if w s = 0 \<or> s = [] then s else strip_ws w (drop (w s) s))"
  by pat_completeness auto
termination
  by (relation "measure (\<lambda>(w, s). length s)") auto

declare strip_ws.simps [simp del]

definition trim_start :: "string \<Rightarrow> string" where
  "trim_start s = strip_ws ws_len s"

definition trim_end :: "string \<Rightarrow> string" where
  "trim_end s = rev (strip_ws ws_len_rev (rev s))"

definition trim :: "string \<Rightarrow> string" where
  "trim s = trim_end (trim_start s)"

text \<open>\<open>str::split\<close> on one ASCII character, \<open>split_once\<close>, and \<open>str::lines\<close>.\<close>

fun split_on :: "char \<Rightarrow> string \<Rightarrow> string list" where
  "split_on d [] = [[]]"
| "split_on d (c # cs) =
     (if c = d then [] # split_on d cs
      else (case split_on d cs of [] \<Rightarrow> [[c]] | p # ps \<Rightarrow> (c # p) # ps))"

fun split_once :: "char \<Rightarrow> string \<Rightarrow> (string \<times> string) option" where
  "split_once d [] = None"
| "split_once d (c # cs) =
     (if c = d then Some ([], cs)
      else map_option (\<lambda>(a, b). (c # a, b)) (split_once d cs))"

definition newline :: char where "newline = CHR 0x0A"
definition carriage_return :: char where "carriage_return = CHR 0x0D"

definition drop_cr :: "string \<Rightarrow> string" where
  "drop_cr s = (if s \<noteq> [] \<and> last s = carriage_return then butlast s else s)"

definition lines :: "string \<Rightarrow> string list" where
  "lines s = (let ps = split_on newline s
              in map drop_cr (butlast ps)
                 @ (if last ps = [] then [] else [last ps]))"

fun join :: "string \<Rightarrow> string list \<Rightarrow> string" where
  "join sep [] = []"
| "join sep [s] = s"
| "join sep (s # t # ts) = s @ sep @ join sep (t # ts)"

text \<open>Decimal formatting of unsigned numbers, as \<open>to_string()\<close> and \<open>{}\<close> print them.\<close>

fun show_nat :: "nat \<Rightarrow> string" where
  "show_nat n = (if n < 10 then [char_of (48 + n)] else show_nat (n div 10) @ [char_of (48 + n mod 10)])"

declare show_nat.simps [simp del]

text \<open>\<open>str::parse::<u64>\<close> on a string of ASCII digits (an empty string and an overflow are errors).\<close>

definition parse_digits :: "string \<Rightarrow> nat" where
  "parse_digits s = foldl (\<lambda>n c. 10 * n + (byte c - 48)) 0 s"

subsection \<open>Trimming\<close>

lemma strip_ws_drop: "\<exists>n. strip_ws w s = drop n s"
proof (induction w s rule: strip_ws.induct)
  case (1 w s)
  show ?case
  proof (cases "w s = 0 \<or> s = []")
    case True
    then have "strip_ws w s = drop 0 s" by (subst strip_ws.simps) simp
    then show ?thesis by blast
  next
    case False
    then obtain n where "strip_ws w (drop (w s) s) = drop n (drop (w s) s)" using 1 by auto
    with False have "strip_ws w s = drop (n + w s) s" by (subst strip_ws.simps) simp
    then show ?thesis by blast
  qed
qed

lemma strip_ws_stop: "w (strip_ws w s) = 0 \<or> strip_ws w s = []"
proof (induction w s rule: strip_ws.induct)
  case (1 w s)
  then show ?case by (cases "w s = 0 \<or> s = []") (auto simp: strip_ws.simps [of w s])
qed

lemma strip_ws_id: "w s = 0 \<Longrightarrow> strip_ws w s = s"
  by (subst strip_ws.simps) simp

lemma ws_len_Nil [simp]: "ws_len [] = 0" and ws_len_rev_Nil [simp]: "ws_len_rev [] = 0"
  by (simp_all add: ws_len_def ws_len_rev_def)

lemma strip_ws_len_zero: "ws_len (strip_ws ws_len s) = 0"
  using strip_ws_stop [of ws_len s] by auto

lemma strip_ws_len_rev_zero: "ws_len_rev (strip_ws ws_len_rev s) = 0"
  using strip_ws_stop [of ws_len_rev s] by auto

text \<open>A prefix of a string that does not start with white space does not either.\<close>

lemma ws_len_take: "ws_len s = 0 \<Longrightarrow> ws_len (take n s) = 0"
  by (cases s; cases "tl s"; cases "tl (tl s)"; cases n; cases "n - 1"; cases "n - 2")
    (auto simp: ws_len_def split: list.splits if_splits)

lemma trim_start_zero: "ws_len (trim_start s) = 0"
  by (simp add: trim_start_def strip_ws_len_zero)

lemma trim_end_take: "\<exists>n. trim_end s = take n s"
proof -
  obtain n where "strip_ws ws_len_rev (rev s) = drop n (rev s)" using strip_ws_drop by blast
  then have "trim_end s = take (length s - n) s"
    by (simp add: trim_end_def rev_drop)
  then show ?thesis by blast
qed

lemma ws_len_trim: "ws_len (trim s) = 0"
proof -
  obtain n where "trim s = take n (trim_start s)"
    using trim_end_take by (auto simp: trim_def)
  then show ?thesis by (simp add: ws_len_take trim_start_zero)
qed

lemma ws_len_rev_trim: "ws_len_rev (rev (trim s)) = 0"
  by (simp add: trim_def trim_end_def strip_ws_len_rev_zero)

lemma trim_fixed: "ws_len s = 0 \<Longrightarrow> ws_len_rev (rev s) = 0 \<Longrightarrow> trim s = s"
  by (simp add: trim_def trim_start_def trim_end_def strip_ws_id)

lemma trim_idem [simp]: "trim (trim s) = trim s"
  by (rule trim_fixed) (rule ws_len_trim, rule ws_len_rev_trim)

lemma trim_eq_iff: "trim s = s \<longleftrightarrow> ws_len s = 0 \<and> ws_len_rev (rev s) = 0"
  using trim_fixed ws_len_trim ws_len_rev_trim by metis

lemma set_trim: "set (trim s) \<subseteq> set s"
proof -
  obtain n where "trim s = take n (trim_start s)"
    using trim_end_take by (auto simp: trim_def)
  moreover obtain m where "trim_start s = drop m s"
    using strip_ws_drop by (auto simp: trim_start_def)
  ultimately have "trim s = take n (drop m s)" by simp
  then show ?thesis by (metis set_drop_subset set_take_subset subset_trans)
qed

lemma trim_Nil [simp]: "trim [] = []"
  by (rule trim_fixed) simp_all

text \<open>A byte that can neither start nor end a White\_Space encoding keeps a string trimmed.\<close>

definition solid :: "char \<Rightarrow> bool" where
  "solid c \<longleftrightarrow> 33 \<le> byte c \<and> byte c \<le> 127"

lemma ws_len_solid: "solid c \<Longrightarrow> ws_len (c # s) = 0"
  by (auto simp: ws_len_def solid_def ws1_def ws2_def ws3_def split: list.splits)

lemma ws_len_rev_solid: "solid c \<Longrightarrow> ws_len_rev (c # s) = 0"
  by (auto simp: ws_len_rev_def solid_def ws1_def ws2_def ws3_def split: list.splits)

lemma trim_solid: "s \<noteq> [] \<Longrightarrow> solid (hd s) \<Longrightarrow> solid (last s) \<Longrightarrow> trim s = s"
proof (rule trim_fixed)
  assume ne: "s \<noteq> []" and first: "solid (hd s)" and fin: "solid (last s)"
  show "ws_len s = 0" using ne first by (cases s) (auto simp: ws_len_solid)
  have "rev s = last s # rev (butlast s)"
    using ne by (metis append_butlast_last_id rev.simps(2) rev_rev_ident)
  then show "ws_len_rev (rev s) = 0" using ws_len_rev_solid [OF fin] by metis
qed

lemma alphanumeric_solid: "is_alphanumeric c \<Longrightarrow> solid c"
  by (auto simp: is_alphanumeric_def is_digit_def is_lower_def is_upper_def solid_def)

subsection \<open>Decimal numerals\<close>

lemma is_digit_char_of: "m < 10 \<Longrightarrow> is_digit (char_of (48 + m :: nat)) \<and> byte (char_of (48 + m :: nat)) = 48 + m"
  by (auto simp: is_digit_def byte_def)

lemma show_nat_digits: "list_all is_digit (show_nat n) \<and> show_nat n \<noteq> []"
proof (induction n rule: show_nat.induct)
  case (1 n)
  show ?case
  proof (cases "n < 10")
    case True
    then show ?thesis using is_digit_char_of [of n] by (simp add: show_nat.simps [of n])
  next
    case False
    then show ?thesis using 1 is_digit_char_of [of "n mod 10"] by (simp add: show_nat.simps [of n])
  qed
qed

lemma parse_digits_snoc: "parse_digits (xs @ [c]) = 10 * parse_digits xs + (byte c - 48)"
  by (simp add: parse_digits_def)

lemma parse_show_nat: "parse_digits (show_nat n) = n"
proof (induction n rule: show_nat.induct)
  case (1 n)
  show ?case
  proof (cases "n < 10")
    case True
    then show ?thesis
      using is_digit_char_of [of n] by (simp add: show_nat.simps [of n] parse_digits_def)
  next
    case False
    then show ?thesis
      using 1 is_digit_char_of [of "n mod 10"] by (simp add: show_nat.simps [of n] parse_digits_snoc)
  qed
qed

lemma show_nat_length: "n < 10 ^ Suc k \<Longrightarrow> length (show_nat n) \<le> Suc k"
proof (induction k arbitrary: n)
  case 0
  then show ?case by (simp add: show_nat.simps [of n])
next
  case (Suc k)
  show ?case
  proof (cases "n < 10")
    case True
    then show ?thesis by (simp add: show_nat.simps [of n])
  next
    case False
    have "n div 10 < 10 ^ Suc k" using Suc.prems by (simp add: less_mult_imp_div_less)
    from Suc.IH [OF this] show ?thesis using False by (simp add: show_nat.simps [of n])
  qed
qed

lemma solid_digit: "is_digit c \<Longrightarrow> solid c"
  by (auto simp: is_digit_def solid_def)

subsection \<open>Splitting and joining\<close>

lemma split_on_not_Nil [simp]: "split_on d s \<noteq> []"
  by (induction s) (auto split: list.splits)

lemma split_on_none: "d \<notin> set s \<Longrightarrow> split_on d s = [s]"
  by (induction s) auto

lemma split_on_append:
  "d \<notin> set s \<Longrightarrow> split_on d (s @ d # t) = s # split_on d t"
  by (induction s) auto

lemma split_on_parts: "p \<in> set (split_on d s) \<Longrightarrow> d \<notin> set p"
  by (induction s arbitrary: p) (auto split: list.splits if_splits)

lemma split_on_parts_subset: "p \<in> set (split_on d s) \<Longrightarrow> set p \<subseteq> set s"
proof (induction s arbitrary: p)
  case Nil
  then show ?case by simp
next
  case (Cons c cs)
  then show ?case by (cases "split_on d cs") (fastforce split: if_splits)+
qed

lemma join_Cons: "ps \<noteq> [] \<Longrightarrow> join sep (p # ps) = p @ sep @ join sep ps"
  by (cases ps) auto

lemma join_split_on: "join [d] (split_on d s) = s"
proof (induction s)
  case Nil
  then show ?case by simp
next
  case (Cons c cs)
  obtain p ps where ps: "split_on d cs = p # ps"
    by (meson list.exhaust split_on_not_Nil)
  show ?case
    using Cons ps by (cases ps) auto
qed

lemma split_on_join:
  "ps \<noteq> [] \<Longrightarrow> \<forall>p \<in> set ps. d \<notin> set p \<Longrightarrow> split_on d (join [d] ps) = ps"
proof (induction ps)
  case Nil
  then show ?case by simp
next
  case (Cons p ps)
  then show ?case
    by (cases "ps = []") (auto simp: split_on_none split_on_append join_Cons)
qed

lemma split_once_Some:
  "split_once d s = Some (a, b) \<longleftrightarrow> s = a @ d # b \<and> d \<notin> set a"
proof (induction s arbitrary: a)
  case Nil
  then show ?case by simp
next
  case (Cons c cs)
  show ?case
    by (cases a) (auto simp: Cons.IH split: prod.splits)
qed

lemma split_once_None: "split_once d s = None \<longleftrightarrow> d \<notin> set s"
  by (induction s) auto

lemma split_on_split_once:
  "split_on d s = (case split_once d s of None \<Rightarrow> [s] | Some (a, b) \<Rightarrow> a # split_on d b)"
proof (cases "split_once d s")
  case None
  then have "split_on d s = [s]" by (simp add: split_once_None split_on_none)
  then show ?thesis using None by simp
next
  case (Some ab)
  obtain a b where ab: "ab = (a, b)" by (cases ab)
  from Some have "s = a @ d # b" "d \<notin> set a"
    by (simp_all add: ab split_once_Some)
  then show ?thesis using Some by (simp add: ab split_on_append)
qed

lemma set_lines: "l \<in> set (lines s) \<Longrightarrow> newline \<notin> set l"
proof -
  let ?ps = "split_on newline s"
  assume "l \<in> set (lines s)"
  then have "l \<in> drop_cr ` set (butlast ?ps) \<or> l = last ?ps"
    by (auto simp: lines_def Let_def split: if_splits)
  moreover have "last ?ps \<in> set ?ps" by simp
  ultimately obtain p where p: "p \<in> set ?ps" and "l = p \<or> l = drop_cr p"
    by (metis imageE in_set_butlastD)
  then have "set l \<subseteq> set p"
    by (auto simp: drop_cr_def dest: in_set_butlastD split: if_splits)
  then show ?thesis using split_on_parts [OF p] by auto
qed

text \<open>Lines that hold no line break and do not end in a carriage return survive join and split.\<close>

lemma lines_join:
  assumes "ls \<noteq> []" and "\<forall>l \<in> set ls. newline \<notin> set l \<and> l \<noteq> [] \<and> last l \<noteq> carriage_return"
  shows "lines (join [newline] ls) = ls"
proof -
  have parts: "split_on newline (join [newline] ls) = ls"
    using assms by (intro split_on_join) auto
  have keep: "map drop_cr (butlast ls) = butlast ls"
    using assms(2) by (intro map_idI) (auto simp: drop_cr_def dest: in_set_butlastD)
  have "last ls \<noteq> []" using assms by (metis last_in_set)
  then show ?thesis
    using assms(1) by (simp add: lines_def Let_def parts keep)
qed

lemma trimmed_last_not_cr: "trim s = s \<Longrightarrow> s \<noteq> [] \<Longrightarrow> last s \<noteq> carriage_return"
proof
  assume t: "trim s = s" and ne: "s \<noteq> []" and cr: "last s = carriage_return"
  obtain cs where "rev s = carriage_return # cs"
    using ne cr by (metis hd_rev list.collapse rev_is_Nil_conv)
  then have "ws_len_rev (rev s) = 1"
    by (simp add: ws_len_rev_def ws1_def carriage_return_def byte_def)
  then show False using t by (simp add: trim_eq_iff)
qed

end
