(* ===== verification/BTree.thy ===== *)
theory BTree
  imports RustStr
begin

text \<open>
  \<open>std::collections::BTreeMap\<close> as a key-sorted association list: iteration is in key order,
  \<open>insert\<close> overwrites, \<open>get\<close> and \<open>contains_key\<close> look up. The locale \<open>ordered_map\<close> states the
  contract its clients (adapter registries, reconcile plans, dependency graphs) rely on, and
  \<open>bt\<close> interprets it on the executable lists.
\<close>

type_synonym ('k, 'v) btmap = "('k \<times> 'v) list"

fun bt_insert :: "'k::linorder \<Rightarrow> 'v \<Rightarrow> ('k, 'v) btmap \<Rightarrow> ('k, 'v) btmap" where
  "bt_insert k v [] = [(k, v)]"
| "bt_insert k v ((a, b) # m) =
     (if k < a then (k, v) # (a, b) # m
      else if k = a then (k, v) # m
      else (a, b) # bt_insert k v m)"

fun bt_remove :: "'k::linorder \<Rightarrow> ('k, 'v) btmap \<Rightarrow> ('k, 'v) btmap" where
  "bt_remove k [] = []"
| "bt_remove k ((a, b) # m) = (if k = a then m else (a, b) # bt_remove k m)"

fun bt_get :: "('k::linorder, 'v) btmap \<Rightarrow> 'k \<Rightarrow> 'v option" where
  "bt_get [] k = None"
| "bt_get ((a, b) # m) k = (if k = a then Some b else bt_get m k)"

definition bt_keys :: "('k, 'v) btmap \<Rightarrow> 'k list" where
  "bt_keys m = map fst m"

definition bt_values :: "('k, 'v) btmap \<Rightarrow> 'v list" where
  "bt_values m = map snd m"

definition bt_wf :: "('k::linorder, 'v) btmap \<Rightarrow> bool" where
  "bt_wf m \<longleftrightarrow> sorted_wrt (<) (map fst m)"

fun bt_collect :: "('k::linorder \<times> 'v) list \<Rightarrow> ('k, 'v) btmap \<Rightarrow> ('k, 'v) btmap" where
  "bt_collect [] m = m"
| "bt_collect ((k, v) # kvs) m = bt_collect kvs (bt_insert k v m)"

text \<open>\<open>entry(k).or_insert_with(d)\<close> followed by an update of the slot.\<close>

definition bt_upsert :: "'k::linorder \<Rightarrow> 'v \<Rightarrow> ('v \<Rightarrow> 'v) \<Rightarrow> ('k, 'v) btmap \<Rightarrow> ('k, 'v) btmap" where
  "bt_upsert k d f m =
     (case bt_get m k of None \<Rightarrow> bt_insert k (f d) m | Some v \<Rightarrow> bt_insert k (f v) m)"

subsection \<open>The map interface\<close>

locale ordered_map =
  fixes empty :: "'m"
    and ins :: "'k::linorder \<Rightarrow> 'v \<Rightarrow> 'm \<Rightarrow> 'm"
    and get :: "'m \<Rightarrow> 'k \<Rightarrow> 'v option"
    and entries :: "'m \<Rightarrow> ('k \<times> 'v) list"
    and wf :: "'m \<Rightarrow> bool"
  assumes wf_empty: "wf empty"
    and get_empty: "get empty k = None"
    and wf_ins: "wf m \<Longrightarrow> wf (ins k v m)"
    and get_ins: "wf m \<Longrightarrow> get (ins k v m) j = (if j = k then Some v else get m j)"
    and get_entries: "wf m \<Longrightarrow> get m k = Some v \<longleftrightarrow> (k, v) \<in> set (entries m)"
    and entries_sorted: "wf m \<Longrightarrow> sorted_wrt (<) (map fst (entries m))"
begin

lemma get_same: "wf m \<Longrightarrow> get (ins k v m) k = Some v"
  by (simp add: get_ins)

lemma get_other: "wf m \<Longrightarrow> j \<noteq> k \<Longrightarrow> get (ins k v m) j = get m j"
  by (simp add: get_ins)

lemma get_None_entries: "wf m \<Longrightarrow> get m k = None \<longleftrightarrow> k \<notin> fst ` set (entries m)"
proof -
  assume wf: "wf m"
  have "get m k = None \<longleftrightarrow> (\<forall>v. get m k \<noteq> Some v)" by auto
  also have "\<dots> \<longleftrightarrow> k \<notin> fst ` set (entries m)"
    using get_entries [OF wf] by force
  finally show ?thesis .
qed

lemma entries_distinct: "wf m \<Longrightarrow> distinct (map fst (entries m))"
  using entries_sorted strict_sorted_iff by blast

lemma entries_unique:
  "wf m \<Longrightarrow> (k, v) \<in> set (entries m) \<Longrightarrow> (k, w) \<in> set (entries m) \<Longrightarrow> v = w"
  using get_entries by (metis option.inject)

end

subsection \<open>The lists implement it\<close>

lemma bt_insert_keys: "fst ` set (bt_insert k v m) = insert k (fst ` set m)"
  by (induction k v m rule: bt_insert.induct) auto

lemma bt_wf_Nil [simp]: "bt_wf []"
  by (simp add: bt_wf_def)

lemma bt_wf_Cons: "bt_wf ((a, b) # m) \<longleftrightarrow> (\<forall>k \<in> fst ` set m. a < k) \<and> bt_wf m"
  by (auto simp: bt_wf_def)

lemma bt_wf_insert: "bt_wf m \<Longrightarrow> bt_wf (bt_insert k v m)"
proof (induction k v m rule: bt_insert.induct)
  case (1 k v)
  then show ?case by (simp add: bt_wf_def)
next
  case (2 k v a b m)
  then show ?case
    by (auto simp: bt_wf_Cons bt_insert_keys)
qed

lemma bt_get_insert: "bt_get (bt_insert k v m) j = (if j = k then Some v else bt_get m j)"
  by (induction k v m rule: bt_insert.induct) auto

lemma bt_get_None: "bt_get m k = None \<longleftrightarrow> k \<notin> fst ` set m"
  by (induction m k rule: bt_get.induct) auto

lemma bt_get_in: "bt_get m k = Some v \<Longrightarrow> (k, v) \<in> set m"
  by (induction m k rule: bt_get.induct) (auto split: if_splits)

lemma bt_get_mem: "bt_wf m \<Longrightarrow> bt_get m k = Some v \<longleftrightarrow> (k, v) \<in> set m"
proof (induction m)
  case Nil
  then show ?case by simp
next
  case (Cons e m)
  then show ?case by (cases e) (force simp: bt_wf_Cons)
qed

lemma bt_get_remove:
  "bt_wf m \<Longrightarrow> bt_get (bt_remove k m) j = (if j = k then None else bt_get m j)"
proof (induction m)
  case Nil
  then show ?case by simp
next
  case (Cons e m)
  obtain a b where e: "e = (a, b)" by (cases e)
  have "bt_get m a = None" "bt_wf m"
    using Cons.prems by (auto simp: e bt_wf_Cons bt_get_None)
  then show ?case using Cons.IH by (auto simp: e)
qed

lemma bt_remove_subset: "set (bt_remove k m) \<subseteq> set m"
  by (induction k m rule: bt_remove.induct) auto

lemma bt_wf_remove: "bt_wf m \<Longrightarrow> bt_wf (bt_remove k m)"
proof (induction m)
  case Nil
  then show ?case by simp
next
  case (Cons e m)
  with bt_remove_subset [of k m] show ?case by (cases e) (auto simp: bt_wf_Cons)
qed

interpretation bt: ordered_map "[]" bt_insert bt_get "\<lambda>m. m" bt_wf
proof unfold_locales
  show "sorted_wrt (<) (map fst m)" if "bt_wf m" for m :: "('a \<times> 'b) list"
    using that by (simp add: bt_wf_def)
qed (auto simp: bt_wf_insert bt_get_insert bt_get_mem)

lemma bt_wf_upsert: "bt_wf m \<Longrightarrow> bt_wf (bt_upsert k d f m)"
  by (auto simp: bt_upsert_def bt_wf_insert split: option.splits)

lemma bt_get_upsert:
  "bt_get (bt_upsert k d f m) j =
     (if j = k then Some (f (case bt_get m k of None \<Rightarrow> d | Some v \<Rightarrow> v)) else bt_get m j)"
  by (auto simp: bt_upsert_def bt_get_insert split: option.splits)

lemma bt_upsert_keys: "fst ` set (bt_upsert k d f m) = insert k (fst ` set m)"
  by (auto simp: bt_upsert_def bt_insert_keys split: option.splits)

lemma bt_wf_collect: "bt_wf m \<Longrightarrow> bt_wf (bt_collect kvs m)"
  by (induction kvs m rule: bt_collect.induct) (auto simp: bt_wf_insert)

lemma bt_collect_keys: "fst ` set (bt_collect kvs m) = fst ` set kvs \<union> fst ` set m"
  by (induction kvs m rule: bt_collect.induct) (auto simp: bt_insert_keys)

lemma bt_get_append:
  "bt_get (xs @ ys) k = (case bt_get xs k of None \<Rightarrow> bt_get ys k | Some v \<Rightarrow> Some v)"
  by (induction xs k rule: bt_get.induct) auto

lemma bt_collect_get:
  "bt_get (bt_collect kvs m) k =
     (case bt_get (rev kvs) k of None \<Rightarrow> bt_get m k | Some v \<Rightarrow> Some v)"
proof (induction kvs m rule: bt_collect.induct)
  case (1 m)
  then show ?case by simp
next
  case (2 a b kvs m)
  show ?case
    using 2 by (auto simp: bt_get_append bt_get_insert split: option.splits)
qed

lemma bt_get_distinct: "distinct (map fst m) \<Longrightarrow> (k, v) \<in> set m \<Longrightarrow> bt_get m k = Some v"
  by (induction m k rule: bt_get.induct) force+

lemma bt_wf_distinct: "bt_wf m \<Longrightarrow> distinct (map fst m)"
  by (rule bt.entries_distinct)

lemma bt_collect_length: "length (bt_collect kvs []) = card (set (map fst kvs))"
proof -
  have "distinct (map fst (bt_collect kvs []))"
    by (intro bt_wf_distinct bt_wf_collect bt_wf_Nil)
  from distinct_card [OF this] show ?thesis by (simp add: bt_collect_keys)
qed

lemma bt_collect_length_eq:
  "length (bt_collect kvs []) = length kvs \<longleftrightarrow> distinct (map fst kvs)"
  unfolding bt_collect_length
  using card_distinct [of "map fst kvs"] distinct_card [of "map fst kvs"] by auto

end
