(* ===== verification/Models.thy ===== *)
theory Models
  imports BTree
begin

text \<open>
  The data the control plane passes around: \<open>models.rs\<close> (settings, users, protocol profiles),
  \<open>desired.rs\<close> (desired and applied state, the reconcile journal) and the plain data of
  \<open>adapter.rs\<close> (manifests, listener claims, fragments, plans). \<open>serde_json::Value\<close> is the
  datatype \<open>json\<close>; its objects are key-sorted maps, as without the \<open>preserve_order\<close> feature.
  Paths are lists of components.
\<close>

datatype json =
    JNull
  | JBool bool
  | JNum int
  | JString string
  | JArray "json list"
  | JObject "(string \<times> json) list"

definition is_object :: "json \<Rightarrow> bool" where
  "is_object j = (case j of JObject _ \<Rightarrow> True | _ \<Rightarrow> False)"

type_synonym path = "string list"
type_synonym instant = int

subsection \<open>models.rs\<close>

record panel_settings =
  panel_name :: string
  subscription_domain :: string
  node_domain :: string

definition default_panel_settings :: panel_settings where
  "default_panel_settings =
     \<lparr>panel_name = ''Infiproxy'',
      subscription_domain = ''sub.infiproxy.local'',
      node_domain = ''node.infiproxy.local''\<rparr>"

record subscription_user =
  su_username :: string
  su_uuid :: string
  su_token :: string

datatype proxy_role = AutoSafe | Speed | Compatibility | RuAccess | Manual

record protocol_profile =
  pr_name :: string
  pr_display_name :: string
  pr_protocol_id :: string
  pr_schema_version :: u32
  pr_role :: proxy_role
  pr_server :: string
  pr_port :: u16
  pr_enabled :: bool
  pr_preferred_core :: "string option"
  pr_managed_resource :: "string option"
  pr_config :: json

subsection \<open>Listeners\<close>

datatype listener_network = Tcp | Udp

datatype listener_claim = ListenerClaim (lc_network: listener_network) (lc_port: u16)

text \<open>\<open>#[derive(PartialOrd, Ord)]\<close>: variants in declaration order, fields lexicographically.\<close>

definition network_rank :: "listener_network \<Rightarrow> nat" where
  "network_rank n = (case n of Tcp \<Rightarrow> 0 | Udp \<Rightarrow> 1)"

lemma network_rank_inject: "network_rank a = network_rank b \<longleftrightarrow> a = b"
  by (cases a; cases b) (simp_all add: network_rank_def)

instantiation listener_network :: linorder
begin

definition less_eq_listener_network :: "listener_network \<Rightarrow> listener_network \<Rightarrow> bool" where
  "a \<le> b \<longleftrightarrow> network_rank a \<le> network_rank b"

definition less_listener_network :: "listener_network \<Rightarrow> listener_network \<Rightarrow> bool" where
  "a < b \<longleftrightarrow> network_rank a < network_rank b"

instance
  by standard
    (auto simp: less_eq_listener_network_def less_listener_network_def network_rank_inject [symmetric])

end

instantiation listener_claim :: linorder
begin

definition less_eq_listener_claim :: "listener_claim \<Rightarrow> listener_claim \<Rightarrow> bool" where
  "a \<le> b \<longleftrightarrow>
     lc_network a < lc_network b \<or> lc_network a = lc_network b \<and> lc_port a \<le> lc_port b"

definition less_listener_claim :: "listener_claim \<Rightarrow> listener_claim \<Rightarrow> bool" where
  "a < b \<longleftrightarrow>
     lc_network a < lc_network b \<or> lc_network a = lc_network b \<and> lc_port a < lc_port b"

instance
proof
  fix a b c :: listener_claim
  show "a < b \<longleftrightarrow> a \<le> b \<and> \<not> b \<le> a"
    by (auto simp: less_eq_listener_claim_def less_listener_claim_def)
  show "a \<le> a" by (simp add: less_eq_listener_claim_def)
  show "a \<le> b \<Longrightarrow> b \<le> c \<Longrightarrow> a \<le> c"
    by (auto simp: less_eq_listener_claim_def)
  show "a \<le> b \<Longrightarrow> b \<le> a \<Longrightarrow> a = b"
    by (cases a; cases b) (auto simp: less_eq_listener_claim_def)
  show "a \<le> b \<or> b \<le> a"
    by (auto simp: less_eq_listener_claim_def)
qed

end

subsection \<open>desired.rs\<close>

datatype reconcile_status =
    StPending | StApplying | StApplied | StFailed | StRolledBack | StUnsupported
  | StRecoveryRequired

datatype resource_kind =
    KDomain | KCertificate | KTlsFrontend | KDecoyTarget | KListener | KPortAllocation
  | KAdapterOwned

record infrastructure_resource =
  ir_resource_id :: string
  ir_adapter_id :: string
  ir_schema_version :: u32
  ir_enabled :: bool
  ir_kind :: resource_kind
  ir_dependencies :: "string list"
  ir_listeners :: "listener_claim list"
  ir_config :: json

record desired_state =
  ds_generation :: u64
  ds_profiles :: "protocol_profile list"
  ds_users :: "subscription_user list"
  ds_settings :: "(string, string) btmap"
  ds_infrastructure :: "infrastructure_resource list"

record applied_state =
  ap_generation :: u64
  ap_active_core_ids :: "string list"

definition default_applied :: applied_state where
  "default_applied = \<lparr>ap_generation = 0, ap_active_core_ids = []\<rparr>"

datatype journal_phase =
    PhPrepared | PhStaged | PhValidated | PhSnapshotted | PhInstalled | PhActivated
  | PhHealthy | PhPublishing | PhPublished | PhRollbackStarted | PhRolledBack
  | PhRecoveryRequired

record journal_resource =
  jr_core_id :: string
  jr_snapshot_path :: path
  jr_service_was_enabled :: bool
  jr_service_was_active :: bool
  jr_mutation_started :: bool
  jr_verified :: bool

record journal_entry =
  jn_operation_id :: string
  jn_generation :: u64
  jn_previous_generation :: u64
  jn_previous_active_core_ids :: "string list"
  jn_phase :: journal_phase
  jn_status :: reconcile_status
  jn_core_ids :: "string list"
  jn_current_core_id :: "string option"
  jn_resources :: "journal_resource list"
  jn_error :: "string option"
  jn_started_at :: string
  jn_completed_at :: "string option"

text \<open>
  \<open>JournalEntry::prepared\<close>; the fresh UUID and the clock reading are its last two arguments.
\<close>

definition journal_prepared :: "u64 \<Rightarrow> u64 \<Rightarrow> string \<Rightarrow> string \<Rightarrow> journal_entry" where
  "journal_prepared generation previous uuid now =
     \<lparr>jn_operation_id = uuid,
      jn_generation = generation,
      jn_previous_generation = previous,
      jn_previous_active_core_ids = [],
      jn_phase = PhPrepared,
      jn_status = StPending,
      jn_core_ids = [],
      jn_current_core_id = None,
      jn_resources = [],
      jn_error = None,
      jn_started_at = now,
      jn_completed_at = None\<rparr>"

end
