(* ===== verification/Filesystem.thy ===== *)
theory Filesystem
  imports BTree RustStr Models
begin

text \<open>
  The part of \<open>std::fs\<close> the durable store relies on: a map from paths to regular files,
  directories and anything else (symbolic links, devices), the operations that create, write,
  rename and remove them, and \<open>write_bytes_atomic\<close> with the point at which it may stop. A stop
  is an I/O error or a crash; what the file system holds then is the second component.
\<close>

datatype file_node = RegularFile string | Directory | SpecialNode

type_synonym fs = "(path, file_node) btmap"

definition fs_remove :: "path \<Rightarrow> fs \<Rightarrow> fs" where
  "fs_remove p fs = filter (\<lambda>(q, _). q \<noteq> p) fs"

definition inside :: "path \<Rightarrow> path \<Rightarrow> bool" where
  "inside p q \<longleftrightarrow> take (length p) q = p"

fun create_dirs :: "path list \<Rightarrow> fs \<Rightarrow> unit res \<times> fs" where
  "create_dirs [] fs = (Ok (), fs)"
| "create_dirs (p # ps) fs = (case bt_get fs p of
      None \<Rightarrow> create_dirs ps (bt_insert p Directory fs)
    | Some Directory \<Rightarrow> create_dirs ps fs
    | Some _ \<Rightarrow> (Err ''not a directory'', fs))"

definition ancestors :: "path \<Rightarrow> path list" where
  "ancestors p = map (\<lambda>n. take (Suc n) p) [0..<length p]"

definition create_dir_all :: "path \<Rightarrow> fs \<Rightarrow> unit res \<times> fs" where
  "create_dir_all p fs = create_dirs (ancestors p) fs"

definition remove_dir_all :: "path \<Rightarrow> fs \<Rightarrow> unit res \<times> fs" where
  "remove_dir_all p fs = (case bt_get fs p of
      Some Directory \<Rightarrow> (Ok (), filter (\<lambda>(q, _). \<not> inside p q) fs)
    | _ \<Rightarrow> (Err ''not a directory'', fs))"

subsection \<open>Atomic replacement of a file\<close>

datatype write_stop = AtCreateDir | AtOpen | AtWrite nat | AtSync | AtRename | AtDirSync

definition write_bytes_atomic ::
  "write_stop option \<Rightarrow> string \<Rightarrow> path \<Rightarrow> string \<Rightarrow> fs \<Rightarrow> unit res \<times> fs" where
  "write_bytes_atomic stop uuid p bytes fs =
     (if p = [] then (Err ''state path has no parent'', fs)
      else if stop = Some AtCreateDir then (Err ''create'', fs)
      else case create_dir_all (butlast p) fs of
        (Inl e, fs1) \<Rightarrow> (Err e, fs1)
      | (Inr _, fs1) \<Rightarrow>
          (let temporary = butlast p @ [''.reconcile-'' @ uuid @ ''.tmp''] in
           if stop = Some AtOpen \<or> bt_get fs1 temporary \<noteq> None then (Err ''open'', fs1)
           else (case stop of
               Some (AtWrite n) \<Rightarrow> (Err ''write'', bt_insert temporary (RegularFile (take n bytes)) fs1)
             | _ \<Rightarrow>
               (let fs2 = bt_insert temporary (RegularFile bytes) fs1 in
                if stop = Some AtSync then (Err ''sync'', fs2)
                else if stop = Some AtRename \<or> bt_get fs2 p = Some Directory then (Err ''rename'', fs2)
                else
                  (let fs3 = bt_insert p (RegularFile bytes) (fs_remove temporary fs2) in
                   if stop = Some AtDirSync then (Err ''sync'', fs3) else (Ok (), fs3))))))"

subsection \<open>What each operation changes\<close>

lemma bt_get_filter: "bt_get (filter (\<lambda>(q, _). P q) m) k = (if P k then bt_get m k else None)"
  by (induction m) auto

lemma bt_get_fs_remove: "bt_get (fs_remove p fs) q = (if q = p then None else bt_get fs q)"
  by (simp add: fs_remove_def bt_get_filter)

lemma create_dirs_get:
  "create_dirs ps fs = (r, fs') \<Longrightarrow> q \<notin> set ps \<Longrightarrow> bt_get fs' q = bt_get fs q"
  by (induction ps fs arbitrary: fs' r rule: create_dirs.induct)
    (auto simp: bt_get_insert split: option.splits file_node.splits)

lemma create_dirs_keeps:
  "create_dirs ps fs = (r, fs') \<Longrightarrow> bt_get fs q = Some n \<Longrightarrow> bt_get fs' q = Some n"
proof (induction ps fs arbitrary: fs' r rule: create_dirs.induct)
  case (2 p ps fs)
  then show ?case
    by (cases "bt_get fs p"; cases "q = p") (auto simp: bt_get_insert split: file_node.splits)
qed simp

lemma create_dirs_ok:
  "create_dirs ps fs = (Ok (), fs') \<Longrightarrow> q \<in> set ps \<Longrightarrow> bt_get fs' q = Some Directory"
proof (induction ps fs arbitrary: fs' rule: create_dirs.induct)
  case (1 fs)
  then show ?case by simp
next
  case (2 p ps fs)
  show ?case
  proof (cases "q = p")
    case True
    then show ?thesis
      using 2(3) by (auto simp: bt_get_insert split: option.splits file_node.splits
          intro: create_dirs_keeps)
  next
    case False
    then show ?thesis using 2 by (auto split: option.splits file_node.splits)
  qed
qed

lemma ancestors_length: "q \<in> set (ancestors p) \<Longrightarrow> length q \<le> length p"
  by (auto simp: ancestors_def)

lemma ancestors_butlast: "p \<noteq> [] \<Longrightarrow> length q = length p \<Longrightarrow> q \<notin> set (ancestors (butlast p))"
  using ancestors_length [of q "butlast p"] by (cases p) auto

definition temporary_of :: "path \<Rightarrow> string \<Rightarrow> path" where
  "temporary_of p uuid = butlast p @ [''.reconcile-'' @ uuid @ ''.tmp'']"

text \<open>
  A path that is neither a directory on the way to the file nor the temporary name is left
  alone, whatever happens; the file itself holds its old content or all of the new one.
\<close>

lemma write_bytes_atomic_frame:
  assumes "write_bytes_atomic stop uuid p bytes fs = (r, fs')"
    and "q \<noteq> p" "q \<noteq> temporary_of p uuid" "q \<notin> set (ancestors (butlast p))"
  shows "bt_get fs' q = bt_get fs q"
  using assms
  by (auto simp: write_bytes_atomic_def create_dir_all_def Let_def bt_get_insert bt_get_fs_remove
      temporary_of_def create_dirs_get split: if_splits prod.splits sum.splits option.splits write_stop.splits)

lemma write_bytes_atomic_target:
  assumes w: "write_bytes_atomic stop uuid p bytes fs = (r, fs')"
    and name: "p \<noteq> temporary_of p uuid"
  shows "bt_get fs' p = bt_get fs p \<or> bt_get fs' p = Some (RegularFile bytes)"
proof (cases "p = []")
  case True
  then show ?thesis using w by (simp add: write_bytes_atomic_def)
next
  case False
  have notanc: "p \<notin> set (ancestors (butlast p))" by (rule ancestors_butlast [OF False refl])
  show ?thesis
    using w name
    by (auto simp: write_bytes_atomic_def create_dir_all_def Let_def bt_get_insert bt_get_fs_remove
      temporary_of_def create_dirs_get [OF _ notanc]
      split: if_splits prod.splits sum.splits option.splits write_stop.splits)
qed

lemma write_bytes_atomic_ok:
  "write_bytes_atomic stop uuid p bytes fs = (Ok (), fs') \<Longrightarrow> bt_get fs' p = Some (RegularFile bytes)"
  by (auto simp: write_bytes_atomic_def Let_def bt_get_insert
      split: if_splits prod.splits sum.splits option.splits write_stop.splits)

end
