(* ===== verification/Telemetry.thy ===== *)
theory Telemetry
  imports Models
begin

text \<open>
  \<open>telemetry.rs\<close>: runtime observations and the normalisation of cumulative traffic counters.
  Counters are \<open>u64\<close> words, so the subtractions of \<open>normalize_cumulative\<close> would wrap if the
  code did not guard them. \<open>Duration\<close> is \<open>int\<close> like the instants it separates.
\<close>

datatype telemetry_metric =
    ProcessState | ListenerState | RuntimeVersion | ActiveConnections | AggregateTraffic
  | PerUserTraffic

definition metric_rank :: "telemetry_metric \<Rightarrow> nat" where
  "metric_rank m = (case m of ProcessState \<Rightarrow> 0 | ListenerState \<Rightarrow> 1 | RuntimeVersion \<Rightarrow> 2
     | ActiveConnections \<Rightarrow> 3 | AggregateTraffic \<Rightarrow> 4 | PerUserTraffic \<Rightarrow> 5)"

lemma metric_rank_inject: "metric_rank a = metric_rank b \<longleftrightarrow> a = b"
  by (cases a; cases b) (simp_all add: metric_rank_def)

instantiation telemetry_metric :: linorder
begin

definition less_eq_telemetry_metric :: "telemetry_metric \<Rightarrow> telemetry_metric \<Rightarrow> bool" where
  "a \<le> b \<longleftrightarrow> metric_rank a \<le> metric_rank b"

definition less_telemetry_metric :: "telemetry_metric \<Rightarrow> telemetry_metric \<Rightarrow> bool" where
  "a < b \<longleftrightarrow> metric_rank a < metric_rank b"

instance
  by standard
    (auto simp: less_eq_telemetry_metric_def less_telemetry_metric_def metric_rank_inject [symmetric])

end

datatype telemetry_state = TsSupported | TsUnsupported | TsUnavailable | TsStale | TsError

record traffic_counters =
  tc_rx_bytes :: u64
  tc_tx_bytes :: u64
  tc_total_bytes :: u64
  tc_active_connections :: "u64 option"
  tc_continuity :: string

record traffic_delta =
  td_rx_bytes :: u64
  td_tx_bytes :: u64
  td_total_bytes :: u64
  td_reset :: bool

record telemetry_observation =
  to_runtime_id :: string
  to_observed_at :: instant
  to_source :: string
  to_metrics :: "(telemetry_metric, telemetry_state) btmap"
  to_traffic :: "traffic_counters option"
  to_detail :: "string option"

definition stale_state :: "telemetry_state \<Rightarrow> telemetry_state" where
  "stale_state s = (if s = TsSupported \<or> s = TsUnavailable then TsStale else s)"

definition with_freshness :: "telemetry_observation \<Rightarrow> instant \<Rightarrow> int \<Rightarrow> telemetry_observation" where
  "with_freshness obs now max_age =
     (if now - to_observed_at obs > max_age
      then obs\<lparr>to_metrics := map (\<lambda>(m, s). (m, stale_state s)) (to_metrics obs)\<rparr>
      else obs)"

definition counters_continuous :: "traffic_counters \<Rightarrow> traffic_counters \<Rightarrow> bool" where
  "counters_continuous old current \<longleftrightarrow>
     tc_continuity old = tc_continuity current
     \<and> tc_rx_bytes old \<le> tc_rx_bytes current
     \<and> tc_tx_bytes old \<le> tc_tx_bytes current
     \<and> tc_total_bytes old \<le> tc_total_bytes current"

definition normalize_cumulative :: "traffic_counters option \<Rightarrow> traffic_counters \<Rightarrow> traffic_delta" where
  "normalize_cumulative previous current =
     (let continuous = (case previous of None \<Rightarrow> False | Some old \<Rightarrow> counters_continuous old current);
          delta = (case previous of
              Some old \<Rightarrow>
                if continuous
                then (tc_rx_bytes current - tc_rx_bytes old,
                      tc_tx_bytes current - tc_tx_bytes old,
                      tc_total_bytes current - tc_total_bytes old)
                else (tc_rx_bytes current, tc_tx_bytes current, tc_total_bytes current)
            | None \<Rightarrow> (tc_rx_bytes current, tc_tx_bytes current, tc_total_bytes current))
      in \<lparr>td_rx_bytes = fst delta,
          td_tx_bytes = fst (snd delta),
          td_total_bytes = snd (snd delta),
          td_reset = (previous \<noteq> None \<and> \<not> continuous)\<rparr>)"

text \<open>The delta never exceeds the sample, and on a continuous pair it is the exact difference.\<close>

lemma word_sub_le: "(a :: 'a::len word) \<le> b \<Longrightarrow> b - a \<le> b"
  by (simp add: word_le_nat_alt unat_sub)

lemma normalize_continuous_exact:
  assumes "counters_continuous old cur"
  shows "unat (td_rx_bytes (normalize_cumulative (Some old) cur)) + unat (tc_rx_bytes old)
           = unat (tc_rx_bytes cur)"
    and "unat (td_tx_bytes (normalize_cumulative (Some old) cur)) + unat (tc_tx_bytes old)
           = unat (tc_tx_bytes cur)"
    and "unat (td_total_bytes (normalize_cumulative (Some old) cur)) + unat (tc_total_bytes old)
           = unat (tc_total_bytes cur)"
    and "\<not> td_reset (normalize_cumulative (Some old) cur)"
  using assms
  by (auto simp: normalize_cumulative_def counters_continuous_def unat_sub word_le_nat_alt)

lemma normalize_bounded:
  "td_rx_bytes (normalize_cumulative prev cur) \<le> tc_rx_bytes cur"
  "td_tx_bytes (normalize_cumulative prev cur) \<le> tc_tx_bytes cur"
  "td_total_bytes (normalize_cumulative prev cur) \<le> tc_total_bytes cur"
  by (auto simp: normalize_cumulative_def counters_continuous_def word_sub_le Let_def
      split: option.splits)

text \<open>
  The telescoping form an accounting consumer relies on: over a run of samples with no reset,
  the deltas after the first add up to the last counter minus the first.
\<close>

fun delta_sum :: "traffic_counters \<Rightarrow> traffic_counters list \<Rightarrow> nat" where
  "delta_sum old [] = 0"
| "delta_sum old (c # cs) =
     unat (td_total_bytes (normalize_cumulative (Some old) c)) + delta_sum c cs"

fun no_reset :: "traffic_counters \<Rightarrow> traffic_counters list \<Rightarrow> bool" where
  "no_reset old [] = True"
| "no_reset old (c # cs) =
     (\<not> td_reset (normalize_cumulative (Some old) c) \<and> no_reset c cs)"

lemma no_reset_continuous:
  "\<not> td_reset (normalize_cumulative (Some old) c) \<longleftrightarrow> counters_continuous old c"
  by (auto simp: normalize_cumulative_def Let_def)

lemma delta_sum_telescopes:
  "no_reset old cs \<Longrightarrow>
     delta_sum old cs + unat (tc_total_bytes old) = unat (tc_total_bytes (last (old # cs)))"
proof (induction cs arbitrary: old)
  case Nil
  then show ?case by simp
next
  case (Cons c cs)
  then have "counters_continuous old c" by (simp add: no_reset_continuous)
  from normalize_continuous_exact(3) [OF this] Cons.IH [of c] Cons.prems show ?case
    by simp
qed

text \<open>Freshness never turns an unsupported metric into a stale one, and is idempotent.\<close>

lemma with_freshness_unsupported:
  "(m, TsUnsupported) \<in> set (to_metrics (with_freshness obs now age)) \<longleftrightarrow>
     (m, TsUnsupported) \<in> set (to_metrics obs)"
  by (force simp: with_freshness_def stale_state_def split: if_splits)

lemma stale_state_idem [simp]: "stale_state (stale_state s) = stale_state s"
  by (simp add: stale_state_def)

lemma with_freshness_idem:
  "with_freshness (with_freshness obs now age) now age = with_freshness obs now age"
  by (auto simp: with_freshness_def comp_def split_beta)

end
