(* ===== verification/Adapter.thy ===== *)
theory Adapter
  imports Telemetry
begin

text \<open>
  \<open>adapter.rs\<close>: identifiers and secret references, adapter manifests, the two adapter traits as
  records of operations, user-synchronisation observations, and the two registries with
  capability-based runtime selection. A trait object is a record of its methods. Methods that
  act on the host (\<open>stage_config\<close>, \<open>install_config\<close>, ...) are state transformers over an
  arbitrary world type \<open>'w\<close>; the observing methods (\<open>installed\<close>, \<open>compatible\<close>, \<open>probe\<close>,
  \<open>observe_users\<close>) read the world. The adapters behind the trait are parameters: everything
  proved here holds for every implementation.
\<close>

type_synonym ('w, 'a) io = "'w \<Rightarrow> 'a res \<times> 'w"

definition ADAPTER_API_VERSION :: u32 where "ADAPTER_API_VERSION = 1"

definition valid_adapter_id :: "string \<Rightarrow> bool" where
  "valid_adapter_id v \<longleftrightarrow>
     v \<noteq> [] \<and> length v \<le> 64
     \<and> list_all (\<lambda>b. is_lower b \<or> is_digit b \<or> b = CHR ''-'') v
     \<and> is_lower (hd v)"

subsection \<open>Secrets\<close>

definition parse_secret_ref :: "string \<Rightarrow> string res" where
  "parse_secret_ref v =
     (if v = [] \<or> length v > 128
         \<or> \<not> list_all (\<lambda>b. is_alphanumeric b \<or> b \<in> {CHR ''.'', CHR ''_'', CHR ''-''}) v
      then Err ''invalid secret reference'' else Ok v)"

definition new_secret_value :: "string \<Rightarrow> string res" where
  "new_secret_value v =
     (let t = trim v
      in if t = [] \<or> starts_with t ''REPLACE_WITH_'' then Err ''secret is not configured'' else Ok t)"

type_synonym secret_resolver = "string \<Rightarrow> string res"

definition map_resolve :: "(string, string) btmap \<Rightarrow> secret_resolver" where
  "map_resolve values reference =
     and_then (ok_or ''required secret reference is unresolved'' (bt_get values reference))
       new_secret_value"

subsection \<open>Manifests\<close>

datatype adapter_maturity = Stable | Experimental | Unsupported

datatype user_participation = NoUsers | SharedCredential | PerUserUuid

definition requires_individual_users :: "user_participation \<Rightarrow> bool" where
  "requires_individual_users p \<longleftrightarrow> p = PerUserUuid"

record validated_runtime =
  vr_adapter_id :: string
  vr_version :: string
  vr_exact_pin :: bool
  vr_incompatible_from :: "string option"

record protocol_composition =
  pc_protocol :: string
  pc_transport :: string
  pc_security :: string
  pc_flow :: "string option"
  pc_maturity :: adapter_maturity
  pc_client_baseline :: "string option"
  pc_preferred_runtime :: "validated_runtime option"
  pc_fallback_runtime :: "validated_runtime option"
  pc_compatibility_note :: "string option"

definition opaque_composition :: "string \<Rightarrow> protocol_composition" where
  "opaque_composition protocol =
     \<lparr>pc_protocol = protocol, pc_transport = ''adapter-defined'', pc_security = ''adapter-defined'',
      pc_flow = None, pc_maturity = Experimental, pc_client_baseline = None,
      pc_preferred_runtime = None, pc_fallback_runtime = None, pc_compatibility_note = None\<rparr>"

record protocol_manifest =
  pm_api_version :: u32
  pm_id :: string
  pm_display_name :: string
  pm_schema_version :: u32
  pm_required_capabilities :: "string set"
  pm_user_participation :: user_participation
  pm_listener_network :: listener_network
  pm_composition :: protocol_composition

record core_manifest =
  cm_api_version :: u32
  cm_id :: string
  cm_display_name :: string
  cm_capabilities :: "string set"
  cm_service :: string
  cm_selection_priority :: int

definition valid_composition_value :: "string \<Rightarrow> bool" where
  "valid_composition_value v \<longleftrightarrow>
     v \<noteq> [] \<and> length v \<le> 64
     \<and> list_all (\<lambda>b. is_alphanumeric b \<or> b \<in> {CHR ''-'', CHR ''_'', CHR ''+'', CHR ''.''}) v"

definition validate_capabilities :: "string set \<Rightarrow> unit res" where
  "validate_capabilities caps =
     (if \<forall>c \<in> caps. valid_adapter_id c then Ok () else Err ''invalid adapter capability'')"

definition validate_protocol_manifest :: "protocol_manifest \<Rightarrow> unit res" where
  "validate_protocol_manifest m =
     (let c = pm_composition m in
      if pm_api_version m \<noteq> ADAPTER_API_VERSION
         \<or> \<not> valid_adapter_id (pm_id m)
         \<or> trim (pm_display_name m) = []
         \<or> pm_schema_version m = 0
         \<or> pm_required_capabilities m = {}
         \<or> \<not> valid_composition_value (pc_protocol c)
         \<or> \<not> valid_composition_value (pc_transport c)
         \<or> \<not> valid_composition_value (pc_security c)
         \<or> (case pc_flow c of None \<Rightarrow> False | Some f \<Rightarrow> \<not> valid_composition_value f)
         \<or> pc_maturity c = Unsupported
      then Err ''invalid protocol adapter manifest''
      else validate_capabilities (pm_required_capabilities m))"

definition validate_core_manifest :: "core_manifest \<Rightarrow> unit res" where
  "validate_core_manifest m =
     (if cm_api_version m \<noteq> ADAPTER_API_VERSION
         \<or> \<not> valid_adapter_id (cm_id m)
         \<or> trim (cm_display_name m) = []
         \<or> cm_capabilities m = {}
         \<or> trim (cm_service m) = []
         \<or> \<not> (-1000 \<le> cm_selection_priority m \<and> cm_selection_priority m \<le> 1000)
      then Err ''invalid core adapter manifest''
      else validate_capabilities (cm_capabilities m))"

subsection \<open>Fragments, plans and observations\<close>

record server_fragment =
  sf_profile_id :: string
  sf_capability :: string
  sf_payload :: json
  sf_expected_user_ids :: "string set option"
  sf_listeners :: "listener_claim list"

record core_plan =
  cp_generation :: u64
  cp_core_id :: string
  cp_fragments :: "server_fragment list"

record core_snapshot =
  cs_path :: path
  cs_service_was_enabled :: bool
  cs_service_was_active :: bool

record core_probe =
  cb_installed :: "bool option"
  cb_active :: "bool option"
  cb_healthy :: "bool option"
  cb_listeners_healthy :: "bool option"
  cb_version :: "string option"
  cb_validated_version :: "string option"
  cb_version_compatible :: "bool option"
  cb_detail :: "string option"

definition default_probe :: core_probe where
  "default_probe =
     \<lparr>cb_installed = None, cb_active = None, cb_healthy = None, cb_listeners_healthy = None,
      cb_version = None, cb_validated_version = None, cb_version_compatible = None,
      cb_detail = None\<rparr>"

datatype user_sync_observation =
    SyncUnsupported
  | InSync nat
  | Drift (drift_expected: nat) (drift_observed: nat) (drift_missing: nat) (drift_unexpected: nat)

datatype user_sync_status =
    UsSynced | UsPending | UsDrifted | UsRuntimeUnavailable | UsUnsupportedObservation | UsFailed

definition user_sync_compare :: "string set \<Rightarrow> string set \<Rightarrow> user_sync_observation" where
  "user_sync_compare expected observed =
     (let missing = card (expected - observed); unexpected = card (observed - expected)
      in if missing = 0 \<and> unexpected = 0 then InSync (card expected)
         else Drift (card expected) (card observed) missing unexpected)"

subsection \<open>The adapter traits\<close>

record protocol_adapter =
  pa_manifest :: protocol_manifest
  pa_validate_config :: "u32 \<Rightarrow> json \<Rightarrow> unit res"
  pa_client_secret_references :: "json \<Rightarrow> string list res"
  pa_server_secret_references :: "json \<Rightarrow> string list res"
  pa_render_client :: "protocol_profile \<Rightarrow> subscription_user \<Rightarrow> secret_resolver \<Rightarrow> json res"
  pa_render_server :: "protocol_profile \<Rightarrow> subscription_user list \<Rightarrow> secret_resolver \<Rightarrow> server_fragment res"

definition pa_id :: "protocol_adapter \<Rightarrow> string" where
  "pa_id a = pm_id (pa_manifest a)"

definition pa_required :: "protocol_adapter \<Rightarrow> string set" where
  "pa_required a = pm_required_capabilities (pa_manifest a)"

definition pa_secret_references :: "protocol_adapter \<Rightarrow> json \<Rightarrow> string list res" where
  "pa_secret_references a config =
     and_then (pa_client_secret_references a config) (\<lambda>client.
     and_then (pa_server_secret_references a config) (\<lambda>server.
     Ok (remdups_adj (sort (client @ server)))))"

record 'w core_adapter =
  ca_manifest :: core_manifest
  ca_installed :: "'w \<Rightarrow> bool res"
  ca_compatible :: "string set \<Rightarrow> 'w \<Rightarrow> bool res"
  ca_probe :: "'w \<Rightarrow> core_probe"
  ca_stage_config :: "core_plan \<Rightarrow> path \<Rightarrow> ('w, path) io"
  ca_validate_config :: "path \<Rightarrow> ('w, unit) io"
  ca_snapshot_config :: "path \<Rightarrow> ('w, core_snapshot) io"
  ca_install_config :: "path \<Rightarrow> ('w, unit) io"
  ca_activate_config :: "core_plan \<Rightarrow> ('w, unit) io"
  ca_healthcheck :: "core_plan \<Rightarrow> ('w, unit) io"
  ca_verify_listeners :: "core_plan \<Rightarrow> ('w, unit) io"
  ca_observe_users :: "core_plan \<Rightarrow> ('w, user_sync_observation) io"
  ca_rollback_config :: "core_snapshot \<Rightarrow> ('w, unit) io"

definition ca_id :: "('w, 'z) core_adapter_scheme \<Rightarrow> string" where
  "ca_id a = cm_id (ca_manifest a)"

definition ca_capabilities :: "('w, 'z) core_adapter_scheme \<Rightarrow> string set" where
  "ca_capabilities a = cm_capabilities (ca_manifest a)"

definition ca_priority :: "('w, 'z) core_adapter_scheme \<Rightarrow> int" where
  "ca_priority a = cm_selection_priority (ca_manifest a)"

text \<open>The trait's default \<open>probe\<close> and \<open>telemetry\<close> methods.\<close>

definition probe_by_installed :: "bool res \<Rightarrow> core_probe" where
  "probe_by_installed r =
     (case r of
        Inr installed \<Rightarrow> default_probe\<lparr>cb_installed := Some installed\<rparr>
      | Inl _ \<Rightarrow> default_probe\<lparr>cb_detail := Some ''runtime installation probe failed''\<rparr>)"

definition observed_metric :: "bool option \<Rightarrow> telemetry_state" where
  "observed_metric v = (case v of Some _ \<Rightarrow> TsSupported | None \<Rightarrow> TsUnavailable)"

definition default_telemetry :: "string \<Rightarrow> instant \<Rightarrow> core_probe \<Rightarrow> telemetry_observation" where
  "default_telemetry runtime_id now probe =
     \<lparr>to_runtime_id = runtime_id,
      to_observed_at = now,
      to_source = ''core-adapter'',
      to_metrics = bt_collect
        [(ProcessState, observed_metric (cb_active probe)),
         (ListenerState, observed_metric (cb_listeners_healthy probe)),
         (RuntimeVersion, if cb_version probe \<noteq> None then TsSupported else TsUnavailable),
         (ActiveConnections, TsUnsupported),
         (AggregateTraffic, TsUnsupported),
         (PerUserTraffic, TsUnsupported)] [],
      to_traffic = None,
      to_detail = cb_detail probe\<rparr>"

subsection \<open>Registries\<close>

type_synonym protocol_registry = "(string, protocol_adapter) btmap"
type_synonym 'w core_registry = "(string, 'w core_adapter) btmap"

definition protocol_register :: "protocol_adapter \<Rightarrow> protocol_registry \<Rightarrow> protocol_registry res" where
  "protocol_register adapter reg =
     and_then (validate_protocol_manifest (pa_manifest adapter)) (\<lambda>_.
     if bt_get reg (pa_id adapter) \<noteq> None then Err ''duplicate protocol adapter ID''
     else Ok (bt_insert (pa_id adapter) adapter reg))"

definition protocol_manifests :: "protocol_registry \<Rightarrow> protocol_manifest list" where
  "protocol_manifests reg = map pa_manifest (bt_values reg)"

definition core_register :: "'w core_adapter \<Rightarrow> 'w core_registry \<Rightarrow> 'w core_registry res" where
  "core_register adapter reg =
     and_then (validate_core_manifest (ca_manifest adapter)) (\<lambda>_.
     if bt_get reg (ca_id adapter) \<noteq> None then Err ''duplicate core adapter ID''
     else Ok (bt_insert (ca_id adapter) adapter reg))"

definition core_manifests :: "'w core_registry \<Rightarrow> core_manifest list" where
  "core_manifests reg = map ca_manifest (bt_values reg)"

text \<open>The loop both selections end in: the first adapter that is compatible and installed.\<close>

fun select_first :: "string set \<Rightarrow> 'w core_adapter list \<Rightarrow> 'w \<Rightarrow> 'w core_adapter option res" where
  "select_first required [] w = Ok None"
| "select_first required (a # as) w =
     and_then (ca_compatible a required w) (\<lambda>compatible.
     if \<not> compatible then select_first required as w
     else and_then (ca_installed a w) (\<lambda>installed.
       if installed then Ok (Some a) else select_first required as w))"

definition core_select ::
  "'w core_registry \<Rightarrow> string set \<Rightarrow> string option \<Rightarrow> 'w \<Rightarrow> 'w core_adapter option res" where
  "core_select reg required preferred w =
     (case preferred of
        Some p \<Rightarrow>
          and_then (ok_or ''preferred core adapter is missing'' (bt_get reg p)) (\<lambda>a.
          if \<not> required \<subseteq> ca_capabilities a
          then Err ''preferred core adapter is incompatible or not installed''
          else and_then (ca_compatible a required w) (\<lambda>compatible.
            if \<not> compatible
            then Err ''preferred core adapter is incompatible or not installed''
            else and_then (ca_installed a w) (\<lambda>installed.
              if installed then Ok (Some a)
              else Err ''preferred core adapter is incompatible or not installed'')))
      | None \<Rightarrow>
          select_first required
            (sort_key (\<lambda>a. - ca_priority a)
               (filter (\<lambda>a. required \<subseteq> ca_capabilities a) (bt_values reg))) w)"

definition core_select_excluding ::
  "'w core_registry \<Rightarrow> string set \<Rightarrow> string \<Rightarrow> 'w \<Rightarrow> 'w core_adapter option res" where
  "core_select_excluding reg required excluded w =
     select_first required
       (sort_key (\<lambda>a. - ca_priority a)
          (map snd (filter (\<lambda>(i, a). i \<noteq> excluded \<and> required \<subseteq> ca_capabilities a) reg))) w"

subsection \<open>User synchronisation counts\<close>

lemma user_sync_compare_in_sync:
  assumes "finite expected" and "finite observed"
  shows "(\<exists>n. user_sync_compare expected observed = InSync n) \<longleftrightarrow> expected = observed"
proof -
  have "card (expected - observed) = 0 \<longleftrightarrow> expected \<subseteq> observed"
    "card (observed - expected) = 0 \<longleftrightarrow> observed \<subseteq> expected"
    using assms by auto
  then show ?thesis by (auto simp: user_sync_compare_def Let_def)
qed

lemma user_sync_compare_balance:
  assumes "finite expected" and "finite observed"
    and "user_sync_compare expected observed = Drift e o' m u"
  shows "e - m = o' - u" and "m \<le> e" and "u \<le> o'"
proof -
  have eq: "e = card expected" "o' = card observed"
    "m = card (expected - observed)" "u = card (observed - expected)"
    using assms(3) by (auto simp: user_sync_compare_def Let_def split: if_splits)
  have "card expected = card (expected \<inter> observed) + m"
    "card observed = card (expected \<inter> observed) + u"
    using card_Int_Diff [OF assms(1), of observed] card_Int_Diff [OF assms(2), of expected]
    by (simp_all add: eq Int_commute)
  then show "e - m = o' - u" "m \<le> e" "u \<le> o'" by (simp_all add: eq)
qed

subsection \<open>The registry contract\<close>

text \<open>
  Both registries promise the same: an adapter enters only with a valid manifest and a fresh
  identifier, and is then found under that identifier. The locale states the promise of
  \<open>register\<close>; its lemmas hold for both.
\<close>

definition registry_inv :: "('a \<Rightarrow> unit res) \<Rightarrow> ('a \<Rightarrow> string) \<Rightarrow> (string, 'a) btmap \<Rightarrow> bool" where
  "registry_inv validate ident m \<longleftrightarrow>
     bt_wf m \<and> (\<forall>(i, a) \<in> set m. i = ident a \<and> is_ok (validate a))"

abbreviation core_registry_inv :: "'w core_registry \<Rightarrow> bool" where
  "core_registry_inv \<equiv> registry_inv (\<lambda>a. validate_core_manifest (ca_manifest a)) ca_id"

abbreviation protocol_registry_inv :: "protocol_registry \<Rightarrow> bool" where
  "protocol_registry_inv \<equiv> registry_inv (\<lambda>a. validate_protocol_manifest (pa_manifest a)) pa_id"

text \<open>Registries as the program builds them: by registering adapters one after another.\<close>

fun register_all :: "('a \<Rightarrow> 'm \<Rightarrow> 'm res) \<Rightarrow> 'a list \<Rightarrow> 'm \<Rightarrow> 'm res" where
  "register_all add [] m = Ok m"
| "register_all add (a # as) m = and_then (add a m) (register_all add as)"

lemma set_bt_insert: "set (bt_insert k v m) \<subseteq> insert (k, v) (set m)"
  by (induction k v m rule: bt_insert.induct) auto

locale registry =
  fixes validate :: "'a \<Rightarrow> unit res"
    and ident :: "'a \<Rightarrow> string"
    and reg_add :: "'a \<Rightarrow> (string, 'a) btmap \<Rightarrow> (string, 'a) btmap res"
  assumes add_ok: "reg_add a m = Ok m' \<longleftrightarrow>
      is_ok (validate a) \<and> bt_get m (ident a) = None \<and> m' = bt_insert (ident a) a m"
begin

lemma reg_inv_empty: "registry_inv validate ident []"
  by (simp add: registry_inv_def)

lemma reg_inv_add: "registry_inv validate ident m \<Longrightarrow> reg_add a m = Ok m' \<Longrightarrow> registry_inv validate ident m'"
  using set_bt_insert [of "ident a" a m]
  by (auto simp: registry_inv_def add_ok bt_wf_insert)

lemma add_get: "reg_add a m = Ok m' \<Longrightarrow> bt_get m' i = (if i = ident a then Some a else bt_get m i)"
  by (auto simp: add_ok bt_get_insert)

lemma add_keeps: "reg_add a m = Ok m' \<Longrightarrow> bt_get m i = Some b \<Longrightarrow> bt_get m' i = Some b"
  by (auto simp: add_ok bt_get_insert)

lemma add_duplicate: "bt_get m (ident a) \<noteq> None \<Longrightarrow> \<not> is_ok (reg_add a m)"
  by (auto simp: is_ok_iff add_ok)

lemma reg_inv_add_all:
  "registry_inv validate ident m \<Longrightarrow> register_all reg_add as m = Ok m' \<Longrightarrow> registry_inv validate ident m'"
  by (induction as arbitrary: m) (auto simp: and_then_Inr_iff intro: reg_inv_add)

lemma add_all_keeps:
  "register_all reg_add as m = Ok m' \<Longrightarrow> bt_get m i = Some b \<Longrightarrow> bt_get m' i = Some b"
  by (induction as arbitrary: m) (auto simp: and_then_Inr_iff dest: add_keeps)

lemma add_all_get:
  "register_all reg_add as m = Ok m' \<Longrightarrow> a \<in> set as \<Longrightarrow> bt_get m' (ident a) = Some a"
proof (induction as arbitrary: m)
  case Nil
  then show ?case by simp
next
  case (Cons b bs)
  then obtain m1 where m1: "reg_add b m = Ok m1" "register_all reg_add bs m1 = Ok m'"
    by (auto simp: and_then_Inr_iff)
  have "bt_get m1 (ident b) = Some b" by (simp add: add_get [OF m1(1)])
  then show ?case
    using Cons.prems(2) Cons.IH [OF m1(2)] add_all_keeps [OF m1(2)] by auto
qed

lemma reg_inv_get: "registry_inv validate ident m \<Longrightarrow> bt_get m i = Some a \<Longrightarrow> ident a = i \<and> is_ok (validate a)"
  by (auto simp: registry_inv_def dest!: bt_get_in)

lemma reg_inv_values_sorted: "registry_inv validate ident m \<Longrightarrow> sorted_wrt (<) (map ident (map snd m))"
proof -
  assume inv: "registry_inv validate ident m"
  have eq: "map ident (map snd m) = map fst m"
    using inv by (auto simp: registry_inv_def)
  show ?thesis using inv unfolding eq by (simp add: registry_inv_def bt_wf_def)
qed

end

interpretation protocols: registry "\<lambda>a. validate_protocol_manifest (pa_manifest a)" pa_id protocol_register
  by unfold_locales (auto simp: protocol_register_def and_then_Inr_iff is_ok_unit is_ok_iff)

interpretation cores: registry "\<lambda>a. validate_core_manifest (ca_manifest a)" ca_id core_register
  by unfold_locales (auto simp: core_register_def and_then_Inr_iff is_ok_unit is_ok_iff)

subsection \<open>Selection\<close>

definition core_ready :: "string set \<Rightarrow> 'w \<Rightarrow> 'w core_adapter \<Rightarrow> bool" where
  "core_ready required w a \<longleftrightarrow>
     ca_compatible a required w = Ok True \<and> ca_installed a w = Ok True"

definition core_eligible :: "string set \<Rightarrow> 'w \<Rightarrow> 'w core_adapter \<Rightarrow> bool" where
  "core_eligible required w a \<longleftrightarrow> required \<subseteq> ca_capabilities a \<and> core_ready required w a"

lemma select_first_find:
  "select_first required as w = Ok r \<Longrightarrow> r = List.find (core_ready required w) as"
  by (induction required as w rule: select_first.induct)
    (auto simp: core_ready_def and_then_Inr_iff split: if_splits)

lemma select_first_None:
  "select_first required as w = Ok None \<Longrightarrow> a \<in> set as \<Longrightarrow> \<not> core_ready required w a"
  using select_first_find find_None_all by metis

lemma find_sorted_first:
  assumes "List.find P xs = Some x" and "sorted_wrt (<) (map f xs)" and "y \<in> set xs" and "P y"
  shows "f x \<le> (f y :: 'b::linorder)"
proof -
  obtain ys zs where split: "xs = ys @ x # zs" and none: "\<forall>y \<in> set ys. \<not> P y"
    using assms(1) by (auto simp: find_first)
  have "y = x \<or> y \<in> set zs" using assms(3,4) split none by auto
  then show ?thesis using assms(2) by (auto simp: split sorted_wrt_append)
qed

lemma sorted_wrt_filter_map:
  "sorted_wrt R (map f xs) \<Longrightarrow> sorted_wrt R (map f (filter P xs))"
  by (induction xs) auto

text \<open>
  The runtime chosen without a preference: eligible, of the highest priority, and of the
  smallest identifier among those.
\<close>

lemma best_selected:
  assumes inv: "sorted_wrt (<) (map ca_id as)"
    and sel: "select_first required (sort_key (\<lambda>a. - ca_priority a) as) w = Ok (Some a)"
    and caps: "\<forall>b \<in> set as. required \<subseteq> ca_capabilities b"
  shows "a \<in> set as \<and> core_eligible required w a"
    and "b \<in> set as \<Longrightarrow> core_eligible required w b \<Longrightarrow>
           ca_priority b < ca_priority a \<or> ca_priority b = ca_priority a \<and> ca_id a \<le> ca_id b"
proof -
  let ?key = "\<lambda>a. - ca_priority a"
  have found: "List.find (core_ready required w) (sort_key ?key as) = Some a"
    using select_first_find [OF sel] by simp
  note best = sort_key_find_best [OF found]
  show "a \<in> set as \<and> core_eligible required w a"
    using best caps by (auto simp: core_eligible_def)
  assume b: "b \<in> set as" "core_eligible required w b"
  have le: "ca_priority b \<le> ca_priority a"
    using best b by (auto simp: core_eligible_def)
  have "ca_id a \<le> ca_id b" if "ca_priority b = ca_priority a"
    using find_sorted_first [OF sort_key_find_stable [OF found] inv b(1)] b(2) that
    by (simp add: core_eligible_def)
  with le show "ca_priority b < ca_priority a \<or> ca_priority b = ca_priority a \<and> ca_id a \<le> ca_id b"
    by auto
qed

lemma core_select_preferred:
  "core_select reg required (Some p) w = Ok r \<longleftrightarrow>
     (\<exists>a. bt_get reg p = Some a \<and> core_eligible required w a \<and> r = Some a)"
  by (auto simp: core_select_def core_eligible_def core_ready_def and_then_Inr_iff ok_or_Inr_iff
      split: if_splits)

lemma core_select_best:
  assumes inv: "core_registry_inv reg"
    and sel: "core_select reg required None w = Ok (Some a)"
  shows "bt_get reg (ca_id a) = Some a" and "core_eligible required w a"
    and "bt_get reg j = Some b \<Longrightarrow> core_eligible required w b \<Longrightarrow>
           ca_priority b < ca_priority a \<or> ca_priority b = ca_priority a \<and> ca_id a \<le> ca_id b"
proof -
  let ?as = "filter (\<lambda>a. required \<subseteq> ca_capabilities a) (bt_values reg)"
  have sorted: "sorted_wrt (<) (map ca_id ?as)"
    unfolding bt_values_def
    by (intro sorted_wrt_filter_map cores.reg_inv_values_sorted inv)
  have sel': "select_first required (sort_key (\<lambda>a. - ca_priority a) ?as) w = Ok (Some a)"
    using sel by (simp add: core_select_def)
  note best = best_selected [OF sorted sel']
  have "a \<in> set ?as" using best(1) by auto
  then obtain i where "(i, a) \<in> set reg" by (auto simp: bt_values_def)
  then show "bt_get reg (ca_id a) = Some a"
    using inv by (auto simp: registry_inv_def bt_get_mem)
  show "core_eligible required w a" using best(1) by auto
  assume b: "bt_get reg j = Some b" "core_eligible required w b"
  then have "b \<in> set ?as"
    by (force simp: bt_values_def core_eligible_def dest: bt_get_in)
  then show "ca_priority b < ca_priority a \<or> ca_priority b = ca_priority a \<and> ca_id a \<le> ca_id b"
    using best(2) b(2) by auto
qed

lemma core_select_None_iff_unavailable:
  assumes "core_select reg required None w = Ok None" and "bt_get reg j = Some b"
  shows "\<not> core_eligible required w b"
proof
  assume el: "core_eligible required w b"
  then have "b \<in> set (sort_key (\<lambda>a. - ca_priority a)
      (filter (\<lambda>a. required \<subseteq> ca_capabilities a) (bt_values reg)))"
    using assms(2) by (force simp: bt_values_def core_eligible_def dest: bt_get_in)
  then show False
    using assms(1) select_first_None el by (fastforce simp: core_select_def core_eligible_def)
qed

lemma core_select_in_registry:
  assumes "core_select reg required preferred w = Ok (Some a)"
  shows "a \<in> set (bt_values reg)" and "core_eligible required w a"
proof -
  have "a \<in> set (bt_values reg) \<and> core_eligible required w a"
  proof (cases preferred)
    case None
    with assms have sel: "select_first required (sort_key (\<lambda>a. - ca_priority a)
        (filter (\<lambda>a. required \<subseteq> ca_capabilities a) (bt_values reg))) w = Ok (Some a)"
      by (simp add: core_select_def)
    from find_Some_mem [OF select_first_find [OF sel, symmetric]] show ?thesis
      by (auto simp: core_eligible_def)
  next
    case (Some p)
    with assms show ?thesis
      unfolding Some core_select_preferred by (force simp: bt_values_def dest: bt_get_in)
  qed
  then show "a \<in> set (bt_values reg)" "core_eligible required w a" by auto
qed

end
