(* ===== verification/Effects.thy ===== *)
theory Effects
  imports Adapter
begin

text \<open>
  The effectful part of the transaction engine runs over a world of arbitrary type, which the
  store, the host file system and the runtime adapters read and change. \<open>'w run\<close> pairs that
  world with a ghost trace: one event per call across one of the trait boundaries, in program
  order, with whether the call succeeded. The trace is never read by the program; it is what
  the safety theorems speak about. A procedure ends by failing (\<open>?\<close> on an error), by
  returning an outcome early, or by going on with a value.
\<close>

record outcome =
  oc_generation :: u64
  oc_status :: reconcile_status
  oc_message :: "string option"

datatype event =
    EvSave journal_entry bool
  | EvStage string bool
  | EvValidate string bool
  | EvSnapshot string "core_snapshot res"
  | EvCurrent u64 "bool res"
  | EvInstall string bool
  | EvActivate string bool
  | EvHealth string bool
  | EvListen string bool
  | EvObserve string "user_sync_observation res"
  | EvRollback string core_snapshot bool
  | EvCas u64 applied_state "bool res"
  | EvCleanup u64

record 'w run =
  rn_world :: 'w
  rn_trace :: "event list"

datatype 'a ctl = Fail string | Ret outcome | Go 'a

type_synonym ('w, 'a) proc = "'w run \<Rightarrow> 'a ctl \<times> 'w run"

definition go :: "'a \<Rightarrow> ('w, 'a) proc" where
  "go x = (\<lambda>s. (Go x, s))"

definition ret :: "outcome \<Rightarrow> ('w, 'a) proc" where
  "ret oc = (\<lambda>s. (Ret oc, s))"

definition bnd :: "('w, 'a) proc \<Rightarrow> ('a \<Rightarrow> ('w, 'b) proc) \<Rightarrow> ('w, 'b) proc" where
  "bnd m f = (\<lambda>s. case m s of
      (Fail e, s') \<Rightarrow> (Fail e, s')
    | (Ret oc, s') \<Rightarrow> (Ret oc, s')
    | (Go x, s') \<Rightarrow> f x s')"

definition call :: "('a res \<Rightarrow> event) \<Rightarrow> ('w, 'a) io \<Rightarrow> ('w, 'a res) proc" where
  "call ev f = (\<lambda>s. case f (rn_world s) of
      (r, w) \<Rightarrow> (Go r, s\<lparr>rn_world := w, rn_trace := rn_trace s @ [ev r]\<rparr>))"

definition silent :: "('w, 'a) io \<Rightarrow> ('w, 'a res) proc" where
  "silent f = (\<lambda>s. case f (rn_world s) of (r, w) \<Rightarrow> (Go r, s\<lparr>rn_world := w\<rparr>))"

definition query :: "('w \<Rightarrow> 'a) \<Rightarrow> ('w, 'a) proc" where
  "query q = (\<lambda>s. (Go (q (rn_world s)), s))"

definition attempt :: "'a res \<Rightarrow> ('w, 'a) proc" where
  "attempt r = (\<lambda>s. case r of Inl e \<Rightarrow> (Fail e, s) | Inr x \<Rightarrow> (Go x, s))"

subsection \<open>Postconditions over a run\<close>

text \<open>
  \<open>post m s Q\<close>: running \<open>m\<close> from \<open>s\<close> ends in a control value and state with \<open>Q\<close>. The rules
  compute postconditions backwards through a procedure, so a step lemma is one \<open>simp\<close>.
\<close>

named_theorems post_rules \<open>backward rules for postconditions of procedures\<close>

definition post :: "('w, 'a) proc \<Rightarrow> 'w run \<Rightarrow> ('a ctl \<Rightarrow> 'w run \<Rightarrow> bool) \<Rightarrow> bool" where
  "post m s Q = (case m s of (r, s') \<Rightarrow> Q r s')"

lemma post_go [post_rules]: "post (go x) s Q = Q (Go x) s"
  by (simp add: post_def go_def)

lemma post_ret [post_rules]: "post (ret oc) s Q = Q (Ret oc) s"
  by (simp add: post_def ret_def)

lemma post_bnd [post_rules]:
  "post (bnd m f) s Q =
     post m s (\<lambda>r s'. case r of Fail e \<Rightarrow> Q (Fail e) s' | Ret oc \<Rightarrow> Q (Ret oc) s' | Go x \<Rightarrow> post (f x) s' Q)"
  by (auto simp: post_def bnd_def split: prod.splits ctl.splits)

lemma post_query [post_rules]: "post (query q) s Q = Q (Go (q (rn_world s))) s"
  by (simp add: post_def query_def)

lemma post_attempt [post_rules]:
  "post (attempt r) s Q = (case r of Inl e \<Rightarrow> Q (Fail e) s | Inr x \<Rightarrow> Q (Go x) s)"
  by (simp add: post_def attempt_def split: sum.splits)

lemma post_call [post_rules]:
  "post (call ev f) s Q =
     (case f (rn_world s) of (r, w) \<Rightarrow> Q (Go r) (s\<lparr>rn_world := w, rn_trace := rn_trace s @ [ev r]\<rparr>))"
  by (auto simp: post_def call_def split: prod.splits)

lemma post_silent [post_rules]:
  "post (silent f) s Q = (case f (rn_world s) of (r, w) \<Rightarrow> Q (Go r) (s\<lparr>rn_world := w\<rparr>))"
  by (auto simp: post_def silent_def split: prod.splits)

lemma post_mono: "post m s Q \<Longrightarrow> (\<And>r s'. Q r s' \<Longrightarrow> Q' r s') \<Longrightarrow> post m s Q'"
  by (auto simp: post_def split: prod.splits)

lemma post_conj: "post m s Q \<Longrightarrow> post m s Q' \<Longrightarrow> post m s (\<lambda>r s'. Q r s' \<and> Q' r s')"
  by (auto simp: post_def split: prod.splits)

text \<open>The composition rule used by the stage-by-stage proofs of the engine.\<close>

lemma post_bnd_rule:
  assumes "post m s R"
    and "\<And>e s'. R (Fail e) s' \<Longrightarrow> Q (Fail e) s'"
    and "\<And>oc s'. R (Ret oc) s' \<Longrightarrow> Q (Ret oc) s'"
    and "\<And>x s'. R (Go x) s' \<Longrightarrow> post (f x) s' Q"
  shows "post (bnd m f) s Q"
  unfolding post_bnd by (rule post_mono [OF assms(1)]) (auto split: ctl.split intro: assms(2-4))

text \<open>
  A call of an arbitrary operation: whatever it answers and however it changes the world, the
  trace grows by its event.
\<close>

lemma post_callI:
  assumes "\<And>r w. Q (Go r) (s\<lparr>rn_world := w, rn_trace := rn_trace s @ [ev r]\<rparr>)"
  shows "post (call ev f) s Q"
  using assms by (auto simp: post_call split: prod.splits)

lemma post_silentI:
  assumes "\<And>r w. Q (Go r) (s\<lparr>rn_world := w\<rparr>)"
  shows "post (silent f) s Q"
  using assms by (auto simp: post_silent split: prod.splits)

end
