(* ===== verification/Digraph.thy ===== *)
theory Digraph
  imports Main
begin

text \<open>
  Reachability facts shared by the two depth-first searches of the program (infrastructure
  dependencies in \<open>reconcile.rs\<close>, transport pools in \<open>policy.rs\<close>). A graph is given by its
  successor lists.
\<close>

definition edges :: "('a \<Rightarrow> 'a list) \<Rightarrow> ('a \<times> 'a) set" where
  "edges succ = {(a, b). b \<in> set (succ a)}"

definition closed_under :: "('a \<Rightarrow> 'a list) \<Rightarrow> 'a set \<Rightarrow> bool" where
  "closed_under succ V \<longleftrightarrow> (\<forall>a \<in> V. set (succ a) \<subseteq> V)"

definition cycle_free_on :: "('a \<Rightarrow> 'a list) \<Rightarrow> 'a set \<Rightarrow> bool" where
  "cycle_free_on succ V \<longleftrightarrow> (\<forall>a \<in> V. (a, a) \<notin> (edges succ)\<^sup>+)"

lemma edges_iff [simp]: "(a, b) \<in> edges succ \<longleftrightarrow> b \<in> set (succ a)"
  by (simp add: edges_def)

lemma closed_under_rtrancl:
  "(a, b) \<in> (edges succ)\<^sup>* \<Longrightarrow> closed_under succ V \<Longrightarrow> a \<in> V \<Longrightarrow> b \<in> V"
  by (induction rule: rtrancl_induct) (auto simp: closed_under_def)

lemma closed_under_trancl:
  "(a, b) \<in> (edges succ)\<^sup>+ \<Longrightarrow> closed_under succ V \<Longrightarrow> a \<in> V \<Longrightarrow> b \<in> V"
  by (rule closed_under_rtrancl) (auto dest: trancl_into_rtrancl)

text \<open>
  A node whose successors all lie in a closed set that does not contain the node is on no cycle.
\<close>

lemma no_cycle_into_closed:
  assumes "closed_under succ V" and "set (succ a) \<subseteq> V" and "a \<notin> V"
  shows "(a, a) \<notin> (edges succ)\<^sup>+"
proof
  assume "(a, a) \<in> (edges succ)\<^sup>+"
  then obtain b where "(a, b) \<in> edges succ" "(b, a) \<in> (edges succ)\<^sup>*"
    by (meson tranclD)
  then show False using closed_under_rtrancl [OF _ assms(1)] assms(2,3) by auto
qed

lemma closed_under_insert:
  "closed_under succ V \<Longrightarrow> set (succ a) \<subseteq> V \<Longrightarrow> closed_under succ (insert a V)"
  by (auto simp: closed_under_def)

lemma cycle_free_insert:
  "closed_under succ V \<Longrightarrow> cycle_free_on succ V \<Longrightarrow> set (succ a) \<subseteq> V \<Longrightarrow> a \<notin> V
     \<Longrightarrow> cycle_free_on succ (insert a V)"
  using no_cycle_into_closed [of succ V a] by (auto simp: cycle_free_on_def)

lemma reach_step: "(x, a) \<in> (edges succ)\<^sup>* \<Longrightarrow> b \<in> set (succ a) \<Longrightarrow> (x, b) \<in> (edges succ)\<^sup>+"
  by (rule rtrancl_into_trancl1) auto

end
