(* ===== verification/Reconcile_Graph.thy ===== *)
theory Reconcile_Graph
  imports Adapter Digraph
begin

text \<open>
  The planning half of \<open>reconcile.rs\<close>: resource identifiers, the infrastructure dependency
  check (depth-first search with \<open>visiting\<close> and \<open>visited\<close> sets), the listener plan, the
  construction of one plan per runtime, graph validation, the removal guard and the read-only
  user-synchronisation report. Nothing here changes the world: planning reads the registries
  and the runtimes' \<open>installed\<close>/\<open>compatible\<close> answers at the world it is given.
\<close>

definition validate_resource_id :: "string \<Rightarrow> unit res" where
  "validate_resource_id v =
     (if v = [] \<or> length v > 128
         \<or> \<not> list_all (\<lambda>b. is_alphanumeric b \<or> b \<in> {CHR ''-'', CHR ''_''}) v
      then Err ''invalid managed resource ID'' else Ok ())"

subsection \<open>Infrastructure dependencies\<close>

type_synonym resource_map = "(string, infrastructure_resource) btmap"

text \<open>
  \<open>visit\<close>. On success the code leaves \<open>visiting\<close> as it found it (it inserted \<open>id\<close>, which was
  absent, and removes it again), so \<open>visiting\<close> is an argument and only \<open>visited\<close> is threaded.
  Indexing \<open>resources[id]\<close> with an absent key is a panic.
\<close>

function dep_visit :: "resource_map \<Rightarrow> string list \<Rightarrow> string list \<Rightarrow> string \<Rightarrow> string list res"
  and dep_visit_all :: "resource_map \<Rightarrow> string list \<Rightarrow> string list \<Rightarrow> string list \<Rightarrow> string list res"
where
  "dep_visit g visiting visited i =
     (if i \<in> set visited then Ok visited
      else if i \<in> set visiting then Err ''infrastructure dependency cycle''
      else case bt_get g i of
          None \<Rightarrow> Err ''panic: no entry found for key''
        | Some r \<Rightarrow>
            and_then (dep_visit_all g (i # visiting) visited (ir_dependencies r))
              (\<lambda>visited'. Ok (i # visited')))"
| "dep_visit_all g visiting visited [] = Ok visited"
| "dep_visit_all g visiting visited (d # ds) =
     and_then (dep_visit g visiting visited d) (\<lambda>visited'. dep_visit_all g visiting visited' ds)"
  by pat_completeness auto
termination
proof (relation "measures
    [\<lambda>x. case x of Inl (g, vs, _, _) \<Rightarrow> card (fst ` set g - set vs)
                 | Inr (g, vs, _, _) \<Rightarrow> card (fst ` set g - set vs),
     \<lambda>x. case x of Inl _ \<Rightarrow> 0 | Inr (_, _, _, ds) \<Rightarrow> Suc (length ds)]", goal_cases)
  case (2 g visiting visited i r)
  then have mem: "i \<in> fst ` set g" "i \<notin> set visiting"
    by (auto dest: bt_get_in intro: rev_image_eqI)
  then have "card (fst ` set g - set (i # visiting)) < card (fst ` set g - set visiting)"
    by (intro psubset_card_mono) auto
  then show ?case by simp
qed auto

definition enabled_resources :: "infrastructure_resource list \<Rightarrow> infrastructure_resource list" where
  "enabled_resources rs = filter ir_enabled rs"

definition resource_index :: "infrastructure_resource list \<Rightarrow> resource_map" where
  "resource_index rs = bt_collect (map (\<lambda>r. (ir_resource_id r, r)) (enabled_resources rs)) []"

fun visit_roots :: "resource_map \<Rightarrow> string list \<Rightarrow> string list \<Rightarrow> unit res" where
  "visit_roots g visited [] = Ok ()"
| "visit_roots g visited (i # is) =
     and_then (dep_visit g [] visited i) (\<lambda>visited'. visit_roots g visited' is)"

definition validate_infrastructure_dependencies :: "infrastructure_resource list \<Rightarrow> unit res" where
  "validate_infrastructure_dependencies rs =
     (let enabled = resource_index rs in
      if length enabled \<noteq> length (enabled_resources rs)
      then Err ''duplicate infrastructure resource ID''
      else and_then
        (each_res (\<lambda>r. each_res (\<lambda>d. case bt_get enabled d of Some _ \<Rightarrow> Ok ()
             | None \<Rightarrow> Err ''infrastructure dependency is missing or disabled'') (ir_dependencies r))
           (bt_values enabled))
        (\<lambda>_. visit_roots enabled [] (bt_keys enabled)))"

subsection \<open>Plans\<close>

type_synonym 'w core_plans = "(string, 'w core_adapter \<times> core_plan) btmap"
type_synonym 'w fragment_map = "(string, 'w core_adapter \<times> server_fragment list) btmap"

fun claim_listeners ::
  "(listener_claim \<times> string) list \<Rightarrow> (listener_claim, string) btmap \<Rightarrow> unit res" where
  "claim_listeners [] owners = Ok ()"
| "claim_listeners ((l, owner) # cs) owners =
     (if bt_get owners l \<noteq> None then Err ''multiple resources claim the same listener''
      else claim_listeners cs (bt_insert l owner owners))"

definition plan_claims :: "core_plan \<Rightarrow> (listener_claim \<times> string) list" where
  "plan_claims plan =
     concat (map (\<lambda>f. map (\<lambda>l. (l, sf_profile_id f)) (sf_listeners f)) (cp_fragments plan))"

definition validate_listener_plan :: "'w core_plans \<Rightarrow> unit res" where
  "validate_listener_plan plans =
     claim_listeners (concat (map (\<lambda>(_, _, plan). plan_claims plan) plans)) []"

definition push_fragment ::
  "string \<Rightarrow> 'w core_adapter \<Rightarrow> server_fragment \<Rightarrow> 'w fragment_map \<Rightarrow> 'w fragment_map" where
  "push_fragment core_id core fragment m =
     bt_upsert core_id (core, []) (\<lambda>(c, fs). (c, fs @ [fragment])) m"

fun plan_profiles ::
  "protocol_registry \<Rightarrow> 'w core_registry \<Rightarrow> subscription_user list \<Rightarrow> secret_resolver \<Rightarrow> 'w
   \<Rightarrow> protocol_profile list \<Rightarrow> 'w fragment_map \<Rightarrow> 'w fragment_map res" where
  "plan_profiles protocols cores users secrets w [] m = Ok m"
| "plan_profiles protocols cores users secrets w (p # ps) m =
     and_then (ok_or (''protocol adapter `'' @ pr_protocol_id p @ ''` is missing'')
                 (bt_get protocols (pr_protocol_id p))) (\<lambda>protocol.
     and_then (pa_validate_config protocol (pr_schema_version p) (pr_config p)) (\<lambda>_.
     and_then (core_select cores (pa_required protocol) (pr_preferred_core p) w) (\<lambda>selected.
     and_then (ok_or ''no installed core satisfies protocol capabilities'' selected) (\<lambda>core.
     and_then (pa_render_server protocol p users secrets) (\<lambda>fragment.
     plan_profiles protocols cores users secrets w ps
       (push_fragment (ca_id core) core fragment m))))))"

fun plan_infrastructure ::
  "'w core_registry \<Rightarrow> infrastructure_resource list \<Rightarrow> 'w fragment_map \<Rightarrow> 'w fragment_map res" where
  "plan_infrastructure cores [] m = Ok m"
| "plan_infrastructure cores (r # rs) m =
     and_then (validate_resource_id (ir_resource_id r)) (\<lambda>_.
     if ir_schema_version r = 0 \<or> \<not> is_object (ir_config r)
     then Err ''invalid infrastructure resource schema''
     else and_then (ok_or (''infrastructure adapter `'' @ ir_adapter_id r @ ''` is missing'')
                      (bt_get cores (ir_adapter_id r))) (\<lambda>adapter.
       plan_infrastructure cores rs
         (push_fragment (ir_adapter_id r) adapter
            \<lparr>sf_profile_id = ir_resource_id r, sf_capability = ir_adapter_id r,
             sf_payload = ir_config r, sf_expected_user_ids = None,
             sf_listeners = ir_listeners r\<rparr> m)))"

fun plan_retired :: "'w core_registry \<Rightarrow> string list \<Rightarrow> 'w fragment_map \<Rightarrow> 'w fragment_map res" where
  "plan_retired cores [] m = Ok m"
| "plan_retired cores (i # is) m =
     (if bt_get m i \<noteq> None then plan_retired cores is m
      else and_then (ok_or (''previously applied core `'' @ i @ ''` is missing'') (bt_get cores i))
        (\<lambda>core. plan_retired cores is (bt_insert i (core, []) m)))"

definition enabled_profiles :: "desired_state \<Rightarrow> protocol_profile list" where
  "enabled_profiles ds = filter pr_enabled (ds_profiles ds)"

definition build_plans ::
  "protocol_registry \<Rightarrow> 'w core_registry \<Rightarrow> desired_state \<Rightarrow> secret_resolver \<Rightarrow> applied_state \<Rightarrow> 'w
   \<Rightarrow> 'w core_plans res" where
  "build_plans protocols cores ds secrets applied w =
     and_then (plan_profiles protocols cores (ds_users ds) secrets w (enabled_profiles ds) []) (\<lambda>m1.
     and_then (plan_infrastructure cores (enabled_resources (ds_infrastructure ds)) m1) (\<lambda>m2.
     and_then (plan_retired cores (ap_active_core_ids applied) m2) (\<lambda>m3.
     Ok (map (\<lambda>(i, core, fragments).
           (i, core, \<lparr>cp_generation = ds_generation ds, cp_core_id = i, cp_fragments = fragments\<rparr>)) m3))))"

definition validate_graph ::
  "protocol_registry \<Rightarrow> 'w core_registry \<Rightarrow> desired_state \<Rightarrow> applied_state \<Rightarrow> 'w \<Rightarrow> unit res" where
  "validate_graph protocols cores ds applied w =
     and_then (validate_infrastructure_dependencies (ds_infrastructure ds)) (\<lambda>_.
     and_then (each_res (\<lambda>p.
         and_then (ok_or ''desired protocol adapter is missing'' (bt_get protocols (pr_protocol_id p)))
           (\<lambda>protocol.
         and_then (core_select cores (pa_required protocol) (pr_preferred_core p) w) (\<lambda>selected.
         and_then (ok_or ''no installed core satisfies desired capabilities'' selected) (\<lambda>_. Ok ()))))
       (enabled_profiles ds)) (\<lambda>_.
     and_then (each_res (\<lambda>r.
         and_then (ok_or ''desired infrastructure adapter is missing'' (bt_get cores (ir_adapter_id r)))
           (\<lambda>_. Ok ()))
       (enabled_resources (ds_infrastructure ds))) (\<lambda>_.
     each_res (\<lambda>i.
         and_then (ok_or ''previously applied core adapter is missing'' (bt_get cores i)) (\<lambda>_. Ok ()))
       (ap_active_core_ids applied))))"

subsection \<open>Removal guard\<close>

fun profiles_need_core ::
  "protocol_registry \<Rightarrow> 'w core_registry \<Rightarrow> string \<Rightarrow> 'w \<Rightarrow> protocol_profile list \<Rightarrow> bool res" where
  "profiles_need_core protocols cores core_id w [] = Ok False"
| "profiles_need_core protocols cores core_id w (p # ps) =
     and_then (ok_or ''desired protocol adapter is missing'' (bt_get protocols (pr_protocol_id p)))
       (\<lambda>protocol.
     if pr_preferred_core p = Some core_id then Ok True
     else and_then (core_select_excluding cores (pa_required protocol) core_id w) (\<lambda>other.
       if other = None then Ok True
       else profiles_need_core protocols cores core_id w ps))"

definition core_removal_blocked ::
  "protocol_registry \<Rightarrow> 'w core_registry \<Rightarrow> desired_state \<Rightarrow> string \<Rightarrow> 'w \<Rightarrow> bool res" where
  "core_removal_blocked protocols cores ds core_id w =
     and_then (profiles_need_core protocols cores core_id w (enabled_profiles ds)) (\<lambda>needed.
     if needed then Ok True
     else Ok (\<exists>r \<in> set (ds_infrastructure ds). ir_enabled r \<and> ir_adapter_id r = core_id))"

subsection \<open>User synchronisation report\<close>

record profile_user_sync =
  us_profile_id :: string
  us_runtime_id :: string
  us_status :: user_sync_status
  us_desired_count :: nat
  us_observed_count :: "nat option"
  us_missing_count :: "nat option"
  us_unexpected_count :: "nat option"
  us_checked_at :: string

definition sync_row ::
  "user_sync_observation res \<Rightarrow> core_probe \<Rightarrow> user_sync_status \<times> nat option \<times> nat option \<times> nat option" where
  "sync_row observation probe =
     (case observation of
        Inr (InSync n) \<Rightarrow> (UsSynced, Some n, Some 0, Some 0)
      | Inr (Drift e ob m u) \<Rightarrow> (UsDrifted, Some ob, Some m, Some u)
      | Inr SyncUnsupported \<Rightarrow> (UsUnsupportedObservation, None, None, None)
      | Inl _ \<Rightarrow>
          if cb_installed probe = Some False \<or> cb_active probe = Some False
          then (UsRuntimeUnavailable, None, None, None)
          else (UsFailed, None, None, None))"

definition applicable_fragments :: "core_plan \<Rightarrow> (string \<times> nat) list" where
  "applicable_fragments plan =
     List.map_filter (\<lambda>f. map_option (\<lambda>users. (sf_profile_id f, card users)) (sf_expected_user_ids f))
       (cp_fragments plan)"

fun observe_plans ::
  "string \<Rightarrow> 'w core_plans \<Rightarrow> 'w \<Rightarrow> profile_user_sync list \<times> 'w" where
  "observe_plans now [] w = ([], w)"
| "observe_plans now ((runtime_id, core, plan) # plans) w =
     (if applicable_fragments plan = [] then observe_plans now plans w
      else
        (let (observation, w1) = ca_observe_users core plan w;
             probe = ca_probe core w1;
             rows = map (\<lambda>(profile_id, desired_count).
               (let (status, observed_count, missing_count, unexpected_count) = sync_row observation probe
                in \<lparr>us_profile_id = profile_id, us_runtime_id = runtime_id, us_status = status,
                    us_desired_count = desired_count, us_observed_count = observed_count,
                    us_missing_count = missing_count, us_unexpected_count = unexpected_count,
                    us_checked_at = now\<rparr>)) (applicable_fragments plan);
             (rest, w2) = observe_plans now plans w1
         in (rows @ rest, w2)))"

definition observe_user_sync ::
  "protocol_registry \<Rightarrow> 'w core_registry \<Rightarrow> desired_state \<Rightarrow> secret_resolver \<Rightarrow> applied_state res
   \<Rightarrow> string \<Rightarrow> ('w, profile_user_sync list) io" where
  "observe_user_sync protocols cores ds secrets loaded now w =
     (case loaded of
        Inl e \<Rightarrow> (Err e, w)
      | Inr applied \<Rightarrow>
          (case build_plans protocols cores ds secrets applied w of
             Inl e \<Rightarrow> (Err e, w)
           | Inr plans \<Rightarrow>
               (let (rows, w') = observe_plans now plans w in (Ok rows, w'))))"

declare dep_visit.simps [simp del]

subsection \<open>The dependency check decides closure and acyclicity\<close>

definition dep_succ :: "resource_map \<Rightarrow> string \<Rightarrow> string list" where
  "dep_succ g i = (case bt_get g i of None \<Rightarrow> [] | Some r \<Rightarrow> ir_dependencies r)"

definition dep_visited_ok :: "resource_map \<Rightarrow> string list \<Rightarrow> string list \<Rightarrow> bool" where
  "dep_visited_ok g visiting visited \<longleftrightarrow>
     closed_under (dep_succ g) (set visited) \<and> cycle_free_on (dep_succ g) (set visited)
     \<and> set visited \<inter> set visiting = {}"

lemma dep_visit_sound:
  "dep_visit g vs vd i = Ok vd' \<Longrightarrow> dep_visited_ok g vs vd \<Longrightarrow>
     set vd \<subseteq> set vd' \<and> i \<in> set vd' \<and> dep_visited_ok g vs vd'"
  "dep_visit_all g vs vd ds = Ok vd' \<Longrightarrow> dep_visited_ok g vs vd \<Longrightarrow>
     set vd \<subseteq> set vd' \<and> set ds \<subseteq> set vd' \<and> dep_visited_ok g vs vd'"
proof (induction g vs vd i and g vs vd ds arbitrary: vd' and vd' rule: dep_visit_dep_visit_all.induct)
  case (1 g vs vd i)
  show ?case
  proof (cases "i \<in> set vd")
    case True
    with 1 show ?thesis by (simp add: dep_visit.simps)
  next
    case False
    with "1.prems"(1) obtain r vd1 where r: "bt_get g i = Some r" and fresh: "i \<notin> set vs"
      and rec: "dep_visit_all g (i # vs) vd (ir_dependencies r) = Ok vd1" and vd': "vd' = i # vd1"
      by (auto simp: dep_visit.simps and_then_Inr_iff split: if_splits option.splits)
    have "dep_visited_ok g (i # vs) vd"
      using "1.prems"(2) False by (auto simp: dep_visited_ok_def)
    from "1.IH" [OF False fresh r rec this]
    have vd1: "set vd \<subseteq> set vd1" "set (dep_succ g i) \<subseteq> set vd1" "dep_visited_ok g (i # vs) vd1"
      by (simp_all add: dep_succ_def r)
    then have "dep_visited_ok g vs vd'"
      using fresh by (auto simp: dep_visited_ok_def vd' intro: closed_under_insert cycle_free_insert)
    then show ?thesis using vd1(1) by (auto simp: vd')
  qed
next
  case (2 g vs vd)
  then show ?case by simp
next
  case (3 g vs vd d ds)
  then obtain vd1 where vd1: "dep_visit g vs vd d = Ok vd1" "dep_visit_all g vs vd1 ds = Ok vd'"
    by (auto simp: and_then_Inr_iff)
  note first = "3.IH"(1) [OF vd1(1) "3.prems"(2)]
  with "3.IH"(2) [OF vd1(2)] show ?case by auto
qed

lemma dep_visit_complete:
  "closed_under (dep_succ g) (fst ` set g) \<Longrightarrow> acyclic (edges (dep_succ g)) \<Longrightarrow>
     i \<in> fst ` set g \<Longrightarrow> \<forall>x \<in> set vs. (x, i) \<in> (edges (dep_succ g))\<^sup>+ \<Longrightarrow>
     is_ok (dep_visit g vs vd i)"
  "closed_under (dep_succ g) (fst ` set g) \<Longrightarrow> acyclic (edges (dep_succ g)) \<Longrightarrow>
     set ds \<subseteq> fst ` set g \<Longrightarrow> \<forall>x \<in> set vs. \<forall>d \<in> set ds. (x, d) \<in> (edges (dep_succ g))\<^sup>+ \<Longrightarrow>
     is_ok (dep_visit_all g vs vd ds)"
proof (induction g vs vd i and g vs vd ds rule: dep_visit_dep_visit_all.induct)
  case (1 g vs vd i)
  have fresh: "i \<notin> set vs"
    using "1.prems"(2,4) by (auto simp: acyclic_def)
  obtain r where r: "bt_get g i = Some r"
    using "1.prems"(3) by (metis bt_get_None not_None_eq)
  have succ: "dep_succ g i = ir_dependencies r" by (simp add: dep_succ_def r)
  have deps: "set (ir_dependencies r) \<subseteq> fst ` set g"
    using "1.prems"(1,3) succ unfolding closed_under_def by metis
  have path: "\<forall>x \<in> set (i # vs). \<forall>d \<in> set (ir_dependencies r). (x, d) \<in> (edges (dep_succ g))\<^sup>+"
    using "1.prems"(4) by (auto simp flip: succ intro: trancl_into_trancl)
  show ?case
  proof (cases "i \<in> set vd")
    case True
    then show ?thesis by (simp add: dep_visit.simps)
  next
    case False
    from "1.IH" [OF False fresh r "1.prems"(1,2) deps path] show ?thesis
      using False fresh by (auto simp: dep_visit.simps r is_ok_and_then is_ok_iff)
  qed
next
  case (2 g vs vd)
  then show ?case by simp
next
  case (3 g vs vd d ds)
  then have "is_ok (dep_visit g vs vd d)" by simp
  then obtain vd1 where vd1: "dep_visit g vs vd d = Ok vd1" by (auto simp: is_ok_iff)
  with 3 show ?case by simp
qed

lemma visit_roots_sound:
  "visit_roots g vd is = Ok () \<Longrightarrow> dep_visited_ok g [] vd \<Longrightarrow>
     \<exists>V. closed_under (dep_succ g) V \<and> cycle_free_on (dep_succ g) V \<and> set is \<subseteq> V \<and> set vd \<subseteq> V"
proof (induction "is" arbitrary: vd)
  case Nil
  then show ?case by (auto simp: dep_visited_ok_def)
next
  case (Cons i "is")
  then obtain vd1 where vd1: "dep_visit g [] vd i = Ok vd1" and rest: "visit_roots g vd1 is = Ok ()"
    by (auto simp: and_then_Inr_iff)
  from dep_visit_sound(1) [OF vd1 Cons.prems(2)] Cons.IH [OF rest]
  show ?case by (metis insert_subset list.set(2) subset_iff)
qed

lemma visit_roots_complete:
  assumes "closed_under (dep_succ g) (fst ` set g)" and "acyclic (edges (dep_succ g))"
    and "set is \<subseteq> fst ` set g"
  shows "visit_roots g vd is = Ok ()"
  using assms(3)
proof (induction "is" arbitrary: vd)
  case Nil
  then show ?case by simp
next
  case (Cons i "is")
  have "is_ok (dep_visit g [] vd i)"
    using Cons.prems by (intro dep_visit_complete(1) assms) auto
  then show ?case using Cons by (auto simp: is_ok_iff)
qed

lemma edges_outside: "(a, b) \<in> (edges (dep_succ g))\<^sup>+ \<Longrightarrow> a \<in> fst ` set g"
proof -
  assume "(a, b) \<in> (edges (dep_succ g))\<^sup>+"
  then obtain c where "c \<in> set (dep_succ g a)" by (auto dest: tranclD)
  then show ?thesis
    using bt_get_None [of g a] by (auto simp: dep_succ_def split: option.splits)
qed

lemma bt_wf_resource_index: "bt_wf (resource_index rs)"
  by (simp add: resource_index_def bt_wf_collect)

lemma dependencies_present_iff:
  assumes "bt_wf g"
  shows "each_res (\<lambda>r. each_res (\<lambda>d. case bt_get g d of Some _ \<Rightarrow> Ok () | None \<Rightarrow> Err msg)
           (ir_dependencies r)) (bt_values g) = Ok ()
         \<longleftrightarrow> closed_under (dep_succ g) (fst ` set g)"
proof -
  have key: "is_ok (case bt_get g d of Some _ \<Rightarrow> Ok () | None \<Rightarrow> Err msg) \<longleftrightarrow> d \<in> fst ` set g" for d
    using bt_get_None [of g d] by (auto split: option.splits)
  have succ: "dep_succ g i = ir_dependencies r" if "(i, r) \<in> set g" for i r
    using that bt_get_mem [OF assms, of i r] by (simp add: dep_succ_def)
  have "is_ok (each_res (\<lambda>r. each_res (\<lambda>d. case bt_get g d of Some _ \<Rightarrow> Ok () | None \<Rightarrow> Err msg)
           (ir_dependencies r)) (bt_values g))
       \<longleftrightarrow> (\<forall>(i, r) \<in> set g. set (ir_dependencies r) \<subseteq> fst ` set g)"
    unfolding each_res_ok_iff key bt_values_def by force
  also have "\<dots> \<longleftrightarrow> (\<forall>(i, r) \<in> set g. set (dep_succ g i) \<subseteq> fst ` set g)"
    using succ by (intro ball_cong) auto
  also have "\<dots> \<longleftrightarrow> closed_under (dep_succ g) (fst ` set g)"
    unfolding closed_under_def by (simp add: split_beta)
  finally show ?thesis by (simp only: is_ok_unit)
qed

lemma visit_roots_iff:
  assumes "bt_wf g" and closed: "closed_under (dep_succ g) (fst ` set g)"
  shows "visit_roots g [] (bt_keys g) = Ok () \<longleftrightarrow> acyclic (edges (dep_succ g))"
proof
  assume "visit_roots g [] (bt_keys g) = Ok ()"
  then obtain V where V: "cycle_free_on (dep_succ g) V" "fst ` set g \<subseteq> V"
    using visit_roots_sound [of g "[]" "bt_keys g"]
    by (auto simp: dep_visited_ok_def closed_under_def cycle_free_on_def bt_keys_def)
  show "acyclic (edges (dep_succ g))"
    unfolding acyclic_def using V edges_outside by (fastforce simp: cycle_free_on_def)
next
  assume "acyclic (edges (dep_succ g))"
  then show "visit_roots g [] (bt_keys g) = Ok ()"
    using closed by (intro visit_roots_complete) (auto simp: bt_keys_def)
qed

lemma resource_index_length:
  "length (resource_index rs) = length (enabled_resources rs)
     \<longleftrightarrow> distinct (map ir_resource_id (enabled_resources rs))"
  using bt_collect_length_eq [of "map (\<lambda>r. (ir_resource_id r, r)) (enabled_resources rs)"]
  by (simp add: resource_index_def comp_def)

lemma resource_index_keys:
  "fst ` set (resource_index rs) = ir_resource_id ` set (enabled_resources rs)"
  by (simp add: resource_index_def bt_collect_keys image_image)

text \<open>
  The whole check: distinct identifiers, no dangling dependency, no cycle, and nothing else.
\<close>

lemma validate_dependencies_iff:
  "validate_infrastructure_dependencies rs = Ok () \<longleftrightarrow>
     distinct (map ir_resource_id (enabled_resources rs))
     \<and> closed_under (dep_succ (resource_index rs)) (ir_resource_id ` set (enabled_resources rs))
     \<and> acyclic (edges (dep_succ (resource_index rs)))"
proof -
  let ?g = "resource_index rs"
  note wf = bt_wf_resource_index [of rs]
  have "validate_infrastructure_dependencies rs = Ok () \<longleftrightarrow>
     length ?g = length (enabled_resources rs) \<and> closed_under (dep_succ ?g) (fst ` set ?g)
     \<and> visit_roots ?g [] (bt_keys ?g) = Ok ()"
    by (simp add: validate_infrastructure_dependencies_def Let_def and_then_Inr_iff
        dependencies_present_iff [OF wf])
  also have "\<dots> \<longleftrightarrow> distinct (map ir_resource_id (enabled_resources rs))
     \<and> closed_under (dep_succ ?g) (fst ` set ?g) \<and> acyclic (edges (dep_succ ?g))"
    using visit_roots_iff [OF wf] by (auto simp: resource_index_length)
  finally show ?thesis by (simp add: resource_index_keys)
qed

subsection \<open>The listener plan accepts exactly the conflict-free plans\<close>

lemma claim_listeners_iff:
  "claim_listeners cs owners = Ok () \<longleftrightarrow>
     distinct (map fst cs) \<and> (\<forall>l \<in> set (map fst cs). bt_get owners l = None)"
proof (induction cs owners rule: claim_listeners.induct)
  case (1 owners)
  then show ?case by simp
next
  case (2 l owner cs owners)
  then show ?case by (auto simp: bt_get_insert split: if_splits)
qed

lemma plan_claims_fst: "map fst (plan_claims plan) = concat (map sf_listeners (cp_fragments plan))"
  by (simp add: plan_claims_def map_concat comp_def)

lemma validate_listener_plan_iff:
  "validate_listener_plan plans = Ok () \<longleftrightarrow>
     distinct (concat (map (\<lambda>(_, _, plan). concat (map sf_listeners (cp_fragments plan))) plans))"
  by (simp add: validate_listener_plan_def claim_listeners_iff map_concat comp_def case_prod_unfold plan_claims_fst)

subsection \<open>What the plans contain\<close>

definition fragments_of :: "'w fragment_map \<Rightarrow> string \<Rightarrow> server_fragment list" where
  "fragments_of m i = (case bt_get m i of None \<Rightarrow> [] | Some (_, fs) \<Rightarrow> fs)"

definition profile_fragment ::
  "protocol_registry \<Rightarrow> 'w core_registry \<Rightarrow> subscription_user list \<Rightarrow> secret_resolver \<Rightarrow> 'w
   \<Rightarrow> protocol_profile \<Rightarrow> 'w core_adapter \<Rightarrow> server_fragment \<Rightarrow> bool" where
  "profile_fragment protocols cores users secrets w p core fragment \<longleftrightarrow>
     (\<exists>protocol. bt_get protocols (pr_protocol_id p) = Some protocol
        \<and> pa_validate_config protocol (pr_schema_version p) (pr_config p) = Ok ()
        \<and> core_select cores (pa_required protocol) (pr_preferred_core p) w = Ok (Some core)
        \<and> pa_render_server protocol p users secrets = Ok fragment)"

lemma fragments_of_Nil [simp]: "fragments_of [] i = []"
  by (simp add: fragments_of_def)

lemma push_fragment_fragments:
  "fragments_of (push_fragment i core f m) j = fragments_of m j @ (if j = i then [f] else [])"
  by (auto simp: push_fragment_def fragments_of_def bt_get_upsert split: option.splits prod.splits)

lemma push_fragment_wf: "bt_wf m \<Longrightarrow> bt_wf (push_fragment i core f m)"
  by (simp add: push_fragment_def bt_wf_upsert)

lemma push_fragment_keys: "fst ` set (push_fragment i core f m) = insert i (fst ` set m)"
  by (simp add: push_fragment_def bt_upsert_keys)

text \<open>The fragment map built so far: sorted, and every entry's runtime is the registered one.\<close>

definition fragment_map_ok :: "'w core_registry \<Rightarrow> 'w fragment_map \<Rightarrow> bool" where
  "fragment_map_ok cores m \<longleftrightarrow>
     bt_wf m \<and> (\<forall>i c fs. bt_get m i = Some (c, fs) \<longrightarrow> bt_get cores i = Some c)"

lemma fragment_map_ok_push:
  "fragment_map_ok cores m \<Longrightarrow> bt_get cores i = Some core \<Longrightarrow>
     fragment_map_ok cores (push_fragment i core f m)"
  by (auto simp: fragment_map_ok_def push_fragment_wf push_fragment_def bt_get_upsert bt_wf_upsert
      split: option.splits prod.splits if_splits)

lemma select_registered:
  assumes "core_registry_inv cores" and "core_select cores required preferred w = Ok (Some core)"
  shows "bt_get cores (ca_id core) = Some core"
proof -
  obtain i where "(i, core) \<in> set cores"
    using core_select_in_registry(1) [OF assms(2)] by (auto simp: bt_values_def)
  then show ?thesis using assms(1) by (auto simp: registry_inv_def bt_get_mem)
qed

lemma plan_profiles_step:
  "plan_profiles protocols cores users secrets w (p # ps) m = Ok m' \<longleftrightarrow>
     (\<exists>core f. profile_fragment protocols cores users secrets w p core f
        \<and> plan_profiles protocols cores users secrets w ps (push_fragment (ca_id core) core f m) = Ok m')"
  by (auto simp: profile_fragment_def and_then_Inr_iff ok_or_Inr_iff)

lemma plan_profiles_ok:
  "plan_profiles protocols cores users secrets w ps m = Ok m' \<Longrightarrow> core_registry_inv cores \<Longrightarrow>
     fragment_map_ok cores m \<Longrightarrow> fragment_map_ok cores m'"
proof (induction ps arbitrary: m)
  case Nil
  then show ?case by simp
next
  case (Cons p ps)
  then obtain core f where pf: "profile_fragment protocols cores users secrets w p core f"
    and rest: "plan_profiles protocols cores users secrets w ps (push_fragment (ca_id core) core f m) = Ok m'"
    unfolding plan_profiles_step by blast
  have "bt_get cores (ca_id core) = Some core"
    using pf select_registered [OF Cons.prems(2)] by (auto simp: profile_fragment_def)
  then show ?case using Cons.IH [OF rest] Cons.prems fragment_map_ok_push by blast
qed

lemma plan_profiles_mono:
  "plan_profiles protocols cores users secrets w ps m = Ok m' \<Longrightarrow>
     set (fragments_of m i) \<subseteq> set (fragments_of m' i)"
proof (induction ps arbitrary: m)
  case Nil
  then show ?case by simp
next
  case (Cons p ps)
  then show ?case unfolding plan_profiles_step by (fastforce simp: push_fragment_fragments)
qed

lemma plan_profiles_contains:
  "plan_profiles protocols cores users secrets w ps m = Ok m' \<Longrightarrow> p \<in> set ps \<Longrightarrow>
     \<exists>core f. profile_fragment protocols cores users secrets w p core f
       \<and> f \<in> set (fragments_of m' (ca_id core))"
proof (induction ps arbitrary: m)
  case Nil
  then show ?case by simp
next
  case (Cons q ps)
  then obtain core f where pf: "profile_fragment protocols cores users secrets w q core f"
    and rest: "plan_profiles protocols cores users secrets w ps (push_fragment (ca_id core) core f m) = Ok m'"
    using plan_profiles_step [THEN iffD1, OF Cons.prems(1)] by blast
  show ?case
  proof (cases "p = q")
    case True
    have "f \<in> set (fragments_of (push_fragment (ca_id core) core f m) (ca_id core))"
      by (simp add: push_fragment_fragments)
    then show ?thesis using plan_profiles_mono [OF rest] pf True by blast
  next
    case False
    then show ?thesis using Cons.IH [OF rest] Cons.prems(2) by auto
  qed
qed

lemma plan_profiles_only:
  "plan_profiles protocols cores users secrets w ps m = Ok m' \<Longrightarrow> f \<in> set (fragments_of m' i) \<Longrightarrow>
     f \<in> set (fragments_of m i)
     \<or> (\<exists>p \<in> set ps. \<exists>core. ca_id core = i \<and> profile_fragment protocols cores users secrets w p core f)"
proof (induction ps arbitrary: m)
  case Nil
  then show ?case by simp
next
  case (Cons q ps)
  then obtain core g where pf: "profile_fragment protocols cores users secrets w q core g"
    and rest: "plan_profiles protocols cores users secrets w ps (push_fragment (ca_id core) core g m) = Ok m'"
    using plan_profiles_step [THEN iffD1, OF Cons.prems(1)] by blast
  from Cons.IH [OF rest Cons.prems(2)] pf show ?case
    by (auto simp: push_fragment_fragments split: if_splits)
qed

definition resource_fragment :: "infrastructure_resource \<Rightarrow> server_fragment" where
  "resource_fragment r =
     \<lparr>sf_profile_id = ir_resource_id r, sf_capability = ir_adapter_id r, sf_payload = ir_config r,
      sf_expected_user_ids = None, sf_listeners = ir_listeners r\<rparr>"

lemma plan_infrastructure_step:
  "plan_infrastructure cores (r # rs) m = Ok m' \<longleftrightarrow>
     validate_resource_id (ir_resource_id r) = Ok () \<and> ir_schema_version r \<noteq> 0 \<and> is_object (ir_config r)
     \<and> (\<exists>core. bt_get cores (ir_adapter_id r) = Some core
          \<and> plan_infrastructure cores rs
              (push_fragment (ir_adapter_id r) core (resource_fragment r) m) = Ok m')"
  by (auto simp: resource_fragment_def and_then_Inr_iff ok_or_Inr_iff)

lemma plan_infrastructure_ok:
  "plan_infrastructure cores rs m = Ok m' \<Longrightarrow> fragment_map_ok cores m \<Longrightarrow> fragment_map_ok cores m'"
  by (induction rs arbitrary: m)
    (auto simp: plan_infrastructure_step fragment_map_ok_push simp del: plan_infrastructure.simps(2))

lemma plan_infrastructure_fragments:
  "plan_infrastructure cores rs m = Ok m' \<Longrightarrow>
     fragments_of m' i = fragments_of m i @ map resource_fragment (filter (\<lambda>r. ir_adapter_id r = i) rs)"
  by (induction rs arbitrary: m)
    (auto simp: plan_infrastructure_step push_fragment_fragments simp del: plan_infrastructure.simps(2))

lemma plan_retired_insert_ok:
  "fragment_map_ok cores m \<Longrightarrow> bt_get cores i = Some core \<Longrightarrow>
     fragment_map_ok cores (bt_insert i (core, []) m)"
  by (auto simp: fragment_map_ok_def bt_wf_insert bt_get_insert)

lemma plan_retired_ok:
  "plan_retired cores is m = Ok m' \<Longrightarrow> fragment_map_ok cores m \<Longrightarrow> fragment_map_ok cores m'"
  by (induction "is" arbitrary: m)
    (auto simp: and_then_Inr_iff ok_or_Inr_iff plan_retired_insert_ok split: if_splits)

lemma plan_retired_keys:
  "plan_retired cores is m = Ok m' \<Longrightarrow> fst ` set m' = set is \<union> fst ` set m"
proof (induction "is" arbitrary: m)
  case Nil
  then show ?case by simp
next
  case (Cons i "is")
  show ?case
  proof (cases "bt_get m i = None")
    case False
    then have "i \<in> fst ` set m" by (simp add: bt_get_None)
    with False Cons.prems Cons.IH [of m] show ?thesis by auto
  next
    case True
    with Cons.prems obtain core where "plan_retired cores is (bt_insert i (core, []) m) = Ok m'"
      by (auto simp: and_then_Inr_iff)
    from Cons.IH [OF this] show ?thesis by (auto simp: bt_insert_keys)
  qed
qed

lemma plan_retired_fragments:
  "plan_retired cores is m = Ok m' \<Longrightarrow> fragments_of m' j = fragments_of m j"
proof (induction "is" arbitrary: m)
  case Nil
  then show ?case by simp
next
  case (Cons i "is")
  show ?case
  proof (cases "bt_get m i = None")
    case False
    with Cons show ?thesis by simp
  next
    case True
    with Cons.prems obtain core where "plan_retired cores is (bt_insert i (core, []) m) = Ok m'"
      by (auto simp: and_then_Inr_iff)
    from Cons.IH [OF this] True show ?thesis by (auto simp: fragments_of_def bt_get_insert)
  qed
qed

text \<open>The three planning stages of one successful \<open>build_plans\<close>.\<close>

lemma build_plans_stages:
  assumes "build_plans protocols cores ds secrets applied w = Ok plans"
  obtains m1 m2 m3 where
    "plan_profiles protocols cores (ds_users ds) secrets w (enabled_profiles ds) [] = Ok m1"
    "plan_infrastructure cores (enabled_resources (ds_infrastructure ds)) m1 = Ok m2"
    "plan_retired cores (ap_active_core_ids applied) m2 = Ok m3"
    "plans = map (\<lambda>(i, core, fragments).
       (i, core, \<lparr>cp_generation = ds_generation ds, cp_core_id = i, cp_fragments = fragments\<rparr>)) m3"
  using assms by (auto simp: build_plans_def and_then_Inr_iff)

definition plans_ok :: "'w core_registry \<Rightarrow> u64 \<Rightarrow> 'w core_plans \<Rightarrow> bool" where
  "plans_ok cores generation plans \<longleftrightarrow>
     bt_wf plans
     \<and> (\<forall>(i, core, plan) \<in> set plans.
          bt_get cores i = Some core \<and> cp_core_id plan = i \<and> cp_generation plan = generation)"

definition plan_fragments :: "'w core_plans \<Rightarrow> string \<Rightarrow> server_fragment list" where
  "plan_fragments plans i = (case bt_get plans i of None \<Rightarrow> [] | Some (_, plan) \<Rightarrow> cp_fragments plan)"

lemma bt_get_map_snd:
  "bt_get (map (\<lambda>(i, core, fs). (i, core, g i fs)) m) j =
     map_option (\<lambda>(core, fs). (core, g j fs)) (bt_get m j)"
  by (induction m j rule: bt_get.induct) auto

lemma fragment_map_ok_Nil [simp]: "fragment_map_ok cores []"
  by (simp add: fragment_map_ok_def)

lemma build_plans_spec:
  assumes plans: "build_plans protocols cores ds secrets applied w = Ok plans"
    and inv: "core_registry_inv cores"
  shows "plans_ok cores (ds_generation ds) plans"
    and "p \<in> set (enabled_profiles ds) \<Longrightarrow>
           \<exists>core f. profile_fragment protocols cores (ds_users ds) secrets w p core f
             \<and> f \<in> set (plan_fragments plans (ca_id core))"
    and "r \<in> set (enabled_resources (ds_infrastructure ds)) \<Longrightarrow>
           resource_fragment r \<in> set (plan_fragments plans (ir_adapter_id r))"
    and "f \<in> set (plan_fragments plans i) \<Longrightarrow>
           (\<exists>p \<in> set (enabled_profiles ds). \<exists>core. ca_id core = i
              \<and> profile_fragment protocols cores (ds_users ds) secrets w p core f)
           \<or> (\<exists>r \<in> set (enabled_resources (ds_infrastructure ds)). ir_adapter_id r = i
                \<and> f = resource_fragment r)"
    and "set (ap_active_core_ids applied) \<subseteq> fst ` set plans"
proof -
  obtain m1 m2 m3 where m1: "plan_profiles protocols cores (ds_users ds) secrets w (enabled_profiles ds) [] = Ok m1"
    and m2: "plan_infrastructure cores (enabled_resources (ds_infrastructure ds)) m1 = Ok m2"
    and m3: "plan_retired cores (ap_active_core_ids applied) m2 = Ok m3"
    and eq: "plans = map (\<lambda>(i, core, fragments).
       (i, core, \<lparr>cp_generation = ds_generation ds, cp_core_id = i, cp_fragments = fragments\<rparr>)) m3"
    using build_plans_stages [OF plans] .
  have ok2: "fragment_map_ok cores m2"
    using plan_infrastructure_ok [OF m2] plan_profiles_ok [OF m1 inv] by simp
  note ok3 = plan_retired_ok [OF m3 ok2]
  have frags: "plan_fragments plans i = fragments_of m2 i" for i
    unfolding plan_retired_fragments [OF m3, of i, symmetric]
    by (auto simp: plan_fragments_def eq fragments_of_def bt_get_map_snd split: option.splits prod.splits)
  have m2_frags: "fragments_of m2 i
      = fragments_of m1 i @ map resource_fragment (filter (\<lambda>r. ir_adapter_id r = i)
          (enabled_resources (ds_infrastructure ds)))" for i
    by (rule plan_infrastructure_fragments [OF m2])
  show "plans_ok cores (ds_generation ds) plans"
    using ok3 by (auto simp: plans_ok_def eq fragment_map_ok_def bt_get_mem bt_wf_def comp_def split_beta) blast
  show "p \<in> set (enabled_profiles ds) \<Longrightarrow>
      \<exists>core f. profile_fragment protocols cores (ds_users ds) secrets w p core f
        \<and> f \<in> set (plan_fragments plans (ca_id core))"
    using plan_profiles_contains [OF m1] by (fastforce simp: frags m2_frags)
  show "r \<in> set (enabled_resources (ds_infrastructure ds)) \<Longrightarrow>
      resource_fragment r \<in> set (plan_fragments plans (ir_adapter_id r))"
    by (simp add: frags m2_frags)
  show "f \<in> set (plan_fragments plans i) \<Longrightarrow>
      (\<exists>p \<in> set (enabled_profiles ds). \<exists>core. ca_id core = i
         \<and> profile_fragment protocols cores (ds_users ds) secrets w p core f)
      \<or> (\<exists>r \<in> set (enabled_resources (ds_infrastructure ds)). ir_adapter_id r = i \<and> f = resource_fragment r)"
    using plan_profiles_only [OF m1, of f i] by (auto simp: frags m2_frags)
  show "set (ap_active_core_ids applied) \<subseteq> fst ` set plans"
    using plan_retired_keys [OF m3] by (force simp: eq)
qed

subsection \<open>The removal guard is sound\<close>

lemma map_snd_remove:
  "bt_wf m \<Longrightarrow> bt_remove k m = filter (\<lambda>(i, _). i \<noteq> k) m"
proof (induction m)
  case Nil
  then show ?case by simp
next
  case (Cons e m)
  obtain a b where e: "e = (a, b)" by (cases e)
  have "filter (\<lambda>(i, _). i \<noteq> a) m = m"
    using Cons.prems by (intro filter_True) (auto simp: e bt_wf_Cons)
  then show ?case using Cons by (auto simp: e bt_wf_Cons)
qed

lemma select_excluding_removed:
  assumes "bt_wf cores"
  shows "core_select_excluding cores required k w = core_select (bt_remove k cores) required None w"
proof -
  have "map snd (filter (\<lambda>(i, a). i \<noteq> k \<and> required \<subseteq> ca_capabilities a) cores)
      = filter (\<lambda>a. required \<subseteq> ca_capabilities a) (bt_values (bt_remove k cores))"
    unfolding map_snd_remove [OF assms] bt_values_def by (induction cores) auto
  then show ?thesis by (simp add: core_select_excluding_def core_select_def)
qed

lemma profiles_need_core_False:
  "profiles_need_core protocols cores core_id w ps = Ok False \<Longrightarrow> p \<in> set ps \<Longrightarrow>
     \<exists>protocol a. bt_get protocols (pr_protocol_id p) = Some protocol
       \<and> pr_preferred_core p \<noteq> Some core_id
       \<and> core_select_excluding cores (pa_required protocol) core_id w = Ok (Some a)"
proof (induction ps)
  case Nil
  then show ?case by simp
next
  case (Cons q ps)
  then show ?case
    by (fastforce simp: and_then_Inr_iff ok_or_Inr_iff split: if_splits)
qed

end
