(* ===== verification/Reconcile_Engine.thy ===== *)
theory Reconcile_Engine
  imports Effects Reconcile_Graph
begin

text \<open>
  The transaction engine of \<open>reconcile.rs\<close>: the durable store interface, \<open>reconcile\<close> with its
  stages (stage, validate, snapshot, install/activate/verify per runtime, publish), \<open>rollback\<close>,
  \<open>fail_without_mutation\<close> and \<open>recover\<close>. Each stage is one definition, its early returns and
  its \<open>?\<close> exits are the \<open>Ret\<close> and \<open>Fail\<close> ends of the procedure. The store, the host and the
  adapters are parameters of the reconciler.
\<close>

subsection \<open>The reconciler and its environment\<close>

record 'w store_ops =
  st_load_applied :: "'w \<Rightarrow> applied_state res"
  st_compare_and_set_applied :: "u64 \<Rightarrow> applied_state \<Rightarrow> ('w, bool) io"
  st_load_journal :: "'w \<Rightarrow> journal_entry option res"
  st_save_journal :: "journal_entry \<Rightarrow> ('w, unit) io"
  st_generation_is_current :: "u64 \<Rightarrow> 'w \<Rightarrow> bool res"

datatype path_kind = KindDir | KindOther | KindMissing | KindError string

record 'w host_ops =
  ho_now :: "'w \<Rightarrow> string"
  ho_uuid :: "'w \<Rightarrow> string"
  ho_path_kind :: "path \<Rightarrow> 'w \<Rightarrow> path_kind"
  ho_remove_dir_all :: "path \<Rightarrow> ('w, unit) io"
  ho_create_dir_all :: "path \<Rightarrow> ('w, unit) io"

record 'w reconciler =
  rc_protocols :: protocol_registry
  rc_cores :: "'w core_registry"
  rc_store :: "'w store_ops"
  rc_host :: "'w host_ops"
  rc_root :: path

definition generation_dir :: "'w reconciler \<Rightarrow> u64 \<Rightarrow> path" where
  "generation_dir R generation = rc_root R @ [show_nat (unat generation)]"

definition save_journal :: "'w reconciler \<Rightarrow> journal_entry \<Rightarrow> ('w, unit) proc" where
  "save_journal R j =
     bnd (call (\<lambda>r. EvSave j (is_ok r)) (st_save_journal (rc_store R) j)) attempt"

definition generation_is_current :: "'w reconciler \<Rightarrow> u64 \<Rightarrow> ('w, bool) proc" where
  "generation_is_current R generation =
     bnd (call (\<lambda>r. EvCurrent generation r) (\<lambda>w. (st_generation_is_current (rc_store R) generation w, w)))
       attempt"

definition compare_and_set_applied :: "'w reconciler \<Rightarrow> u64 \<Rightarrow> applied_state \<Rightarrow> ('w, bool) proc" where
  "compare_and_set_applied R expected next_state =
     bnd (call (\<lambda>r. EvCas expected next_state r)
            (st_compare_and_set_applied (rc_store R) expected next_state))
       attempt"

definition cleanup_transaction_directory :: "'w reconciler \<Rightarrow> u64 \<Rightarrow> ('w, unit) proc" where
  "cleanup_transaction_directory R generation =
     (let p = generation_dir R generation in
      bnd (query (ho_path_kind (rc_host R) p)) (\<lambda>kind.
      if kind = KindDir
      then bnd (call (\<lambda>_. EvCleanup generation) (ho_remove_dir_all (rc_host R) p)) (\<lambda>_. go ())
      else go ()))"

definition prepare_transaction_directory :: "'w reconciler \<Rightarrow> path \<Rightarrow> ('w, unit) proc" where
  "prepare_transaction_directory R p =
     bnd (query (ho_path_kind (rc_host R) p)) (\<lambda>kind.
     bnd (case kind of
            KindDir \<Rightarrow> bnd (silent (ho_remove_dir_all (rc_host R) p)) attempt
          | KindOther \<Rightarrow> attempt (Err ''reconcile transaction path must be a real directory'')
          | KindMissing \<Rightarrow> go ()
          | KindError e \<Rightarrow> attempt (Err e)) (\<lambda>_.
     bnd (silent (ho_create_dir_all (rc_host R) p)) attempt))"

definition return_outcome :: "u64 \<Rightarrow> reconcile_status \<Rightarrow> string option \<Rightarrow> ('w, 'a) proc" where
  "return_outcome generation status message =
     ret \<lparr>oc_generation = generation, oc_status = status, oc_message = message\<rparr>"

subsection \<open>Failure before any mutation\<close>

definition fail_without_mutation :: "'w reconciler \<Rightarrow> journal_entry \<Rightarrow> string \<Rightarrow> ('w, 'a) proc" where
  "fail_without_mutation R j0 err =
     bnd (query (ho_now (rc_host R))) (\<lambda>now.
     (let j = j0\<lparr>jn_status := StFailed, jn_error := Some err, jn_current_core_id := None,
                 jn_completed_at := Some now\<rparr> in
      bnd (save_journal R j) (\<lambda>_.
      bnd (cleanup_transaction_directory R (jn_generation j)) (\<lambda>_.
      return_outcome (jn_generation j) (jn_status j) (jn_error j)))))"

subsection \<open>Rollback\<close>

record 'w prepared_core =
  pp_core :: "'w core_adapter"
  pp_plan :: core_plan
  pp_candidate :: path
  pp_snapshot :: core_snapshot

definition pp_id :: "'w prepared_core \<Rightarrow> string" where
  "pp_id p = cp_core_id (pp_plan p)"

definition mutated_in_rollback_order :: "journal_entry \<Rightarrow> journal_resource list" where
  "mutated_in_rollback_order j = filter jr_mutation_started (rev (jn_resources j))"

definition failure_with_rollback_outcome :: "string \<Rightarrow> string \<Rightarrow> string" where
  "failure_with_rollback_outcome primary outcome_text =
     (if contains_str primary outcome_text then primary else primary @ ''; '' @ outcome_text)"

definition rollback_call :: "'w core_adapter \<Rightarrow> string \<Rightarrow> core_snapshot \<Rightarrow> ('w, unit res) proc" where
  "rollback_call core core_id snapshot =
     call (\<lambda>r. EvRollback core_id snapshot (is_ok r)) (ca_rollback_config core snapshot)"

fun rollback_resources ::
  "journal_resource list \<Rightarrow> (string, 'w prepared_core) btmap \<Rightarrow> bool \<Rightarrow> ('w, bool) proc" where
  "rollback_resources [] snapshots failed = go failed"
| "rollback_resources (r # rs) snapshots failed =
     (case bt_get snapshots (jr_core_id r) of
        None \<Rightarrow> rollback_resources rs snapshots True
      | Some p \<Rightarrow>
          bnd (rollback_call (pp_core p) (jr_core_id r) (pp_snapshot p)) (\<lambda>res.
          rollback_resources rs (bt_remove (jr_core_id r) snapshots) (failed \<or> \<not> is_ok res)))"

definition rollback ::
  "'w reconciler \<Rightarrow> u64 \<Rightarrow> 'w prepared_core list \<Rightarrow> journal_entry \<Rightarrow> string \<Rightarrow> ('w, 'a) proc" where
  "rollback R generation snapshots j0 err =
     (let j1 = j0\<lparr>jn_phase := PhRollbackStarted, jn_status := StFailed, jn_error := Some err\<rparr> in
      bnd (save_journal R j1) (\<lambda>_.
      bnd (rollback_resources (mutated_in_rollback_order j1)
             (bt_collect (map (\<lambda>p. (pp_id p, p)) snapshots) []) False) (\<lambda>failed.
      (let j2 = (if failed
                 then j1\<lparr>jn_phase := PhRecoveryRequired, jn_status := StRecoveryRequired,
                         jn_error := Some (failure_with_rollback_outcome err ''rollback verification failed'')\<rparr>
                 else j1\<lparr>jn_phase := PhRolledBack, jn_status := StRolledBack,
                         jn_error := Some (failure_with_rollback_outcome err ''rollback verified'')\<rparr>) in
       bnd (query (ho_now (rc_host R))) (\<lambda>now.
       (let j3 = j2\<lparr>jn_completed_at := Some now\<rparr> in
        bnd (save_journal R j3) (\<lambda>_.
        bnd (if jn_status j3 = StRolledBack then cleanup_transaction_directory R (jn_generation j3)
             else go ()) (\<lambda>_.
        return_outcome generation (jn_status j3) (jn_error j3)))))))))"

subsection \<open>Before mutation: stage, validate, snapshot\<close>

type_synonym 'w staged = "'w core_adapter \<times> core_plan \<times> path"

fun stage_all ::
  "'w reconciler \<Rightarrow> path \<Rightarrow> 'w core_plans \<Rightarrow> journal_entry \<Rightarrow> 'w staged list
   \<Rightarrow> ('w, journal_entry \<times> 'w staged list) proc" where
  "stage_all R dir [] j prepared = go (j, prepared)"
| "stage_all R dir ((core_id, core, plan) # ps) j prepared =
     (let j1 = j\<lparr>jn_current_core_id := Some core_id\<rparr>; core_dir = dir @ [core_id] in
      bnd (silent (ho_create_dir_all (rc_host R) core_dir)) (\<lambda>made.
      bnd (attempt made) (\<lambda>_.
      bnd (call (\<lambda>r. EvStage core_id (is_ok r)) (ca_stage_config core plan core_dir)) (\<lambda>staged.
      (case staged of
         Inl _ \<Rightarrow> fail_without_mutation R j1 ''candidate staging failed''
       | Inr candidate \<Rightarrow>
           (let j2 = j1\<lparr>jn_phase := PhStaged\<rparr> in
            bnd (save_journal R j2) (\<lambda>_.
            stage_all R dir ps j2 (prepared @ [(core, plan, candidate)]))))))))"

fun validate_all ::
  "'w reconciler \<Rightarrow> 'w staged list \<Rightarrow> journal_entry \<Rightarrow> ('w, journal_entry) proc" where
  "validate_all R [] j = go j"
| "validate_all R ((core, plan, candidate) # ps) j =
     (let j1 = j\<lparr>jn_current_core_id := Some (ca_id core)\<rparr> in
      bnd (call (\<lambda>r. EvValidate (ca_id core) (is_ok r)) (ca_validate_config core candidate)) (\<lambda>valid.
      if \<not> is_ok valid then fail_without_mutation R j1 ''candidate validation failed''
      else validate_all R ps j1))"

definition snapshot_resource :: "core_plan \<Rightarrow> core_snapshot \<Rightarrow> journal_resource" where
  "snapshot_resource plan snapshot =
     \<lparr>jr_core_id = cp_core_id plan, jr_snapshot_path = cs_path snapshot,
      jr_service_was_enabled = cs_service_was_enabled snapshot,
      jr_service_was_active = cs_service_was_active snapshot,
      jr_mutation_started = False, jr_verified = False\<rparr>"

fun snapshot_all ::
  "'w reconciler \<Rightarrow> path \<Rightarrow> 'w staged list \<Rightarrow> journal_entry \<Rightarrow> 'w prepared_core list
   \<Rightarrow> ('w, journal_entry \<times> 'w prepared_core list) proc" where
  "snapshot_all R dir [] j snapshotted = go (j, snapshotted)"
| "snapshot_all R dir ((core, plan, candidate) # ps) j snapshotted =
     (let j1 = j\<lparr>jn_current_core_id := Some (ca_id core)\<rparr>; core_dir = dir @ [cp_core_id plan] in
      bnd (call (EvSnapshot (cp_core_id plan)) (ca_snapshot_config core core_dir)) (\<lambda>taken.
      (case taken of
         Inl _ \<Rightarrow> fail_without_mutation R j1 ''runtime snapshot failed''
       | Inr snapshot \<Rightarrow>
           (let j2 = j1\<lparr>jn_resources := jn_resources j1 @ [snapshot_resource plan snapshot]\<rparr> in
            bnd (save_journal R j2) (\<lambda>_.
            snapshot_all R dir ps j2
              (snapshotted @ [\<lparr>pp_core = core, pp_plan = plan, pp_candidate = candidate,
                               pp_snapshot = snapshot\<rparr>]))))))"

subsection \<open>Mutation, one runtime at a time\<close>

text \<open>\<open>iter_mut().find(...)\<close> followed by an update of the found resource: the first match only.\<close>

fun update_resource ::
  "string \<Rightarrow> (journal_resource \<Rightarrow> journal_resource) \<Rightarrow> journal_resource list \<Rightarrow> journal_resource list" where
  "update_resource core_id f [] = []"
| "update_resource core_id f (r # rs) =
     (if jr_core_id r = core_id then f r # rs else r # update_resource core_id f rs)"

definition has_resource :: "string \<Rightarrow> journal_resource list \<Rightarrow> bool" where
  "has_resource core_id rs \<longleftrightarrow> (\<exists>r \<in> set rs. jr_core_id r = core_id)"

definition mark_started :: "string \<Rightarrow> journal_entry \<Rightarrow> journal_entry" where
  "mark_started core_id j =
     j\<lparr>jn_resources := update_resource core_id (\<lambda>r. r\<lparr>jr_mutation_started := True\<rparr>) (jn_resources j)\<rparr>"

definition mark_verified :: "string \<Rightarrow> journal_entry \<Rightarrow> journal_entry" where
  "mark_verified core_id j =
     j\<lparr>jn_resources := update_resource core_id (\<lambda>r. r\<lparr>jr_verified := True\<rparr>) (jn_resources j)\<rparr>"

definition has_individual_users :: "core_plan \<Rightarrow> bool" where
  "has_individual_users plan \<longleftrightarrow> (\<exists>f \<in> set (cp_fragments plan). sf_expected_user_ids f \<noteq> None)"

definition user_observation_error :: "user_sync_observation res \<Rightarrow> string option" where
  "user_observation_error observation =
     (case observation of
        Inr (InSync _) \<Rightarrow> None
      | Inr SyncUnsupported \<Rightarrow> Some ''runtime does not support required user observation''
      | Inr (Drift _ _ _ _) \<Rightarrow> Some ''runtime user authorization drift detected''
      | Inl _ \<Rightarrow> Some ''runtime user observation failed'')"

definition check_health ::
  "('w, unit res) proc \<Rightarrow> (string \<Rightarrow> ('w, unit) proc) \<Rightarrow> string \<Rightarrow> ('w, unit) proc" where
  "check_health operation abort msg =
     bnd operation (\<lambda>r. if is_ok r then go () else abort msg)"

definition apply_core ::
  "'w reconciler \<Rightarrow> u64 \<Rightarrow> 'w prepared_core list \<Rightarrow> 'w prepared_core \<Rightarrow> journal_entry
   \<Rightarrow> ('w, journal_entry) proc" where
  "apply_core R generation snapshotted p j =
     (let i = pp_id p; core = pp_core p; plan = pp_plan p; j1 = j\<lparr>jn_current_core_id := Some i\<rparr> in
      if \<not> has_resource i (jn_resources j1) then attempt (Err ''journal resource disappeared'')
      else
        (let j2 = mark_started i j1;
             j3 = j2\<lparr>jn_phase := PhInstalled\<rparr>;
             j4 = j3\<lparr>jn_phase := PhActivated\<rparr>;
             j5 = (mark_verified i j4)\<lparr>jn_phase := PhHealthy\<rparr> in
         bnd (save_journal R j2) (\<lambda>_.
         bnd (check_health (call (\<lambda>r. EvInstall i (is_ok r)) (ca_install_config core (pp_candidate p)))
                (rollback R generation snapshotted j2) ''candidate installation failed'') (\<lambda>_.
         bnd (save_journal R j3) (\<lambda>_.
         bnd (check_health (call (\<lambda>r. EvActivate i (is_ok r)) (ca_activate_config core plan))
                (rollback R generation snapshotted j3) ''runtime activation failed'') (\<lambda>_.
         bnd (save_journal R j4) (\<lambda>_.
         bnd (if cp_fragments plan \<noteq> []
              then check_health (call (\<lambda>r. EvHealth i (is_ok r)) (ca_healthcheck core plan))
                     (rollback R generation snapshotted j4) ''runtime health check failed''
              else go ()) (\<lambda>_.
         bnd (check_health (call (\<lambda>r. EvListen i (is_ok r)) (ca_verify_listeners core plan))
                (rollback R generation snapshotted j4) ''listener verification failed'') (\<lambda>_.
         bnd (if has_individual_users plan
              then bnd (call (\<lambda>r. EvObserve i r) (ca_observe_users core plan)) (\<lambda>observation.
                     case user_observation_error observation of
                       None \<Rightarrow> go ()
                     | Some msg \<Rightarrow> rollback R generation snapshotted j4 msg)
              else go ()) (\<lambda>_.
         bnd (save_journal R j5) (\<lambda>_.
         go j5)))))))))))"

fun apply_all ::
  "'w reconciler \<Rightarrow> u64 \<Rightarrow> 'w prepared_core list \<Rightarrow> 'w prepared_core list \<Rightarrow> journal_entry
   \<Rightarrow> ('w, journal_entry) proc" where
  "apply_all R generation snapshotted [] j = go j"
| "apply_all R generation snapshotted (p # ps) j =
     bnd (apply_core R generation snapshotted p j) (\<lambda>j'. apply_all R generation snapshotted ps j')"

subsection \<open>Publication\<close>

definition next_applied :: "desired_state \<Rightarrow> 'w core_plans \<Rightarrow> applied_state" where
  "next_applied ds plans =
     \<lparr>ap_generation = ds_generation ds,
      ap_active_core_ids = map fst (filter (\<lambda>(_, _, plan). cp_fragments plan \<noteq> []) plans)\<rparr>"

definition publish ::
  "'w reconciler \<Rightarrow> desired_state \<Rightarrow> applied_state \<Rightarrow> 'w core_plans \<Rightarrow> 'w prepared_core list
   \<Rightarrow> journal_entry \<Rightarrow> ('w, outcome) proc" where
  "publish R ds applied plans snapshotted j =
     bnd (generation_is_current R (ds_generation ds)) (\<lambda>current.
     if \<not> current then rollback R (ds_generation ds) snapshotted j ''desired generation became stale''
     else
       (let j1 = j\<lparr>jn_phase := PhPublishing\<rparr> in
        bnd (save_journal R j1) (\<lambda>_.
        bnd (compare_and_set_applied R (ap_generation applied) (next_applied ds plans)) (\<lambda>swapped.
        if \<not> swapped
        then rollback R (ds_generation ds) snapshotted j1 ''applied generation changed concurrently''
        else
          bnd (query (ho_now (rc_host R))) (\<lambda>now.
          (let j2 = j1\<lparr>jn_phase := PhPublished, jn_status := StApplied, jn_current_core_id := None,
                       jn_error := None, jn_completed_at := Some now\<rparr> in
           bnd (save_journal R j2) (\<lambda>_.
           bnd (cleanup_transaction_directory R (jn_generation j2)) (\<lambda>_.
           return_outcome (ds_generation ds) StApplied None))))))))"

subsection \<open>\<open>reconcile\<close>\<close>

definition transaction ::
  "'w reconciler \<Rightarrow> desired_state \<Rightarrow> applied_state \<Rightarrow> 'w core_plans \<Rightarrow> journal_entry
   \<Rightarrow> ('w, outcome) proc" where
  "transaction R ds applied plans j0 =
     (let j1 = j0\<lparr>jn_core_ids := bt_keys plans, jn_status := StApplying\<rparr>;
          dir = generation_dir R (ds_generation ds) in
      bnd (save_journal R j1) (\<lambda>_.
      bnd (prepare_transaction_directory R dir) (\<lambda>_.
      bnd (stage_all R dir plans j1 []) (\<lambda>(j2, prepared).
      bnd (validate_all R prepared j2) (\<lambda>j3.
      (let j4 = j3\<lparr>jn_phase := PhValidated\<rparr> in
       bnd (save_journal R j4) (\<lambda>_.
       bnd (snapshot_all R dir prepared j4 []) (\<lambda>(j5, snapshotted).
       (let j6 = j5\<lparr>jn_phase := PhSnapshotted\<rparr> in
        bnd (save_journal R j6) (\<lambda>_.
        bnd (generation_is_current R (ds_generation ds)) (\<lambda>current.
        if \<not> current then fail_without_mutation R j6 ''desired generation became stale''
        else
          bnd (apply_all R (ds_generation ds) snapshotted snapshotted j6) (\<lambda>j7.
          publish R ds applied plans snapshotted j7))))))))))))"

definition plan_and_run ::
  "'w reconciler \<Rightarrow> desired_state \<Rightarrow> secret_resolver \<Rightarrow> applied_state \<Rightarrow> journal_entry
   \<Rightarrow> ('w, outcome) proc" where
  "plan_and_run R ds secrets applied j0 =
     bnd (save_journal R j0) (\<lambda>_.
     bnd (query (validate_graph (rc_protocols R) (rc_cores R) ds applied)) (\<lambda>graph.
     if \<not> is_ok graph
     then
       bnd (query (ho_now (rc_host R))) (\<lambda>later.
       (let j1 = j0\<lparr>jn_status := StUnsupported,
                    jn_error := Some ''desired state references a missing or incompatible adapter'',
                    jn_completed_at := Some later\<rparr> in
        bnd (save_journal R j1) (\<lambda>_.
        return_outcome (ds_generation ds) StUnsupported (jn_error j1))))
     else
       bnd (query (build_plans (rc_protocols R) (rc_cores R) ds secrets applied)) (\<lambda>built.
       case built of
         Inl _ \<Rightarrow> fail_without_mutation R j0 ''desired state rendering failed''
       | Inr plans \<Rightarrow>
           if \<not> is_ok (validate_listener_plan plans)
           then fail_without_mutation R j0 ''desired listener plan conflicts''
           else transaction R ds applied plans j0)))"

definition journal_blocks :: "journal_entry option \<Rightarrow> bool" where
  "journal_blocks previous \<longleftrightarrow> (case previous of None \<Rightarrow> False
     | Some j \<Rightarrow> jn_status j = StApplying \<or> jn_status j = StRecoveryRequired)"

definition reconcile_proc ::
  "'w reconciler \<Rightarrow> desired_state \<Rightarrow> secret_resolver \<Rightarrow> ('w, outcome) proc" where
  "reconcile_proc R ds secrets =
     bnd (query (st_load_applied (rc_store R))) (\<lambda>loaded.
     bnd (attempt loaded) (\<lambda>applied.
     if ds_generation ds \<le> ap_generation applied
     then return_outcome (ap_generation applied) StApplied None
     else
       bnd (query (st_load_journal (rc_store R))) (\<lambda>loaded_journal.
       bnd (attempt loaded_journal) (\<lambda>previous.
       if journal_blocks previous
       then return_outcome (ds_generation ds) StRecoveryRequired
              (Some ''an interrupted transaction requires root recovery'')
       else
         bnd (query (ho_uuid (rc_host R))) (\<lambda>uuid.
         bnd (query (ho_now (rc_host R))) (\<lambda>now.
         plan_and_run R ds secrets applied
           ((journal_prepared (ds_generation ds) (ap_generation applied) uuid now)
              \<lparr>jn_previous_active_core_ids := ap_active_core_ids applied\<rparr>)))))))"

definition outcome_of :: "outcome ctl \<Rightarrow> outcome res" where
  "outcome_of r = (case r of Fail e \<Rightarrow> Err e | Ret oc \<Rightarrow> Ok oc | Go oc \<Rightarrow> Ok oc)"

definition start :: "'w \<Rightarrow> 'w run" where
  "start w = \<lparr>rn_world = w, rn_trace = []\<rparr>"

definition reconcile ::
  "'w reconciler \<Rightarrow> desired_state \<Rightarrow> secret_resolver \<Rightarrow> 'w \<Rightarrow> outcome res \<times> 'w run" where
  "reconcile R ds secrets w =
     (case reconcile_proc R ds secrets (start w) of (r, s) \<Rightarrow> (outcome_of r, s))"

subsection \<open>\<open>recover\<close>\<close>

definition resource_snapshot :: "journal_resource \<Rightarrow> core_snapshot" where
  "resource_snapshot r =
     \<lparr>cs_path = jr_snapshot_path r, cs_service_was_enabled = jr_service_was_enabled r,
      cs_service_was_active = jr_service_was_active r\<rparr>"

definition path_starts_with :: "path \<Rightarrow> path \<Rightarrow> bool" where
  "path_starts_with p prefix_path \<longleftrightarrow> take (length prefix_path) p = prefix_path"

fun recover_resources ::
  "'w reconciler \<Rightarrow> path \<Rightarrow> journal_resource list \<Rightarrow> bool \<Rightarrow> ('w, bool) proc" where
  "recover_resources R root [] failed = go failed"
| "recover_resources R root (r # rs) failed =
     (if \<not> is_ok (validate_resource_id (jr_core_id r))
         \<or> \<not> path_starts_with (jr_snapshot_path r) (root @ [jr_core_id r])
      then recover_resources R root rs True
      else case bt_get (rc_cores R) (jr_core_id r) of
          None \<Rightarrow> recover_resources R root rs True
        | Some core \<Rightarrow>
            bnd (rollback_call core (jr_core_id r) (resource_snapshot r)) (\<lambda>res.
            recover_resources R root rs (failed \<or> \<not> is_ok res)))"

definition fully_verified :: "journal_entry \<Rightarrow> bool" where
  "fully_verified j \<longleftrightarrow>
     jn_resources j \<noteq> [] \<and> list_all jr_verified (filter jr_mutation_started (jn_resources j))"

definition some_outcome :: "journal_entry \<Rightarrow> ('w, outcome option) proc" where
  "some_outcome j =
     go (Some \<lparr>oc_generation = jn_generation j, oc_status = jn_status j, oc_message = jn_error j\<rparr>)"

definition recover_rollback ::
  "'w reconciler \<Rightarrow> journal_entry \<Rightarrow> applied_state \<Rightarrow> journal_resource list \<Rightarrow> ('w, outcome option) proc" where
  "recover_rollback R j applied resources =
     (let primary = (case jn_error j of None \<Rightarrow> ''interrupted transaction'' | Some e \<Rightarrow> e);
          j1 = j\<lparr>jn_phase := PhRollbackStarted, jn_status := StApplying, jn_error := Some primary\<rparr> in
      bnd (save_journal R j1) (\<lambda>_.
      bnd (recover_resources R (generation_dir R (jn_generation j1)) resources False) (\<lambda>failed.
      bnd (query (ho_now (rc_host R))) (\<lambda>now.
      (let j2 = j1\<lparr>jn_current_core_id := None, jn_completed_at := Some now\<rparr> in
       bnd (if failed
            then go (j2\<lparr>jn_phase := PhRecoveryRequired, jn_status := StRecoveryRequired,
                        jn_error := Some (failure_with_rollback_outcome primary
                          ''recovery rollback verification failed'')\<rparr>)
            else
              bnd (if ap_generation applied = jn_generation j2
                   then compare_and_set_applied R (jn_generation j2)
                          \<lparr>ap_generation = jn_previous_generation j2,
                           ap_active_core_ids = jn_previous_active_core_ids j2\<rparr>
                   else go (ap_generation applied = jn_previous_generation j2)) (\<lambda>restored.
              if restored
              then go (j2\<lparr>jn_phase := PhRolledBack, jn_status := StRolledBack,
                          jn_error := Some (failure_with_rollback_outcome primary
                            ''recovery rollback verified'')\<rparr>)
              else go (j2\<lparr>jn_phase := PhRecoveryRequired, jn_status := StRecoveryRequired,
                          jn_error := Some (failure_with_rollback_outcome primary
                            ''recovery rollback verified but applied generation changed concurrently'')\<rparr>)))
         (\<lambda>j3.
       bnd (save_journal R j3) (\<lambda>_.
       bnd (if jn_status j3 \<in> {StApplied, StFailed, StRolledBack}
            then cleanup_transaction_directory R (jn_generation j3) else go ()) (\<lambda>_.
       some_outcome j3))))))))"

definition recover_proc :: "'w reconciler \<Rightarrow> ('w, outcome option) proc" where
  "recover_proc R =
     bnd (query (st_load_journal (rc_store R))) (\<lambda>loaded.
     bnd (attempt loaded) (\<lambda>found.
     case found of
       None \<Rightarrow> go None
     | Some j \<Rightarrow>
         if jn_status j \<in> {StApplied, StFailed, StRolledBack, StUnsupported}
         then bnd (cleanup_transaction_directory R (jn_generation j)) (\<lambda>_. go None)
         else
           bnd (query (st_load_applied (rc_store R))) (\<lambda>loaded_applied.
           bnd (attempt loaded_applied) (\<lambda>applied.
           if ap_generation applied = jn_generation j
              \<and> (jn_phase j = PhPublished \<or> fully_verified j)
           then
             bnd (query (ho_now (rc_host R))) (\<lambda>now.
             (let j1 = j\<lparr>jn_phase := PhPublished, jn_status := StApplied, jn_completed_at := Some now\<rparr> in
              bnd (save_journal R j1) (\<lambda>_.
              bnd (cleanup_transaction_directory R (jn_generation j1)) (\<lambda>_.
              go (Some \<lparr>oc_generation = jn_generation j1, oc_status = jn_status j1, oc_message = None\<rparr>)))))
           else
             (let resources = mutated_in_rollback_order j in
              if resources = []
              then
                bnd (query (ho_now (rc_host R))) (\<lambda>now.
                (let j1 = j\<lparr>jn_status := StFailed,
                            jn_error := Some ''interrupted before live mutation'',
                            jn_completed_at := Some now\<rparr> in
                 bnd (save_journal R j1) (\<lambda>_.
                 bnd (cleanup_transaction_directory R (jn_generation j1)) (\<lambda>_.
                 some_outcome j1))))
              else recover_rollback R j applied resources)))))"

definition recover :: "'w reconciler \<Rightarrow> 'w \<Rightarrow> outcome option res \<times> 'w run" where
  "recover R w =
     (case recover_proc R (start w) of
        (Fail e, s) \<Rightarrow> (Err e, s) | (Ret oc, s) \<Rightarrow> (Ok (Some oc), s) | (Go r, s) \<Rightarrow> (Ok r, s))"

end
