(* ===== verification/Reconcile_Safety.thy ===== *)
theory Reconcile_Safety
  imports Reconcile_Engine
begin

text \<open>
  What the transaction engine promises, for every store, host and set of adapters. A crash can
  stop the worker between any two calls or inside a call, so the promises are about every
  prefix of the trace: the journal that is then on disk names every runtime already touched,
  nothing is touched before every candidate is staged, validated and snapshotted, and the
  applied generation is swapped only after every planned runtime was verified.
\<close>

subsection \<open>Reading a trace\<close>

definition touches :: "event \<Rightarrow> string \<Rightarrow> bool" where
  "touches ev c \<longleftrightarrow> (case ev of EvInstall i _ \<Rightarrow> i = c | EvActivate i _ \<Rightarrow> i = c | _ \<Rightarrow> False)"

definition touched :: "event list \<Rightarrow> string set" where
  "touched tr = {c. \<exists>ev \<in> set tr. touches ev c}"

definition installs :: "event list \<Rightarrow> string list" where
  "installs tr = List.map_filter (\<lambda>ev. case ev of EvInstall c _ \<Rightarrow> Some c | _ \<Rightarrow> None) tr"

definition rollbacks :: "event list \<Rightarrow> (string \<times> core_snapshot \<times> bool) list" where
  "rollbacks tr =
     List.map_filter (\<lambda>ev. case ev of EvRollback c sn ok \<Rightarrow> Some (c, sn, ok) | _ \<Rightarrow> None) tr"

text \<open>
  The journals that can be on disk after a trace: a successful save leaves exactly the saved
  entry, a failed one leaves either the old content or the new one.
\<close>

definition disk_step :: "journal_entry set \<Rightarrow> event \<Rightarrow> journal_entry set" where
  "disk_step D ev = (case ev of EvSave j ok \<Rightarrow> if ok then {j} else insert j D | _ \<Rightarrow> D)"

definition on_disk :: "journal_entry set \<Rightarrow> event list \<Rightarrow> journal_entry set" where
  "on_disk D tr = foldl disk_step D tr"

definition started :: "string \<Rightarrow> journal_entry \<Rightarrow> bool" where
  "started c j \<longleftrightarrow> (\<exists>r \<in> set (jn_resources j). jr_core_id r = c \<and> jr_mutation_started r)"

definition prepared_for :: "event list \<Rightarrow> string \<Rightarrow> bool" where
  "prepared_for tr c \<longleftrightarrow>
     EvStage c True \<in> set tr \<and> EvValidate c True \<in> set tr
     \<and> (\<exists>sn. EvSnapshot c (Ok sn) \<in> set tr)"

definition plan_verified :: "event list \<Rightarrow> string \<Rightarrow> core_plan \<Rightarrow> bool" where
  "plan_verified tr c plan \<longleftrightarrow>
     EvInstall c True \<in> set tr \<and> EvActivate c True \<in> set tr \<and> EvListen c True \<in> set tr
     \<and> (cp_fragments plan \<noteq> [] \<longrightarrow> EvHealth c True \<in> set tr)
     \<and> (has_individual_users plan \<longrightarrow> (\<exists>n. EvObserve c (Ok (InSync n)) \<in> set tr))"

text \<open>A journal entry is truthful when each of its resources records a snapshot really taken.\<close>

definition truthful :: "event list \<Rightarrow> journal_entry \<Rightarrow> bool" where
  "truthful tr j \<longleftrightarrow>
     (\<forall>r \<in> set (jn_resources j). EvSnapshot (jr_core_id r) (Ok (resource_snapshot r)) \<in> set tr)"

text \<open>The condition under which the next event may happen after a given trace.\<close>

definition step_ok :: "journal_entry set \<Rightarrow> 'w core_plans \<Rightarrow> event list \<Rightarrow> event \<Rightarrow> bool" where
  "step_ok D plans tr ev \<longleftrightarrow>
     (\<forall>c. touches ev c \<longrightarrow>
        (\<forall>j \<in> on_disk D tr. started c j \<and> truthful tr j)
        \<and> (\<forall>(i, _) \<in> set plans. prepared_for tr i))
     \<and> (\<forall>j ok. ev = EvSave j ok \<longrightarrow> truthful tr j \<and> (\<forall>c \<in> touched tr. started c j))
     \<and> (\<forall>g a r. ev = EvCas g a r \<longrightarrow> (\<forall>(i, _, plan) \<in> set plans. plan_verified tr i plan))"

definition trace_ok :: "journal_entry set \<Rightarrow> 'w core_plans \<Rightarrow> event list \<Rightarrow> bool" where
  "trace_ok D plans tr \<longleftrightarrow> (\<forall>n < length tr. step_ok D plans (take n tr) (tr ! n))"

lemma trace_ok_Nil [simp]: "trace_ok D plans []"
  by (simp add: trace_ok_def)

lemma trace_ok_snoc: "trace_ok D plans (tr @ [ev]) \<longleftrightarrow> trace_ok D plans tr \<and> step_ok D plans tr ev"
  by (auto simp: trace_ok_def nth_append less_Suc_eq)

lemma on_disk_snoc: "on_disk D (tr @ [ev]) = disk_step (on_disk D tr) ev"
  by (simp add: on_disk_def)

lemma touched_snoc: "touched (tr @ [ev]) = touched tr \<union> {c. touches ev c}"
  by (auto simp: touched_def)

lemma touched_Nil [simp]: "touched [] = {}"
  by (simp add: touched_def)

lemma installs_snoc:
  "installs (tr @ [ev]) = installs tr @ (case ev of EvInstall c _ \<Rightarrow> [c] | _ \<Rightarrow> [])"
  by (simp add: installs_def List.map_filter_def split: event.split)

lemma rollbacks_snoc:
  "rollbacks (tr @ [ev]) = rollbacks tr @ (case ev of EvRollback c sn ok \<Rightarrow> [(c, sn, ok)] | _ \<Rightarrow> [])"
  by (simp add: rollbacks_def List.map_filter_def split: event.split)

lemma monitors_Nil [simp]: "installs [] = []" "rollbacks [] = []"
  by (simp_all add: installs_def rollbacks_def)

lemma prepared_for_mono: "prepared_for tr c \<Longrightarrow> prepared_for (tr @ evs) c"
  by (auto simp: prepared_for_def)

lemma truthful_mono: "truthful tr j \<Longrightarrow> truthful (tr @ evs) j"
  by (auto simp: truthful_def)

lemma truthful_same [simp]: "truthful tr (j\<lparr>jn_current_core_id := a\<rparr>) = truthful tr j"
  "truthful tr (j\<lparr>jn_phase := ph\<rparr>) = truthful tr j"
  "truthful tr (j\<lparr>jn_status := st\<rparr>) = truthful tr j"
  "truthful tr (j\<lparr>jn_error := e\<rparr>) = truthful tr j"
  "truthful tr (j\<lparr>jn_completed_at := t\<rparr>) = truthful tr j"
  "truthful tr (j\<lparr>jn_core_ids := ids\<rparr>) = truthful tr j"
  by (simp_all add: truthful_def)

lemma plan_verified_mono: "plan_verified tr c plan \<Longrightarrow> plan_verified (tr @ evs) c plan"
  by (auto simp: plan_verified_def)

text \<open>A prefix of an acceptable trace is acceptable, and its next event was allowed.\<close>

lemma trace_ok_append: "trace_ok D plans (xs @ ys) \<Longrightarrow> trace_ok D plans xs"
proof (induction ys rule: rev_induct)
  case Nil
  then show ?case by simp
next
  case (snoc y ys)
  then have "trace_ok D plans ((xs @ ys) @ [y])" by simp
  then have "trace_ok D plans (xs @ ys)" by (rule trace_ok_snoc [THEN iffD1, THEN conjunct1])
  then show ?case by (rule snoc.IH)
qed

lemma trace_ok_split: "trace_ok D plans (xs @ ev # ys) \<Longrightarrow> trace_ok D plans xs \<and> step_ok D plans xs ev"
  using trace_ok_append [of D plans "xs @ [ev]" ys] by (simp add: trace_ok_snoc)

text \<open>
  The crash invariant: whatever entry is on disk, it names every runtime already touched, and
  the snapshots it records were really taken.
\<close>

lemma trace_ok_disk:
  "trace_ok D plans tr \<Longrightarrow> c \<in> touched tr \<Longrightarrow> j \<in> on_disk D tr \<Longrightarrow> started c j \<and> truthful tr j"
proof (induction tr arbitrary: j rule: rev_induct)
  case Nil
  then show ?case by simp
next
  case (snoc ev tr)
  then have ok: "trace_ok D plans tr" "step_ok D plans tr ev" by (simp_all add: trace_ok_snoc)
  have "started c j \<and> truthful tr j"
  proof (cases "\<exists>i ok. ev = EvSave i ok")
    case True
    then obtain i b where ev: "ev = EvSave i b" by blast
    have "c \<in> touched tr" using snoc.prems(2) by (simp add: ev touched_snoc touches_def)
    then show ?thesis
      using snoc.prems(3) snoc.IH ok
      by (auto simp: ev on_disk_snoc disk_step_def step_ok_def split: if_splits)
  next
    case False
    then have "on_disk D (tr @ [ev]) = on_disk D tr"
      by (cases ev) (auto simp: on_disk_snoc disk_step_def)
    then show ?thesis
      using snoc ok by (auto simp: touched_snoc step_ok_def)
  qed
  then show ?case by (simp add: truthful_mono)
qed

subsection \<open>Before any mutation\<close>

definition quiet :: "journal_entry set \<Rightarrow> 'w core_plans \<Rightarrow> event list \<Rightarrow> bool" where
  "quiet D plans tr \<longleftrightarrow> trace_ok D plans tr \<and> touched tr = {} \<and> installs tr = [] \<and> rollbacks tr = []
     \<and> (\<forall>g a r. EvCas g a r \<notin> set tr)"

definition quiet_event :: "event \<Rightarrow> bool" where
  "quiet_event ev \<longleftrightarrow> (case ev of
      EvSave _ _ \<Rightarrow> False | EvInstall _ _ \<Rightarrow> False | EvActivate _ _ \<Rightarrow> False | EvRollback _ _ _ \<Rightarrow> False
    | EvCas _ _ _ \<Rightarrow> False | _ \<Rightarrow> True)"

lemma quiet_Nil [simp]: "quiet D plans []"
  by (simp add: quiet_def)

lemma quiet_snoc: "quiet D plans tr \<Longrightarrow> quiet_event ev \<Longrightarrow> quiet D plans (tr @ [ev])"
  by (cases ev)
    (auto simp: quiet_def quiet_event_def trace_ok_snoc step_ok_def touched_snoc touches_def
      installs_snoc rollbacks_snoc)

lemma quiet_snoc_save: "quiet D plans tr \<Longrightarrow> truthful tr j \<Longrightarrow> quiet D plans (tr @ [EvSave j ok])"
  by (auto simp: quiet_def trace_ok_snoc step_ok_def touched_snoc touches_def installs_snoc rollbacks_snoc)

lemma quiet_event_simps [simp]:
  "quiet_event (EvStage c ok)" "quiet_event (EvValidate c ok)"
  "quiet_event (EvSnapshot c sn)" "quiet_event (EvCurrent g r)" "quiet_event (EvCleanup g)"
  "quiet_event (EvHealth c ok)" "quiet_event (EvListen c ok)" "quiet_event (EvObserve c u)"
  by (simp_all add: quiet_event_def)

definition extends :: "'w run \<Rightarrow> 'w run \<Rightarrow> bool" where
  "extends s s' \<longleftrightarrow> (\<exists>evs. rn_trace s' = rn_trace s @ evs)"

lemma extends_refl [simp]: "extends s s"
  by (simp add: extends_def)

lemma extends_trans: "extends s s' \<Longrightarrow> extends s' s'' \<Longrightarrow> extends s s''"
  by (auto simp: extends_def)

lemma extends_mem: "extends s s' \<Longrightarrow> ev \<in> set (rn_trace s) \<Longrightarrow> ev \<in> set (rn_trace s')"
  by (auto simp: extends_def)

lemma truthful_extends: "truthful (rn_trace s) j \<Longrightarrow> extends s s' \<Longrightarrow> truthful (rn_trace s') j"
  by (auto simp: extends_def truthful_mono)

lemma extends_step [simp]: "extends s (s\<lparr>rn_world := w, rn_trace := rn_trace s @ evs\<rparr>)"
  "extends s (s\<lparr>rn_world := w\<rparr>)" "extends s (s\<lparr>rn_trace := rn_trace s @ evs\<rparr>)"
  by (auto simp: extends_def)

text \<open>
  The postcondition of the stages that run before the first mutation: nothing is touched, an
  early return is a \<open>Failed\<close> outcome, and \<open>Q\<close> holds when the stage goes on.
\<close>

definition quiet_post ::
  "journal_entry set \<Rightarrow> 'w core_plans \<Rightarrow> 'w run \<Rightarrow> ('a \<Rightarrow> 'w run \<Rightarrow> bool) \<Rightarrow> 'a ctl \<Rightarrow> 'w run \<Rightarrow> bool"
where
  "quiet_post D plans s Q r s' \<longleftrightarrow>
     quiet D plans (rn_trace s') \<and> extends s s'
     \<and> (case r of Fail _ \<Rightarrow> True | Ret oc \<Rightarrow> oc_status oc = StFailed | Go x \<Rightarrow> Q x s')"

lemma quiet_post_bnd:
  assumes "post m s (quiet_post D plans s R)"
    and "\<And>x s'. quiet D plans (rn_trace s') \<Longrightarrow> extends s s' \<Longrightarrow> R x s' \<Longrightarrow> post (f x) s' (quiet_post D plans s' Q)"
  shows "post (bnd m f) s (quiet_post D plans s Q)"
proof (rule post_bnd_rule [OF assms(1)])
  fix x s' assume "quiet_post D plans s R (Go x) s'"
  then have q: "quiet D plans (rn_trace s')" "extends s s'" "R x s'" by (auto simp: quiet_post_def)
  show "post (f x) s' (quiet_post D plans s Q)"
    by (rule post_mono [OF assms(2) [OF q]])
      (auto simp: quiet_post_def intro: extends_trans [OF q(2)])
qed (auto simp: quiet_post_def)

lemma quiet_save:
  "quiet D plans (rn_trace s) \<Longrightarrow> truthful (rn_trace s) j \<Longrightarrow>
     post (save_journal R j) s (quiet_post D plans s (\<lambda>_ s'. rn_trace s' = rn_trace s @ [EvSave j True]))"
  by (auto simp: save_journal_def post_rules quiet_post_def quiet_snoc_save split: prod.splits sum.splits)

lemma quiet_call:
  "quiet D plans (rn_trace s) \<Longrightarrow> (\<And>r. quiet_event (ev r)) \<Longrightarrow>
     post (call ev f) s (quiet_post D plans s (\<lambda>r s'. rn_trace s' = rn_trace s @ [ev r]))"
  by (auto simp: post_rules quiet_post_def quiet_snoc split: prod.splits)

lemma quiet_silent:
  "quiet D plans (rn_trace s) \<Longrightarrow> post (silent f) s (quiet_post D plans s (\<lambda>r s'. True))"
  by (auto simp: post_rules quiet_post_def split: prod.splits)

lemma quiet_attempt:
  "quiet D plans (rn_trace s) \<Longrightarrow> post (attempt r) s (quiet_post D plans s (\<lambda>x s'. r = Inr x))"
  by (auto simp: post_rules quiet_post_def split: sum.splits)

lemma quiet_query:
  "quiet D plans (rn_trace s) \<Longrightarrow> post (query q) s (quiet_post D plans s (\<lambda>x s'. True))"
  by (auto simp: post_rules quiet_post_def)

lemma quiet_go:
  "quiet D plans (rn_trace s) \<Longrightarrow> Q x s \<Longrightarrow> post (go x) s (quiet_post D plans s Q)"
  by (auto simp: post_rules quiet_post_def)

lemma quiet_cleanup:
  "quiet D plans (rn_trace s) \<Longrightarrow>
     post (cleanup_transaction_directory R g) s (quiet_post D plans s (\<lambda>_ _. True))"
  by (auto simp: cleanup_transaction_directory_def Let_def post_rules quiet_post_def quiet_snoc split: prod.splits)

lemma quiet_prepare_dir:
  "quiet D plans (rn_trace s) \<Longrightarrow>
     post (prepare_transaction_directory R p) s (quiet_post D plans s (\<lambda>_ _. True))"
  by (auto simp: prepare_transaction_directory_def post_rules quiet_post_def
      split: path_kind.splits prod.splits sum.splits)

lemma quiet_current:
  "quiet D plans (rn_trace s) \<Longrightarrow>
     post (generation_is_current R g) s (quiet_post D plans s (\<lambda>_ _. True))"
  by (auto simp: generation_is_current_def post_rules quiet_post_def quiet_snoc split: prod.splits sum.splits)

lemma quiet_fail:
  assumes "quiet D plans (rn_trace s)" "truthful (rn_trace s) j"
  shows "post (fail_without_mutation R j msg) s (quiet_post D plans s Q)"
  unfolding fail_without_mutation_def Let_def return_outcome_def
proof (rule quiet_post_bnd [OF quiet_query [OF assms(1)]], rule quiet_post_bnd [OF quiet_save],
    assumption, goal_cases)
  case (1 now s1)
  then show ?case using assms(2) by (auto intro: truthful_extends)
next
  case (2 now s1 u s2)
  show ?case
    by (rule quiet_post_bnd [OF quiet_cleanup [OF 2(4)]]) (simp add: post_rules quiet_post_def)
qed

lemma quiet_post_weaken:
  "post m s (quiet_post D plans s R) \<Longrightarrow> (\<And>x s'. extends s s' \<Longrightarrow> R x s' \<Longrightarrow> Q x s') \<Longrightarrow>
     post m s (quiet_post D plans s Q)"
  by (erule post_mono) (auto simp: quiet_post_def split: ctl.splits)

definition staged_pair :: "'w staged \<Rightarrow> 'w core_adapter \<times> core_plan" where
  "staged_pair x = (fst x, fst (snd x))"

text \<open>
  One runtime of a stage: an operation whose event is allowed before mutation, a \<open>Failed\<close>
  return when it fails, and the continuation otherwise.
\<close>

lemma quiet_call_case:
  assumes "quiet D plans (rn_trace s)" "truthful (rn_trace s) j" "\<And>r. quiet_event (ev r)"
    and "\<And>x s'. quiet D plans (rn_trace s') \<Longrightarrow> extends s s' \<Longrightarrow> ev (Inr x) \<in> set (rn_trace s') \<Longrightarrow>
           post (g x) s' (quiet_post D plans s' Q)"
  shows "post (bnd (call ev f) (\<lambda>r. case r of Inl _ \<Rightarrow> fail_without_mutation R j msg | Inr x \<Rightarrow> g x))
           s (quiet_post D plans s Q)"
proof (rule quiet_post_bnd [OF quiet_call [OF assms(1,3)]], goal_cases)
  case (1 r s')
  then have "truthful (rn_trace s') j" using truthful_extends [OF assms(2)] by blast
  with 1 show ?case by (cases r) (auto intro: quiet_fail assms(4))
qed

definition stage_done :: "event list \<Rightarrow> 'w core_plans \<Rightarrow> bool" where
  "stage_done tr ps \<longleftrightarrow> (\<forall>(i, _) \<in> set ps. EvStage i True \<in> set tr)"

definition stage_post ::
  "journal_entry \<Rightarrow> 'w staged list \<Rightarrow> 'w core_plans \<Rightarrow> journal_entry \<times> 'w staged list \<Rightarrow> 'w run \<Rightarrow> bool"
where
  "stage_post j prepared ps x s' \<longleftrightarrow>
     jn_resources (fst x) = jn_resources j
     \<and> map staged_pair (snd x) = map staged_pair prepared @ map snd ps
     \<and> stage_done (rn_trace s') ps"

lemma quiet_stage_all:
  "quiet D plans (rn_trace s) \<Longrightarrow> truthful (rn_trace s) j \<Longrightarrow>
     post (stage_all R dir ps j prepared) s (quiet_post D plans s (stage_post j prepared ps))"
proof (induction R dir ps j prepared arbitrary: s rule: stage_all.induct)
  case (1 R dir j prepared)
  then show ?case by (auto intro: quiet_go simp: stage_post_def stage_done_def)
next
  case (2 R dir core_id core plan ps j prepared)
  note IH = 2(1) and quiet0 = 2(2) and truthful0 = 2(3)
  show ?case
    unfolding stage_all.simps Let_def
  proof (rule quiet_post_bnd [OF quiet_silent [OF quiet0]], rule quiet_post_bnd [OF quiet_attempt],
      assumption, rule quiet_call_case, assumption, goal_cases)
    case (1 made s1 u s2)
    then show ?case using truthful0 by (auto intro: truthful_extends truthful_mono)
  next
    case (2 made s1 u s2)
    then show ?case by simp
  next
    case (3 made s1 u s2 candidate s3)
    have truthful3: "truthful (rn_trace s3) j"
      by (intro truthful_extends [OF _ 3(8)] truthful_extends [OF _ 3(5)] truthful_extends [OF _ 3(2)] truthful0)
    have mem: "EvStage core_id True \<in> set (rn_trace s3)" using 3(9) by simp
    show ?case
    proof (rule quiet_post_bnd [OF quiet_save [OF 3(7)]], goal_cases)
      case 1
      then show ?case using truthful3 by simp
    next
      case (2 v s4)
      then have "truthful (rn_trace s4) j" using truthful3 by (auto intro: truthful_extends truthful_mono)
      then show ?case
        using 2 mem
        by - (rule quiet_post_weaken, rule IH [OF refl refl refl],
          auto simp: stage_post_def stage_done_def staged_pair_def intro: extends_mem)
    qed
  qed
qed

definition validate_done :: "event list \<Rightarrow> 'w staged list \<Rightarrow> bool" where
  "validate_done tr ps \<longleftrightarrow> (\<forall>(core, _) \<in> set ps. EvValidate (ca_id core) True \<in> set tr)"

definition validate_post :: "journal_entry \<Rightarrow> 'w staged list \<Rightarrow> journal_entry \<Rightarrow> 'w run \<Rightarrow> bool" where
  "validate_post j ps j' s' \<longleftrightarrow> jn_resources j' = jn_resources j \<and> validate_done (rn_trace s') ps"

lemma quiet_validate_all:
  "quiet D plans (rn_trace s) \<Longrightarrow> truthful (rn_trace s) j \<Longrightarrow>
     post (validate_all R ps j) s (quiet_post D plans s (validate_post j ps))"
proof (induction R ps j arbitrary: s rule: validate_all.induct)
  case (1 R j)
  then show ?case by (auto intro: quiet_go simp: validate_done_def validate_post_def)
next
  case (2 R core plan candidate ps j)
  note IH = 2(1) and quiet0 = 2(2) and truthful0 = 2(3)
  let ?j1 = "j\<lparr>jn_current_core_id := Some (ca_id core)\<rparr>"
  show ?case
    unfolding validate_all.simps Let_def
  proof (rule quiet_post_bnd [OF quiet_call [OF quiet0]], simp, goal_cases)
    case (1 r s1)
    then have truthful1: "truthful (rn_trace s1) ?j1" using truthful0 by (auto intro: truthful_extends truthful_mono)
    show ?case
    proof (cases "is_ok r")
      case True
      have mem: "EvValidate (ca_id core) True \<in> set (rn_trace s1)" using 1(3) True by simp
      have "post (validate_all R ps ?j1) s1
        (quiet_post D plans s1 (validate_post j ((core, plan, candidate) # ps)))"
        by (rule quiet_post_weaken, rule IH [OF refl _ 1(1) truthful1])
          (use mem True in \<open>auto simp: validate_done_def validate_post_def intro: extends_mem\<close>)
      then show ?thesis by (simp add: True)
    next
      case False
      then show ?thesis by (simp add: quiet_fail [OF 1(1) truthful1])
    qed
  qed
qed

definition snapshotted_as :: "'w staged list \<Rightarrow> 'w prepared_core list \<Rightarrow> bool" where
  "snapshotted_as ps pps \<longleftrightarrow> map (\<lambda>p. (pp_core p, pp_plan p, pp_candidate p)) pps = ps"

definition resources_of :: "'w prepared_core list \<Rightarrow> journal_resource list" where
  "resources_of pps = map (\<lambda>p. snapshot_resource (pp_plan p) (pp_snapshot p)) pps"

definition snapshot_post ::
  "journal_entry \<Rightarrow> 'w prepared_core list \<Rightarrow> 'w staged list
   \<Rightarrow> journal_entry \<times> 'w prepared_core list \<Rightarrow> 'w run \<Rightarrow> bool"
where
  "snapshot_post j snapshotted ps x s' \<longleftrightarrow>
     (\<exists>new. snd x = snapshotted @ new \<and> snapshotted_as ps new
        \<and> jn_resources (fst x) = jn_resources j @ resources_of new)
     \<and> truthful (rn_trace s') (fst x)"

lemma resource_snapshot_of [simp]:
  "resource_snapshot (snapshot_resource plan sn) = sn"
  "jr_core_id (snapshot_resource plan sn) = cp_core_id plan"
  by (simp_all add: resource_snapshot_def snapshot_resource_def)

lemma snapshot_post_step:
  assumes "snapshot_post (j\<lparr>jn_current_core_id := c,
             jn_resources := jn_resources j @ [snapshot_resource plan snapshot]\<rparr>)
             (done @ [\<lparr>pp_core = core, pp_plan = plan, pp_candidate = candidate, pp_snapshot = snapshot\<rparr>])
             ps x s'"
  shows "snapshot_post j done ((core, plan, candidate) # ps) x s'"
proof -
  let ?p = "\<lparr>pp_core = core, pp_plan = plan, pp_candidate = candidate, pp_snapshot = snapshot\<rparr>"
  obtain new where "snd x = (done @ [?p]) @ new" "snapshotted_as ps new"
      "jn_resources (fst x) = (jn_resources j @ [snapshot_resource plan snapshot]) @ resources_of new"
    using assms(1) by (auto simp: snapshot_post_def)
  then have "\<exists>new. snd x = done @ new \<and> snapshotted_as ((core, plan, candidate) # ps) new
        \<and> jn_resources (fst x) = jn_resources j @ resources_of new"
    by (intro exI [of _ "?p # new"]) (simp add: snapshotted_as_def resources_of_def)
  then show ?thesis using assms by (simp add: snapshot_post_def)
qed

lemma quiet_snapshot_all:
  "quiet D plans (rn_trace s) \<Longrightarrow> truthful (rn_trace s) j \<Longrightarrow>
     post (snapshot_all R dir ps j snapshotted) s
       (quiet_post D plans s (snapshot_post j snapshotted ps))"
proof (induction R dir ps j snapshotted arbitrary: s rule: snapshot_all.induct)
  case (1 R dir j snapshotted)
  then show ?case
    by (auto intro: quiet_go simp: snapshot_post_def snapshotted_as_def resources_of_def)
next
  case (2 R dir core plan candidate ps j snapshotted)
  note IH = 2(1) and quiet0 = 2(2) and truthful0 = 2(3)
  show ?case
    unfolding snapshot_all.simps Let_def
  proof (rule quiet_call_case [OF quiet0], simp add: truthful0, simp, goal_cases)
    case (1 snapshot s1)
    let ?j2 = "j\<lparr>jn_current_core_id := Some (ca_id core),
                jn_resources := jn_resources j @ [snapshot_resource plan snapshot]\<rparr>"
    have "truthful (rn_trace s1) j" using 1 truthful0 by (auto intro: truthful_extends truthful_mono)
    then have truthful1: "truthful (rn_trace s1) ?j2"
      using 1(3) by (auto simp: truthful_def)
    show ?case
    proof (rule quiet_post_bnd [OF quiet_save [OF 1(1)]], goal_cases)
      case 1
      then show ?case using truthful1 by simp
    next
      case (2 u s2)
      then have "truthful (rn_trace s2) ?j2" using truthful1 by (auto intro: truthful_extends truthful_mono)
      then show ?case
        using 2 by - (rule quiet_post_weaken, rule IH [OF refl refl refl], auto intro!: snapshot_post_step)
    qed
  qed
qed

end
