(* ===== verification/Reconcile_Mutation.thy ===== *)
theory Reconcile_Mutation
  imports Reconcile_Safety
begin

text \<open>
  The mutation phase: installing, activating and verifying one runtime after the other, the
  rollback that undoes a failed phase, and the publication of the new generation. \<open>live\<close> is
  the invariant of the phase and \<open>ended\<close> what every end of a transaction guarantees.
\<close>

subsection \<open>The phase invariant\<close>

definition live :: "journal_entry set \<Rightarrow> 'w core_plans \<Rightarrow> event list \<Rightarrow> string list \<Rightarrow> bool" where
  "live D plans tr dn \<longleftrightarrow> trace_ok D plans tr \<and> touched tr = set dn \<and> installs tr = dn"

definition names_started :: "journal_entry \<Rightarrow> string list \<Rightarrow> bool" where
  "names_started j dn \<longleftrightarrow> map jr_core_id (filter jr_mutation_started (jn_resources j)) = dn"

lemma names_started_started: "names_started j dn \<Longrightarrow> started c j \<longleftrightarrow> c \<in> set dn"
  by (auto simp: names_started_def started_def)

lemma names_started_same [simp]:
  "names_started (j\<lparr>jn_current_core_id := a\<rparr>) = names_started j"
  "names_started (j\<lparr>jn_phase := ph\<rparr>) = names_started j"
  "names_started (j\<lparr>jn_status := st\<rparr>) = names_started j"
  "names_started (j\<lparr>jn_error := e\<rparr>) = names_started j"
  "names_started (j\<lparr>jn_completed_at := t\<rparr>) = names_started j"
  by (auto simp: names_started_def fun_eq_iff)

definition passing :: "event \<Rightarrow> bool" where
  "passing ev \<longleftrightarrow> (case ev of EvSave _ _ \<Rightarrow> False | EvInstall _ _ \<Rightarrow> False | EvActivate _ _ \<Rightarrow> False
     | EvCas _ _ _ \<Rightarrow> False | _ \<Rightarrow> True)"

lemma passing_simps [simp]:
  "passing (EvHealth c ok)" "passing (EvListen c ok)" "passing (EvObserve c u)"
  "passing (EvCurrent g r)" "passing (EvCleanup g)" "passing (EvRollback c sn ok)"
  by (simp_all add: passing_def)

lemma live_passing: "live D plans tr dn \<Longrightarrow> passing ev \<Longrightarrow> live D plans (tr @ [ev]) dn"
  by (cases ev)
    (auto simp: live_def passing_def trace_ok_snoc step_ok_def touched_snoc touches_def installs_snoc)

lemma live_save:
  "live D plans tr dn \<Longrightarrow> truthful tr j \<Longrightarrow> names_started j dn' \<Longrightarrow> set dn \<subseteq> set dn' \<Longrightarrow>
     live D plans (tr @ [EvSave j ok]) dn"
  by (auto simp: live_def trace_ok_snoc step_ok_def touched_snoc touches_def installs_snoc
      names_started_started)

lemma live_install:
  assumes "live D plans tr dn" "on_disk D tr = {j}" "names_started j (dn @ [c])" "truthful tr j"
    and "\<forall>(i, _) \<in> set plans. prepared_for tr i"
  shows "live D plans (tr @ [EvInstall c ok]) (dn @ [c])"
  using assms by (auto simp: live_def trace_ok_snoc step_ok_def touched_snoc touches_def installs_snoc
      names_started_started)

lemma live_activate:
  assumes "live D plans tr dn" "on_disk D tr = {j}" "names_started j dn" "c \<in> set dn" "truthful tr j"
    and "\<forall>(i, _) \<in> set plans. prepared_for tr i"
  shows "live D plans (tr @ [EvActivate c ok]) dn"
  using assms by (auto simp: live_def trace_ok_snoc step_ok_def touched_snoc touches_def installs_snoc
      names_started_started)

lemma live_cas:
  assumes "live D plans tr dn" "\<forall>(i, _, plan) \<in> set plans. plan_verified tr i plan"
  shows "live D plans (tr @ [EvCas g a r]) dn"
  using assms by (auto simp: live_def trace_ok_snoc step_ok_def touched_snoc touches_def installs_snoc)

subsection \<open>Journal updates\<close>

lemma update_resource_ids:
  "(\<And>r. jr_core_id (f r) = jr_core_id r) \<Longrightarrow> map jr_core_id (update_resource c f rs) = map jr_core_id rs"
  by (induction c f rs rule: update_resource.induct) auto

lemma update_resource_snapshots:
  "(\<And>r. resource_snapshot (f r) = resource_snapshot r) \<Longrightarrow>
     map resource_snapshot (update_resource c f rs) = map resource_snapshot rs"
  by (induction c f rs rule: update_resource.induct) auto

lemma update_resource_started:
  "(\<And>r. jr_mutation_started (f r) = jr_mutation_started r) \<Longrightarrow> (\<And>r. jr_core_id (f r) = jr_core_id r) \<Longrightarrow>
     map jr_core_id (filter jr_mutation_started (update_resource c f rs))
       = map jr_core_id (filter jr_mutation_started rs)"
  by (induction c f rs rule: update_resource.induct) auto

lemma update_resource_append:
  "c \<notin> jr_core_id ` set xs \<Longrightarrow> update_resource c f (xs @ r # ys) = xs @ update_resource c f (r # ys)"
  by (induction xs) auto

lemma truthful_pairs:
  "truthful tr j \<longleftrightarrow>
     (\<forall>(c, sn) \<in> set (zip (map jr_core_id (jn_resources j)) (map resource_snapshot (jn_resources j))).
        EvSnapshot c (Ok sn) \<in> set tr)"
  unfolding truthful_def zip_map_map
  by (auto simp: zip_same_conv_map)

lemma marks_truthful [simp]:
  "truthful tr (mark_started c j) = truthful tr j"
  "truthful tr (mark_verified c j) = truthful tr j"
  by (simp_all add: truthful_pairs mark_started_def mark_verified_def update_resource_ids
      update_resource_snapshots resource_snapshot_def)

lemma names_started_verified [simp]: "names_started (mark_verified c j) = names_started j"
  by (auto simp: names_started_def mark_verified_def update_resource_started fun_eq_iff)

lemma mark_ids [simp]:
  "map jr_core_id (jn_resources (mark_started c j)) = map jr_core_id (jn_resources j)"
  "map jr_core_id (jn_resources (mark_verified c j)) = map jr_core_id (jn_resources j)"
  by (simp_all add: mark_started_def mark_verified_def update_resource_ids)

text \<open>
  \<open>progress dn todo j\<close>: the journal lists the runtimes in plan order, those in \<open>dn\<close> marked
  started, those in \<open>todo\<close> not yet.
\<close>

definition progress :: "string list \<Rightarrow> string list \<Rightarrow> journal_entry \<Rightarrow> bool" where
  "progress dn todo j \<longleftrightarrow>
     (\<exists>xs ys. jn_resources j = xs @ ys \<and> map jr_core_id xs = dn \<and> map jr_core_id ys = todo
        \<and> list_all jr_mutation_started xs \<and> list_all (\<lambda>r. \<not> jr_mutation_started r) ys)"

lemma progress_same [simp]:
  "progress dn todo (j\<lparr>jn_current_core_id := a\<rparr>) = progress dn todo j"
  "progress dn todo (j\<lparr>jn_phase := ph\<rparr>) = progress dn todo j"
  by (auto simp: progress_def)

lemma progress_names: "progress dn todo j \<Longrightarrow> names_started j dn"
proof -
  assume "progress dn todo j"
  then obtain xs ys where j: "jn_resources j = xs @ ys" "map jr_core_id xs = dn"
      "list_all jr_mutation_started xs" "list_all (\<lambda>r. \<not> jr_mutation_started r) ys"
    by (auto simp: progress_def)
  then have "filter jr_mutation_started (jn_resources j) = xs"
    by (auto simp: list_all_iff filter_empty_conv)
  then show ?thesis using j by (simp add: names_started_def)
qed

lemma progress_ids: "progress dn todo j \<Longrightarrow> map jr_core_id (jn_resources j) = dn @ todo"
  by (auto simp: progress_def)

lemma progress_mark_started:
  assumes "progress dn (c # todo) j" "c \<notin> set dn"
  shows "progress (dn @ [c]) todo (mark_started c j)"
proof -
  obtain xs y ys where j: "jn_resources j = xs @ y # ys" "map jr_core_id xs = dn"
      "jr_core_id y = c" "map jr_core_id ys = todo"
      "list_all jr_mutation_started xs" "list_all (\<lambda>r. \<not> jr_mutation_started r) ys"
    using assms(1) by (auto simp: progress_def map_eq_Cons_conv)
  have "jn_resources (mark_started c j) = (xs @ [y\<lparr>jr_mutation_started := True\<rparr>]) @ ys"
    using j assms(2) by (auto simp: mark_started_def update_resource_append)
  then show ?thesis
    unfolding progress_def
    by (intro exI [of _ "xs @ [y\<lparr>jr_mutation_started := True\<rparr>]"] exI [of _ ys]) (use j in auto)
qed

lemma update_verified_progress:
  assumes "progress dn todo j" "c \<in> set dn"
  shows "progress dn todo (mark_verified c j)"
proof -
  obtain xs ys where j: "jn_resources j = xs @ ys" "map jr_core_id xs = dn" "map jr_core_id ys = todo"
      "list_all jr_mutation_started xs" "list_all (\<lambda>r. \<not> jr_mutation_started r) ys"
    using assms(1) by (auto simp: progress_def)
  let ?f = "\<lambda>r. r\<lparr>jr_verified := True\<rparr>"
  have upd: "update_resource c ?f (as @ ys) = update_resource c ?f as @ ys" if "c \<in> jr_core_id ` set as" for as
    using that by (induction as) auto
  have all: "list_all jr_mutation_started (update_resource c ?f as)" if "list_all jr_mutation_started as" for as
    using that by (induction as) auto
  show ?thesis
    unfolding progress_def
    using j assms(2)
    by (intro exI [of _ "update_resource c ?f xs"] exI [of _ ys])
      (auto simp: mark_verified_def upd update_resource_ids all)
qed

lemma progress_has_resource: "progress dn (c # todo) j \<Longrightarrow> has_resource c (jn_resources j)"
  by (auto simp: progress_def has_resource_def map_eq_Cons_conv)

subsection \<open>Rollback\<close>

lemma live_passing_list: "live D plans tr dn \<Longrightarrow> list_all passing evs \<Longrightarrow> live D plans (tr @ evs) dn"
proof (induction evs rule: rev_induct)
  case Nil
  then show ?case by simp
next
  case (snoc ev evs)
  then have "live D plans ((tr @ evs) @ [ev]) dn" by (intro live_passing) auto
  then show ?case by simp
qed

lemma rollbacks_append: "rollbacks (xs @ ys) = rollbacks xs @ rollbacks ys"
  by (simp add: rollbacks_def List.map_filter_def)

lemma rollbacks_Cons:
  "rollbacks (ev # evs) = (case ev of EvRollback c sn ok \<Rightarrow> [(c, sn, ok)] | _ \<Rightarrow> []) @ rollbacks evs"
  by (simp add: rollbacks_def List.map_filter_def split: event.split)

lemma map2_pairs:
  assumes "length oks = length rs"
  shows "map fst (map2 (\<lambda>r ok. (f r, g r, ok)) rs oks) = map f rs"
    and "map (snd \<circ> snd) (map2 (\<lambda>r ok. (f r, g r, ok)) rs oks) = oks"
  using assms by (induction oks rs rule: list_induct2) auto

definition restore_event :: "journal_resource \<Rightarrow> bool \<Rightarrow> event" where
  "restore_event r ok = EvRollback (jr_core_id r) (resource_snapshot r) ok"

lemma restore_events:
  "length oks = length rs \<Longrightarrow>
     rollbacks (map2 restore_event rs oks)
       = map2 (\<lambda>r ok. (jr_core_id r, resource_snapshot r, ok)) rs oks"
  by (induction oks rs rule: list_induct2)
    (auto simp: rollbacks_def restore_event_def List.map_filter_def)

lemma restore_events_passing: "list_all passing (map2 restore_event rs oks)"
  by (auto simp: list_all_iff restore_event_def)

definition restored_post ::
  "journal_resource list \<Rightarrow> bool \<Rightarrow> 'w run \<Rightarrow> bool ctl \<Rightarrow> 'w run \<Rightarrow> bool" where
  "restored_post rs failed s res s' \<longleftrightarrow>
     (\<exists>oks. length oks = length rs \<and> rn_trace s' = rn_trace s @ map2 restore_event rs oks
        \<and> res = Go (failed \<or> False \<in> set oks))"

lemma restored_post_Cons:
  assumes "restored_post rs (failed \<or> \<not> ok) s1 res s'"
    and "rn_trace s1 = rn_trace s @ [restore_event r ok]"
  shows "restored_post (r # rs) failed s res s'"
proof -
  obtain oks where "length oks = length rs" "rn_trace s' = rn_trace s1 @ map2 restore_event rs oks"
      "res = Go ((failed \<or> \<not> ok) \<or> False \<in> set oks)"
    using assms(1) by (auto simp: restored_post_def)
  then show ?thesis
    unfolding restored_post_def by (intro exI [of _ "ok # oks"]) (use assms(2) in auto)
qed

lemma rollback_resources_post:
  assumes "bt_wf m" "distinct (map jr_core_id rs)"
    and "\<forall>r \<in> set rs. \<exists>p. bt_get m (jr_core_id r) = Some p \<and> pp_snapshot p = resource_snapshot r"
  shows "post (rollback_resources rs m failed) s (restored_post rs failed s)"
  using assms
proof (induction rs m failed arbitrary: s rule: rollback_resources.induct)
  case (1 m failed)
  then show ?case by (simp add: post_rules restored_post_def)
next
  case (2 r rs m failed)
  then obtain p where p: "bt_get m (jr_core_id r) = Some p" "pp_snapshot p = resource_snapshot r" by auto
  have step: "post (rollback_resources rs (bt_remove (jr_core_id r) m) (failed \<or> \<not> is_ok x)) s1
      (restored_post rs (failed \<or> \<not> is_ok x) s1)" for x :: "unit res" and s1
  proof (rule 2(2) [OF p(1)])
    show "bt_wf (bt_remove (jr_core_id r) m)" "distinct (map jr_core_id rs)"
      using 2(3,4) by (simp_all add: bt_wf_remove)
    have "jr_core_id q \<noteq> jr_core_id r" if "q \<in> set rs" for q
      using 2(4) that by (metis distinct.simps(2) list.simps(9) image_eqI set_map)
    then show "\<forall>q \<in> set rs. \<exists>p. bt_get (bt_remove (jr_core_id r) m) (jr_core_id q) = Some p
        \<and> pp_snapshot p = resource_snapshot q"
      using 2(3,5) by (simp add: bt_get_remove)
  qed
  show ?case
    unfolding rollback_resources.simps p(1) option.case rollback_call_def p(2)
    by (auto simp: post_bnd post_call restore_event_def split: prod.split
        intro!: post_mono [OF step] elim: restored_post_Cons)
qed

definition matches :: "'w prepared_core list \<Rightarrow> journal_entry \<Rightarrow> bool" where
  "matches snaps j \<longleftrightarrow> distinct (map pp_id snaps)
     \<and> map jr_core_id (jn_resources j) = map pp_id snaps
     \<and> map resource_snapshot (jn_resources j) = map pp_snapshot snaps"

lemma matches_same [simp]:
  "matches snaps (j\<lparr>jn_current_core_id := a\<rparr>) = matches snaps j"
  "matches snaps (j\<lparr>jn_phase := ph\<rparr>) = matches snaps j"
  "matches snaps (j\<lparr>jn_status := st\<rparr>) = matches snaps j"
  "matches snaps (j\<lparr>jn_error := e\<rparr>) = matches snaps j"
  by (simp_all add: matches_def)

lemma matches_marks [simp]:
  "matches snaps (mark_started c j) = matches snaps j"
  "matches snaps (mark_verified c j) = matches snaps j"
  by (simp_all add: matches_def)
    (simp_all add: mark_started_def mark_verified_def update_resource_snapshots resource_snapshot_def)

lemma matches_lookup:
  assumes "matches snaps j" "r \<in> set (jn_resources j)"
  shows "\<exists>p. bt_get (bt_collect (map (\<lambda>p. (pp_id p, p)) snaps) []) (jr_core_id r) = Some p
           \<and> pp_snapshot p = resource_snapshot r"
proof -
  obtain k where k: "k < length (jn_resources j)" "r = jn_resources j ! k"
    using assms(2) by (auto simp: in_set_conv_nth)
  have len: "length snaps = length (jn_resources j)"
    using assms(1) by (metis matches_def length_map)
  have p: "pp_id (snaps ! k) = jr_core_id r" "pp_snapshot (snaps ! k) = resource_snapshot r"
    using assms(1) k len by (metis matches_def nth_map)+
  have "distinct (map fst (rev (map (\<lambda>p. (pp_id p, p)) snaps)))"
    unfolding rev_map [symmetric] using assms(1) by (simp add: matches_def comp_def)
  moreover have "(pp_id (snaps ! k), snaps ! k) \<in> set (map (\<lambda>p. (pp_id p, p)) snaps)"
    using k len by auto
  ultimately have "bt_get (rev (map (\<lambda>p. (pp_id p, p)) snaps)) (pp_id (snaps ! k)) = Some (snaps ! k)"
    by (intro bt_get_distinct) auto
  then show ?thesis using p by (auto simp: bt_collect_get)
qed

text \<open>What the trace shows when a rollback was carried through: the restored runtimes are the
  installed ones, last installed first, each from the snapshot this transaction took.\<close>

definition undone :: "event list \<Rightarrow> bool" where
  "undone tr \<longleftrightarrow> map fst (rollbacks tr) = rev (installs tr)
     \<and> (\<forall>(c, sn, _) \<in> set (rollbacks tr). EvSnapshot c (Ok sn) \<in> set tr)"

definition undo_ok :: "event list \<Rightarrow> bool" where
  "undo_ok tr \<longleftrightarrow> (\<forall>(_, _, ok) \<in> set (rollbacks tr). ok)"

definition abort_post :: "journal_entry set \<Rightarrow> 'w core_plans \<Rightarrow> 'a ctl \<Rightarrow> 'w run \<Rightarrow> bool" where
  "abort_post D plans r s' \<longleftrightarrow>
     live D plans (rn_trace s') (installs (rn_trace s'))
     \<and> (case r of
          Fail _ \<Rightarrow> True
        | Ret oc \<Rightarrow> undone (rn_trace s')
            \<and> oc_status oc = (if undo_ok (rn_trace s') then StRolledBack else StRecoveryRequired)
        | Go _ \<Rightarrow> False)"

text \<open>The state in which a rollback may be started.\<close>

definition abortable ::
  "journal_entry set \<Rightarrow> 'w core_plans \<Rightarrow> 'w prepared_core list \<Rightarrow> event list \<Rightarrow> string list
   \<Rightarrow> journal_entry \<Rightarrow> bool" where
  "abortable D plans snaps tr dn j \<longleftrightarrow> live D plans tr dn \<and> rollbacks tr = [] \<and> truthful tr j
     \<and> names_started j dn \<and> matches snaps j"

lemma live_installs: "live D plans tr dn \<Longrightarrow> installs tr = dn"
  by (simp add: live_def)

lemma abort_trace:
  assumes ab: "abortable D plans snaps tr dn j"
    and oks: "length oks = length (mutated_in_rollback_order j)"
    and evs: "evs = map2 restore_event (mutated_in_rollback_order j) oks"
    and sub: "set tr \<subseteq> set (tr1)" and tr1: "live D plans tr1 dn" "rollbacks tr1 = []"
  shows "live D plans (tr1 @ evs) dn" "undone (tr1 @ evs)" "undo_ok (tr1 @ evs) \<longleftrightarrow> False \<notin> set oks"
proof -
  let ?rs = "mutated_in_rollback_order j"
  show L: "live D plans (tr1 @ evs) dn"
    unfolding evs by (rule live_passing_list [OF tr1(1) restore_events_passing])
  have rb: "rollbacks (tr1 @ evs) = map2 (\<lambda>r ok. (jr_core_id r, resource_snapshot r, ok)) ?rs oks"
    by (simp add: rollbacks_append tr1 evs restore_events oks)
  have "map fst (rollbacks (tr1 @ evs)) = map jr_core_id ?rs"
    unfolding rb by (rule map2_pairs(1) [OF oks])
  moreover have "map jr_core_id ?rs = rev dn"
    using ab unfolding abortable_def names_started_def mutated_in_rollback_order_def
    by (metis rev_filter rev_map)
  moreover have "EvSnapshot c (Ok sn) \<in> set tr" if "(c, sn, ok) \<in> set (rollbacks (tr1 @ evs))" for c sn ok
  proof -
    have "\<exists>r \<in> set ?rs. c = jr_core_id r \<and> sn = resource_snapshot r"
      using that unfolding rb by (auto dest: set_zip_leftD)
    then show ?thesis
      using ab by (auto simp: abortable_def truthful_def mutated_in_rollback_order_def)
  qed
  ultimately show "undone (tr1 @ evs)"
    using live_installs [OF L] sub by (auto simp: undone_def)
  show "undo_ok (tr1 @ evs) \<longleftrightarrow> False \<notin> set oks"
  proof -
    have "map (snd \<circ> snd) (rollbacks (tr1 @ evs)) = oks"
      unfolding rb by (rule map2_pairs(2) [OF oks])
    then have "set oks = (snd \<circ> snd) ` set (rollbacks (tr1 @ evs))" by (metis set_map)
    then show ?thesis by (force simp: undo_ok_def)
  qed
qed

lemma undone_neutral [simp]:
  "undone (tr @ [EvSave j ok]) = undone tr" "undo_ok (tr @ [EvSave j ok]) = undo_ok tr"
  "undone (tr @ [EvCleanup g]) = undone tr" "undo_ok (tr @ [EvCleanup g]) = undo_ok tr"
  by (auto simp: undone_def undo_ok_def rollbacks_snoc installs_snoc split: prod.splits)

lemma cleanup_aborted:
  assumes "live D plans (rn_trace s) dn" "undone (rn_trace s)"
    and "oc_status oc = (if undo_ok (rn_trace s) then StRolledBack else StRecoveryRequired)"
  shows "post (bnd (if b then cleanup_transaction_directory R g else go ()) (\<lambda>_. ret oc)) s
           (abort_post D plans)"
  using assms live_installs [OF assms(1)]
    live_passing [OF assms(1), of "EvCleanup g"]
  by (auto simp: cleanup_transaction_directory_def Let_def post_rules abort_post_def installs_snoc
      split: prod.splits)

lemma save_abort:
  assumes "live D plans (rn_trace s) dn" "truthful (rn_trace s) j" "names_started j dn"
    and "post m (s\<lparr>rn_world := w, rn_trace := rn_trace s @ [EvSave j True]\<rparr>) (abort_post D plans)"
    and "st_save_journal (rc_store R) j (rn_world s) = (r, w)"
  shows "post (bnd (save_journal R j) (\<lambda>_. m)) s (abort_post D plans)"
  using assms live_save [OF assms(1-3) subset_refl, of False]
  by (cases r) (auto simp: save_journal_def post_rules abort_post_def installs_snoc live_def)

lemma finish_abort:
  assumes "live D plans (rn_trace s) dn" "truthful (rn_trace s) j" "names_started j dn"
    and "undone (rn_trace s)"
    and "jn_status j = (if undo_ok (rn_trace s) then StRolledBack else StRecoveryRequired)"
  shows "post (bnd (save_journal R j) (\<lambda>_.
      bnd (if jn_status j = StRolledBack then cleanup_transaction_directory R (jn_generation j) else go ())
        (\<lambda>_. ret \<lparr>oc_generation = g, oc_status = jn_status j, oc_message = jn_error j\<rparr>)))
    s (abort_post D plans)"
proof -
  obtain r w where sv: "st_save_journal (rc_store R) j (rn_world s) = (r, w)" by fastforce
  show ?thesis
    by (rule save_abort [OF assms(1-3) _ sv], rule cleanup_aborted)
      (use assms live_save [OF assms(1-3) subset_refl] in auto)
qed

text \<open>
  The rollback ends in \<open>RolledBack\<close> exactly when every restoration succeeded, and in
  \<open>RecoveryRequired\<close> otherwise; a store that cannot be written ends it with an error.
\<close>

lemma rollback_post:
  assumes ab: "abortable D plans snaps (rn_trace s) dn j"
  shows "post (rollback R g snaps j err) s (abort_post D plans)"
proof -
  let ?j1 = "j\<lparr>jn_phase := PhRollbackStarted, jn_status := StFailed, jn_error := Some err\<rparr>"
  let ?m = "bt_collect (map (\<lambda>p. (pp_id p, p)) snaps) []" and ?rs = "mutated_in_rollback_order ?j1"
  have facts: "live D plans (rn_trace s) dn" "rollbacks (rn_trace s) = []" "truthful (rn_trace s) ?j1"
      "names_started ?j1 dn" "matches snaps ?j1"
    using ab by (simp_all add: abortable_def)
  obtain r w where sv: "st_save_journal (rc_store R) ?j1 (rn_world s) = (r, w)" by fastforce
  let ?s1 = "s\<lparr>rn_world := w, rn_trace := rn_trace s @ [EvSave ?j1 True]\<rparr>"
  have live1: "live D plans (rn_trace ?s1) dn" "rollbacks (rn_trace ?s1) = []"
    using live_save [OF facts(1,3,4)] facts(2) by (auto simp: rollbacks_snoc)
  have dist: "distinct (map jr_core_id ?rs)"
    using facts(5) by (auto simp: matches_def mutated_in_rollback_order_def distinct_map_filter
        simp flip: rev_map)
  have looks: "\<forall>r \<in> set ?rs. \<exists>p. bt_get ?m (jr_core_id r) = Some p \<and> pp_snapshot p = resource_snapshot r"
    using matches_lookup [OF facts(5)] by (auto simp: mutated_in_rollback_order_def)
  let ?j2 = "\<lambda>failed now. (if failed
      then ?j1\<lparr>jn_phase := PhRecoveryRequired, jn_status := StRecoveryRequired,
             jn_error := Some (failure_with_rollback_outcome err ''rollback verification failed'')\<rparr>
      else ?j1\<lparr>jn_phase := PhRolledBack, jn_status := StRolledBack,
             jn_error := Some (failure_with_rollback_outcome err ''rollback verified'')\<rparr>)
      \<lparr>jn_completed_at := Some now\<rparr>"
  let ?tail = "\<lambda>failed now. bnd (save_journal R (?j2 failed now)) (\<lambda>_.
      bnd (if jn_status (?j2 failed now) = StRolledBack
           then cleanup_transaction_directory R (jn_generation (?j2 failed now)) else go ())
        (\<lambda>_. ret \<lparr>oc_generation = g, oc_status = jn_status (?j2 failed now),
                   oc_message = jn_error (?j2 failed now)\<rparr>))"
  show ?thesis
    unfolding rollback_def Let_def return_outcome_def
  proof (rule save_abort [OF facts(1,3,4) _ sv], rule post_bnd_rule
      [OF rollback_resources_post [OF bt_wf_collect [OF bt_wf_Nil] dist looks]])
    fix failed s2 assume "restored_post ?rs False ?s1 (Go failed) s2"
    then obtain oks where oks: "length oks = length ?rs"
        "rn_trace s2 = rn_trace ?s1 @ map2 restore_event ?rs oks" "failed \<longleftrightarrow> False \<in> set oks"
      by (auto simp: restored_post_def)
    have ab1: "abortable D plans snaps (rn_trace ?s1) dn ?j1"
      using facts live1 by (auto simp: abortable_def truthful_mono)
    note T = abort_trace [OF ab1 oks(1) refl subset_refl live1, folded oks(2)]
    have tr2: "truthful (rn_trace s2) ?j1" unfolding oks(2) using facts(3) by (simp add: truthful_mono)
    show "post (bnd (query (ho_now (rc_host R))) (?tail failed)) s2 (abort_post D plans)"
      unfolding post_query post_bnd [of "query _"] ctl.case
      by (cases failed; simp only: if_True if_False; rule finish_abort [OF T(1)])
        (use T tr2 facts(4) oks(3) in \<open>auto\<close>)
  qed (auto simp: restored_post_def)
qed

subsection \<open>Applying the plan\<close>

definition mut_post ::
  "journal_entry set \<Rightarrow> 'w core_plans \<Rightarrow> ('a \<Rightarrow> 'w run \<Rightarrow> bool) \<Rightarrow> 'a ctl \<Rightarrow> 'w run \<Rightarrow> bool" where
  "mut_post D plans Q r s' \<longleftrightarrow> (case r of Go x \<Rightarrow> Q x s' | _ \<Rightarrow> abort_post D plans r s')"

lemma mut_bnd:
  assumes "post m s (mut_post D plans R)"
    and "\<And>x s'. R x s' \<Longrightarrow> post (f x) s' (mut_post D plans Q)"
  shows "post (bnd m f) s (mut_post D plans Q)"
  by (rule post_bnd_rule [OF assms(1)]) (auto simp: mut_post_def abort_post_def assms(2))

lemma mut_weaken:
  "post m s (mut_post D plans R) \<Longrightarrow> (\<And>x s'. R x s' \<Longrightarrow> Q x s') \<Longrightarrow> post m s (mut_post D plans Q)"
  by (erule post_mono) (auto simp: mut_post_def split: ctl.splits)

lemma mut_go: "Q x s \<Longrightarrow> post (go x) s (mut_post D plans Q)"
  by (simp add: post_rules mut_post_def)

lemma mut_rollback:
  "abortable D plans snaps (rn_trace s) dn j \<Longrightarrow>
     post (rollback R g snaps j err) s (mut_post D plans Q)"
  by (rule post_mono [OF rollback_post]) (auto simp: mut_post_def abort_post_def split: ctl.splits)

lemma mut_save:
  assumes "live D plans (rn_trace s) dn" "truthful (rn_trace s) j" "names_started j dn'"
    and "set dn \<subseteq> set dn'"
  shows "post (save_journal R j) s (mut_post D plans (\<lambda>_ s'. rn_trace s' = rn_trace s @ [EvSave j True]))"
  using live_save [OF assms] live_installs [OF assms(1)]
  by (auto simp: save_journal_def post_rules mut_post_def abort_post_def installs_snoc
      split: prod.splits sum.splits)

lemma mut_check:
  assumes "\<And>r :: unit res. \<not> is_ok r \<Longrightarrow> abortable D plans snaps (rn_trace s @ [ev r]) dn j"
  shows "post (check_health (call ev f) (rollback R g snaps j) msg) s
           (mut_post D plans (\<lambda>_ s'. \<exists>r :: unit res. is_ok r \<and> rn_trace s' = rn_trace s @ [ev r]))"
  unfolding check_health_def post_bnd
proof (rule post_callI, goal_cases)
  case (1 r w)
  show ?case
  proof (cases "is_ok r")
    case True
    then show ?thesis by (auto simp: post_rules mut_post_def)
  next
    case False
    then have "abortable D plans snaps (rn_trace (s\<lparr>rn_world := w, rn_trace := rn_trace s @ [ev r]\<rparr>)) dn j"
      using assms by simp
    from mut_rollback [OF this] show ?thesis using False by simp
  qed
qed

lemma abortable_passing:
  "abortable D plans snaps tr dn j \<Longrightarrow> passing ev \<Longrightarrow> (\<And>c sn ok. ev \<noteq> EvRollback c sn ok) \<Longrightarrow>
     abortable D plans snaps (tr @ [ev]) dn j"
  by (cases ev) (auto simp: abortable_def live_passing truthful_mono rollbacks_snoc)

lemma abortable_save:
  "abortable D plans snaps tr dn j \<Longrightarrow> jn_resources j' = jn_resources j \<Longrightarrow>
     abortable D plans snaps (tr @ [EvSave j' ok]) dn j'"
  by (auto simp: abortable_def truthful_mono rollbacks_snoc truthful_def names_started_def matches_def
      intro!: live_save)

lemma abortable_live: "abortable D plans snaps tr dn j \<Longrightarrow> live D plans tr dn"
  by (simp add: abortable_def)

lemma mut_save_abortable:
  assumes "abortable D plans snaps (rn_trace s) dn j" "truthful (rn_trace s) j'" "names_started j' dn"
    and "matches snaps j'"
  shows "post (save_journal R j') s (mut_post D plans (\<lambda>_ s'.
     rn_trace s' = rn_trace s @ [EvSave j' True] \<and> abortable D plans snaps (rn_trace s') dn j'))"
  by (rule mut_weaken, rule mut_save [OF abortable_live [OF assms(1)] assms(2,3) subset_refl])
    (use assms live_save [OF abortable_live [OF assms(1)] assms(2,3) subset_refl]
      in \<open>auto simp: abortable_def truthful_mono rollbacks_snoc\<close>)

lemma mut_save_same:
  assumes "abortable D plans snaps (rn_trace s) dn j" "jn_resources j' = jn_resources j"
  shows "post (save_journal R j') s (mut_post D plans (\<lambda>_ s'.
     rn_trace s' = rn_trace s @ [EvSave j' True] \<and> abortable D plans snaps (rn_trace s') dn j'))"
  by (rule mut_save_abortable [OF assms(1)])
    (use assms in \<open>auto simp: abortable_def truthful_def names_started_def matches_def\<close>)

definition all_prepared :: "'w core_plans \<Rightarrow> event list \<Rightarrow> bool" where
  "all_prepared plans tr \<longleftrightarrow> (\<forall>(i, _) \<in> set plans. prepared_for tr i)"

lemma all_prepared_mono: "all_prepared plans tr \<Longrightarrow> all_prepared plans (tr @ evs)"
  by (auto simp: all_prepared_def prepared_for_mono)

lemma abortable_install:
  assumes "abortable D plans snaps tr dn j" "all_prepared plans tr"
    and "truthful tr j2" "names_started j2 (dn @ [c])" "matches snaps j2"
  shows "abortable D plans snaps ((tr @ [EvSave j2 True]) @ [EvInstall c ok]) (dn @ [c]) j2"
proof -
  have "live D plans (tr @ [EvSave j2 True]) dn"
    by (rule live_save [OF abortable_live [OF assms(1)] assms(3,4)]) auto
  then have "live D plans ((tr @ [EvSave j2 True]) @ [EvInstall c ok]) (dn @ [c])"
    by (rule live_install [of _ _ _ _ j2])
      (use assms all_prepared_mono [OF assms(2)]
        in \<open>auto simp: on_disk_snoc disk_step_def all_prepared_def truthful_mono\<close>)
  then show ?thesis
    using assms by (simp add: abortable_def rollbacks_append rollbacks_Cons truthful_mono)
qed

lemma abortable_activate:
  assumes "abortable D plans snaps (tr @ [EvSave j True]) dn j" "c \<in> set dn"
    and "all_prepared plans tr"
  shows "abortable D plans snaps ((tr @ [EvSave j True]) @ [EvActivate c ok]) dn j"
proof -
  have "live D plans ((tr @ [EvSave j True]) @ [EvActivate c ok]) dn"
    by (rule live_activate [OF abortable_live [OF assms(1)], of j])
      (use assms all_prepared_mono [OF assms(3)]
        in \<open>auto simp: on_disk_snoc disk_step_def all_prepared_def abortable_def\<close>)
  moreover have "truthful ((tr @ [EvSave j True]) @ [EvActivate c ok]) j"
    using assms(1) unfolding abortable_def by (blast intro: truthful_mono)
  ultimately show ?thesis
    using assms by (simp add: abortable_def rollbacks_append rollbacks_Cons)
qed

text \<open>
  One runtime, from the journal write that announces it to the one that marks it verified. The
  checks after the activation come first, then the whole step.
\<close>

definition verified_post ::
  "journal_entry set \<Rightarrow> 'w core_plans \<Rightarrow> 'w prepared_core list \<Rightarrow> string list \<Rightarrow> string list
   \<Rightarrow> 'w prepared_core \<Rightarrow> 'w run \<Rightarrow> journal_entry \<Rightarrow> 'w run \<Rightarrow> bool" where
  "verified_post D plans snaps dn todo p s j' s' \<longleftrightarrow>
     abortable D plans snaps (rn_trace s') (dn @ [pp_id p]) j' \<and> progress (dn @ [pp_id p]) todo j'
     \<and> plan_verified (rn_trace s') (pp_id p) (pp_plan p) \<and> extends s s'"

lemma mut_optional:
  assumes "b \<Longrightarrow> post m s (mut_post D plans Q)" "\<not> b \<Longrightarrow> Q () s"
  shows "post (if b then m else go ()) s (mut_post D plans Q)"
  using assms by (auto intro: mut_go)

lemma mut_observe:
  assumes "\<And>u. abortable D plans snaps (rn_trace s @ [EvObserve i u]) dn j"
  shows "post (bnd (call (\<lambda>r. EvObserve i r) f) (\<lambda>observation.
           case user_observation_error observation of None \<Rightarrow> go () | Some msg \<Rightarrow> rollback R g snaps j msg))
         s (mut_post D plans (\<lambda>_ s'. \<exists>n. rn_trace s' = rn_trace s @ [EvObserve i (Ok (InSync n))]))"
  unfolding post_bnd
proof (rule post_callI, simp only: ctl.case, goal_cases)
  case (1 r w)
  let ?s1 = "s\<lparr>rn_world := w, rn_trace := rn_trace s @ [EvObserve i r]\<rparr>"
  have ab: "abortable D plans snaps (rn_trace ?s1) dn j" using assms by simp
  show ?case
  proof (cases "user_observation_error r")
    case None
    then obtain n where "r = Ok (InSync n)"
      by (auto simp: user_observation_error_def split: sum.splits user_sync_observation.splits)
    then show ?thesis by (auto simp: user_observation_error_def intro: mut_go)
  next
    case (Some msg)
    then show ?thesis by (simp add: mut_rollback [OF ab])
  qed
qed

lemma extends_by: "rn_trace s' = rn_trace s @ evs \<Longrightarrow> extends s s'"
  by (auto simp: extends_def)

definition checks ::
  "'w reconciler \<Rightarrow> u64 \<Rightarrow> 'w prepared_core list \<Rightarrow> 'w prepared_core \<Rightarrow> journal_entry \<Rightarrow> ('w, unit) proc" where
  "checks R g snaps p j =
     bnd (if cp_fragments (pp_plan p) \<noteq> []
          then check_health (call (\<lambda>r. EvHealth (pp_id p) (is_ok r)) (ca_healthcheck (pp_core p) (pp_plan p)))
                 (rollback R g snaps j) ''runtime health check failed''
          else go ()) (\<lambda>_.
     bnd (check_health (call (\<lambda>r. EvListen (pp_id p) (is_ok r)) (ca_verify_listeners (pp_core p) (pp_plan p)))
            (rollback R g snaps j) ''listener verification failed'') (\<lambda>_.
     if has_individual_users (pp_plan p)
     then bnd (call (\<lambda>r. EvObserve (pp_id p) r) (ca_observe_users (pp_core p) (pp_plan p))) (\<lambda>observation.
            case user_observation_error observation of
              None \<Rightarrow> go ()
            | Some msg \<Rightarrow> rollback R g snaps j msg)
     else go ()))"

lemma bnd_assoc: "bnd (bnd m f) g = bnd m (\<lambda>x. bnd (f x) g)"
  by (rule ext) (auto simp: bnd_def split: prod.splits ctl.splits)

lemma abortable_checked:
  "abortable D plans snaps tr dn j \<Longrightarrow> abortable D plans snaps (tr @ [EvHealth c ok]) dn j"
  "abortable D plans snaps tr dn j \<Longrightarrow> abortable D plans snaps (tr @ [EvListen c ok]) dn j"
  "abortable D plans snaps tr dn j \<Longrightarrow> abortable D plans snaps (tr @ [EvObserve c u]) dn j"
  by (rule abortable_passing; simp)+

lemma checks_post:
  assumes ab: "abortable D plans snaps (rn_trace s) dn j"
    and act: "EvInstall (pp_id p) True \<in> set (rn_trace s)" "EvActivate (pp_id p) True \<in> set (rn_trace s)"
  shows "post (checks R g snaps p j) s (mut_post D plans (\<lambda>_ s'.
     abortable D plans snaps (rn_trace s') dn j \<and> plan_verified (rn_trace s') (pp_id p) (pp_plan p)
     \<and> extends s s'))"
  unfolding checks_def
proof (rule mut_bnd [where R = "\<lambda>_ s'. abortable D plans snaps (rn_trace s') dn j \<and> extends s s'
     \<and> (cp_fragments (pp_plan p) \<noteq> [] \<longrightarrow> EvHealth (pp_id p) True \<in> set (rn_trace s'))"], goal_cases)
  case 1
  show ?case
    by (rule mut_optional, rule mut_weaken, rule mut_check [where ev = "\<lambda>r. EvHealth (pp_id p) (is_ok r)"],
        rule abortable_checked [OF ab])
      (use ab in \<open>auto intro: extends_by abortable_checked\<close>)
next
  case (2 u s1)
  show ?case
  proof (rule mut_bnd [OF mut_check [where ev = "\<lambda>r. EvListen (pp_id p) (is_ok r)", OF abortable_checked(2)]],
      use 2 in blast, elim exE conjE, goal_cases)
    case (1 u2 s2 r)
    then have t2: "rn_trace s2 = rn_trace s1 @ [EvListen (pp_id p) True]" by simp
    then have ab2: "abortable D plans snaps (rn_trace s2) dn j" using 2 by (auto intro: abortable_checked)
    have ext2: "extends s s2" using 2 t2 by (auto intro: extends_trans extends_by)
    have obs: "abortable D plans snaps (rn_trace s2 @ [EvObserve (pp_id p) v]) dn j" for v
      by (rule abortable_checked [OF ab2])
    have mem2: "EvInstall (pp_id p) True \<in> set (rn_trace s2)" "EvActivate (pp_id p) True \<in> set (rn_trace s2)"
        "EvListen (pp_id p) True \<in> set (rn_trace s2)"
        "cp_fragments (pp_plan p) \<noteq> [] \<longrightarrow> EvHealth (pp_id p) True \<in> set (rn_trace s2)"
      using 2 t2 ext2 act by (auto intro: extends_mem)
    show ?case
    proof (rule mut_optional, rule mut_weaken, rule mut_observe, rule obs, elim exE, goal_cases)
      case (1 w s3 n)
      then show ?case
        using obs [of "Ok (InSync n)"] mem2 extends_trans [OF ext2 extends_by [OF 1(2)]]
        by (auto simp: plan_verified_def)
    next
      case 2
      then show ?case using ab2 ext2 mem2 by (auto simp: plan_verified_def)
    qed
  qed
qed

lemma apply_core_post:
  assumes ab: "abortable D plans snaps (rn_trace s) dn j"
    and pr: "progress dn (pp_id p # todo) j" "pp_id p \<notin> set dn"
    and prep: "all_prepared plans (rn_trace s)"
  shows "post (apply_core R g snaps p j) s (mut_post D plans (verified_post D plans snaps dn todo p s))"
proof -
  let ?i = "pp_id p" and ?dn = "dn @ [pp_id p]"
  let ?j1 = "j\<lparr>jn_current_core_id := Some ?i\<rparr>"
  let ?j2 = "mark_started ?i ?j1"
  let ?j3 = "?j2\<lparr>jn_phase := PhInstalled\<rparr>"
  let ?j4 = "?j3\<lparr>jn_phase := PhActivated\<rparr>"
  let ?j5 = "(mark_verified ?i ?j4)\<lparr>jn_phase := PhHealthy\<rparr>"
  have has: "has_resource ?i (jn_resources ?j1)" using progress_has_resource [OF pr(1)] by simp
  have prog2: "progress ?dn todo ?j2"
    by (rule progress_mark_started) (use pr in auto)
  have prog5: "progress ?dn todo ?j5"
    using update_verified_progress [of ?dn todo ?j4 ?i] prog2 by simp
  note names2 = progress_names [OF prog2]
  have j2: "truthful (rn_trace s) ?j2" "matches snaps ?j2" using ab by (auto simp: abortable_def)
  show ?thesis
    unfolding apply_core_def Let_def
  proof (simp only: has not_True_eq_False if_False, rule mut_bnd
      [OF mut_save [OF abortable_live [OF ab] j2(1) names2]], force, goal_cases)
    case (1 u1 s1)
    note t1 = 1
    have inst: "abortable D plans snaps (rn_trace s1 @ [EvInstall ?i ok]) ?dn ?j2" for ok
      unfolding t1 by (rule abortable_install [OF ab prep j2(1) names2 j2(2)])
    show ?case
    proof (rule mut_bnd [OF mut_check [where ev = "\<lambda>r. EvInstall ?i (is_ok r)", OF inst]], elim exE conjE, goal_cases)
      case (1 u2 s2 r2)
      then have t2: "rn_trace s2 = rn_trace s1 @ [EvInstall ?i True]" by simp
      have ab2: "abortable D plans snaps (rn_trace s2) ?dn ?j2" unfolding t2 by (rule inst)
      show ?case
      proof (rule mut_bnd [OF mut_save_same [OF ab2]], simp, elim conjE, goal_cases)
        case (1 u3 s3)
        note t3 = 1
        have act: "abortable D plans snaps (rn_trace s3 @ [EvActivate ?i ok]) ?dn ?j3" for ok
          unfolding t3(1)
          by (rule abortable_activate) (use t3 t2 t1 prep in \<open>auto intro: all_prepared_mono\<close>)
        show ?case
        proof (rule mut_bnd [OF mut_check [where ev = "\<lambda>r. EvActivate ?i (is_ok r)", OF act]],
            elim exE conjE, goal_cases)
          case (1 u4 s4 r4)
          then have t4: "rn_trace s4 = rn_trace s3 @ [EvActivate ?i True]" by simp
          have ab4: "abortable D plans snaps (rn_trace s4) ?dn ?j3" unfolding t4 by (rule act)
          show ?case
          proof (rule mut_bnd [OF mut_save_same [OF ab4]], simp, elim conjE, goal_cases)
            case (1 u5 s5)
            note t5 = 1
            have ext5: "extends s s5" using t1 t2 t3 t4 t5 by (auto intro: extends_by)
            have mem5: "EvInstall ?i True \<in> set (rn_trace s5)" "EvActivate ?i True \<in> set (rn_trace s5)"
              using t1 t2 t3 t4 t5 by auto
            have "post (bnd (checks R g snaps p ?j4) (\<lambda>_. bnd (save_journal R ?j5) (\<lambda>_. go ?j5))) s5
              (mut_post D plans (verified_post D plans snaps dn todo p s))"
            proof (rule mut_bnd [OF checks_post [OF t5(2) mem5]], elim conjE, rule mut_bnd
                [OF mut_save_abortable], assumption, goal_cases)
              case (4 u6 s6 u7 s7)
              have "extends s s7"
                using 4 extends_trans [OF ext5 extends_trans [OF _ extends_by]] by blast
              then show ?case
                using 4 prog5 plan_verified_mono by (auto intro!: mut_go simp: verified_post_def)
            qed (auto simp: abortable_def)
            then show ?case unfolding checks_def bnd_assoc by simp
          qed
        qed
      qed
    qed
  qed
qed

end
