(* ===== verification/Reconcile_Outcome.thy ===== *)
theory Reconcile_Outcome
  imports Reconcile_Mutation
begin

text \<open>
  The whole transaction: what the trace and the status of every outcome of \<open>reconcile\<close>
  guarantee, and what \<open>recover\<close> does with the journal a crash left behind.
\<close>

subsection \<open>All runtimes, then publication\<close>

definition applied_post ::
  "journal_entry set \<Rightarrow> 'w core_plans \<Rightarrow> 'w prepared_core list \<Rightarrow> string list
   \<Rightarrow> 'w prepared_core list \<Rightarrow> 'w run \<Rightarrow> journal_entry \<Rightarrow> 'w run \<Rightarrow> bool" where
  "applied_post D plans snaps dn ps s j' s' \<longleftrightarrow>
     abortable D plans snaps (rn_trace s') (dn @ map pp_id ps) j'
     \<and> (\<forall>p \<in> set ps. plan_verified (rn_trace s') (pp_id p) (pp_plan p)) \<and> extends s s'"

lemma plan_verified_extends:
  "plan_verified (rn_trace s) c plan \<Longrightarrow> extends s s' \<Longrightarrow> plan_verified (rn_trace s') c plan"
  by (auto simp: extends_def plan_verified_mono)

lemma all_prepared_extends:
  "all_prepared plans (rn_trace s) \<Longrightarrow> extends s s' \<Longrightarrow> all_prepared plans (rn_trace s')"
  by (auto simp: extends_def all_prepared_mono)

lemma apply_all_post:
  "abortable D plans snaps (rn_trace s) dn j \<Longrightarrow> progress dn (map pp_id ps) j \<Longrightarrow>
     distinct (dn @ map pp_id ps) \<Longrightarrow> all_prepared plans (rn_trace s) \<Longrightarrow>
     post (apply_all R g snaps ps j) s (mut_post D plans (applied_post D plans snaps dn ps s))"
proof (induction ps arbitrary: dn j s)
  case Nil
  then show ?case by (auto intro: mut_go simp: applied_post_def)
next
  case (Cons p ps)
  show ?case
    unfolding apply_all.simps
  proof (rule mut_bnd [OF apply_core_post [OF Cons.prems(1), of p "map pp_id ps"]], goal_cases)
    case (4 j' s')
    then have v: "abortable D plans snaps (rn_trace s') (dn @ [pp_id p]) j'"
        "progress (dn @ [pp_id p]) (map pp_id ps) j'" "plan_verified (rn_trace s') (pp_id p) (pp_plan p)"
        "extends s s'"
      by (simp_all add: verified_post_def)
    have "post (apply_all R g snaps ps j') s'
        (mut_post D plans (applied_post D plans snaps (dn @ [pp_id p]) ps s'))"
      using Cons.prems by (intro Cons.IH v all_prepared_extends [OF _ v(4)]) auto
    then show ?case
      by (rule mut_weaken)
        (use v in \<open>auto simp: applied_post_def intro: plan_verified_extends extends_trans\<close>)
  qed (use Cons.prems in auto)
qed

text \<open>What an outcome's status says of the trace that led to it.\<close>

definition outcome_ok :: "applied_state \<Rightarrow> event list \<Rightarrow> outcome \<Rightarrow> bool" where
  "outcome_ok target tr oc \<longleftrightarrow> (case oc_status oc of
      StApplied \<Rightarrow> rollbacks tr = [] \<and> (\<exists>g. EvCas g target (Ok True) \<in> set tr)
    | StRolledBack \<Rightarrow> undone tr \<and> undo_ok tr
    | StRecoveryRequired \<Rightarrow> undone tr \<and> \<not> undo_ok tr
    | StFailed \<Rightarrow> touched tr = {} \<and> rollbacks tr = []
    | StUnsupported \<Rightarrow> touched tr = {} \<and> rollbacks tr = []
    | _ \<Rightarrow> False)"

text \<open>
  The world an applied generation leaves behind: the compare-and-set that succeeded, the save of
  the final journal, and at most the removal of the transaction directory after it.
\<close>

definition settled ::
  "'w reconciler \<Rightarrow> desired_state \<Rightarrow> applied_state \<Rightarrow> 'w core_plans \<Rightarrow> 'w \<Rightarrow> bool" where
  "settled R ds applied plans w \<longleftrightarrow> (\<exists>w0 w1 w2 j.
     st_compare_and_set_applied (rc_store R) (ap_generation applied) (next_applied ds plans) w0 = (Ok True, w1)
     \<and> st_save_journal (rc_store R) j w1 = (Ok (), w2) \<and> jn_status j = StApplied
     \<and> (w = w2 \<or> (\<exists>g. w = snd (ho_remove_dir_all (rc_host R) (generation_dir R g) w2))))"

definition ended ::
  "journal_entry set \<Rightarrow> 'w core_plans \<Rightarrow> applied_state \<Rightarrow> ('w \<Rightarrow> bool) \<Rightarrow> outcome ctl
   \<Rightarrow> 'w run \<Rightarrow> bool" where
  "ended D plans target W r s' \<longleftrightarrow>
     live D plans (rn_trace s') (installs (rn_trace s'))
     \<and> (case r of Fail _ \<Rightarrow> True
        | Ret oc \<Rightarrow> outcome_ok target (rn_trace s') oc \<and> (oc_status oc = StApplied \<longrightarrow> W (rn_world s'))
        | Go oc \<Rightarrow> outcome_ok target (rn_trace s') oc \<and> (oc_status oc = StApplied \<longrightarrow> W (rn_world s')))"

lemma abort_ended: "abort_post D plans r s' \<Longrightarrow> ended D plans target W r s'"
  by (auto simp: abort_post_def ended_def outcome_ok_def split: ctl.splits)

lemma ended_bnd_mut:
  assumes "post m s (mut_post D plans R)" "\<And>x s'. R x s' \<Longrightarrow> post (f x) s' (ended D plans target W)"
  shows "post (bnd m f) s (ended D plans target W)"
  by (rule post_bnd_rule [OF assms(1)])
    (auto simp: mut_post_def abort_post_def ended_def outcome_ok_def assms(2))

lemma ended_bnd_quiet:
  assumes "post m s (quiet_post D plans s0 R)"
    and "\<And>x s'. quiet D plans (rn_trace s') \<Longrightarrow> extends s0 s' \<Longrightarrow> R x s' \<Longrightarrow> post (f x) s' (ended D plans target W)"
  shows "post (bnd m f) s (ended D plans target W)"
  by (rule post_bnd_rule [OF assms(1)])
    (auto simp: quiet_post_def quiet_def ended_def live_def outcome_ok_def assms(2))

lemma ended_rollback:
  "abortable D plans snaps (rn_trace s) dn j \<Longrightarrow>
     post (rollback R g snaps j err) s (ended D plans target W)"
  by (rule post_mono [OF rollback_post abort_ended])

lemma ended_fail:
  assumes "quiet D plans (rn_trace s)" "truthful (rn_trace s) j"
  shows "post (fail_without_mutation R j msg) s (ended D plans target W)"
  by (rule post_mono [OF quiet_fail [OF assms, where Q = "\<lambda>_ _. False"]])
    (auto simp: quiet_post_def quiet_def ended_def live_def outcome_ok_def split: ctl.splits)

lemma ended_query:
  "post (f (q (rn_world s))) s (ended D plans target W) \<Longrightarrow> post (bnd (query q) f) s (ended D plans target W)"
  by (simp add: post_rules)

lemma mut_current:
  assumes "abortable D plans snaps (rn_trace s) dn j"
  shows "post (generation_is_current R g) s (mut_post D plans (\<lambda>_ s'.
     abortable D plans snaps (rn_trace s') dn j \<and> extends s s'))"
proof -
  have ab: "abortable D plans snaps (rn_trace s @ [EvCurrent g r]) dn j" for r
    by (rule abortable_passing [OF assms]) auto
  show ?thesis
    unfolding generation_is_current_def post_bnd
    by (rule post_callI)
      (use ab live_installs [OF abortable_live [OF ab]] abortable_live [OF ab] in
        \<open>auto simp: post_rules mut_post_def abort_post_def extends_def split: sum.splits\<close>)
qed

lemma mut_cas:
  assumes "abortable D plans snaps (rn_trace s) dn j"
    and "\<forall>(i, _, plan) \<in> set plans. plan_verified (rn_trace s) i plan"
  shows "post (compare_and_set_applied R g a) s (mut_post D plans (\<lambda>swapped s'.
     abortable D plans snaps (rn_trace s') dn j \<and> EvCas g a (Ok swapped) \<in> set (rn_trace s')
     \<and> (\<exists>w0. st_compare_and_set_applied (rc_store R) g a w0 = (Ok swapped, rn_world s'))))"
proof -
  have lv: "live D plans (rn_trace s @ [EvCas g a r]) dn" for r
    by (rule live_cas [OF abortable_live [OF assms(1)] assms(2)])
  have ab: "abortable D plans snaps (rn_trace s @ [EvCas g a r]) dn j" for r
    using lv assms(1) by (simp add: abortable_def truthful_mono rollbacks_snoc)
  obtain r w where cas: "st_compare_and_set_applied (rc_store R) g a (rn_world s) = (r, w)" by fastforce
  then show ?thesis
    unfolding compare_and_set_applied_def
    using ab lv live_installs [OF lv]
    by (cases r) (auto simp: post_rules mut_post_def abort_post_def intro: exI [of _ "rn_world s"])
qed

lemma mut_save_world:
  assumes "abortable D plans snaps (rn_trace s) dn j" "jn_resources j' = jn_resources j"
  shows "post (save_journal R j') s (mut_post D plans (\<lambda>_ s'.
     rn_trace s' = rn_trace s @ [EvSave j' True] \<and> abortable D plans snaps (rn_trace s') dn j'
     \<and> st_save_journal (rc_store R) j' (rn_world s) = (Ok (), rn_world s')))"
proof -
  have "post (save_journal R j') s (\<lambda>r s'. \<forall>x. r = Go x \<longrightarrow>
      st_save_journal (rc_store R) j' (rn_world s) = (Ok (), rn_world s'))"
    by (auto simp: save_journal_def post_rules split: prod.splits sum.splits)
  from post_conj [OF mut_save_same [OF assms] this] show ?thesis
    by (rule post_mono) (auto simp: mut_post_def split: ctl.splits)
qed

lemma published_end:
  assumes "W (rn_world s)" "\<And>x w. ho_remove_dir_all (rc_host R) (generation_dir R k) (rn_world s) = (x, w) \<Longrightarrow> W w"
    and "live D plans (rn_trace s) dn" "rollbacks (rn_trace s) = []"
    and "EvCas g target (Ok True) \<in> set (rn_trace s)"
  shows "post (bnd (cleanup_transaction_directory R k) (\<lambda>_. return_outcome gen StApplied msg)) s
           (ended D plans target W)"
proof -
  have "live D plans (rn_trace s @ [EvCleanup k]) dn" by (rule live_passing [OF assms(3)]) simp
  then show ?thesis
    using assms live_installs [OF assms(3)]
    by (auto simp: cleanup_transaction_directory_def Let_def return_outcome_def post_rules ended_def
        outcome_ok_def installs_snoc rollbacks_snoc split: prod.splits)
qed

lemma publish_post:
  assumes ab: "abortable D plans snaps (rn_trace s) dn j"
    and ver: "\<forall>(i, _, plan) \<in> set plans. plan_verified (rn_trace s) i plan"
  shows "post (publish R ds applied plans snaps j) s (ended D plans (next_applied ds plans) (settled R ds applied plans))"
  unfolding publish_def Let_def
proof (rule ended_bnd_mut [OF mut_current [OF ab]], elim conjE, goal_cases)
  case (1 current s1)
  note ab1 = 1(1)
  have ver1: "\<forall>(i, _, plan) \<in> set plans. plan_verified (rn_trace s1) i plan"
    using ver 1(2) by (auto intro: plan_verified_extends)
  show ?case
  proof (cases current)
    case False
    then show ?thesis by (simp add: ended_rollback [OF ab1])
  next
    case True
    show ?thesis
    proof (simp only: True not_True_eq_False if_False, rule ended_bnd_mut [OF mut_save_same [OF ab1]], simp,
        elim conjE, goal_cases)
      case (1 u s2)
      note ab2 = 1(2)
      have ver2: "\<forall>(i, _, plan) \<in> set plans. plan_verified (rn_trace s2) i plan"
        using ver1 1(1) by (auto intro: plan_verified_mono)
      show ?case
      proof (rule ended_bnd_mut [OF mut_cas [OF ab2 ver2]], elim conjE, goal_cases)
        case (1 swapped s3)
        note ab3 = 1(1)
        show ?case
        proof (cases swapped)
          case False
          then show ?thesis by (simp add: ended_rollback [OF ab3])
        next
          case swapped: True
          show ?thesis
          proof (simp only: swapped not_True_eq_False if_False, rule ended_query,
              rule ended_bnd_mut [OF mut_save_world [OF ab3]], simp, elim conjE, goal_cases)
            case (1 v s5)
            note tail = this
            from \<open>\<exists>w0. _ = (Ok swapped, rn_world s3)\<close> swapped
            obtain w0 where cas: "st_compare_and_set_applied (rc_store R) (ap_generation applied)
                (next_applied ds plans) w0 = (Ok True, rn_world s3)"
              by auto
            show ?case
            proof (rule published_end [OF _ _ abortable_live [OF tail(2)]], goal_cases)
              case 1
              show ?case unfolding settled_def using cas tail(3) by fastforce
            next
              case (2 x w)
              then have "w = snd (ho_remove_dir_all (rc_host R) (generation_dir R (jn_generation j)) (rn_world s5))" by simp
              then show ?case unfolding settled_def using cas tail(3) by fastforce
            qed (use tail \<open>EvCas _ _ (Ok swapped) \<in> _\<close> swapped in \<open>auto simp: abortable_def\<close>)
          qed
        qed
      qed
    qed
  qed
qed

subsection \<open>The transaction\<close>

lemma quiet_sorted_plans:
  assumes "plans_ok cores generation plans" "core_registry_inv cores" "(i, core, plan) \<in> set plans"
  shows "ca_id core = i" "cp_core_id plan = i"
  using assms cores.reg_inv_get [OF assms(2), of i core] by (auto simp: plans_ok_def)

lemma staged_ids:
  assumes ok: "plans_ok cores generation plans" "core_registry_inv cores"
    and st: "map staged_pair prepared = map snd plans"
  shows "map (\<lambda>(core, plan, _). cp_core_id plan) prepared = map fst plans"
    and "map (\<lambda>(core, plan, _). ca_id core) prepared = map fst plans"
proof -
  have "map (\<lambda>(core, plan, _). cp_core_id plan) prepared = map (cp_core_id \<circ> snd) (map staged_pair prepared)"
    by (auto simp: staged_pair_def)
  also have "\<dots> = map fst plans"
    unfolding st by (auto simp: quiet_sorted_plans [OF ok])
  finally show "map (\<lambda>(core, plan, _). cp_core_id plan) prepared = map fst plans" .
  have "map (\<lambda>(core, plan, _). ca_id core) prepared = map (ca_id \<circ> fst) (map staged_pair prepared)"
    by (auto simp: staged_pair_def)
  also have "\<dots> = map fst plans"
    unfolding st by (auto simp: quiet_sorted_plans [OF ok])
  finally show "map (\<lambda>(core, plan, _). ca_id core) prepared = map fst plans" .
qed

lemma prepared_from_parts:
  assumes ok: "plans_ok cores generation plans" "core_registry_inv cores"
    and st: "map staged_pair prepared = map snd plans"
    and stage: "stage_done tr plans" and valid: "validate_done tr prepared"
    and snap: "snapshotted_as prepared snaps" "jn_resources j = resources_of snaps" "truthful tr j"
  shows "all_prepared plans tr" "map pp_id snaps = map fst plans" "matches snaps j"
    and "map (\<lambda>p. (pp_id p, pp_plan p)) snaps = map (\<lambda>(i, _, plan). (i, plan)) plans"
proof -
  have pl: "map pp_plan snaps = map (\<lambda>(_, plan, _). plan) prepared"
    unfolding snap(1) [unfolded snapshotted_as_def, symmetric] by auto
  have "map pp_id snaps = map cp_core_id (map pp_plan snaps)" by (simp add: pp_id_def)
  also have "\<dots> = map (\<lambda>(core, plan, _). cp_core_id plan) prepared" unfolding pl by auto
  also have "\<dots> = map fst plans" by (rule staged_ids [OF ok st])
  finally show ids: "map pp_id snaps = map fst plans" .
  have "distinct (map pp_id snaps)" unfolding ids using ok(1) by (simp add: plans_ok_def bt_wf_distinct)
  then show "matches snaps j"
    by (auto simp: matches_def snap(2) resources_of_def pp_id_def)
  have "prepared_for tr i" if "(i, core, plan) \<in> set plans" for i core plan
  proof -
    have "i \<in> set (map (\<lambda>(core, plan, _). ca_id core) prepared)"
      using that unfolding staged_ids [OF ok st] by force
    then have "EvValidate i True \<in> set tr" using valid by (auto simp: validate_done_def)
    moreover have "map jr_core_id (jn_resources j) = map fst plans"
      unfolding ids [symmetric] by (simp add: snap(2) resources_of_def pp_id_def)
    then have "i \<in> set (map jr_core_id (jn_resources j))" using that by force
    then have "\<exists>sn. EvSnapshot i (Ok sn) \<in> set tr" using snap(3) by (auto simp: truthful_def)
    ultimately show ?thesis using stage that by (auto simp: prepared_for_def stage_done_def)
  qed
  then show "all_prepared plans tr" by (auto simp: all_prepared_def)
  have "map (\<lambda>p. (pp_id p, pp_plan p)) snaps = zip (map pp_id snaps) (map pp_plan snaps)"
    by (simp add: zip_map_map zip_same_conv_map)
  also have "map pp_plan snaps = map (\<lambda>(_, _, plan). plan) plans"
  proof -
    have "map pp_plan snaps = map snd (map staged_pair prepared)"
      unfolding pl by (auto simp: staged_pair_def)
    then show ?thesis unfolding st by auto
  qed
  finally show "map (\<lambda>p. (pp_id p, pp_plan p)) snaps = map (\<lambda>(i, _, plan). (i, plan)) plans"
    unfolding ids by (simp add: zip_map_map zip_same_conv_map case_prod_unfold)
qed

lemma transaction_post:
  assumes ok: "plans_ok (rc_cores R) generation plans" "core_registry_inv (rc_cores R)"
    and q: "quiet D plans (rn_trace s)" and j0: "jn_resources j = []"
  shows "post (transaction R ds applied plans j) s (ended D plans (next_applied ds plans) (settled R ds applied plans))"
  unfolding transaction_def Let_def
proof (rule ended_bnd_quiet [OF quiet_save [OF q]], simp add: truthful_def j0,
    rule ended_bnd_quiet [OF quiet_prepare_dir], assumption,
    rule ended_bnd_quiet [OF quiet_stage_all], assumption, simp add: truthful_def j0,
    goal_cases)
  case (1 u1 s1 u2 s2 x s3)
  obtain j2 prepared where x: "x = (j2, prepared)" by fastforce
  have st: "jn_resources j2 = []" "map staged_pair prepared = map snd plans" "stage_done (rn_trace s3) plans"
    using 1(9) by (simp_all add: stage_post_def j0 x)
  have tr3: "truthful (rn_trace s3) j2" by (simp add: truthful_def st)
  show ?case
    unfolding x prod.case
  proof (rule ended_bnd_quiet [OF quiet_validate_all [OF 1(7) tr3]], rule ended_bnd_quiet [OF quiet_save],
      assumption, goal_cases)
    case (1 j3 s4)
    then show ?case by (simp add: validate_post_def truthful_def st)
  next
    case (2 j3 s4 u5 s5)
    have j3: "jn_resources j3 = []" and valid: "validate_done (rn_trace s4) prepared"
      using 2(3) by (simp_all add: validate_post_def st)
    show ?case
    proof (rule ended_bnd_quiet [OF quiet_snapshot_all [OF 2(4)]], simp add: truthful_def j3,
        simp only: prod.case_eq_if Let_def, rule ended_bnd_quiet [OF quiet_save], assumption, goal_cases)
      case (1 y s6)
      then show ?case by (simp add: snapshot_post_def)
    next
      case (2 y s6 u7 s7)
      obtain j5 snaps where y: "y = (j5, snaps)" by fastforce
      note snapped = 2(3) [unfolded y]
      let ?j6 = "j5\<lparr>jn_phase := PhSnapshotted\<rparr>"
      have ext: "extends s3 s7" "extends s4 s7"
        using 1 2 \<open>extends s3 s4\<close> \<open>extends s4 s5\<close> by (blast intro: extends_trans)+
      have res: "snapshotted_as prepared snaps" "jn_resources ?j6 = resources_of snaps"
          "truthful (rn_trace s7) ?j6"
        using snapped j3 2(5) by (auto simp: snapshot_post_def intro: truthful_extends)
      have dones: "stage_done (rn_trace s7) plans" "validate_done (rn_trace s7) prepared"
        using st(3) valid ext by (auto simp: stage_done_def validate_done_def intro: extends_mem)
      note parts = prepared_from_parts [OF ok st(2) dones res]
      have notstarted: "list_all (\<lambda>r. \<not> jr_mutation_started r) (jn_resources ?j6)"
        by (simp add: res(2) resources_of_def snapshot_resource_def list_all_iff)
      have ab: "abortable D plans snaps (rn_trace t) [] ?j6" if "quiet D plans (rn_trace t)" "extends s7 t" for t
        using that notstarted truthful_extends [OF res(3)] parts(3)
        by (auto simp: abortable_def quiet_def live_def names_started_def list_all_iff filter_empty_conv)
      have prog: "progress [] (map pp_id snaps) ?j6"
        unfolding progress_def
        by (rule exI [of _ "[]"], rule exI [of _ "jn_resources ?j6"])
          (use notstarted parts(3) in \<open>simp add: matches_def\<close>)
      have dist: "distinct (map pp_id snaps)" using parts(3) by (simp add: matches_def)
      show ?case
        unfolding y fst_conv snd_conv
      proof (rule ended_bnd_quiet [OF quiet_current [OF 2(4)]], goal_cases)
        case (1 current s8)
        show ?case
        proof (cases current)
          case False
          then show ?thesis
            using ended_fail [OF 1(1) truthful_extends [OF res(3) 1(2)]] by simp
        next
          case True
          have prep: "all_prepared plans (rn_trace s8)" by (rule all_prepared_extends [OF parts(1) 1(2)])
          have "post (bnd (apply_all R (ds_generation ds) snaps snaps ?j6) (publish R ds applied plans snaps)) s8
            (ended D plans (next_applied ds plans) (settled R ds applied plans))"
          proof (rule ended_bnd_mut [OF apply_all_post [OF ab [OF 1(1,2)] prog _ prep]], simp add: dist, goal_cases)
            case (1 j7 s9)
            have "plan_verified (rn_trace s9) i plan" if "(i, core, plan) \<in> set plans" for i core plan
            proof -
              have "(i, plan) \<in> set (map (\<lambda>p. (pp_id p, pp_plan p)) snaps)"
                unfolding parts(4) using that by force
              then show ?thesis using 1 by (auto simp: applied_post_def)
            qed
            then have "\<forall>(i, _, plan) \<in> set plans. plan_verified (rn_trace s9) i plan" by auto
            then show ?case
              using 1 by (intro publish_post) (auto simp: applied_post_def)
          qed
          then show ?thesis by (simp add: True)
        qed
      qed
    qed
  qed
qed

subsection \<open>\<open>reconcile\<close>\<close>

text \<open>
  The three ways a call of \<open>reconcile\<close> ends: it returned before any effect; it never came to
  a plan and mutated nothing; or it ran a transaction over the plans it built.
\<close>

definition untouched_end ::
  "desired_state \<Rightarrow> applied_state \<Rightarrow> 'w \<Rightarrow> outcome ctl \<Rightarrow> 'w run \<Rightarrow> bool" where
  "untouched_end ds applied w r s' \<longleftrightarrow> s' = start w
     \<and> (case r of
          Ret oc \<Rightarrow> oc_status oc = StApplied \<and> ds_generation ds \<le> ap_generation applied
              \<and> oc_generation oc = ap_generation applied
            \<or> oc_status oc = StRecoveryRequired
        | Go _ \<Rightarrow> False | Fail _ \<Rightarrow> True)"

definition unplanned_end :: "journal_entry set \<Rightarrow> outcome ctl \<Rightarrow> 'w run \<Rightarrow> bool" where
  "unplanned_end D r s' \<longleftrightarrow> (\<forall>plans :: 'w core_plans. quiet D plans (rn_trace s'))
     \<and> (case r of Ret oc \<Rightarrow> oc_status oc \<in> {StFailed, StUnsupported} | Go _ \<Rightarrow> False | Fail _ \<Rightarrow> True)"

definition planned_end ::
  "journal_entry set \<Rightarrow> 'w reconciler \<Rightarrow> desired_state \<Rightarrow> secret_resolver \<Rightarrow> applied_state
   \<Rightarrow> outcome ctl \<Rightarrow> 'w run \<Rightarrow> bool" where
  "planned_end D R ds secrets applied r s' \<longleftrightarrow> (\<exists>plans w'.
     build_plans (rc_protocols R) (rc_cores R) ds secrets applied w' = Ok plans
     \<and> validate_listener_plan plans = Ok () \<and> ended D plans (next_applied ds plans) (settled R ds applied plans) r s')"

definition reconcile_end ::
  "journal_entry set \<Rightarrow> 'w reconciler \<Rightarrow> desired_state \<Rightarrow> secret_resolver \<Rightarrow> applied_state \<Rightarrow> 'w
   \<Rightarrow> outcome ctl \<Rightarrow> 'w run \<Rightarrow> bool" where
  "reconcile_end D R ds secrets applied w r s' \<longleftrightarrow>
     untouched_end ds applied w r s' \<or> unplanned_end D r s' \<or> planned_end D R ds secrets applied r s'"

lemma unplanned_of_quiet:
  assumes "\<And>plans :: 'w core_plans. post m s (quiet_post D plans s0 (\<lambda>_ _. False))"
  shows "post m s (unplanned_end D)"
proof -
  obtain r s' where eq: "m s = (r, s')" by fastforce
  have "quiet_post D plans s0 (\<lambda>_ _. False) r s'" for plans
    using assms [of plans] by (simp add: post_def eq)
  then show ?thesis by (auto simp: post_def eq quiet_post_def unplanned_end_def split: ctl.splits)
qed

lemma unplanned_save:
  assumes "\<And>plans :: 'w core_plans. quiet D plans (rn_trace s)" "truthful (rn_trace s) j"
    and "\<And>s' :: 'w run. (\<And>plans :: 'w core_plans. quiet D plans (rn_trace s')) \<Longrightarrow> post (f ()) s' Q"
    and "\<And>r s'. unplanned_end D r s' \<Longrightarrow> Q r s'"
  shows "post (bnd (save_journal R j) f) s Q"
proof -
  obtain r w where sv: "st_save_journal (rc_store R) j (rn_world s) = (r, w)" by fastforce
  let ?s1 = "\<lambda>ok. s\<lparr>rn_world := w, rn_trace := rn_trace s @ [EvSave j ok]\<rparr>"
  have q: "quiet D plans (rn_trace (?s1 ok))" for plans :: "'w core_plans" and ok
    using quiet_snoc_save [OF assms(1,2)] by simp
  show ?thesis
    using assms(3) [OF q [of _ True]] assms(4) q
    by (cases r) (auto simp: save_journal_def post_rules sv unplanned_end_def)
qed

lemma plan_and_run_post:
  fixes R :: "'w reconciler" and s :: "'w run"
  assumes inv: "core_registry_inv (rc_cores R)"
    and q: "\<And>plans :: 'w core_plans. quiet D plans (rn_trace s)" and j0: "jn_resources j0 = []"
  shows "post (plan_and_run R ds secrets applied j0) s
           (\<lambda>r s'. unplanned_end D r s' \<or> planned_end D R ds secrets applied r s')"
  unfolding plan_and_run_def Let_def
proof (rule unplanned_save [OF q], simp add: truthful_def j0, goal_cases)
  case (1 s1)
  note q1 = 1 and tr1 = truthful_def [of "rn_trace s1" j0, unfolded j0, simplified]
  show ?case
  proof (cases "validate_graph (rc_protocols R) (rc_cores R) ds applied (rn_world s1)")
    case (Inl e)
    show ?thesis
      unfolding post_bnd [of "query _"] post_query ctl.case Inl is_ok_simps return_outcome_def
      by (simp, simp add: post_bnd [of "query _"] post_query, rule unplanned_save [OF q1])
        (auto simp: truthful_def j0 post_rules unplanned_end_def)
  next
    case graph: (Inr u)
    show ?thesis
    proof (cases "build_plans (rc_protocols R) (rc_cores R) ds secrets applied (rn_world s1)")
      case (Inl e)
      show ?thesis
        unfolding post_bnd [of "query _"] post_query ctl.case graph Inl is_ok_simps
        by (simp add: post_bnd [of "query _"] post_query Inl)
          (rule post_mono [OF unplanned_of_quiet [OF quiet_fail [OF q1]]], auto simp: truthful_def j0)
    next
      case (Inr plans)
      note spec = build_plans_spec(1) [OF Inr inv]
      have "post (if \<not> is_ok (validate_listener_plan plans)
           then fail_without_mutation R j0 ''desired listener plan conflicts''
           else transaction R ds applied plans j0) s1
         (\<lambda>r s'. unplanned_end D r s' \<or> planned_end D R ds secrets applied r s')"
      proof (cases "is_ok (validate_listener_plan plans)")
        case False
        show ?thesis
          by (simp add: False, rule post_mono [OF unplanned_of_quiet [OF quiet_fail [OF q1]]])
            (auto simp: truthful_def j0)
      next
        case True
        show ?thesis
          by (simp add: True, rule post_mono [OF transaction_post [OF spec inv q1 j0]])
            (use True Inr in \<open>auto simp: planned_end_def is_ok_unit\<close>)
      qed
      then show ?thesis
        by (simp add: post_bnd [of "query _"] post_query graph Inr)
    qed
  qed
qed auto

lemma reconcile_proc_post:
  assumes inv: "core_registry_inv (rc_cores R)"
    and applied: "st_load_applied (rc_store R) w = Ok applied"
  shows "post (reconcile_proc R ds secrets) (start w) (reconcile_end D R ds secrets applied w)"
proof -
  have run: "post (plan_and_run R ds secrets applied j0) (start w) (reconcile_end D R ds secrets applied w)"
    if "jn_resources j0 = []" for j0
    by (rule post_mono [OF plan_and_run_post [OF inv _ that]]) (auto simp: start_def reconcile_end_def)
  show ?thesis
  proof (cases "st_load_journal (rc_store R) w")
    case (Inl e)
    then show ?thesis
      by (simp add: reconcile_proc_def post_rules start_def applied return_outcome_def reconcile_end_def
          untouched_end_def)
  next
    case (Inr previous)
    then show ?thesis
      using run [of "(journal_prepared (ds_generation ds) (ap_generation applied)
          (ho_uuid (rc_host R) w) (ho_now (rc_host R) w))
          \<lparr>jn_previous_active_core_ids := ap_active_core_ids applied\<rparr>"]
      by (simp add: reconcile_proc_def post_rules start_def applied return_outcome_def reconcile_end_def
          untouched_end_def journal_prepared_def)
  qed
qed

end
