(* ===== verification/Reconcile_Recovery.thy ===== *)
theory Reconcile_Recovery
  imports Reconcile_Outcome
begin

text \<open>
  What \<open>recover\<close> does with the journal it finds: which journals it closes without touching a
  runtime, and for the others exactly which runtimes it restores, in which order, from which
  snapshots, and when it may report \<open>RolledBack\<close>.
\<close>

definition recoverable :: "'w reconciler \<Rightarrow> path \<Rightarrow> journal_resource \<Rightarrow> bool" where
  "recoverable R root r \<longleftrightarrow> is_ok (validate_resource_id (jr_core_id r))
     \<and> path_starts_with (jr_snapshot_path r) (root @ [jr_core_id r])
     \<and> bt_get (rc_cores R) (jr_core_id r) \<noteq> None"

definition recovered_post ::
  "'w reconciler \<Rightarrow> path \<Rightarrow> journal_resource list \<Rightarrow> bool \<Rightarrow> 'w run \<Rightarrow> bool ctl \<Rightarrow> 'w run \<Rightarrow> bool" where
  "recovered_post R root rs failed s res s' \<longleftrightarrow>
     (\<exists>oks. length oks = length (filter (recoverable R root) rs)
        \<and> rn_trace s' = rn_trace s @ map2 restore_event (filter (recoverable R root) rs) oks
        \<and> res = Go (failed \<or> \<not> list_all (recoverable R root) rs \<or> False \<in> set oks))"

lemma recovered_post_skip:
  "\<not> recoverable R root r \<Longrightarrow> recovered_post R root rs True s res s' \<Longrightarrow>
     recovered_post R root (r # rs) failed s res s'"
  by (simp add: recovered_post_def)

lemma recovered_post_Cons:
  assumes "recoverable R root r" "recovered_post R root rs (failed \<or> \<not> ok) s1 res s'"
    and "rn_trace s1 = rn_trace s @ [restore_event r ok]"
  shows "recovered_post R root (r # rs) failed s res s'"
proof -
  obtain oks where "length oks = length (filter (recoverable R root) rs)"
      "rn_trace s' = rn_trace s1 @ map2 restore_event (filter (recoverable R root) rs) oks"
      "res = Go ((failed \<or> \<not> ok) \<or> \<not> list_all (recoverable R root) rs \<or> False \<in> set oks)"
    using assms(2) by (auto simp: recovered_post_def)
  then show ?thesis
    unfolding recovered_post_def by (intro exI [of _ "ok # oks"]) (use assms in auto)
qed

lemma recover_resources_post:
  "post (recover_resources R root rs failed) s (recovered_post R root rs failed s)"
proof (induction rs arbitrary: failed s)
  case Nil
  then show ?case by (simp add: post_rules recovered_post_def)
next
  case (Cons r rs)
  show ?case
  proof (cases "recoverable R root r")
    case False
    then have "recover_resources R root (r # rs) failed = recover_resources R root rs True"
      by (auto simp: recoverable_def)
    then show ?thesis
      using post_mono [OF Cons.IH recovered_post_skip [OF False]] by simp
  next
    case True
    then obtain core where core: "bt_get (rc_cores R) (jr_core_id r) = Some core"
      and guards: "is_ok (validate_resource_id (jr_core_id r))"
        "path_starts_with (jr_snapshot_path r) (root @ [jr_core_id r])"
      by (auto simp: recoverable_def)
    show ?thesis
      by (simp add: core guards rollback_call_def post_bnd post_call split: prod.split)
        (auto intro!: post_mono [OF Cons.IH] elim!: recovered_post_Cons [OF True]
          simp: restore_event_def)
  qed
qed

text \<open>How the trace of a rolled back recovery looks.\<close>

definition restored_pairs :: "event list \<Rightarrow> (string \<times> core_snapshot) list" where
  "restored_pairs tr = map (\<lambda>(c, sn, _). (c, sn)) (rollbacks tr)"

definition journal_pairs :: "journal_resource list \<Rightarrow> (string \<times> core_snapshot) list" where
  "journal_pairs rs = map (\<lambda>r. (jr_core_id r, resource_snapshot r)) rs"

definition rolled_end ::
  "'w reconciler \<Rightarrow> journal_entry \<Rightarrow> applied_state \<Rightarrow> outcome option ctl \<Rightarrow> 'w run \<Rightarrow> bool" where
  "rolled_end R j applied r s' \<longleftrightarrow> (case r of
      Fail _ \<Rightarrow> True
    | Ret _ \<Rightarrow> False
    | Go None \<Rightarrow> False
    | Go (Some oc) \<Rightarrow>
        (let root = generation_dir R (jn_generation j); rs = mutated_in_rollback_order j in
         restored_pairs (rn_trace s') = journal_pairs (filter (recoverable R root) rs)
         \<and> oc_generation oc = jn_generation j
         \<and> (oc_status oc = StRecoveryRequired \<or>
            oc_status oc = StRolledBack \<and> list_all (recoverable R root) rs \<and> undo_ok (rn_trace s')
            \<and> (ap_generation applied = jn_previous_generation j \<or>
               EvCas (jn_generation j) \<lparr>ap_generation = jn_previous_generation j,
                 ap_active_core_ids = jn_previous_active_core_ids j\<rparr> (Ok True) \<in> set (rn_trace s'))))
         \<and> (installs (rn_trace s') = [] \<and> touched (rn_trace s') = {}))"

lemma restored_pairs_simps [simp]:
  "restored_pairs (tr @ [EvSave k ok]) = restored_pairs tr"
  "restored_pairs (tr @ [EvCas g a r]) = restored_pairs tr"
  "restored_pairs (tr @ [EvCleanup g]) = restored_pairs tr"
  by (simp_all add: restored_pairs_def rollbacks_snoc)

lemma restored_pairs_restore:
  assumes "length oks = length rs" "rollbacks tr = []"
  shows "restored_pairs (tr @ map2 restore_event rs oks) = journal_pairs rs"
    and "undo_ok (tr @ map2 restore_event rs oks) \<longleftrightarrow> False \<notin> set oks"
proof -
  show "restored_pairs (tr @ map2 restore_event rs oks) = journal_pairs rs"
    using assms unfolding restored_pairs_def rollbacks_append journal_pairs_def
    by (simp add: restore_events) (induction oks rs rule: list_induct2, auto)
  have "map (snd \<circ> snd) (rollbacks (tr @ map2 restore_event rs oks)) = oks"
    unfolding rollbacks_append assms(2) restore_events [OF assms(1)]
    by (simp del: map_map, rule map2_pairs(2) [OF assms(1)])
  then have "set oks = (snd \<circ> snd) ` set (rollbacks (tr @ map2 restore_event rs oks))" by (metis set_map)
  then show "undo_ok (tr @ map2 restore_event rs oks) \<longleftrightarrow> False \<notin> set oks"
    by (force simp: undo_ok_def)
qed

lemma undo_ok_simps [simp]:
  "undo_ok (tr @ [EvCas g a r]) = undo_ok tr"
  by (simp add: undo_ok_def rollbacks_snoc)

lemma restore_events_untouched:
  "installs (map2 restore_event rs oks) = []" "touched (map2 restore_event rs oks) = {}"
  by (auto simp: installs_def touched_def touches_def restore_event_def List.map_filter_def
      filter_empty_conv)

lemma monitors_append:
  "installs (xs @ ys) = installs xs @ installs ys" "touched (xs @ ys) = touched xs \<union> touched ys"
  by (auto simp: installs_def touched_def List.map_filter_def)

text \<open>A step that neither touches nor restores a runtime.\<close>

definition keeps :: "'w run \<Rightarrow> 'w run \<Rightarrow> bool" where
  "keeps s s' \<longleftrightarrow> rollbacks (rn_trace s') = rollbacks (rn_trace s)
     \<and> installs (rn_trace s') = installs (rn_trace s) \<and> touched (rn_trace s') = touched (rn_trace s)
     \<and> set (rn_trace s) \<subseteq> set (rn_trace s')"

definition keep_post :: "'w run \<Rightarrow> ('a \<Rightarrow> 'w run \<Rightarrow> bool) \<Rightarrow> 'a ctl \<Rightarrow> 'w run \<Rightarrow> bool" where
  "keep_post s Q r s' \<longleftrightarrow> (case r of Fail _ \<Rightarrow> True | Ret _ \<Rightarrow> False | Go x \<Rightarrow> keeps s s' \<and> Q x s')"

lemma keeps_trans: "keeps s s' \<Longrightarrow> keeps s' s'' \<Longrightarrow> keeps s s''"
  by (auto simp: keeps_def)

lemma keeps_step [simp]:
  "keeps s s" "keeps s (s\<lparr>rn_world := w\<rparr>)"
  "keeps s (s\<lparr>rn_world := w, rn_trace := rn_trace s @ [EvSave k ok]\<rparr>)"
  "keeps s (s\<lparr>rn_world := w, rn_trace := rn_trace s @ [EvCas g a u]\<rparr>)"
  "keeps s (s\<lparr>rn_world := w, rn_trace := rn_trace s @ [EvCleanup g]\<rparr>)"
  by (auto simp: keeps_def rollbacks_snoc installs_snoc touched_snoc touches_def)

lemma keep_bnd:
  assumes "post m s (keep_post s P)" "\<And>x s'. keeps s s' \<Longrightarrow> P x s' \<Longrightarrow> post (f x) s' (keep_post s' Q)"
  shows "post (bnd m f) s (keep_post s Q)"
proof (rule post_bnd_rule [OF assms(1)], goal_cases)
  case (3 x s')
  then have k: "keeps s s'" "P x s'" by (simp_all add: keep_post_def)
  show ?case
    by (rule post_mono [OF assms(2) [OF k]])
      (auto simp: keep_post_def intro: keeps_trans [OF k(1)] split: ctl.splits)
qed (auto simp: keep_post_def)

lemma keep_save: "post (save_journal R j) s (keep_post s (\<lambda>_ _. True))"
  by (auto simp: save_journal_def post_rules keep_post_def split: prod.splits sum.splits)

lemma keep_cleanup: "post (cleanup_transaction_directory R g) s (keep_post s (\<lambda>_ _. True))"
  by (auto simp: cleanup_transaction_directory_def Let_def post_rules keep_post_def split: prod.splits)

lemma keep_go: "Q x s \<Longrightarrow> post (go x) s (keep_post s Q)"
  by (simp add: post_rules keep_post_def)

lemma keep_query: "post (f (q (rn_world s))) s (keep_post s Q) \<Longrightarrow> post (bnd (query q) f) s (keep_post s Q)"
  by (simp add: post_rules)

lemma keep_cas:
  "post (compare_and_set_applied R g a) s (keep_post s (\<lambda>swapped s'. EvCas g a (Ok swapped) \<in> set (rn_trace s')))"
  by (auto simp: compare_and_set_applied_def post_rules keep_post_def split: prod.splits sum.splits)

definition reports :: "journal_entry \<Rightarrow> outcome option \<Rightarrow> bool" where
  "reports j x \<longleftrightarrow> x = Some \<lparr>oc_generation = jn_generation j, oc_status = jn_status j, oc_message = jn_error j\<rparr>"

lemma keep_close:
  "post (bnd (save_journal R j) (\<lambda>_. bnd (if b then cleanup_transaction_directory R g else go ())
     (\<lambda>_. some_outcome j))) s (keep_post s (\<lambda>x _. reports j x))"
  by (rule keep_bnd [OF keep_save], rule keep_bnd [where P = "\<lambda>_ _. True"])
    (auto simp: some_outcome_def reports_def keep_cleanup intro: keep_go)

definition applied_restored :: "journal_entry \<Rightarrow> applied_state \<Rightarrow> event list \<Rightarrow> bool" where
  "applied_restored j applied tr \<longleftrightarrow>
     ap_generation applied = jn_previous_generation j \<or>
     EvCas (jn_generation j) \<lparr>ap_generation = jn_previous_generation j,
       ap_active_core_ids = jn_previous_active_core_ids j\<rparr> (Ok True) \<in> set tr"

lemma applied_restored_keeps:
  "applied_restored j applied (rn_trace s) \<Longrightarrow> keeps s s' \<Longrightarrow> applied_restored j applied (rn_trace s')"
  by (auto simp: applied_restored_def keeps_def)

lemma keep_restore_applied:
  "post (if ap_generation applied = jn_generation j
         then compare_and_set_applied R (jn_generation j)
                \<lparr>ap_generation = jn_previous_generation j,
                 ap_active_core_ids = jn_previous_active_core_ids j\<rparr>
         else go (ap_generation applied = jn_previous_generation j)) s
     (keep_post s (\<lambda>restored s'. restored \<longrightarrow> applied_restored j applied (rn_trace s')))"
proof (cases "ap_generation applied = jn_generation j")
  case True
  show ?thesis
    unfolding if_P [OF True]
    by (rule post_mono [OF keep_cas]) (auto simp: keep_post_def applied_restored_def split: ctl.splits)
next
  case False
  then show ?thesis by (auto intro: keep_go simp: applied_restored_def)
qed

definition closed_as :: "journal_entry \<Rightarrow> applied_state \<Rightarrow> bool \<Rightarrow> outcome option \<Rightarrow> 'w run \<Rightarrow> bool" where
  "closed_as j applied failed x s \<longleftrightarrow> (\<exists>oc. x = Some oc \<and> oc_generation oc = jn_generation j
     \<and> (oc_status oc = StRecoveryRequired \<or>
        oc_status oc = StRolledBack \<and> \<not> failed \<and> applied_restored j applied (rn_trace s)))"

lemma keep_close_as:
  assumes "jn_generation j3 = jn_generation j"
    and "jn_status j3 = StRecoveryRequired \<or>
         jn_status j3 = StRolledBack \<and> \<not> failed \<and> applied_restored j applied (rn_trace s)"
  shows "post (bnd (save_journal R j3) (\<lambda>_. bnd (if b then cleanup_transaction_directory R g else go ())
     (\<lambda>_. some_outcome j3))) s (keep_post s (closed_as j applied failed))"
  by (rule post_mono [OF keep_close])
    (use assms in \<open>auto simp: keep_post_def closed_as_def reports_def
      intro: applied_restored_keeps split: ctl.splits\<close>)

definition closable :: "journal_entry \<Rightarrow> applied_state \<Rightarrow> bool \<Rightarrow> journal_entry \<Rightarrow> 'w run \<Rightarrow> bool" where
  "closable j applied failed j3 s \<longleftrightarrow> jn_generation j3 = jn_generation j
     \<and> (jn_status j3 = StRecoveryRequired \<or>
        jn_status j3 = StRolledBack \<and> \<not> failed \<and> applied_restored j applied (rn_trace s))"

lemma recover_rollback_post:
  assumes tr0: "rollbacks (rn_trace s) = []" "installs (rn_trace s) = []" "touched (rn_trace s) = {}"
  shows "post (recover_rollback R j applied (mutated_in_rollback_order j)) s (rolled_end R j applied)"
  unfolding recover_rollback_def Let_def
proof (rule post_bnd_rule [OF keep_save], goal_cases)
  case (3 u s1)
  let ?rs = "mutated_in_rollback_order j" and ?root = "generation_dir R (jn_generation j)"
  let ?ok = "filter (recoverable R ?root) ?rs"
  let ?j1 = "\<lambda>e. j\<lparr>jn_phase := PhRollbackStarted, jn_status := StApplying, jn_error := Some e\<rparr>"
  have tr1: "rollbacks (rn_trace s1) = []" "installs (rn_trace s1) = []" "touched (rn_trace s1) = {}"
    using 3 tr0 by (auto simp: keep_post_def keeps_def)
  show ?case
  proof (rule post_bnd_rule [OF recover_resources_post], goal_cases)
    case (3 failed s2)
    then obtain oks where oks: "length oks = length ?ok"
        "rn_trace s2 = rn_trace s1 @ map2 restore_event ?ok oks"
        "failed \<longleftrightarrow> \<not> list_all (recoverable R ?root) ?rs \<or> False \<in> set oks"
      by (auto simp: recovered_post_def)
    note T = restored_pairs_restore [OF oks(1) tr1(1), folded oks(2)]
    have U: "installs (rn_trace s2) = []" "touched (rn_trace s2) = {}"
      using tr1 by (simp_all add: oks(2) monitors_append restore_events_untouched)
    show ?case
    proof (rule post_mono [where Q = "keep_post s2 (closed_as j applied failed)"], rule keep_query,
        rule keep_bnd [where P = "closable j applied failed"], goal_cases)
      case 1
      show ?case
      proof (cases failed)
        case True
        then show ?thesis by (auto intro: keep_go simp: closable_def)
      next
        case False
        then show ?thesis
          by (simp split del: if_split cong del: if_weak_cong, intro keep_bnd [OF keep_restore_applied])
            (auto intro: keep_go simp: closable_def)
      qed
    next
      case (2 j3 s3)
      then show ?case by (intro keep_close_as) (simp_all add: closable_def)
    next
      case (3 r s')
      then show ?case
        using T U oks(3)
        by (auto simp: keep_post_def closed_as_def keeps_def rolled_end_def Let_def undo_ok_def
            restored_pairs_def applied_restored_def split: ctl.splits)
    qed
  qed (auto simp: recovered_post_def rolled_end_def)
qed (auto simp: keep_post_def rolled_end_def)

text \<open>The journals \<open>recover\<close> closes without restoring anything.\<close>

definition terminal_status :: "reconcile_status \<Rightarrow> bool" where
  "terminal_status st \<longleftrightarrow> st \<in> {StApplied, StFailed, StRolledBack, StUnsupported}"

definition already_published :: "journal_entry \<Rightarrow> applied_state \<Rightarrow> bool" where
  "already_published j applied \<longleftrightarrow>
     ap_generation applied = jn_generation j \<and> (jn_phase j = PhPublished \<or> fully_verified j)"

definition recover_end ::
  "'w reconciler \<Rightarrow> journal_entry \<Rightarrow> applied_state \<Rightarrow> outcome option ctl \<Rightarrow> 'w run \<Rightarrow> bool" where
  "recover_end R j applied r s' \<longleftrightarrow>
     (if terminal_status (jn_status j) then r = Go None \<and> rollbacks (rn_trace s') = []
      else if already_published j applied
      then rollbacks (rn_trace s') = []
        \<and> (\<forall>x. r = Go x \<longrightarrow> (\<exists>oc. x = Some oc \<and> oc_status oc = StApplied \<and> oc_generation oc = jn_generation j))
      else if mutated_in_rollback_order j = []
      then rollbacks (rn_trace s') = []
        \<and> (\<forall>x. r = Go x \<longrightarrow> (\<exists>oc. x = Some oc \<and> oc_status oc = StFailed \<and> oc_generation oc = jn_generation j))
      else rolled_end R j applied r s')"

lemma recover_proc_post:
  assumes "st_load_journal (rc_store R) w = Ok (Some j)" "st_load_applied (rc_store R) w = Ok applied"
  shows "post (recover_proc R) (start w) (recover_end R j applied)"
proof -
  have start_trace: "rn_trace (start w) = []" "rn_world (start w) = w" by (simp_all add: start_def)
  note rolled = recover_rollback_post [of "start w" R j applied, unfolded start_trace monitors_Nil touched_Nil,
      OF refl refl refl]
  consider (terminal) "terminal_status (jn_status j)"
    | (published) "\<not> terminal_status (jn_status j)" "already_published j applied"
    | (clean) "\<not> terminal_status (jn_status j)" "\<not> already_published j applied"
        "mutated_in_rollback_order j = []"
    | (dirty) "\<not> terminal_status (jn_status j)" "\<not> already_published j applied"
        "mutated_in_rollback_order j \<noteq> []"
    by blast
  then show ?thesis
  proof cases
    case terminal
    then show ?thesis
      by (auto simp: recover_proc_def post_rules start_trace assms recover_end_def terminal_status_def
          cleanup_transaction_directory_def Let_def rollbacks_def List.map_filter_def split: prod.splits)
  next
    case published
    then show ?thesis
      by (auto simp: recover_proc_def post_rules start_trace assms recover_end_def terminal_status_def
          already_published_def save_journal_def cleanup_transaction_directory_def Let_def
          rollbacks_def List.map_filter_def split: prod.splits sum.splits)
  next
    case clean
    then show ?thesis
      by (auto simp: recover_proc_def post_rules start_trace assms recover_end_def terminal_status_def
          already_published_def save_journal_def cleanup_transaction_directory_def some_outcome_def Let_def
          rollbacks_def List.map_filter_def split: prod.splits sum.splits)
  next
    case dirty
    have "recover_proc R (start w) = recover_rollback R j applied (mutated_in_rollback_order j) (start w)"
      using dirty
      by (auto simp: recover_proc_def bnd_def query_def attempt_def start_trace assms terminal_status_def
          already_published_def Let_def)
    then have "post (recover_proc R) (start w) (rolled_end R j applied)"
      using rolled by (simp add: post_def)
    then show ?thesis by (rule post_mono) (use dirty in \<open>auto simp: recover_end_def\<close>)
  qed
qed

end
