(* ===== verification/File_Store.thy ===== *)
theory File_Store
  imports Filesystem Reconcile_Recovery
begin

text \<open>
  The durable store: the interface \<open>ReconcileStore\<close> as a locale with the laws the engine's
  durability rests on, and \<open>FileReconcileStore\<close>, which keeps \<open>applied.json\<close>, \<open>journal.json\<close>
  and \<open>desired-generation\<close> in one directory. The JSON codec is serde's and is a parameter;
  a value is storable when the codec reads back what it wrote and the text is within the
  bound the loader accepts.
\<close>

subsection \<open>The interface\<close>

locale reconcile_store =
  fixes st :: "'w store_ops"
    and journal_ok :: "journal_entry \<Rightarrow> bool"
    and applied_ok :: "applied_state \<Rightarrow> bool"
  assumes save_load: "st_save_journal st j w = (Ok (), w') \<Longrightarrow> journal_ok j \<Longrightarrow> st_load_journal st w' = Ok (Some j)"
    and save_crash: "st_save_journal st j w = (r, w') \<Longrightarrow> journal_ok j \<Longrightarrow>
          st_load_journal st w' = st_load_journal st w \<or> st_load_journal st w' = Ok (Some j)"
    and save_frame: "st_save_journal st j w = (r, w') \<Longrightarrow> st_load_applied st w' = st_load_applied st w"
    and cas_true: "st_compare_and_set_applied st g a w = (Ok True, w') \<Longrightarrow> applied_ok a \<Longrightarrow>
          st_load_applied st w' = Ok a
          \<and> (\<exists>c. st_load_applied st w = Ok c \<and> ap_generation c = g)"
    and cas_false: "st_compare_and_set_applied st g a w = (Ok False, w') \<Longrightarrow>
          w' = w \<and> (\<exists>c. st_load_applied st w = Ok c \<and> ap_generation c \<noteq> g)"
    and cas_crash: "st_compare_and_set_applied st g a w = (b, w') \<Longrightarrow> applied_ok a \<Longrightarrow>
          st_load_applied st w' = st_load_applied st w \<or> st_load_applied st w' = Ok a"
    and cas_frame: "st_compare_and_set_applied st g a w = (b, w') \<Longrightarrow> st_load_journal st w' = st_load_journal st w"
begin

lemma settled_loads:
  assumes "settled R ds applied plans w" "rc_store R = st" "applied_ok (next_applied ds plans)"
    and host: "\<And>p v. st_load_applied st (snd (ho_remove_dir_all (rc_host R) (generation_dir R p) v)) = st_load_applied st v"
  shows "st_load_applied st w = Ok (next_applied ds plans)"
proof -
  obtain w0 w1 w2 j where cas: "st_compare_and_set_applied st (ap_generation applied) (next_applied ds plans) w0 = (Ok True, w1)"
    and sv: "st_save_journal st j w1 = (Ok (), w2)"
    and w: "w = w2 \<or> (\<exists>g. w = snd (ho_remove_dir_all (rc_host R) (generation_dir R g) w2))"
    using assms(1) unfolding settled_def assms(2) by blast
  have "st_load_applied st w2 = Ok (next_applied ds plans)"
    using cas_true [OF cas assms(3)] save_frame [OF sv] by simp
  then show ?thesis using w host by auto
qed

end

subsection \<open>\<open>FileReconcileStore\<close>\<close>

record codec =
  cd_encode_applied :: "applied_state \<Rightarrow> string"
  cd_decode_applied :: "string \<Rightarrow> applied_state res"
  cd_encode_journal :: "journal_entry \<Rightarrow> string"
  cd_decode_journal :: "string \<Rightarrow> journal_entry res"

record file_env =
  fe_codec :: codec
  fe_directory :: path
  fe_uuid :: "fs \<Rightarrow> string"
  fe_stop :: "fs \<Rightarrow> write_stop option"

definition applied_path :: "file_env \<Rightarrow> path" where
  "applied_path E = fe_directory E @ [''applied.json'']"

definition journal_path :: "file_env \<Rightarrow> path" where
  "journal_path E = fe_directory E @ [''journal.json'']"

definition desired_generation_path :: "file_env \<Rightarrow> path" where
  "desired_generation_path E = fe_directory E @ [''desired-generation'']"

definition bounded_file :: "int \<Rightarrow> string \<Rightarrow> fs \<Rightarrow> path \<Rightarrow> string option res" where
  "bounded_file limit msg fs p = (case bt_get fs p of
      None \<Rightarrow> Ok None
    | Some (RegularFile bytes) \<Rightarrow> if int (length bytes) > limit then Err msg else Ok (Some bytes)
    | Some _ \<Rightarrow> Err msg)"

definition one_mib :: int where
  "one_mib = 1024 * 1024"

definition file_load_applied :: "file_env \<Rightarrow> fs \<Rightarrow> applied_state res" where
  "file_load_applied E fs =
     and_then (bounded_file one_mib ''reconcile state must be a bounded regular file'' fs (applied_path E))
       (\<lambda>content. case content of
          None \<Rightarrow> Ok default_applied
        | Some bytes \<Rightarrow> cd_decode_applied (fe_codec E) bytes)"

definition file_write :: "file_env \<Rightarrow> path \<Rightarrow> string \<Rightarrow> fs \<Rightarrow> unit res \<times> fs" where
  "file_write E p bytes fs = write_bytes_atomic (fe_stop E fs) (fe_uuid E fs) p bytes fs"

definition file_compare_and_set_applied :: "file_env \<Rightarrow> u64 \<Rightarrow> applied_state \<Rightarrow> fs \<Rightarrow> bool res \<times> fs" where
  "file_compare_and_set_applied E expected next_state fs = (case file_load_applied E fs of
      Inl e \<Rightarrow> (Err e, fs)
    | Inr current \<Rightarrow>
        if ap_generation current \<noteq> expected then (Ok False, fs)
        else (case file_write E (applied_path E) (cd_encode_applied (fe_codec E) next_state) fs of
                (Inl e, fs') \<Rightarrow> (Err e, fs')
              | (Inr _, fs') \<Rightarrow> (Ok True, fs')))"

definition file_load_journal :: "file_env \<Rightarrow> fs \<Rightarrow> journal_entry option res" where
  "file_load_journal E fs =
     and_then (bounded_file one_mib ''reconcile journal must be a bounded regular file'' fs (journal_path E))
       (\<lambda>content. case content of
          None \<Rightarrow> Ok None
        | Some bytes \<Rightarrow> and_then (cd_decode_journal (fe_codec E) bytes) (\<lambda>j. Ok (Some j)))"

definition file_save_journal :: "file_env \<Rightarrow> journal_entry \<Rightarrow> fs \<Rightarrow> unit res \<times> fs" where
  "file_save_journal E j fs = file_write E (journal_path E) (cd_encode_journal (fe_codec E) j) fs"

text \<open>\<open>str::parse::<u64>\<close>: an optional plus sign, at least one digit, no overflow.\<close>

definition parse_u64 :: "string \<Rightarrow> u64 res" where
  "parse_u64 s =
     (let d = (case s of c # t \<Rightarrow> if c = CHR ''+'' then t else s | [] \<Rightarrow> s) in
      if d = [] \<or> \<not> list_all is_digit d \<or> int (parse_digits d) \<ge> 2 ^ 64 then Err ''invalid digit found in string''
      else Ok (word_of_nat (parse_digits d)))"

definition file_generation_is_current :: "file_env \<Rightarrow> u64 \<Rightarrow> fs \<Rightarrow> bool res" where
  "file_generation_is_current E generation fs =
     and_then (bounded_file 32 ''desired generation marker must be a bounded regular file'' fs
         (desired_generation_path E))
       (\<lambda>content. case content of
          None \<Rightarrow> Ok True
        | Some bytes \<Rightarrow> and_then (parse_u64 (trim bytes)) (\<lambda>current. Ok (current = generation)))"

definition publish_desired_generation :: "file_env \<Rightarrow> u64 \<Rightarrow> fs \<Rightarrow> unit res \<times> fs" where
  "publish_desired_generation E generation fs =
     file_write E (desired_generation_path E) (show_nat (unat generation)) fs"

definition file_store :: "file_env \<Rightarrow> fs store_ops" where
  "file_store E = \<lparr>st_load_applied = file_load_applied E,
     st_compare_and_set_applied = file_compare_and_set_applied E,
     st_load_journal = file_load_journal E, st_save_journal = file_save_journal E,
     st_generation_is_current = file_generation_is_current E\<rparr>"

definition journal_storable :: "codec \<Rightarrow> journal_entry \<Rightarrow> bool" where
  "journal_storable c j \<longleftrightarrow> cd_decode_journal c (cd_encode_journal c j) = Ok j
     \<and> int (length (cd_encode_journal c j)) \<le> one_mib"

definition applied_storable :: "codec \<Rightarrow> applied_state \<Rightarrow> bool" where
  "applied_storable c a \<longleftrightarrow> cd_decode_applied c (cd_encode_applied c a) = Ok a
     \<and> int (length (cd_encode_applied c a)) \<le> one_mib"

subsection \<open>The file store keeps the interface's laws\<close>

lemma store_paths_distinct [simp]:
  "journal_path E \<noteq> temporary_of p u" "applied_path E \<noteq> temporary_of p u"
  "desired_generation_path E \<noteq> temporary_of p u"
  "journal_path E \<noteq> applied_path E" "applied_path E \<noteq> journal_path E"
  "journal_path E \<noteq> desired_generation_path E" "applied_path E \<noteq> desired_generation_path E"
  by (auto simp: journal_path_def applied_path_def desired_generation_path_def temporary_of_def)

lemma store_paths_not_ancestors [simp]:
  "journal_path E \<notin> set (ancestors (butlast (applied_path E)))"
  "applied_path E \<notin> set (ancestors (butlast (journal_path E)))"
  "journal_path E \<notin> set (ancestors (butlast (desired_generation_path E)))"
  by (auto simp: journal_path_def applied_path_def desired_generation_path_def dest!: ancestors_length)

lemma bounded_file_cong: "bt_get fs' p = bt_get fs p \<Longrightarrow> bounded_file n msg fs' p = bounded_file n msg fs p"
  by (simp add: bounded_file_def)

lemma file_write_ok: "file_write E p bytes fs = (Ok (), fs') \<Longrightarrow> bt_get fs' p = Some (RegularFile bytes)"
  by (simp add: file_write_def write_bytes_atomic_ok)

lemma file_write_target:
  "file_write E p bytes fs = (r, fs') \<Longrightarrow> (\<And>u. p \<noteq> temporary_of p u) \<Longrightarrow>
     bt_get fs' p = bt_get fs p \<or> bt_get fs' p = Some (RegularFile bytes)"
  unfolding file_write_def by (rule write_bytes_atomic_target) auto

lemma file_write_frame:
  "file_write E p bytes fs = (r, fs') \<Longrightarrow> q \<noteq> p \<Longrightarrow> (\<And>u. q \<noteq> temporary_of p u) \<Longrightarrow>
     q \<notin> set (ancestors (butlast p)) \<Longrightarrow> bt_get fs' q = bt_get fs q"
  unfolding file_write_def by (rule write_bytes_atomic_frame) auto

lemma file_load_journal_written:
  "bt_get fs (journal_path E) = Some (RegularFile (cd_encode_journal (fe_codec E) j)) \<Longrightarrow>
     journal_storable (fe_codec E) j \<Longrightarrow> file_load_journal E fs = Ok (Some j)"
  by (simp add: file_load_journal_def bounded_file_def journal_storable_def)

lemma file_load_applied_written:
  "bt_get fs (applied_path E) = Some (RegularFile (cd_encode_applied (fe_codec E) a)) \<Longrightarrow>
     applied_storable (fe_codec E) a \<Longrightarrow> file_load_applied E fs = Ok a"
  by (simp add: file_load_applied_def bounded_file_def applied_storable_def)

lemma file_load_cong:
  "bt_get fs' (journal_path E) = bt_get fs (journal_path E) \<Longrightarrow> file_load_journal E fs' = file_load_journal E fs"
  "bt_get fs' (applied_path E) = bt_get fs (applied_path E) \<Longrightarrow> file_load_applied E fs' = file_load_applied E fs"
  by (simp_all add: file_load_journal_def file_load_applied_def bounded_file_cong [of fs' _ fs])

lemma file_cas_cases:
  assumes "file_compare_and_set_applied E g a fs = (r, fs')"
  obtains (unread) "fs' = fs" "\<exists>e. r = Inl e"
    | (stale) b where "file_load_applied E fs = Ok b" "ap_generation b \<noteq> g" "fs' = fs" "r = Ok False"
    | (wrote) b u where "file_load_applied E fs = Ok b" "ap_generation b = g"
        "file_write E (applied_path E) (cd_encode_applied (fe_codec E) a) fs = (u, fs')"
        "r = Ok True \<Longrightarrow> u = Ok ()" "r \<noteq> Ok False"
proof (cases "file_load_applied E fs")
  case (Inl e)
  then show thesis using assms unread by (auto simp: file_compare_and_set_applied_def)
next
  case (Inr b)
  show thesis
  proof (cases "ap_generation b = g")
    case False
    then show thesis using assms stale [OF Inr] by (simp add: file_compare_and_set_applied_def Inr)
  next
    case True
    obtain u v where w: "file_write E (applied_path E) (cd_encode_applied (fe_codec E) a) fs = (u, v)"
      by fastforce
    have "v = fs'" "r = Ok True \<longrightarrow> u = Ok ()" "r \<noteq> Ok False"
      using assms by (auto simp: file_compare_and_set_applied_def Inr True w split: sum.splits)
    then show thesis using wrote [OF Inr True] w by blast
  qed
qed

interpretation files: reconcile_store "file_store E" "journal_storable (fe_codec E)" "applied_storable (fe_codec E)"
  for E
proof (unfold_locales, goal_cases)
  case (1 j w w')
  then show ?case
    by (auto simp: file_store_def file_save_journal_def intro!: file_load_journal_written file_write_ok)
next
  case (2 j w r w')
  then have wr: "file_write E (journal_path E) (cd_encode_journal (fe_codec E) j) w = (r, w')"
    by (simp add: file_store_def file_save_journal_def)
  from file_write_target [OF wr] show ?case
    using 2(2) by (auto simp: file_store_def dest: file_load_cong file_load_journal_written)
next
  case (3 j w r w')
  then have wr: "file_write E (journal_path E) (cd_encode_journal (fe_codec E) j) w = (r, w')"
    by (simp add: file_store_def file_save_journal_def)
  from file_write_frame [OF wr, of "applied_path E"] have "bt_get w' (applied_path E) = bt_get w (applied_path E)"
    by simp
  from file_load_cong(2) [OF this] show ?case by (simp add: file_store_def)
next
  case (4 g a w w')
  then have "file_compare_and_set_applied E g a w = (Ok True, w')" by (simp add: file_store_def)
  then show ?case
  proof (cases rule: file_cas_cases)
    case (wrote b u)
    then have "bt_get w' (applied_path E) = Some (RegularFile (cd_encode_applied (fe_codec E) a))"
      by (auto intro: file_write_ok)
    then show ?thesis using wrote 4(2) by (simp add: file_store_def file_load_applied_written)
  qed auto
next
  case (5 g a w w')
  then have "file_compare_and_set_applied E g a w = (Ok False, w')" by (simp add: file_store_def)
  then show ?case by (cases rule: file_cas_cases) (auto simp: file_store_def)
next
  case (6 g a w r w')
  then have "file_compare_and_set_applied E g a w = (r, w')" by (simp add: file_store_def)
  then show ?case
  proof (cases rule: file_cas_cases)
    case (wrote b u)
    from file_write_target [OF wrote(3)] show ?thesis
      using 6(2) by (auto simp: file_store_def dest: file_load_cong file_load_applied_written)
  qed (auto simp: file_store_def)
next
  case (7 g a w r w')
  then have "file_compare_and_set_applied E g a w = (r, w')" by (simp add: file_store_def)
  then show ?case
  proof (cases rule: file_cas_cases)
    case (wrote b u)
    from file_write_frame [OF wrote(3), of "journal_path E"]
    have "bt_get w' (journal_path E) = bt_get w (journal_path E)" by simp
    from file_load_cong(1) [OF this] show ?thesis by (simp add: file_store_def)
  qed (auto simp: file_store_def)
qed

subsection \<open>The host operations over the same file system\<close>

definition fs_path_kind :: "path \<Rightarrow> fs \<Rightarrow> path_kind" where
  "fs_path_kind p fs = (case bt_get fs p of
      None \<Rightarrow> KindMissing | Some Directory \<Rightarrow> KindDir | Some _ \<Rightarrow> KindOther)"

definition file_host :: "(fs \<Rightarrow> string) \<Rightarrow> (fs \<Rightarrow> string) \<Rightarrow> fs host_ops" where
  "file_host now uuid = \<lparr>ho_now = now, ho_uuid = uuid, ho_path_kind = fs_path_kind,
     ho_remove_dir_all = remove_dir_all, ho_create_dir_all = create_dir_all\<rparr>"

lemma remove_dir_all_get:
  "\<not> inside p q \<Longrightarrow> bt_get (snd (remove_dir_all p fs)) q = bt_get fs q"
  by (auto simp: remove_dir_all_def bt_get_filter split: option.splits file_node.splits)

lemma host_keeps_applied:
  assumes "rc_host R = file_host now uuid" "\<not> inside (generation_dir R g) (applied_path E)"
  shows "st_load_applied (file_store E) (snd (ho_remove_dir_all (rc_host R) (generation_dir R g) v))
           = st_load_applied (file_store E) v"
  using file_load_cong(2) [OF remove_dir_all_get [OF assms(2)]]
  by (simp add: assms(1) file_host_def file_store_def)

subsection \<open>Running twice\<close>

lemma reconcile_noop:
  assumes "st_load_applied (rc_store R) w = Ok a" "ds_generation ds \<le> ap_generation a"
  shows "reconcile R ds secrets w =
     (Ok \<lparr>oc_generation = ap_generation a, oc_status = StApplied, oc_message = None\<rparr>, start w)"
  using assms
  by (simp add: reconcile_def reconcile_proc_def bnd_def query_def attempt_def start_def return_outcome_def
      ret_def outcome_of_def)

lemma reconcile_load_error:
  "st_load_applied (rc_store R) w = Inl e \<Longrightarrow> reconcile R ds secrets w = (Err e, start w)"
  by (simp add: reconcile_def reconcile_proc_def bnd_def query_def attempt_def start_def outcome_of_def)

text \<open>The end of a run in terms of the result \<open>reconcile\<close> returns.\<close>

lemma reconcile_end_of:
  assumes "core_registry_inv (rc_cores R)" "reconcile R ds secrets w = (res, s)"
    and "st_load_applied (rc_store R) w = Ok applied"
  shows "\<exists>r. res = outcome_of r \<and> reconcile_end D R ds secrets applied w r s"
  using reconcile_proc_post [OF assms(1,3), of ds secrets D] assms(2)
  by (auto simp: reconcile_def post_def split: prod.splits)

lemma applied_world:
  assumes "core_registry_inv (rc_cores R)" "reconcile R ds secrets w = (Ok oc, s)"
    and "st_load_applied (rc_store R) w = Ok applied" "oc_status oc = StApplied"
  shows "s = start w \<and> ds_generation ds \<le> ap_generation applied
    \<or> (\<exists>plans. plans_ok (rc_cores R) (ds_generation ds) plans \<and> settled R ds applied plans (rn_world s))"
proof -
  obtain r where r: "Ok oc = outcome_of r" "reconcile_end {} R ds secrets applied w r s"
    using reconcile_end_of [OF assms(1-3)] by blast
  then show ?thesis
    using assms(4)
    by (cases r) (auto simp: outcome_of_def reconcile_end_def untouched_end_def unplanned_end_def
        planned_end_def ended_def dest: build_plans_spec(1) [OF _ assms(1)])
qed

definition registered_ids :: "'w reconciler \<Rightarrow> string list \<Rightarrow> bool" where
  "registered_ids R ids \<longleftrightarrow> distinct ids \<and> set ids \<subseteq> fst ` set (rc_cores R)"

lemma next_applied_ids:
  assumes "plans_ok (rc_cores R) g plans"
  shows "registered_ids R (ap_active_core_ids (next_applied ds plans))"
proof -
  have "distinct (map fst (filter P plans))" for P
    using assms by (intro distinct_map_filter) (simp add: plans_ok_def bt_wf_distinct)
  moreover have "i \<in> fst ` set (rc_cores R)" if "(i, c, p) \<in> set plans" for i c p
    using assms that by (force simp: plans_ok_def dest: bt_get_in)
  ultimately show ?thesis by (auto simp: registered_ids_def next_applied_def)
qed

lemma next_applied_generation [simp]: "ap_generation (next_applied ds plans) = ds_generation ds"
  by (simp add: next_applied_def)

lemma applied_run_settles:
  assumes inv: "core_registry_inv (rc_cores R)"
    and st: "rc_store R = file_store E" and host: "rc_host R = file_host now uuid"
    and root: "\<And>g. \<not> inside (generation_dir R g) (applied_path E)"
    and codec: "\<And>ids. registered_ids R ids \<Longrightarrow>
           applied_storable (fe_codec E) \<lparr>ap_generation = ds_generation ds, ap_active_core_ids = ids\<rparr>"
    and run: "reconcile R ds secrets w = (Ok oc, s)" "oc_status oc = StApplied"
  shows "\<exists>a. st_load_applied (rc_store R) (rn_world s) = Ok a \<and> ds_generation ds \<le> ap_generation a"
proof -
  obtain applied where ap: "st_load_applied (rc_store R) w = Ok applied"
    using run(1) reconcile_load_error [of R w] by (cases "st_load_applied (rc_store R) w") auto
  from applied_world [OF inv run(1) ap run(2)] show ?thesis
  proof
    assume "s = start w \<and> ds_generation ds \<le> ap_generation applied"
    then show ?thesis using ap by (simp add: start_def)
  next
    assume "\<exists>plans. plans_ok (rc_cores R) (ds_generation ds) plans \<and> settled R ds applied plans (rn_world s)"
    then obtain plans where ok: "plans_ok (rc_cores R) (ds_generation ds) plans"
      and settled: "settled R ds applied plans (rn_world s)"
      by blast
    have "applied_storable (fe_codec E) (next_applied ds plans)"
      using codec [OF next_applied_ids [OF ok]] by (simp add: next_applied_def)
    from files.settled_loads [OF settled st this] host_keeps_applied [OF host root]
    show ?thesis by (auto simp: st)
  qed
qed

subsection \<open>The desired-generation marker\<close>

lemma u64_bound: "unat (g :: u64) < 2 ^ 64"
  using unsigned_less [of g, where ?'a = nat] by simp

lemma parse_u64_show: "parse_u64 (trim (show_nat (unat (g :: u64)))) = Ok g"
proof -
  let ?s = "show_nat (unat g)"
  have digits: "list_all is_digit ?s" "?s \<noteq> []" using show_nat_digits by auto
  then have "trim ?s = ?s"
    by (intro trim_solid) (auto simp: list_all_iff solid_digit)
  moreover have "hd ?s \<noteq> CHR ''+''"
  proof
    assume h: "hd ?s = CHR ''+''"
    then have "is_digit (CHR ''+'')" using digits by (metis list_all_iff list.set_sel(1))
    then show False by (simp add: is_digit_def byte_def)
  qed
  moreover have "int (unat g) < 2 ^ 64" using unsigned_less [of g, where ?'a = int] by simp
  moreover have "parse_digits ?s = unat g" by (rule parse_show_nat)
  moreover have "word_of_nat (unat g) = g" by simp
  ultimately show ?thesis
    using digits u64_bound [of g] by (cases ?s) (auto simp: parse_u64_def Let_def)
qed

lemma marker_round_trip:
  assumes "publish_desired_generation E g fs = (Ok (), fs')"
  shows "file_generation_is_current E g' fs' = Ok (g = g')"
proof -
  have "unat g < 10 ^ Suc 19" using u64_bound [of g] by simp
  then have "length (show_nat (unat g)) \<le> 20" using show_nat_length by fastforce
  moreover have "bt_get fs' (desired_generation_path E) = Some (RegularFile (show_nat (unat g)))"
    using assms by (auto simp: publish_desired_generation_def intro: file_write_ok)
  ultimately show ?thesis
    by (simp add: file_generation_is_current_def bounded_file_def parse_u64_show)
qed

end
