(* ===== verification/Sample_Runtime.thy ===== *)
theory Sample_Runtime
  imports File_Store
begin

text \<open>
  A small deterministic environment, like the fakes of the repository's tests: an in-memory
  store, a host whose directories never exist, and two runtimes whose operations fail when
  their name is listed in the world. The concrete instances of the properties run on it.
\<close>

record mem =
  mm_applied :: applied_state
  mm_journal :: "journal_entry option"
  mm_dirs :: "path list"
  mm_faults :: "string list"

definition mem_store :: "mem store_ops" where
  "mem_store =
     \<lparr>st_load_applied = (\<lambda>w. Ok (mm_applied w)),
      st_compare_and_set_applied = (\<lambda>g a w.
        if ap_generation (mm_applied w) = g then (Ok True, w\<lparr>mm_applied := a\<rparr>) else (Ok False, w)),
      st_load_journal = (\<lambda>w. Ok (mm_journal w)),
      st_save_journal = (\<lambda>j w. (Ok (), w\<lparr>mm_journal := Some j\<rparr>)),
      st_generation_is_current = (\<lambda>_ w. Ok True)\<rparr>"

definition mem_host :: "mem host_ops" where
  "mem_host =
     \<lparr>ho_now = (\<lambda>_. ''now''), ho_uuid = (\<lambda>_. ''op''),
      ho_path_kind = (\<lambda>p w. if p \<in> set (mm_dirs w) then KindDir else KindMissing),
      ho_remove_dir_all = (\<lambda>p w. (Ok (), w\<lparr>mm_dirs := removeAll p (mm_dirs w)\<rparr>)),
      ho_create_dir_all = (\<lambda>p w. (Ok (), w\<lparr>mm_dirs := List.insert p (mm_dirs w)\<rparr>))\<rparr>"

definition sample_step :: "('w \<Rightarrow> string list) \<Rightarrow> string \<Rightarrow> 'a \<Rightarrow> ('w, 'a) io" where
  "sample_step faults name x w = (if name \<in> set (faults w) then (Err name, w) else (Ok x, w))"

definition sample_core :: "('w \<Rightarrow> string list) \<Rightarrow> string \<Rightarrow> 'w core_adapter" where
  "sample_core faults i =
     \<lparr>ca_manifest = \<lparr>cm_api_version = 1, cm_id = i, cm_display_name = i, cm_capabilities = {i},
        cm_service = i, cm_selection_priority = 0\<rparr>,
      ca_installed = (\<lambda>_. Ok True), ca_compatible = (\<lambda>_ _. Ok True), ca_probe = (\<lambda>_. default_probe),
      ca_stage_config = (\<lambda>_ dir. sample_step faults (''stage-'' @ i) (dir @ [''candidate''])),
      ca_validate_config = (\<lambda>_. sample_step faults (''validate-'' @ i) ()),
      ca_snapshot_config = (\<lambda>dir. sample_step faults (''snapshot-'' @ i)
        \<lparr>cs_path = dir @ [''snapshot''], cs_service_was_enabled = True, cs_service_was_active = False\<rparr>),
      ca_install_config = (\<lambda>_. sample_step faults (''install-'' @ i) ()),
      ca_activate_config = (\<lambda>_. sample_step faults (''activate-'' @ i) ()),
      ca_healthcheck = (\<lambda>_. sample_step faults (''health-'' @ i) ()),
      ca_verify_listeners = (\<lambda>_. sample_step faults (''listen-'' @ i) ()),
      ca_observe_users = (\<lambda>_. sample_step faults (''observe-'' @ i) (InSync 0)),
      ca_rollback_config = (\<lambda>_. sample_step faults (''rollback-'' @ i) ())\<rparr>"

definition sample_reconciler :: "mem reconciler" where
  "sample_reconciler =
     \<lparr>rc_protocols = [], rc_cores = [(''a'', sample_core mm_faults ''a''), (''b'', sample_core mm_faults ''b'')],
      rc_store = mem_store, rc_host = mem_host, rc_root = [''tx'']\<rparr>"

definition sample_resource :: "string \<Rightarrow> infrastructure_resource" where
  "sample_resource i =
     \<lparr>ir_resource_id = i, ir_adapter_id = i, ir_schema_version = 1, ir_enabled = True,
      ir_kind = KAdapterOwned, ir_dependencies = [], ir_listeners = [], ir_config = JObject []\<rparr>"

definition sample_desired :: desired_state where
  "sample_desired =
     \<lparr>ds_generation = 1, ds_profiles = [], ds_users = [], ds_settings = [],
      ds_infrastructure = [sample_resource ''a'', sample_resource ''b'']\<rparr>"

definition sample_world :: "string list \<Rightarrow> mem" where
  "sample_world faults =
     \<lparr>mm_applied = default_applied, mm_journal = None, mm_dirs = [], mm_faults = faults\<rparr>"

definition sample_run :: "string list \<Rightarrow> outcome res \<times> mem run" where
  "sample_run faults = reconcile sample_reconciler sample_desired (\<lambda>_. Err ''none'') (sample_world faults)"

lemma sample_registry: "core_registry_inv (rc_cores sample_reconciler)"
  by code_simp

subsection \<open>The same runtimes over the file store\<close>

definition sample_codec :: codec where
  "sample_codec =
     \<lparr>cd_encode_applied = (\<lambda>a. join '','' (show_nat (unat (ap_generation a)) # ap_active_core_ids a)),
      cd_decode_applied = (\<lambda>s. case split_on CHR '','' s of
          [] \<Rightarrow> Err ''empty''
        | g # ids \<Rightarrow> and_then (parse_u64 g) (\<lambda>n. Ok \<lparr>ap_generation = n, ap_active_core_ids = ids\<rparr>)),
      cd_encode_journal = (\<lambda>j. jn_operation_id j), cd_decode_journal = (\<lambda>_. Err ''opaque'')\<rparr>"

definition sample_files :: file_env where
  "sample_files = \<lparr>fe_codec = sample_codec, fe_directory = [''state''], fe_uuid = (\<lambda>_. ''u''),
     fe_stop = (\<lambda>_. None)\<rparr>"

definition file_reconciler :: "fs reconciler" where
  "file_reconciler =
     \<lparr>rc_protocols = [],
      rc_cores = [(''a'', sample_core (\<lambda>_. []) ''a''), (''b'', sample_core (\<lambda>_. []) ''b'')],
      rc_store = file_store sample_files, rc_host = file_host (\<lambda>_. ''now'') (\<lambda>_. ''op''),
      rc_root = [''tx'']\<rparr>"

lemma file_registry: "core_registry_inv (rc_cores file_reconciler)"
  by code_simp

lemma two_distinct: "distinct xs \<Longrightarrow> set xs \<subseteq> {a, b} \<Longrightarrow> xs \<in> {[], [a], [b], [a, b], [b, a]}"
  by (cases xs; cases "tl xs"; cases "tl (tl xs)") auto

definition sample_reads_back :: "string list \<Rightarrow> bool" where
  "sample_reads_back ids \<longleftrightarrow>
     (let a = \<lparr>ap_generation = 1, ap_active_core_ids = ids\<rparr>; s = cd_encode_applied sample_codec a in
      cd_decode_applied sample_codec s = Ok a \<and> length s \<le> 20)"

lemma sample_storable:
  assumes "registered_ids file_reconciler ids"
  shows "applied_storable sample_codec \<lparr>ap_generation = 1, ap_active_core_ids = ids\<rparr>"
proof -
  have "ids \<in> {[], [''a''], [''b''], [''a'', ''b''], [''b'', ''a'']}"
    using assms by (intro two_distinct) (auto simp: registered_ids_def file_reconciler_def)
  moreover have "list_all sample_reads_back [[], [''a''], [''b''], [''a'', ''b''], [''b'', ''a'']]"
    by code_simp
  ultimately have "sample_reads_back ids" by auto
  then show ?thesis by (simp add: sample_reads_back_def Let_def applied_storable_def one_mib_def)
qed

end
