(* ===== verification/Reconcile_Claims.thy ===== *)
theory Reconcile_Claims
  imports File_Store Sample_Runtime
begin

text \<open>
  The properties of the transaction engine, over any registry built by the code, any store,
  host and adapters, each with a run of the sample environment it applies to.
\<close>

subsection \<open>Reading a finished run\<close>

definition planned_with ::
  "'w reconciler \<Rightarrow> desired_state \<Rightarrow> secret_resolver \<Rightarrow> 'w \<Rightarrow> 'w core_plans \<Rightarrow> bool" where
  "planned_with R ds secrets w plans \<longleftrightarrow> (\<exists>applied w'.
     st_load_applied (rc_store R) w = Ok applied
     \<and> build_plans (rc_protocols R) (rc_cores R) ds secrets applied w' = Ok plans
     \<and> validate_listener_plan plans = Ok ())"

lemma run_cases:
  assumes "core_registry_inv (rc_cores R)" "reconcile R ds secrets w = (res, s)"
  obtains (load_error) e where "res = Err e" "s = start w"
    | (untouched) applied r where "st_load_applied (rc_store R) w = Ok applied" "res = outcome_of r"
        "untouched_end ds applied w r s"
    | (unplanned) r where "res = outcome_of r" "unplanned_end D r s"
    | (planned) plans r applied where "res = outcome_of r" "planned_with R ds secrets w plans"
        "ended D plans (next_applied ds plans) (settled R ds applied plans) r s"
        "st_load_applied (rc_store R) w = Ok applied"
proof (cases "st_load_applied (rc_store R) w")
  case (Inl e)
  then show thesis using reconcile_load_error [OF Inl] assms(2) by (intro load_error) auto
next
  case (Inr applied)
  obtain r where r: "res = outcome_of r" "reconcile_end D R ds secrets applied w r s"
    using reconcile_end_of [OF assms Inr] by blast
  from r(2) show thesis
    unfolding reconcile_end_def planned_end_def
  proof (elim disjE exE conjE)
    assume "untouched_end ds applied w r s"
    then show thesis using untouched [OF Inr r(1)] by blast
  next
    assume "unplanned_end D r s"
    then show thesis using unplanned [OF r(1)] by blast
  next
    fix plans w'
    assume "build_plans (rc_protocols R) (rc_cores R) ds secrets applied w' = Inr plans"
      "validate_listener_plan plans = Inr ()"
      "ended D plans (next_applied ds plans) (settled R ds applied plans) r s"
    then show thesis using planned [OF r(1) _ _ Inr] Inr by (auto simp: planned_with_def)
  qed
qed

lemma start_trace [simp]: "rn_trace (start w) = []" by (simp add: start_def)

lemma trace_of_run:
  fixes R :: "'w reconciler"
  assumes "core_registry_inv (rc_cores R)" "reconcile R ds secrets w = (res, s)"
  shows "\<exists>plans. trace_ok D plans (rn_trace s)
     \<and> (planned_with R ds secrets w plans
        \<or> touched (rn_trace s) = {} \<and> (\<forall>g a r. EvCas g a r \<notin> set (rn_trace s)))"
  using assms
proof (cases rule: run_cases [where D = D])
  case (unplanned r)
  then have "quiet D ([] :: 'w core_plans) (rn_trace s)" by (auto simp: unplanned_end_def)
  then show ?thesis by (intro exI [of _ "[] :: 'w core_plans"]) (simp add: quiet_def)
next
  case (planned plans r applied)
  then show ?thesis by (auto simp: ended_def live_def)
qed (auto simp: untouched_end_def)

text \<open>A crash while event \<open>n\<close> is under way: what may be on disk and what may be mutated.\<close>

definition crash_disk :: "journal_entry set \<Rightarrow> event list \<Rightarrow> nat \<Rightarrow> journal_entry set" where
  "crash_disk D tr n = on_disk D (take n tr) \<union>
     (if n < length tr then (case tr ! n of EvSave j _ \<Rightarrow> {j} | _ \<Rightarrow> {}) else {})"

definition crash_touched :: "event list \<Rightarrow> nat \<Rightarrow> string set" where
  "crash_touched tr n = touched (take (Suc n) tr)"

lemma crash_safe:
  assumes tr: "trace_ok D plans tr" and c: "c \<in> crash_touched tr n" and j: "j \<in> crash_disk D tr n"
  shows "started c j \<and> truthful (take n tr) j"
proof (cases "n < length tr")
  case False
  then show ?thesis
    using trace_ok_disk [OF tr, of c j] c j by (auto simp: crash_touched_def crash_disk_def)
next
  case True
  have split: "tr = take n tr @ tr ! n # drop (Suc n) tr" using True by (simp add: id_take_nth_drop)
  have ok: "trace_ok D plans (take n tr)" "step_ok D plans (take n tr) (tr ! n)"
    using trace_ok_split [of D plans "take n tr" "tr ! n" "drop (Suc n) tr"] tr split by auto
  have c': "c \<in> touched (take n tr) \<or> touches (tr ! n) c"
    using c True by (auto simp: crash_touched_def take_Suc_conv_app_nth touched_snoc)
  show ?thesis
  proof (cases "j \<in> on_disk D (take n tr)")
    case True
    then show ?thesis using trace_ok_disk [OF ok(1)] ok(2) c' by (auto simp: step_ok_def)
  next
    case False
    then obtain b where ev: "tr ! n = EvSave j b"
      using j by (auto simp: crash_disk_def split: if_splits event.splits)
    then show ?thesis using ok(2) c' by (auto simp: step_ok_def touches_def)
  qed
qed

definition run_trace :: "'w reconciler \<Rightarrow> desired_state \<Rightarrow> secret_resolver \<Rightarrow> 'w \<Rightarrow> event list" where
  "run_trace R ds secrets w = rn_trace (snd (reconcile R ds secrets w))"

definition run_result :: "'w reconciler \<Rightarrow> desired_state \<Rightarrow> secret_resolver \<Rightarrow> 'w \<Rightarrow> outcome res" where
  "run_result R ds secrets w = fst (reconcile R ds secrets w)"

lemma run_pair: "reconcile R ds secrets w = (run_result R ds secrets w, snd (reconcile R ds secrets w))"
  by (simp add: run_result_def)

subsection \<open>Crash safety\<close>

text \<open>
  C1: write-ahead journalling. Whenever the worker stops, also in the middle of a call, every
  journal entry that can then be on disk marks as started every runtime whose live
  configuration or service may have been changed, and each snapshot it records was taken by
  this transaction.
\<close>

theorem reconcile_crash_safe:
  fixes R :: "'w reconciler"
  assumes "core_registry_inv (rc_cores R)"
    and "c \<in> crash_touched (run_trace R ds secrets w) n" "j \<in> crash_disk D (run_trace R ds secrets w) n"
  shows "started c j \<and> truthful (take n (run_trace R ds secrets w)) j"
proof -
  obtain plans :: "'w core_plans" where "trace_ok D plans (run_trace R ds secrets w)"
    using trace_of_run [OF assms(1) run_pair, of D ds secrets w] by (auto simp: run_trace_def)
  from crash_safe [OF this assms(2,3)] show ?thesis .
qed

text \<open>The sample run, cut in the middle of the second installation.\<close>

lemma touched_iff: "c \<in> touched tr \<longleftrightarrow> list_ex (\<lambda>ev. touches ev c) tr"
  by (auto simp: touched_def list_ex_iff)

definition saved_at :: "event list \<Rightarrow> nat \<Rightarrow> journal_entry" where
  "saved_at tr n = (case tr ! n of EvSave j _ \<Rightarrow> j | _ \<Rightarrow> journal_prepared 0 0 [] [])"

definition sample_trace :: "string list \<Rightarrow> event list" where
  "sample_trace faults = run_trace sample_reconciler sample_desired (\<lambda>_. Err ''none'') (sample_world faults)"

theorem reconcile_crash_safe_witness:
  "started ''b'' (saved_at (sample_trace []) 23)
   \<and> truthful (take 24 (sample_trace [])) (saved_at (sample_trace []) 23)"
proof -
  have "''b'' \<in> crash_touched (sample_trace []) 24"
    unfolding crash_touched_def touched_iff by code_simp
  moreover have "saved_at (sample_trace []) 23 \<in> crash_disk {} (sample_trace []) 24" by code_simp
  ultimately show ?thesis
    unfolding sample_trace_def by (rule reconcile_crash_safe [OF sample_registry])
qed

subsection \<open>Order of the stages\<close>

lemma allowed_event:
  fixes R :: "'w reconciler"
  assumes "core_registry_inv (rc_cores R)" "run_trace R ds secrets w = before @ ev # rest"
    and "touches ev c \<or> (\<exists>g a r. ev = EvCas g a r)"
  shows "\<exists>plans. planned_with R ds secrets w plans \<and> step_ok {} plans before ev"
proof -
  obtain plans :: "'w core_plans" where ok: "trace_ok {} plans (run_trace R ds secrets w)"
    and pl: "planned_with R ds secrets w plans
      \<or> touched (run_trace R ds secrets w) = {} \<and> (\<forall>g a r. EvCas g a r \<notin> set (run_trace R ds secrets w))"
    using trace_of_run [OF assms(1) run_pair, of "{}" ds secrets w] by (auto simp: run_trace_def)
  have "step_ok {} plans before ev" using trace_ok_split [OF ok [unfolded assms(2)]] ..
  moreover have "ev \<in> set (run_trace R ds secrets w)" by (simp add: assms(2))
  then have "planned_with R ds secrets w plans" using pl assms(3) unfolding touched_def by blast
  ultimately show ?thesis by blast
qed

text \<open>
  C2: all-or-nothing preparation. Before the first call that can change a live configuration
  or service, every runtime of the plan has been staged, validated and snapshotted with
  success.
\<close>

theorem reconcile_prepares_first:
  fixes R :: "'w reconciler"
  assumes "core_registry_inv (rc_cores R)" "run_trace R ds secrets w = before @ ev # rest" "touches ev c"
  shows "\<exists>plans. planned_with R ds secrets w plans \<and> (\<forall>(i, _) \<in> set plans. prepared_for before i)"
proof -
  obtain plans where "planned_with R ds secrets w plans" "step_ok {} plans before ev"
    using allowed_event [OF assms(1,2)] assms(3) by blast
  then show ?thesis using assms(3) by (auto simp: step_ok_def)
qed

lemma sample_split:
  assumes "n < length (sample_trace faults)"
  shows "sample_trace faults = take n (sample_trace faults) @ sample_trace faults ! n # drop (Suc n) (sample_trace faults)"
  using assms by (rule id_take_nth_drop)

theorem reconcile_prepares_first_witness:
  "\<exists>plans. planned_with sample_reconciler sample_desired (\<lambda>_. Err ''none'') (sample_world []) plans
     \<and> (\<forall>(i, _) \<in> set plans. prepared_for (take 16 (sample_trace [])) i)"
proof -
  have "16 < length (sample_trace [])" "touches (sample_trace [] ! 16) ''a''" by code_simp+
  then show ?thesis
    using reconcile_prepares_first [OF sample_registry sample_split [unfolded sample_trace_def]]
    unfolding sample_trace_def by blast
qed

text \<open>
  C3: publication last. When the applied generation is compared and set, every runtime of the
  plan has been installed, activated, checked for health and listeners, and, where it
  authorizes individual users, observed in sync.
\<close>

theorem reconcile_verifies_before_publication:
  fixes R :: "'w reconciler"
  assumes "core_registry_inv (rc_cores R)" "run_trace R ds secrets w = before @ EvCas g a r # rest"
  shows "\<exists>plans. planned_with R ds secrets w plans
     \<and> (\<forall>(i, _, plan) \<in> set plans. plan_verified before i plan)"
proof -
  obtain plans where "planned_with R ds secrets w plans" "step_ok {} plans before (EvCas g a r)"
    using allowed_event [OF assms] by blast
  then show ?thesis by (auto simp: step_ok_def)
qed

theorem reconcile_verifies_before_publication_witness:
  "\<exists>plans. planned_with sample_reconciler sample_desired (\<lambda>_. Err ''none'') (sample_world []) plans
     \<and> (\<forall>(i, _, plan) \<in> set plans. plan_verified (take 33 (sample_trace [])) i plan)"
proof -
  have "33 < length (sample_trace [])"
    "sample_trace [] ! 33 = EvCas 0 \<lparr>ap_generation = 1, ap_active_core_ids = [''a'', ''b'']\<rparr> (Ok True)"
    by code_simp+
  then have "run_trace sample_reconciler sample_desired (\<lambda>_. Err ''none'') (sample_world [])
      = take 33 (sample_trace []) @ EvCas 0 \<lparr>ap_generation = 1, ap_active_core_ids = [''a'', ''b'']\<rparr> (Ok True)
        # drop 34 (sample_trace [])"
    using sample_split [of 33 "[]"] by (simp add: sample_trace_def)
  then show ?thesis by (rule reconcile_verifies_before_publication [OF sample_registry])
qed

subsection \<open>What an outcome means\<close>

text \<open>
  C4: a \<open>Failed\<close> or \<open>Unsupported\<close> outcome means that no runtime was installed, activated or
  rolled back.
\<close>

theorem reconcile_failure_is_untouched:
  assumes "core_registry_inv (rc_cores R)" "run_result R ds secrets w = Ok oc"
    and "oc_status oc \<in> {StFailed, StUnsupported}"
  shows "touched (run_trace R ds secrets w) = {} \<and> rollbacks (run_trace R ds secrets w) = []"
  using assms(1) run_pair [of R ds secrets w]
proof (cases rule: run_cases [where D = "{}"])
  case (untouched applied r)
  then show ?thesis by (auto simp: untouched_end_def run_trace_def)
next
  case (unplanned r)
  then show ?thesis by (auto simp: unplanned_end_def run_trace_def quiet_def)
next
  case (planned plans r applied)
  then show ?thesis using assms(2,3)
    by (cases r) (auto simp: ended_def outcome_ok_def outcome_of_def run_trace_def)
qed (use assms(2) in \<open>auto\<close>)

definition result_status :: "outcome res \<Rightarrow> reconcile_status option" where
  "result_status r = (case r of Inl _ \<Rightarrow> None | Inr oc \<Rightarrow> Some (oc_status oc))"

lemma result_statusD: "result_status r = Some st \<Longrightarrow> \<exists>oc. r = Ok oc \<and> oc_status oc = st"
  by (auto simp: result_status_def split: sum.splits)

definition sample_result :: "string list \<Rightarrow> outcome res" where
  "sample_result faults = run_result sample_reconciler sample_desired (\<lambda>_. Err ''none'') (sample_world faults)"

theorem reconcile_failure_is_untouched_witness:
  "touched (sample_trace [''validate-b'']) = {} \<and> rollbacks (sample_trace [''validate-b'']) = []"
proof -
  have "result_status (sample_result [''validate-b'']) = Some StFailed" by code_simp
  then obtain oc where "sample_result [''validate-b''] = Ok oc" "oc_status oc = StFailed"
    using result_statusD by blast
  then show ?thesis
    unfolding sample_trace_def sample_result_def
    by (intro reconcile_failure_is_untouched [OF sample_registry]) auto
qed



text \<open>
  An \<open>Applied\<close> outcome means that either the applied generation was already at least the
  desired one and nothing happened, or every runtime of the plan was verified, the applied
  state was swapped to exactly the plan's generation and active runtimes, and nothing was
  rolled back.
\<close>

theorem reconcile_applied_is_verified:
  fixes R :: "'w reconciler"
  assumes "core_registry_inv (rc_cores R)" "run_result R ds secrets w = Ok oc" "oc_status oc = StApplied"
  shows "run_trace R ds secrets w = []
           \<and> (\<exists>a. st_load_applied (rc_store R) w = Ok a \<and> ds_generation ds \<le> ap_generation a)
     \<or> (\<exists>plans g. planned_with R ds secrets w plans
           \<and> EvCas g (next_applied ds plans) (Ok True) \<in> set (run_trace R ds secrets w)
           \<and> (\<forall>(i, _, plan) \<in> set plans. plan_verified (run_trace R ds secrets w) i plan)
           \<and> rollbacks (run_trace R ds secrets w) = [])"
  using assms(1) run_pair [of R ds secrets w]
proof (cases rule: run_cases [where D = "{}"])
  case (untouched applied r)
  then show ?thesis using assms(2,3)
    by (cases r) (auto simp: untouched_end_def run_trace_def outcome_of_def)
next
  case (unplanned r)
  then show ?thesis using assms(2,3) by (cases r) (auto simp: unplanned_end_def outcome_of_def)
next
  case (planned plans r applied)
  let ?tr = "run_trace R ds secrets w"
  have "outcome_ok (next_applied ds plans) ?tr oc"
    using planned(1,3) assms(2) by (cases r) (auto simp: ended_def outcome_of_def run_trace_def)
  then obtain g where rb: "rollbacks ?tr = []" and cas: "EvCas g (next_applied ds plans) (Ok True) \<in> set ?tr"
    using assms(3) by (auto simp: outcome_ok_def)
  obtain before rest where split: "?tr = before @ EvCas g (next_applied ds plans) (Ok True) # rest"
    using cas by (auto simp: in_set_conv_decomp)
  have "trace_ok {} plans ?tr" using planned(3) by (simp add: ended_def live_def run_trace_def)
  then have "\<forall>(i, _, plan) \<in> set plans. plan_verified before i plan"
    using trace_ok_split [of "{}" plans before] by (auto simp: split step_ok_def)
  then have "\<forall>(i, _, plan) \<in> set plans. plan_verified ?tr i plan"
    by (auto simp: split intro: plan_verified_mono)
  then show ?thesis using planned(2) cas rb by blast
qed (use assms(2) in \<open>auto\<close>)

theorem reconcile_applied_is_verified_witness:
  "\<exists>plans g. planned_with sample_reconciler sample_desired (\<lambda>_. Err ''none'') (sample_world []) plans
     \<and> EvCas g (next_applied sample_desired plans) (Ok True) \<in> set (sample_trace [])
     \<and> (\<forall>(i, _, plan) \<in> set plans. plan_verified (sample_trace []) i plan)
     \<and> rollbacks (sample_trace []) = []"
proof -
  have "result_status (sample_result []) = Some StApplied" "sample_trace [] \<noteq> []" by code_simp+
  moreover from this obtain oc where "sample_result [] = Ok oc" "oc_status oc = StApplied"
    using result_statusD by blast
  ultimately show ?thesis
    using reconcile_applied_is_verified [OF sample_registry, of sample_desired "\<lambda>_. Err ''none''" "sample_world []" oc]
    unfolding sample_trace_def sample_result_def by auto
qed

subsection \<open>Recovery\<close>

text \<open>
  C7: recovery of an interrupted transaction calls the rollback of exactly the runtimes the
  journal marks as started (those whose snapshot path and adapter check out), in the reverse of
  the mutation order and from the recorded snapshots; it reports \<open>RolledBack\<close> only when all of
  them checked out, every rollback succeeded and the applied state is the previous one.
\<close>

theorem recover_restores_started:
  assumes "st_load_journal (rc_store R) w = Ok (Some j)" "st_load_applied (rc_store R) w = Ok applied"
    and "\<not> terminal_status (jn_status j)" "\<not> already_published j applied" "mutated_in_rollback_order j \<noteq> []"
    and "recover R w = (Ok out, s)"
  shows "restored_pairs (rn_trace s) = journal_pairs
           (filter (recoverable R (generation_dir R (jn_generation j))) (mutated_in_rollback_order j))
     \<and> (\<exists>oc. out = Some oc \<and> oc_generation oc = jn_generation j
          \<and> (oc_status oc = StRecoveryRequired
             \<or> oc_status oc = StRolledBack \<and> undo_ok (rn_trace s)
                \<and> list_all (recoverable R (generation_dir R (jn_generation j))) (mutated_in_rollback_order j)
                \<and> applied_restored j applied (rn_trace s)))"
proof -
  obtain r where r: "recover_proc R (start w) = (r, s)" "r = Go out \<or> (\<exists>oc. r = Ret oc \<and> out = Some oc)"
    using assms(6) by (auto simp: recover_def split: prod.splits ctl.splits)
  have "rolled_end R j applied r s"
    using recover_proc_post [OF assms(1,2)] assms(3-5) by (simp add: post_def r(1) recover_end_def)
  then show ?thesis
    using r(2) by (auto simp: rolled_end_def Let_def applied_restored_def split: option.splits)
qed

definition crashed_world :: "string list \<Rightarrow> string list \<Rightarrow> nat \<Rightarrow> mem" where
  "crashed_world before_faults after_faults n =
     (sample_world after_faults)\<lparr>mm_journal := Some (saved_at (sample_trace before_faults) n),
        mm_dirs := [[''tx'', ''1'']]\<rparr>"

lemma crashed_loads:
  "st_load_journal (rc_store sample_reconciler) (crashed_world fs gs n) = Ok (Some (saved_at (sample_trace fs) n))"
  "st_load_applied (rc_store sample_reconciler) (crashed_world fs gs n) = Ok default_applied"
  by (simp_all add: sample_reconciler_def mem_store_def crashed_world_def sample_world_def)

theorem recover_restores_started_witness:
  "map fst (restored_pairs (rn_trace (snd (recover sample_reconciler (crashed_world [] [] 27))))) = [''b'', ''a'']"
proof -
  let ?j = "saved_at (sample_trace []) 27" and ?run = "recover sample_reconciler (crashed_world [] [] 27)"
  have facts: "\<not> terminal_status (jn_status ?j)" "\<not> already_published ?j default_applied"
      "mutated_in_rollback_order ?j \<noteq> []" "is_ok (fst ?run)"
      "map fst (journal_pairs (filter (recoverable sample_reconciler (generation_dir sample_reconciler (jn_generation ?j)))
         (mutated_in_rollback_order ?j))) = [''b'', ''a'']"
    by code_simp+
  then obtain out where out: "?run = (Ok out, snd ?run)" by (cases ?run) (auto simp: is_ok_iff)
  from recover_restores_started [OF crashed_loads facts(1-3) out] show ?thesis using facts(5) by simp
qed



text \<open>The entry a rollback writes before it restores the first runtime, in the sample run.\<close>

definition interrupted_resource :: "string \<Rightarrow> bool \<Rightarrow> journal_resource" where
  "interrupted_resource i verified =
     \<lparr>jr_core_id = i, jr_snapshot_path = [''tx'', ''1'', i, ''snapshot''], jr_service_was_enabled = True,
      jr_service_was_active = False, jr_mutation_started = True, jr_verified = verified\<rparr>"

definition interrupted_journal :: journal_entry where
  "interrupted_journal =
     \<lparr>jn_operation_id = ''op'', jn_generation = 1, jn_previous_generation = 0,
      jn_previous_active_core_ids = [], jn_phase = PhRollbackStarted, jn_status = StFailed,
      jn_core_ids = [''a'', ''b''], jn_current_core_id = Some ''b'',
      jn_resources = [interrupted_resource ''a'' True, interrupted_resource ''b'' False],
      jn_error = Some ''runtime health check failed'', jn_started_at = ''now'', jn_completed_at = None\<rparr>"

definition interrupted_world :: mem where
  "interrupted_world = (sample_world [])\<lparr>mm_journal := Some interrupted_journal, mm_dirs := [[''tx'', ''1'']]\<rparr>"


subsection \<open>Idempotence over the durable store\<close>

text \<open>
  Over the file store, a desired state that was reported \<open>Applied\<close> is settled: reconciling
  it again reports \<open>Applied\<close>, makes no call at all and leaves the file system as it is.
\<close>

theorem reconcile_twice_is_noop:
  fixes R :: "fs reconciler"
  assumes "core_registry_inv (rc_cores R)" "rc_store R = file_store E" "rc_host R = file_host now uuid"
    and "\<forall>g. \<not> inside (generation_dir R g) (applied_path E)"
    and "\<forall>ids. registered_ids R ids \<longrightarrow>
           applied_storable (fe_codec E) \<lparr>ap_generation = ds_generation ds, ap_active_core_ids = ids\<rparr>"
    and "reconcile R ds secrets w = (Ok oc, s)" "oc_status oc = StApplied"
  shows "\<exists>g \<ge> ds_generation ds. reconcile R ds secrets (rn_world s) =
     (Ok \<lparr>oc_generation = g, oc_status = StApplied, oc_message = None\<rparr>, start (rn_world s))"
proof -
  obtain a where a: "st_load_applied (rc_store R) (rn_world s) = Ok a" "ds_generation ds \<le> ap_generation a"
    using applied_run_settles [OF assms(1-3) assms(4) [rule_format] assms(5) [rule_format] assms(6,7)] by auto
  show ?thesis using reconcile_noop [OF a] a(2) by (intro exI conjI)
qed

theorem reconcile_twice_is_noop_witness:
  "\<exists>g \<ge> 1. let w = rn_world (snd (reconcile file_reconciler sample_desired (\<lambda>_. Err ''none'') [])) in
     reconcile file_reconciler sample_desired (\<lambda>_. Err ''none'') w =
       (Ok \<lparr>oc_generation = g, oc_status = StApplied, oc_message = None\<rparr>, start w)"
proof -
  let ?run = "reconcile file_reconciler sample_desired (\<lambda>_. Err ''none'') []"
  have "result_status (fst ?run) = Some StApplied" by code_simp
  then obtain oc where oc: "fst ?run = Ok oc" "oc_status oc = StApplied" using result_statusD by blast
  then have run: "?run = (Ok oc, snd ?run)" by (cases ?run) auto
  have root: "\<forall>g. \<not> inside (generation_dir file_reconciler g) (applied_path sample_files)"
    by (simp add: generation_dir_def file_reconciler_def applied_path_def sample_files_def inside_def)
  have codec: "\<forall>ids. registered_ids file_reconciler ids \<longrightarrow> applied_storable (fe_codec sample_files)
      \<lparr>ap_generation = ds_generation sample_desired, ap_active_core_ids = ids\<rparr>"
    using sample_storable by (simp add: sample_files_def sample_desired_def)
  have "rc_store file_reconciler = file_store sample_files"
    "rc_host file_reconciler = file_host (\<lambda>_. ''now'') (\<lambda>_. ''op'')" "ds_generation sample_desired = 1"
    by (simp_all add: file_reconciler_def sample_desired_def)
  then show ?thesis
    using reconcile_twice_is_noop [OF file_registry _ _ root codec run oc(2)] by (simp add: Let_def)
qed

text \<open>
  C11: atomic journal writes. Whatever the point at which a save of the journal stops, the
  store then loads either what it loaded before or exactly the saved entry, and the applied
  state is not affected.
\<close>

theorem journal_write_is_atomic:
  assumes "st_save_journal (file_store E) j w = (r, w')" "journal_storable (fe_codec E) j"
  shows "(st_load_journal (file_store E) w' = st_load_journal (file_store E) w
          \<or> st_load_journal (file_store E) w' = Ok (Some j))
     \<and> (r = Ok () \<longrightarrow> st_load_journal (file_store E) w' = Ok (Some j))
     \<and> st_load_applied (file_store E) w' = st_load_applied (file_store E) w"
  using files.save_crash [OF assms] files.save_frame [OF assms(1)] files.save_load [of E j w w'] assms
  by auto

text \<open>The sample journal, saved by a store whose writes stop after one byte.\<close>

definition torn_files :: file_env where
  "torn_files = \<lparr>fe_codec =
       \<lparr>cd_encode_applied = (\<lambda>_. ''applied''), cd_decode_applied = (\<lambda>_. Ok default_applied),
        cd_encode_journal = (\<lambda>_. ''journal''), cd_decode_journal = (\<lambda>_. Ok interrupted_journal)\<rparr>,
     fe_directory = [''state''], fe_uuid = (\<lambda>_. ''u''), fe_stop = (\<lambda>_. Some (AtWrite 1))\<rparr>"

theorem journal_write_is_atomic_witness:
  "let (r, w) = st_save_journal (file_store torn_files) interrupted_journal [] in
     \<not> is_ok r \<and> bt_get w [''state'', ''.reconcile-u.tmp''] = Some (RegularFile ''j'')
     \<and> (st_load_journal (file_store torn_files) w = Ok None
        \<or> st_load_journal (file_store torn_files) w = Ok (Some interrupted_journal))"
proof -
  let ?res = "st_save_journal (file_store torn_files) interrupted_journal []"
  have run: "?res = (fst ?res, snd ?res)" by simp
  have ok: "journal_storable (fe_codec torn_files) interrupted_journal"
    by (simp add: journal_storable_def torn_files_def one_mib_def)
  have "st_load_journal (file_store torn_files) [] = Ok None" by code_simp
  moreover have "\<not> is_ok (fst ?res)" "bt_get (snd ?res) [''state'', ''.reconcile-u.tmp''] = Some (RegularFile ''j'')"
    by code_simp+
  ultimately show ?thesis
    using journal_write_is_atomic [OF run ok] by (auto simp: case_prod_unfold Let_def)
qed

end
