(* ===== verification/Access.thy ===== *)
theory Access
  imports Models
begin

text \<open>
  \<open>access.rs\<close>: the one decision whether a subscription user is allowed in at a given UTC
  instant. Quota counters are \<open>i64\<close> values that are only compared, so they are \<open>int\<close>.
\<close>

record user_access_state =
  ua_disabled :: bool
  ua_expired :: bool
  ua_quota_exceeded :: bool

definition access_evaluate ::
  "bool \<Rightarrow> instant option \<Rightarrow> int option \<Rightarrow> int \<Rightarrow> instant \<Rightarrow> user_access_state" where
  "access_evaluate enabled expires_at traffic_limit traffic_used now =
     \<lparr>ua_disabled = (\<not> enabled),
      ua_expired = (case expires_at of None \<Rightarrow> False | Some deadline \<Rightarrow> deadline \<le> now),
      ua_quota_exceeded = (case traffic_limit of None \<Rightarrow> False | Some limit \<Rightarrow> limit \<le> traffic_used)\<rparr>"

definition access_allowed :: "user_access_state \<Rightarrow> bool" where
  "access_allowed s \<longleftrightarrow> \<not> ua_disabled s \<and> \<not> ua_expired s \<and> \<not> ua_quota_exceeded s"

lemma access_allowed_evaluate:
  "access_allowed (access_evaluate enabled expires lim used now) \<longleftrightarrow>
     enabled \<and> (\<forall>d. expires = Some d \<longrightarrow> now < d) \<and> (\<forall>l. lim = Some l \<longrightarrow> used < l)"
  by (auto simp: access_allowed_def access_evaluate_def split: option.splits)

text \<open>
  Without an operator edit, access is only ever lost: time moving on and usage growing can
  revoke a user but never admit one that was blocked.
\<close>

lemma access_antimono:
  assumes "now \<le> now'" and "used \<le> used'"
    and "access_allowed (access_evaluate enabled expires lim used' now')"
  shows "access_allowed (access_evaluate enabled expires lim used now)"
  using assms by (auto simp: access_allowed_evaluate)

end
