(* ===== verification/Planning_Claims.thy ===== *)
theory Planning_Claims
  imports Sample_Runtime Access
begin

text \<open>
  The properties of the planning half: registries, runtime selection, the dependency and
  listener checks, the contents of the plans, the removal guard, and of the small decision
  procedures for access and traffic counters.
\<close>

subsection \<open>Uninstalling a runtime\<close>

text \<open>The registry as it answers once the module of one runtime is gone from the host.\<close>

definition uninstalled :: "'w core_adapter \<Rightarrow> 'w core_adapter" where
  "uninstalled a = a\<lparr>ca_installed := (\<lambda>_. Ok False)\<rparr>"

definition uninstall :: "string \<Rightarrow> 'w core_registry \<Rightarrow> 'w core_registry" where
  "uninstall k cores = map (\<lambda>(i, a). (i, if i = k then uninstalled a else a)) cores"

definition without_install :: "string \<Rightarrow> 'w core_adapter \<Rightarrow> 'w core_adapter" where
  "without_install k a = (if ca_id a = k then uninstalled a else a)"

lemma uninstalled_fields [simp]:
  "ca_id (uninstalled a) = ca_id a" "ca_capabilities (uninstalled a) = ca_capabilities a"
  "ca_priority (uninstalled a) = ca_priority a" "ca_compatible (uninstalled a) = ca_compatible a"
  "ca_installed (uninstalled a) w = Ok False"
  by (simp_all add: uninstalled_def ca_id_def ca_capabilities_def ca_priority_def)

lemma without_install_fields [simp]:
  "ca_capabilities (without_install k a) = ca_capabilities a" "ca_priority (without_install k a) = ca_priority a"
  by (simp_all add: without_install_def)

lemma uninstall_get:
  "bt_get (uninstall k cores) i = map_option (\<lambda>a. if i = k then uninstalled a else a) (bt_get cores i)"
  unfolding uninstall_def by (induction cores) auto

lemma uninstall_values:
  "core_registry_inv cores \<Longrightarrow> bt_values (uninstall k cores) = map (without_install k) (bt_values cores)"
  by (auto simp: uninstall_def bt_values_def without_install_def registry_inv_def)

lemma sort_key_map: "(\<And>x. f (g x) = f x) \<Longrightarrow> sort_key f (map g xs) = map g (sort_key f xs)"
proof (induction xs)
  case Nil
  then show ?case by simp
next
  case (Cons x xs)
  have "insort_key f (g x) (map g ys) = map g (insort_key f x ys)" for ys
    by (induction ys) (auto simp: Cons.prems)
  then show ?case using Cons by simp
qed

lemma select_first_without:
  "\<forall>a \<in> set as. ca_id a = k \<longrightarrow> is_ok (ca_compatible a required w) \<Longrightarrow>
     select_first required (map (without_install k) as) w = select_first required (filter (\<lambda>a. ca_id a \<noteq> k) as) w"
  by (induction as) (auto simp: without_install_def is_ok_iff cong del: if_weak_cong)

lemma select_uninstalled:
  assumes inv: "core_registry_inv cores"
    and compat: "\<forall>a \<in> set (bt_values cores). ca_id a = k \<longrightarrow> is_ok (ca_compatible a required w)"
  shows "core_select (uninstall k cores) required None w = core_select_excluding cores required k w"
proof -
  let ?caps = "\<lambda>a. required \<subseteq> ca_capabilities a" and ?key = "\<lambda>a. - ca_priority a"
  have "filter ?caps (map (without_install k) (bt_values cores))
      = map (without_install k) (filter ?caps (bt_values cores))"
    by (simp add: filter_map comp_def)
  then have "sort_key ?key (filter ?caps (bt_values (uninstall k cores)))
      = map (without_install k) (sort_key ?key (filter ?caps (bt_values cores)))"
    by (simp add: uninstall_values [OF inv] sort_key_map)
  then have "core_select (uninstall k cores) required None w
      = select_first required (filter (\<lambda>a. ca_id a \<noteq> k) (sort_key ?key (filter ?caps (bt_values cores)))) w"
    using compat by (simp add: core_select_def select_first_without)
  also have "filter (\<lambda>a. ca_id a \<noteq> k) (sort_key ?key (filter ?caps (bt_values cores)))
      = sort_key ?key (filter (\<lambda>a. ca_id a \<noteq> k) (filter ?caps (bt_values cores)))"
    by (rule filter_sort)
  also have "filter (\<lambda>a. ca_id a \<noteq> k) (filter ?caps (bt_values cores))
      = map snd (filter (\<lambda>(i, a). i \<noteq> k \<and> ?caps a) cores)"
    using inv unfolding bt_values_def registry_inv_def by (induction cores) (auto simp: bt_wf_Cons)
  finally show ?thesis by (simp add: core_select_excluding_def)
qed

lemma guard_keeps_profile:
  assumes inv: "core_registry_inv cores"
    and ok: "core_select cores required preferred w = Ok (Some a)" and pref: "preferred \<noteq> Some k"
    and other: "core_select_excluding cores required k w = Ok (Some b)"
    and compat: "\<forall>a \<in> set (bt_values cores). ca_id a = k \<longrightarrow> is_ok (ca_compatible a required w)"
  shows "\<exists>c. core_select (uninstall k cores) required preferred w = Ok (Some c) \<and> ca_id c \<noteq> k"
proof (cases preferred)
  case None
  have "b \<in> set (map snd (filter (\<lambda>(i, a). i \<noteq> k \<and> required \<subseteq> ca_capabilities a) cores))"
    using find_Some_mem [OF select_first_find [OF other [unfolded core_select_excluding_def], symmetric]]
    by simp
  then have "ca_id b \<noteq> k" using inv by (auto simp: registry_inv_def)
  then show ?thesis using None other select_uninstalled [OF inv compat] by auto
next
  case (Some p)
  with ok pref have a: "bt_get cores p = Some a" "core_eligible required w a" "p \<noteq> k"
    by (auto simp: core_select_preferred)
  then have "core_select (uninstall k cores) required preferred w = Ok (Some a)"
    by (simp add: Some core_select_preferred uninstall_get)
  moreover have "ca_id a = p" using cores.reg_inv_get [OF inv a(1)] by simp
  ultimately show ?thesis using a(3) by auto
qed

subsection \<open>Registries and selection\<close>

text \<open>
  Registries are sound by construction: after any sequence of successful registrations,
  every entry has a valid manifest and sits under its own identifier, and every registered
  adapter is found. A duplicate identifier is an error.
\<close>

theorem registration_is_sound:
  assumes "register_all core_register cs [] = Ok cores" "register_all protocol_register ps [] = Ok protocols"
  shows "core_registry_inv cores \<and> protocol_registry_inv protocols
     \<and> (\<forall>a. a \<in> set cs \<longrightarrow> bt_get cores (ca_id a) = Some a \<and> \<not> is_ok (core_register a cores))
     \<and> (\<forall>a. a \<in> set ps \<longrightarrow> bt_get protocols (pa_id a) = Some a \<and> \<not> is_ok (protocol_register a protocols))"
proof (intro conjI allI impI)
  show "core_registry_inv cores" "protocol_registry_inv protocols"
    using assms by (auto intro: cores.reg_inv_add_all protocols.reg_inv_add_all
        cores.reg_inv_empty protocols.reg_inv_empty)
next
  fix a assume "a \<in> set cs"
  then show found: "bt_get cores (ca_id a) = Some a" by (rule cores.add_all_get [OF assms(1)])
  show "\<not> is_ok (core_register a cores)" by (rule cores.add_duplicate) (simp add: found)
next
  fix a assume "a \<in> set ps"
  then show found: "bt_get protocols (pa_id a) = Some a" by (rule protocols.add_all_get [OF assms(2)])
  show "\<not> is_ok (protocol_register a protocols)" by (rule protocols.add_duplicate) (simp add: found)
qed

abbreviation mem_core :: "string \<Rightarrow> mem core_adapter" where
  "mem_core \<equiv> sample_core mm_faults"

lemma sample_registration:
  "register_all core_register [mem_core ''b'', mem_core ''a''] []
     = Ok (rc_cores sample_reconciler)"
proof -
  have valid: "validate_core_manifest (ca_manifest (mem_core i)) = Ok ()" if "i = ''a'' \<or> i = ''b''" for i
    using that by (elim disjE; simp only: sample_core_def core_adapter.simps; code_simp)
  have "ca_id (mem_core i) = i" for i by (simp add: ca_id_def sample_core_def)
  then show ?thesis
    using valid [of "''a''"] valid [of "''b''"]
    by (simp add: core_register_def sample_reconciler_def)
qed

theorem registration_is_sound_witness:
  "core_registry_inv (rc_cores sample_reconciler)
   \<and> bt_get (rc_cores sample_reconciler) (ca_id (mem_core ''a'')) = Some (mem_core ''a'')"
  using registration_is_sound [OF sample_registration, of "[]" "[]"] by auto

text \<open>
  C13: runtime selection without a preference returns a registered runtime that has the
  required capabilities, is compatible and installed, has the highest priority among those,
  and the smallest identifier among the ones of that priority; it returns none only when no
  registered runtime qualifies.
\<close>

theorem selection_is_best:
  assumes "core_registry_inv reg" "core_select reg required None w = Ok choice"
  shows "case choice of
      None \<Rightarrow> (\<forall>j b. bt_get reg j = Some b \<longrightarrow> \<not> core_eligible required w b)
    | Some a \<Rightarrow> bt_get reg (ca_id a) = Some a \<and> core_eligible required w a
        \<and> (\<forall>j b. bt_get reg j = Some b \<longrightarrow> core_eligible required w b \<longrightarrow>
             ca_priority b < ca_priority a \<or> ca_priority b = ca_priority a \<and> ca_id a \<le> ca_id b)"
proof (cases choice)
  case None
  then show ?thesis using core_select_None_iff_unavailable assms(2) by fastforce
next
  case (Some a)
  then show ?thesis using core_select_best [OF assms(1), of required w a] assms(2) by auto
qed

lemma sample_selects:
  "core_select (rc_cores sample_reconciler) {''b''} None w = Ok (Some (mem_core ''b''))"
  by (simp add: core_select_def sample_reconciler_def bt_values_def ca_capabilities_def sample_core_def)

theorem selection_is_best_witness:
  "core_eligible {''b''} (sample_world []) (mem_core ''b'')"
  using selection_is_best [OF sample_registry sample_selects, of "sample_world []"] by simp

subsection \<open>The checks\<close>

text \<open>
  C14: the infrastructure dependency check accepts exactly the desired states whose enabled
  resources have distinct identifiers, depend only on enabled resources and form no cycle.
\<close>

theorem dependency_check_decides:
  "validate_infrastructure_dependencies rs = Ok () \<longleftrightarrow>
     distinct (map ir_resource_id (enabled_resources rs))
     \<and> closed_under (dep_succ (resource_index rs)) (ir_resource_id ` set (enabled_resources rs))
     \<and> acyclic (edges (dep_succ (resource_index rs)))"
  by (rule validate_dependencies_iff)

text \<open>
  The listener check accepts a plan exactly when no two fragments of any runtimes claim
  the same network and port.
\<close>

theorem listener_check_decides:
  "validate_listener_plan plans = Ok () \<longleftrightarrow>
     distinct (concat (map (\<lambda>(_, _, plan). concat (map sf_listeners (cp_fragments plan))) plans))"
  by (rule validate_listener_plan_iff)

text \<open>
  C16: the plans are exactly what the desired state asks for: sorted by runtime, each for the
  registered adapter and the desired generation; every enabled profile and every enabled
  resource has its rendered fragment in the plan of its runtime, no plan holds any other
  fragment, and every previously active runtime has a plan.
\<close>

theorem plans_are_complete:
  assumes "build_plans protocols cores ds secrets applied w = Ok plans" "core_registry_inv cores"
  shows "plans_ok cores (ds_generation ds) plans
     \<and> (\<forall>p. p \<in> set (enabled_profiles ds) \<longrightarrow>
          (\<exists>core f. profile_fragment protocols cores (ds_users ds) secrets w p core f
             \<and> f \<in> set (plan_fragments plans (ca_id core))))
     \<and> (\<forall>r. r \<in> set (enabled_resources (ds_infrastructure ds)) \<longrightarrow>
          resource_fragment r \<in> set (plan_fragments plans (ir_adapter_id r)))
     \<and> (\<forall>i f. f \<in> set (plan_fragments plans i) \<longrightarrow>
          (\<exists>p \<in> set (enabled_profiles ds). \<exists>core. ca_id core = i
             \<and> profile_fragment protocols cores (ds_users ds) secrets w p core f)
          \<or> (\<exists>r \<in> set (enabled_resources (ds_infrastructure ds)). ir_adapter_id r = i \<and> f = resource_fragment r))
     \<and> set (ap_active_core_ids applied) \<subseteq> fst ` set plans"
  using build_plans_spec [OF assms] by blast

lemma sample_plans:
  "\<exists>plans. build_plans (rc_protocols sample_reconciler) (rc_cores sample_reconciler) sample_desired
     (\<lambda>_. Err ''none'') default_applied (sample_world []) = Ok plans"
proof -
  have "is_ok (build_plans (rc_protocols sample_reconciler) (rc_cores sample_reconciler) sample_desired
     (\<lambda>_. Err ''none'') default_applied (sample_world []))"
    by code_simp
  then show ?thesis by (simp add: is_ok_iff)
qed

theorem plans_are_complete_witness:
  "\<exists>plans. resource_fragment (sample_resource ''a'') \<in> set (plan_fragments plans ''a'')
     \<and> plans_ok (rc_cores sample_reconciler) 1 plans"
proof -
  obtain plans where plans: "build_plans (rc_protocols sample_reconciler) (rc_cores sample_reconciler)
      sample_desired (\<lambda>_. Err ''none'') default_applied (sample_world []) = Ok plans"
    using sample_plans by blast
  have "sample_resource ''a'' \<in> set (enabled_resources (ds_infrastructure sample_desired))"
    "ir_adapter_id (sample_resource ''a'') = ''a''" "ds_generation sample_desired = 1"
    by (simp_all add: enabled_resources_def sample_desired_def sample_resource_def)
  then show ?thesis using plans_are_complete [OF plans sample_registry] by metis
qed

subsection \<open>The removal guard\<close>

lemma profile_selected:
  assumes "validate_graph protocols cores ds applied w = Ok ()" "p \<in> set (enabled_profiles ds)"
    and "bt_get protocols (pr_protocol_id p) = Some protocol"
  shows "\<exists>a. core_select cores (pa_required protocol) (pr_preferred_core p) w = Ok (Some a)"
proof -
  have "is_ok (each_res (\<lambda>p.
       and_then (ok_or ''desired protocol adapter is missing'' (bt_get protocols (pr_protocol_id p))) (\<lambda>protocol.
       and_then (core_select cores (pa_required protocol) (pr_preferred_core p) w) (\<lambda>selected.
       and_then (ok_or ''no installed core satisfies desired capabilities'' selected) (\<lambda>_. Ok ()))))
     (enabled_profiles ds))"
    using assms(1) unfolding validate_graph_def and_then_Inr_iff is_ok_iff by blast
  from bspec [OF this [unfolded each_res_ok_iff] assms(2)] show ?thesis
    by (auto simp: assms(3) is_ok_and_then ok_or_Inr_iff)
qed

text \<open>
  C17: the removal guard is sound. If the guard does not block the removal of a runtime and
  the desired state was valid, then with that runtime uninstalled every enabled profile still
  selects a runtime, another one, and no enabled resource is bound to the removed one.
\<close>

theorem removal_guard_is_sound:
  assumes "core_registry_inv cores" "core_removal_blocked protocols cores ds k w = Ok False"
    and "validate_graph protocols cores ds applied w = Ok ()"
    and "\<forall>a \<in> set (bt_values cores). \<forall>required. ca_id a = k \<longrightarrow> is_ok (ca_compatible a required w)"
  shows "(\<forall>p \<in> set (enabled_profiles ds). \<exists>protocol c.
            bt_get protocols (pr_protocol_id p) = Some protocol
            \<and> core_select (uninstall k cores) (pa_required protocol) (pr_preferred_core p) w = Ok (Some c)
            \<and> ca_id c \<noteq> k)
     \<and> (\<forall>r \<in> set (enabled_resources (ds_infrastructure ds)). ir_adapter_id r \<noteq> k)"
proof (intro conjI ballI)
  fix p assume p: "p \<in> set (enabled_profiles ds)"
  have guard: "profiles_need_core protocols cores k w (enabled_profiles ds) = Ok False"
    using assms(2) by (auto simp: core_removal_blocked_def and_then_Inr_iff split: if_splits)
  obtain protocol b where pr: "bt_get protocols (pr_protocol_id p) = Some protocol"
      "pr_preferred_core p \<noteq> Some k" "core_select_excluding cores (pa_required protocol) k w = Ok (Some b)"
    using profiles_need_core_False [OF guard p] by blast
  obtain a where a: "core_select cores (pa_required protocol) (pr_preferred_core p) w = Ok (Some a)"
    using profile_selected [OF assms(3) p pr(1)] by blast
  from guard_keeps_profile [OF assms(1) a pr(2,3)] assms(4)
  show "\<exists>protocol c. bt_get protocols (pr_protocol_id p) = Some protocol
      \<and> core_select (uninstall k cores) (pa_required protocol) (pr_preferred_core p) w = Ok (Some c) \<and> ca_id c \<noteq> k"
    using pr(1) by blast
next
  fix r assume "r \<in> set (enabled_resources (ds_infrastructure ds))"
  then show "ir_adapter_id r \<noteq> k"
    using assms(2) by (auto simp: core_removal_blocked_def and_then_Inr_iff enabled_resources_def split: if_splits)
qed

text \<open>The sample with only the first resource enabled lets the second runtime go.\<close>

definition half_desired :: desired_state where
  "half_desired = sample_desired\<lparr>ds_infrastructure := [sample_resource ''a'']\<rparr>"

theorem removal_guard_is_sound_witness:
  "enabled_resources (ds_infrastructure half_desired) = [sample_resource ''a'']
   \<and> ir_adapter_id (sample_resource ''a'') \<noteq> ''b''"
proof -
  have res: "enabled_resources (ds_infrastructure half_desired) = [sample_resource ''a'']"
    by (simp add: enabled_resources_def half_desired_def sample_resource_def)
  have "core_removal_blocked (rc_protocols sample_reconciler) (rc_cores sample_reconciler) half_desired ''b''
      (sample_world []) = Ok False"
    "validate_graph (rc_protocols sample_reconciler) (rc_cores sample_reconciler) half_desired default_applied
      (sample_world []) = Ok ()"
    by code_simp+
  moreover have "\<forall>a \<in> set (bt_values (rc_cores sample_reconciler)). \<forall>required. ca_id a = ''b'' \<longrightarrow>
      is_ok (ca_compatible a required (sample_world []))"
    by (simp add: sample_reconciler_def bt_values_def sample_core_def)
  ultimately have "\<forall>r \<in> set (enabled_resources (ds_infrastructure half_desired)). ir_adapter_id r \<noteq> ''b''"
    using removal_guard_is_sound [OF sample_registry] by blast
  then show ?thesis using res by simp
qed

subsection \<open>Access and traffic\<close>

text \<open>
  A user is let in exactly while enabled, before the deadline and below the quota;
  and without an operator's edit access is only ever lost, as time moves on and usage grows.
\<close>

theorem access_is_only_lost:
  assumes "now \<le> now'" "used \<le> used'"
  shows "(access_allowed (access_evaluate enabled expires lim used now) \<longleftrightarrow>
       enabled \<and> (case expires of None \<Rightarrow> True | Some d \<Rightarrow> now < d)
       \<and> (case lim of None \<Rightarrow> True | Some l \<Rightarrow> used < l))
     \<and> (access_allowed (access_evaluate enabled expires lim used' now') \<longrightarrow>
       access_allowed (access_evaluate enabled expires lim used now))"
  using access_antimono [OF assms] by (auto simp: access_allowed_evaluate split: option.splits)

theorem access_is_only_lost_witness:
  "access_allowed (access_evaluate True (Some 10) (Some 5) 4 9)
   \<and> \<not> access_allowed (access_evaluate True (Some 10) (Some 5) 5 9)"
  using access_is_only_lost [of 9 9 4 5 True "Some 10" "Some 5"] by (simp add: access_allowed_evaluate)

text \<open>
  Cumulative traffic counters are turned into per-sample deltas without loss. Over any
  sequence of samples in which no reset is reported, the deltas add up, as natural numbers and
  so without wrap-around, to the last counter minus the first.
\<close>

theorem traffic_deltas_telescope:
  assumes "no_reset old cs"
  shows "delta_sum old cs + unat (tc_total_bytes old) = unat (tc_total_bytes (last (old # cs)))"
  using assms by (rule delta_sum_telescopes)

definition sample_counters :: "u64 \<Rightarrow> traffic_counters" where
  "sample_counters n = \<lparr>tc_rx_bytes = n, tc_tx_bytes = n, tc_total_bytes = n, tc_active_connections = None,
     tc_continuity = ''boot''\<rparr>"

theorem traffic_deltas_telescope_witness:
  "delta_sum (sample_counters 5) [sample_counters 7, sample_counters 30] + 5 = 30"
proof -
  have "no_reset (sample_counters 5) [sample_counters 7, sample_counters 30]" by code_simp
  from traffic_deltas_telescope [OF this] show ?thesis by (simp add: sample_counters_def)
qed

end
