(* ===== verification/Rules.thy ===== *)
theory Rules
  imports Models
begin

text \<open>
  \<open>rules.rs\<close>: routing rule sets in the classical provider format. A payload is text, one rule
  per line; the validator trims, drops blank lines and comments, and rejects every line that
  names a logical rule, another rule set or a routing target. Line numbers in error messages
  are one-based, as the code counts them. The YAML serializer is a parameter.
\<close>

definition CLASSICAL_CONDITION_TYPES :: "string list" where
  "CLASSICAL_CONDITION_TYPES =
     [''DOMAIN'', ''DOMAIN-SUFFIX'', ''DOMAIN-KEYWORD'', ''DOMAIN-WILDCARD'', ''DOMAIN-REGEX'',
      ''GEOSITE'', ''IP-CIDR'', ''IP-CIDR6'', ''IP-SUFFIX'', ''IP-ASN'', ''GEOIP'', ''SRC-GEOIP'',
      ''SRC-IP-ASN'', ''SRC-IP-CIDR'', ''SRC-IP-SUFFIX'', ''DST-PORT'', ''SRC-PORT'', ''IN-PORT'',
      ''IN-TYPE'', ''IN-USER'', ''IN-NAME'', ''PROCESS-PATH'', ''PROCESS-PATH-WILDCARD'',
      ''PROCESS-PATH-REGEX'', ''PROCESS-NAME'', ''PROCESS-NAME-WILDCARD'', ''PROCESS-NAME-REGEX'',
      ''UID'', ''NETWORK'', ''DSCP'']"

definition NO_RESOLVE_CONDITION_TYPES :: "string list" where
  "NO_RESOLVE_CONDITION_TYPES =
     [''IP-CIDR'', ''IP-CIDR6'', ''IP-SUFFIX'', ''IP-ASN'', ''GEOIP'', ''SRC-GEOIP'',
      ''SRC-IP-ASN'', ''SRC-IP-CIDR'', ''SRC-IP-SUFFIX'']"

record routing_rule_set =
  rs_slug :: string
  rs_title :: string
  rs_effect :: string
  rs_target :: string
  rs_enabled :: bool
  rs_payload :: string

datatype rule_kind =
    RkDomain | RkDomainSuffix | RkDomainKeyword | RkIpCidr | RkIpCidr6 | RkGeoip | RkGeosite
  | RkAsn | RkProcessName | RkDstPort | RkSrcPort | RkNetwork | RkClassical

definition mihomo_name :: "rule_kind \<Rightarrow> string" where
  "mihomo_name k = (case k of
       RkDomain \<Rightarrow> ''DOMAIN'' | RkDomainSuffix \<Rightarrow> ''DOMAIN-SUFFIX''
     | RkDomainKeyword \<Rightarrow> ''DOMAIN-KEYWORD'' | RkIpCidr \<Rightarrow> ''IP-CIDR''
     | RkIpCidr6 \<Rightarrow> ''IP-CIDR6'' | RkGeoip \<Rightarrow> ''GEOIP'' | RkGeosite \<Rightarrow> ''GEOSITE''
     | RkAsn \<Rightarrow> ''IP-ASN'' | RkProcessName \<Rightarrow> ''PROCESS-NAME'' | RkDstPort \<Rightarrow> ''DST-PORT''
     | RkSrcPort \<Rightarrow> ''SRC-PORT'' | RkNetwork \<Rightarrow> ''NETWORK'' | RkClassical \<Rightarrow> ''CLASSICAL'')"

definition rule_kind_parse :: "string \<Rightarrow> rule_kind res" where
  "rule_kind_parse value = (let v = to_ascii_uppercase (trim value) in
     if v = ''DOMAIN'' then Ok RkDomain
     else if v = ''DOMAIN-SUFFIX'' then Ok RkDomainSuffix
     else if v = ''DOMAIN-KEYWORD'' then Ok RkDomainKeyword
     else if v = ''IP-CIDR'' then Ok RkIpCidr
     else if v = ''IP-CIDR6'' then Ok RkIpCidr6
     else if v = ''GEOIP'' then Ok RkGeoip
     else if v = ''GEOSITE'' then Ok RkGeosite
     else if v = ''ASN'' \<or> v = ''IP-ASN'' then Ok RkAsn
     else if v = ''PROCESS-NAME'' then Ok RkProcessName
     else if v = ''DST-PORT'' then Ok RkDstPort
     else if v = ''SRC-PORT'' then Ok RkSrcPort
     else if v = ''NETWORK'' then Ok RkNetwork
     else if v = ''CLASSICAL'' then Ok RkClassical
     else Err ''unsupported normalized rule kind'')"

record rule_entry =
  re_id :: string
  re_rule_set_id :: string
  re_enabled :: bool
  re_kind :: rule_kind
  re_value :: string
  re_comment :: "string option"
  re_source_tag :: "string option"
  re_priority :: int

datatype rule_source_format = FmtText | FmtYaml | FmtMihomoClassical

definition rule_source_format_parse :: "string \<Rightarrow> rule_source_format res" where
  "rule_source_format_parse value =
     (if value = ''text'' then Ok FmtText
      else if value = ''yaml'' then Ok FmtYaml
      else if value = ''mihomo-classical'' then Ok FmtMihomoClassical
      else Err ''unsupported rule source format'')"

record rule_set_source =
  src_id :: string
  src_rule_set_id :: string
  src_url :: string
  src_format :: rule_source_format
  src_enabled :: bool
  src_refresh_interval_seconds :: u32
  src_etag :: "string option"
  src_last_modified :: "string option"
  src_last_successful_fetch :: "string option"
  src_checksum :: "string option"
  src_entry_count :: u32
  src_last_error :: "string option"
  src_cached_payload :: string

text \<open>\<open>byte.is_ascii_alphanumeric() || matches!(byte, b'-' | b'_')\<close>, the alphabet of identifiers.\<close>

definition slug_char :: "char \<Rightarrow> bool" where
  "slug_char c \<longleftrightarrow> is_alphanumeric c \<or> c = CHR ''-'' \<or> c = CHR ''_''"

subsection \<open>The validator\<close>

definition line_error :: "nat \<Rightarrow> string \<Rightarrow> string" where
  "line_error i what = ''line '' @ show_nat i @ what"

text \<open>\<open>line.split(',').map(str::trim).collect()\<close>\<close>

definition fields_of :: "string \<Rightarrow> string list" where
  "fields_of line = map trim (split_on (CHR '','') line)"

text \<open>
  The body of the loop for one line: \<open>Ok None\<close> is \<open>continue\<close>, \<open>Ok (Some line)\<close> the push.
\<close>

definition classical_line :: "nat \<Rightarrow> string \<Rightarrow> string option res" where
  "classical_line i raw = (let line = trim raw in
     if line = [] \<or> starts_with line ''#'' then Ok None
     else (case split_once (CHR '','') line of
       None \<Rightarrow> Err (line_error i '' must use TYPE,value syntax'')
     | Some (k, rest) \<Rightarrow> (let kind = trim k in
         if kind = [] \<or> trim rest = [] then Err (line_error i '' has an empty rule type or value'')
         else if kind = ''RULE-SET'' \<or> kind = ''SUB-RULE''
         then Err (line_error i '' cannot reference another rule set'')
         else if kind = ''AND'' \<or> kind = ''OR'' \<or> kind = ''NOT'' \<or> kind = ''MATCH''
         then Err (line_error i '' cannot contain a logical or catch-all rule'')
         else if kind \<notin> set CLASSICAL_CONDITION_TYPES
         then Err (line_error i '' uses an unsupported rule type'')
         else if 1024 < length line \<or> has_control line
         then Err (line_error i '' is too long or contains control characters'')
         else (let fields = fields_of line in
           if length fields = 3 \<and> eq_ignore_ascii_case (fields ! 2) ''no-resolve''
              \<and> kind \<in> set NO_RESOLVE_CONDITION_TYPES then Ok (Some line)
           else if length fields \<noteq> 2 then Err (line_error i '' must not specify a routing target'')
           else Ok (Some line)))))"

fun classical_lines :: "nat \<Rightarrow> string list \<Rightarrow> string list res" where
  "classical_lines i [] = Ok []"
| "classical_lines i (raw # raws) =
     and_then (classical_line i raw) (\<lambda>r.
     and_then (classical_lines (Suc i) raws) (\<lambda>rules.
       Ok (case r of None \<Rightarrow> rules | Some line \<Rightarrow> line # rules)))"

definition validate_classical_rule_payload :: "string \<Rightarrow> string list res" where
  "validate_classical_rule_payload payload =
     and_then (classical_lines 1 (lines payload)) (\<lambda>rules.
       if rules = [] then Err ''rule payload must contain at least one rule'' else Ok rules)"

subsection \<open>Operations\<close>

definition first_rule :: "string \<Rightarrow> string list \<Rightarrow> string res" where
  "first_rule e rules = (case rules of [] \<Rightarrow> Err e | r # _ \<Rightarrow> Ok r)"

definition rule_entry_compiled :: "rule_entry \<Rightarrow> string res" where
  "rule_entry_compiled r = (let value = trim (re_value r) in
     if re_kind r = RkClassical
     then and_then (validate_classical_rule_payload value) (first_rule ''empty classical rule'')
     else and_then (validate_classical_rule_payload (mihomo_name (re_kind r) @ '','' @ value))
            (first_rule ''empty normalized rule''))"

definition bad_text :: "nat \<Rightarrow> string option \<Rightarrow> bool" where
  "bad_text n t = (case t of None \<Rightarrow> False | Some s \<Rightarrow> n < length s \<or> has_control s)"

definition rule_entry_validate :: "rule_entry \<Rightarrow> unit res" where
  "rule_entry_validate r =
     (if re_id r = [] \<or> 64 < length (re_id r) \<or> \<not> list_all slug_char (re_id r)
      then Err ''invalid rule entry ID''
      else if re_rule_set_id r = [] \<or> 64 < length (re_rule_set_id r)
      then Err ''invalid rule-set reference''
      else if trim (re_value r) = [] \<or> 1024 < length (re_value r) \<or> has_control (re_value r)
      then Err ''invalid normalized rule value''
      else if bad_text 256 (re_comment r) \<or> bad_text 64 (re_source_tag r)
      then Err ''invalid rule entry metadata''
      else and_then (rule_entry_compiled r) (\<lambda>_. Ok ()))"

definition compiled_entries :: "rule_entry list \<Rightarrow> string list res" where
  "compiled_entries entries = collect_res (map rule_entry_compiled (filter re_enabled entries))"

definition local_rules :: "string \<Rightarrow> string list res" where
  "local_rules payload =
     (if trim payload \<noteq> [] then validate_classical_rule_payload payload else Ok [])"

fun source_rules :: "rule_set_source list \<Rightarrow> string list res" where
  "source_rules [] = Ok []"
| "source_rules (s # ss) =
     (if trim (src_cached_payload s) = [] then source_rules ss
      else and_then (validate_classical_rule_payload (src_cached_payload s)) (\<lambda>rules.
           and_then (source_rules ss) (\<lambda>more. Ok (rules @ more))))"

definition compile_rule_set_payload ::
  "rule_entry list \<Rightarrow> string \<Rightarrow> rule_set_source list \<Rightarrow> string res" where
  "compile_rule_set_payload entries local_payload sources =
     and_then (compiled_entries entries) (\<lambda>own.
     and_then (local_rules local_payload) (\<lambda>local.
     and_then (source_rules (filter src_enabled sources)) (\<lambda>remote.
       let compiled = retain_new to_ascii_lowercase [] (own @ local @ remote) in
       if compiled = [] then Err ''compiled rule set is empty''
       else Ok (join [newline] compiled))))"

definition classical_rule_with_target :: "string \<Rightarrow> string \<Rightarrow> string res" where
  "classical_rule_with_target condition target =
     (if target = [] \<or> trim target \<noteq> target \<or> CHR '','' \<in> set target \<or> has_control target
      then Err ''invalid routing target''
      else and_then (validate_classical_rule_payload condition) (\<lambda>validated.
        if length validated \<noteq> 1
        then Err ''inline routing condition must contain exactly one rule''
        else (let fields = fields_of (last validated);
                  kind = fields ! 0;
                  modifier = eq_ignore_ascii_case (last fields) ''no-resolve'' in
          if modifier \<and> kind \<notin> set NO_RESOLVE_CONDITION_TYPES
          then Err ''no-resolve is unsupported for this rule type''
          else (let kept = (if modifier then butlast fields else fields) in
            if length kept \<noteq> 2 then Err ''classical routing condition has ambiguous fields''
            else Ok (join '','' ([kept ! 0, kept ! 1, target]
                                 @ (if modifier then [''no-resolve''] else [])))))))"

definition CUSTOM_DIRECT_SLUG :: string where
  "CUSTOM_DIRECT_SLUG = ''custom-direct''"

definition ROUTING_TARGETS :: "string list" where
  "ROUTING_TARGETS =
     [''DIRECT'', ''SMART-AUTO'', ''FAST-AUTO'', ''REST-AUTO'', ''MANUAL'', ''REJECT'']"

record default_rule_set =
  drs_slug :: string
  drs_title :: string
  drs_effect :: string
  drs_target :: string
  drs_enabled :: bool
  drs_payload :: "string list"

definition DEFAULT_RULE_SETS :: "default_rule_set list" where
  "DEFAULT_RULE_SETS =
     [\<lparr>drs_slug = CUSTOM_DIRECT_SLUG, drs_title = ''Manual DIRECT exceptions'',
       drs_effect = ''Operator-managed exceptions evaluated before Russian geodata.'',
       drs_target = ''DIRECT'', drs_enabled = False, drs_payload = []\<rparr>]"

definition default_routing_rule_sets :: "routing_rule_set list" where
  "default_routing_rule_sets =
     map (\<lambda>d. \<lparr>rs_slug = drs_slug d, rs_title = drs_title d, rs_effect = drs_effect d,
                rs_target = drs_target d, rs_enabled = drs_enabled d,
                rs_payload = join [newline] (drs_payload d)\<rparr>) DEFAULT_RULE_SETS"

definition default_routing_rule_set :: "string \<Rightarrow> default_rule_set option" where
  "default_routing_rule_set slug = List.find (\<lambda>d. drs_slug d = slug) DEFAULT_RULE_SETS"

definition is_valid_routing_target :: "string \<Rightarrow> bool" where
  "is_valid_routing_target target \<longleftrightarrow> target \<in> set ROUTING_TARGETS"

definition routing_rule_payload_yaml :: "(string list \<Rightarrow> string res) \<Rightarrow> string \<Rightarrow> string res" where
  "routing_rule_payload_yaml to_yaml payload =
     and_then (validate_classical_rule_payload payload) to_yaml"

subsection \<open>What a validated rule is\<close>

text \<open>
  The declarative reading of one accepted line: trimmed, bounded, free of control characters,
  a known condition type, and either \<open>TYPE,value\<close> or \<open>TYPE,value,no-resolve\<close>.
\<close>

definition classical_rule :: "string \<Rightarrow> bool" where
  "classical_rule l \<longleftrightarrow>
     trim l = l \<and> \<not> has_control l \<and> length l \<le> 1024 \<and>
     (\<exists>k rest. l = k @ CHR '','' # rest \<and> CHR '','' \<notin> set k \<and> trim rest \<noteq> [] \<and>
        trim k \<in> set CLASSICAL_CONDITION_TYPES \<and>
        (CHR '','' \<notin> set rest
         \<or> trim k \<in> set NO_RESOLVE_CONDITION_TYPES
           \<and> (\<exists>v m. rest = v @ CHR '','' # m \<and> CHR '','' \<notin> set v \<and> CHR '','' \<notin> set m
                  \<and> eq_ignore_ascii_case (trim m) ''no-resolve'')))"

lemma condition_types_plain:
  "k \<in> set CLASSICAL_CONDITION_TYPES \<Longrightarrow>
     k \<noteq> [] \<and> k \<noteq> ''RULE-SET'' \<and> k \<noteq> ''SUB-RULE'' \<and> k \<noteq> ''AND'' \<and> k \<noteq> ''OR'' \<and> k \<noteq> ''NOT''
     \<and> k \<noteq> ''MATCH'' \<and> hd k \<noteq> CHR ''#''"
  by (auto simp: CLASSICAL_CONDITION_TYPES_def)

lemma no_resolve_types_classical:
  "set NO_RESOLVE_CONDITION_TYPES \<subseteq> set CLASSICAL_CONDITION_TYPES"
  by (auto simp: NO_RESOLVE_CONDITION_TYPES_def CLASSICAL_CONDITION_TYPES_def)

definition skipped_line :: "string \<Rightarrow> bool" where
  "skipped_line l \<longleftrightarrow> l = [] \<or> starts_with l ''#''"

lemma split_on_single: "split_on d s = [a] \<longleftrightarrow> a = s \<and> d \<notin> set s"
  by (subst split_on_split_once) (auto simp: split_once_None split_once_Some split: option.splits)

lemma split_on_two: "split_on d s = [a, b] \<longleftrightarrow> s = a @ d # b \<and> d \<notin> set a \<and> d \<notin> set b"
proof -
  have "split_on d s = [a, b] \<longleftrightarrow>
      (\<exists>r. split_once d s = Some (a, r) \<and> split_on d r = [b])"
    by (subst split_on_split_once) (auto split: option.splits)
  then show ?thesis by (auto simp: split_on_single split_once_Some)
qed

lemma fields_len2:
  "d \<notin> set k \<Longrightarrow> length (split_on d (k @ d # r)) = 2 \<longleftrightarrow> d \<notin> set r"
proof -
  have "length (split_on d r) = 1 \<longleftrightarrow> d \<notin> set r"
    by (metis One_nat_def length_0_conv length_Suc_conv split_on_single)
  then show "d \<notin> set k \<Longrightarrow> ?thesis" by (simp add: split_on_append)
qed

lemma fields_len3:
  "d \<notin> set k \<Longrightarrow> length (split_on d (k @ d # r)) = 3 \<longleftrightarrow>
     (\<exists>v m. r = v @ d # m \<and> d \<notin> set v \<and> d \<notin> set m)"
proof -
  have "length (split_on d r) = 2 \<longleftrightarrow> (\<exists>v m. split_on d r = [v, m])"
    by (auto simp: numeral_2_eq_2 length_Suc_conv)
  then show "d \<notin> set k \<Longrightarrow> ?thesis" by (simp add: split_on_append split_on_two)
qed

lemma fields_third:
  "d \<notin> set k \<Longrightarrow> d \<notin> set v \<Longrightarrow> d \<notin> set m \<Longrightarrow> split_on d (k @ d # v @ d # m) = [k, v, m]"
  by (simp add: split_on_append split_on_none)

text \<open>The accepted shapes of the fields, as one predicate.\<close>

definition field_shape :: "string \<Rightarrow> string \<Rightarrow> bool" where
  "field_shape k rest \<longleftrightarrow>
     CHR '','' \<notin> set rest
     \<or> trim k \<in> set NO_RESOLVE_CONDITION_TYPES
       \<and> (\<exists>v m. rest = v @ CHR '','' # m \<and> CHR '','' \<notin> set v \<and> CHR '','' \<notin> set m
              \<and> eq_ignore_ascii_case (trim m) ''no-resolve'')"

lemma field_shape_code:
  assumes "CHR '','' \<notin> set k"
  shows "(length (fields_of (k @ CHR '','' # rest)) = 3
           \<and> eq_ignore_ascii_case (fields_of (k @ CHR '','' # rest) ! 2) ''no-resolve''
           \<and> trim k \<in> set NO_RESOLVE_CONDITION_TYPES
          \<or> length (fields_of (k @ CHR '','' # rest)) = 2) \<longleftrightarrow> field_shape k rest"
    (is "?three \<or> ?two \<longleftrightarrow> _")
proof -
  have two: "?two \<longleftrightarrow> CHR '','' \<notin> set rest"
    using assms by (simp add: fields_of_def fields_len2)
  have three: "?three \<longleftrightarrow> trim k \<in> set NO_RESOLVE_CONDITION_TYPES
       \<and> (\<exists>v m. rest = v @ CHR '','' # m \<and> CHR '','' \<notin> set v \<and> CHR '','' \<notin> set m
              \<and> eq_ignore_ascii_case (trim m) ''no-resolve'')" (is "_ \<longleftrightarrow> ?r")
  proof
    assume t: ?three
    then obtain v m where vm: "rest = v @ CHR '','' # m" "CHR '','' \<notin> set v" "CHR '','' \<notin> set m"
      using fields_len3 [OF assms] by (auto simp: fields_of_def)
    have "fields_of (k @ CHR '','' # rest) ! 2 = trim m"
      using vm assms by (simp add: fields_of_def fields_third)
    with t vm show ?r by auto
  next
    assume r: ?r
    then obtain v m where vm: "rest = v @ CHR '','' # m" "CHR '','' \<notin> set v" "CHR '','' \<notin> set m"
      "eq_ignore_ascii_case (trim m) ''no-resolve''" by blast
    then show ?three
      using r assms by (simp add: fields_of_def fields_third)
  qed
  show ?thesis unfolding two three field_shape_def by blast
qed

lemma classical_rule_alt:
  "classical_rule l \<longleftrightarrow>
     trim l = l \<and> \<not> has_control l \<and> length l \<le> 1024 \<and>
     (\<exists>k rest. split_once (CHR '','') l = Some (k, rest) \<and> trim rest \<noteq> [] \<and>
        trim k \<in> set CLASSICAL_CONDITION_TYPES \<and> field_shape k rest)"
  by (auto simp: classical_rule_def split_once_Some field_shape_def)

lemma classical_rule_not_skipped: "classical_rule l \<Longrightarrow> \<not> skipped_line l"
proof
  assume cr: "classical_rule l" and "skipped_line l"
  then have sw: "starts_with l ''#''" by (auto simp: skipped_line_def classical_rule_def)
  obtain k rest where l: "l = k @ CHR '','' # rest" and ty: "trim k \<in> set CLASSICAL_CONDITION_TYPES"
    and tl: "trim l = l" using cr by (auto simp: classical_rule_def)
  have ne: "trim k \<noteq> []" using condition_types_plain [OF ty] by simp
  have "ws_len l = 0" using tl by (simp add: trim_eq_iff)
  then have "ws_len (take (length k) l) = 0" by (rule ws_len_take)
  then have "ws_len k = 0" using l by simp
  then have "trim k = trim_end k" by (simp add: trim_def trim_start_def strip_ws_id)
  then obtain n where n: "trim k = take n k" using trim_end_take by metis
  then have "hd (trim k) = hd k" "k \<noteq> []" using ne by (auto simp: hd_conv_nth)
  moreover have "hd k = CHR ''#''"
    using sw l \<open>k \<noteq> []\<close> by (cases k) (auto simp: starts_with_def)
  ultimately show False using condition_types_plain [OF ty] by simp
qed

lemma classical_line_Some: "classical_line i raw = Inr (Some l) \<longleftrightarrow> l = trim raw \<and> classical_rule l"
proof (cases "skipped_line (trim raw)")
  case True
  then show ?thesis
    using classical_rule_not_skipped [of "trim raw"]
    by (auto simp: classical_line_def Let_def skipped_line_def)
next
  case False
  show ?thesis
  proof (cases "split_once (CHR '','') (trim raw)")
    case None
    then show ?thesis using False
      by (auto simp: classical_line_def Let_def classical_rule_alt)
  next
    case (Some kr)
    obtain k rest where kr: "kr = (k, rest)" by (cases kr)
    have sp: "trim raw = k @ CHR '','' # rest" "CHR '','' \<notin> set k"
      using Some kr by (simp_all add: split_once_Some)
    show ?thesis
      using False Some condition_types_plain [of "trim k"] field_shape_code [OF sp(2), of rest]
      unfolding classical_rule_alt
      by (auto simp: classical_line_def Let_def skipped_line_def kr sp(1) [symmetric] split: if_splits)
  qed
qed

lemma classical_line_None: "classical_line i raw = Inr None \<longleftrightarrow> skipped_line (trim raw)"
proof (cases "skipped_line (trim raw)")
  case True
  then show ?thesis by (simp add: classical_line_def Let_def skipped_line_def)
next
  case False
  then show ?thesis
    by (simp add: classical_line_def Let_def skipped_line_def split: option.split prod.split)
qed

lemma classical_lines_Inr:
  "classical_lines i raws = Inr rules \<longleftrightarrow>
     (\<forall>raw \<in> set raws. skipped_line (trim raw) \<or> classical_rule (trim raw))
     \<and> rules = filter (\<lambda>l. \<not> skipped_line l) (map trim raws)"
proof (induction raws arbitrary: i rules)
  case Nil
  then show ?case by auto
next
  case (Cons raw raws)
  have "classical_line i raw = Inr None \<or> (\<exists>l. classical_line i raw = Inr (Some l))
        \<or> (\<exists>e. classical_line i raw = Inl e)"
    by (metis option.exhaust obj_sumE)
  then consider (skip) "skipped_line (trim raw)" "classical_line i raw = Inr None"
    | (rule) "classical_rule (trim raw)" "classical_line i raw = Inr (Some (trim raw))"
    | (err) e where "classical_line i raw = Inl e" "\<not> skipped_line (trim raw)" "\<not> classical_rule (trim raw)"
    by (metis classical_line_None classical_line_Some sum.distinct(1))
  then show ?case
  proof cases
    case skip
    then show ?thesis by (auto simp: and_then_Inr_iff Cons.IH)
  next
    case rule
    then show ?thesis
      using classical_rule_not_skipped [OF rule(1)] by (auto simp: and_then_Inr_iff Cons.IH)
  next
    case err
    then show ?thesis by simp
  qed
qed

lemma validate_payload_Inr:
  "validate_classical_rule_payload p = Inr rules \<longleftrightarrow>
     (\<forall>raw \<in> set (lines p). skipped_line (trim raw) \<or> classical_rule (trim raw))
     \<and> rules = filter (\<lambda>l. \<not> skipped_line l) (map trim (lines p)) \<and> rules \<noteq> []"
  by (auto simp: validate_classical_rule_payload_def and_then_Inr_iff classical_lines_Inr
      split: if_splits)

lemma validate_payload_rules:
  "validate_classical_rule_payload p = Inr rules \<Longrightarrow> rules \<noteq> [] \<and> (\<forall>l \<in> set rules. classical_rule l)"
  by (auto simp: validate_payload_Inr)

lemma has_control_mem: "c \<in> set s \<Longrightarrow> is_ascii_control c \<Longrightarrow> has_control s"
  by (induction s) auto

lemma newline_control: "is_ascii_control newline"
  by (simp add: newline_def is_ascii_control_def byte_def)

text \<open>Validated rules are a fixed point: joined back into a payload they validate to themselves.\<close>

lemma validate_rejoined:
  assumes "rules \<noteq> []" and "\<forall>l \<in> set rules. classical_rule l"
  shows "lines (join [newline] rules) = rules"
    and "validate_classical_rule_payload (join [newline] rules) = Inr rules"
proof -
  have nl: "newline \<notin> set l" if "l \<in> set rules" for l
    using that assms(2) has_control_mem [OF _ newline_control] by (auto simp: classical_rule_def)
  have ne: "l \<noteq> []" and trimmed: "trim l = l" and ns: "\<not> skipped_line l" if "l \<in> set rules" for l
    using that assms(2) classical_rule_not_skipped
    by (auto simp: classical_rule_def skipped_line_def)
  show ls: "lines (join [newline] rules) = rules"
    using assms(1) nl ne trimmed_last_not_cr [OF trimmed] by (intro lines_join) auto
  have "map trim rules = rules" using trimmed by (intro map_idI)
  then show "validate_classical_rule_payload (join [newline] rules) = Inr rules"
    using assms ns by (auto simp: validate_payload_Inr ls filter_id_conv trimmed)
qed

subsection \<open>Compilation\<close>

lemma first_rule_Inr: "first_rule e rules = Inr l \<longleftrightarrow> (\<exists>more. rules = l # more)"
  by (auto simp: first_rule_def split: list.splits)

lemma rule_entry_compiled_rule:
  assumes "rule_entry_compiled r = Inr l"
  shows "classical_rule l"
proof -
  obtain p more where "validate_classical_rule_payload p = Inr (l # more)"
    using assms
    by (auto simp: rule_entry_compiled_def Let_def and_then_Inr_iff first_rule_Inr split: if_splits)
  then show ?thesis using validate_payload_rules by fastforce
qed

lemma compiled_entries_rules:
  "compiled_entries es = Inr own \<Longrightarrow> l \<in> set own \<Longrightarrow> classical_rule l"
  unfolding compiled_entries_def using rule_entry_compiled_rule by (metis collect_res_in)

lemma local_rules_rules: "local_rules p = Inr rules \<Longrightarrow> l \<in> set rules \<Longrightarrow> classical_rule l"
  using validate_payload_rules by (auto simp: local_rules_def split: if_splits)

lemma source_rules_rules: "source_rules ss = Inr rules \<Longrightarrow> l \<in> set rules \<Longrightarrow> classical_rule l"
proof (induction ss arbitrary: rules)
  case Nil
  then show ?case by simp
next
  case (Cons s ss)
  then show ?case
    using validate_payload_rules by (fastforce simp: and_then_Inr_iff split: if_splits)
qed

lemma compile_Inr:
  assumes "compile_rule_set_payload entries payload sources = Inr p"
  obtains own loc remote compiled where
    "compiled_entries entries = Inr own" "local_rules payload = Inr loc"
    "source_rules (filter src_enabled sources) = Inr remote"
    "compiled = retain_new to_ascii_lowercase [] (own @ loc @ remote)" "compiled \<noteq> []"
    "p = join [newline] compiled" "lines p = compiled"
    "validate_classical_rule_payload p = Inr compiled"
proof -
  obtain own loc remote where o: "compiled_entries entries = Inr own"
    and l: "local_rules payload = Inr loc"
    and r: "source_rules (filter src_enabled sources) = Inr remote"
    and p: "p = join [newline] (retain_new to_ascii_lowercase [] (own @ loc @ remote))"
    and ne: "retain_new to_ascii_lowercase [] (own @ loc @ remote) \<noteq> []"
    using assms by (auto simp: compile_rule_set_payload_def and_then_Inr_iff Let_def split: if_splits)
  let ?c = "retain_new to_ascii_lowercase [] (own @ loc @ remote)"
  have "\<forall>x \<in> set ?c. classical_rule x"
    using retain_new_subset [of to_ascii_lowercase "[]" "own @ loc @ remote"]
      compiled_entries_rules [OF o] local_rules_rules [OF l] source_rules_rules [OF r] by auto
  from validate_rejoined [OF ne this] show ?thesis
    using that o l r p ne by blast
qed

lemma eq_ignore_case_sym: "eq_ignore_ascii_case s t \<longleftrightarrow> eq_ignore_ascii_case t s"
  by (auto simp: eq_ignore_ascii_case_def)

text \<open>The fields of an accepted rule, ready for the target to be put in.\<close>

lemma classical_rule_fields:
  assumes "classical_rule l"
  shows "(\<exists>k v. fields_of l = [k, v] \<and> k \<in> set CLASSICAL_CONDITION_TYPES \<and> v \<noteq> [])
       \<or> (\<exists>k v m. fields_of l = [k, v, m] \<and> k \<in> set NO_RESOLVE_CONDITION_TYPES
                  \<and> eq_ignore_ascii_case m ''no-resolve'')"
proof -
  obtain k rest where kr: "l = k @ CHR '','' # rest" "CHR '','' \<notin> set k" "trim rest \<noteq> []"
    "trim k \<in> set CLASSICAL_CONDITION_TYPES" "field_shape k rest"
    using assms by (auto simp: classical_rule_alt split_once_Some)
  then show ?thesis
    by (auto simp: field_shape_def fields_of_def split_on_append split_on_none)
qed

end
