(* ===== verification/Policy.thy ===== *)
theory Policy
  imports Rules Digraph
begin

text \<open>
  \<open>policy.rs\<close>: the DNS policy, the client policy of transport pools and inline routing rules, its
  validation, and the resolution of selectors to Mihomo names. A \<open>BTreeSet\<close> that is only asked
  for membership or size is a list. \<open>str::parse::<IpAddr>\<close> of the standard library is written out as
  the recursive-descent reader it is: each \<open>read_*\<close> returns the unread rest.
\<close>

datatype pool_kind = PkSelect | PkUrlTest | PkFallback | PkLoadBalance

definition pool_kind_name :: "pool_kind \<Rightarrow> string" where
  "pool_kind_name k = (case k of PkSelect \<Rightarrow> ''select'' | PkUrlTest \<Rightarrow> ''url-test''
     | PkFallback \<Rightarrow> ''fallback'' | PkLoadBalance \<Rightarrow> ''load-balance'')"

datatype pool_member =
    MProfile string
  | MCapability string
  | MRole proxy_role
  | MAllExceptRole proxy_role
  | MPool string
  | MAllProfiles
  | MDirect
  | MReject

record transport_pool =
  tp_id :: string
  tp_display_name :: string
  tp_kind :: pool_kind
  tp_enabled :: bool
  tp_members :: "pool_member list"
  tp_test_url :: "string option"
  tp_interval_seconds :: "u32 option"
  tp_timeout_ms :: "u32 option"
  tp_tolerance_ms :: "u32 option"
  tp_max_failures :: "u32 option"
  tp_lazy :: bool
  tp_minimum_healthy_count :: "u32 option"
  tp_fallback_pool :: "string option"
  tp_priority :: int
  tp_strategy :: "string option"

record routing_policy_rule =
  rr_id :: string
  rr_display_name :: string
  rr_enabled :: bool
  rr_priority :: int
  rr_condition :: string
  rr_target :: string

record client_policy =
  cp_pools :: "transport_pool list"
  cp_rules :: "routing_policy_rule list"

record dns_policy =
  dp_enabled :: bool
  dp_ipv6 :: bool
  dp_enhanced_mode :: string
  dp_respect_rules :: bool
  dp_bootstrap_resolvers :: "string list"
  dp_remote_resolvers :: "string list"
  dp_direct_resolvers :: "string list"

subsection \<open>IP addresses, as \<open>std::net\<close> reads them\<close>

fun take_digits :: "(char \<Rightarrow> bool) \<Rightarrow> string \<Rightarrow> string \<times> string" where
  "take_digits P [] = ([], [])"
| "take_digits P (c # cs) =
     (if P c then (let (ds, rest) = take_digits P cs in (c # ds, rest)) else ([], c # cs))"

text \<open>\<open>read_number(10, Some(3), false)\<close> at \<open>u8\<close>, and \<open>read_number(16, Some(4), true)\<close> at \<open>u16\<close>.\<close>

definition read_octet :: "string \<Rightarrow> string option" where
  "read_octet s = (let (ds, rest) = take_digits is_digit s in
     if ds = [] \<or> 3 < length ds \<or> 255 < parse_digits ds
        \<or> (hd ds = CHR ''0'' \<and> 1 < length ds) then None
     else Some rest)"

definition read_group :: "string \<Rightarrow> string option" where
  "read_group s = (let (ds, rest) = take_digits is_hexdigit s in
     if ds = [] \<or> 4 < length ds then None else Some rest)"

definition read_char :: "char \<Rightarrow> string \<Rightarrow> string option" where
  "read_char d s = (case s of [] \<Rightarrow> None | c # cs \<Rightarrow> if c = d then Some cs else None)"

text \<open>\<open>read_separator\<close>: the separator comes before every element but the first.\<close>

definition read_separator :: "char \<Rightarrow> nat \<Rightarrow> (string \<Rightarrow> string option) \<Rightarrow> string \<Rightarrow> string option" where
  "read_separator d i inner s =
     (if 0 < i then Option.bind (read_char d s) inner else inner s)"

definition read_ipv4 :: "string \<Rightarrow> string option" where
  "read_ipv4 s =
     Option.bind (read_separator (CHR ''.'') 0 read_octet s) (\<lambda>a.
     Option.bind (read_separator (CHR ''.'') 1 read_octet a) (\<lambda>b.
     Option.bind (read_separator (CHR ''.'') 2 read_octet b) (\<lambda>c.
     read_separator (CHR ''.'') 3 read_octet c)))"

text \<open>
  \<open>read_groups\<close> over a buffer of \<open>limit\<close> groups, from group \<open>i\<close> on with \<open>n\<close> still to fill: the number
  of groups read, whether the last two came from an embedded IPv4 address, and the rest.
\<close>

fun read_groups :: "nat \<Rightarrow> nat \<Rightarrow> nat \<Rightarrow> string \<Rightarrow> nat \<times> bool \<times> string" where
  "read_groups limit 0 i s = (limit, False, s)"
| "read_groups limit (Suc n) i s =
     (case (if i + 1 < limit then read_separator (CHR '':'') i read_ipv4 s else None) of
        Some rest \<Rightarrow> (i + 2, True, rest)
      | None \<Rightarrow>
        (case read_separator (CHR '':'') i read_group s of
           Some rest \<Rightarrow> read_groups limit n (Suc i) rest
         | None \<Rightarrow> (i, False, s)))"

definition read_ipv6 :: "string \<Rightarrow> string option" where
  "read_ipv6 s = (let (head_size, head_ipv4, rest) = read_groups 8 8 0 s in
     if head_size = 8 then Some rest
     else if head_ipv4 then None
     else Option.bind (read_char (CHR '':'') rest) (\<lambda>r.
          Option.bind (read_char (CHR '':'') r) (\<lambda>r2.
          let limit = 8 - (head_size + 1) in Some (snd (snd (read_groups limit limit 0 r2))))))"

definition is_ip_addr :: "string \<Rightarrow> bool" where
  "is_ip_addr s \<longleftrightarrow> read_ipv4 s = Some [] \<or> (read_ipv4 s = None \<and> read_ipv6 s = Some [])"

subsection \<open>DNS policy\<close>

definition resolver_ok :: "string \<Rightarrow> bool" where
  "resolver_ok r \<longleftrightarrow>
     \<not> (r = [] \<or> 256 < length r \<or> has_control r
        \<or> \<not> (r = ''system'' \<or> is_ip_addr r
             \<or> list_ex (starts_with r) [''https://'', ''tls://'', ''quic://'', ''udp://'', ''tcp://'']))"

definition dns_policy_validate :: "dns_policy \<Rightarrow> unit res" where
  "dns_policy_validate p =
     (if \<not> (dp_enhanced_mode p = ''redir-host'' \<or> dp_enhanced_mode p = ''fake-ip'')
      then Err ''unsupported DNS enhanced mode''
      else and_then (each_res (\<lambda>r. if resolver_ok r then Ok () else Err ''invalid DNS resolver'')
             (dp_bootstrap_resolvers p @ dp_remote_resolvers p @ dp_direct_resolvers p)) (\<lambda>_.
        if dp_enabled p \<and> (dp_bootstrap_resolvers p = [] \<or> dp_remote_resolvers p = []
                           \<or> dp_direct_resolvers p = [])
        then Err ''enabled DNS policy requires bootstrap, remote, and direct resolvers''
        else Ok ()))"

definition default_dns_policy :: dns_policy where
  "default_dns_policy =
     \<lparr>dp_enabled = True, dp_ipv6 = False, dp_enhanced_mode = ''redir-host'', dp_respect_rules = True,
      dp_bootstrap_resolvers = [''1.1.1.1'', ''9.9.9.9''],
      dp_remote_resolvers =
        [''https://cloudflare-dns.com/dns-query'', ''https://dns.quad9.net/dns-query''],
      dp_direct_resolvers = [''system'']\<rparr>"

subsection \<open>Cycles among pools\<close>

definition enabled_pool :: "transport_pool list \<Rightarrow> string \<Rightarrow> transport_pool option" where
  "enabled_pool pools i = List.find (\<lambda>p. tp_enabled p \<and> tp_id p = i) pools"

definition member_pools :: "pool_member \<Rightarrow> string option" where
  "member_pools m = (case m of MPool i \<Rightarrow> Some i | _ \<Rightarrow> None)"

definition pool_children :: "transport_pool \<Rightarrow> string list" where
  "pool_children p =
     List.map_filter member_pools (tp_members p)
     @ (case tp_fallback_pool p of None \<Rightarrow> [] | Some f \<Rightarrow> [f])"

lemma each_res_cong [fundef_cong]:
  "xs = ys \<Longrightarrow> (\<And>x. x \<in> set ys \<Longrightarrow> f x = g x) \<Longrightarrow> each_res f xs = each_res g ys"
  by (induction xs arbitrary: ys) auto

text \<open>
  The mutable \<open>visiting\<close> set is passed down. A call that succeeds removes the identifier it
  inserted, so its caller goes on with the set it had, and a call that fails ends the search:
  the argument is the set at every point where the code reads it.
\<close>

function detect_cycle :: "transport_pool list \<Rightarrow> string \<Rightarrow> string list \<Rightarrow> string \<Rightarrow> unit res" where
  "detect_cycle pools root visiting current =
     (case enabled_pool pools current of
        None \<Rightarrow> Ok ()
      | Some pool \<Rightarrow>
          if tp_id pool \<in> set visiting then Err ''transport pool references contain a cycle''
          else each_res (\<lambda>child.
                 if child = root then Err ''transport pool references contain a cycle''
                 else detect_cycle pools root (tp_id pool # visiting) child)
               (pool_children pool))"
  by pat_completeness auto

lemma enabled_pool_Some:
  "enabled_pool pools i = Some p \<Longrightarrow> p \<in> set pools \<and> tp_enabled p \<and> tp_id p = i"
  by (auto simp: enabled_pool_def dest: find_Some_mem)

termination detect_cycle
proof (relation "measure (\<lambda>(pools, root, visiting, current). card (tp_id ` set pools - set visiting))",
    simp, clarsimp)
  fix pools :: "transport_pool list" and visiting current pool
  assume "enabled_pool pools current = Some pool" and new: "tp_id pool \<notin> set visiting"
  then have "tp_id pool \<in> tp_id ` set pools"
    by (auto dest: enabled_pool_Some)
  with new show "card (tp_id ` set pools - insert (tp_id pool) (set visiting))
      < card (tp_id ` set pools - set visiting)"
    by (intro psubset_card_mono) auto
qed

declare detect_cycle.simps [simp del]

subsection \<open>Client policy\<close>

definition validate_policy_id :: "string \<Rightarrow> unit res" where
  "validate_policy_id v =
     (if v = [] \<or> 64 < length v \<or> \<not> list_all slug_char v then Err ''invalid policy identity'' else Ok ())"

definition enabled_profile_names :: "protocol_profile list \<Rightarrow> string list" where
  "enabled_profile_names profiles = map pr_name (filter pr_enabled profiles)"

definition has_capability :: "protocol_profile list \<Rightarrow> string \<Rightarrow> bool" where
  "has_capability profiles i \<longleftrightarrow> list_ex (\<lambda>p. pr_enabled p \<and> pr_protocol_id p = i) profiles"

definition enabled_pool_ids :: "client_policy \<Rightarrow> string list" where
  "enabled_pool_ids cp = map tp_id (filter tp_enabled (cp_pools cp))"

definition named_ok :: "string \<Rightarrow> string \<Rightarrow> string \<Rightarrow> unit res" where
  "named_ok e i display =
     and_then (validate_policy_id i) (\<lambda>_.
       if trim display = [] \<or> 80 < length display then Err e else Ok ())"

definition member_check :: "string list \<Rightarrow> protocol_profile list \<Rightarrow> pool_member \<Rightarrow> unit res" where
  "member_check pool_ids profiles m = (case m of
       MProfile i \<Rightarrow> if i \<in> set (enabled_profile_names profiles) then Ok ()
         else Err ''transport pool references an unavailable profile''
     | MCapability i \<Rightarrow> if has_capability profiles i then Ok ()
         else Err ''transport pool capability selector resolves to no profile''
     | MPool i \<Rightarrow> if i \<in> set pool_ids then Ok ()
         else Err ''transport pool references an unavailable pool''
     | _ \<Rightarrow> Ok ())"

definition pool_check :: "client_policy \<Rightarrow> protocol_profile list \<Rightarrow> transport_pool \<Rightarrow> unit res" where
  "pool_check cp profiles pool = (let pool_ids = enabled_pool_ids cp in
     if tp_members pool = [] then Err ''transport pool must contain at least one member''
     else and_then (each_res (member_check pool_ids profiles) (tp_members pool)) (\<lambda>_.
       if (case tp_fallback_pool pool of None \<Rightarrow> False
           | Some f \<Rightarrow> f = tp_id pool \<or> f \<notin> set pool_ids)
       then Err ''transport pool fallback reference is invalid''
       else if tp_timeout_ms pool = Some 0 \<or> tp_interval_seconds pool = Some 0
               \<or> tp_max_failures pool = Some 0 \<or> tp_minimum_healthy_count pool = Some 0
       then Err ''transport pool numeric limits must be positive''
       else if (case tp_test_url pool of None \<Rightarrow> False
                | Some url \<Rightarrow> \<not> starts_with url ''https://'' \<or> 512 < length url \<or> has_control url)
       then Err ''transport pool health URL must be bounded HTTPS''
       else if (case tp_strategy pool of None \<Rightarrow> False
                | Some st \<Rightarrow> \<not> (st = ''round-robin'' \<or> st = ''consistent-hashing''
                                \<or> st = ''sticky-sessions''))
       then Err ''unsupported load-balance strategy''
       else detect_cycle (cp_pools cp) (tp_id pool) [] (tp_id pool)))"

definition rule_target_valid :: "client_policy \<Rightarrow> protocol_profile list \<Rightarrow> string \<Rightarrow> bool" where
  "rule_target_valid cp profiles target \<longleftrightarrow>
     target = ''DIRECT'' \<or> target = ''REJECT'' \<or> target \<in> set (enabled_pool_ids cp)
     \<or> target \<in> set (enabled_profile_names profiles)
     \<or> (case strip_prefix ''capability:'' target of None \<Rightarrow> False
        | Some capability \<Rightarrow> has_capability profiles capability)"

definition policy_rule_check ::
  "client_policy \<Rightarrow> protocol_profile list \<Rightarrow> routing_policy_rule \<Rightarrow> unit res" where
  "policy_rule_check cp profiles r =
     and_then (named_ok ''routing policy display name is invalid'' (rr_id r) (rr_display_name r)) (\<lambda>_.
       if \<not> rr_enabled r then Ok ()
       else if trim (rr_condition r) = [] \<or> newline \<in> set (rr_condition r)
       then Err ''routing policy condition is invalid''
       else and_then (if trim (rr_condition r) \<noteq> ''MATCH''
                      then classical_rule_with_target (trim (rr_condition r)) (rr_target r)
                      else Ok []) (\<lambda>_.
         if \<not> rule_target_valid cp profiles (rr_target r)
         then Err ''routing policy references an unavailable target'' else Ok ()))"

definition client_policy_validate :: "client_policy \<Rightarrow> protocol_profile list \<Rightarrow> unit res" where
  "client_policy_validate cp profiles =
     (if length (remdups (map tp_id (cp_pools cp))) \<noteq> length (cp_pools cp)
      then Err ''transport pool IDs must be unique''
      else and_then (each_res (\<lambda>p. named_ok ''transport pool display name is invalid''
                                     (tp_id p) (tp_display_name p)) (cp_pools cp)) (\<lambda>_.
           and_then (each_res (pool_check cp profiles) (filter tp_enabled (cp_pools cp))) (\<lambda>_.
             if length (remdups (map rr_id (cp_rules cp))) \<noteq> length (cp_rules cp)
             then Err ''routing policy IDs must be unique''
             else each_res (policy_rule_check cp profiles) (cp_rules cp))))"

definition resolve_member :: "protocol_profile list \<Rightarrow> pool_member \<Rightarrow> string list" where
  "resolve_member enabled m = (case m of
       MProfile i \<Rightarrow> [i]
     | MPool i \<Rightarrow> [i]
     | MCapability c \<Rightarrow> map pr_name (filter (\<lambda>p. pr_protocol_id p = c) enabled)
     | MRole r \<Rightarrow> map pr_name (filter (\<lambda>p. pr_role p = r) enabled)
     | MAllExceptRole r \<Rightarrow> map pr_name (filter (\<lambda>p. pr_role p \<noteq> r) enabled)
     | MAllProfiles \<Rightarrow> map pr_name enabled
     | MDirect \<Rightarrow> [''DIRECT'']
     | MReject \<Rightarrow> [''REJECT''])"

definition resolve_pool ::
  "protocol_profile list \<Rightarrow> transport_pool \<Rightarrow> (transport_pool \<times> string list) res" where
  "resolve_pool enabled pool =
     (let members = retain_new id [] (concat (map (resolve_member enabled) (tp_members pool))) in
      if members = [] then Err ''transport pool resolves to no members'' else Ok (pool, members))"

definition resolved_pools ::
  "client_policy \<Rightarrow> protocol_profile list \<Rightarrow> (transport_pool \<times> string list) list res" where
  "resolved_pools cp profiles =
     and_then (client_policy_validate cp profiles) (\<lambda>_.
       collect_res (map (resolve_pool (filter pr_enabled profiles))
                        (filter tp_enabled (cp_pools cp))))"

definition resolve_rule :: "protocol_profile list \<Rightarrow> routing_policy_rule \<Rightarrow> (string \<times> string) res" where
  "resolve_rule profiles r =
     and_then (case strip_prefix ''capability:'' (rr_target r) of
         Some capability \<Rightarrow>
           ok_or ''routing capability has no profile''
             (map_option pr_name
                (List.find (\<lambda>p. pr_enabled p \<and> pr_protocol_id p = capability) profiles))
       | None \<Rightarrow> Ok (rr_target r))
     (\<lambda>target. Ok (rr_condition r, target))"

definition resolved_rules ::
  "client_policy \<Rightarrow> protocol_profile list \<Rightarrow> (string \<times> string) list res" where
  "resolved_rules cp profiles =
     and_then (client_policy_validate cp profiles) (\<lambda>_.
       collect_res (map (resolve_rule profiles)
                        (sort_key rr_priority (filter rr_enabled (cp_rules cp)))))"

subsection \<open>The built-in policy\<close>

definition DEFAULT_DIRECT_GEOSITE_CATEGORIES :: "string list" where
  "DEFAULT_DIRECT_GEOSITE_CATEGORIES =
     [''private'', ''category-ru-whitelist'', ''category-gov-ru'', ''ru-banks'', ''ru-payments'',
      ''ru-finance'', ''ru-marking'', ''ru-cdn'', ''ru-retail-extra'', ''ru-transport'', ''ru-tv'',
      ''yandex'', ''mailru-group'', ''vk'', ''ozon'', ''wildberries'', ''x5'', ''avito'', ''dzen'',
      ''rutube'', ''ok'', ''okko'', ''wink'', ''2gis'']"

definition automatic_pool ::
  "string \<Rightarrow> pool_kind \<Rightarrow> pool_member list \<Rightarrow> u32 \<Rightarrow> u32 option \<Rightarrow> int \<Rightarrow> transport_pool" where
  "automatic_pool i kind members timeout tolerance priority =
     \<lparr>tp_id = i, tp_display_name = i, tp_kind = kind, tp_enabled = True, tp_members = members,
      tp_test_url = Some ''https://www.gstatic.com/generate_204'', tp_interval_seconds = Some 60,
      tp_timeout_ms = Some timeout, tp_tolerance_ms = tolerance, tp_max_failures = Some 5,
      tp_lazy = False, tp_minimum_healthy_count = None, tp_fallback_pool = None,
      tp_priority = priority, tp_strategy = None\<rparr>"

definition manual_pool :: transport_pool where
  "manual_pool =
     \<lparr>tp_id = ''MANUAL'', tp_display_name = ''MANUAL'', tp_kind = PkSelect, tp_enabled = True,
      tp_members = [MPool ''SMART-AUTO'', MPool ''FAST-AUTO'', MPool ''REST-AUTO'', MAllProfiles, MDirect],
      tp_test_url = None, tp_interval_seconds = None, tp_timeout_ms = None, tp_tolerance_ms = None,
      tp_max_failures = None, tp_lazy = True, tp_minimum_healthy_count = None,
      tp_fallback_pool = None, tp_priority = 130, tp_strategy = None\<rparr>"

definition geosite_rule :: "nat \<times> string \<Rightarrow> routing_policy_rule" where
  "geosite_rule e = (case e of (position, category) \<Rightarrow>
     \<lparr>rr_id = ''direct-geosite-'' @ category, rr_display_name = ''Direct geosite '' @ category,
      rr_enabled = True, rr_priority = 100 + int position,
      rr_condition = ''GEOSITE,'' @ category, rr_target = ''DIRECT''\<rparr>)"

definition builtin_rule :: "string \<Rightarrow> string \<Rightarrow> int \<Rightarrow> string \<Rightarrow> string \<Rightarrow> routing_policy_rule" where
  "builtin_rule i display priority condition target =
     \<lparr>rr_id = i, rr_display_name = display, rr_enabled = True, rr_priority = priority,
      rr_condition = condition, rr_target = target\<rparr>"

definition default_client_policy :: client_policy where
  "default_client_policy =
     \<lparr>cp_pools =
        [automatic_pool ''FAST-AUTO'' PkUrlTest [MRole Speed] 500 (Some 50) 100,
         automatic_pool ''REST-AUTO'' PkUrlTest [MAllExceptRole Speed] 3000 (Some 50) 110,
         automatic_pool ''SMART-AUTO'' PkFallback [MPool ''FAST-AUTO'', MPool ''REST-AUTO''] 3000 None 120,
         manual_pool],
      cp_rules =
        map geosite_rule (List.enumerate 0 DEFAULT_DIRECT_GEOSITE_CATEGORIES)
        @ [builtin_rule ''private-10'' ''Private 10/8'' 200 ''IP-CIDR,10.0.0.0/8,no-resolve'' ''DIRECT'',
           builtin_rule ''private-172'' ''Private 172.16/12'' 210 ''IP-CIDR,172.16.0.0/12,no-resolve'' ''DIRECT'',
           builtin_rule ''private-192'' ''Private 192.168/16'' 220 ''IP-CIDR,192.168.0.0/16,no-resolve'' ''DIRECT'',
           builtin_rule ''geoip-ru'' ''Russian IP ranges'' 300 ''GEOIP,RU,no-resolve'' ''DIRECT'',
           builtin_rule ''catch-all'' ''Default route'' 1000 ''MATCH'' ''SMART-AUTO'']\<rparr>"

subsection \<open>Role names\<close>

definition role_name :: "proxy_role \<Rightarrow> string" where
  "role_name r = (case r of AutoSafe \<Rightarrow> ''auto-safe'' | Speed \<Rightarrow> ''speed''
     | Compatibility \<Rightarrow> ''compatibility'' | RuAccess \<Rightarrow> ''ru-access'' | Manual \<Rightarrow> ''manual'')"

definition parse_role :: "string \<Rightarrow> proxy_role res" where
  "parse_role v =
     (if v = ''auto-safe'' then Ok AutoSafe else if v = ''speed'' then Ok Speed
      else if v = ''compatibility'' then Ok Compatibility else if v = ''ru-access'' then Ok RuAccess
      else if v = ''manual'' then Ok Manual else Err ''invalid proxy role'')"

subsection \<open>The cycle check decides acyclicity\<close>

definition pool_succ :: "transport_pool list \<Rightarrow> string \<Rightarrow> string list" where
  "pool_succ pools i = (case enabled_pool pools i of None \<Rightarrow> [] | Some p \<Rightarrow> pool_children p)"

lemma detect_cycle_ok:
  "detect_cycle pools root visiting current = Inr () \<longleftrightarrow>
     (enabled_pool pools current = None
      \<or> current \<notin> set visiting
        \<and> (\<forall>child \<in> set (pool_succ pools current).
             child \<noteq> root \<and> detect_cycle pools root (current # visiting) child = Inr ()))"
proof (cases "enabled_pool pools current")
  case None
  then show ?thesis by (subst detect_cycle.simps) simp
next
  case (Some pool)
  have i: "tp_id pool = current" using Some by (auto dest: enabled_pool_Some)
  let ?body = "\<lambda>child. if child = root then Err ''transport pool references contain a cycle''
                 else detect_cycle pools root (current # visiting) child"
  have "each_res ?body (pool_children pool) = Inr () \<longleftrightarrow>
      (\<forall>child \<in> set (pool_children pool).
         child \<noteq> root \<and> detect_cycle pools root (current # visiting) child = Inr ())"
    by (simp add: is_ok_unit [symmetric] each_res_ok_iff is_ok_if) auto
  with Some i show ?thesis
    by (subst detect_cycle.simps) (auto simp: pool_succ_def)
qed

lemma pool_succ_enabled: "x \<in> set (pool_succ pools y) \<Longrightarrow> enabled_pool pools y \<noteq> None"
  by (cases "enabled_pool pools y") (simp_all add: pool_succ_def)

lemma detect_cycle_sound:
  "(current, x) \<in> (edges (pool_succ pools))\<^sup>+ \<Longrightarrow> detect_cycle pools root visiting current = Inr ()
     \<Longrightarrow> x \<noteq> root"
proof (induction arbitrary: visiting rule: converse_trancl_induct)
  case (base y)
  then show ?case
    using detect_cycle_ok [of pools root visiting y] pool_succ_enabled [of x pools y] by auto
next
  case (step y z)
  then have "detect_cycle pools root (y # visiting) z = Inr ()"
    using detect_cycle_ok [of pools root visiting y] pool_succ_enabled [of z pools y] by auto
  then show ?case by (rule step.IH)
qed

lemma detect_cycle_complete:
  assumes "\<And>a. (a, a) \<notin> (edges (pool_succ pools))\<^sup>+"
    and "(root, current) \<in> (edges (pool_succ pools))\<^sup>*"
    and "\<forall>v \<in> set visiting. (v, current) \<in> (edges (pool_succ pools))\<^sup>+"
  shows "detect_cycle pools root visiting current = Inr ()"
  using assms
proof (induction pools root visiting current rule: detect_cycle.induct)
  case (1 pools root visiting current)
  have new: "current \<notin> set visiting" using "1.prems"(1,3) by blast
  show ?case
  proof (cases "enabled_pool pools current")
    case None
    then show ?thesis using detect_cycle_ok [of pools root visiting current] by simp
  next
    case (Some pool)
    have i: "tp_id pool = current" using Some by (auto dest: enabled_pool_Some)
    have "child \<noteq> root \<and> detect_cycle pools root (current # visiting) child = Inr ()"
      if c: "child \<in> set (pool_children pool)" for child
    proof
      have e: "(current, child) \<in> edges (pool_succ pools)"
        using c Some by (simp add: pool_succ_def)
      have rc: "(root, child) \<in> (edges (pool_succ pools))\<^sup>+"
        using "1.prems"(2) e by (rule rtrancl_into_trancl1)
      show nr: "child \<noteq> root" using rc "1.prems"(1) by blast
      have "detect_cycle pools root (tp_id pool # visiting) child = Inr ()"
      proof (rule "1.IH" [OF Some])
        show "tp_id pool \<notin> set visiting" using new i by simp
        show "child \<in> set (pool_children pool)" by (rule c)
        show "child \<noteq> root" by (rule nr)
        show "\<And>a. (a, a) \<notin> (edges (pool_succ pools))\<^sup>+" by (rule "1.prems"(1))
        show "(root, child) \<in> (edges (pool_succ pools))\<^sup>*" using rc by simp
        show "\<forall>v \<in> set (tp_id pool # visiting). (v, child) \<in> (edges (pool_succ pools))\<^sup>+"
          using "1.prems"(3) e i by (auto intro: trancl_into_trancl)
      qed
      with i show "detect_cycle pools root (current # visiting) child = Inr ()" by simp
    qed
    then show ?thesis
      using new Some by (auto simp: detect_cycle_ok [of pools root visiting current] pool_succ_def)
  qed
qed

text \<open>
  Running the check from every enabled pool, as the validation does, is the decision whether
  the graph of enabled pools has no cycle: a cycle only runs through enabled pools.
\<close>

lemma detect_cycles_decide:
  "(\<forall>p \<in> set (filter tp_enabled pools). detect_cycle pools (tp_id p) [] (tp_id p) = Inr ())
     \<longleftrightarrow> (\<forall>a. (a, a) \<notin> (edges (pool_succ pools))\<^sup>+)"
proof
  assume ok: "\<forall>p \<in> set (filter tp_enabled pools). detect_cycle pools (tp_id p) [] (tp_id p) = Inr ()"
  show "\<forall>a. (a, a) \<notin> (edges (pool_succ pools))\<^sup>+"
  proof (intro allI notI)
    fix a assume cyc: "(a, a) \<in> (edges (pool_succ pools))\<^sup>+"
    then obtain b where "(a, b) \<in> edges (pool_succ pools)" by (meson tranclD)
    then have "enabled_pool pools a \<noteq> None" using pool_succ_enabled by simp
    then obtain p where "enabled_pool pools a = Some p" by blast
    then have "p \<in> set (filter tp_enabled pools)" "tp_id p = a"
      by (auto dest: enabled_pool_Some)
    then have "detect_cycle pools a [] a = Inr ()" using ok by auto
    from detect_cycle_sound [OF cyc this] show False by simp
  qed
next
  assume "\<forall>a. (a, a) \<notin> (edges (pool_succ pools))\<^sup>+"
  then show "\<forall>p \<in> set (filter tp_enabled pools). detect_cycle pools (tp_id p) [] (tp_id p) = Inr ()"
    by (auto intro: detect_cycle_complete)
qed

subsection \<open>What a validated policy is\<close>

definition policy_targets :: "client_policy \<Rightarrow> protocol_profile list \<Rightarrow> string set" where
  "policy_targets cp profiles =
     {''DIRECT'', ''REJECT''} \<union> set (enabled_pool_ids cp) \<union> set (enabled_profile_names profiles)"

lemma validate_Inr:
  "client_policy_validate cp profiles = Inr () \<longleftrightarrow>
     distinct (map tp_id (cp_pools cp)) \<and> distinct (map rr_id (cp_rules cp))
     \<and> (\<forall>p \<in> set (cp_pools cp).
          is_ok (named_ok ''transport pool display name is invalid'' (tp_id p) (tp_display_name p)))
     \<and> (\<forall>p \<in> set (cp_pools cp). tp_enabled p \<longrightarrow> is_ok (pool_check cp profiles p))
     \<and> (\<forall>r \<in> set (cp_rules cp). is_ok (policy_rule_check cp profiles r))"
proof -
  have d1: "length (remdups (map tp_id (cp_pools cp))) = length (cp_pools cp)
      \<longleftrightarrow> distinct (map tp_id (cp_pools cp))"
    and d2: "length (remdups (map rr_id (cp_rules cp))) = length (cp_rules cp)
      \<longleftrightarrow> distinct (map rr_id (cp_rules cp))"
    by (metis card_distinct distinct_card length_map length_remdups_card_conv)+
  show ?thesis
    unfolding is_ok_unit [symmetric] client_policy_validate_def
    by (auto simp: is_ok_and_then is_ok_if each_res_ok_iff d1 d2 is_ok_unit [symmetric])
qed

lemma member_check_ok:
  "is_ok (member_check ids profiles m) \<longleftrightarrow>
     (case m of MProfile i \<Rightarrow> i \<in> set (enabled_profile_names profiles)
        | MCapability i \<Rightarrow> has_capability profiles i
        | MPool i \<Rightarrow> i \<in> set ids
        | _ \<Rightarrow> True)"
  by (simp add: member_check_def split: pool_member.splits)

lemma pool_check_ok:
  assumes "is_ok (pool_check cp profiles p)"
  shows "tp_members p \<noteq> []"
    and "\<forall>m \<in> set (tp_members p). is_ok (member_check (enabled_pool_ids cp) profiles m)"
    and "\<forall>f. tp_fallback_pool p = Some f \<longrightarrow> f \<noteq> tp_id p \<and> f \<in> set (enabled_pool_ids cp)"
    and "detect_cycle (cp_pools cp) (tp_id p) [] (tp_id p) = Inr ()"
  using assms
  by (auto simp: pool_check_def Let_def is_ok_and_then is_ok_if is_ok_unit [symmetric] each_res_ok_iff
      split: if_splits)

lemma enabled_pool_ids_iff:
  "i \<in> set (enabled_pool_ids cp) \<longleftrightarrow> enabled_pool (cp_pools cp) i \<noteq> None"
  by (auto simp: enabled_pool_ids_def enabled_pool_def find_None_all)

text \<open>The pool graph of a validated policy: closed over the enabled pools and without a cycle.\<close>

lemma validated_graph:
  assumes "client_policy_validate cp profiles = Inr ()"
  shows "closed_under (pool_succ (cp_pools cp)) (set (enabled_pool_ids cp))"
    and "\<forall>a. (a, a) \<notin> (edges (pool_succ (cp_pools cp)))\<^sup>+"
proof -
  have ok: "is_ok (pool_check cp profiles p)" if "p \<in> set (cp_pools cp)" "tp_enabled p" for p
    using assms that by (auto simp: validate_Inr)
  show "\<forall>a. (a, a) \<notin> (edges (pool_succ (cp_pools cp)))\<^sup>+"
    unfolding detect_cycles_decide [symmetric] using pool_check_ok(4) [OF ok] by auto
  show "closed_under (pool_succ (cp_pools cp)) (set (enabled_pool_ids cp))"
    unfolding closed_under_def
  proof (intro ballI subsetI)
    fix a x assume x: "x \<in> set (pool_succ (cp_pools cp) a)"
    then obtain p where p: "enabled_pool (cp_pools cp) a = Some p"
      using pool_succ_enabled by blast
    then have pk: "is_ok (pool_check cp profiles p)"
      using ok by (auto dest: enabled_pool_Some)
    have "MPool x \<in> set (tp_members p) \<or> tp_fallback_pool p = Some x"
      using x p by (auto simp: pool_succ_def pool_children_def List.map_filter_def member_pools_def
          split: option.splits pool_member.splits if_splits)
    then show "x \<in> set (enabled_pool_ids cp)"
      using pool_check_ok(2,3) [OF pk] by (auto simp: member_check_ok)
  qed
qed

lemma resolve_member_names:
  assumes "is_ok (member_check (enabled_pool_ids cp) profiles m)"
    and "x \<in> set (resolve_member (filter pr_enabled profiles) m)"
  shows "x \<in> policy_targets cp profiles"
  using assms
  by (auto simp: member_check_ok resolve_member_def policy_targets_def enabled_profile_names_def
      split: pool_member.splits)

lemma resolved_pools_Inr:
  assumes "resolved_pools cp profiles = Inr out"
  shows "map fst out = filter tp_enabled (cp_pools cp)"
    and "(p, ms) \<in> set out \<Longrightarrow> ms \<noteq> [] \<and> distinct ms \<and> set ms \<subseteq> policy_targets cp profiles
           \<and> set ms = (\<Union>m \<in> set (tp_members p). set (resolve_member (filter pr_enabled profiles) m))"
proof -
  let ?en = "filter pr_enabled profiles" and ?ps = "filter tp_enabled (cp_pools cp)"
  have v: "client_policy_validate cp profiles = Inr ()"
    and out: "collect_res (map (resolve_pool ?en) ?ps) = Inr out"
    using assms by (auto simp: resolved_pools_def and_then_Inr_iff)
  have res: "resolve_pool ?en q = Inr r \<Longrightarrow> fst r = q" for q r
    by (auto simp: resolve_pool_def Let_def split: if_splits)
  have eq: "map (resolve_pool ?en) ?ps = map Inr out"
    using out by (simp add: collect_res_Inr_iff)
  have "map fst out = ?ps"
  proof (rule nth_equalityI)
    show "length (map fst out) = length ?ps"
      using eq by (metis length_map)
    fix i assume "i < length (map fst out)"
    then show "map fst out ! i = ?ps ! i"
      using eq res by (metis length_map nth_map)
  qed
  then show "map fst out = ?ps" .
  assume "(p, ms) \<in> set out"
  then obtain q where q: "q \<in> set ?ps" "resolve_pool ?en q = Inr (p, ms)"
    using collect_res_in [OF out] by blast
  then have qp: "q = p" using res by fastforce
  let ?names = "concat (map (resolve_member ?en) (tp_members p))"
  have ms: "ms = retain_new id [] ?names" "ms \<noteq> []"
    using q(2) qp by (auto simp: resolve_pool_def Let_def split: if_splits)
  have set: "set ms = set ?names"
    using retain_new_keys [of id "[]" ?names] ms(1) by simp
  have "is_ok (pool_check cp profiles p)" using v q(1) qp by (auto simp: validate_Inr)
  from pool_check_ok(2) [OF this] have "set ms \<subseteq> policy_targets cp profiles"
    using resolve_member_names by (auto simp: set)
  moreover have "distinct ms"
    using retain_new_distinct [of id "[]" ?names] ms(1) by simp
  ultimately show "ms \<noteq> [] \<and> distinct ms \<and> set ms \<subseteq> policy_targets cp profiles
       \<and> set ms = (\<Union>m \<in> set (tp_members p). set (resolve_member ?en m))"
    using ms(2) by (simp add: set)
qed

lemma policy_rule_target:
  assumes "is_ok (policy_rule_check cp profiles r)" and "rr_enabled r"
  shows "rule_target_valid cp profiles (rr_target r)"
  using assms by (auto simp: policy_rule_check_def is_ok_and_then is_ok_if split: if_splits)

lemma resolve_rule_target:
  assumes "rule_target_valid cp profiles (rr_target r)"
    and "resolve_rule profiles r = Inr (c, t)"
  shows "c = rr_condition r \<and> t \<in> policy_targets cp profiles"
  using assms
  by (fastforce simp: resolve_rule_def rule_target_valid_def policy_targets_def and_then_Inr_iff
      ok_or_Inr_iff enabled_profile_names_def dest: find_Some_mem split: option.splits)

lemma resolved_rules_Inr:
  assumes "resolved_rules cp profiles = Inr out"
  shows "map fst out = map rr_condition (sort_key rr_priority (filter rr_enabled (cp_rules cp)))"
    and "\<forall>(c, t) \<in> set out. t \<in> policy_targets cp profiles"
proof -
  let ?rs = "sort_key rr_priority (filter rr_enabled (cp_rules cp))"
  have v: "client_policy_validate cp profiles = Inr ()"
    and out: "collect_res (map (resolve_rule profiles) ?rs) = Inr out"
    using assms by (auto simp: resolved_rules_def and_then_Inr_iff)
  have tv: "rule_target_valid cp profiles (rr_target r)" if "r \<in> set ?rs" for r
    using that v policy_rule_target by (auto simp: validate_Inr)
  have eq: "map (resolve_rule profiles) ?rs = map Inr out"
    using out by (simp add: collect_res_Inr_iff)
  have fst: "fst q = rr_condition r" if "resolve_rule profiles r = Inr q" for r q
    using that by (auto simp: resolve_rule_def and_then_Inr_iff)
  show "map fst out = map rr_condition ?rs"
  proof (rule nth_equalityI)
    show len: "length (map fst out) = length (map rr_condition ?rs)"
      using eq by (metis length_map)
    fix i assume "i < length (map fst out)"
    then show "map fst out ! i = map rr_condition ?rs ! i"
      using eq fst len by (metis length_map nth_map)
  qed
  show "\<forall>(c, t) \<in> set out. t \<in> policy_targets cp profiles"
  proof clarify
    fix c t assume "(c, t) \<in> set out"
    then obtain r where "r \<in> set ?rs" "resolve_rule profiles r = Inr (c, t)"
      using collect_res_in [OF out] by blast
    then show "t \<in> policy_targets cp profiles"
      using resolve_rule_target tv by blast
  qed
qed

subsection \<open>The built-in policy is valid for every set of profiles\<close>

definition rule_ok_closed :: "string list \<Rightarrow> routing_policy_rule \<Rightarrow> bool" where
  "rule_ok_closed targets r \<longleftrightarrow>
     is_ok (named_ok ''routing policy display name is invalid'' (rr_id r) (rr_display_name r))
     \<and> trim (rr_condition r) \<noteq> [] \<and> newline \<notin> set (rr_condition r)
     \<and> (trim (rr_condition r) = ''MATCH''
        \<or> is_ok (classical_rule_with_target (trim (rr_condition r)) (rr_target r)))
     \<and> rr_target r \<in> set targets"

lemma rule_ok_closed_check:
  "rule_ok_closed targets r \<Longrightarrow> set targets \<subseteq> {''DIRECT'', ''REJECT''} \<union> set (enabled_pool_ids cp)
     \<Longrightarrow> is_ok (policy_rule_check cp profiles r)"
  by (auto simp: rule_ok_closed_def policy_rule_check_def is_ok_iff rule_target_valid_def)

abbreviation default_geosite :: "routing_policy_rule list" where
  "default_geosite \<equiv> map geosite_rule (List.enumerate 0 DEFAULT_DIRECT_GEOSITE_CATEGORIES)"

text \<open>Evaluated in slices: each is a few seconds of kernel evaluation.\<close>

lemma default_geosite_1: "list_all (rule_ok_closed [''DIRECT'']) (take 6 default_geosite)"
  by code_simp

lemma default_geosite_2: "list_all (rule_ok_closed [''DIRECT'']) (take 6 (drop 6 default_geosite))"
  by code_simp

lemma default_geosite_3: "list_all (rule_ok_closed [''DIRECT'']) (take 6 (drop 12 default_geosite))"
  by code_simp

lemma default_geosite_4: "list_all (rule_ok_closed [''DIRECT'']) (drop 18 default_geosite)"
  by code_simp

lemma default_builtin:
  "list_all (rule_ok_closed [''DIRECT'', ''SMART-AUTO'']) (drop 24 (cp_rules default_client_policy))"
  by code_simp

lemma rule_ok_closed_more: "rule_ok_closed ts r \<Longrightarrow> set ts \<subseteq> set us \<Longrightarrow> rule_ok_closed us r"
  by (auto simp: rule_ok_closed_def)

lemma list_all_slices: "list_all P (take n xs) \<Longrightarrow> list_all P (drop n xs) \<Longrightarrow> list_all P xs"
  by (metis append_take_drop_id list_all_append)

lemma default_geosite_closed: "list_all (rule_ok_closed [''DIRECT'']) default_geosite"
proof (rule list_all_slices [OF default_geosite_1], rule list_all_slices [OF default_geosite_2])
  show "list_all (rule_ok_closed [''DIRECT'']) (drop 6 (drop 6 default_geosite))"
  proof (rule list_all_slices [of _ 6])
    show "list_all (rule_ok_closed [''DIRECT'']) (take 6 (drop 6 (drop 6 default_geosite)))"
      using default_geosite_3 by simp
    show "list_all (rule_ok_closed [''DIRECT'']) (drop 6 (drop 6 (drop 6 default_geosite)))"
      using default_geosite_4 by simp
  qed
qed

lemma default_rules_closed:
  "list_all (rule_ok_closed [''DIRECT'', ''SMART-AUTO'']) (cp_rules default_client_policy)"
proof (rule list_all_slices [of _ 24])
  have "take 24 (cp_rules default_client_policy) = default_geosite"
    by (simp add: default_client_policy_def DEFAULT_DIRECT_GEOSITE_CATEGORIES_def)
  moreover have "list_all (rule_ok_closed [''DIRECT'', ''SMART-AUTO'']) default_geosite"
    using default_geosite_closed rule_ok_closed_more unfolding list_all_iff by fastforce
  ultimately show "list_all (rule_ok_closed [''DIRECT'', ''SMART-AUTO'']) (take 24 (cp_rules default_client_policy))"
    by (simp only:)
qed (rule default_builtin)

lemma default_rule_ids: "distinct (map rr_id (cp_rules default_client_policy))"
  by code_simp

lemma default_pool_names:
  "list_all (\<lambda>p. is_ok (named_ok ''transport pool display name is invalid'' (tp_id p) (tp_display_name p)))
     (cp_pools default_client_policy) \<and> distinct (map tp_id (cp_pools default_client_policy))"
  by code_simp

lemma default_pool_cycles:
  "list_all (\<lambda>p. detect_cycle (cp_pools default_client_policy) (tp_id p) [] (tp_id p) = Inr ())
     (cp_pools default_client_policy)"
  by code_simp

lemma default_pool_ids: "enabled_pool_ids default_client_policy = [''FAST-AUTO'', ''REST-AUTO'', ''SMART-AUTO'', ''MANUAL'']"
  by code_simp

lemma pool_check_closed:
  assumes "detect_cycle (cp_pools cp) (tp_id p) [] (tp_id p) = Inr ()" and "tp_members p \<noteq> []"
    and "\<forall>m \<in> set (tp_members p). is_ok (member_check (enabled_pool_ids cp) profiles m)"
    and "tp_fallback_pool p = None" "tp_strategy p = None" "tp_minimum_healthy_count p = None"
    and "tp_timeout_ms p \<noteq> Some 0" "tp_interval_seconds p \<noteq> Some 0" "tp_max_failures p \<noteq> Some 0"
    and "tp_test_url p = None \<or> tp_test_url p = Some ''https://www.gstatic.com/generate_204''"
  shows "is_ok (pool_check cp profiles p)"
proof -
  have url: "\<not> (\<not> starts_with ''https://www.gstatic.com/generate_204'' ''https://''
      \<or> 512 < length ''https://www.gstatic.com/generate_204''
      \<or> has_control ''https://www.gstatic.com/generate_204'')"
    by code_simp
  have members: "each_res (member_check (enabled_pool_ids cp) profiles) (tp_members p) = Inr ()"
    using assms(3) by (simp add: each_res_ok_iff is_ok_unit [symmetric])
  have tu: "\<not> (case tp_test_url p of None \<Rightarrow> False
      | Some url \<Rightarrow> \<not> starts_with url ''https://'' \<or> 512 < length url \<or> has_control url)"
    using assms(10) url by (cases "tp_test_url p") auto
  show ?thesis
    unfolding pool_check_def Let_def
    using assms(1,2,4-9) members tu by simp
qed

lemma default_pools_ok:
  "p \<in> set (cp_pools default_client_policy) \<Longrightarrow> is_ok (pool_check default_client_policy profiles p)"
proof (rule pool_check_closed)
  assume p: "p \<in> set (cp_pools default_client_policy)"
  show "detect_cycle (cp_pools default_client_policy) (tp_id p) [] (tp_id p) = Inr ()"
    using default_pool_cycles p by (simp add: list_all_iff)
  show "\<forall>m \<in> set (tp_members p). is_ok (member_check (enabled_pool_ids default_client_policy) profiles m)"
    unfolding default_pool_ids using p
    by (auto simp: default_client_policy_def automatic_pool_def manual_pool_def member_check_ok)
qed (auto simp: default_client_policy_def automatic_pool_def manual_pool_def)

lemma default_policy_ok: "client_policy_validate default_client_policy profiles = Inr ()"
proof -
  have "set [''DIRECT'', ''SMART-AUTO''] \<subseteq> {''DIRECT'', ''REJECT''} \<union> set (enabled_pool_ids default_client_policy)"
    by (simp add: default_pool_ids)
  then have "is_ok (policy_rule_check default_client_policy profiles r)"
    if "r \<in> set (cp_rules default_client_policy)" for r
    using default_rules_closed that by (intro rule_ok_closed_check) (auto simp: list_all_iff)
  then show ?thesis
    using default_rule_ids default_pool_names default_pools_ok
    by (simp add: validate_Inr list_all_iff)
qed

subsection \<open>Role names\<close>

lemma parse_role_name: "parse_role (role_name r) = Inr r"
  by (cases r) (simp_all add: parse_role_def role_name_def)

lemma parse_role_Inr: "parse_role v = Inr r \<longleftrightarrow> v = role_name r"
  by (cases r) (auto simp: parse_role_def role_name_def)

end
