(* ===== verification/Topology.thy ===== *)
theory Topology
  imports Policy "HOL-Library.Product_Lexorder"
begin

text \<open>
  \<open>routing\_topology.rs\<close>: the ordered, read-only explanation of the generated routing, domain
  inspection with explicit uncertainty, and the backtracking wildcard matcher. \<open>BTreeMap\<close>s are
  key-sorted lists. The wildcard loop is a \<open>partial\_function\<close>: that it returns, and what it returns,
  is proved against the recursive definition of a glob.
\<close>

datatype topology_state = TsReady | TsDynamic | TsUnresolved | TsUnsupported

definition state_label :: "topology_state \<Rightarrow> string" where
  "state_label s = (case s of TsReady \<Rightarrow> ''ready'' | TsDynamic \<Rightarrow> ''dynamic''
     | TsUnresolved \<Rightarrow> ''unresolved'' | TsUnsupported \<Rightarrow> ''unsupported simulation'')"

datatype target_kind = TkDirect | TkReject | TkPool | TkProfile | TkFallback | TkUnavailable

record runtime_resolution =
  rn_id :: string
  rn_available :: bool
  rn_adapter_present :: bool

record topology_availability =
  av_protocol_adapters :: "string list"
  av_profile_runtimes :: "(string, runtime_resolution) btmap"

datatype domain_matcher =
    MExact string
  | MSuffix string
  | MKeyword string
  | MWildcard string
  | MMatch

record topology_path =
  pt_order :: nat
  pt_source :: string
  pt_matcher :: string
  pt_entry_count :: nat
  pt_target :: string
  pt_target_kind :: target_kind
  pt_profile :: "string option"
  pt_runtime :: "string option"
  pt_state :: topology_state
  pt_detail :: string
  pt_matchers :: "domain_matcher list"
  pt_has_unsupported :: bool

record topology_pool =
  tl_id :: string
  tl_kind :: string
  tl_members :: "string list"
  tl_state :: topology_state

record topology_issue =
  ti_subject :: string
  ti_detail :: string

record routing_topology =
  tg_paths :: "topology_path list"
  tg_pools :: "topology_pool list"
  tg_issues :: "topology_issue list"

datatype inspection_outcome = IoMatched | IoDefault | IoUncertain | IoInvalid

record route_inspection =
  ri_domain :: string
  ri_outcome :: inspection_outcome
  ri_path :: "topology_path option"
  ri_explanation :: string

subsection \<open>The wildcard matcher\<close>

text \<open>
  The loop state is \<open>(p, v, star, retry)\<close>, indices into the pattern and the val.
\<close>

partial_function (option) wildcard_loop ::
  "string \<Rightarrow> string \<Rightarrow> nat \<Rightarrow> nat \<Rightarrow> nat option \<Rightarrow> nat \<Rightarrow> nat option option" where
  "wildcard_loop pattern val p v star retry =
     (if v < length val then
        (if p < length pattern \<and> (pattern ! p = CHR ''?'' \<or> pattern ! p = val ! v)
         then wildcard_loop pattern val (p + 1) (v + 1) star retry
         else if p < length pattern \<and> pattern ! p = CHR ''*''
         then wildcard_loop pattern val (p + 1) v (Some p) v
         else (case star of
             Some star_index \<Rightarrow> wildcard_loop pattern val (star_index + 1) (retry + 1) star (retry + 1)
           | None \<Rightarrow> Some None))
      else Some (Some p))"

text \<open>The trailing loop skips stars; the match succeeds when it consumes the pattern.\<close>

fun skip_stars :: "string \<Rightarrow> string" where
  "skip_stars [] = []"
| "skip_stars (c # cs) = (if c = CHR ''*'' then skip_stars cs else c # cs)"

definition wildcard_result :: "string \<Rightarrow> string \<Rightarrow> bool option" where
  "wildcard_result pattern val =
     map_option (\<lambda>r. case r of None \<Rightarrow> False | Some p \<Rightarrow> skip_stars (drop p pattern) = [])
       (wildcard_loop pattern val 0 0 None 0)"

definition wildcard_matches :: "string \<Rightarrow> string \<Rightarrow> bool" where
  "wildcard_matches pattern val \<longleftrightarrow> wildcard_result pattern val = Some True"

subsection \<open>Matchers and targets\<close>

definition matcher_matches :: "domain_matcher \<Rightarrow> string \<Rightarrow> bool" where
  "matcher_matches m domain = (case m of
       MExact v \<Rightarrow> domain = v
     | MSuffix v \<Rightarrow> domain = v \<or> ends_with domain (''.'' @ v)
     | MKeyword v \<Rightarrow> contains_str domain v
     | MWildcard v \<Rightarrow> wildcard_matches v domain
     | MMatch \<Rightarrow> True)"

definition line_matcher :: "string \<Rightarrow> domain_matcher option" where
  "line_matcher line = (let parts = fields_of line;
       kind = parts ! 0;
       value = to_ascii_lowercase (if length parts < 2 then [] else parts ! 1) in
     if kind = ''DOMAIN'' \<and> value \<noteq> [] then Some (MExact value)
     else if kind = ''DOMAIN-SUFFIX'' \<and> value \<noteq> [] then Some (MSuffix value)
     else if kind = ''DOMAIN-KEYWORD'' \<and> value \<noteq> [] then Some (MKeyword value)
     else if kind = ''DOMAIN-WILDCARD'' \<and> value \<noteq> [] then Some (MWildcard value)
     else if kind = ''MATCH'' then Some MMatch
     else None)"

fun domain_matchers :: "string list \<Rightarrow> domain_matcher list \<times> bool" where
  "domain_matchers [] = ([], False)"
| "domain_matchers (line # ls) = (let (result, unsupported) = domain_matchers ls in
     (case line_matcher line of
        Some m \<Rightarrow> (m # result, unsupported)
      | None \<Rightarrow> (result, True)))"

definition valid_label :: "string \<Rightarrow> bool" where
  "valid_label l \<longleftrightarrow> l \<noteq> [] \<and> length l \<le> 63 \<and> hd l \<noteq> CHR ''-'' \<and> last l \<noteq> CHR ''-''
     \<and> list_all (\<lambda>c. is_alphanumeric c \<or> c = CHR ''-'') l"

definition valid_domain :: "string \<Rightarrow> bool" where
  "valid_domain d \<longleftrightarrow> d \<noteq> [] \<and> length d \<le> 253 \<and> list_all valid_label (split_on (CHR ''.'') d)"

text \<open>\<open>{value:?}\<close> of a role, and the label of a pool member.\<close>

definition role_debug :: "proxy_role \<Rightarrow> string" where
  "role_debug r = (case r of AutoSafe \<Rightarrow> ''AutoSafe'' | Speed \<Rightarrow> ''Speed''
     | Compatibility \<Rightarrow> ''Compatibility'' | RuAccess \<Rightarrow> ''RuAccess'' | Manual \<Rightarrow> ''Manual'')"

definition member_label :: "pool_member \<Rightarrow> string" where
  "member_label m = (case m of
       MProfile v \<Rightarrow> ''profile:'' @ v
     | MCapability v \<Rightarrow> ''capability:'' @ v
     | MRole r \<Rightarrow> ''role:'' @ role_debug r
     | MAllExceptRole r \<Rightarrow> ''all-except-role:'' @ role_debug r
     | MPool v \<Rightarrow> ''pool:'' @ v
     | MAllProfiles \<Rightarrow> ''all-enabled-profiles''
     | MDirect \<Rightarrow> ''DIRECT''
     | MReject \<Rightarrow> ''REJECT'')"

definition profile_target ::
  "protocol_profile \<Rightarrow> topology_availability \<Rightarrow> topology_path \<Rightarrow> topology_path" where
  "profile_target profile availability path =
     (let path = path\<lparr>pt_target_kind := TkProfile, pt_profile := Some (pr_name profile)\<rparr> in
      if \<not> pr_enabled profile
      then path\<lparr>pt_state := TsUnresolved,
                pt_detail := ''Profile `'' @ pr_display_name profile @ ''` is disabled''\<rparr>
      else if pr_protocol_id profile \<notin> set (av_protocol_adapters availability)
      then path\<lparr>pt_state := TsUnresolved, pt_detail := ''Protocol adapter is missing''\<rparr>
      else (case bt_get (av_profile_runtimes availability) (pr_name profile) of
          Some runtime \<Rightarrow>
            (let path = path\<lparr>pt_runtime := Some (rn_id runtime)\<rparr> in
             if \<not> rn_adapter_present runtime
             then path\<lparr>pt_state := TsUnresolved, pt_detail := ''Runtime adapter is missing''\<rparr>
             else if \<not> rn_available runtime
             then path\<lparr>pt_state := TsUnresolved, pt_detail := ''Compatible runtime is unavailable''\<rparr>
             else path\<lparr>pt_state := TsReady,
                       pt_detail := ''Profile `'' @ pr_display_name profile
                                    @ ''` and runtime are available''\<rparr>)
        | None \<Rightarrow> path\<lparr>pt_state := TsDynamic,
            pt_detail := ''Runtime is selected by adapter capabilities during generation''\<rparr>))"

definition resolve_target ::
  "nat \<Rightarrow> string \<Rightarrow> string \<Rightarrow> nat \<Rightarrow> string \<Rightarrow> protocol_profile list \<Rightarrow> (string, transport_pool) btmap
     \<Rightarrow> topology_availability \<Rightarrow> topology_path" where
  "resolve_target order source matcher entry_count target profiles pools availability =
     (let path = \<lparr>pt_order = order, pt_source = source, pt_matcher = matcher,
                  pt_entry_count = entry_count, pt_target = target,
                  pt_target_kind = TkUnavailable, pt_profile = None, pt_runtime = None,
                  pt_state = TsUnresolved, pt_detail = ''Target is unavailable'',
                  pt_matchers = [], pt_has_unsupported = False\<rparr> in
      if target = ''DIRECT''
      then path\<lparr>pt_target_kind := TkDirect, pt_state := TsReady,
                pt_detail := ''Connection bypasses proxy groups''\<rparr>
      else if target = ''REJECT''
      then path\<lparr>pt_target_kind := TkReject, pt_state := TsReady,
                pt_detail := ''Connection is rejected by the client policy''\<rparr>
      else if bt_get pools target \<noteq> None
      then path\<lparr>pt_target_kind := TkPool, pt_state := TsDynamic,
                pt_detail := ''Pool member selection occurs in the Mihomo client''\<rparr>
      else (case List.find (\<lambda>p. pr_name p = target) profiles of
          Some profile \<Rightarrow> profile_target profile availability path
        | None \<Rightarrow> path))"

definition apply_pool_state :: "topology_path \<Rightarrow> topology_pool list \<Rightarrow> topology_path" where
  "apply_pool_state path pools =
     (if pt_target_kind path \<noteq> TkPool then path
      else (case List.find (\<lambda>p. tl_id p = pt_target path) pools of
          None \<Rightarrow> path
        | Some pool \<Rightarrow>
            (let path = path\<lparr>pt_detail :=
                   ''Client selects a member at runtime: '' @ join '', '' (tl_members pool)\<rparr> in
             if tl_state pool = TsUnresolved
             then path\<lparr>pt_state := TsUnresolved,
                       pt_detail := ''Pool cannot resolve all members: '' @ join '', '' (tl_members pool)\<rparr>
             else path)))"

definition record_path_issue :: "topology_issue list \<Rightarrow> topology_path \<Rightarrow> topology_issue list" where
  "record_path_issue issues path =
     (if pt_state path = TsUnresolved \<and> \<not> list_ex (\<lambda>i. ti_subject i = pt_source path) issues
      then issues @ [\<lparr>ti_subject = pt_source path, ti_detail = pt_detail path\<rparr>]
      else issues)"

subsection \<open>Building the topology\<close>

definition add_issue :: "string \<Rightarrow> string \<Rightarrow> routing_topology \<Rightarrow> routing_topology" where
  "add_issue subject detail t =
     t\<lparr>tg_issues := tg_issues t @ [\<lparr>ti_subject = subject, ti_detail = detail\<rparr>]\<rparr>"

definition member_unresolved ::
  "protocol_profile list \<Rightarrow> (string, transport_pool) btmap \<Rightarrow> pool_member \<Rightarrow> bool" where
  "member_unresolved profiles pools m = (case m of
       MProfile i \<Rightarrow> \<not> list_ex (\<lambda>p. pr_enabled p \<and> pr_name p = i) profiles
     | MPool i \<Rightarrow> bt_get pools i = None
     | MCapability i \<Rightarrow> \<not> has_capability profiles i
     | _ \<Rightarrow> False)"

definition build_pool ::
  "protocol_profile list \<Rightarrow> (string, transport_pool) btmap \<Rightarrow> routing_topology \<Rightarrow> transport_pool
     \<Rightarrow> routing_topology" where
  "build_pool profiles pools t pool =
     (let members = map member_label (tp_members pool);
          bad = list_ex (member_unresolved profiles pools) (tp_members pool) \<or> members = [];
          t = (if bad then add_issue (''pool:'' @ tp_id pool)
                             ''Pool contains an unavailable member or resolves empty'' t else t) in
      t\<lparr>tg_pools := tg_pools t @
          [\<lparr>tl_id = tp_id pool, tl_kind = pool_kind_name (tp_kind pool), tl_members = members,
            tl_state = (if bad then TsUnresolved else TsDynamic)\<rparr>]\<rparr>)"

definition rows_of :: "(string, 'a list) btmap \<Rightarrow> string \<Rightarrow> 'a list" where
  "rows_of m k = (case bt_get m k of None \<Rightarrow> [] | Some xs \<Rightarrow> xs)"

definition push_path :: "topology_path \<Rightarrow> routing_topology \<Rightarrow> routing_topology" where
  "push_path path t =
     t\<lparr>tg_issues := record_path_issue (tg_issues t) path, tg_paths := tg_paths t @ [path]\<rparr>"

definition build_rule_set ::
  "(string, rule_entry list) btmap \<Rightarrow> (string, rule_set_source list) btmap \<Rightarrow> protocol_profile list
     \<Rightarrow> (string, transport_pool) btmap \<Rightarrow> topology_availability
     \<Rightarrow> routing_topology \<Rightarrow> routing_rule_set \<Rightarrow> routing_topology" where
  "build_rule_set entries sources profiles pools availability t rs =
     (let compiled = compile_rule_set_payload (rows_of entries (rs_slug rs)) (rs_payload rs)
                       (rows_of sources (rs_slug rs));
          rules = lines (case compiled of Inl _ \<Rightarrow> [] | Inr v \<Rightarrow> v);
          (matchers, unsupported) = domain_matchers rules;
          path = resolve_target (length (tg_paths t) + 1) (''provider:'' @ rs_slug rs)
                   (''RULE-SET '' @ rs_slug rs) (length rules) (rs_target rs) profiles pools availability;
          path = path\<lparr>pt_matchers := matchers, pt_has_unsupported := unsupported\<rparr>;
          path = apply_pool_state path (tg_pools t) in
      (case compiled of
         Inr _ \<Rightarrow> push_path path t
       | Inl e \<Rightarrow>
           (let path = path\<lparr>pt_state := TsUnresolved,
                            pt_detail := ''Provider payload is invalid: '' @ e\<rparr> in
            push_path path (add_issue (''provider:'' @ rs_slug rs) (pt_detail path) t))))"

definition build_inline ::
  "protocol_profile list \<Rightarrow> (string, transport_pool) btmap \<Rightarrow> topology_availability
     \<Rightarrow> routing_topology \<Rightarrow> routing_policy_rule \<Rightarrow> routing_topology" where
  "build_inline profiles pools availability t rule =
     (let resolved_target =
            (case Option.bind (strip_prefix ''capability:'' (rr_target rule)) (\<lambda>capability.
                List.find (\<lambda>p. pr_enabled p \<and> pr_protocol_id p = capability) profiles) of
               None \<Rightarrow> rr_target rule | Some p \<Rightarrow> pr_name p);
          (matchers, unsupported) = domain_matchers [rr_condition rule];
          path = resolve_target (length (tg_paths t) + 1) (''rule:'' @ rr_id rule) (rr_condition rule)
                   1 resolved_target profiles pools availability;
          path = path\<lparr>pt_matchers := matchers, pt_has_unsupported := unsupported\<rparr>;
          path = apply_pool_state path (tg_pools t);
          lost = starts_with (rr_target rule) ''capability:'' \<and> resolved_target = rr_target rule;
          path = (if lost then path\<lparr>pt_state := TsUnresolved,
                      pt_detail := ''Capability selector resolves to no enabled profile''\<rparr> else path);
          t = (if lost then add_issue (''rule:'' @ rr_id rule) (pt_detail path) t else t);
          t = (if unsupported then add_issue (pt_source path)
                 ''Matcher requires runtime data or is not supported by domain inspection'' t else t) in
      push_path path t)"

definition implicit_fallback :: "nat \<Rightarrow> topology_path" where
  "implicit_fallback order =
     \<lparr>pt_order = order, pt_source = ''implicit-fallback'', pt_matcher = ''No explicit MATCH rule'',
      pt_entry_count = 0, pt_target = ''runtime-dependent'', pt_target_kind = TkFallback,
      pt_profile = None, pt_runtime = None, pt_state = TsUnresolved,
      pt_detail = ''Generated policy has no explicit catch-all; no-match behavior is not asserted by Infiproxy'',
      pt_matchers = [], pt_has_unsupported = False\<rparr>"

definition build_fallback :: "routing_topology \<Rightarrow> routing_topology" where
  "build_fallback t =
     (if list_ex (\<lambda>p. MMatch \<in> set (pt_matchers p)) (tg_paths t) then t
      else add_issue ''fallback'' ''No explicit MATCH rule is configured''
             (t\<lparr>tg_paths := tg_paths t @ [implicit_fallback (length (tg_paths t) + 1)]\<rparr>))"

definition inline_rules :: "client_policy \<Rightarrow> routing_policy_rule list" where
  "inline_rules policy = sort_key (\<lambda>r. (rr_priority r, rr_id r)) (filter rr_enabled (cp_rules policy))"

definition pool_map :: "client_policy \<Rightarrow> (string, transport_pool) btmap" where
  "pool_map policy = bt_collect (map (\<lambda>p. (tp_id p, p)) (filter tp_enabled (cp_pools policy))) []"

definition topology_build ::
  "routing_rule_set list \<Rightarrow> client_policy \<Rightarrow> protocol_profile list \<Rightarrow> (string, rule_entry list) btmap
     \<Rightarrow> (string, rule_set_source list) btmap \<Rightarrow> topology_availability \<Rightarrow> routing_topology" where
  "topology_build rule_sets policy profiles entries sources availability =
     (let pools = pool_map policy;
          t0 = \<lparr>tg_paths = [], tg_pools = [], tg_issues = []\<rparr>;
          t1 = foldl (build_pool profiles pools) t0 (bt_values pools);
          t2 = foldl (build_rule_set entries sources profiles pools availability) t1
                 (filter rs_enabled rule_sets);
          t3 = foldl (build_inline profiles pools availability) t2 (inline_rules policy) in
      build_fallback t3)"

subsection \<open>Inspection and the text tree\<close>

definition trim_end_dots :: "string \<Rightarrow> string" where
  "trim_end_dots s = rev (dropWhile (\<lambda>c. c = CHR ''.'') (rev s))"

definition normal_domain :: "string \<Rightarrow> string" where
  "normal_domain domain = to_ascii_lowercase (trim_end_dots (trim domain))"

fun inspect_paths :: "string \<Rightarrow> topology_path list \<Rightarrow> route_inspection option" where
  "inspect_paths domain [] = None"
| "inspect_paths domain (path # paths) =
     (if list_ex (\<lambda>m. matcher_matches m domain) (pt_matchers path)
      then Some \<lparr>ri_domain = domain, ri_outcome = IoMatched, ri_path = Some path,
             ri_explanation = ''First definite match is route #'' @ show_nat (pt_order path)\<rparr>
      else if pt_has_unsupported path
      then Some \<lparr>ri_domain = domain, ri_outcome = IoUncertain, ri_path = Some path,
             ri_explanation = ''Route #'' @ show_nat (pt_order path) @
               '' contains IP, process, regex or other runtime-dependent matching before any later definite match''\<rparr>
      else inspect_paths domain paths)"

definition inspect_domain :: "routing_topology \<Rightarrow> string \<Rightarrow> route_inspection" where
  "inspect_domain t input = (let domain = normal_domain input in
     if \<not> valid_domain domain
     then \<lparr>ri_domain = domain, ri_outcome = IoInvalid, ri_path = None,
           ri_explanation = ''Enter a host name containing only DNS labels''\<rparr>
     else (case inspect_paths domain (tg_paths t) of
        Some r \<Rightarrow> r
      | None \<Rightarrow> \<lparr>ri_domain = domain, ri_outcome = IoDefault,
           ri_path = List.find (\<lambda>p. pt_target_kind p = TkFallback) (tg_paths t),
           ri_explanation =
             ''No configured domain rule definitely matches; no explicit catch-all is available''\<rparr>))"

definition show_two :: "nat \<Rightarrow> string" where
  "show_two n = (if length (show_nat n) < 2 then ''0'' @ show_nat n else show_nat n)"

definition path_lines :: "topology_path \<Rightarrow> string list" where
  "path_lines p =
     [show_two (pt_order p) @ ''. '' @ pt_source p @ '' ['' @ state_label (pt_state p) @ '']'',
      ''    '' @ pt_matcher p @ '' -> '' @ pt_target p]
     @ (case pt_profile p of None \<Rightarrow> [] | Some x \<Rightarrow> [''       profile: '' @ x])
     @ (case pt_runtime p of None \<Rightarrow> [] | Some x \<Rightarrow> [''       runtime: '' @ x])"

definition pool_lines :: "topology_pool \<Rightarrow> string list" where
  "pool_lines p =
     [''- '' @ tl_id p @ '' ('' @ tl_kind p @ '') ['' @ state_label (tl_state p) @ '']'',
      ''    '' @ join '' -> '' (tl_members p)]"

definition text_tree :: "routing_topology \<Rightarrow> string" where
  "text_tree t = join [newline]
     ([''ROUTING / first match wins'']
      @ concat (map path_lines (tg_paths t))
      @ (if tg_pools t = [] then []
         else ''POOLS / client-side member selection'' # concat (map pool_lines (tg_pools t)))
      @ (if tg_issues t = [] then []
         else [''ATTENTION: '' @ show_nat (length (tg_issues t)) @ '' topology issue(s)'']))"

subsection \<open>The wildcard loop computes the glob relation\<close>

fun glob :: "string \<Rightarrow> string \<Rightarrow> bool" where
  "glob [] vs \<longleftrightarrow> vs = []"
| "glob (c # ps) vs \<longleftrightarrow>
     (if c = CHR ''*'' then glob ps vs \<or> (case vs of [] \<Rightarrow> False | _ # ws \<Rightarrow> glob (c # ps) ws)
      else (case vs of [] \<Rightarrow> False | w # ws \<Rightarrow> (c = CHR ''?'' \<or> c = w) \<and> glob ps ws))"

declare glob.simps(2) [simp del]

lemma glob_char [simp]:
  "c \<noteq> CHR ''*'' \<Longrightarrow>
     glob (c # ps) vs \<longleftrightarrow> (case vs of [] \<Rightarrow> False | w # ws \<Rightarrow> (c = CHR ''?'' \<or> c = w) \<and> glob ps ws)"
  by (simp add: glob.simps(2))

lemma glob_star_Nil [simp]: "glob (CHR ''*'' # ps) [] \<longleftrightarrow> glob ps []"
  by (simp add: glob.simps(2))

lemma glob_star_Cons: "glob (CHR ''*'' # ps) (w # ws) \<longleftrightarrow> glob ps (w # ws) \<or> glob (CHR ''*'' # ps) ws"
  by (subst glob.simps(2)) simp

lemma ex_le_Suc: "(\<exists>k \<le> Suc n. P k) \<longleftrightarrow> P 0 \<or> (\<exists>k \<le> n. P (Suc k))"
proof
  assume "\<exists>k \<le> Suc n. P k"
  then obtain k where "k \<le> Suc n" "P k" by blast
  then show "P 0 \<or> (\<exists>k \<le> n. P (Suc k))" by (cases k) auto
qed auto

lemma glob_star: "glob (CHR ''*'' # ps) vs \<longleftrightarrow> (\<exists>k \<le> length vs. glob ps (drop k vs))"
proof (induction vs)
  case Nil
  then show ?case by simp
next
  case (Cons w ws)
  have "(\<exists>k \<le> length (w # ws). glob ps (drop k (w # ws)))
      \<longleftrightarrow> glob ps (w # ws) \<or> (\<exists>k \<le> length ws. glob ps (drop k ws))"
    by (simp add: ex_le_Suc)
  with Cons show ?case by (simp only: glob_star_Cons)
qed

text \<open>A pattern segment without a star consumes exactly its own length.\<close>

fun seg_ok :: "string \<Rightarrow> string \<Rightarrow> bool" where
  "seg_ok [] vs \<longleftrightarrow> vs = []"
| "seg_ok (c # ps) vs \<longleftrightarrow> (case vs of [] \<Rightarrow> False | w # ws \<Rightarrow> (c = CHR ''?'' \<or> c = w) \<and> seg_ok ps ws)"

lemma glob_seg:
  "CHR ''*'' \<notin> set seg \<Longrightarrow> glob (seg @ ps) vs \<longleftrightarrow>
     length seg \<le> length vs \<and> seg_ok seg (take (length seg) vs) \<and> glob ps (drop (length seg) vs)"
  by (induction seg arbitrary: vs) (auto split: list.splits)

lemma seg_ok_snoc:
  "seg_ok seg vs \<Longrightarrow> c = CHR ''?'' \<or> c = w \<Longrightarrow> seg_ok (seg @ [c]) (vs @ [w])"
  by (induction seg vs rule: seg_ok.induct) (auto split: list.splits)

lemma seg_ok_length: "seg_ok seg vs \<Longrightarrow> length vs = length seg"
  by (induction seg vs rule: seg_ok.induct) (auto split: list.splits)

lemma glob_Nil_value: "glob ps [] \<longleftrightarrow> skip_stars ps = []"
proof (induction ps)
  case (Cons c ps)
  then show ?case by (cases "c = CHR ''*''") auto
qed simp

text \<open>
  The state of the loop after a star at \<open>s\<close> was tried from \<open>retry\<close>: the segment between the star
  and \<open>p\<close> matches the val between \<open>retry\<close> and \<open>v\<close>, and the whole answer is whether the pattern
  after the star matches from some position at or after \<open>retry\<close>.
\<close>

definition wild_inv :: "string \<Rightarrow> string \<Rightarrow> nat \<Rightarrow> nat \<Rightarrow> nat option \<Rightarrow> nat \<Rightarrow> bool" where
  "wild_inv pattern val p v star retry \<longleftrightarrow>
     p \<le> length pattern \<and> v \<le> length val \<and>
     (case star of
        None \<Rightarrow> (glob pattern val \<longleftrightarrow> glob (drop p pattern) (drop v val))
      | Some s \<Rightarrow>
          retry \<le> v \<and> s < p \<and> p - Suc s = v - retry
          \<and> CHR ''*'' \<notin> set (take (p - Suc s) (drop (Suc s) pattern))
          \<and> seg_ok (take (p - Suc s) (drop (Suc s) pattern)) (take (v - retry) (drop retry val))
          \<and> (glob pattern val \<longleftrightarrow>
               (\<exists>k. retry \<le> k \<and> k \<le> length val \<and> glob (drop (Suc s) pattern) (drop k val))))"

lemma drop_segment:
  "s < p \<Longrightarrow> drop (Suc s) xs = take (p - Suc s) (drop (Suc s) xs) @ drop p xs"
proof -
  assume "s < p"
  then have "drop (p - Suc s) (drop (Suc s) xs) = drop p xs" by simp
  then show ?thesis by (metis append_take_drop_id)
qed

text \<open>What the current attempt of the star at \<open>s\<close> amounts to.\<close>

lemma wild_attempt:
  assumes "wild_inv pattern val p v (Some s) retry"
  shows "glob (drop (Suc s) pattern) (drop retry val) \<longleftrightarrow> glob (drop p pattern) (drop v val)"
proof -
  let ?seg = "take (p - Suc s) (drop (Suc s) pattern)"
  have a: "retry \<le> v" "s < p" "p - Suc s = v - retry" "CHR ''*'' \<notin> set ?seg" "p \<le> length pattern"
    "seg_ok ?seg (take (v - retry) (drop retry val))" "v \<le> length val"
    using assms by (auto simp: wild_inv_def)
  have len: "length ?seg = v - retry" using a by auto
  have "drop (v - retry) (drop retry val) = drop v val" using a by simp
  moreover have "glob (drop (Suc s) pattern) (drop retry val)
      \<longleftrightarrow> glob (?seg @ drop p pattern) (drop retry val)"
    by (rule arg_cong [OF drop_segment [OF a(2)]])
  ultimately show ?thesis
    using glob_seg [OF a(4), of "drop p pattern" "drop retry val"] a(1,3,6,7) len
    by (simp add: diff_le_mono)
qed

text \<open>Any later attempt of the star passes through the rest of the pattern at a later position.\<close>

lemma wild_later:
  assumes "wild_inv pattern val p v (Some s) retry"
    and "retry \<le> k" "k \<le> length val" "glob (drop (Suc s) pattern) (drop k val)"
  shows "v + (k - retry) \<le> length val \<and> glob (drop p pattern) (drop (v + (k - retry)) val)"
proof -
  let ?seg = "take (p - Suc s) (drop (Suc s) pattern)"
  have a: "retry \<le> v" "s < p" "p - Suc s = v - retry" "CHR ''*'' \<notin> set ?seg" "p \<le> length pattern"
    using assms by (auto simp: wild_inv_def)
  have len: "length ?seg = v - retry" using a by auto
  have "glob (?seg @ drop p pattern) (drop k val)"
    using assms(4) drop_segment [OF a(2), of pattern] by (simp only:)
  then have "length ?seg \<le> length (drop k val)" "glob (drop p pattern) (drop (length ?seg) (drop k val))"
    unfolding glob_seg [OF a(4)] by (simp_all only: simp_thms)
  then show ?thesis using len a(1) assms(2,3) by (simp only: len length_drop drop_drop) (auto simp: add.commute)
qed

lemma wild_inv_char:
  assumes inv: "wild_inv pattern val p v star retry" and "v < length val" "p < length pattern"
    and m: "pattern ! p = CHR ''?'' \<or> pattern ! p = val ! v" and ns: "pattern ! p \<noteq> CHR ''*''"
  shows "wild_inv pattern val (p + 1) (v + 1) star retry"
proof (cases star)
  case None
  have "glob (drop p pattern) (drop v val) \<longleftrightarrow> glob (drop (Suc p) pattern) (drop (Suc v) val)"
    using assms by (auto simp: Cons_nth_drop_Suc [symmetric])
  then show ?thesis using inv assms None by (simp add: wild_inv_def)
next
  case (Some s)
  let ?n = "p - Suc s"
  have a: "retry \<le> v" "s < p" "p - Suc s = v - retry"
    using inv Some by (auto simp: wild_inv_def)
  have seg: "take (Suc ?n) (drop (Suc s) pattern) = take ?n (drop (Suc s) pattern) @ [pattern ! p]"
  proof -
    have "drop (Suc s) pattern ! ?n = pattern ! p" using a(2) assms(3) by simp
    moreover have "?n < length (drop (Suc s) pattern)" using a(2) assms(3) by simp
    ultimately show ?thesis by (simp only: take_Suc_conv_app_nth)
  qed
  have val: "take (Suc (v - retry)) (drop retry val) = take (v - retry) (drop retry val) @ [val ! v]"
  proof -
    have "drop retry val ! (v - retry) = val ! v" using a(1) assms(2) by simp
    moreover have "v - retry < length (drop retry val)" using a(1) assms(2) by simp
    ultimately show ?thesis by (simp only: take_Suc_conv_app_nth)
  qed
  have n: "Suc p - Suc s = Suc ?n" "Suc v - retry = Suc (v - retry)" using a by auto
  have "seg_ok (take (Suc ?n) (drop (Suc s) pattern)) (take (Suc (v - retry)) (drop retry val))"
    unfolding seg val using inv Some m by (intro seg_ok_snoc) (auto simp: wild_inv_def)
  moreover have "CHR ''*'' \<notin> set (take (Suc ?n) (drop (Suc s) pattern))"
    unfolding seg using inv Some ns by (auto simp: wild_inv_def)
  ultimately show ?thesis
    using inv assms(2,3) Some a n unfolding wild_inv_def by simp
qed

lemma wild_inv_star:
  assumes inv: "wild_inv pattern val p v star retry" and "v < length val" "p < length pattern"
    and st: "pattern ! p = CHR ''*''"
  shows "wild_inv pattern val (p + 1) v (Some p) v"
proof -
  have rest: "glob (drop p pattern) (drop k val) \<longleftrightarrow>
      (\<exists>j. k \<le> j \<and> j \<le> length val \<and> glob (drop (Suc p) pattern) (drop j val))"
    if "k \<le> length val" for k
  proof -
    have "drop p pattern = CHR ''*'' # drop (Suc p) pattern"
      using assms(3) st by (metis Cons_nth_drop_Suc)
    then have "glob (drop p pattern) (drop k val) \<longleftrightarrow>
        (\<exists>j \<le> length val - k. glob (drop (Suc p) pattern) (drop (j + k) val))"
      by (simp only: glob_star length_drop drop_drop)
    also have "\<dots> \<longleftrightarrow> (\<exists>j. k \<le> j \<and> j \<le> length val \<and> glob (drop (Suc p) pattern) (drop j val))"
      by (metis add.commute add_le_cancel_left le_add2 le_add_diff_inverse that)
    finally show ?thesis .
  qed
  have "glob pattern val \<longleftrightarrow> (\<exists>j. v \<le> j \<and> j \<le> length val \<and> glob (drop (Suc p) pattern) (drop j val))"
  proof (cases star)
    case None
    then show ?thesis using inv rest [of v] assms(2) by (simp add: wild_inv_def)
  next
    case (Some s)
    have g: "glob pattern val \<longleftrightarrow>
        (\<exists>k. retry \<le> k \<and> k \<le> length val \<and> glob (drop (Suc s) pattern) (drop k val))"
      and rv: "retry \<le> v" using inv Some by (auto simp: wild_inv_def)
    show ?thesis
    proof
      assume "glob pattern val"
      then obtain k where k: "retry \<le> k" "k \<le> length val" "glob (drop (Suc s) pattern) (drop k val)"
        using g by blast
      from wild_later [OF _ k] inv Some
      have l: "v + (k - retry) \<le> length val" "glob (drop p pattern) (drop (v + (k - retry)) val)"
        by auto
      then obtain j where "v + (k - retry) \<le> j" "j \<le> length val" "glob (drop (Suc p) pattern) (drop j val)"
        using rest by blast
      then show "\<exists>j. v \<le> j \<and> j \<le> length val \<and> glob (drop (Suc p) pattern) (drop j val)"
        by (metis add_leE)
    next
      assume "\<exists>j. v \<le> j \<and> j \<le> length val \<and> glob (drop (Suc p) pattern) (drop j val)"
      then have "glob (drop p pattern) (drop v val)" using rest [of v] assms(2) by simp
      then have "glob (drop (Suc s) pattern) (drop retry val)"
        using wild_attempt inv Some by blast
      then show "glob pattern val" using g rv assms(2) by (meson le_trans less_imp_le order_refl)
    qed
  qed
  then show ?thesis using assms(2,3) by (simp add: wild_inv_def)
qed

lemma wild_stuck:
  assumes "v < length val"
    and "\<not> (p < length pattern \<and> (pattern ! p = CHR ''?'' \<or> pattern ! p = val ! v))"
    and "\<not> (p < length pattern \<and> pattern ! p = CHR ''*'')"
  shows "\<not> glob (drop p pattern) (drop v val)"
proof (cases "p < length pattern")
  case True
  then show ?thesis using assms by (auto simp: Cons_nth_drop_Suc [symmetric])
next
  case False
  then show ?thesis using assms by simp
qed

lemma wild_inv_retry:
  assumes inv: "wild_inv pattern val p v (Some s) retry" and "v < length val"
    and stuck: "\<not> glob (drop p pattern) (drop v val)"
  shows "wild_inv pattern val (s + 1) (retry + 1) (Some s) (retry + 1)"
proof -
  have "\<not> glob (drop (Suc s) pattern) (drop retry val)"
    using wild_attempt [OF inv] stuck by simp
  then have "(\<exists>k. retry \<le> k \<and> k \<le> length val \<and> glob (drop (Suc s) pattern) (drop k val))
      \<longleftrightarrow> (\<exists>k. Suc retry \<le> k \<and> k \<le> length val \<and> glob (drop (Suc s) pattern) (drop k val))"
    by (metis Suc_leD le_antisym not_less_eq_eq)
  then show ?thesis using inv assms(2) by (auto simp: wild_inv_def)
qed

text \<open>
  Termination: a new star is further right than the last one, a retry moves the attempt to the
  right, and within one attempt the pattern index grows.
\<close>

definition wild_rank :: "string \<Rightarrow> string \<Rightarrow> nat \<Rightarrow> nat option \<Rightarrow> nat \<Rightarrow> nat \<times> nat \<times> nat" where
  "wild_rank pattern val p star retry =
     (length pattern - (case star of None \<Rightarrow> 0 | Some s \<Rightarrow> Suc s), length val - retry, length pattern - p)"

lemma wildcard_loop_step:
  assumes "v < length val"
  shows "wildcard_loop pattern val p v star retry =
     (if p < length pattern \<and> (pattern ! p = CHR ''?'' \<or> pattern ! p = val ! v)
      then wildcard_loop pattern val (p + 1) (v + 1) star retry
      else if p < length pattern \<and> pattern ! p = CHR ''*''
      then wildcard_loop pattern val (p + 1) v (Some p) v
      else (case star of
          Some star_index \<Rightarrow> wildcard_loop pattern val (star_index + 1) (retry + 1) star (retry + 1)
        | None \<Rightarrow> Some None))"
  using assms by (subst wildcard_loop.simps) simp

definition wild_order :: "string \<Rightarrow> string \<Rightarrow> ((nat \<times> nat \<times> nat option \<times> nat) \<times> (nat \<times> nat \<times> nat option \<times> nat)) set" where
  "wild_order pattern val =
     inv_image (less_than <*lex*> less_than <*lex*> less_than)
       (\<lambda>(p, v, star, retry). wild_rank pattern val p star retry)"

lemma wf_wild_order: "wf (wild_order pattern val)"
  unfolding wild_order_def by (intro wf_inv_image wf_lex_prod wf_less_than)

lemma wildcard_loop_end:
  assumes inv: "wild_inv pattern val p v star retry" and "\<not> v < length val"
  shows "glob pattern val \<longleftrightarrow> skip_stars (drop p pattern) = []"
proof -
  have v: "drop v val = []" using assms(2) by simp
  have atp: "glob (drop p pattern) [] \<longleftrightarrow> skip_stars (drop p pattern) = []" by (rule glob_Nil_value)
  show ?thesis
  proof (cases star)
    case None
    then show ?thesis using inv v atp by (simp add: wild_inv_def)
  next
    case (Some s)
    have g: "glob pattern val \<longleftrightarrow>
        (\<exists>k. retry \<le> k \<and> k \<le> length val \<and> glob (drop (Suc s) pattern) (drop k val))"
      and rv: "retry \<le> v" "v \<le> length val" using inv Some by (auto simp: wild_inv_def)
    have later: "glob (drop p pattern) []"
      if "retry \<le> k" "k \<le> length val" "glob (drop (Suc s) pattern) (drop k val)" for k
      using wild_later [OF _ that] inv Some assms(2) by fastforce
    show ?thesis
    proof
      assume "glob pattern val"
      then show "skip_stars (drop p pattern) = []" using g later atp by blast
    next
      assume "skip_stars (drop p pattern) = []"
      then have "glob (drop (Suc s) pattern) (drop retry val)"
        using wild_attempt [of pattern val p v s retry] inv Some v atp by simp
      then show "glob pattern val" using g rv by (meson le_trans order_refl)
    qed
  qed
qed

lemma wildcard_loop_returns:
  assumes "CHR ''*'' \<notin> set val"
  shows "wild_inv pattern val p v star retry \<Longrightarrow>
     \<exists>r. wildcard_loop pattern val p v star retry = Some r
       \<and> (glob pattern val \<longleftrightarrow> (case r of None \<Rightarrow> False | Some q \<Rightarrow> skip_stars (drop q pattern) = []))"
proof (induction "(p, v, star, retry)" arbitrary: p v star retry
    rule: wf_induct_rule [OF wf_wild_order [of pattern val]])
  case 1
  note IH = "1.hyps" and inv = "1.prems"
  show ?case
  proof (cases "v < length val")
    case False
    then show ?thesis using wildcard_loop_end [OF inv] by (subst wildcard_loop.simps) simp
  next
    case True
    let ?char = "p < length pattern \<and> (pattern ! p = CHR ''?'' \<or> pattern ! p = val ! v)"
    let ?star = "p < length pattern \<and> pattern ! p = CHR ''*''"
    consider (char) ?char | (star) "\<not> ?char" ?star | (stuck) "\<not> ?char" "\<not> ?star" by blast
    then show ?thesis
    proof cases
      case char
      have "val ! v \<in> set val" using True by simp
      then have "pattern ! p \<noteq> CHR ''*''" using char assms by auto
      then have "wild_inv pattern val (p + 1) (v + 1) star retry"
        using wild_inv_char [OF inv True] char by simp
      moreover have "((p + 1, v + 1, star, retry), (p, v, star, retry)) \<in> wild_order pattern val"
        using char by (auto simp: wild_rank_def wild_order_def)
      ultimately have "\<exists>r. wildcard_loop pattern val (p + 1) (v + 1) star retry = Some r
         \<and> (glob pattern val \<longleftrightarrow> (case r of None \<Rightarrow> False | Some q \<Rightarrow> skip_stars (drop q pattern) = []))"
        using IH by blast
      then show ?thesis
        using wildcard_loop_step [OF True, of pattern p star retry, unfolded if_P [OF char]] by simp
    next
      case star
      have "wild_inv pattern val (p + 1) v (Some p) v"
        using wild_inv_star [OF inv True] star by simp
      moreover have "((p + 1, v, Some p, v), (p, v, star, retry)) \<in> wild_order pattern val"
        using star inv by (auto simp: wild_rank_def wild_order_def wild_inv_def split: option.splits)
      ultimately have "\<exists>r. wildcard_loop pattern val (p + 1) v (Some p) v = Some r
         \<and> (glob pattern val \<longleftrightarrow> (case r of None \<Rightarrow> False | Some q \<Rightarrow> skip_stars (drop q pattern) = []))"
        using IH by blast
      then show ?thesis
        using wildcard_loop_step [OF True, of pattern p star retry,
            unfolded if_not_P [OF star(1)] if_P [OF star(2)]] by simp
    next
      case stuck
      have st: "\<not> glob (drop p pattern) (drop v val)" using wild_stuck [OF True stuck] .
      show ?thesis
      proof (cases star)
        case None
        then have "\<not> glob pattern val" using inv st by (simp add: wild_inv_def)
        then show ?thesis
          using wildcard_loop_step [OF True, of pattern p star retry,
              unfolded if_not_P [OF stuck(1)] if_not_P [OF stuck(2)]] None by simp
      next
        case (Some s)
        have "wild_inv pattern val (s + 1) (retry + 1) (Some s) (retry + 1)"
          using wild_inv_retry [OF _ True st] inv Some by simp
        moreover have "((s + 1, retry + 1, Some s, retry + 1), (p, v, star, retry)) \<in> wild_order pattern val"
          using inv Some True by (auto simp: wild_rank_def wild_order_def wild_inv_def)
        ultimately have "\<exists>r. wildcard_loop pattern val (s + 1) (retry + 1) (Some s) (retry + 1) = Some r
           \<and> (glob pattern val \<longleftrightarrow> (case r of None \<Rightarrow> False | Some q \<Rightarrow> skip_stars (drop q pattern) = []))"
          using IH by blast
        then show ?thesis
          using wildcard_loop_step [OF True, of pattern p star retry,
              unfolded if_not_P [OF stuck(1)] if_not_P [OF stuck(2)]] Some by simp
      qed
    qed
  qed
qed

lemma wildcard_matches_glob:
  assumes "CHR ''*'' \<notin> set val"
  shows "wildcard_result pattern val = Some (glob pattern val)"
proof -
  have "wild_inv pattern val 0 0 None 0" by (simp add: wild_inv_def)
  from wildcard_loop_returns [OF assms this] show ?thesis
    by (auto simp: wildcard_result_def split: option.splits)
qed

subsection \<open>Inspection finds the first decisive path\<close>

definition decisive :: "string \<Rightarrow> topology_path \<Rightarrow> bool" where
  "decisive domain p \<longleftrightarrow>
     list_ex (\<lambda>m. matcher_matches m domain) (pt_matchers p) \<or> pt_has_unsupported p"

lemma inspect_paths_None: "inspect_paths domain ps = None \<longleftrightarrow> (\<forall>p \<in> set ps. \<not> decisive domain p)"
  by (induction ps) (auto simp: decisive_def)

lemma inspect_paths_Some:
  "inspect_paths domain ps = Some r \<Longrightarrow>
     \<exists>p. List.find (decisive domain) ps = Some p \<and> ri_path r = Some p \<and> ri_domain r = domain
       \<and> ri_outcome r = (if list_ex (\<lambda>m. matcher_matches m domain) (pt_matchers p)
                         then IoMatched else IoUncertain)"
proof (induction ps)
  case Nil
  then show ?case by simp
next
  case (Cons p ps)
  show ?case
  proof (cases "decisive domain p")
    case True
    then show ?thesis using Cons.prems by (auto simp: decisive_def split: if_splits)
  next
    case False
    then show ?thesis using Cons by (auto simp: decisive_def)
  qed
qed

lemma set_join: "set (join sep ls) \<subseteq> set sep \<union> (\<Union>l \<in> set ls. set l)"
proof (induction sep ls rule: join.induct)
  case (3 sep s t ts)
  then show ?case by (simp only: join.simps set_append list.set) blast
qed simp_all

lemma valid_domain_no_star: "valid_domain d \<Longrightarrow> CHR ''*'' \<notin> set d"
proof
  assume v: "valid_domain d" and star: "CHR ''*'' \<in> set d"
  have "d = join [CHR ''.''] (split_on (CHR ''.'') d)" by (simp add: join_split_on)
  then have "CHR ''*'' \<in> set [CHR ''.''] \<union> (\<Union>l \<in> set (split_on (CHR ''.'') d). set l)"
    using star set_join by (metis subsetD)
  then obtain l where "l \<in> set (split_on (CHR ''.'') d)" "CHR ''*'' \<in> set l" by auto
  then have "is_alphanumeric (CHR ''*'') \<or> CHR ''*'' = CHR ''-''"
    using v by (auto simp: valid_domain_def valid_label_def list_all_iff)
  then show False
    by (simp add: is_alphanumeric_def is_digit_def is_lower_def is_upper_def byte_def)
qed

text \<open>The declarative reading of a matcher on a host name.\<close>

definition domain_spec :: "domain_matcher \<Rightarrow> string \<Rightarrow> bool" where
  "domain_spec m d = (case m of
       MExact v \<Rightarrow> d = v
     | MSuffix v \<Rightarrow> d = v \<or> (\<exists>sub. d = sub @ ''.'' @ v)
     | MKeyword v \<Rightarrow> (\<exists>a b. d = a @ v @ b)
     | MWildcard v \<Rightarrow> glob v d
     | MMatch \<Rightarrow> True)"

lemma starts_with_iff: "starts_with s p \<longleftrightarrow> (\<exists>t. s = p @ t)"
  by (auto simp: starts_with_def) (metis append_take_drop_id)

lemma ends_with_iff: "ends_with s p \<longleftrightarrow> (\<exists>t. s = t @ p)"
  by (auto simp: ends_with_def starts_with_iff) (metis rev_append rev_rev_ident)+

lemma contains_str_iff: "contains_str s p \<longleftrightarrow> (\<exists>a b. s = a @ p @ b)"
proof (induction s)
  case Nil
  then show ?case by auto
next
  case (Cons c s)
  have "(\<exists>a b. c # s = a @ p @ b) \<longleftrightarrow> (\<exists>b. c # s = p @ b) \<or> (\<exists>a b. s = a @ p @ b)"
  proof
    assume "\<exists>a b. c # s = a @ p @ b"
    then obtain a b where "c # s = a @ p @ b" by blast
    then show "(\<exists>b. c # s = p @ b) \<or> (\<exists>a b. s = a @ p @ b)" by (cases a) auto
  next
    assume "(\<exists>b. c # s = p @ b) \<or> (\<exists>a b. s = a @ p @ b)"
    then show "\<exists>a b. c # s = a @ p @ b"
    proof
      assume "\<exists>b. c # s = p @ b"
      then obtain b where "c # s = [] @ p @ b" by auto
      then show ?thesis by blast
    next
      assume "\<exists>a b. s = a @ p @ b"
      then obtain a b where "c # s = (c # a) @ p @ b" by auto
      then show ?thesis by blast
    qed
  qed
  then show ?case using Cons by (simp add: starts_with_iff)
qed

lemma matcher_matches_spec: "valid_domain d \<Longrightarrow> matcher_matches m d \<longleftrightarrow> domain_spec m d"
  by (cases m)
    (auto simp: matcher_matches_def domain_spec_def ends_with_iff contains_str_iff
      wildcard_matches_def wildcard_matches_glob valid_domain_no_star)

subsection \<open>The built topology\<close>

definition numbered :: "topology_path list \<Rightarrow> bool" where
  "numbered ps \<longleftrightarrow> map pt_order ps = [1..<Suc (length ps)]"

lemma numbered_snoc: "numbered ps \<Longrightarrow> pt_order p = Suc (length ps) \<Longrightarrow> numbered (ps @ [p])"
  by (simp add: numbered_def)

lemma add_issue_paths [simp]: "tg_paths (add_issue s d t) = tg_paths t"
  by (simp add: add_issue_def)

lemma push_path_paths [simp]: "tg_paths (push_path p t) = tg_paths t @ [p]"
  by (simp add: push_path_def)

lemma build_pool_paths [simp]: "tg_paths (build_pool profiles pools t p) = tg_paths t"
  by (simp add: build_pool_def Let_def)

lemma resolve_target_order [simp]:
  "pt_order (resolve_target n src m e tgt ps pools av) = n"
  "pt_source (resolve_target n src m e tgt ps pools av) = src"
  "pt_target (resolve_target n src m e tgt ps pools av) = tgt"
  by (auto simp: resolve_target_def profile_target_def Let_def split: option.splits)

lemma resolve_target_not_fallback:
  "pt_target_kind (resolve_target n src m e tgt ps pools av) \<noteq> TkFallback"
  by (auto simp: resolve_target_def profile_target_def Let_def split: option.splits)

lemma apply_pool_state_keeps [simp]:
  "pt_order (apply_pool_state p pools) = pt_order p"
  "pt_matchers (apply_pool_state p pools) = pt_matchers p"
  "pt_has_unsupported (apply_pool_state p pools) = pt_has_unsupported p"
  "pt_target_kind (apply_pool_state p pools) = pt_target_kind p"
  by (auto simp: apply_pool_state_def Let_def split: option.splits)

lemma build_rule_set_paths:
  "\<exists>p. tg_paths (build_rule_set es ss ps pools av t rs) = tg_paths t @ [p]
     \<and> pt_order p = Suc (length (tg_paths t)) \<and> pt_target_kind p \<noteq> TkFallback"
  by (auto simp: build_rule_set_def Let_def resolve_target_not_fallback split: prod.splits sum.splits)

lemma build_inline_paths:
  "\<exists>p. tg_paths (build_inline ps pools av t r) = tg_paths t @ [p]
     \<and> pt_order p = Suc (length (tg_paths t)) \<and> pt_target_kind p \<noteq> TkFallback
     \<and> pt_matchers p = fst (domain_matchers [rr_condition r])"
  by (auto simp: build_inline_def Let_def resolve_target_not_fallback split: prod.splits)

lemma foldl_paths:
  assumes "\<And>t x. \<exists>p. tg_paths (f t x) = tg_paths t @ [p]
       \<and> pt_order p = Suc (length (tg_paths t)) \<and> pt_target_kind p \<noteq> TkFallback \<and> Q x p"
    and "numbered (tg_paths t)" and "\<forall>p \<in> set (tg_paths t). pt_target_kind p \<noteq> TkFallback"
  shows "\<exists>ps. tg_paths (foldl f t xs) = tg_paths t @ ps \<and> numbered (tg_paths (foldl f t xs))
       \<and> (\<forall>p \<in> set (tg_paths (foldl f t xs)). pt_target_kind p \<noteq> TkFallback) \<and> list_all2 Q xs ps"
  using assms(2,3)
proof (induction xs arbitrary: t)
  case Nil
  then show ?case by auto
next
  case (Cons x xs)
  obtain p where p: "tg_paths (f t x) = tg_paths t @ [p]" "pt_order p = Suc (length (tg_paths t))"
    "pt_target_kind p \<noteq> TkFallback" "Q x p" using assms(1) by blast
  have "numbered (tg_paths (f t x))" "\<forall>p \<in> set (tg_paths (f t x)). pt_target_kind p \<noteq> TkFallback"
    using p Cons.prems by (auto intro: numbered_snoc)
  from Cons.IH [OF this] show ?case using p by auto
qed

lemma foldl_pools_paths: "tg_paths (foldl (build_pool profiles pools) t ps) = tg_paths t"
  by (induction ps arbitrary: t) auto

lemma topology_build_paths:
  obtains ps qs rest where
    "tg_paths (topology_build rule_sets policy profiles entries sources av) = ps @ qs @ rest"
    "numbered (ps @ qs @ rest)"
    "list_all2 (\<lambda>r p. pt_matchers p = fst (domain_matchers [rr_condition r])) (inline_rules policy) qs"
    "length ps = length (filter rs_enabled rule_sets)"
    "\<forall>p \<in> set (ps @ qs). pt_target_kind p \<noteq> TkFallback"
    "rest = [] \<and> (\<exists>p \<in> set (ps @ qs). MMatch \<in> set (pt_matchers p))
     \<or> rest = [implicit_fallback (Suc (length (ps @ qs)))]
       \<and> (\<forall>p \<in> set (ps @ qs). MMatch \<notin> set (pt_matchers p))"
proof -
  let ?pools = "pool_map policy"
  let ?t0 = "\<lparr>tg_paths = [], tg_pools = [], tg_issues = []\<rparr>"
  let ?t1 = "foldl (build_pool profiles ?pools) ?t0 (bt_values ?pools)"
  let ?t2 = "foldl (build_rule_set entries sources profiles ?pools av) ?t1 (filter rs_enabled rule_sets)"
  let ?t3 = "foldl (build_inline profiles ?pools av) ?t2 (inline_rules policy)"
  have t1: "tg_paths ?t1 = []" by (simp add: foldl_pools_paths)
  have t2: "\<exists>ps. tg_paths ?t2 = tg_paths ?t1 @ ps \<and> numbered (tg_paths ?t2)
       \<and> (\<forall>p \<in> set (tg_paths ?t2). pt_target_kind p \<noteq> TkFallback)
       \<and> list_all2 (\<lambda>_ _. True) (filter rs_enabled rule_sets) ps"
    by (rule foldl_paths) (use build_rule_set_paths in \<open>auto simp: t1 numbered_def\<close>)
  then obtain ps where ps: "tg_paths ?t2 = ps" "numbered ps"
    "\<forall>p \<in> set ps. pt_target_kind p \<noteq> TkFallback" "length ps = length (filter rs_enabled rule_sets)"
    by (auto simp: t1 list_all2_lengthD)
  have t3: "\<exists>qs. tg_paths ?t3 = tg_paths ?t2 @ qs \<and> numbered (tg_paths ?t3)
       \<and> (\<forall>p \<in> set (tg_paths ?t3). pt_target_kind p \<noteq> TkFallback)
       \<and> list_all2 (\<lambda>r p. pt_matchers p = fst (domain_matchers [rr_condition r])) (inline_rules policy) qs"
    by (rule foldl_paths) (use build_inline_paths ps in auto)
  then obtain qs where qs: "tg_paths ?t3 = ps @ qs" "numbered (ps @ qs)"
    "\<forall>p \<in> set (ps @ qs). pt_target_kind p \<noteq> TkFallback"
    "list_all2 (\<lambda>r p. pt_matchers p = fst (domain_matchers [rr_condition r])) (inline_rules policy) qs"
    by (auto simp: ps)
  have final: "topology_build rule_sets policy profiles entries sources av = build_fallback ?t3"
    by (simp only: topology_build_def Let_def)
  show ?thesis
  proof (cases "\<exists>p \<in> set (ps @ qs). MMatch \<in> set (pt_matchers p)")
    case True
    then have "tg_paths (build_fallback ?t3) = ps @ qs @ []"
      using qs(1) by (auto simp: build_fallback_def list_ex_iff)
    then show ?thesis using that [of ps qs "[]"] True qs ps final by auto
  next
    case False
    then have p: "tg_paths (build_fallback ?t3) = ps @ qs @ [implicit_fallback (Suc (length (ps @ qs)))]"
      using qs(1) by (auto simp: build_fallback_def list_ex_iff)
    have "numbered ((ps @ qs) @ [implicit_fallback (Suc (length (ps @ qs)))])"
      using qs(2) by (intro numbered_snoc) (simp_all add: implicit_fallback_def)
    then show ?thesis
      using that [of ps qs "[implicit_fallback (Suc (length (ps @ qs)))]"] False p qs ps final by auto
  qed
qed

end
