(* ===== verification/Routing_Claims.thy ===== *)
theory Routing_Claims
  imports Topology
begin

text \<open>
  The properties of client routing: the rule-set validator and compiler, the pool graph and the
  resolution of pools, the built-in policy, the wildcard matcher and domain inspection.
\<close>

subsection \<open>Rule sets\<close>


text \<open>
  C21: a compiled rule set is canonical. It is the operator's enabled entries, then the local
  payload, then the enabled sources, each rule once (compared without regard to ASCII case, the
  first spelling kept), and it survives the round trip: its lines are those rules, and validating
  it again gives them back unchanged.
\<close>

theorem compiled_rule_set_is_canonical:
  assumes "compile_rule_set_payload entries payload sources = Inr p"
  shows "\<exists>own loc remote.
      compiled_entries entries = Inr own \<and> local_rules payload = Inr loc
      \<and> source_rules (filter src_enabled sources) = Inr remote
      \<and> lines p = retain_new to_ascii_lowercase [] (own @ loc @ remote)
      \<and> distinct (map to_ascii_lowercase (lines p))
      \<and> to_ascii_lowercase ` set (lines p) = to_ascii_lowercase ` (set own \<union> set loc \<union> set remote)
      \<and> validate_classical_rule_payload p = Inr (lines p)"
proof -
  from compile_Inr [OF assms] obtain own loc remote compiled where
    c: "compiled_entries entries = Inr own" "local_rules payload = Inr loc"
    "source_rules (filter src_enabled sources) = Inr remote"
    "compiled = retain_new to_ascii_lowercase [] (own @ loc @ remote)"
    "lines p = compiled" "validate_classical_rule_payload p = Inr compiled" by metis
  have "distinct (map to_ascii_lowercase compiled)"
    unfolding c(4) by (rule retain_new_distinct)
  moreover have "to_ascii_lowercase ` set compiled
      = to_ascii_lowercase ` (set own \<union> set loc \<union> set remote)"
    unfolding c(4) retain_new_keys by (simp add: image_Un Un_assoc)
  ultimately show ?thesis
    using c(1,2,3,6) unfolding c(5)
    by (intro exI [of _ own] exI [of _ loc] exI [of _ remote]) (simp only: c(4) simp_thms)
qed

definition sample_rule :: "string \<Rightarrow> rule_entry" where
  "sample_rule v =
     \<lparr>re_id = ''r1'', re_rule_set_id = ''custom-direct'', re_enabled = True, re_kind = RkDomainSuffix,
      re_value = v, re_comment = None, re_source_tag = None, re_priority = 0\<rparr>"

lemma sample_compiles:
  "compile_rule_set_payload [sample_rule '' a.b''] ''domain-suffix,A.B'' [] = Inl ''line 1 uses an unsupported rule type''"
  "compile_rule_set_payload [sample_rule '' a.b''] ''DOMAIN-SUFFIX,A.B'' [] = Inr ''DOMAIN-SUFFIX,a.b''"
  by code_simp+

theorem compiled_rule_set_is_canonical_witness:
  "\<exists>own loc remote.
      compiled_entries [sample_rule '' a.b''] = Inr own \<and> local_rules ''DOMAIN-SUFFIX,A.B'' = Inr loc
      \<and> source_rules (filter src_enabled []) = Inr remote
      \<and> lines ''DOMAIN-SUFFIX,a.b'' = retain_new to_ascii_lowercase [] (own @ loc @ remote)
      \<and> distinct (map to_ascii_lowercase (lines ''DOMAIN-SUFFIX,a.b''))
      \<and> to_ascii_lowercase ` set (lines ''DOMAIN-SUFFIX,a.b'')
          = to_ascii_lowercase ` (set own \<union> set loc \<union> set remote)
      \<and> validate_classical_rule_payload ''DOMAIN-SUFFIX,a.b'' = Inr (lines ''DOMAIN-SUFFIX,a.b'')"
  by (rule compiled_rule_set_is_canonical [OF sample_compiles(2)])

text \<open>
  The emptiness check looks at everything after the first comma, so a rule whose value is empty
  passes as long as the modifier follows.
\<close>

lemma empty_value_is_accepted:
  "validate_classical_rule_payload ''IP-CIDR,,no-resolve'' = Inr [''IP-CIDR,,no-resolve'']"
  by code_simp

subsection \<open>Pools and the built-in policy\<close>

text \<open>
  C22: the cycle search over transport pools terminates on every input (it is a total function)
  and, run from every enabled pool as the validation does, accepts exactly the policies whose
  graph of enabled pools (members and fallbacks) has no cycle.
\<close>

theorem pool_cycle_check_decides:
  "list_all (\<lambda>p. detect_cycle pools (tp_id p) [] (tp_id p) = Inr ()) (filter tp_enabled pools)
     \<longleftrightarrow> acyclic (edges (pool_succ pools))"
  unfolding acyclic_def detect_cycles_decide [symmetric] list_all_iff by simp

text \<open>
  Resolving a policy gives every enabled pool, in order, with the members its selectors
  stand for: at least one, each once, and each either \<open>DIRECT\<close>, \<open>REJECT\<close>, an enabled profile or
  an enabled pool. The pool references that are left form an acyclic graph inside the policy, so
  the generated groups never refer to something that is not generated and never loop.
\<close>

theorem resolved_pools_are_concrete:
  assumes "resolved_pools cp profiles = Inr out"
  shows "map fst out = filter tp_enabled (cp_pools cp)
     \<and> list_all (\<lambda>(p, ms). ms \<noteq> [] \<and> distinct ms
          \<and> set ms \<subseteq> {''DIRECT'', ''REJECT''} \<union> set (enabled_pool_ids cp) \<union> set (enabled_profile_names profiles)
          \<and> set ms = set (concat (map (resolve_member (filter pr_enabled profiles)) (tp_members p)))) out
     \<and> closed_under (pool_succ (cp_pools cp)) (set (enabled_pool_ids cp))
     \<and> acyclic (edges (pool_succ (cp_pools cp)))"
proof (intro conjI)
  have v: "client_policy_validate cp profiles = Inr ()"
    using assms by (auto simp: resolved_pools_def and_then_Inr_iff)
  show "map fst out = filter tp_enabled (cp_pools cp)" by (rule resolved_pools_Inr(1) [OF assms])
  show "closed_under (pool_succ (cp_pools cp)) (set (enabled_pool_ids cp))"
    by (rule validated_graph(1) [OF v])
  show "acyclic (edges (pool_succ (cp_pools cp)))"
    unfolding acyclic_def by (rule validated_graph(2) [OF v])
  show "list_all (\<lambda>(p, ms). ms \<noteq> [] \<and> distinct ms
          \<and> set ms \<subseteq> {''DIRECT'', ''REJECT''} \<union> set (enabled_pool_ids cp) \<union> set (enabled_profile_names profiles)
          \<and> set ms = set (concat (map (resolve_member (filter pr_enabled profiles)) (tp_members p)))) out"
    using resolved_pools_Inr(2) [OF assms] by (auto simp: list_all_iff policy_targets_def)
qed

definition sample_policy :: client_policy where
  "sample_policy =
     \<lparr>cp_pools = [automatic_pool ''A'' PkSelect [MPool ''B'', MDirect, MPool ''B''] 5 None 1,
                  automatic_pool ''B'' PkSelect [MReject] 5 None 1],
      cp_rules = []\<rparr>"

lemma sample_policy_resolves:
  "resolved_pools sample_policy [] =
     Inr [(automatic_pool ''A'' PkSelect [MPool ''B'', MDirect, MPool ''B''] 5 None 1, [''B'', ''DIRECT'']),
          (automatic_pool ''B'' PkSelect [MReject] 5 None 1, [''REJECT''])]"
  by code_simp

theorem resolved_pools_are_concrete_witness:
  "\<exists>out. map fst out = filter tp_enabled (cp_pools sample_policy)
     \<and> list_all (\<lambda>(p, ms). ms \<noteq> [] \<and> distinct ms
          \<and> set ms \<subseteq> {''DIRECT'', ''REJECT''} \<union> set (enabled_pool_ids sample_policy) \<union> set (enabled_profile_names [])
          \<and> set ms = set (concat (map (resolve_member (filter pr_enabled [])) (tp_members p)))) out
     \<and> closed_under (pool_succ (cp_pools sample_policy)) (set (enabled_pool_ids sample_policy))
     \<and> acyclic (edges (pool_succ (cp_pools sample_policy)))"
  using resolved_pools_are_concrete [OF sample_policy_resolves] by blast

text \<open>
  What the panel installs on first start is always usable. The built-in client policy passes
  its own validation whatever profiles exist (none included), the built-in DNS policy passes its
  own, and the role names stored with a profile parse back to exactly the role they were written
  for.
\<close>

theorem builtin_policy_is_valid:
  "client_policy_validate default_client_policy profiles = Inr ()
   \<and> dns_policy_validate default_dns_policy = Inr ()
   \<and> (parse_role v = Inr r \<longleftrightarrow> v = role_name r)"
proof (intro conjI)
  show "client_policy_validate default_client_policy profiles = Inr ()" by (rule default_policy_ok)
  show "dns_policy_validate default_dns_policy = Inr ()" by code_simp
  show "parse_role v = Inr r \<longleftrightarrow> v = role_name r" by (rule parse_role_Inr)
qed

subsection \<open>Domain inspection\<close>

text \<open>
  C25: the backtracking wildcard matcher returns on every pattern and every host name, and its
  answer is the glob relation: \<open>?\<close> stands for one byte, \<open>*\<close> for any run of bytes.
\<close>

theorem wildcard_matcher_is_glob:
  assumes "valid_domain d"
  shows "wildcard_result pattern d = Some (glob pattern d)"
  by (rule wildcard_matches_glob) (rule valid_domain_no_star [OF assms])

theorem wildcard_matcher_is_glob_witness:
  "wildcard_result ''*.a*.org'' ''x.a.ab.org'' = Some (glob ''*.a*.org'' ''x.a.ab.org'')"
  by (rule wildcard_matcher_is_glob) code_simp

lemma list_all2_mem: "list_all2 P xs ys \<Longrightarrow> x \<in> set xs \<Longrightarrow> \<exists>y \<in> set ys. P x y"
  by (induction rule: list_all2_induct) auto

text \<open>
  C26: inspection of a built topology reports the first route that decides the host name: the
  first in order whose rules match it or cannot be simulated, as matched or as uncertain. It says
  default only if no route matches and none is uncertain, and then no enabled inline rule is a
  catch-all and the route shown is the implicit fallback. The routes are numbered from 1 in order.
\<close>

theorem inspection_is_first_match:
  assumes "t = topology_build rule_sets policy profiles entries sources av"
    and "d = normal_domain input" and "valid_domain d"
  shows "map pt_order (tg_paths t) = [1..<Suc (length (tg_paths t))]
     \<and> (case List.find (\<lambda>p. list_ex (\<lambda>m. domain_spec m d) (pt_matchers p) \<or> pt_has_unsupported p)
               (tg_paths t) of
          Some p \<Rightarrow> ri_path (inspect_domain t input) = Some p
            \<and> ri_outcome (inspect_domain t input) =
                (if list_ex (\<lambda>m. domain_spec m d) (pt_matchers p) then IoMatched else IoUncertain)
        | None \<Rightarrow> ri_outcome (inspect_domain t input) = IoDefault
            \<and> ri_path (inspect_domain t input) = Some (implicit_fallback (length (tg_paths t)))
            \<and> ''MATCH'' \<notin> set (map rr_condition (filter rr_enabled (cp_rules policy))))"
    (is "_ \<and> (case List.find ?dec _ of Some p \<Rightarrow> ?some p | None \<Rightarrow> ?none)")
proof -
  obtain ps qs rest where t: "tg_paths t = ps @ qs @ rest" and num: "numbered (ps @ qs @ rest)"
    and q: "list_all2 (\<lambda>r p. pt_matchers p = fst (domain_matchers [rr_condition r])) (inline_rules policy) qs"
    and nf: "\<forall>p \<in> set (ps @ qs). pt_target_kind p \<noteq> TkFallback"
    and rest: "rest = [] \<and> (\<exists>p \<in> set (ps @ qs). MMatch \<in> set (pt_matchers p))
     \<or> rest = [implicit_fallback (Suc (length (ps @ qs)))]
       \<and> (\<forall>p \<in> set (ps @ qs). MMatch \<notin> set (pt_matchers p))"
    unfolding assms(1) by (rule topology_build_paths)
  have dec: "?dec = decisive d"
    using assms(3) by (auto simp: decisive_def matcher_matches_spec fun_eq_iff)
  have spec: "list_ex (\<lambda>m. matcher_matches m d) ms = list_ex (\<lambda>m. domain_spec m d) ms" for ms
    using assms(3) by (simp add: matcher_matches_spec list_ex_iff)
  have mm: "decisive d p" if "MMatch \<in> set (pt_matchers p)" for p
    using that by (auto simp: decisive_def list_ex_iff matcher_matches_def split: domain_matcher.splits)
  have "case List.find ?dec (tg_paths t) of Some p \<Rightarrow> ?some p | None \<Rightarrow> ?none"
  proof (cases "inspect_paths d (tg_paths t)")
    case None
    then have nd: "\<forall>p \<in> set (tg_paths t). \<not> decisive d p" by (simp add: inspect_paths_None)
    then have f: "List.find ?dec (tg_paths t) = None" by (simp add: dec find_None_all)
    have r: "rest = [implicit_fallback (Suc (length (ps @ qs)))]"
      and none: "\<forall>p \<in> set (ps @ qs). MMatch \<notin> set (pt_matchers p)"
      using rest nd mm t by auto
    have "''MATCH'' \<notin> rr_condition ` set (inline_rules policy)"
    proof
      assume "''MATCH'' \<in> rr_condition ` set (inline_rules policy)"
      then obtain rl where "rl \<in> set (inline_rules policy)" and cond: "rr_condition rl = ''MATCH''"
        by force
      then obtain p where "p \<in> set qs" "pt_matchers p = fst (domain_matchers [rr_condition rl])"
        using list_all2_mem [OF q] by blast
      moreover have "MMatch \<in> set (fst (domain_matchers [''MATCH'']))" by code_simp
      ultimately have "MMatch \<in> set (pt_matchers p)" by (simp only: cond)
      then show False using none \<open>p \<in> set qs\<close> by auto
    qed
    then have "''MATCH'' \<notin> set (map rr_condition (filter rr_enabled (cp_rules policy)))"
      by (simp add: inline_rules_def)
    moreover have "List.find (\<lambda>p. pt_target_kind p = TkFallback) (tg_paths t)
        = Some (implicit_fallback (length (tg_paths t)))" (is "_ = Some ?fb")
    proof -
      have "tg_paths t = (ps @ qs) @ ?fb # []" using t r by simp
      moreover have "pt_target_kind ?fb = TkFallback" by (simp add: implicit_fallback_def)
      ultimately show ?thesis unfolding find_first using nf by blast
    qed
    ultimately show ?thesis
      using f None assms(2,3) by (simp add: inspect_domain_def Let_def)
  next
    case (Some r)
    from inspect_paths_Some [OF Some] obtain p where p: "List.find (decisive d) (tg_paths t) = Some p"
      "ri_path r = Some p"
      "ri_outcome r = (if list_ex (\<lambda>m. matcher_matches m d) (pt_matchers p) then IoMatched else IoUncertain)"
      by blast
    have "inspect_domain t input = r"
      using Some assms(2,3) by (simp add: inspect_domain_def Let_def)
    then show ?thesis using p by (simp add: dec spec)
  qed
  then show ?thesis using num t by (simp add: numbered_def)
qed

text \<open>The built-in policy, no profile: everything ends at the catch-all or earlier.\<close>

definition sample_topology :: routing_topology where
  "sample_topology = topology_build [] sample_policy [] [] [] \<lparr>av_protocol_adapters = [], av_profile_runtimes = []\<rparr>"

theorem inspection_is_first_match_witness:
  "map pt_order (tg_paths sample_topology) = [1..<Suc (length (tg_paths sample_topology))]
     \<and> (case List.find (\<lambda>p. list_ex (\<lambda>m. domain_spec m ''a.org'') (pt_matchers p) \<or> pt_has_unsupported p)
               (tg_paths sample_topology) of
          Some p \<Rightarrow> ri_path (inspect_domain sample_topology ''A.org.'') = Some p
            \<and> ri_outcome (inspect_domain sample_topology ''A.org.'') =
                (if list_ex (\<lambda>m. domain_spec m ''a.org'') (pt_matchers p) then IoMatched else IoUncertain)
        | None \<Rightarrow> ri_outcome (inspect_domain sample_topology ''A.org.'') = IoDefault
            \<and> ri_path (inspect_domain sample_topology ''A.org.'')
                = Some (implicit_fallback (length (tg_paths sample_topology)))
            \<and> ''MATCH'' \<notin> set (map rr_condition (filter rr_enabled (cp_rules sample_policy))))"
proof (rule inspection_is_first_match)
  show "sample_topology = topology_build [] sample_policy [] [] [] \<lparr>av_protocol_adapters = [], av_profile_runtimes = []\<rparr>"
    by (rule sample_topology_def)
  show "''a.org'' = normal_domain ''A.org.''" by code_simp
  show "valid_domain ''a.org''" by code_simp
qed

end
