(* ===== verification/Mihomo.thy ===== *)
theory Mihomo
  imports Policy Adapter
begin

text \<open>
  \<open>mihomo.rs\<close>: assembly of one client subscription. Protocol adapters render single proxies; this
  code selects the available profiles, resolves pools and rules against them and builds the
  document. A \<open>json!\<close> object is a key-sorted map; the YAML serializer is a parameter.
\<close>

definition jobj :: "(string \<times> json) list \<Rightarrow> json" where
  "jobj kvs = JObject (bt_collect kvs [])"

definition jstrings :: "string list \<Rightarrow> json" where
  "jstrings xs = JArray (map JString xs)"

definition RU_GEOSITE_URL :: string where
  "RU_GEOSITE_URL = ''https://cdn.jsdelivr.net/gh/GrimbirdUsers/ru-routing-dat@main/geosite.dat''"

definition RU_GEOIP_URL :: string where
  "RU_GEOIP_URL = ''https://cdn.jsdelivr.net/gh/GrimbirdUsers/ru-routing-dat@main/geoip.dat''"

definition HEALTH_CHECK_URL :: string where
  "HEALTH_CHECK_URL = ''https://www.gstatic.com/generate_204''"

record mihomo_input =
  mi_settings :: panel_settings
  mi_user :: subscription_user
  mi_profiles :: "protocol_profile list"
  mi_secrets :: "(string, string) btmap"
  mi_rule_sets :: "routing_rule_set list"
  mi_policy :: client_policy
  mi_dns_policy :: dns_policy
  mi_capabilities :: "string set option"

record mihomo_output =
  mo_yaml :: string
  mo_warnings :: "string list"

subsection \<open>Which profiles are served\<close>

definition skip_warning :: "protocol_profile \<Rightarrow> string \<Rightarrow> string" where
  "skip_warning p why = ''profile `'' @ pr_name p @ ''` skipped: '' @ why"

definition unavailable_reason ::
  "protocol_registry \<Rightarrow> string set option \<Rightarrow> protocol_profile \<Rightarrow> string option" where
  "unavailable_reason reg capabilities p =
     (case bt_get reg (pr_protocol_id p) of
        None \<Rightarrow> Some ''protocol adapter is unavailable''
      | Some adapter \<Rightarrow>
          (case capabilities of
             None \<Rightarrow> None
           | Some caps \<Rightarrow> if \<not> pa_required adapter \<subseteq> caps
               then Some ''compatible runtime is unavailable'' else None))"

text \<open>The loop over the enabled profiles: proxies, available profiles and warnings.\<close>

fun render_profiles ::
  "protocol_registry \<Rightarrow> string set option \<Rightarrow> subscription_user \<Rightarrow> secret_resolver \<Rightarrow> protocol_profile list
     \<Rightarrow> (json list \<times> protocol_profile list \<times> string list) res" where
  "render_profiles reg capabilities user secrets [] = Ok ([], [], [])"
| "render_profiles reg capabilities user secrets (p # ps) =
     (case unavailable_reason reg capabilities p of
        Some why \<Rightarrow>
          and_then (render_profiles reg capabilities user secrets ps) (\<lambda>(proxies, available, warnings).
            Ok (proxies, available, skip_warning p why # warnings))
      | None \<Rightarrow>
          and_then (case bt_get reg (pr_protocol_id p) of
                      Some adapter \<Rightarrow> pa_render_client adapter p user secrets
                    | None \<Rightarrow> Err ''unreachable'') (\<lambda>proxy.
          and_then (render_profiles reg capabilities user secrets ps) (\<lambda>(proxies, available, warnings).
            Ok (proxy # proxies, p # available, warnings))))"

subsection \<open>The document\<close>

definition active_routing_rule_sets :: "routing_rule_set list \<Rightarrow> routing_rule_set list" where
  "active_routing_rule_sets rule_sets = filter rs_enabled rule_sets"

definition dns_config :: "dns_policy \<Rightarrow> routing_rule_set list \<Rightarrow> json" where
  "dns_config policy rule_sets =
     jobj [(''enable'', JBool (dp_enabled policy)),
           (''ipv6'', JBool (dp_ipv6 policy)),
           (''enhanced-mode'', JString (dp_enhanced_mode policy)),
           (''respect-rules'', JBool (dp_respect_rules policy)),
           (''default-nameserver'', jstrings (dp_bootstrap_resolvers policy)),
           (''proxy-server-nameserver'', jstrings (dp_bootstrap_resolvers policy)),
           (''nameserver'', jstrings (dp_remote_resolvers policy)),
           (''direct-nameserver'', jstrings (dp_direct_resolvers policy)),
           (''direct-nameserver-follow-policy'', JBool True),
           (''nameserver-policy'', jobj (map (\<lambda>rs.
              (''rule-set:'' @ rs_slug rs,
               jstrings (if rs_target rs = ''DIRECT'' then dp_direct_resolvers policy
                         else dp_remote_resolvers policy))) rule_sets))]"

definition opt_entry :: "string \<Rightarrow> ('a \<Rightarrow> json) \<Rightarrow> 'a option \<Rightarrow> (string \<times> json) list" where
  "opt_entry k f x = (case x of None \<Rightarrow> [] | Some v \<Rightarrow> [(k, f v)])"

definition jword :: "u32 \<Rightarrow> json" where "jword w = JNum (uint w)"

definition proxy_group :: "transport_pool \<times> string list \<Rightarrow> json" where
  "proxy_group pm = (case pm of (pool, members) \<Rightarrow>
     jobj ([(''name'', JString (tp_id pool)),
            (''type'', JString (pool_kind_name (tp_kind pool))),
            (''proxies'', jstrings members)]
       @ opt_entry ''url'' JString (tp_test_url pool)
       @ opt_entry ''interval'' jword (tp_interval_seconds pool)
       @ opt_entry ''timeout'' jword (tp_timeout_ms pool)
       @ opt_entry ''tolerance'' jword (tp_tolerance_ms pool)
       @ opt_entry ''max-failed-times'' jword (tp_max_failures pool)
       @ [(''lazy'', JBool (tp_lazy pool))]
       @ (if tp_test_url pool = Some HEALTH_CHECK_URL then [(''expected-status'', JNum 204)] else [])
       @ (if tp_kind pool = PkSelect
          then (case members of [] \<Rightarrow> [] | first # _ \<Rightarrow> [(''default-selected'', JString first)]) else [])
       @ opt_entry ''strategy'' JString (tp_strategy pool)))"

definition proxy_groups :: "(transport_pool \<times> string list) list \<Rightarrow> json list" where
  "proxy_groups pools = map proxy_group pools"

definition rule_provider_map :: "panel_settings \<Rightarrow> routing_rule_set list \<Rightarrow> json" where
  "rule_provider_map settings rule_sets =
     jobj (map (\<lambda>rs. (rs_slug rs,
       jobj [(''type'', JString ''http''),
             (''behavior'', JString ''classical''),
             (''format'', JString ''yaml''),
             (''path'', JString (''./rules/'' @ rs_slug rs @ ''.yaml'')),
             (''url'', JString (''https://'' @ subscription_domain settings @ ''/rules/'' @ rs_slug rs @ ''.yaml'')),
             (''interval'', JNum 3600)])) rule_sets)"

definition routing_rules ::
  "routing_rule_set list \<Rightarrow> client_policy \<Rightarrow> protocol_profile list \<Rightarrow> string list res" where
  "routing_rules rule_sets policy profiles =
     and_then (resolved_rules policy profiles) (\<lambda>inline.
     and_then (collect_res (map (\<lambda>(condition, target).
                 if trim condition = ''MATCH'' then Ok (''MATCH,'' @ target)
                 else classical_rule_with_target (trim condition) target) inline)) (\<lambda>rules.
       Ok (map (\<lambda>rs. ''RULE-SET,'' @ rs_slug rs @ '','' @ rs_target rs) rule_sets @ rules)))"

definition mihomo_document ::
  "mihomo_input \<Rightarrow> routing_rule_set list \<Rightarrow> json list \<Rightarrow> (transport_pool \<times> string list) list
     \<Rightarrow> string list \<Rightarrow> json" where
  "mihomo_document i active proxies pools rules =
     jobj [(''mixed-port'', JNum 7890),
           (''allow-lan'', JBool False),
           (''mode'', JString ''rule''),
           (''log-level'', JString ''info''),
           (''ipv6'', JBool False),
           (''external-controller'', JString ''127.0.0.1:9090''),
           (''secret'', JString (su_token (mi_user i))),
           (''geodata-mode'', JBool True),
           (''geodata-loader'', JString ''memconservative''),
           (''geo-auto-update'', JBool True),
           (''geo-update-interval'', JNum 24),
           (''geox-url'', jobj [(''geosite'', JString RU_GEOSITE_URL), (''geoip'', JString RU_GEOIP_URL)]),
           (''dns'', dns_config (mi_dns_policy i) active),
           (''rule-providers'', rule_provider_map (mi_settings i) active),
           (''proxies'', JArray proxies),
           (''proxy-groups'', JArray (proxy_groups pools)),
           (''rules'', jstrings rules)]"

definition generate_mihomo_yaml_detailed ::
  "(json \<Rightarrow> string res) \<Rightarrow> mihomo_input \<Rightarrow> protocol_registry \<Rightarrow> mihomo_output res" where
  "generate_mihomo_yaml_detailed to_yaml i reg =
     (let enabled = filter pr_enabled (mi_profiles i) in
      if enabled = [] then Err ''no protocol profiles are enabled''
      else if trim (su_token (mi_user i)) = [] then Err ''subscription token is empty''
      else and_then (render_profiles reg (mi_capabilities i) (mi_user i)
                       (map_resolve (mi_secrets i)) enabled) (\<lambda>(proxies, available, warnings).
        if proxies = [] then Err ''no enabled profile has an available protocol and runtime adapter''
        else and_then (resolved_pools (mi_policy i) available) (\<lambda>pools.
          and_then (dns_policy_validate (mi_dns_policy i)) (\<lambda>_.
          let active = active_routing_rule_sets (mi_rule_sets i) in
          and_then (routing_rules active (mi_policy i) available) (\<lambda>rules.
          and_then (to_yaml (mihomo_document i active proxies pools rules)) (\<lambda>yaml.
            Ok \<lparr>mo_yaml = yaml, mo_warnings = warnings\<rparr>))))))"

definition generate_mihomo_yaml_with_registry ::
  "(json \<Rightarrow> string res) \<Rightarrow> mihomo_input \<Rightarrow> protocol_registry \<Rightarrow> string res" where
  "generate_mihomo_yaml_with_registry to_yaml i reg =
     and_then (generate_mihomo_yaml_detailed to_yaml i reg) (\<lambda>out. Ok (mo_yaml out))"

definition generate_mihomo_yaml ::
  "(json \<Rightarrow> string res) \<Rightarrow> protocol_registry res \<Rightarrow> panel_settings \<Rightarrow> subscription_user
     \<Rightarrow> protocol_profile list \<Rightarrow> (string, string) btmap \<Rightarrow> routing_rule_set list \<Rightarrow> string res" where
  "generate_mihomo_yaml to_yaml builtin settings user profiles secrets rule_sets =
     and_then builtin (\<lambda>reg. generate_mihomo_yaml_with_registry to_yaml
       \<lparr>mi_settings = settings, mi_user = user, mi_profiles = profiles, mi_secrets = secrets,
        mi_rule_sets = rule_sets, mi_policy = default_client_policy,
        mi_dns_policy = default_dns_policy, mi_capabilities = None\<rparr> reg)"

subsection \<open>Rendering\<close>

lemma render_profiles_Inr:
  "render_profiles reg caps user secrets ps = Inr (proxies, available, warnings) \<Longrightarrow>
     available = filter (\<lambda>p. unavailable_reason reg caps p = None) ps
     \<and> length proxies = length available
     \<and> list_all2 (\<lambda>p proxy. \<exists>a. bt_get reg (pr_protocol_id p) = Some a
                      \<and> pa_render_client a p user secrets = Inr proxy) available proxies
     \<and> warnings = List.map_filter (\<lambda>p. map_option (skip_warning p) (unavailable_reason reg caps p)) ps"
proof (induction ps arbitrary: proxies available warnings)
  case Nil
  then show ?case by (simp add: List.map_filter_def)
next
  case (Cons p ps)
  show ?case
  proof (cases "unavailable_reason reg caps p")
    case (Some why)
    with Cons show ?thesis
      by (fastforce simp: and_then_Inr_iff List.map_filter_simps)
  next
    case None
    then obtain a where a: "bt_get reg (pr_protocol_id p) = Some a"
      by (auto simp: unavailable_reason_def split: option.splits)
    with None Cons show ?thesis
      by (fastforce simp: and_then_Inr_iff List.map_filter_simps)
  qed
qed

lemma resolved_rules_validates: "resolved_rules cp ps = Inr r \<Longrightarrow> client_policy_validate cp ps = Inr ()"
  by (auto simp: resolved_rules_def and_then_Inr_iff)

end
