(* ===== verification/Profile_Lifecycle.thy ===== *)
theory Profile_Lifecycle
  imports Adapter
begin

text \<open>
  \<open>profile\_lifecycle.rs\<close>: what a protocol profile has to satisfy before it is written to desired
  state: identity, adapter configuration, secret references, a runtime with the capability, and no
  other enabled profile on the same port of the same network.
\<close>

definition network_debug :: "listener_network \<Rightarrow> string" where
  "network_debug n = (case n of Tcp \<Rightarrow> ''Tcp'' | Udp \<Rightarrow> ''Udp'')"

definition check_display_name :: "string \<Rightarrow> unit res" where
  "check_display_name s = (let display = trim s in
     if display = [] \<or> 96 < length display \<or> has_control display
     then Err ''display name is invalid or too long'' else Ok ())"

definition check_secret :: "string set \<Rightarrow> string \<Rightarrow> unit res" where
  "check_secret names reference =
     (if reference \<notin> names then Err (''required secret reference `'' @ reference @ ''` is missing'')
      else Ok ())"

definition check_runtime ::
  "'w core_registry \<Rightarrow> string set \<Rightarrow> string option \<Rightarrow> unit res" where
  "check_runtime cores required preferred = (case preferred of
       Some p \<Rightarrow>
         and_then (ok_or ''preferred runtime adapter is missing'' (bt_get cores p)) (\<lambda>runtime.
           if \<not> required \<subseteq> ca_capabilities runtime
           then Err ''preferred runtime does not provide the required capability'' else Ok ())
     | None \<Rightarrow>
         if \<not> list_ex (\<lambda>m. required \<subseteq> cm_capabilities m) (core_manifests cores)
         then Err ''no runtime adapter provides the required capability'' else Ok ())"

definition check_listener ::
  "protocol_registry \<Rightarrow> protocol_profile \<Rightarrow> listener_network \<Rightarrow> protocol_profile \<Rightarrow> unit res" where
  "check_listener protocols candidate network profile =
     (case bt_get protocols (pr_protocol_id profile) of
        None \<Rightarrow> Ok ()
      | Some other \<Rightarrow>
          if pr_port profile = pr_port candidate \<and> pm_listener_network (pa_manifest other) = network
          then Err (''listener conflict with profile `'' @ pr_name profile @ ''` on ''
                    @ network_debug network @ ''/'' @ show_nat (unat (pr_port candidate)))
          else Ok ())"

definition validate_profile_candidate ::
  "protocol_profile \<Rightarrow> protocol_profile list \<Rightarrow> protocol_registry \<Rightarrow> 'w core_registry \<Rightarrow> string set
     \<Rightarrow> 'w \<Rightarrow> unit res" where
  "validate_profile_candidate candidate existing protocols cores secret_names w =
     and_then (check_display_name (pr_display_name candidate)) (\<lambda>_.
     and_then (ok_or ''protocol adapter is not installed'' (bt_get protocols (pr_protocol_id candidate))) (\<lambda>adapter.
     and_then (pa_validate_config adapter (pr_schema_version candidate) (pr_config candidate)) (\<lambda>_.
     and_then (pa_secret_references adapter (pr_config candidate)) (\<lambda>references.
     and_then (each_res (check_secret secret_names) references) (\<lambda>_.
     and_then (check_runtime cores (pa_required adapter) (pr_preferred_core candidate)) (\<lambda>_.
     if \<not> pr_enabled candidate then Ok ()
     else
       and_then (each_res (check_listener protocols candidate (pm_listener_network (pa_manifest adapter)))
                   (filter (\<lambda>p. pr_enabled p \<and> pr_name p \<noteq> pr_name candidate) existing)) (\<lambda>_.
       and_then (core_select cores (pa_required adapter) (pr_preferred_core candidate) w) (\<lambda>selected.
         if selected = None then Err ''no compatible installed runtime is available''
         else Ok ()))))))))"

subsection \<open>Listeners stay distinct\<close>

text \<open>The network port an enabled profile listens on, if its adapter is installed.\<close>

definition profile_listener :: "protocol_registry \<Rightarrow> protocol_profile \<Rightarrow> listener_claim option" where
  "profile_listener protocols p =
     (if pr_enabled p
      then map_option (\<lambda>a. ListenerClaim (pm_listener_network (pa_manifest a)) (pr_port p))
             (bt_get protocols (pr_protocol_id p))
      else None)"

definition listeners_distinct :: "protocol_registry \<Rightarrow> protocol_profile list \<Rightarrow> bool" where
  "listeners_distinct protocols ps \<longleftrightarrow>
     (\<forall>p \<in> set ps. \<forall>q \<in> set ps. pr_name p \<noteq> pr_name q \<longrightarrow>
        profile_listener protocols p = profile_listener protocols q \<longrightarrow>
        profile_listener protocols p = None)"

definition put_profile :: "protocol_profile \<Rightarrow> protocol_profile list \<Rightarrow> protocol_profile list" where
  "put_profile c ps = c # filter (\<lambda>p. pr_name p \<noteq> pr_name c) ps"

lemma candidate_listener_free:
  assumes ok: "validate_profile_candidate c ps protocols cores names w = Inr ()"
    and p: "p \<in> set ps" "pr_name p \<noteq> pr_name c"
    and same: "profile_listener protocols p = profile_listener protocols c"
  shows "profile_listener protocols p = None"
proof (rule ccontr)
  assume some: "profile_listener protocols p \<noteq> None"
  then have en: "pr_enabled p" "pr_enabled c"
    using same by (auto simp: profile_listener_def split: if_splits)
  obtain a b where a: "bt_get protocols (pr_protocol_id p) = Some a"
    and b: "bt_get protocols (pr_protocol_id c) = Some b"
    using some same en
    by (cases "bt_get protocols (pr_protocol_id c)") (auto simp: profile_listener_def)
  have eq: "pr_port p = pr_port c" "pm_listener_network (pa_manifest a) = pm_listener_network (pa_manifest b)"
    using same en a b by (auto simp: profile_listener_def)
  have "each_res (check_listener protocols c (pm_listener_network (pa_manifest b)))
      (filter (\<lambda>p. pr_enabled p \<and> pr_name p \<noteq> pr_name c) ps) = Inr ()"
    using ok en b by (auto simp: validate_profile_candidate_def and_then_Inr_iff ok_or_Inr_iff)
  then have "is_ok (check_listener protocols c (pm_listener_network (pa_manifest b)) p)"
    using p en by (auto simp: is_ok_unit [symmetric] each_res_ok_iff)
  then show False using a eq by (auto simp: check_listener_def)
qed

lemma candidate_keeps_listeners:
  assumes "listeners_distinct protocols ps"
    and "validate_profile_candidate c ps protocols cores names w = Inr ()"
  shows "listeners_distinct protocols (put_profile c ps)"
  using assms(1) candidate_listener_free [OF assms(2)]
  unfolding listeners_distinct_def put_profile_def by (auto; metis)

lemma candidate_is_deployable:
  assumes ok: "validate_profile_candidate c ps protocols cores names w = Inr ()" and "pr_enabled c"
  obtains a core where "bt_get protocols (pr_protocol_id c) = Some a"
    "core_select cores (pa_required a) (pr_preferred_core c) w = Inr (Some core)"
    "core_eligible (pa_required a) w core"
proof -
  obtain a sel where "bt_get protocols (pr_protocol_id c) = Some a"
    "core_select cores (pa_required a) (pr_preferred_core c) w = Inr sel" "sel \<noteq> None"
    using ok assms(2)
    by (fastforce simp: validate_profile_candidate_def and_then_Inr_iff ok_or_Inr_iff)
  then obtain core where core: "bt_get protocols (pr_protocol_id c) = Some a"
    "core_select cores (pa_required a) (pr_preferred_core c) w = Inr (Some core)" by auto
  show ?thesis by (rule that [OF core core_select_in_registry(2) [OF core(2)]])
qed

lemma candidate_secrets:
  assumes "validate_profile_candidate c ps protocols cores names w = Inr ()"
  obtains a refs where "bt_get protocols (pr_protocol_id c) = Some a"
    "pa_secret_references a (pr_config c) = Inr refs" "set refs \<subseteq> names"
    "pa_validate_config a (pr_schema_version c) (pr_config c) = Inr ()"
proof -
  obtain a refs where a: "bt_get protocols (pr_protocol_id c) = Some a"
    "pa_secret_references a (pr_config c) = Inr refs"
    "pa_validate_config a (pr_schema_version c) (pr_config c) = Inr ()"
    "each_res (check_secret names) refs = Inr ()"
    using assms by (auto simp: validate_profile_candidate_def and_then_Inr_iff ok_or_Inr_iff)
  have "set refs \<subseteq> names"
    using a(4) by (auto simp: is_ok_unit [symmetric] each_res_ok_iff check_secret_def split: if_splits)
  then show ?thesis using that a by blast
qed

end
