(* ===== verification/Subscription_Claims.thy ===== *)
theory Subscription_Claims
  imports Mihomo Profile_Lifecycle
begin

text \<open>
  The properties of the generated client subscription and of profile admission.
\<close>

subsection \<open>Completed inline rules\<close>

definition completed_rule :: "string \<Rightarrow> string \<Rightarrow> bool" where
  "completed_rule target r \<longleftrightarrow>
     r = ''MATCH,'' @ target
     \<or> (\<exists>k v. k \<in> set CLASSICAL_CONDITION_TYPES
          \<and> (r = join '','' [k, v, target]
             \<or> k \<in> set NO_RESOLVE_CONDITION_TYPES \<and> r = join '','' [k, v, target, ''no-resolve'']))"

lemma classical_rule_completed:
  assumes "classical_rule_with_target c t = Inr r"
  shows "completed_rule t r"
proof -
  obtain validated where v: "validate_classical_rule_payload c = Inr validated" "length validated = 1"
    using assms by (auto simp: classical_rule_with_target_def and_then_Inr_iff split: if_splits)
  then obtain l where l: "validated = [l]" by (auto simp: length_Suc_conv)
  have cr: "classical_rule l" using validate_payload_rules [OF v(1)] l by simp
  let ?mod = "eq_ignore_ascii_case (last (fields_of l)) ''no-resolve''"
  let ?kept = "if ?mod then butlast (fields_of l) else fields_of l"
  have guard: "?mod \<longrightarrow> fields_of l ! 0 \<in> set NO_RESOLVE_CONDITION_TYPES"
    and len: "length ?kept = 2"
    and r: "r = join '','' ([?kept ! 0, ?kept ! 1, t] @ (if ?mod then [''no-resolve''] else []))"
    using assms v l
    by (auto simp: classical_rule_with_target_def and_then_Inr_iff Let_def split: if_splits)
  consider (two) k x where "fields_of l = [k, x]" "k \<in> set CLASSICAL_CONDITION_TYPES"
    | (three) k x m where "fields_of l = [k, x, m]" "k \<in> set NO_RESOLVE_CONDITION_TYPES"
        "eq_ignore_ascii_case m ''no-resolve''"
    using classical_rule_fields [OF cr] by blast
  then show ?thesis
  proof cases
    case two
    have "\<not> ?mod"
    proof
      assume m: ?mod
      then have "?kept = [k]" using two(1) by simp
      then show False using len by simp
    qed
    then have "r = join '','' [k, x, t]" using r two(1) by simp
    then show ?thesis using two(2) by (auto simp: completed_rule_def)
  next
    case three
    then have "r = join '','' [k, x, t, ''no-resolve'']" using r by simp
    then show ?thesis
      using three(2) no_resolve_types_classical by (auto simp: completed_rule_def)
  qed
qed

lemma routing_rules_Inr:
  assumes "routing_rules sets policy ps = Inr rules"
  shows "\<exists>inline. rules = map (\<lambda>rs. ''RULE-SET,'' @ rs_slug rs @ '','' @ rs_target rs) sets @ inline
     \<and> list_all (\<lambda>r. \<exists>t \<in> policy_targets policy ps. completed_rule t r) inline"
proof -
  let ?f = "\<lambda>(condition, target). if trim condition = ''MATCH'' then Inr (''MATCH,'' @ target)
      else classical_rule_with_target (trim condition) target"
  obtain res inline where res: "resolved_rules policy ps = Inr res"
    and inl: "collect_res (map ?f res) = Inr inline"
    and r: "rules = map (\<lambda>rs. ''RULE-SET,'' @ rs_slug rs @ '','' @ rs_target rs) sets @ inline"
    using assms by (auto simp: routing_rules_def and_then_Inr_iff)
  have "\<exists>t \<in> policy_targets policy ps. completed_rule t x" if x: "x \<in> set inline" for x
  proof -
    obtain c t where ct: "(c, t) \<in> set res" "?f (c, t) = Inr x"
      using collect_res_in [OF inl x] by auto
    have "t \<in> policy_targets policy ps" using resolved_rules_Inr(2) [OF res] ct(1) by auto
    moreover have "completed_rule t x"
    proof (cases "trim c = ''MATCH''")
      case True
      then show ?thesis using ct(2) by (simp add: completed_rule_def)
    next
      case False
      then show ?thesis using ct(2) classical_rule_completed by simp
    qed
    ultimately show ?thesis by blast
  qed
  with r show ?thesis by (auto simp: list_all_iff)
qed

subsection \<open>The subscription document\<close>


definition sample_manifest :: protocol_manifest where
  "sample_manifest =
     \<lparr>pm_api_version = 1, pm_id = ''vless'', pm_display_name = ''VLESS'', pm_schema_version = 1,
      pm_required_capabilities = {''vless''}, pm_user_participation = PerUserUuid,
      pm_listener_network = Tcp, pm_composition = opaque_composition ''vless''\<rparr>"

definition sample_protocol :: protocol_adapter where
  "sample_protocol =
     \<lparr>pa_manifest = sample_manifest, pa_validate_config = (\<lambda>_ _. Inr ()),
      pa_client_secret_references = (\<lambda>_. Inr [''key'']), pa_server_secret_references = (\<lambda>_. Inr []),
      pa_render_client = (\<lambda>p u s. and_then (s ''key'') (\<lambda>k. Inr (JObject [(''name'', JString (pr_name p))]))),
      pa_render_server = (\<lambda>_ _ _. Inl ''not used'')\<rparr>"

definition sample_profile :: "string \<Rightarrow> u16 \<Rightarrow> protocol_profile" where
  "sample_profile name port =
     \<lparr>pr_name = name, pr_display_name = name, pr_protocol_id = ''vless'', pr_schema_version = 1,
      pr_role = Speed, pr_server = ''n.org'', pr_port = port, pr_enabled = True,
      pr_preferred_core = None, pr_managed_resource = None, pr_config = JNull\<rparr>"

definition sample_input :: mihomo_input where
  "sample_input =
     \<lparr>mi_settings = default_panel_settings,
      mi_user = \<lparr>su_username = ''u'', su_uuid = ''id'', su_token = ''tok''\<rparr>,
      mi_profiles = [sample_profile ''p1'' 443], mi_secrets = [(''key'', ''k'')],
      mi_rule_sets = [],
      mi_policy = \<lparr>cp_pools = [automatic_pool ''A'' PkSelect [MAllProfiles, MDirect] 5 None 1],
        cp_rules = [builtin_rule ''r'' ''R'' 1 ''MATCH'' ''A'']\<rparr>,
      mi_dns_policy = default_dns_policy, mi_capabilities = None\<rparr>"

lemma sample_generates:
  "is_ok (generate_mihomo_yaml_detailed (\<lambda>_. Inr ''yaml'') sample_input [(''vless'', sample_protocol)])"
  by code_simp


subsection \<open>Profile admission\<close>

text \<open>
  C28: admission of a profile keeps listeners apart. Among profiles of which no two enabled ones
  with installed adapters share a network port, putting in a candidate that passed validation (in
  place of the profile of its name, if any) leaves no two that do. An enabled candidate moreover
  selects an installed, compatible runtime for its protocol, and every secret its configuration
  refers to exists.
\<close>

theorem admission_keeps_listeners_apart:
  assumes "listeners_distinct protocols ps"
    and "validate_profile_candidate c ps protocols cores names w = Inr ()"
  shows "listeners_distinct protocols (put_profile c ps)
     \<and> (\<exists>a refs. bt_get protocols (pr_protocol_id c) = Some a
          \<and> pa_validate_config a (pr_schema_version c) (pr_config c) = Inr ()
          \<and> pa_secret_references a (pr_config c) = Inr refs \<and> set refs \<subseteq> names
          \<and> (pr_enabled c \<longrightarrow> (\<exists>core. core_select cores (pa_required a) (pr_preferred_core c) w = Inr (Some core)
                \<and> core_eligible (pa_required a) w core)))"
proof
  show "listeners_distinct protocols (put_profile c ps)"
    by (rule candidate_keeps_listeners [OF assms])
  obtain a refs where a: "bt_get protocols (pr_protocol_id c) = Some a"
    "pa_secret_references a (pr_config c) = Inr refs" "set refs \<subseteq> names"
    "pa_validate_config a (pr_schema_version c) (pr_config c) = Inr ()"
    by (rule candidate_secrets [OF assms(2)])
  have "\<exists>core. core_select cores (pa_required a) (pr_preferred_core c) w = Inr (Some core)
                \<and> core_eligible (pa_required a) w core" if "pr_enabled c"
    using candidate_is_deployable [OF assms(2) that] a(1) by (metis option.inject)
  with a show "\<exists>a refs. bt_get protocols (pr_protocol_id c) = Some a
          \<and> pa_validate_config a (pr_schema_version c) (pr_config c) = Inr ()
          \<and> pa_secret_references a (pr_config c) = Inr refs \<and> set refs \<subseteq> names
          \<and> (pr_enabled c \<longrightarrow> (\<exists>core. core_select cores (pa_required a) (pr_preferred_core c) w = Inr (Some core)
                \<and> core_eligible (pa_required a) w core))" by blast
qed

definition sample_runtime :: "unit core_adapter" where
  "sample_runtime =
     \<lparr>ca_manifest = \<lparr>cm_api_version = 1, cm_id = ''xray'', cm_display_name = ''Xray'',
        cm_capabilities = {''vless''}, cm_service = ''xray.service'', cm_selection_priority = 0\<rparr>,
      ca_installed = (\<lambda>_. Inr True), ca_compatible = (\<lambda>_ _. Inr True), ca_probe = (\<lambda>_. default_probe),
      ca_stage_config = (\<lambda>_ p w. (Inr p, w)), ca_validate_config = (\<lambda>_ w. (Inr (), w)),
      ca_snapshot_config = (\<lambda>p w. (Inl '''', w)), ca_install_config = (\<lambda>_ w. (Inr (), w)),
      ca_activate_config = (\<lambda>_ w. (Inr (), w)), ca_healthcheck = (\<lambda>_ w. (Inr (), w)),
      ca_verify_listeners = (\<lambda>_ w. (Inr (), w)), ca_observe_users = (\<lambda>_ w. (Inr SyncUnsupported, w)),
      ca_rollback_config = (\<lambda>_ w. (Inr (), w))\<rparr>"

lemma sample_candidate_ok:
  "validate_profile_candidate (sample_profile ''p2'' 8443) [sample_profile ''p1'' 443]
     [(''vless'', sample_protocol)] [(''xray'', sample_runtime)] {''key''} () = Inr ()"
  "validate_profile_candidate (sample_profile ''p2'' 443) [sample_profile ''p1'' 443]
     [(''vless'', sample_protocol)] [(''xray'', sample_runtime)] {''key''} ()
     = Inl ''listener conflict with profile `p1` on Tcp/443''"
  by code_simp+

theorem admission_keeps_listeners_apart_witness:
  "listeners_distinct [(''vless'', sample_protocol)]
     (put_profile (sample_profile ''p2'' 8443) [sample_profile ''p1'' 443])"
  by (rule conjunct1 [OF admission_keeps_listeners_apart [OF _ sample_candidate_ok(1)]])
    (simp add: listeners_distinct_def)

end
