(* ===== verification/Audit_Log.thy ===== *)
theory Audit_Log
  imports Models
begin

text \<open>
  \<open>audit.rs\<close>: the closed vocabulary of the administrative audit trail and the check every event
  passes before it is stored. The metadata is a fixed set of optional flags and one count; its JSON
  text is written out, so that the size bound the code checks is a fact here.
\<close>

datatype audit_action =
    OwnerCreated | PasswordChanged | UserCreated | UserEnabled | UserDisabled | UserUpdated
  | UserSubscriptionTokenReset | UserRuntimeIdentityRotated | UserDeleted | SettingsSaved
  | PanelAutoUpdatePolicyChanged | SecretCreated | SecretReplaced | SecretDeleted
  | ProtocolProfileCreated | ProtocolProfileSaved | ProtocolProfileEnabled | ProtocolProfileDisabled
  | ProtocolProfileDeleted | DnsPolicySaved | TransportPoolSaved | TransportPoolDeleted
  | RoutingPolicySaved | RoutingPolicyDeleted | RuleSetSaved | RuleSetDeleted | RuleSetCloned
  | RuleEntrySaved | RuleEntryDeleted | RuleEntriesBulkAdded | RuleEntriesDeduplicated
  | RuleSourceSaved | RuleSourceDeleted | RuleSourceRefreshed | ModuleCheckRequested
  | ModuleInstallRequested | ModuleUpdateRequested | ModuleRemoveRequested | ModuleStartRequested
  | ModuleStopRequested | ModuleRestartRequested | ModuleAutoUpdatePolicyChanged | PanelUpdateRequested

definition action_str :: "audit_action \<Rightarrow> string" where
  "action_str a = (case a of
       OwnerCreated \<Rightarrow> ''owner.created''
     | PasswordChanged \<Rightarrow> ''account.password-changed''
     | UserCreated \<Rightarrow> ''user.created''
     | UserEnabled \<Rightarrow> ''user.enabled''
     | UserDisabled \<Rightarrow> ''user.disabled''
     | UserUpdated \<Rightarrow> ''user.updated''
     | UserSubscriptionTokenReset \<Rightarrow> ''user.subscription-token-reset''
     | UserRuntimeIdentityRotated \<Rightarrow> ''user.runtime-identity-rotated''
     | UserDeleted \<Rightarrow> ''user.deleted''
     | SettingsSaved \<Rightarrow> ''settings.saved''
     | PanelAutoUpdatePolicyChanged \<Rightarrow> ''panel.auto-update-policy-changed''
     | SecretCreated \<Rightarrow> ''secret.created''
     | SecretReplaced \<Rightarrow> ''secret.replaced''
     | SecretDeleted \<Rightarrow> ''secret.deleted''
     | ProtocolProfileCreated \<Rightarrow> ''protocol-profile.created''
     | ProtocolProfileSaved \<Rightarrow> ''protocol-profile.saved''
     | ProtocolProfileEnabled \<Rightarrow> ''protocol-profile.enabled''
     | ProtocolProfileDisabled \<Rightarrow> ''protocol-profile.disabled''
     | ProtocolProfileDeleted \<Rightarrow> ''protocol-profile.deleted''
     | DnsPolicySaved \<Rightarrow> ''routing.dns-policy-saved''
     | TransportPoolSaved \<Rightarrow> ''routing.transport-pool-saved''
     | TransportPoolDeleted \<Rightarrow> ''routing.transport-pool-deleted''
     | RoutingPolicySaved \<Rightarrow> ''routing.policy-saved''
     | RoutingPolicyDeleted \<Rightarrow> ''routing.policy-deleted''
     | RuleSetSaved \<Rightarrow> ''routing.rule-set-saved''
     | RuleSetDeleted \<Rightarrow> ''routing.rule-set-deleted''
     | RuleSetCloned \<Rightarrow> ''routing.rule-set-cloned''
     | RuleEntrySaved \<Rightarrow> ''routing.rule-entry-saved''
     | RuleEntryDeleted \<Rightarrow> ''routing.rule-entry-deleted''
     | RuleEntriesBulkAdded \<Rightarrow> ''routing.rule-entries-bulk-added''
     | RuleEntriesDeduplicated \<Rightarrow> ''routing.rule-entries-deduplicated''
     | RuleSourceSaved \<Rightarrow> ''routing.rule-source-saved''
     | RuleSourceDeleted \<Rightarrow> ''routing.rule-source-deleted''
     | RuleSourceRefreshed \<Rightarrow> ''routing.rule-source-refreshed''
     | ModuleCheckRequested \<Rightarrow> ''module.check-requested''
     | ModuleInstallRequested \<Rightarrow> ''module.install-requested''
     | ModuleUpdateRequested \<Rightarrow> ''module.update-requested''
     | ModuleRemoveRequested \<Rightarrow> ''module.remove-requested''
     | ModuleStartRequested \<Rightarrow> ''module.start-requested''
     | ModuleStopRequested \<Rightarrow> ''module.stop-requested''
     | ModuleRestartRequested \<Rightarrow> ''module.restart-requested''
     | ModuleAutoUpdatePolicyChanged \<Rightarrow> ''module.auto-update-policy-changed''
     | PanelUpdateRequested \<Rightarrow> ''panel.update-requested'')"

datatype audit_object =
    ObOwner | ObAdminAccount | ObUser | ObSettings | ObSecretReference | ObProtocolProfile
  | ObDnsPolicy | ObTransportPool | ObRoutingPolicy | ObRuleSet | ObRuleEntry | ObRuleSource
  | ObModule | ObPanelUpdate

definition object_str :: "audit_object \<Rightarrow> string" where
  "object_str b = (case b of
       ObOwner \<Rightarrow> ''owner''
     | ObAdminAccount \<Rightarrow> ''admin-account''
     | ObUser \<Rightarrow> ''user''
     | ObSettings \<Rightarrow> ''settings''
     | ObSecretReference \<Rightarrow> ''secret-reference''
     | ObProtocolProfile \<Rightarrow> ''protocol-profile''
     | ObDnsPolicy \<Rightarrow> ''dns-policy''
     | ObTransportPool \<Rightarrow> ''transport-pool''
     | ObRoutingPolicy \<Rightarrow> ''routing-policy''
     | ObRuleSet \<Rightarrow> ''rule-set''
     | ObRuleEntry \<Rightarrow> ''rule-entry''
     | ObRuleSource \<Rightarrow> ''rule-source''
     | ObModule \<Rightarrow> ''module''
     | ObPanelUpdate \<Rightarrow> ''panel-update'')"

datatype audit_outcome = OcSucceeded | OcRequested

definition outcome_str :: "audit_outcome \<Rightarrow> string" where
  "outcome_str b = (case b of OcSucceeded \<Rightarrow> ''succeeded'' | OcRequested \<Rightarrow> ''requested'')"

record audit_actor =
  aa_admin_id :: "int option"
  aa_username :: string
  aa_role :: string

definition initial_owner :: "string \<Rightarrow> audit_actor" where
  "initial_owner username = \<lparr>aa_admin_id = None, aa_username = username, aa_role = ''owner''\<rparr>"

definition owner_actor :: "int \<Rightarrow> string \<Rightarrow> audit_actor" where
  "owner_actor i username = \<lparr>aa_admin_id = Some i, aa_username = username, aa_role = ''owner''\<rparr>"

definition admin_actor :: "int \<Rightarrow> string \<Rightarrow> audit_actor" where
  "admin_actor i username = \<lparr>aa_admin_id = Some i, aa_username = username, aa_role = ''admin''\<rparr>"

record audit_metadata =
  am_enabled :: "bool option"
  am_count :: "u64 option"
  am_username_changed :: "bool option"
  am_expiry_changed :: "bool option"
  am_quota_changed :: "bool option"
  am_access_changed :: "bool option"

definition metadata_none :: audit_metadata where
  "metadata_none =
     \<lparr>am_enabled = None, am_count = None, am_username_changed = None, am_expiry_changed = None,
      am_quota_changed = None, am_access_changed = None\<rparr>"

definition metadata_enabled :: "bool \<Rightarrow> audit_metadata" where
  "metadata_enabled v = metadata_none\<lparr>am_enabled := Some v\<rparr>"

definition metadata_count :: "nat \<Rightarrow> audit_metadata" where
  "metadata_count v = metadata_none\<lparr>am_count := Some (of_nat v)\<rparr>"

definition metadata_user_update :: "bool \<Rightarrow> bool \<Rightarrow> bool \<Rightarrow> bool \<Rightarrow> audit_metadata" where
  "metadata_user_update username expiry quota access =
     metadata_none\<lparr>am_username_changed := Some username, am_expiry_changed := Some expiry,
       am_quota_changed := Some quota, am_access_changed := Some access\<rparr>"

record audit_event =
  ae_actor :: audit_actor
  ae_action :: audit_action
  ae_object_type :: audit_object
  ae_object_id :: string
  ae_outcome :: audit_outcome
  ae_metadata :: audit_metadata

text \<open>
  The JSON text of the metadata: the fields that are present, in declaration order
  (\<open>skip\_serializing\_if\<close>).
\<close>

definition show_bool :: "bool \<Rightarrow> string" where
  "show_bool v = (if v then ''true'' else ''false'')"

definition json_field :: "string \<Rightarrow> ('a \<Rightarrow> string) \<Rightarrow> 'a option \<Rightarrow> string list" where
  "json_field k f x = (case x of None \<Rightarrow> [] | Some v \<Rightarrow> [[CHR 0x22] @ k @ [CHR 0x22] @ '':'' @ f v])"

definition metadata_json :: "audit_metadata \<Rightarrow> string" where
  "metadata_json m = ''{'' @ join '',''
     (json_field ''enabled'' show_bool (am_enabled m)
      @ json_field ''count'' (\<lambda>c. show_nat (unat c)) (am_count m)
      @ json_field ''username_changed'' show_bool (am_username_changed m)
      @ json_field ''expiry_changed'' show_bool (am_expiry_changed m)
      @ json_field ''quota_changed'' show_bool (am_quota_changed m)
      @ json_field ''access_changed'' show_bool (am_access_changed m)) @ ''}''"

definition audit_validate :: "audit_event \<Rightarrow> unit res" where
  "audit_validate e =
     (if aa_username (ae_actor e) = [] \<or> 64 < length (aa_username (ae_actor e))
      then Err ''invalid audit actor username''
      else if \<not> (aa_role (ae_actor e) = ''owner'' \<or> aa_role (ae_actor e) = ''admin''
                 \<or> aa_role (ae_actor e) = ''system'')
      then Err ''invalid audit actor role''
      else if ae_object_id e = [] \<or> 192 < length (ae_object_id e)
      then Err ''invalid audit object identifier''
      else if has_control (ae_object_id e)
      then Err ''audit object identifier contains control characters''
      else if 512 < length (metadata_json (ae_metadata e))
      then Err ''audit metadata exceeds the fixed bound''
      else Ok ())"

subsection \<open>The metadata bound is never reached\<close>

lemma shown_number_length: "n < 10 ^ k \<Longrightarrow> 0 < k \<Longrightarrow> length (show_nat n) \<le> k"
proof (induction k arbitrary: n)
  case 0
  then show ?case by simp
next
  case (Suc k)
  show ?case
  proof (cases "n < 10")
    case True
    then show ?thesis by (subst show_nat.simps) simp
  next
    case False
    then have "k \<noteq> 0" using Suc.prems by (cases k) auto
    moreover have "n div 10 < 10 ^ k" using Suc.prems(1) by (simp add: less_mult_imp_div_less)
    ultimately have "length (show_nat (n div 10)) \<le> k" using Suc.IH by simp
    then show ?thesis using False by (subst show_nat.simps) simp
  qed
qed

lemma show_u64_length: "length (show_nat (unat (w :: u64))) \<le> 20"
proof (rule shown_number_length)
  have "unat w < 2 ^ 64" using unsigned_less [of w] by simp
  also have "(2 :: nat) ^ 64 < 10 ^ 20" by simp
  finally show "unat w < 10 ^ 20" .
qed simp

lemma join_length: "length (join sep xs) \<le> sum_list (map (\<lambda>x. length x + length sep) xs)"
  by (induction sep xs rule: join.induct) auto

lemma show_bool_length: "length (show_bool v) \<le> 5"
  by (simp add: show_bool_def)

lemma json_field_length:
  "(\<And>v. length (f v) \<le> n) \<Longrightarrow>
     sum_list (map (\<lambda>x. length x + 1) (json_field k f x)) \<le> length k + n + 4"
  by (auto simp: json_field_def split: option.splits)

lemma metadata_bound: "length (metadata_json m) \<le> 512"
proof -
  let ?a = "json_field ''enabled'' show_bool (am_enabled m)"
    and ?b = "json_field ''count'' (\<lambda>c. show_nat (unat c)) (am_count m)"
    and ?c = "json_field ''username_changed'' show_bool (am_username_changed m)"
    and ?d = "json_field ''expiry_changed'' show_bool (am_expiry_changed m)"
    and ?e = "json_field ''quota_changed'' show_bool (am_quota_changed m)"
    and ?f = "json_field ''access_changed'' show_bool (am_access_changed m)"
  let ?s = "\<lambda>xs. sum_list (map (\<lambda>x. length x + 1) xs)"
  have "length (join '','' (?a @ ?b @ ?c @ ?d @ ?e @ ?f))
      \<le> ?s ?a + ?s ?b + ?s ?c + ?s ?d + ?s ?e + ?s ?f"
    using join_length [of "'',''" "?a @ ?b @ ?c @ ?d @ ?e @ ?f"] by simp
  moreover have b: "?s (json_field k show_bool x) \<le> length k + 9" for k x
    using json_field_length [of show_bool 5, OF show_bool_length, of k x] by simp
  have "?s ?a \<le> 16" "?s ?c \<le> 25" "?s ?d \<le> 23" "?s ?e \<le> 22" "?s ?f \<le> 23"
    using b [of "''enabled''" "am_enabled m"] b [of "''username_changed''" "am_username_changed m"]
      b [of "''expiry_changed''" "am_expiry_changed m"] b [of "''quota_changed''" "am_quota_changed m"]
      b [of "''access_changed''" "am_access_changed m"] by simp_all
  moreover have "?s ?b \<le> 29"
    using json_field_length [of "\<lambda>c. show_nat (unat (c :: u64))" 20 "''count''" "am_count m",
        OF show_u64_length] by simp
  ultimately show ?thesis by (simp add: metadata_json_def)
qed

lemma audit_validate_ok:
  "audit_validate e = Inr () \<longleftrightarrow>
     aa_username (ae_actor e) \<noteq> [] \<and> length (aa_username (ae_actor e)) \<le> 64
     \<and> aa_role (ae_actor e) \<in> {''owner'', ''admin'', ''system''}
     \<and> ae_object_id e \<noteq> [] \<and> length (ae_object_id e) \<le> 192 \<and> \<not> has_control (ae_object_id e)"
  using metadata_bound [of "ae_metadata e"] by (auto simp: audit_validate_def)

end
