(* ===== verification/Storage_Base.thy ===== *)
theory Storage_Base
  imports Audit_Log Access Policy Adapter "HOL-Library.Product_Lexorder"
begin

text \<open>
  The state behind \<open>storage.rs\<close>: one record with a field per SQLite table, and the operations the
  other storage theories share (generation, audit, reconcile result, user synchronisation rows).

  An operation that the code runs in one transaction is a function from the database to a result
  that carries the new database: on an error there is no new database, which is the rollback of a
  dropped \<open>sqlx\<close> transaction. Tables whose rows are only read in key order are key-sorted maps;
  tables with an AUTOINCREMENT key are lists in insertion order with the last number given out.
  A UNIQUE or FOREIGN KEY violation is an error. Timestamps are integers (nanoseconds): their text
  form in the database sorts the same way. Random identifiers and the clock are arguments. I/O
  failures of SQLite itself are not modelled.
\<close>

type_synonym uuid = string

record user_record =
  us_id :: int
  us_username :: string
  us_uuid :: uuid
  us_token :: string
  us_enabled :: bool
  us_limit :: "int option"
  us_used :: int
  us_expires :: "instant option"
  us_created :: instant
  us_updated :: instant

text \<open>\<open>UserRecord::access\_state\_at\<close>\<close>

definition access_state_at :: "user_record \<Rightarrow> instant \<Rightarrow> user_access_state" where
  "access_state_at u now =
     access_evaluate (us_enabled u) (us_expires u) (us_limit u) (us_used u) now"

record lifecycle_row =
  ul_allowed :: bool
  ul_disabled :: bool
  ul_expired :: bool
  ul_quota_exceeded :: bool
  ul_source_updated :: instant
  ul_observed :: instant
  ul_pending :: "int option"

record reconcile_row =
  rc_desired :: int
  rc_applied :: int
  rc_status :: string
  rc_operation :: "string option"
  rc_error :: "string option"
  rc_resources :: "string list"
  rc_active :: "string list"
  rc_started :: "string option"
  rc_completed :: "string option"
  rc_updated :: instant

record user_sync_row =
  uy_status :: string
  uy_desired :: int
  uy_observed :: "int option"
  uy_missing :: "int option"
  uy_unexpected :: "int option"
  uy_checked :: instant

record audit_row =
  au_id :: int
  au_created :: instant
  au_admin_id :: "int option"
  au_username :: string
  au_role :: string
  au_action :: string
  au_object_type :: string
  au_object_id :: string
  au_outcome :: string
  au_metadata :: string

record admin_record =
  ad_id :: int
  ad_username :: string
  ad_password_hash :: string
  ad_created :: instant
  ad_updated :: instant

record session_record =
  se_id :: int
  se_admin_id :: int
  se_token_hash :: string
  se_expires :: instant
  se_created :: instant
  se_last_seen :: instant

record setting_row =
  sv_value :: string
  sv_updated :: instant

record secret_row =
  sx_value :: string
  sx_created :: instant
  sx_updated :: instant

record profile_row =
  pf_id :: int
  pf_name :: string
  pf_display_name :: string
  pf_kind :: string
  pf_role :: string
  pf_enabled :: bool
  pf_server :: string
  pf_port :: int
  pf_config :: string
  pf_schema_version :: int
  pf_preferred_core :: "string option"
  pf_managed_resource :: "string option"
  pf_created :: instant
  pf_updated :: instant

record pool_row =
  pw_id :: string
  pw_display_name :: string
  pw_kind :: string
  pw_enabled :: bool
  pw_test_url :: "string option"
  pw_interval :: "int option"
  pw_timeout :: "int option"
  pw_tolerance :: "int option"
  pw_max_failures :: "int option"
  pw_lazy :: bool
  pw_minimum_healthy :: "int option"
  pw_fallback :: "string option"
  pw_priority :: int
  pw_strategy :: "string option"
  pw_position :: int

record member_row =
  mw_pool :: string
  mw_position :: int
  mw_kind :: string
  mw_value :: "string option"

record telemetry_row =
  tm_id :: int
  tm_runtime :: string
  tm_user :: "int option"
  tm_observed :: instant
  tm_json :: string

record adapter_state_row =
  as_schema_version :: int
  as_config :: string
  as_enabled :: bool
  as_created :: instant
  as_updated :: instant

record db =
  db_users :: "user_record list"
  db_user_seq :: int
  db_lifecycle :: "(int, lifecycle_row) btmap"
  db_reconcile :: reconcile_row
  db_user_sync :: "(string \<times> string, user_sync_row) btmap"
  db_audit :: "audit_row list"
  db_audit_seq :: int
  db_admins :: "admin_record list"
  db_admin_seq :: int
  db_sessions :: "session_record list"
  db_session_seq :: int
  db_settings :: "(string, setting_row) btmap"
  db_secrets :: "(string, secret_row) btmap"
  db_profiles :: "profile_row list"
  db_profile_seq :: int
  db_rule_sets :: "(string, routing_rule_set) btmap"
  db_rule_entries :: "(string, rule_entry) btmap"
  db_rule_sources :: "(string, rule_set_source) btmap"
  db_pools :: "pool_row list"
  db_members :: "member_row list"
  db_policy_rules :: "routing_policy_rule list"
  db_dns :: "dns_policy option"
  db_telemetry :: "telemetry_row list"
  db_telemetry_seq :: int
  db_telemetry_latest :: "(string, instant \<times> string) btmap"
  db_adapter_state :: "(string \<times> string \<times> string, adapter_state_row) btmap"
  db_bootstrap :: "string list"

text \<open>The database right after its schema was created (\<open>init\_db\<close>).\<close>

definition empty_db :: "instant \<Rightarrow> db" where
  "empty_db now =
     \<lparr>db_users = [], db_user_seq = 0, db_lifecycle = [],
      db_reconcile = \<lparr>rc_desired = 0, rc_applied = 0, rc_status = ''applied'', rc_operation = None,
        rc_error = None, rc_resources = [], rc_active = [], rc_started = None, rc_completed = None,
        rc_updated = now\<rparr>,
      db_user_sync = [], db_audit = [], db_audit_seq = 0, db_admins = [], db_admin_seq = 0,
      db_sessions = [], db_session_seq = 0, db_settings = [], db_secrets = [], db_profiles = [],
      db_profile_seq = 0, db_rule_sets = [], db_rule_entries = [], db_rule_sources = [],
      db_pools = [], db_members = [], db_policy_rules = [], db_dns = None, db_telemetry = [],
      db_telemetry_seq = 0, db_telemetry_latest = [], db_adapter_state = [], db_bootstrap = []\<rparr>"

type_synonym 'a tx = "db \<Rightarrow> ('a \<times> db) res"

subsection \<open>Generation\<close>

text \<open>
  \<open>bump\_desired\_generation\<close>: the fresh operation identifier and the clock are arguments. Every
  synchronisation row goes back to pending.
\<close>

definition bump_desired_generation :: "uuid \<Rightarrow> instant \<Rightarrow> int tx" where
  "bump_desired_generation op now db =
     (let row = (db_reconcile db)
            \<lparr>rc_desired := rc_desired (db_reconcile db) + 1, rc_status := ''pending'',
             rc_operation := Some op, rc_error := None, rc_resources := [], rc_started := None,
             rc_completed := None, rc_updated := now\<rparr>;
          db = db\<lparr>db_reconcile := row,
             db_user_sync := map (\<lambda>(k, r). (k, r\<lparr>uy_status := ''pending'', uy_checked := now\<rparr>))
               (db_user_sync db)\<rparr> in
      if rc_desired row < 0 then Err ''invalid desired generation''
      else Ok (rc_desired row, db))"

definition get_reconcile_state :: "db \<Rightarrow> reconcile_row" where
  "get_reconcile_state db = db_reconcile db"

record reconcile_update =
  ru_desired :: u64
  ru_applied :: u64
  ru_status :: string
  ru_operation :: string
  ru_resources :: "string list"
  ru_active :: "string list"
  ru_error :: "string option"
  ru_started :: "string option"
  ru_completed :: "string option"

definition i64_max :: int where "i64_max = 2 ^ 63 - 1"

text \<open>\<open>i64::try\_from\<close> of an unsigned 64-bit value; the error text is the standard library's.\<close>

definition i64_of :: "u64 \<Rightarrow> int res" where
  "i64_of w = (if uint w \<le> i64_max then Ok (uint w)
     else Err ''out of range integral type conversion attempted'')"

text \<open>
  \<open>mark\_reconcile\_result\<close>: a result for another desired generation than the current one
  updates no row. The error is cut to 512 characters (\<open>take\_chars\<close> is the cut by code points).
\<close>

definition mark_reconcile_result ::
  "(nat \<Rightarrow> string \<Rightarrow> string) \<Rightarrow> reconcile_update \<Rightarrow> instant \<Rightarrow> unit tx" where
  "mark_reconcile_result take_chars u now db =
     and_then (i64_of (ru_desired u)) (\<lambda>desired.
     and_then (i64_of (ru_applied u)) (\<lambda>applied.
       Ok ((), if rc_desired (db_reconcile db) = desired
         then db\<lparr>db_reconcile := (db_reconcile db)
           \<lparr>rc_applied := applied, rc_status := ru_status u, rc_operation := Some (ru_operation u),
            rc_error := map_option (take_chars 512) (ru_error u), rc_resources := ru_resources u,
            rc_active := ru_active u, rc_started := ru_started u, rc_completed := ru_completed u,
            rc_updated := now\<rparr>\<rparr>
         else db)))"

subsection \<open>The audit log\<close>

definition append_audit_event_in_transaction :: "audit_event \<Rightarrow> instant \<Rightarrow> unit tx" where
  "append_audit_event_in_transaction e now db =
     and_then (audit_validate e) (\<lambda>_.
       let i = db_audit_seq db + 1 in
       Ok ((), db\<lparr>db_audit_seq := i,
         db_audit := db_audit db @
           [\<lparr>au_id = i, au_created = now, au_admin_id = aa_admin_id (ae_actor e),
             au_username = aa_username (ae_actor e), au_role = aa_role (ae_actor e),
             au_action = action_str (ae_action e), au_object_type = object_str (ae_object_type e),
             au_object_id = ae_object_id e, au_outcome = outcome_str (ae_outcome e),
             au_metadata = metadata_json (ae_metadata e)\<rparr>]\<rparr>))"

definition append_audit_event :: "audit_event \<Rightarrow> instant \<Rightarrow> unit tx" where
  "append_audit_event e now db = append_audit_event_in_transaction e now db"

text \<open>\<open>if let Some(event) = event\<close> at the end of every audited operation.\<close>

definition audit_opt :: "audit_event option \<Rightarrow> instant \<Rightarrow> unit tx" where
  "audit_opt event now db = (case event of
       None \<Rightarrow> Ok ((), db)
     | Some e \<Rightarrow> append_audit_event_in_transaction e now db)"

text \<open>\<open>limit.clamp(1, 100)\<close>, \<open>offset.min(100\_000)\<close>, newest first.\<close>

definition list_audit_events :: "u32 \<Rightarrow> u64 \<Rightarrow> db \<Rightarrow> audit_row list" where
  "list_audit_events lim offset db =
     (let l = max 1 (min 100 (unat lim)); o' = min 100000 (unat offset) in
      take l (drop o' (rev (sort_key (\<lambda>r. (au_created r, au_id r)) (db_audit db)))))"

definition audit_event_count :: "db \<Rightarrow> int" where
  "audit_event_count db = int (length (db_audit db))"

subsection \<open>Runtime user synchronisation\<close>

record sync_observation =
  so_profile :: string
  so_runtime :: string
  so_pending :: bool
  so_status :: string
  so_desired :: u64
  so_observed :: "u64 option"
  so_missing :: "u64 option"
  so_unexpected :: "u64 option"
  so_checked :: string

definition valid_adapter_resource_id :: "string \<Rightarrow> bool" where
  "valid_adapter_resource_id v \<longleftrightarrow> v \<noteq> [] \<and> length v \<le> 128
     \<and> list_all (\<lambda>b. is_alphanumeric b \<or> b = CHR ''.'' \<or> b = CHR ''_'' \<or> b = CHR ''-'') v"

definition opt_i64 :: "u64 option \<Rightarrow> int option res" where
  "opt_i64 x = (case x of None \<Rightarrow> Ok None | Some w \<Rightarrow> and_then (i64_of w) (\<lambda>i. Ok (Some i)))"

text \<open>
  One INSERT of \<open>replace\_runtime\_user\_sync\<close>: the row needs an existing profile (foreign key) and
  a fresh key. \<open>parse\_time\<close> is \<open>DateTime::parse\_from\_rfc3339\<close>.
\<close>

definition insert_user_sync ::
  "(string \<Rightarrow> instant res) \<Rightarrow> sync_observation \<Rightarrow> db \<Rightarrow> db res" where
  "insert_user_sync parse_time s db =
     (if \<not> valid_adapter_resource_id (so_profile s) \<or> \<not> valid_adapter_id (so_runtime s) \<or> so_pending s
      then Err ''invalid runtime user synchronization observation''
      else and_then (parse_time (so_checked s)) (\<lambda>checked.
        and_then (i64_of (so_desired s)) (\<lambda>desired.
        and_then (opt_i64 (so_observed s)) (\<lambda>observed.
        and_then (opt_i64 (so_missing s)) (\<lambda>missing.
        and_then (opt_i64 (so_unexpected s)) (\<lambda>unexpected.
          if so_profile s \<notin> pf_name ` set (db_profiles db) then Err ''FOREIGN KEY constraint failed''
          else if bt_get (db_user_sync db) (so_profile s, so_runtime s) \<noteq> None
          then Err ''UNIQUE constraint failed''
          else Ok (db\<lparr>db_user_sync := bt_insert (so_profile s, so_runtime s)
            \<lparr>uy_status = so_status s, uy_desired = desired, uy_observed = observed,
             uy_missing = missing, uy_unexpected = unexpected, uy_checked = checked\<rparr> (db_user_sync db)\<rparr>)))))))"

fun insert_all_user_sync ::
  "(string \<Rightarrow> instant res) \<Rightarrow> sync_observation list \<Rightarrow> db \<Rightarrow> db res" where
  "insert_all_user_sync parse_time [] db = Ok db"
| "insert_all_user_sync parse_time (s # ss) db =
     and_then (insert_user_sync parse_time s db) (insert_all_user_sync parse_time ss)"

definition replace_runtime_user_sync ::
  "(string \<Rightarrow> instant res) \<Rightarrow> sync_observation list \<Rightarrow> unit tx" where
  "replace_runtime_user_sync parse_time observations db =
     and_then (insert_all_user_sync parse_time observations (db\<lparr>db_user_sync := []\<rparr>)) (\<lambda>db. Ok ((), db))"

definition list_runtime_user_sync :: "db \<Rightarrow> ((string \<times> string) \<times> user_sync_row) list" where
  "list_runtime_user_sync db = db_user_sync db"

subsection \<open>What the shared operations change\<close>

named_theorems db_simps \<open>effects of the shared operations on the tables\<close>

lemma bump_Inr:
  "bump_desired_generation op now db = Inr (g, db') \<longleftrightarrow>
     0 \<le> rc_desired (db_reconcile db) + 1 \<and> g = rc_desired (db_reconcile db) + 1
     \<and> db' = db\<lparr>db_reconcile := (db_reconcile db)
            \<lparr>rc_desired := rc_desired (db_reconcile db) + 1, rc_status := ''pending'',
             rc_operation := Some op, rc_error := None, rc_resources := [], rc_started := None,
             rc_completed := None, rc_updated := now\<rparr>,
             db_user_sync := map (\<lambda>(k, r). (k, r\<lparr>uy_status := ''pending'', uy_checked := now\<rparr>))
               (db_user_sync db)\<rparr>"
  by (auto simp: bump_desired_generation_def Let_def split: if_splits)

text \<open>Everything but the reconcile row and the synchronisation rows is kept by a bump.\<close>

definition same_tables :: "db \<Rightarrow> db \<Rightarrow> bool" where
  "same_tables db db' \<longleftrightarrow> (\<exists>r s. db' = db\<lparr>db_reconcile := r, db_user_sync := s\<rparr>)"

lemma bump_same: "bump_desired_generation op now db = Inr (g, db') \<Longrightarrow> same_tables db db'"
  unfolding bump_Inr same_tables_def by blast

lemma bump_desired:
  "bump_desired_generation op now db = Inr (g, db') \<Longrightarrow>
     rc_desired (db_reconcile db') = rc_desired (db_reconcile db) + 1
     \<and> g = rc_desired (db_reconcile db) + 1"
  unfolding bump_Inr by auto

lemma bump_keeps [db_simps]:
  assumes "bump_desired_generation op now db = Inr (g, db')"
  shows "db_users db' = db_users db" "db_lifecycle db' = db_lifecycle db"
    "db_user_seq db' = db_user_seq db" "db_audit db' = db_audit db" "db_audit_seq db' = db_audit_seq db"
    "db_profiles db' = db_profiles db" "db_admins db' = db_admins db" "db_sessions db' = db_sessions db"
    "db_settings db' = db_settings db" "db_pools db' = db_pools db" "db_members db' = db_members db"
    "db_policy_rules db' = db_policy_rules db" "db_rule_sets db' = db_rule_sets db"
    "db_rule_entries db' = db_rule_entries db" "db_rule_sources db' = db_rule_sources db"
    "db_secrets db' = db_secrets db" "db_admin_seq db' = db_admin_seq db"
    "db_session_seq db' = db_session_seq db" "db_profile_seq db' = db_profile_seq db"
  using assms unfolding bump_Inr by auto

lemma audit_Inr:
  "append_audit_event_in_transaction e now db = Inr (x, db') \<Longrightarrow>
     audit_validate e = Inr () \<and>
     (\<exists>r. db' = db\<lparr>db_audit_seq := db_audit_seq db + 1, db_audit := db_audit db @ [r]\<rparr>
        \<and> au_id r = db_audit_seq db + 1 \<and> au_created r = now \<and> au_action r = action_str (ae_action e)
        \<and> au_object_id r = ae_object_id e \<and> au_metadata r = metadata_json (ae_metadata e)
        \<and> au_admin_id r = aa_admin_id (ae_actor e))"
  by (auto simp: append_audit_event_in_transaction_def and_then_Inr_iff Let_def)

text \<open>Appending to the audit log changes nothing else; existing rows stay.\<close>

definition audit_ext :: "db \<Rightarrow> db \<Rightarrow> bool" where
  "audit_ext db db' \<longleftrightarrow> (\<exists>n rs. db' = db\<lparr>db_audit_seq := n, db_audit := db_audit db @ rs\<rparr>)"

lemma audit_opt_ext: "audit_opt event now db = Inr (x, db') \<Longrightarrow> audit_ext db db'"
proof (cases event)
  case None
  assume "audit_opt event now db = Inr (x, db')"
  then have "db' = db\<lparr>db_audit_seq := db_audit_seq db, db_audit := db_audit db @ []\<rparr>"
    using None by (simp add: audit_opt_def)
  then show ?thesis unfolding audit_ext_def by blast
next
  case (Some e)
  assume "audit_opt event now db = Inr (x, db')"
  then have "append_audit_event_in_transaction e now db = Inr (x, db')"
    using Some by (simp add: audit_opt_def)
  from audit_Inr [OF this] show ?thesis unfolding audit_ext_def by blast
qed

lemma audit_ext_keeps:
  assumes "audit_ext db db'"
  shows "db_users db' = db_users db" "db_lifecycle db' = db_lifecycle db"
    "db_user_seq db' = db_user_seq db" "db_reconcile db' = db_reconcile db"
    "db_user_sync db' = db_user_sync db" "db_profiles db' = db_profiles db"
    "db_admins db' = db_admins db" "db_sessions db' = db_sessions db"
    "db_settings db' = db_settings db" "db_pools db' = db_pools db" "db_members db' = db_members db"
    "db_policy_rules db' = db_policy_rules db" "db_rule_sets db' = db_rule_sets db"
    "db_rule_entries db' = db_rule_entries db" "db_rule_sources db' = db_rule_sources db"
    "db_secrets db' = db_secrets db" "db_admin_seq db' = db_admin_seq db"
    "db_session_seq db' = db_session_seq db" "db_profile_seq db' = db_profile_seq db"
    "\<exists>rs. db_audit db' = db_audit db @ rs"
  using assms unfolding audit_ext_def by auto

lemma audit_opt_keeps:
  assumes "audit_opt event now db = Inr (x, db')"
  shows "db_users db' = db_users db" "db_lifecycle db' = db_lifecycle db"
    "db_user_seq db' = db_user_seq db" "db_reconcile db' = db_reconcile db"
    "db_profiles db' = db_profiles db" "db_admins db' = db_admins db" "db_sessions db' = db_sessions db"
    "db_settings db' = db_settings db" "db_pools db' = db_pools db" "db_members db' = db_members db"
    "db_policy_rules db' = db_policy_rules db" "db_rule_sets db' = db_rule_sets db"
    "db_rule_entries db' = db_rule_entries db" "db_rule_sources db' = db_rule_sources db"
    "db_secrets db' = db_secrets db" "db_admin_seq db' = db_admin_seq db"
    "db_session_seq db' = db_session_seq db" "db_profile_seq db' = db_profile_seq db"
  using audit_ext_keeps [OF audit_opt_ext [OF assms]] by auto

lemma bump_ok: "0 \<le> rc_desired (db_reconcile db) \<Longrightarrow> \<exists>g db'. bump_desired_generation op now db = Inr (g, db')"
  unfolding bump_Inr by auto

end
