(* ===== verification/Store_Users.thy ===== *)
theory Store_Users
  imports Storage_Base "HOL-Library.Option_ord"
begin

text \<open>
  The subscription users of \<open>storage.rs\<close>: creation, edits with optimistic concurrency, rotation of
  the runtime identity, enabling, the subscription token, deletion, and the lifecycle checkpoints
  that turn a deadline or quota crossing into one new desired generation and a durable request
  (\<open>pending\_generation\<close>) for the reconcile worker.
\<close>

record new_user =
  nu_username :: string
  nu_limit :: "int option"
  nu_expires :: "instant option"

record update_user =
  uu_id :: int
  uu_expected :: instant
  uu_username :: string
  uu_limit :: "int option"
  uu_expires :: "instant option"

record user_mutation_result =
  um_user :: user_record
  um_generation :: "int option"
  um_access_changed :: bool

record lifecycle_evaluation =
  le_evaluated :: nat
  le_transitions :: nat
  le_pending :: "int option"

definition valid_user_name :: "string \<Rightarrow> bool" where
  "valid_user_name v \<longleftrightarrow> 3 \<le> length v \<and> length v \<le> 64
     \<and> (case v of [] \<Rightarrow> False | b # _ \<Rightarrow> is_alphanumeric b)
     \<and> list_all (\<lambda>b. is_alphanumeric b \<or> b = CHR ''.'' \<or> b = CHR ''_'' \<or> b = CHR ''-'') v"

definition validate_user_fields :: "string \<Rightarrow> int option \<Rightarrow> unit res" where
  "validate_user_fields username traffic_limit =
     (if \<not> valid_user_name username then Err ''invalid user name''
      else if (case traffic_limit of None \<Rightarrow> False | Some l \<Rightarrow> l \<le> 0)
      then Err ''traffic limit must be positive when present''
      else Ok ())"

definition next_user_updated_at :: "instant \<Rightarrow> instant \<Rightarrow> instant" where
  "next_user_updated_at current now = (if current < now then now else current + 1)"

subsection \<open>The users table\<close>

text \<open>The UNIQUE columns; a statement that breaks one of them fails.\<close>

definition users_unique :: "user_record list \<Rightarrow> bool" where
  "users_unique us \<longleftrightarrow>
     distinct (map us_username us) \<and> distinct (map us_uuid us) \<and> distinct (map us_token us)"

definition user_by_id :: "int \<Rightarrow> db \<Rightarrow> user_record option" where
  "user_by_id i db = List.find (\<lambda>u. us_id u = i) (db_users db)"

definition get_user_by_id_in_transaction :: "int \<Rightarrow> db \<Rightarrow> user_record res" where
  "get_user_by_id_in_transaction i db = ok_or ''user not found'' (user_by_id i db)"

definition get_user_by_token :: "string \<Rightarrow> db \<Rightarrow> user_record res" where
  "get_user_by_token token db =
     ok_or ''row not found'' (List.find (\<lambda>u. us_token u = token) (db_users db))"

text \<open>\<open>ORDER BY id DESC\<close>: identifiers grow with insertion.\<close>

definition list_users :: "db \<Rightarrow> user_record list" where
  "list_users db = rev (sort_key us_id (db_users db))"

text \<open>INSERT, \<open>UPDATE ... WHERE p\<close> with its number of rows, and DELETE with its cascades.\<close>

definition insert_user :: "(int \<Rightarrow> user_record) \<Rightarrow> user_record tx" where
  "insert_user mk db =
     (let i = db_user_seq db + 1; us = db_users db @ [mk i] in
      if users_unique us then Ok (mk i, db\<lparr>db_users := us, db_user_seq := i\<rparr>)
      else Err ''UNIQUE constraint failed'')"

definition update_users :: "(user_record \<Rightarrow> bool) \<Rightarrow> (user_record \<Rightarrow> user_record) \<Rightarrow> nat tx" where
  "update_users p f db =
     (let us = map (\<lambda>v. if p v then f v else v) (db_users db) in
      if users_unique us then Ok (length (filter p (db_users db)), db\<lparr>db_users := us\<rparr>)
      else Err ''UNIQUE constraint failed'')"

definition delete_users :: "int \<Rightarrow> db \<Rightarrow> nat \<times> db" where
  "delete_users i db =
     (length (filter (\<lambda>v. us_id v = i) (db_users db)),
      db\<lparr>db_users := filter (\<lambda>v. us_id v \<noteq> i) (db_users db),
        db_lifecycle := bt_remove i (db_lifecycle db),
        db_telemetry := map (\<lambda>t. if tm_user t = Some i then t\<lparr>tm_user := None\<rparr> else t) (db_telemetry db)\<rparr>)"

text \<open>
  \<open>audit\_user\_id\<close>: the caller's event is validated, then carries the user's identifier.
\<close>

definition show_int :: "int \<Rightarrow> string" where
  "show_int i = (if i < 0 then CHR ''-'' # show_nat (nat (- i)) else show_nat (nat i))"

definition audit_user_id :: "audit_event \<Rightarrow> int \<Rightarrow> audit_event res" where
  "audit_user_id e i = and_then (audit_validate e) (\<lambda>_. Ok (e\<lparr>ae_object_id := show_int i\<rparr>))"

definition audit_user :: "audit_event option \<Rightarrow> int \<Rightarrow> instant \<Rightarrow> unit tx" where
  "audit_user event i now db = (case event of
       None \<Rightarrow> Ok ((), db)
     | Some e \<Rightarrow> and_then (audit_user_id e i) (\<lambda>e. append_audit_event_in_transaction e now db))"

text \<open>
  A new checkpoint keeps the pending generation of the old row unless it has one itself
  (\<open>COALESCE\<close>).
\<close>

definition checkpoint_row ::
  "lifecycle_row option \<Rightarrow> user_record \<Rightarrow> user_access_state \<Rightarrow> instant \<Rightarrow> int option \<Rightarrow> lifecycle_row" where
  "checkpoint_row old u st observed pending =
     \<lparr>ul_allowed = access_allowed st, ul_disabled = ua_disabled st, ul_expired = ua_expired st,
      ul_quota_exceeded = ua_quota_exceeded st, ul_source_updated = us_updated u,
      ul_observed = observed,
      ul_pending = (case pending of None \<Rightarrow> Option.bind old ul_pending | Some g \<Rightarrow> Some g)\<rparr>"

definition upsert_user_lifecycle_checkpoint ::
  "user_record \<Rightarrow> user_access_state \<Rightarrow> instant \<Rightarrow> int option \<Rightarrow> db \<Rightarrow> db" where
  "upsert_user_lifecycle_checkpoint u st observed pending db =
     db\<lparr>db_lifecycle := bt_insert (us_id u)
         (checkpoint_row (bt_get (db_lifecycle db) (us_id u)) u st observed pending) (db_lifecycle db)\<rparr>"

text \<open>A bump only when \<open>changed\<close>.\<close>

definition bump_if :: "bool \<Rightarrow> uuid \<Rightarrow> instant \<Rightarrow> int option tx" where
  "bump_if changed op now db =
     (if changed then and_then (bump_desired_generation op now db) (\<lambda>(g, db). Ok (Some g, db))
      else Ok (None, db))"

subsection \<open>Operations\<close>

text \<open>
  \<open>create\_user\_inner\<close>: \<open>uuid\<close>, \<open>token\<close> and \<open>op\<close> are the random identifiers drawn on the way.
\<close>

definition create_user_inner ::
  "new_user \<Rightarrow> audit_event option \<Rightarrow> uuid \<Rightarrow> string \<Rightarrow> uuid \<Rightarrow> instant \<Rightarrow> user_record tx" where
  "create_user_inner input event uuid token op now db =
     (let username = trim (nu_username input) in
      and_then (validate_user_fields username (nu_limit input)) (\<lambda>_.
      and_then (insert_user (\<lambda>i. \<lparr>us_id = i, us_username = username, us_uuid = uuid, us_token = token,
          us_enabled = True, us_limit = nu_limit input, us_used = 0, us_expires = nu_expires input,
          us_created = now, us_updated = now\<rparr>) db) (\<lambda>(_, db).
      and_then (bump_desired_generation op now db) (\<lambda>(g, db).
      and_then (ok_or ''row not found'' (List.find (\<lambda>u. us_token u = token) (db_users db))) (\<lambda>u.
        let db = upsert_user_lifecycle_checkpoint u (access_state_at u now) now (Some g) db in
        and_then (audit_user event (us_id u) now db) (\<lambda>(_, db). Ok (u, db)))))))"

definition update_user_audited ::
  "update_user \<Rightarrow> audit_event \<Rightarrow> uuid \<Rightarrow> instant \<Rightarrow> user_mutation_result tx" where
  "update_user_audited input event op now db =
     (let username = trim (uu_username input) in
      and_then (validate_user_fields username (uu_limit input)) (\<lambda>_.
      and_then (get_user_by_id_in_transaction (uu_id input) db) (\<lambda>current.
        if us_updated current \<noteq> uu_expected input
        then Err ''user changed since this form was loaded''
        else
          let username_changed = us_username current \<noteq> username;
              expiry_changed = us_expires current \<noteq> uu_expires input;
              quota_changed = us_limit current \<noteq> uu_limit input in
          if \<not> username_changed \<and> \<not> expiry_changed \<and> \<not> quota_changed
          then Err ''user update contains no changes''
          else
            let updated_at = next_user_updated_at (us_updated current) now;
                edit = (\<lambda>v. v\<lparr>us_username := username, us_limit := uu_limit input,
                  us_expires := uu_expires input, us_updated := updated_at\<rparr>) in
            and_then (update_users
                (\<lambda>v. us_id v = uu_id input \<and> us_updated v = uu_expected input) edit db) (\<lambda>(rows, db).
              if rows \<noteq> 1 then Err ''user changed since this form was loaded''
              else
                let updated = edit current;
                    previous_access = access_state_at current now;
                    current_access = access_state_at updated now;
                    access_changed = (access_allowed previous_access \<noteq> access_allowed current_access);
                    runtime_label_changed = (username_changed
                      \<and> (access_allowed previous_access \<or> access_allowed current_access)) in
                and_then (bump_if (runtime_label_changed \<or> access_changed) op now db) (\<lambda>(g, db).
                  let db = upsert_user_lifecycle_checkpoint updated current_access now g db in
                  and_then (audit_user_id event (us_id updated)) (\<lambda>e.
                  and_then (append_audit_event_in_transaction
                      (e\<lparr>ae_metadata := metadata_user_update username_changed expiry_changed
                          quota_changed access_changed\<rparr>) now db) (\<lambda>(_, db).
                    Ok (\<lparr>um_user = updated, um_generation = g, um_access_changed = access_changed\<rparr>, db))))))))"

definition rotate_user_runtime_identity_audited ::
  "int \<Rightarrow> instant \<Rightarrow> audit_event \<Rightarrow> uuid \<Rightarrow> uuid \<Rightarrow> instant \<Rightarrow> user_mutation_result tx" where
  "rotate_user_runtime_identity_audited i expected event replacement op now db =
     and_then (get_user_by_id_in_transaction i db) (\<lambda>current.
       if us_updated current \<noteq> expected
       then Err ''user changed since this confirmation was loaded''
       else
         let updated_at = next_user_updated_at (us_updated current) now;
             edit = (\<lambda>v. v\<lparr>us_uuid := replacement, us_updated := updated_at\<rparr>) in
         and_then (update_users (\<lambda>v. us_id v = i \<and> us_updated v = expected) edit db) (\<lambda>(rows, db).
           if rows \<noteq> 1 then Err ''user changed since this confirmation was loaded''
           else and_then (bump_desired_generation op now db) (\<lambda>(g, db).
             let updated = edit current;
                 db = upsert_user_lifecycle_checkpoint updated (access_state_at updated now) now (Some g) db in
             and_then (audit_user (Some event) (us_id updated) now db) (\<lambda>(_, db).
               Ok (\<lparr>um_user = updated, um_generation = Some g, um_access_changed = False\<rparr>, db)))))"

definition set_user_enabled_inner ::
  "int \<Rightarrow> bool \<Rightarrow> audit_event option \<Rightarrow> uuid \<Rightarrow> instant \<Rightarrow> user_mutation_result tx" where
  "set_user_enabled_inner i enabled event op now db =
     and_then (get_user_by_id_in_transaction i db) (\<lambda>current.
       if us_enabled current = enabled then Err ''user already has the requested enabled state''
       else
         let updated_at = next_user_updated_at (us_updated current) now;
             edit = (\<lambda>v. v\<lparr>us_enabled := enabled, us_updated := updated_at\<rparr>) in
         and_then (update_users (\<lambda>v. us_id v = i) edit db) (\<lambda>(rows, db).
           if rows = 0 then Err ''user not found''
           else
             let updated = edit current;
                 access_changed = (access_allowed (access_state_at current now)
                   \<noteq> access_allowed (access_state_at updated now)) in
             and_then (bump_if access_changed op now db) (\<lambda>(g, db).
               let db = upsert_user_lifecycle_checkpoint updated (access_state_at updated now) now g db in
               and_then (audit_user event (us_id updated) now db) (\<lambda>(_, db).
                 Ok (\<lparr>um_user = updated, um_generation = g, um_access_changed = access_changed\<rparr>, db)))))"

definition reset_user_subscription_token_inner ::
  "int \<Rightarrow> audit_event option \<Rightarrow> string \<Rightarrow> instant \<Rightarrow> string tx" where
  "reset_user_subscription_token_inner i event new_token now db =
     and_then (get_user_by_id_in_transaction i db) (\<lambda>current.
       let updated_at = next_user_updated_at (us_updated current) now;
           edit = (\<lambda>v. v\<lparr>us_token := new_token, us_updated := updated_at\<rparr>) in
       and_then (update_users (\<lambda>v. us_id v = i) edit db) (\<lambda>(rows, db).
         if rows = 0 then Err ''user not found''
         else
           let updated = edit current;
               db = upsert_user_lifecycle_checkpoint updated (access_state_at updated now) now None db in
           and_then (audit_user event (us_id updated) now db) (\<lambda>(_, db). Ok (new_token, db))))"

definition delete_user_inner ::
  "int \<Rightarrow> audit_event option \<Rightarrow> uuid \<Rightarrow> instant \<Rightarrow> user_mutation_result tx" where
  "delete_user_inner i event op now db =
     and_then (get_user_by_id_in_transaction i db) (\<lambda>current.
       case delete_users i db of (rows, db) \<Rightarrow>
         if rows = 0 then Err ''user not found''
         else
           let access_changed = access_allowed (access_state_at current now) in
           and_then (bump_if access_changed op now db) (\<lambda>(g, db).
           and_then (audit_user event (us_id current) now db) (\<lambda>(_, db).
             Ok (\<lparr>um_user = current, um_generation = g, um_access_changed = access_changed\<rparr>, db))))"

subsection \<open>Lifecycle evaluation\<close>

datatype lifecycle_scope = Repair | Deadlines

text \<open>
  The two candidate queries. \<open>expired = 0\<close> is a deadline that has passed unnoticed,
  \<open>expired = 1\<close> with a deadline ahead a checkpoint from before the deadline moved.
\<close>

definition deadline_due :: "instant \<Rightarrow> user_record \<Rightarrow> lifecycle_row \<Rightarrow> bool" where
  "deadline_due now u r \<longleftrightarrow> (case us_expires u of None \<Rightarrow> False
     | Some d \<Rightarrow> d \<le> now \<and> \<not> ul_expired r \<or> now < d \<and> ul_expired r)"

definition lifecycle_candidate :: "lifecycle_scope \<Rightarrow> instant \<Rightarrow> db \<Rightarrow> user_record \<Rightarrow> bool" where
  "lifecycle_candidate scope now db u = (case bt_get (db_lifecycle db) (us_id u) of
       None \<Rightarrow> scope = Repair
     | Some r \<Rightarrow> (scope = Repair \<and> ul_source_updated r \<noteq> us_updated u) \<or> deadline_due now u r)"

text \<open>SQLite sorts NULL before every value, as the library's order on \<open>option\<close> does.\<close>

definition lifecycle_candidates :: "lifecycle_scope \<Rightarrow> instant \<Rightarrow> db \<Rightarrow> user_record list" where
  "lifecycle_candidates scope now db =
     (let us = filter (lifecycle_candidate scope now db) (db_users db) in
      case scope of
        Repair \<Rightarrow> sort_key (\<lambda>u. (us_expires u, us_id u)) us
      | Deadlines \<Rightarrow> sort_key us_id us)"

definition candidate_ids :: "lifecycle_scope \<Rightarrow> instant \<Rightarrow> db \<Rightarrow> int list" where
  "candidate_ids scope now db = map us_id (lifecycle_candidates scope now db)"

definition max_pending :: "(int, lifecycle_row) btmap \<Rightarrow> int option" where
  "max_pending m = fold (\<lambda>(_, r) acc. max (ul_pending r) acc) m None"

definition evaluate_one :: "instant \<Rightarrow> db \<Rightarrow> int \<Rightarrow> (user_record \<times> user_access_state \<times> bool) res" where
  "evaluate_one now db i =
     and_then (get_user_by_id_in_transaction i db) (\<lambda>u.
       let current = access_state_at u now in
       Ok (u, current, case bt_get (db_lifecycle db) i of
           None \<Rightarrow> \<not> access_allowed current
         | Some r \<Rightarrow> ul_allowed r \<noteq> access_allowed current))"

definition raise_pending :: "int \<Rightarrow> db \<Rightarrow> db" where
  "raise_pending g db = db\<lparr>db_lifecycle := map (\<lambda>(k, r). (k, if ul_pending r = None then r
     else r\<lparr>ul_pending := Some g\<rparr>)) (db_lifecycle db)\<rparr>"

definition checkpoint_evaluated ::
  "instant \<Rightarrow> int option \<Rightarrow> user_record \<times> user_access_state \<times> bool \<Rightarrow> db \<Rightarrow> db" where
  "checkpoint_evaluated now g = (\<lambda>(u, st, transition) db.
     upsert_user_lifecycle_checkpoint u st now (if transition then g else None) db)"

definition evaluate_user_lifecycle ::
  "lifecycle_scope \<Rightarrow> uuid \<Rightarrow> instant \<Rightarrow> lifecycle_evaluation tx" where
  "evaluate_user_lifecycle scope op now db =
     (let existing_pending = max_pending (db_lifecycle db) in
      and_then (collect_res (map (evaluate_one now db) (candidate_ids scope now db))) (\<lambda>evaluated.
        let transitions = length (filter (\<lambda>(_, _, t). t) evaluated) in
        and_then (if 0 < transitions
           then and_then (bump_desired_generation op now db) (\<lambda>(g, db). Ok (Some g, raise_pending g db))
           else Ok (None, db)) (\<lambda>(new_generation, db).
          let db = fold (checkpoint_evaluated now new_generation) evaluated db in
          Ok (\<lparr>le_evaluated = length evaluated, le_transitions = transitions,
            le_pending = (case new_generation of None \<Rightarrow> existing_pending | Some g \<Rightarrow> Some g)\<rparr>, db))))"

text \<open>\<open>pending\_generation <= ?\<close> is not true for a NULL.\<close>

definition mark_user_lifecycle_reconcile_published :: "int \<Rightarrow> db \<Rightarrow> db" where
  "mark_user_lifecycle_reconcile_published g db =
     db\<lparr>db_lifecycle := map (\<lambda>(k, r). (k, case ul_pending r of
         None \<Rightarrow> r
       | Some p \<Rightarrow> if p \<le> g then r\<lparr>ul_pending := None\<rparr> else r)) (db_lifecycle db)\<rparr>"

end
