(* ===== verification/Store_Users_Inv.thy ===== *)
theory Store_Users_Inv
  imports Store_Users
begin

text \<open>
  What every operation on users keeps: the table's identifiers stay unique, every checkpoint belongs
  to a user, no pending generation is ahead of the desired one, and an up-to-date checkpoint tells
  the truth about its user. The operations are collected in one step relation.
\<close>

subsection \<open>The invariant\<close>

definition users_ok :: "db \<Rightarrow> bool" where
  "users_ok db \<longleftrightarrow> distinct (map us_id (db_users db)) \<and> users_unique (db_users db)
     \<and> (\<forall>u \<in> set (db_users db). us_id u \<le> db_user_seq db)
     \<and> bt_wf (db_lifecycle db) \<and> 0 \<le> rc_desired (db_reconcile db)
     \<and> (\<forall>i r. bt_get (db_lifecycle db) i = Some r \<longrightarrow> i \<in> us_id ` set (db_users db)
          \<and> (\<forall>g. ul_pending r = Some g \<longrightarrow> g \<le> rc_desired (db_reconcile db)))"

definition row_of :: "user_record \<Rightarrow> lifecycle_row \<Rightarrow> bool" where
  "row_of u r \<longleftrightarrow> (let st = access_state_at u (ul_observed r) in
     ul_allowed r = access_allowed st \<and> ul_disabled r = ua_disabled st
     \<and> ul_expired r = ua_expired st \<and> ul_quota_exceeded r = ua_quota_exceeded st)"

definition checkpoints_true :: "db \<Rightarrow> bool" where
  "checkpoints_true db \<longleftrightarrow> (\<forall>u \<in> set (db_users db). \<forall>r.
     bt_get (db_lifecycle db) (us_id u) = Some r \<and> ul_source_updated r = us_updated u \<longrightarrow> row_of u r)"

definition users_inv :: "db \<Rightarrow> bool" where
  "users_inv db \<longleftrightarrow> users_ok db \<and> checkpoints_true db"

lemma users_okD:
  assumes "users_ok db"
  shows "distinct (map us_id (db_users db))" "users_unique (db_users db)"
    "\<And>u. u \<in> set (db_users db) \<Longrightarrow> us_id u \<le> db_user_seq db"
    "bt_wf (db_lifecycle db)" "\<And>i r. bt_get (db_lifecycle db) i = Some r \<Longrightarrow> i \<in> us_id ` set (db_users db)"
    "0 \<le> rc_desired (db_reconcile db)"
    "\<And>i r g. bt_get (db_lifecycle db) i = Some r \<Longrightarrow> ul_pending r = Some g \<Longrightarrow> g \<le> rc_desired (db_reconcile db)"
  using assms unfolding users_ok_def by blast+

lemma user_by_id_Some: "user_by_id i db = Some u \<Longrightarrow> u \<in> set (db_users db) \<and> us_id u = i"
  unfolding user_by_id_def by (rule find_Some_mem)

lemma same_user:
  "distinct (map us_id us) \<Longrightarrow> u \<in> set us \<Longrightarrow> v \<in> set us \<Longrightarrow> us_id u = us_id v \<Longrightarrow> u = v"
  unfolding distinct_map by (meson inj_onD)

lemma user_by_id_mem:
  assumes "users_ok db" and "u \<in> set (db_users db)"
  shows "user_by_id (us_id u) db = Some u"
proof -
  obtain v where v: "user_by_id (us_id u) db = Some v"
    unfolding user_by_id_def using find_Some_if [of "db_users db" "\<lambda>w. us_id w = us_id u"] assms(2) by blast
  then have "v = u" using user_by_id_Some same_user [OF users_okD(1) [OF assms(1)]] assms(2) by blast
  then show ?thesis using v by simp
qed

lemma row_of_checkpoint: "row_of u (checkpoint_row old u (access_state_at u now) now g)"
  by (simp add: row_of_def checkpoint_row_def)

subsection \<open>Effects of the shared steps\<close>

text \<open>The part of the database the user operations work on.\<close>

definition user_core :: "db \<Rightarrow> user_record list \<times> int \<times> (int, lifecycle_row) btmap \<times> reconcile_row" where
  "user_core db = (db_users db, db_user_seq db, db_lifecycle db, db_reconcile db)"

lemma audit_user_core: "audit_user event i now db = Inr (x, db') \<Longrightarrow> user_core db' = user_core db"
  by (cases event)
    (auto simp: audit_user_def and_then_Inr_iff user_core_def dest!: audit_Inr)

lemma append_core: "append_audit_event_in_transaction e now db = Inr (x, db') \<Longrightarrow> user_core db' = user_core db"
  by (auto simp: user_core_def dest!: audit_Inr)

lemma update_users_Inr:
  "update_users p f db = Inr (n, db') \<longleftrightarrow> users_unique (map (\<lambda>v. if p v then f v else v) (db_users db))
     \<and> n = length (filter p (db_users db))
     \<and> db' = db\<lparr>db_users := map (\<lambda>v. if p v then f v else v) (db_users db)\<rparr>"
  by (auto simp: update_users_def Let_def)

lemma insert_user_Inr:
  "insert_user mk db = Inr (u, db') \<longleftrightarrow> users_unique (db_users db @ [mk (db_user_seq db + 1)])
     \<and> u = mk (db_user_seq db + 1)
     \<and> db' = db\<lparr>db_users := db_users db @ [mk (db_user_seq db + 1)], db_user_seq := db_user_seq db + 1\<rparr>"
  by (auto simp: insert_user_def Let_def)

text \<open>The generation after an optional bump.\<close>

definition bumped :: "int option \<Rightarrow> reconcile_row \<Rightarrow> reconcile_row \<Rightarrow> bool" where
  "bumped g r r' \<longleftrightarrow> (case g of None \<Rightarrow> r' = r
     | Some n \<Rightarrow> n = rc_desired r + 1 \<and> rc_desired r' = n \<and> rc_status r' = ''pending''
         \<and> rc_applied r' = rc_applied r)"

lemma bump_core:
  "bump_desired_generation op now db = Inr (g, db') \<Longrightarrow>
     db_users db' = db_users db \<and> db_user_seq db' = db_user_seq db \<and> db_lifecycle db' = db_lifecycle db
     \<and> bumped (Some g) (db_reconcile db) (db_reconcile db')"
  by (auto simp: bump_Inr bumped_def)

lemma bump_if_core:
  "bump_if c op now db = Inr (g, db') \<Longrightarrow>
     db_users db' = db_users db \<and> db_user_seq db' = db_user_seq db \<and> db_lifecycle db' = db_lifecycle db
     \<and> bumped g (db_reconcile db) (db_reconcile db') \<and> (c \<longleftrightarrow> g \<noteq> None)"
  by (auto simp: bump_if_def and_then_Inr_iff bumped_def split: if_splits dest!: bump_core)

subsection \<open>The shapes of a mutation\<close>

definition edited :: "user_record \<Rightarrow> user_record \<Rightarrow> instant \<Rightarrow> int option \<Rightarrow> db \<Rightarrow> db \<Rightarrow> bool" where
  "edited u u' now g db db' \<longleftrightarrow> u \<in> set (db_users db) \<and> us_id u' = us_id u
     \<and> db_users db' = map (\<lambda>v. if us_id v = us_id u then u' else v) (db_users db)
     \<and> users_unique (db_users db') \<and> db_user_seq db' = db_user_seq db
     \<and> db_lifecycle db' = bt_insert (us_id u) (checkpoint_row (bt_get (db_lifecycle db) (us_id u))
          u' (access_state_at u' now) now g) (db_lifecycle db)
     \<and> bumped g (db_reconcile db) (db_reconcile db')"

definition created :: "user_record \<Rightarrow> instant \<Rightarrow> int option \<Rightarrow> db \<Rightarrow> db \<Rightarrow> bool" where
  "created u now g db db' \<longleftrightarrow> us_id u = db_user_seq db + 1
     \<and> db_users db' = db_users db @ [u] \<and> users_unique (db_users db') \<and> db_user_seq db' = db_user_seq db + 1
     \<and> db_lifecycle db' = bt_insert (us_id u) (checkpoint_row (bt_get (db_lifecycle db) (us_id u))
          u (access_state_at u now) now g) (db_lifecycle db)
     \<and> bumped g (db_reconcile db) (db_reconcile db') \<and> g \<noteq> None"

definition deleted :: "user_record \<Rightarrow> int option \<Rightarrow> db \<Rightarrow> db \<Rightarrow> bool" where
  "deleted u g db db' \<longleftrightarrow> u \<in> set (db_users db)
     \<and> db_users db' = filter (\<lambda>v. us_id v \<noteq> us_id u) (db_users db) \<and> db_user_seq db' = db_user_seq db
     \<and> db_lifecycle db' = bt_remove (us_id u) (db_lifecycle db)
     \<and> bumped g (db_reconcile db) (db_reconcile db')"

lemma map_edit_user:
  assumes "distinct (map us_id us)" and "u \<in> set us" and "P u"
  shows "map (\<lambda>v. if us_id v = us_id u \<and> P v then f v else v) us
       = map (\<lambda>v. if us_id v = us_id u then f u else v) us"
proof (rule map_cong [OF refl])
  fix v assume "v \<in> set us"
  then show "(if us_id v = us_id u \<and> P v then f v else v) = (if us_id v = us_id u then f u else v)"
    using same_user [OF assms(1,2)] assms(3) by metis
qed

lemma get_tx_Inr:
  "get_user_by_id_in_transaction i db = Inr u \<Longrightarrow> u \<in> set (db_users db) \<and> us_id u = i"
  by (auto simp: get_user_by_id_in_transaction_def ok_or_Inr_iff dest: user_by_id_Some)

lemma map_edit_user_id:
  assumes "distinct (map us_id us)" and "u \<in> set us"
  shows "map (\<lambda>v. if us_id v = us_id u then f v else v) us
       = map (\<lambda>v. if us_id v = us_id u then f u else v) us"
  using map_edit_user [OF assms, of "\<lambda>_. True" f] by simp

lemma create_user_created:
  assumes "create_user_inner input event uuid token op now db = Inr (u, db')" and "users_ok db"
  shows "\<exists>g. created u now g db db' \<and> us_created u = now \<and> us_enabled u
    \<and> us_username u = trim (nu_username input) \<and> us_uuid u = uuid \<and> us_token u = token"
proof -
  let ?u = "\<lparr>us_id = db_user_seq db + 1, us_username = trim (nu_username input), us_uuid = uuid,
    us_token = token, us_enabled = True, us_limit = nu_limit input, us_used = 0,
    us_expires = nu_expires input, us_created = now, us_updated = now\<rparr>"
  from assms(1) obtain db1 db2 g v db3 where
    ins: "users_unique (db_users db @ [?u])"
      "db1 = db\<lparr>db_users := db_users db @ [?u], db_user_seq := db_user_seq db + 1\<rparr>"
    and bump: "bump_desired_generation op now db1 = Inr (g, db2)"
    and fnd: "List.find (\<lambda>u. us_token u = token) (db_users db2) = Some v"
    and aud: "audit_user event (us_id v) now (upsert_user_lifecycle_checkpoint v (access_state_at v now) now
        (Some g) db2) = Inr ((), db3)"
    and res: "u = v" "db' = db3"
    by (auto simp: create_user_inner_def and_then_Inr_iff Let_def insert_user_Inr ok_or_Inr_iff)
  note b = bump_core [OF bump]
  have v: "v = ?u"
  proof -
    have "v \<in> set (db_users db @ [?u])" "us_token v = token"
      using find_Some_mem [OF fnd] b ins(2) by auto
    moreover have "distinct (map us_token (db_users db @ [?u]))" using ins(1) by (simp add: users_unique_def)
    ultimately show ?thesis by auto
  qed
  have "created ?u now (Some g) db db'"
    using audit_user_core [OF aud] b ins res v
    by (auto simp: user_core_def created_def upsert_user_lifecycle_checkpoint_def)
  then show ?thesis using res v by auto
qed

lemma update_user_edited:
  assumes "update_user_audited input event op now db = Inr (r, db')" and "users_ok db"
  shows "\<exists>u. edited u (um_user r) now (um_generation r) db db' \<and> us_id u = uu_id input
    \<and> um_access_changed r = (access_allowed (access_state_at u now) \<noteq> access_allowed (access_state_at (um_user r) now))
    \<and> (um_generation r \<noteq> None \<longleftrightarrow> um_access_changed r \<or> us_username u \<noteq> us_username (um_user r)
          \<and> access_allowed (access_state_at u now))
    \<and> us_uuid (um_user r) = us_uuid u \<and> us_username (um_user r) = trim (uu_username input)
    \<and> us_enabled (um_user r) = us_enabled u \<and> us_used (um_user r) = us_used u"
proof -
  obtain u where cur: "get_user_by_id_in_transaction (uu_id input) db = Inr u"
    using assms(1) by (auto simp: update_user_audited_def and_then_Inr_iff Let_def)
  note u = get_tx_Inr [OF cur]
  let ?edit = "\<lambda>v. v\<lparr>us_username := trim (uu_username input), us_limit := uu_limit input,
    us_expires := uu_expires input, us_updated := next_user_updated_at (us_updated u) now\<rparr>"
  let ?acc = "\<lambda>v. access_allowed (access_state_at v now)"
  from assms(1) cur obtain n db1 g db2 e db3 where
    upd: "update_users (\<lambda>v. us_id v = uu_id input \<and> us_updated v = us_updated u) ?edit db = Inr (n, db1)"
    and bump: "bump_if ((us_username u \<noteq> trim (uu_username input) \<and> (?acc u \<or> ?acc (?edit u)))
        \<or> (?acc u \<noteq> ?acc (?edit u))) op now db1 = Inr (g, db2)"
    and aud: "append_audit_event_in_transaction e now (upsert_user_lifecycle_checkpoint (?edit u)
        (access_state_at (?edit u) now) now g db2) = Inr ((), db3)"
    and res: "r = \<lparr>um_user = ?edit u, um_generation = g, um_access_changed = (?acc u \<noteq> ?acc (?edit u))\<rparr>" "db' = db3"
    by (auto simp: update_user_audited_def and_then_Inr_iff Let_def split: if_splits)
  note up = upd [unfolded update_users_Inr] and b = bump_if_core [OF bump]
  have "map (\<lambda>v. if us_id v = uu_id input \<and> us_updated v = us_updated u then ?edit v else v) (db_users db)
      = map (\<lambda>v. if us_id v = us_id u then ?edit u else v) (db_users db)"
    using map_edit_user [OF users_okD(1) [OF assms(2)], of u "\<lambda>v. us_updated v = us_updated u" ?edit] u by simp
  then have "edited u (?edit u) now g db db'"
    using append_core [OF aud] b up u res(2)
    by (simp add: user_core_def edited_def upsert_user_lifecycle_checkpoint_def)
  then show ?thesis using u b res by (intro exI [of _ u]) auto
qed

lemma rotate_edited:
  assumes "rotate_user_runtime_identity_audited i expected event replacement op now db = Inr (r, db')"
    and "users_ok db"
  shows "\<exists>u. edited u (um_user r) now (um_generation r) db db' \<and> us_id u = i \<and> um_generation r \<noteq> None
    \<and> us_uuid (um_user r) = replacement"
proof -
  obtain u where cur: "get_user_by_id_in_transaction i db = Inr u"
    using assms(1) by (auto simp: rotate_user_runtime_identity_audited_def and_then_Inr_iff)
  note u = get_tx_Inr [OF cur]
  let ?edit = "\<lambda>v. v\<lparr>us_uuid := replacement, us_updated := next_user_updated_at (us_updated u) now\<rparr>"
  from assms(1) cur obtain n db1 g db2 db3 where
    upd: "update_users (\<lambda>v. us_id v = i \<and> us_updated v = us_updated u) ?edit db = Inr (n, db1)"
    and bump: "bump_desired_generation op now db1 = Inr (g, db2)"
    and aud: "audit_user (Some event) (us_id u) now (upsert_user_lifecycle_checkpoint (?edit u)
        (access_state_at (?edit u) now) now (Some g) db2) = Inr ((), db3)"
    and res: "r = \<lparr>um_user = ?edit u, um_generation = Some g, um_access_changed = False\<rparr>" "db' = db3"
    by (auto simp: rotate_user_runtime_identity_audited_def and_then_Inr_iff Let_def split: if_splits)
  note up = upd [unfolded update_users_Inr] and b = bump_core [OF bump]
  have "map (\<lambda>v. if us_id v = i \<and> us_updated v = us_updated u then ?edit v else v) (db_users db)
      = map (\<lambda>v. if us_id v = us_id u then ?edit u else v) (db_users db)"
    using map_edit_user [OF users_okD(1) [OF assms(2)], of u "\<lambda>v. us_updated v = us_updated u" ?edit] u by simp
  then have "edited u (?edit u) now (Some g) db db'"
    using audit_user_core [OF aud] b up u res(2)
    by (simp add: user_core_def edited_def upsert_user_lifecycle_checkpoint_def)
  then show ?thesis using u res by (intro exI [of _ u]) auto
qed

lemma enabled_edited:
  assumes "set_user_enabled_inner i enabled event op now db = Inr (r, db')" and "users_ok db"
  shows "\<exists>u. edited u (um_user r) now (um_generation r) db db' \<and> us_id u = i
    \<and> um_user r = u\<lparr>us_enabled := enabled, us_updated := us_updated (um_user r)\<rparr>
    \<and> um_access_changed r = (access_allowed (access_state_at u now) \<noteq> access_allowed (access_state_at (um_user r) now))
    \<and> (um_generation r \<noteq> None \<longleftrightarrow> um_access_changed r)"
proof -
  obtain u where cur: "get_user_by_id_in_transaction i db = Inr u"
    using assms(1) by (auto simp: set_user_enabled_inner_def and_then_Inr_iff)
  note u = get_tx_Inr [OF cur]
  let ?edit = "\<lambda>v. v\<lparr>us_enabled := enabled, us_updated := next_user_updated_at (us_updated u) now\<rparr>"
  let ?acc = "\<lambda>v. access_allowed (access_state_at v now)"
  from assms(1) cur obtain n db1 c g db2 db3 where
    upd: "update_users (\<lambda>v. us_id v = i) ?edit db = Inr (n, db1)"
    and bump: "bump_if c op now db1 = Inr (g, db2)" "c \<longleftrightarrow> ?acc u \<noteq> ?acc (?edit u)"
    and aud: "audit_user event (us_id u) now (upsert_user_lifecycle_checkpoint (?edit u)
        (access_state_at (?edit u) now) now g db2) = Inr ((), db3)"
    and res: "r = \<lparr>um_user = ?edit u, um_generation = g, um_access_changed = c\<rparr>" "db' = db3"
    by (simp add: set_user_enabled_inner_def and_then_Inr_iff Let_def split: if_splits) blast+
  note up = upd [unfolded update_users_Inr] and b = bump_if_core [OF bump(1)]
  have "map (\<lambda>v. if us_id v = i then ?edit v else v) (db_users db)
      = map (\<lambda>v. if us_id v = us_id u then ?edit u else v) (db_users db)"
    using map_edit_user_id [OF users_okD(1) [OF assms(2)], of u ?edit] u by simp
  then have "edited u (?edit u) now g db db'"
    using audit_user_core [OF aud] b up u res(2)
    by (simp add: user_core_def edited_def upsert_user_lifecycle_checkpoint_def)
  then show ?thesis using u b res bump(2) by (intro exI [of _ u]) auto
qed

lemma token_edited:
  assumes "reset_user_subscription_token_inner i event new_token now db = Inr (t, db')" and "users_ok db"
  shows "\<exists>u u'. edited u u' now None db db' \<and> us_id u = i \<and> t = new_token
    \<and> u' = u\<lparr>us_token := new_token, us_updated := us_updated u'\<rparr>"
proof -
  obtain u where cur: "get_user_by_id_in_transaction i db = Inr u"
    using assms(1) by (auto simp: reset_user_subscription_token_inner_def and_then_Inr_iff)
  note u = get_tx_Inr [OF cur]
  let ?edit = "\<lambda>v. v\<lparr>us_token := new_token, us_updated := next_user_updated_at (us_updated u) now\<rparr>"
  from assms(1) cur obtain n db1 db3 where
    upd: "update_users (\<lambda>v. us_id v = i) ?edit db = Inr (n, db1)"
    and aud: "audit_user event (us_id u) now (upsert_user_lifecycle_checkpoint (?edit u)
        (access_state_at (?edit u) now) now None db1) = Inr ((), db3)"
    and res: "t = new_token" "db' = db3"
    by (auto simp: reset_user_subscription_token_inner_def and_then_Inr_iff Let_def split: if_splits)
  note up = upd [unfolded update_users_Inr]
  have "map (\<lambda>v. if us_id v = i then ?edit v else v) (db_users db)
      = map (\<lambda>v. if us_id v = us_id u then ?edit u else v) (db_users db)"
    using map_edit_user_id [OF users_okD(1) [OF assms(2)], of u ?edit] u by simp
  then have "edited u (?edit u) now None db db'"
    using audit_user_core [OF aud] up u res(2)
    by (simp add: user_core_def edited_def upsert_user_lifecycle_checkpoint_def bumped_def)
  then show ?thesis using u res by (intro exI [of _ u] exI [of _ "?edit u"]) auto
qed

lemma delete_deleted:
  assumes "delete_user_inner i event op now db = Inr (r, db')"
  shows "deleted (um_user r) (um_generation r) db db' \<and> us_id (um_user r) = i
    \<and> um_access_changed r = access_allowed (access_state_at (um_user r) now)
    \<and> (um_generation r \<noteq> None \<longleftrightarrow> um_access_changed r)"
proof -
  obtain u where cur: "get_user_by_id_in_transaction i db = Inr u"
    using assms(1) by (auto simp: delete_user_inner_def and_then_Inr_iff)
  note u = get_tx_Inr [OF cur]
  from assms(1) cur obtain g db2 db3 where
    bump: "bump_if (access_allowed (access_state_at u now)) op now (snd (delete_users i db)) = Inr (g, db2)"
    and aud: "audit_user event (us_id u) now db2 = Inr ((), db3)"
    and res: "r = \<lparr>um_user = u, um_generation = g, um_access_changed = access_allowed (access_state_at u now)\<rparr>"
      "db' = db3"
    by (auto simp: delete_user_inner_def and_then_Inr_iff Let_def split: if_splits prod.splits)
  then show ?thesis using audit_user_core [OF aud] bump_if_core [OF bump] u
    by (auto simp: user_core_def deleted_def delete_users_def)
qed

subsection \<open>Lifecycle evaluation\<close>

definition transition :: "instant \<Rightarrow> db \<Rightarrow> user_record \<Rightarrow> bool" where
  "transition now db u = (case bt_get (db_lifecycle db) (us_id u) of
       None \<Rightarrow> \<not> access_allowed (access_state_at u now)
     | Some r \<Rightarrow> ul_allowed r \<noteq> access_allowed (access_state_at u now))"

lemma candidates_set:
  "set (lifecycle_candidates scope now db) = {u \<in> set (db_users db). lifecycle_candidate scope now db u}"
  by (cases scope) (auto simp: lifecycle_candidates_def Let_def)

lemma distinct_map_sort: "distinct (map f (sort_key g xs)) = distinct (map f xs)"
  by (simp add: distinct_map)

lemma candidates_distinct:
  "distinct (map us_id (db_users db)) \<Longrightarrow> distinct (map us_id (lifecycle_candidates scope now db))"
  by (cases scope) (simp_all add: lifecycle_candidates_def Let_def distinct_map_sort distinct_map_filter)

lemma evaluate_candidates:
  assumes "users_ok db"
  shows "collect_res (map (evaluate_one now db) (candidate_ids scope now db))
    = Inr (map (\<lambda>u. (u, access_state_at u now, transition now db u)) (lifecycle_candidates scope now db))"
proof -
  have "map (evaluate_one now db) (candidate_ids scope now db)
     = map Inr (map (\<lambda>u. (u, access_state_at u now, transition now db u)) (lifecycle_candidates scope now db))"
    using user_by_id_mem [OF assms] candidates_set [of scope now db]
    by (auto simp: candidate_ids_def evaluate_one_def get_user_by_id_in_transaction_def transition_def Let_def)
  then show ?thesis by (simp only: collect_res_map_Inr)
qed

text \<open>Writing the checkpoints touches only the rows of the list in the lifecycle table.\<close>

lemma checkpoint_tables:
  "db_users (checkpoint_evaluated now g e db) = db_users db"
  "db_user_seq (checkpoint_evaluated now g e db) = db_user_seq db"
  "db_reconcile (checkpoint_evaluated now g e db) = db_reconcile db"
  by (auto simp: checkpoint_evaluated_def upsert_user_lifecycle_checkpoint_def split: prod.splits)

lemma fold_checkpoints_tables:
  "db_users (fold (checkpoint_evaluated now g) evs db) = db_users db"
  "db_user_seq (fold (checkpoint_evaluated now g) evs db) = db_user_seq db"
  "db_reconcile (fold (checkpoint_evaluated now g) evs db) = db_reconcile db"
  by (induction evs arbitrary: db) (simp_all add: checkpoint_tables)

lemma raise_pending_tables:
  "db_users (raise_pending g db) = db_users db" "db_user_seq (raise_pending g db) = db_user_seq db"
  "db_reconcile (raise_pending g db) = db_reconcile db"
  by (simp_all add: raise_pending_def)

lemma fold_checkpoints_get:
  assumes "distinct (map us_id us)"
  shows "bt_get (db_lifecycle (fold (checkpoint_evaluated now g) (map (\<lambda>u. (u, st u, tr u)) us) db)) i
    = (case List.find (\<lambda>u. us_id u = i) us of None \<Rightarrow> bt_get (db_lifecycle db) i
       | Some u \<Rightarrow> Some (checkpoint_row (bt_get (db_lifecycle db) i) u (st u) now (if tr u then g else None)))"
  using assms
proof (induction us arbitrary: db)
  case (Cons u us)
  let ?db = "checkpoint_evaluated now g (u, st u, tr u) db"
  have one: "bt_get (db_lifecycle ?db) j = (if j = us_id u
      then Some (checkpoint_row (bt_get (db_lifecycle db) j) u (st u) now (if tr u then g else None))
      else bt_get (db_lifecycle db) j)" for j
    by (auto simp: checkpoint_evaluated_def upsert_user_lifecycle_checkpoint_def bt_get_insert)
  have ih: "bt_get (db_lifecycle (fold (checkpoint_evaluated now g) (map (\<lambda>u. (u, st u, tr u)) us) ?db)) i
    = (case List.find (\<lambda>u. us_id u = i) us of None \<Rightarrow> bt_get (db_lifecycle ?db) i
       | Some u \<Rightarrow> Some (checkpoint_row (bt_get (db_lifecycle ?db) i) u (st u) now (if tr u then g else None)))"
    using Cons.IH [of ?db] Cons.prems by simp
  show ?case
  proof (cases "us_id u = i")
    case True
    then have "i \<notin> us_id ` set us" using Cons.prems by simp
    then have "List.find (\<lambda>v. us_id v = i) us = None" unfolding find_None_all by blast
    then show ?thesis using ih one True by simp
  next
    case False
    then show ?thesis using ih one by (auto split: option.splits)
  qed
qed simp

lemma fold_checkpoints_wf:
  "bt_wf (db_lifecycle db) \<Longrightarrow> bt_wf (db_lifecycle (fold (checkpoint_evaluated now g) evs db))"
proof (induction evs arbitrary: db)
  case (Cons e evs)
  have "bt_wf (db_lifecycle (checkpoint_evaluated now g e db))"
    using Cons.prems
    by (auto simp: checkpoint_evaluated_def upsert_user_lifecycle_checkpoint_def bt_wf_insert split: prod.splits)
  then show ?case using Cons.IH by simp
qed simp

lemma bt_get_map_values: "bt_get (map (\<lambda>(k, v). (k, f v)) m) i = map_option f (bt_get m i)"
  by (induction m) auto

lemma bt_wf_map_values: "bt_wf (map (\<lambda>(k, v). (k, f v)) m) = bt_wf m"
  by (auto simp: bt_wf_def comp_def split_def)

lemma raise_pending_get: "bt_get (db_lifecycle (raise_pending g db)) i
    = map_option (\<lambda>r. if ul_pending r = None then r else r\<lparr>ul_pending := Some g\<rparr>) (bt_get (db_lifecycle db) i)"
  unfolding raise_pending_def by (simp add: bt_get_map_values)

lemma mark_get: "bt_get (db_lifecycle (mark_user_lifecycle_reconcile_published g db)) i
    = map_option (\<lambda>r. case ul_pending r of None \<Rightarrow> r | Some p \<Rightarrow> if p \<le> g then r\<lparr>ul_pending := None\<rparr> else r)
        (bt_get (db_lifecycle db) i)"
  unfolding mark_user_lifecycle_reconcile_published_def by (simp add: bt_get_map_values)

text \<open>What one evaluation does, row by row.\<close>

definition evaluated_row :: "instant \<Rightarrow> int option \<Rightarrow> db \<Rightarrow> int \<Rightarrow> lifecycle_row option" where
  "evaluated_row now g db i = (case g of None \<Rightarrow> bt_get (db_lifecycle db) i
     | Some n \<Rightarrow> map_option (\<lambda>r. if ul_pending r = None then r else r\<lparr>ul_pending := Some n\<rparr>)
         (bt_get (db_lifecycle db) i))"

lemma evaluate_effect:
  assumes "evaluate_user_lifecycle scope op now db = Inr (e, db')" and "users_ok db"
  shows "\<exists>g. db_users db' = db_users db \<and> db_user_seq db' = db_user_seq db
    \<and> bumped g (db_reconcile db) (db_reconcile db')
    \<and> (g \<noteq> None \<longleftrightarrow> (\<exists>u \<in> set (lifecycle_candidates scope now db). transition now db u))
    \<and> le_evaluated e = length (lifecycle_candidates scope now db)
    \<and> le_transitions e = length (filter (transition now db) (lifecycle_candidates scope now db))
    \<and> le_pending e = (case g of None \<Rightarrow> max_pending (db_lifecycle db) | Some n \<Rightarrow> Some n)
    \<and> bt_wf (db_lifecycle db')
    \<and> (\<forall>i. bt_get (db_lifecycle db') i =
        (case List.find (\<lambda>u. us_id u = i) (lifecycle_candidates scope now db) of
           None \<Rightarrow> evaluated_row now g db i
         | Some u \<Rightarrow> Some (checkpoint_row (evaluated_row now g db i) u (access_state_at u now) now
             (if transition now db u then g else None))))"
proof -
  let ?us = "lifecycle_candidates scope now db"
  let ?ev = "map (\<lambda>u. (u, access_state_at u now, transition now db u)) ?us"
  have tr: "length (filter (\<lambda>(_, _, t). t) ?ev) = length (filter (transition now db) ?us)"
    by (simp add: filter_map comp_def)
  have dist: "distinct (map us_id ?us)" by (rule candidates_distinct [OF users_okD(1) [OF assms(2)]])
  have some: "0 < length (filter (transition now db) ?us) \<longleftrightarrow> (\<exists>u \<in> set ?us. transition now db u)"
    by (simp add: filter_empty_conv)
  show ?thesis
  proof (cases "\<exists>u \<in> set ?us. transition now db u")
    case True
    with assms(1) some tr obtain g db1 where
      bump: "bump_desired_generation op now db = Inr (g, db1)"
      and res: "db' = fold (checkpoint_evaluated now (Some g)) ?ev (raise_pending g db1)"
        "e = \<lparr>le_evaluated = length ?us, le_transitions = length (filter (transition now db) ?us), le_pending = Some g\<rparr>"
      unfolding evaluate_user_lifecycle_def Let_def evaluate_candidates [OF assms(2)]
      by (auto simp: and_then_Inr_iff simp del: length_greater_0_conv)
    note b = bump_core [OF bump]
    have wf: "bt_wf (db_lifecycle (raise_pending g db1))"
      using users_okD(4) [OF assms(2)] b unfolding raise_pending_def by (simp add: bt_wf_map_values)
    have row: "bt_get (db_lifecycle (raise_pending g db1)) i = evaluated_row now (Some g) db i" for i
      using b by (simp add: raise_pending_get evaluated_row_def)
    show ?thesis
      unfolding res using True b fold_checkpoints_wf [OF wf]
      by (intro exI [of _ "Some g"])
        (simp add: fold_checkpoints_tables raise_pending_tables fold_checkpoints_get [OF dist] row
          split: option.split)
  next
    case False
    then have nil: "filter (transition now db) ?us = []" by (simp add: filter_empty_conv)
    have nil': "filter (\<lambda>(_, _, t). t) ?ev = []" using tr unfolding nil by (simp only: list.size length_0_conv)
    from assms(1) have
      res: "db' = fold (checkpoint_evaluated now None) ?ev db"
        "e = \<lparr>le_evaluated = length ?us, le_transitions = 0, le_pending = max_pending (db_lifecycle db)\<rparr>"
      unfolding evaluate_user_lifecycle_def Let_def evaluate_candidates [OF assms(2)] and_then_simps nil' list.size(3) less_irrefl if_False
      by auto
    show ?thesis
      unfolding res using False nil fold_checkpoints_wf [OF users_okD(4) [OF assms(2)]]
      by (intro exI [of _ None])
        (simp add: bumped_def fold_checkpoints_tables fold_checkpoints_get [OF dist]
          evaluated_row_def [of now None] split: option.split)
  qed
qed

lemma evaluate_succeeds:
  assumes "users_ok db"
  shows "\<exists>e db'. evaluate_user_lifecycle scope op now db = Inr (e, db')"
proof -
  obtain g db1 where "bump_desired_generation op now db = Inr (g, db1)"
    using bump_ok [OF users_okD(6) [OF assms]] by blast
  then show ?thesis
    unfolding evaluate_user_lifecycle_def Let_def evaluate_candidates [OF assms] by simp
qed

subsection \<open>Preservation\<close>

lemma bumped_le: "bumped g r r' \<Longrightarrow> rc_desired r \<le> rc_desired r' \<and> rc_desired r' \<le> rc_desired r + 1
    \<and> (\<forall>n. g = Some n \<longrightarrow> n = rc_desired r')"
  by (auto simp: bumped_def split: option.splits)

lemma pending_of_checkpoint:
  "ul_pending (checkpoint_row old u st now g) = Some p \<Longrightarrow>
     g = Some p \<or> (\<exists>r. old = Some r \<and> ul_pending r = Some p)"
  by (cases old) (auto simp: checkpoint_row_def split: option.splits)

lemma edited_inv:
  assumes "edited u u' now g db db'" and "users_inv db"
  shows "users_inv db'"
proof -
  have ok: "users_ok db" and tr: "checkpoints_true db" using assms(2) by (auto simp: users_inv_def)
  note e = assms(1) [unfolded edited_def] and k = users_okD [OF ok]
  have le: "rc_desired (db_reconcile db) \<le> rc_desired (db_reconcile db')"
    "\<And>n. g = Some n \<Longrightarrow> n = rc_desired (db_reconcile db')"
    using e bumped_le by blast+
  have ids: "map us_id (db_users db') = map us_id (db_users db)" using e by simp
  have get: "bt_get (db_lifecycle db') i = (if i = us_id u
      then Some (checkpoint_row (bt_get (db_lifecycle db) (us_id u)) u' (access_state_at u' now) now g)
      else bt_get (db_lifecycle db) i)" for i
    using e by (simp add: bt_get_insert)
  have mem: "i \<in> us_id ` set (db_users db')" if "bt_get (db_lifecycle db') i = Some r" for i r
    using that e k(5) ids unfolding get by (metis list.set_map image_eqI)
  have pend: "p \<le> rc_desired (db_reconcile db')"
    if "bt_get (db_lifecycle db') i = Some r" "ul_pending r = Some p" for i r p
  proof (cases "i = us_id u")
    case True
    then show ?thesis using that pending_of_checkpoint [of _ u' _ now g p] k(7) [of "us_id u"] le
      unfolding get by fastforce
  next
    case False
    then show ?thesis using that k(7) [of i r p] le unfolding get by simp
  qed
  have bound: "us_id v \<le> db_user_seq db'" if "v \<in> set (db_users db')" for v
    using that e k(3) by (auto split: if_splits)
  have "distinct (map us_id (db_users db'))" using k(1) unfolding ids .
  moreover have "bt_wf (db_lifecycle db')" using e bt_wf_insert [OF k(4)] by simp
  ultimately have "users_ok db'"
    unfolding users_ok_def using e k(6) mem pend le bound by auto
  moreover have "checkpoints_true db'"
    using tr e row_of_checkpoint [of u'] unfolding checkpoints_true_def get
    by (auto split: if_splits)
  ultimately show ?thesis by (simp add: users_inv_def)
qed

lemma created_inv:
  assumes "created u now g db db'" and "users_inv db"
  shows "users_inv db'"
proof -
  have ok: "users_ok db" and tr: "checkpoints_true db" using assms(2) by (auto simp: users_inv_def)
  note e = assms(1) [unfolded created_def] and k = users_okD [OF ok]
  have le: "rc_desired (db_reconcile db) \<le> rc_desired (db_reconcile db')"
    "\<And>n. g = Some n \<Longrightarrow> n = rc_desired (db_reconcile db')"
    using e bumped_le by blast+
  have fresh: "us_id u \<notin> us_id ` set (db_users db)" using e k(3) by force
  then have none: "bt_get (db_lifecycle db) (us_id u) = None"
    using k(5) by (metis not_None_eq)
  have get: "bt_get (db_lifecycle db') i = (if i = us_id u
      then Some (checkpoint_row None u (access_state_at u now) now g)
      else bt_get (db_lifecycle db) i)" for i
    using e none by (simp add: bt_get_insert)
  have "users_ok db'"
    unfolding users_ok_def get using e k le fresh bt_wf_insert [OF k(4)]
      pending_of_checkpoint [of None u _ now g]
    by (fastforce split: if_splits)
  moreover have "checkpoints_true db'"
    using tr e row_of_checkpoint [of u] fresh unfolding checkpoints_true_def get
    by (auto split: if_splits simp: image_iff)
  ultimately show ?thesis by (simp add: users_inv_def)
qed

lemma users_unique_filter: "users_unique us \<Longrightarrow> users_unique (filter P us)"
  by (simp add: users_unique_def distinct_map_filter)

lemma deleted_inv:
  assumes "deleted u g db db'" and "users_inv db"
  shows "users_inv db'"
proof -
  have ok: "users_ok db" and tr: "checkpoints_true db" using assms(2) by (auto simp: users_inv_def)
  note e = assms(1) [unfolded deleted_def] and k = users_okD [OF ok]
  have le: "rc_desired (db_reconcile db) \<le> rc_desired (db_reconcile db')" using e bumped_le by blast
  have get: "bt_get (db_lifecycle db') i = (if i = us_id u then None else bt_get (db_lifecycle db) i)" for i
    using e bt_get_remove [OF k(4)] by simp
  have mem: "i \<in> us_id ` set (db_users db')" if "bt_get (db_lifecycle db') i = Some r" for i r
    using that e k(5) [of i r] unfolding get by (auto split: if_splits)
  have pend: "p \<le> rc_desired (db_reconcile db')"
    if "bt_get (db_lifecycle db') i = Some r" "ul_pending r = Some p" for i r p
    using that k(7) [of i r p] le unfolding get by (auto split: if_splits)
  have "users_ok db'"
    unfolding users_ok_def using e k mem pend le bt_wf_remove [OF k(4)]
    by (auto simp: distinct_map_filter users_unique_filter)
  moreover have "checkpoints_true db'" using tr e unfolding checkpoints_true_def get by auto
  ultimately show ?thesis by (simp add: users_inv_def)
qed

lemma evaluated_row_Some:
  "evaluated_row now g db i = Some r \<Longrightarrow> \<exists>r0. bt_get (db_lifecycle db) i = Some r0
     \<and> r = r0\<lparr>ul_pending := ul_pending r\<rparr> \<and> (ul_pending r = ul_pending r0 \<or> ul_pending r = g)"
  by (auto simp: evaluated_row_def split: option.splits if_splits)

lemma row_of_pending [simp]: "row_of u (r\<lparr>ul_pending := p\<rparr>) = row_of u r"
  by (simp add: row_of_def)

lemma evaluate_inv:
  assumes "evaluate_user_lifecycle scope op now db = Inr (e, db')" and "users_inv db"
  shows "users_inv db'"
proof -
  have ok: "users_ok db" and tr: "checkpoints_true db" using assms(2) by (auto simp: users_inv_def)
  note k = users_okD [OF ok]
  let ?us = "lifecycle_candidates scope now db"
  obtain g where e: "db_users db' = db_users db" "db_user_seq db' = db_user_seq db"
    "bumped g (db_reconcile db) (db_reconcile db')" "bt_wf (db_lifecycle db')"
    and get: "\<And>i. bt_get (db_lifecycle db') i =
        (case List.find (\<lambda>u. us_id u = i) ?us of
           None \<Rightarrow> evaluated_row now g db i
         | Some u \<Rightarrow> Some (checkpoint_row (evaluated_row now g db i) u (access_state_at u now) now
             (if transition now db u then g else None)))"
    using evaluate_effect [OF assms(1) ok] by blast
  have le: "rc_desired (db_reconcile db) \<le> rc_desired (db_reconcile db')"
    "\<And>n. g = Some n \<Longrightarrow> n = rc_desired (db_reconcile db')"
    using e(3) bumped_le by blast+
  have old: "p \<le> rc_desired (db_reconcile db')"
    if "evaluated_row now g db i = Some r" "ul_pending r = Some p" for i r p
    using evaluated_row_Some [OF that(1)] that(2) k(7) le by fastforce
  have cand: "u \<in> set (db_users db) \<and> us_id u = i"
    if "List.find (\<lambda>u. us_id u = i) ?us = Some u" for i u
    using find_Some_mem [OF that] candidates_set [of scope now db] by blast
  have mem: "i \<in> us_id ` set (db_users db')" if "bt_get (db_lifecycle db') i = Some r" for i r
  proof (cases "List.find (\<lambda>u. us_id u = i) ?us")
    case None
    then have "evaluated_row now g db i = Some r" using that unfolding get by simp
    from evaluated_row_Some [OF this] show ?thesis using k(5) [of i] unfolding e(1) by blast
  next
    case (Some u)
    from cand [OF Some] show ?thesis unfolding e(1) by blast
  qed
  have pend: "p \<le> rc_desired (db_reconcile db')"
    if "bt_get (db_lifecycle db') i = Some r" "ul_pending r = Some p" for i r p
  proof (cases "List.find (\<lambda>u. us_id u = i) ?us")
    case None
    then show ?thesis using that old unfolding get by simp
  next
    case (Some u)
    then have "r = checkpoint_row (evaluated_row now g db i) u (access_state_at u now) now
             (if transition now db u then g else None)" using that(1) unfolding get by simp
    from pending_of_checkpoint [OF that(2) [unfolded this]] show ?thesis
      using old le by (auto split: if_splits)
  qed
  have "users_ok db'" unfolding users_ok_def using e k mem pend le by auto
  moreover have "row_of u r" if u: "u \<in> set (db_users db')"
    "bt_get (db_lifecycle db') (us_id u) = Some r" "ul_source_updated r = us_updated u" for u r
  proof (cases "List.find (\<lambda>v. us_id v = us_id u) ?us")
    case None
    then have "evaluated_row now g db (us_id u) = Some r" using u(2) unfolding get by simp
    from evaluated_row_Some [OF this] obtain r0 where
      r0: "bt_get (db_lifecycle db) (us_id u) = Some r0" "r = r0\<lparr>ul_pending := ul_pending r\<rparr>" by blast
    have "ul_source_updated r0 = us_updated u" using u(3) by (subst (asm) r0(2)) simp
    then have "row_of u r0" using tr u(1) e(1) r0(1) unfolding checkpoints_true_def by auto
    then show ?thesis by (subst r0(2)) simp
  next
    case (Some v)
    have "v = u" using cand [OF Some] same_user [OF k(1)] u(1) unfolding e(1) by blast
    then show ?thesis using u(2) Some row_of_checkpoint unfolding get by auto
  qed
  ultimately show ?thesis unfolding users_inv_def checkpoints_true_def by blast
qed

end
