(* ===== verification/Store_Users_Steps.thy ===== *)
theory Store_Users_Steps
  imports Store_Users_Inv
begin

text \<open>
  The user operations as one step relation: every transaction of the panel, the command line and the
  lifecycle checker, interleaved with steps of the rest of the panel, which may raise the generation
  but leave the users alone. The invariant holds in every reachable database; a change of who is
  authorised always raises the desired generation; the lifecycle evaluation converges.
\<close>

datatype user_op =
    CreateUser new_user "audit_event option" uuid string uuid
  | UpdateUser update_user audit_event uuid
  | RotateIdentity int instant audit_event uuid uuid
  | SetEnabled int bool "audit_event option" uuid
  | ResetToken int "audit_event option" string
  | DeleteUser int "audit_event option" uuid
  | EvaluateLifecycle lifecycle_scope uuid
  | LifecyclePublished int

definition no_result :: "('a \<times> db) res \<Rightarrow> db res" where
  "no_result r = and_then r (\<lambda>(_, db). Ok db)"

definition run_user_op :: "user_op \<Rightarrow> instant \<Rightarrow> db \<Rightarrow> db res" where
  "run_user_op op now db = (case op of
       CreateUser input event uuid token opid \<Rightarrow> no_result (create_user_inner input event uuid token opid now db)
     | UpdateUser input event opid \<Rightarrow> no_result (update_user_audited input event opid now db)
     | RotateIdentity i expected event uuid opid \<Rightarrow>
         no_result (rotate_user_runtime_identity_audited i expected event uuid opid now db)
     | SetEnabled i b event opid \<Rightarrow> no_result (set_user_enabled_inner i b event opid now db)
     | ResetToken i event token \<Rightarrow> no_result (reset_user_subscription_token_inner i event token now db)
     | DeleteUser i event opid \<Rightarrow> no_result (delete_user_inner i event opid now db)
     | EvaluateLifecycle scope opid \<Rightarrow> no_result (evaluate_user_lifecycle scope opid now db)
     | LifecyclePublished g \<Rightarrow> Ok (mark_user_lifecycle_reconcile_published g db))"

inductive users_reachable :: "db \<Rightarrow> bool" where
  schema: "users_reachable (empty_db now)"
| user_op: "users_reachable db \<Longrightarrow> run_user_op op now db = Inr db' \<Longrightarrow> users_reachable db'"
| elsewhere: "users_reachable db \<Longrightarrow> db_users db' = db_users db \<Longrightarrow> db_user_seq db' = db_user_seq db \<Longrightarrow>
    db_lifecycle db' = db_lifecycle db \<Longrightarrow>
    rc_desired (db_reconcile db) \<le> rc_desired (db_reconcile db') \<Longrightarrow> users_reachable db'"

lemma no_result_Inr: "no_result r = Inr db' \<longleftrightarrow> (\<exists>x. r = Inr (x, db'))"
  by (auto simp: no_result_def and_then_Inr_iff)

lemma mark_tables:
  "db_users (mark_user_lifecycle_reconcile_published g db) = db_users db"
  "db_user_seq (mark_user_lifecycle_reconcile_published g db) = db_user_seq db"
  "db_reconcile (mark_user_lifecycle_reconcile_published g db) = db_reconcile db"
  by (simp_all add: mark_user_lifecycle_reconcile_published_def)

lemma mark_row:
  assumes "bt_get (db_lifecycle (mark_user_lifecycle_reconcile_published g db)) i = Some r"
  shows "\<exists>r0. bt_get (db_lifecycle db) i = Some r0 \<and> r = r0\<lparr>ul_pending := ul_pending r\<rparr>
    \<and> (ul_pending r = None \<or> ul_pending r = ul_pending r0)
    \<and> (\<forall>p. ul_pending r = Some p \<longrightarrow> g < p)"
proof -
  obtain r0 where r0: "bt_get (db_lifecycle db) i = Some r0"
    "r = (case ul_pending r0 of None \<Rightarrow> r0 | Some p \<Rightarrow> if p \<le> g then r0\<lparr>ul_pending := None\<rparr> else r0)"
    using assms unfolding mark_get by auto
  then show ?thesis by (cases "ul_pending r0") auto
qed

lemma mark_wf: "bt_wf (db_lifecycle db) \<Longrightarrow> bt_wf (db_lifecycle (mark_user_lifecycle_reconcile_published g db))"
  unfolding mark_user_lifecycle_reconcile_published_def by (simp add: bt_wf_map_values)

lemma mark_inv:
  assumes "users_inv db"
  shows "users_inv (mark_user_lifecycle_reconcile_published g db)"
proof -
  let ?db = "mark_user_lifecycle_reconcile_published g db"
  have ok: "users_ok db" and tr: "checkpoints_true db" using assms by (auto simp: users_inv_def)
  note k = users_okD [OF ok]
  have mem: "i \<in> us_id ` set (db_users db) \<and> (\<forall>p. ul_pending r = Some p \<longrightarrow> p \<le> rc_desired (db_reconcile db))"
    if "bt_get (db_lifecycle ?db) i = Some r" for i r
    using mark_row [OF that] k(5,7) [of i] by auto
  have "users_ok ?db" unfolding users_ok_def mark_tables using k mem mark_wf by auto
  moreover have "row_of u r" if u: "u \<in> set (db_users db)"
    "bt_get (db_lifecycle ?db) (us_id u) = Some r" "ul_source_updated r = us_updated u" for u r
  proof -
    obtain r0 where r0: "bt_get (db_lifecycle db) (us_id u) = Some r0" "r = r0\<lparr>ul_pending := ul_pending r\<rparr>"
      using mark_row [OF u(2)] by blast
    have "ul_source_updated r0 = us_updated u" using u(3) by (subst (asm) r0(2)) simp
    then have "row_of u r0" using tr u(1) r0(1) unfolding checkpoints_true_def by blast
    then show ?thesis by (subst r0(2)) simp
  qed
  ultimately show ?thesis unfolding users_inv_def checkpoints_true_def mark_tables by blast
qed

lemma run_user_op_inv:
  assumes "run_user_op op now db = Inr db'" and "users_inv db"
  shows "users_inv db'"
proof -
  have ok: "users_ok db" using assms(2) by (simp add: users_inv_def)
  show ?thesis
  proof (cases op)
    case (CreateUser x1 x2 x3 x4 x5)
    then obtain u where "create_user_inner x1 x2 x3 x4 x5 now db = Inr (u, db')"
      using assms(1) by (auto simp: run_user_op_def no_result_Inr)
    from create_user_created [OF this ok] created_inv assms(2) show ?thesis by blast
  next
    case (UpdateUser x1 x2 x3)
    then obtain r where "update_user_audited x1 x2 x3 now db = Inr (r, db')"
      using assms(1) by (auto simp: run_user_op_def no_result_Inr)
    from update_user_edited [OF this ok] edited_inv assms(2) show ?thesis by blast
  next
    case (RotateIdentity x1 x2 x3 x4 x5)
    then obtain r where "rotate_user_runtime_identity_audited x1 x2 x3 x4 x5 now db = Inr (r, db')"
      using assms(1) by (auto simp: run_user_op_def no_result_Inr)
    from rotate_edited [OF this ok] edited_inv assms(2) show ?thesis by blast
  next
    case (SetEnabled x1 x2 x3 x4)
    then obtain r where "set_user_enabled_inner x1 x2 x3 x4 now db = Inr (r, db')"
      using assms(1) by (auto simp: run_user_op_def no_result_Inr)
    from enabled_edited [OF this ok] edited_inv assms(2) show ?thesis by blast
  next
    case (ResetToken x1 x2 x3)
    then obtain r where "reset_user_subscription_token_inner x1 x2 x3 now db = Inr (r, db')"
      using assms(1) by (auto simp: run_user_op_def no_result_Inr)
    from token_edited [OF this ok] edited_inv assms(2) show ?thesis by blast
  next
    case (DeleteUser x1 x2 x3)
    then obtain r where "delete_user_inner x1 x2 x3 now db = Inr (r, db')"
      using assms(1) by (auto simp: run_user_op_def no_result_Inr)
    from delete_deleted [OF this] deleted_inv assms(2) show ?thesis by blast
  next
    case (EvaluateLifecycle x1 x2)
    then obtain r where "evaluate_user_lifecycle x1 x2 now db = Inr (r, db')"
      using assms(1) by (auto simp: run_user_op_def no_result_Inr)
    from evaluate_inv [OF this assms(2)] show ?thesis .
  next
    case (LifecyclePublished g)
    then show ?thesis using assms mark_inv by (auto simp: run_user_op_def)
  qed
qed

lemma users_reachable_inv: "users_reachable db \<Longrightarrow> users_inv db"
proof (induction rule: users_reachable.induct)
  case (schema now)
  then show ?case by (simp add: users_inv_def users_ok_def checkpoints_true_def users_unique_def empty_db_def)
next
  case (user_op db op now db')
  then show ?case using run_user_op_inv by blast
next
  case (elsewhere db db')
  then show ?case
    unfolding users_inv_def users_ok_def checkpoints_true_def by (auto 4 4)
qed

subsection \<open>The generation follows the authorised users\<close>

text \<open>What a reconciliation at \<open>now\<close> hands to the runtimes: name and identity of every allowed user.\<close>

definition authorised :: "instant \<Rightarrow> db \<Rightarrow> (string \<times> uuid) list" where
  "authorised now db = map (\<lambda>u. (us_username u, us_uuid u))
     (filter (\<lambda>u. access_allowed (access_state_at u now)) (db_users db))"

lemma authorised_map_same:
  assumes "\<And>v. v \<in> set us \<Longrightarrow> access_allowed (access_state_at (f v) now) = access_allowed (access_state_at v now)
      \<and> (access_allowed (access_state_at v now) \<longrightarrow> us_username (f v) = us_username v \<and> us_uuid (f v) = us_uuid v)"
  shows "map (\<lambda>u. (us_username u, us_uuid u)) (filter (\<lambda>u. access_allowed (access_state_at u now)) (map f us))
       = map (\<lambda>u. (us_username u, us_uuid u)) (filter (\<lambda>u. access_allowed (access_state_at u now)) us)"
  using assms by (induction us) auto

lemma edited_authorised:
  assumes "edited u u' now g db db'" and "users_ok db"
    and "g = None \<Longrightarrow> access_allowed (access_state_at u' now) = access_allowed (access_state_at u now)
      \<and> (access_allowed (access_state_at u now) \<longrightarrow> us_username u' = us_username u \<and> us_uuid u' = us_uuid u)"
    and "authorised now db' \<noteq> authorised now db"
  shows "g \<noteq> None"
proof
  assume "g = None"
  note same = assms(3) [OF this]
  have u: "u \<in> set (db_users db)" and us: "db_users db' = map (\<lambda>v. if us_id v = us_id u then u' else v) (db_users db)"
    using assms(1) by (auto simp: edited_def)
  have "authorised now db' = authorised now db"
    unfolding authorised_def us
  proof (rule authorised_map_same)
    fix v assume "v \<in> set (db_users db)"
    then show "access_allowed (access_state_at (if us_id v = us_id u then u' else v) now)
        = access_allowed (access_state_at v now)
      \<and> (access_allowed (access_state_at v now) \<longrightarrow>
          us_username (if us_id v = us_id u then u' else v) = us_username v
          \<and> us_uuid (if us_id v = us_id u then u' else v) = us_uuid v)"
      using same same_user [OF users_okD(1) [OF assms(2)] u, of v] by (cases "us_id v = us_id u") auto
  qed
  then show False using assms(4) by simp
qed

lemma access_state_token:
  "access_state_at (u\<lparr>us_token := t, us_updated := w\<rparr>) now = access_state_at u now"
  by (simp add: access_state_at_def)

text \<open>The generation of an operation: what it reports, or what the evaluation bumped.\<close>

lemma generation_moves:
  assumes "run_user_op op now db = Inr db'" and "users_ok db" and "authorised now db' \<noteq> authorised now db"
  shows "\<exists>g. bumped (Some g) (db_reconcile db) (db_reconcile db')"
proof (cases op)
  case (CreateUser x1 x2 x3 x4 x5)
  then obtain u where "create_user_inner x1 x2 x3 x4 x5 now db = Inr (u, db')"
    using assms(1) by (auto simp: run_user_op_def no_result_Inr)
  from create_user_created [OF this assms(2)] show ?thesis by (auto simp: created_def)
next
  case (UpdateUser x1 x2 x3)
  then obtain r where "update_user_audited x1 x2 x3 now db = Inr (r, db')"
    using assms(1) by (auto simp: run_user_op_def no_result_Inr)
  from update_user_edited [OF this assms(2)] obtain u where
    u: "edited u (um_user r) now (um_generation r) db db'"
      "um_access_changed r = (access_allowed (access_state_at u now) \<noteq> access_allowed (access_state_at (um_user r) now))"
      "um_generation r \<noteq> None \<longleftrightarrow> um_access_changed r \<or> us_username u \<noteq> us_username (um_user r)
          \<and> access_allowed (access_state_at u now)"
      "us_uuid (um_user r) = us_uuid u" by blast
  have "um_generation r \<noteq> None"
    using u(2,3,4) by (intro edited_authorised [OF u(1) assms(2) _ assms(3)]) auto
  then show ?thesis using u(1) by (auto simp: edited_def)
next
  case (RotateIdentity x1 x2 x3 x4 x5)
  then obtain r where "rotate_user_runtime_identity_audited x1 x2 x3 x4 x5 now db = Inr (r, db')"
    using assms(1) by (auto simp: run_user_op_def no_result_Inr)
  from rotate_edited [OF this assms(2)] show ?thesis by (auto simp: edited_def)
next
  case (SetEnabled x1 x2 x3 x4)
  then obtain r where "set_user_enabled_inner x1 x2 x3 x4 now db = Inr (r, db')"
    using assms(1) by (auto simp: run_user_op_def no_result_Inr)
  from enabled_edited [OF this assms(2)] obtain u where
    u: "edited u (um_user r) now (um_generation r) db db'"
      "um_user r = u\<lparr>us_enabled := x2, us_updated := us_updated (um_user r)\<rparr>"
      "um_access_changed r = (access_allowed (access_state_at u now) \<noteq> access_allowed (access_state_at (um_user r) now))"
      "um_generation r \<noteq> None \<longleftrightarrow> um_access_changed r" by blast
  have same: "us_username (um_user r) = us_username u" "us_uuid (um_user r) = us_uuid u"
    by (subst u(2), simp)+
  have "um_generation r \<noteq> None"
    using u(3,4) same by (intro edited_authorised [OF u(1) assms(2) _ assms(3)]) auto
  then show ?thesis using u(1) by (auto simp: edited_def)
next
  case (ResetToken x1 x2 x3)
  then obtain t where "reset_user_subscription_token_inner x1 x2 x3 now db = Inr (t, db')"
    using assms(1) by (auto simp: run_user_op_def no_result_Inr)
  from token_edited [OF this assms(2)] obtain u u' where
    u: "edited u u' now None db db'" "u' = u\<lparr>us_token := x3, us_updated := us_updated u'\<rparr>" by blast
  have same: "us_username u' = us_username u" "us_uuid u' = us_uuid u"
    "access_state_at u' now = access_state_at u now"
    by (subst u(2), simp add: access_state_token)+
  have "(None :: int option) \<noteq> None"
    using same by (intro edited_authorised [OF u(1) assms(2) _ assms(3)]) auto
  then show ?thesis by simp
next
  case (DeleteUser x1 x2 x3)
  then obtain r where "delete_user_inner x1 x2 x3 now db = Inr (r, db')"
    using assms(1) by (auto simp: run_user_op_def no_result_Inr)
  from delete_deleted [OF this] have
    d: "deleted (um_user r) (um_generation r) db db'"
      "um_access_changed r = access_allowed (access_state_at (um_user r) now)"
      "um_generation r \<noteq> None \<longleftrightarrow> um_access_changed r" by blast+
  have "access_allowed (access_state_at (um_user r) now)"
  proof (rule ccontr)
    assume blocked: "\<not> access_allowed (access_state_at (um_user r) now)"
    have "um_user r \<in> set (db_users db)" using d(1) by (simp add: deleted_def)
    note same = same_user [OF users_okD(1) [OF assms(2)] this]
    have "us_id v \<noteq> us_id (um_user r)"
      if "v \<in> set (db_users db)" "access_allowed (access_state_at v now)" for v
      using same [OF that(1)] that(2) blocked by metis
    then have "filter (\<lambda>u. access_allowed (access_state_at u now)) (filter (\<lambda>v. us_id v \<noteq> us_id (um_user r)) (db_users db))
        = filter (\<lambda>u. access_allowed (access_state_at u now)) (db_users db)"
      unfolding filter_filter by (intro filter_cong) auto
    then show False using assms(3) d(1) by (simp add: authorised_def deleted_def)
  qed
  then show ?thesis using d by (auto simp: deleted_def)
next
  case (EvaluateLifecycle x1 x2)
  then obtain e where "evaluate_user_lifecycle x1 x2 now db = Inr (e, db')"
    using assms(1) by (auto simp: run_user_op_def no_result_Inr)
  from evaluate_effect [OF this assms(2)] show ?thesis using assms(3) by (auto simp: authorised_def)
next
  case (LifecyclePublished g)
  then show ?thesis using assms by (auto simp: run_user_op_def authorised_def mark_tables)
qed

subsection \<open>Convergence of the lifecycle evaluation\<close>

lemma fold_max: "fold (\<lambda>x acc. max (f x) acc) xs (a :: 'a :: linorder) = Max (insert a (f ` set xs))"
proof (induction xs arbitrary: a)
  case (Cons x xs)
  have "Max (insert (max (f x) a) (f ` set xs)) = Max (insert a (insert (f x) (f ` set xs)))"
    by (cases "f ` set xs = {}") (auto simp: max.assoc max.commute max.left_commute)
  then show ?case using Cons.IH by (simp add: insert_commute)
qed simp

lemma max_pending_Max: "max_pending m = Max (insert None (ul_pending ` snd ` set m))"
  using fold_max [of "\<lambda>e. ul_pending (snd e)" m None] unfolding max_pending_def
  by (simp add: split_def image_image)

lemma max_pending_eqI:
  assumes "bt_wf m" and "\<And>i r. bt_get m i = Some r \<Longrightarrow> ul_pending r \<le> p"
    and "p \<noteq> None \<Longrightarrow> \<exists>i r. bt_get m i = Some r \<and> ul_pending r = p"
  shows "max_pending m = p"
proof -
  have "\<forall>x \<in> insert None (ul_pending ` snd ` set m). x \<le> p"
    using assms(2) bt_get_mem [OF assms(1)] by auto
  moreover have "p \<in> insert None (ul_pending ` snd ` set m)"
    using assms(3) bt_get_mem [OF assms(1)] by (cases p) (force simp: image_iff)+
  ultimately show ?thesis unfolding max_pending_Max by (intro Max_eqI) auto
qed

lemma max_pending_ge: "bt_get m i = Some r \<Longrightarrow> ul_pending r \<le> max_pending m"
  unfolding max_pending_Max using bt_get_in by (intro Max_ge) force+

lemma max_pending_attained:
  assumes "bt_wf m" and "max_pending m = Some p"
  shows "\<exists>i r. bt_get m i = Some r \<and> ul_pending r = Some p"
proof -
  have "max_pending m \<in> insert None (ul_pending ` snd ` set m)"
    unfolding max_pending_Max by (rule Max_in) auto
  then show ?thesis using assms(2) bt_get_mem [OF assms(1)] by force
qed

lemma max_pending_None: "max_pending m = None \<Longrightarrow> bt_get m i = Some r \<Longrightarrow> ul_pending r = None"
  using max_pending_ge [of m i r] by (cases "ul_pending r") auto

text \<open>After a repair every user has a checkpoint that is right at this instant.\<close>

definition settled :: "instant \<Rightarrow> db \<Rightarrow> bool" where
  "settled now db \<longleftrightarrow> (\<forall>u \<in> set (db_users db). \<exists>r. bt_get (db_lifecycle db) (us_id u) = Some r
     \<and> ul_source_updated r = us_updated u \<and> ul_allowed r = access_allowed (access_state_at u now)
     \<and> ul_expired r = ua_expired (access_state_at u now))"

lemma deadline_due_iff:
  "\<not> deadline_due now u r \<longleftrightarrow> us_expires u = None \<or> ul_expired r = ua_expired (access_state_at u now)"
  by (auto simp: deadline_due_def access_state_at_def access_evaluate_def split: option.splits)

lemma row_of_current:
  assumes "row_of u r" and "\<not> deadline_due now u r"
  shows "ul_allowed r = access_allowed (access_state_at u now) \<and> ul_expired r = ua_expired (access_state_at u now)"
proof -
  have "ua_expired (access_state_at u (ul_observed r)) = ua_expired (access_state_at u now)"
    using assms deadline_due_iff [of now u r]
    by (cases "us_expires u") (auto simp: row_of_def Let_def access_state_at_def access_evaluate_def)
  then have "access_state_at u (ul_observed r) = access_state_at u now"
    by (simp add: access_state_at_def access_evaluate_def)
  then show ?thesis using assms(1) by (simp add: row_of_def Let_def)
qed

lemma repair_settles:
  assumes "evaluate_user_lifecycle Repair op now db = Inr (e, db')" and "users_inv db"
  shows "settled now db'"
  unfolding settled_def
proof
  fix u assume u: "u \<in> set (db_users db')"
  have ok: "users_ok db" and tr: "checkpoints_true db" using assms(2) by (auto simp: users_inv_def)
  let ?us = "lifecycle_candidates Repair now db"
  obtain g where same: "db_users db' = db_users db"
    and get: "\<And>i. bt_get (db_lifecycle db') i =
        (case List.find (\<lambda>u. us_id u = i) ?us of
           None \<Rightarrow> evaluated_row now g db i
         | Some u \<Rightarrow> Some (checkpoint_row (evaluated_row now g db i) u (access_state_at u now) now
             (if transition now db u then g else None)))"
    using evaluate_effect [OF assms(1) ok] by blast
  show "\<exists>r. bt_get (db_lifecycle db') (us_id u) = Some r
     \<and> ul_source_updated r = us_updated u \<and> ul_allowed r = access_allowed (access_state_at u now)
     \<and> ul_expired r = ua_expired (access_state_at u now)"
  proof (cases "List.find (\<lambda>v. us_id v = us_id u) ?us")
    case (Some v)
    then have "v \<in> set ?us" "us_id v = us_id u" using find_Some_mem by fast+
    then have "v = u" using same_user [OF users_okD(1) [OF ok]] u candidates_set [of Repair now db]
      unfolding same by blast
    then show ?thesis using Some unfolding get by (auto simp: checkpoint_row_def)
  next
    case None
    then have "u \<notin> set ?us" unfolding find_None_all by blast
    then have "\<not> lifecycle_candidate Repair now db u" using u candidates_set [of Repair now db] same by simp
    then obtain r where r: "bt_get (db_lifecycle db) (us_id u) = Some r"
      "ul_source_updated r = us_updated u" "\<not> deadline_due now u r"
      by (auto simp: lifecycle_candidate_def split: option.splits)
    then have "row_of u r" using tr u same unfolding checkpoints_true_def by auto
    from row_of_current [OF this r(3)] have a: "ul_allowed r = access_allowed (access_state_at u now)"
      "ul_expired r = ua_expired (access_state_at u now)" by blast+
    have "\<exists>p. evaluated_row now g db (us_id u) = Some (r\<lparr>ul_pending := p\<rparr>)"
      using r(1) by (cases g) (auto simp: evaluated_row_def intro: exI [of _ "ul_pending r"])
    then show ?thesis using None a r(2) unfolding get by auto
  qed
qed

lemma settled_no_candidates:
  assumes "settled now db"
  shows "lifecycle_candidates scope now db = []"
proof -
  have "\<not> lifecycle_candidate scope now db u" if "u \<in> set (db_users db)" for u
    using assms that deadline_due_iff [of now u] unfolding settled_def lifecycle_candidate_def
    by (auto split: option.splits)
  then have "set (lifecycle_candidates scope now db) = {}" unfolding candidates_set by blast
  then show ?thesis by simp
qed

lemma evaluate_settled:
  assumes "settled now db"
  shows "evaluate_user_lifecycle scope op now db
    = Inr (\<lparr>le_evaluated = 0, le_transitions = 0, le_pending = max_pending (db_lifecycle db)\<rparr>, db)"
  using settled_no_candidates [OF assms, of scope]
  by (simp add: evaluate_user_lifecycle_def candidate_ids_def Let_def)

text \<open>The pending generation an evaluation reports is the largest one in the outbox it leaves.\<close>

lemma evaluate_pending:
  assumes "evaluate_user_lifecycle scope op now db = Inr (e, db')" and "users_ok db"
  shows "le_pending e = max_pending (db_lifecycle db')"
proof -
  let ?us = "lifecycle_candidates scope now db"
  obtain g where bg: "bumped g (db_reconcile db) (db_reconcile db')"
    and some: "g \<noteq> None \<longleftrightarrow> (\<exists>u \<in> set ?us. transition now db u)"
    and pend: "le_pending e = (case g of None \<Rightarrow> max_pending (db_lifecycle db) | Some n \<Rightarrow> Some n)"
    and wf: "bt_wf (db_lifecycle db')"
    and get: "\<And>i. bt_get (db_lifecycle db') i =
        (case List.find (\<lambda>u. us_id u = i) ?us of
           None \<Rightarrow> evaluated_row now g db i
         | Some u \<Rightarrow> Some (checkpoint_row (evaluated_row now g db i) u (access_state_at u now) now
             (if transition now db u then g else None)))"
    using evaluate_effect [OF assms] by blast
  have row: "ul_pending r \<in> insert None (insert g (ul_pending ` {r0. bt_get (db_lifecycle db) i = Some r0}))"
    "g \<noteq> None \<Longrightarrow> ul_pending r = None \<or> ul_pending r = g"
    if "evaluated_row now g db i = Some r" for i r
    using that by (cases g; cases "bt_get (db_lifecycle db) i"; force simp: evaluated_row_def split: if_splits)+
  have new: "ul_pending r = g \<or> (\<exists>r0. evaluated_row now g db i = Some r0 \<and> ul_pending r = ul_pending r0) \<or> ul_pending r = None"
    if "bt_get (db_lifecycle db') i = Some r" for i r
  proof (cases "List.find (\<lambda>u. us_id u = i) ?us")
    case None
    then show ?thesis using that unfolding get by auto
  next
    case (Some u)
    then show ?thesis using that unfolding get
      by (cases "evaluated_row now g db i") (auto simp: checkpoint_row_def split: option.splits if_splits)
  qed
  show ?thesis
  proof (cases g)
    case (Some n)
    then obtain u where u: "u \<in> set ?us" "transition now db u" using some by auto
    then obtain v where v: "List.find (\<lambda>w. us_id w = us_id u) ?us = Some v"
      using find_Some_if [of ?us "\<lambda>w. us_id w = us_id u"] by blast
    have "v = u" using find_Some_mem [OF v] u(1) candidates_set [of scope now db]
        same_user [OF users_okD(1) [OF assms(2)]] by blast
    then have "\<exists>r. bt_get (db_lifecycle db') (us_id u) = Some r \<and> ul_pending r = g"
      using v u(2) Some unfolding get by (simp add: checkpoint_row_def)
    moreover have "ul_pending r \<le> g" if "bt_get (db_lifecycle db') i = Some r" for i r
      using new [OF that] row(2) Some by force
    ultimately have "max_pending (db_lifecycle db') = g" by (intro max_pending_eqI [OF wf]) blast+
    then show ?thesis using pend Some by simp
  next
    case None
    have "max_pending (db_lifecycle db') = max_pending (db_lifecycle db)"
    proof (rule max_pending_eqI [OF wf])
      fix i r assume r: "bt_get (db_lifecycle db') i = Some r"
      have "ul_pending r = None \<or> (\<exists>r0. bt_get (db_lifecycle db) i = Some r0 \<and> ul_pending r = ul_pending r0)"
        using new [OF r] None by (auto simp: evaluated_row_def)
      then show "ul_pending r \<le> max_pending (db_lifecycle db)"
        using max_pending_ge by (metis less_eq_option_None)
    next
      assume "max_pending (db_lifecycle db) \<noteq> None"
      then obtain p where p: "max_pending (db_lifecycle db) = Some p" by blast
      obtain i r where r: "bt_get (db_lifecycle db) i = Some r" "ul_pending r = Some p"
        using max_pending_attained [OF users_okD(4) [OF assms(2)] p] by blast
      have "\<exists>r'. bt_get (db_lifecycle db') i = Some r' \<and> ul_pending r' = Some p"
        using r None unfolding get
        by (auto simp: evaluated_row_def checkpoint_row_def split: option.splits)
      then show "\<exists>i r. bt_get (db_lifecycle db') i = Some r \<and> ul_pending r = max_pending (db_lifecycle db)"
        using p by auto
    qed
    then show ?thesis using pend None by simp
  qed
qed

text \<open>An evaluation never drops a pending request.\<close>

lemma evaluate_pending_mono:
  assumes "evaluate_user_lifecycle scope op now db = Inr (e, db')" and "users_ok db"
  shows "max_pending (db_lifecycle db) \<le> max_pending (db_lifecycle db')"
proof -
  obtain g where bg: "bumped g (db_reconcile db) (db_reconcile db')"
    and pend: "le_pending e = (case g of None \<Rightarrow> max_pending (db_lifecycle db) | Some n \<Rightarrow> Some n)"
    using evaluate_effect [OF assms] by blast
  show ?thesis
  proof (cases g)
    case None
    then show ?thesis using pend evaluate_pending [OF assms] by simp
  next
    case (Some n)
    have "max_pending (db_lifecycle db) \<le> Some n"
    proof (cases "max_pending (db_lifecycle db)")
      case (Some p)
      obtain i r where "bt_get (db_lifecycle db) i = Some r" "ul_pending r = Some p"
        using max_pending_attained [OF users_okD(4) [OF assms(2)] Some] by blast
      then have "p \<le> rc_desired (db_reconcile db)" by (rule users_okD(7) [OF assms(2)])
      then show ?thesis using Some bg \<open>g = Some n\<close> by (simp add: bumped_def)
    qed simp
    then show ?thesis using pend evaluate_pending [OF assms] Some by simp
  qed
qed

text \<open>A published generation empties the outbox up to itself.\<close>

lemma mark_max_pending:
  assumes "users_ok db" and "max_pending (db_lifecycle db) \<le> Some g"
  shows "max_pending (db_lifecycle (mark_user_lifecycle_reconcile_published g db)) = None"
proof (rule max_pending_eqI)
  show "bt_wf (db_lifecycle (mark_user_lifecycle_reconcile_published g db))"
    by (rule mark_wf [OF users_okD(4) [OF assms(1)]])
next
  fix i r assume r: "bt_get (db_lifecycle (mark_user_lifecycle_reconcile_published g db)) i = Some r"
  show "ul_pending r \<le> None"
  proof (cases "ul_pending r")
    case (Some p)
    obtain r0 where r0: "bt_get (db_lifecycle db) i = Some r0" "ul_pending r0 = Some p" "g < p"
      using mark_row [OF r] Some by auto
    then have "Some p \<le> max_pending (db_lifecycle db)" using max_pending_ge by metis
    then have "Some p \<le> Some g" using assms(2) by (rule order_trans)
    then show ?thesis using r0(3) by simp
  qed simp
qed simp

end
