(* ===== verification/Lifecycle_Outbox.thy ===== *)
theory Lifecycle_Outbox
  imports Store_Users_Steps
begin

text \<open>
  How a user transition reaches the root worker: \<open>user\_lifecycle.rs\<close> evaluates the checkpoints,
  \<open>reconcile\_request.rs\<close> publishes the pending generation with \<open>atomic\_file.rs\<close>, and
  \<open>infiproxy-reconcile.rs\<close> claims and reads the request. The request directory is a map from names
  to files; the outcome of every system call is an argument, so a failure can happen at each of them.
  \<open>serde\_json\<close> is a pair of parameters.
\<close>

unbundle bit_operations_syntax

record file_node =
  fn_regular :: bool
  fn_uid :: nat
  fn_mode :: u32
  fn_content :: string

record request_dir =
  dr_is_dir :: bool
  dr_uid :: nat
  dr_mode :: u32
  dr_files :: "(string, file_node) btmap"

datatype io_step = StatDir | OpenTmp | WriteAll | SyncFile | SetMode | Rename | SyncDir

type_synonym io = "io_step \<Rightarrow> unit res"

text \<open>The process: its user, its umask and the random suffix it draws.\<close>

record process =
  pr_uid :: nat
  pr_umask :: u32
  pr_suffix :: string

subsection \<open>\<open>atomic\_file::replace\<close>\<close>

definition temporary_name :: "string \<Rightarrow> string \<Rightarrow> string" where
  "temporary_name name suffix = ''.'' @ name @ ''.'' @ suffix @ ''.tmp''"

definition put_file :: "string \<Rightarrow> file_node \<Rightarrow> request_dir \<Rightarrow> request_dir" where
  "put_file name f d = d\<lparr>dr_files := bt_insert name f (dr_files d)\<rparr>"

definition drop_file :: "string \<Rightarrow> request_dir \<Rightarrow> request_dir" where
  "drop_file name d = d\<lparr>dr_files := bt_remove name (dr_files d)\<rparr>"

definition open_new :: "io \<Rightarrow> string \<Rightarrow> request_dir \<Rightarrow> unit res" where
  "open_new io name d = and_then (io OpenTmp) (\<lambda>_.
     if bt_get (dr_files d) name \<noteq> None then Err ''File exists'' else Ok ())"

text \<open>On every error the temporary file is removed; after the rename it no longer exists.\<close>

definition atomic_replace ::
  "io \<Rightarrow> process \<Rightarrow> string \<Rightarrow> string \<Rightarrow> u32 \<Rightarrow> request_dir \<Rightarrow> unit res \<times> request_dir" where
  "atomic_replace io p name content mode d =
     (let tmp = temporary_name name (pr_suffix p);
          fail = (\<lambda>e d. (Err e, drop_file tmp d));
          created = (\<lambda>c m. \<lparr>fn_regular = True, fn_uid = pr_uid p, fn_mode = m, fn_content = c\<rparr>);
          opened = put_file tmp (created [] (mode AND NOT (pr_umask p))) d;
          written = put_file tmp (created content (mode AND NOT (pr_umask p))) d;
          ready = put_file tmp (created content mode) d;
          renamed = put_file name (created content mode) (drop_file tmp ready) in
      case open_new io tmp d of Inl e \<Rightarrow> fail e d | Inr _ \<Rightarrow>
      case io WriteAll of Inl e \<Rightarrow> fail e opened | Inr _ \<Rightarrow>
      case io SyncFile of Inl e \<Rightarrow> fail e written | Inr _ \<Rightarrow>
      case io SetMode of Inl e \<Rightarrow> fail e written | Inr _ \<Rightarrow>
      case io Rename of Inl e \<Rightarrow> fail e ready | Inr _ \<Rightarrow>
      case io SyncDir of Inl e \<Rightarrow> fail e renamed | Inr _ \<Rightarrow> (Ok (), renamed))"

subsection \<open>\<open>reconcile\_request::publish\<close>\<close>

record reconcile_request =
  rq_api_version :: u32
  rq_generation :: u64

definition request_name :: string where
  "request_name = ''reconcile.request''"

definition REQUEST_MODE :: u32 where
  "REQUEST_MODE = 0x1A0"

definition others_write :: "u32 \<Rightarrow> bool" where
  "others_write mode \<longleftrightarrow> mode AND 0x12 \<noteq> 0"

definition publish_request ::
  "(reconcile_request \<Rightarrow> string res) \<Rightarrow> io \<Rightarrow> process \<Rightarrow> u64 \<Rightarrow> request_dir \<Rightarrow> unit res \<times> request_dir" where
  "publish_request to_json io p g d =
     (case io StatDir of Inl e \<Rightarrow> (Err e, d) | Inr _ \<Rightarrow>
      if \<not> dr_is_dir d then (Err ''reconcile request path must be a real directory'', d)
      else if others_write (dr_mode d)
      then (Err ''reconcile request path must not be group/world-writable'', d)
      else case to_json \<lparr>rq_api_version = 1, rq_generation = g\<rparr> of Inl e \<Rightarrow> (Err e, d)
        | Inr content \<Rightarrow> atomic_replace io p request_name content REQUEST_MODE d)"

subsection \<open>\<open>user\_lifecycle.rs\<close>\<close>

record outbox =
  ob_db :: db
  ob_dir :: request_dir

text \<open>The generation goes out first; only then is the outbox cleared.\<close>

definition publish_and_acknowledge ::
  "(reconcile_request \<Rightarrow> string res) \<Rightarrow> io \<Rightarrow> process \<Rightarrow> int \<Rightarrow> outbox \<Rightarrow> unit res \<times> outbox" where
  "publish_and_acknowledge to_json io p g w =
     (case publish_request to_json io p (of_int g) (ob_dir w) of
        (Inl e, d) \<Rightarrow> (Err e, w\<lparr>ob_dir := d\<rparr>)
      | (Inr _, d) \<Rightarrow> (Ok (), w\<lparr>ob_dir := d, ob_db := mark_user_lifecycle_reconcile_published g (ob_db w)\<rparr>))"

definition publish_evaluation ::
  "(reconcile_request \<Rightarrow> string res) \<Rightarrow> io \<Rightarrow> process \<Rightarrow> lifecycle_evaluation \<Rightarrow> outbox \<Rightarrow> unit res \<times> outbox" where
  "publish_evaluation to_json io p e w = (case le_pending e of
       None \<Rightarrow> (Ok (), w)
     | Some g \<Rightarrow> publish_and_acknowledge to_json io p g w)"

definition evaluate_and_publish ::
  "(reconcile_request \<Rightarrow> string res) \<Rightarrow> io \<Rightarrow> process \<Rightarrow> bool \<Rightarrow> uuid \<Rightarrow> instant \<Rightarrow> outbox \<Rightarrow> unit res \<times> outbox" where
  "evaluate_and_publish to_json io p repair op now w =
     (case evaluate_user_lifecycle (if repair then Repair else Deadlines) op now (ob_db w) of
        Inl e \<Rightarrow> (Err e, w)
      | Inr (evaluation, db) \<Rightarrow> publish_evaluation to_json io p evaluation (w\<lparr>ob_db := db\<rparr>))"

subsection \<open>The worker's side\<close>

definition MAX_REQUEST_BYTES :: nat where
  "MAX_REQUEST_BYTES = 1024"

definition validate_request_directory :: "request_dir \<Rightarrow> unit res" where
  "validate_request_directory d =
     (if \<not> dr_is_dir d then Err ''request path must be a real directory''
      else if dr_uid d = 0 \<or> others_write (dr_mode d)
      then Err ''request directory must be app-owned and not group/world-writable''
      else Ok ())"

definition validate_request_file :: "file_node \<Rightarrow> request_dir \<Rightarrow> unit res" where
  "validate_request_file f d =
     (if \<not> fn_regular f \<or> MAX_REQUEST_BYTES < length (fn_content f)
      then Err ''request must be a bounded regular file''
      else if fn_uid f \<noteq> dr_uid d \<or> others_write (fn_mode f)
      then Err ''request ownership or mode is unsafe''
      else Ok ())"

text \<open>
  \<open>claim\_request\<close> renames the request to a private name; the result is that file. The panel may
  replace the request before the rename and another worker may win it: \<open>between\<close> is what the other
  processes do to the directory meanwhile.
\<close>

definition claim_request ::
  "(request_dir \<Rightarrow> request_dir) \<Rightarrow> string \<Rightarrow> request_dir \<Rightarrow> string option res \<times> request_dir" where
  "claim_request between nonce d = (case bt_get (dr_files d) request_name of
       None \<Rightarrow> (Ok None, d)
     | Some f \<Rightarrow> (case validate_request_file f d of
         Inl e \<Rightarrow> (Err e, d)
       | Inr _ \<Rightarrow>
           let d = between d; processing = ''.processing-'' @ nonce in
           (case bt_get (dr_files d) request_name of
              None \<Rightarrow> (Ok None, d)
            | Some f \<Rightarrow>
                let d = put_file processing f (drop_file request_name d) in
                (case validate_request_file f d of
                   Inl e \<Rightarrow> (Err e, d)
                 | Inr _ \<Rightarrow> (Ok (Some processing), d)))))"

definition read_request :: "(string \<Rightarrow> reconcile_request res) \<Rightarrow> string \<Rightarrow> request_dir \<Rightarrow> reconcile_request res" where
  "read_request of_json path d =
     and_then (ok_or ''No such file or directory'' (bt_get (dr_files d) path)) (\<lambda>f.
     and_then (of_json (fn_content f)) (\<lambda>r.
       if rq_api_version r \<noteq> 1 \<or> rq_generation r = 0 then Err ''unsupported reconcile request'' else Ok r))"

subsection \<open>Replacing a file is atomic\<close>

lemma put_get [simp]: "bt_get (dr_files (put_file n f d)) m = (if m = n then Some f else bt_get (dr_files d) m)"
  by (simp add: put_file_def bt_get_insert)

lemma put_dir [simp]: "dr_is_dir (put_file n f d) = dr_is_dir d" "dr_uid (put_file n f d) = dr_uid d"
  "dr_mode (put_file n f d) = dr_mode d"
  by (simp_all add: put_file_def)

lemma drop_dir [simp]: "dr_is_dir (drop_file n d) = dr_is_dir d" "dr_uid (drop_file n d) = dr_uid d"
  "dr_mode (drop_file n d) = dr_mode d"
  by (simp_all add: drop_file_def)

lemma drop_get: "bt_wf (dr_files d) \<Longrightarrow>
    bt_get (dr_files (drop_file n d)) m = (if m = n then None else bt_get (dr_files d) m)"
  by (simp add: drop_file_def bt_get_remove)

lemma put_wf: "bt_wf (dr_files d) \<Longrightarrow> bt_wf (dr_files (put_file n f d))"
  by (simp add: put_file_def bt_wf_insert)

lemma drop_wf: "bt_wf (dr_files d) \<Longrightarrow> bt_wf (dr_files (drop_file n d))"
  by (simp add: drop_file_def bt_wf_remove)

lemma temporary_name_other: "temporary_name name suffix \<noteq> name"
proof
  assume "temporary_name name suffix = name"
  then have "length (temporary_name name suffix) = length name" by simp
  then show False by (simp add: temporary_name_def)
qed

text \<open>The new file when the call succeeds; before the rename the old one; never anything else.\<close>

definition replaced :: "process \<Rightarrow> string \<Rightarrow> u32 \<Rightarrow> file_node" where
  "replaced p content mode = \<lparr>fn_regular = True, fn_uid = pr_uid p, fn_mode = mode, fn_content = content\<rparr>"

lemma atomic_replace_cases:
  assumes "bt_wf (dr_files d)" and "atomic_replace io p name content mode d = (r, d')"
  shows "bt_wf (dr_files d')" "dr_uid d' = dr_uid d" "dr_is_dir d' = dr_is_dir d" "dr_mode d' = dr_mode d"
    "bt_get (dr_files d') (temporary_name name (pr_suffix p)) = None"
    "m \<noteq> name \<Longrightarrow> m \<noteq> temporary_name name (pr_suffix p) \<Longrightarrow> bt_get (dr_files d') m = bt_get (dr_files d) m"
    "r = Inr () \<Longrightarrow> bt_get (dr_files d') name = Some (replaced p content mode)"
    "bt_get (dr_files d') name = bt_get (dr_files d) name
       \<or> bt_get (dr_files d') name = Some (replaced p content mode)"
  using assms temporary_name_other [of name "pr_suffix p"] temporary_name_other [of name "pr_suffix p", symmetric]
  unfolding atomic_replace_def Let_def
  by (auto simp: drop_get put_wf drop_wf replaced_def open_new_def and_then_Inr_iff
      split: sum.splits if_splits)

lemma publish_request_Inr:
  assumes "bt_wf (dr_files d)" and "publish_request to_json io p g d = (Inr (), d')"
  shows "\<exists>content. to_json \<lparr>rq_api_version = 1, rq_generation = g\<rparr> = Inr content
    \<and> bt_get (dr_files d') request_name = Some (replaced p content REQUEST_MODE)
    \<and> dr_is_dir d' \<and> \<not> others_write (dr_mode d') \<and> dr_uid d' = dr_uid d \<and> bt_wf (dr_files d')"
proof -
  obtain content where c: "to_json \<lparr>rq_api_version = 1, rq_generation = g\<rparr> = Inr content"
    "atomic_replace io p request_name content REQUEST_MODE d = (Inr (), d')"
    "dr_is_dir d" "\<not> others_write (dr_mode d)"
    using assms(2) by (auto simp: publish_request_def split: sum.splits if_splits)
  note a = atomic_replace_cases [OF assms(1) c(2)]
  show ?thesis using c(1,3,4) a(1-4,7) by (intro exI [of _ content]) simp
qed

end
