(* ===== verification/User_Claims.thy ===== *)
theory User_Claims
  imports Lifecycle_Outbox
begin

text \<open>
  The properties of the subscription users: the database invariant, the generation that follows the
  authorised users, the convergence of the lifecycle evaluation and the outbox to the root worker.
\<close>

subsection \<open>A small database\<close>

definition sample_user :: new_user where
  "sample_user = \<lparr>nu_username = '' alice '', nu_limit = Some 1000, nu_expires = Some 100\<rparr>"

definition sample_create :: user_op where
  "sample_create = CreateUser sample_user None ''uuid-1'' ''token-1'' ''op-1''"

definition outcome_db :: "db res \<Rightarrow> db" where
  "outcome_db r = (case r of Inl _ \<Rightarrow> empty_db 0 | Inr db \<Rightarrow> db)"

definition db_created :: db where
  "db_created = outcome_db (run_user_op sample_create 10 (empty_db 0))"

text \<open>After the deadline the checker has seen the expiry: generation 2 waits to be published.\<close>

definition db_expired :: db where
  "db_expired = outcome_db (run_user_op (EvaluateLifecycle Deadlines ''op-2'') 200 db_created)"

lemma run_created: "run_user_op sample_create 10 (empty_db 0) = Inr db_created"
  by code_simp

lemma run_expired: "run_user_op (EvaluateLifecycle Deadlines ''op-2'') 200 db_created = Inr db_expired"
  by code_simp

lemma reachable_created: "users_reachable db_created"
  by (rule users_reachable.user_op [OF users_reachable.schema run_created])

lemma reachable_expired: "users_reachable db_expired"
  by (rule users_reachable.user_op [OF reachable_created run_expired])

subsection \<open>The database\<close>

text \<open>
  C29: whatever operations ran, in whatever order, the users of the database have distinct
  identifiers, names, runtime identities and subscription tokens, no identifier beyond the last one
  given out; lifecycle checkpoints exist only for present users, no pending generation is ahead of
  the desired one, and a checkpoint taken from the current revision of a user is what the access
  decision said at the instant it was taken.
\<close>

theorem user_tables_are_consistent:
  assumes "users_reachable db"
  shows "distinct (map us_id (db_users db)) \<and> distinct (map us_username (db_users db))
    \<and> distinct (map us_uuid (db_users db)) \<and> distinct (map us_token (db_users db))
    \<and> list_all (\<lambda>u. us_id u \<le> db_user_seq db) (db_users db)
    \<and> list_all (\<lambda>(i, r). i \<in> us_id ` set (db_users db)
          \<and> ul_pending r \<le> Some (rc_desired (db_reconcile db))) (db_lifecycle db)
    \<and> list_all (\<lambda>u. case bt_get (db_lifecycle db) (us_id u) of None \<Rightarrow> True
        | Some r \<Rightarrow> ul_source_updated r \<noteq> us_updated u
            \<or> ul_allowed r = access_allowed (access_state_at u (ul_observed r))
              \<and> ul_expired r = ua_expired (access_state_at u (ul_observed r))) (db_users db)"
proof -
  have ok: "users_ok db" and tr: "checkpoints_true db"
    using users_reachable_inv [OF assms] by (auto simp: users_inv_def)
  note k = users_okD [OF ok]
  have rows: "i \<in> us_id ` set (db_users db) \<and> ul_pending r \<le> Some (rc_desired (db_reconcile db))"
    if "(i, r) \<in> set (db_lifecycle db)" for i r
  proof -
    have "bt_get (db_lifecycle db) i = Some r" using that bt_get_mem [OF k(4)] by simp
    from k(5) [OF this] k(7) [OF this] show ?thesis by (cases "ul_pending r") auto
  qed
  have "row_of u r" if "u \<in> set (db_users db)" "bt_get (db_lifecycle db) (us_id u) = Some r"
    "ul_source_updated r = us_updated u" for u r
    using tr that unfolding checkpoints_true_def by blast
  then show ?thesis using k(1-3) rows
    by (auto simp: users_unique_def list_all_iff row_of_def Let_def split: option.split)
qed

lemma user_tables_are_consistent_witness:
  "distinct (map us_id (db_users db_expired)) \<and> length (db_users db_expired) = 1"
proof -
  have "length (db_users db_expired) = 1" by code_simp
  then show ?thesis using user_tables_are_consistent [OF reachable_expired] by blast
qed

text \<open>
  C30: the desired generation follows the users. Whenever an operation changes what the runtimes must
  enforce at that instant (the names and identities of the allowed users), the same transaction
  raises the desired generation by exactly one and marks it pending, so the change cannot be lost
  between the database and the reconciler.
\<close>

theorem generation_follows_authorised_users:
  assumes "users_reachable db" and "run_user_op op now db = Inr db'"
    and "authorised now db' \<noteq> authorised now db"
  shows "rc_desired (db_reconcile db') = rc_desired (db_reconcile db) + 1
    \<and> rc_status (db_reconcile db') = ''pending''
    \<and> rc_applied (db_reconcile db') = rc_applied (db_reconcile db)"
proof -
  have "users_ok db" using users_reachable_inv [OF assms(1)] by (simp add: users_inv_def)
  from generation_moves [OF assms(2) this assms(3)] show ?thesis by (auto simp: bumped_def)
qed

lemma generation_follows_authorised_users_witness:
  "rc_desired (db_reconcile db_created) = 1 \<and> authorised 10 db_created = [(''alice'', ''uuid-1'')]"
proof -
  have a: "authorised 10 db_created = [(''alice'', ''uuid-1'')]" by code_simp
  moreover have "authorised 10 (empty_db 0) = []" by code_simp
  ultimately have "rc_desired (db_reconcile db_created) = rc_desired (db_reconcile (empty_db 0)) + 1"
    using generation_follows_authorised_users [OF users_reachable.schema run_created] by simp
  then show ?thesis using a by (simp add: empty_db_def)
qed



subsection \<open>The outbox\<close>


definition sample_dir :: request_dir where
  "sample_dir = \<lparr>dr_is_dir = True, dr_uid = 1000, dr_mode = 0x1E8, dr_files = []\<rparr>"

definition sample_process :: process where
  "sample_process = \<lparr>pr_uid = 1000, pr_umask = 0x12, pr_suffix = ''00ff''\<rparr>"

text \<open>A concrete encoding: the generation as decimal digits.\<close>

definition sample_encode :: "reconcile_request \<Rightarrow> string res" where
  "sample_encode r = Ok (show_nat (unat (rq_generation r)))"

definition sample_decode :: "string \<Rightarrow> reconcile_request res" where
  "sample_decode s = Ok \<lparr>rq_api_version = 1, rq_generation = of_nat (parse_digits s)\<rparr>"

definition sample_round :: "unit res \<times> outbox" where
  "sample_round = evaluate_and_publish sample_encode (\<lambda>_. Ok ()) sample_process False ''op-3'' 201
     \<lparr>ob_db = db_expired, ob_dir = sample_dir\<rparr>"

lemma sample_round_ok: "fst sample_round = Inr () \<and> max_pending (db_lifecycle db_expired) = Some 2"
  by code_simp


text \<open>
  A published request reaches the worker unchanged. After a successful publication into a
  directory the worker accepts, the worker's claim, undisturbed by other processes, takes the request
  out of the directory and reads exactly the published generation. The encoding must read back and stay within the worker's size limit.
\<close>

theorem published_request_is_claimed:
  assumes "bt_wf (dr_files d)" and "publish_request to_json io p g d = (Inr (), d')"
    and "validate_request_directory d = Inr ()" and "dr_uid d = pr_uid p" and "g \<noteq> 0"
    and "of_json (case to_json \<lparr>rq_api_version = 1, rq_generation = g\<rparr> of Inl e \<Rightarrow> [] | Inr c \<Rightarrow> c)
      = Inr \<lparr>rq_api_version = 1, rq_generation = g\<rparr>"
    and "case to_json \<lparr>rq_api_version = 1, rq_generation = g\<rparr> of Inl e \<Rightarrow> True
      | Inr c \<Rightarrow> length c \<le> MAX_REQUEST_BYTES"
  shows "\<exists>path d''. claim_request (\<lambda>d. d) nonce d' = (Inr (Some path), d'')
    \<and> read_request of_json path d'' = Inr \<lparr>rq_api_version = 1, rq_generation = g\<rparr>
    \<and> bt_get (dr_files d'') request_name = None"
proof -
  obtain content where c: "to_json \<lparr>rq_api_version = 1, rq_generation = g\<rparr> = Inr content"
    and f: "bt_get (dr_files d') request_name = Some (replaced p content REQUEST_MODE)"
    and d': "dr_uid d' = dr_uid d" "bt_wf (dr_files d')"
    using publish_request_Inr [OF assms(1,2)] by blast
  have mode: "\<not> others_write REQUEST_MODE" by code_simp
  have name: "request_name \<noteq> ''.processing-'' @ nonce" by (simp add: request_name_def)
  have ok: "validate_request_file (replaced p content REQUEST_MODE) e = Inr ()" if "dr_uid e = dr_uid d" for e
    using c assms(4,7) mode that by (simp add: validate_request_file_def replaced_def)
  let ?d = "put_file (''.processing-'' @ nonce) (replaced p content REQUEST_MODE) (drop_file request_name d')"
  have "claim_request (\<lambda>d. d) nonce d' = (Inr (Some (''.processing-'' @ nonce)), ?d)"
    using f ok [of d'] ok [of ?d] d'(1) by (simp add: claim_request_def Let_def)
  moreover have "read_request of_json (''.processing-'' @ nonce) ?d = Inr \<lparr>rq_api_version = 1, rq_generation = g\<rparr>"
    using c assms(5,6) by (simp add: read_request_def replaced_def)
  moreover have "bt_get (dr_files ?d) request_name = None"
    using name d'(2) by (simp add: drop_get)
  ultimately show ?thesis by blast
qed

definition sample_published :: "unit res \<times> request_dir" where
  "sample_published = publish_request sample_encode (\<lambda>_. Ok ()) sample_process 7 sample_dir"

lemma sample_published_ok:
  "fst sample_published = Inr () \<and> validate_request_directory sample_dir = Inr ()"
  by code_simp

lemma published_request_is_claimed_witness:
  "\<exists>path d''. claim_request (\<lambda>d. d) ''n'' (snd sample_published) = (Inr (Some path), d'')
    \<and> read_request sample_decode path d'' = Inr \<lparr>rq_api_version = 1, rq_generation = 7\<rparr>
    \<and> bt_get (dr_files d'') request_name = None"
proof (rule published_request_is_claimed)
  show "bt_wf (dr_files sample_dir)" by (simp add: sample_dir_def)
  show "publish_request sample_encode (\<lambda>_. Ok ()) sample_process 7 sample_dir = (Inr (), snd sample_published)"
    using sample_published_ok unfolding sample_published_def by (metis prod.collapse)
  show "validate_request_directory sample_dir = Inr ()" using sample_published_ok by simp
  show "dr_uid sample_dir = pr_uid sample_process" by (simp add: sample_dir_def sample_process_def)
  show "(7 :: u64) \<noteq> 0" by simp
  show "sample_decode (case sample_encode \<lparr>rq_api_version = 1, rq_generation = 7\<rparr> of Inl e \<Rightarrow> [] | Inr c \<Rightarrow> c)
      = Inr \<lparr>rq_api_version = 1, rq_generation = 7\<rparr>"
    by code_simp
  show "case sample_encode \<lparr>rq_api_version = 1, rq_generation = 7\<rparr> of Inl e \<Rightarrow> True
      | Inr c \<Rightarrow> length c \<le> MAX_REQUEST_BYTES"
    by code_simp
qed

subsection \<open>A request that is lost\<close>

text \<open>
  Deleting a blocked user drops its checkpoint row, and with it a pending generation that was never
  published: the desired generation (2) stays ahead of the applied one, no request is written, and no
  later evaluation reports anything pending. The comment on \<open>evaluate\_user\_lifecycle\_transitions\<close>
  says that the generation stays durable until its publication is acknowledged.
\<close>

definition db_forgotten :: db where
  "db_forgotten = outcome_db (run_user_op (DeleteUser 1 None ''op-5'') 202 db_expired)"

lemma run_forgotten: "run_user_op (DeleteUser 1 None ''op-5'') 202 db_expired = Inr db_forgotten"
  by code_simp

lemma deletion_forgets_pending:
  "users_reachable db_forgotten
    \<and> max_pending (db_lifecycle db_expired) = Some 2 \<and> max_pending (db_lifecycle db_forgotten) = None
    \<and> rc_desired (db_reconcile db_forgotten) = 2 \<and> rc_applied (db_reconcile db_forgotten) = 0"
proof -
  have "max_pending (db_lifecycle db_expired) = Some 2 \<and> max_pending (db_lifecycle db_forgotten) = None
    \<and> rc_desired (db_reconcile db_forgotten) = 2 \<and> rc_applied (db_reconcile db_forgotten) = 0"
    by code_simp
  then show ?thesis using users_reachable.user_op [OF reachable_expired run_forgotten] by blast
qed

end
