(* ===== verification/Store_Admins.thy ===== *)
theory Store_Admins
  imports Storage_Base Telemetry
begin

text \<open>
  Administrators and their sessions, settings, secrets, adapter-owned state and the telemetry history
  of \<open>storage.rs\<close>. \<open>serde\_json\<close> and the adapters' migrations are parameters.
\<close>

subsection \<open>Administrators\<close>

definition admin_count :: "db \<Rightarrow> int" where
  "admin_count db = int (length (db_admins db))"

definition get_admin_by_username :: "string \<Rightarrow> db \<Rightarrow> admin_record option" where
  "get_admin_by_username username db = List.find (\<lambda>a. ad_username a = trim username) (db_admins db)"

definition get_admin_by_id :: "int \<Rightarrow> db \<Rightarrow> admin_record option" where
  "get_admin_by_id i db = List.find (\<lambda>a. ad_id a = i) (db_admins db)"

definition insert_admin :: "string \<Rightarrow> string \<Rightarrow> instant \<Rightarrow> db \<Rightarrow> db res" where
  "insert_admin username password_hash now db =
     (if username \<in> ad_username ` set (db_admins db) then Err ''UNIQUE constraint failed''
      else
        let i = db_admin_seq db + 1 in
        Ok (db\<lparr>db_admin_seq := i, db_admins := db_admins db @
          [\<lparr>ad_id = i, ad_username = username, ad_password_hash = password_hash,
            ad_created = now, ad_updated = now\<rparr>]\<rparr>))"

definition create_admin :: "string \<Rightarrow> string \<Rightarrow> instant \<Rightarrow> admin_record tx" where
  "create_admin username password_hash now db =
     (let username = trim username in
      and_then (insert_admin username password_hash now db) (\<lambda>db.
      and_then (ok_or ''admin was not created'' (get_admin_by_username username db)) (\<lambda>a.
        Ok (a, db))))"

text \<open>The first administrator: one conditional INSERT, so a table that is not empty refuses it.\<close>

definition create_first_admin_inner ::
  "string \<Rightarrow> string \<Rightarrow> audit_event option \<Rightarrow> instant \<Rightarrow> admin_record tx" where
  "create_first_admin_inner username password_hash event now db =
     (let username = trim username in
      if db_admins db \<noteq> [] then Err ''initial administrator already exists''
      else
        and_then (insert_admin username password_hash now db) (\<lambda>db.
        and_then (ok_or ''row not found'' (List.find (\<lambda>a. ad_username a = username) (db_admins db))) (\<lambda>a.
        and_then (audit_opt (map_option (\<lambda>e. e\<lparr>ae_actor := (ae_actor e)\<lparr>aa_admin_id := Some (ad_id a)\<rparr>\<rparr>) event)
            now db) (\<lambda>(_, db). Ok (a, db)))))"

text \<open>\<open>MIN(id)\<close>, NULL on an empty table.\<close>

definition min_admin_id :: "db \<Rightarrow> int option" where
  "min_admin_id db = (case db_admins db of [] \<Rightarrow> None | a # as \<Rightarrow> Some (fold (\<lambda>b m. min (ad_id b) m) as (ad_id a)))"

definition is_owner_admin_id :: "int \<Rightarrow> db \<Rightarrow> bool" where
  "is_owner_admin_id i db \<longleftrightarrow> min_admin_id db = Some i"

subsection \<open>Sessions\<close>

definition create_admin_session :: "int \<Rightarrow> string \<Rightarrow> instant \<Rightarrow> instant \<Rightarrow> unit tx" where
  "create_admin_session admin_id token_hash expires now db =
     (if admin_id \<notin> ad_id ` set (db_admins db) then Err ''FOREIGN KEY constraint failed''
      else if token_hash \<in> se_token_hash ` set (db_sessions db) then Err ''UNIQUE constraint failed''
      else
        let i = db_session_seq db + 1 in
        Ok ((), db\<lparr>db_session_seq := i, db_sessions := db_sessions db @
          [\<lparr>se_id = i, se_admin_id = admin_id, se_token_hash = token_hash, se_expires = expires,
            se_created = now, se_last_seen = now\<rparr>]\<rparr>))"

definition get_valid_admin_session :: "string \<Rightarrow> instant \<Rightarrow> db \<Rightarrow> session_record option" where
  "get_valid_admin_session token_hash now db =
     List.find (\<lambda>s. se_token_hash s = token_hash \<and> now < se_expires s) (db_sessions db)"

definition touch_admin_session :: "string \<Rightarrow> instant \<Rightarrow> db \<Rightarrow> db" where
  "touch_admin_session token_hash now db = db\<lparr>db_sessions :=
     map (\<lambda>s. if se_token_hash s = token_hash then s\<lparr>se_last_seen := now\<rparr> else s) (db_sessions db)\<rparr>"

definition delete_admin_session :: "string \<Rightarrow> db \<Rightarrow> db" where
  "delete_admin_session token_hash db =
     db\<lparr>db_sessions := filter (\<lambda>s. se_token_hash s \<noteq> token_hash) (db_sessions db)\<rparr>"

definition update_admin_password_inner ::
  "int \<Rightarrow> string \<Rightarrow> audit_event option \<Rightarrow> instant \<Rightarrow> unit tx" where
  "update_admin_password_inner admin_id password_hash event now db =
     (if length (filter (\<lambda>a. ad_id a = admin_id) (db_admins db)) \<noteq> 1 then Err ''administrator not found''
      else audit_opt event now (db\<lparr>
        db_admins := map (\<lambda>a. if ad_id a = admin_id
          then a\<lparr>ad_password_hash := password_hash, ad_updated := now\<rparr> else a) (db_admins db),
        db_sessions := filter (\<lambda>s. se_admin_id s \<noteq> admin_id) (db_sessions db)\<rparr>))"

definition delete_expired_admin_sessions :: "instant \<Rightarrow> db \<Rightarrow> db" where
  "delete_expired_admin_sessions now db =
     db\<lparr>db_sessions := filter (\<lambda>s. \<not> se_expires s \<le> now) (db_sessions db)\<rparr>"

subsection \<open>Settings\<close>

definition upsert_setting :: "string \<Rightarrow> string \<Rightarrow> instant \<Rightarrow> db \<Rightarrow> db" where
  "upsert_setting key v now db =
     db\<lparr>db_settings := bt_insert (trim key) \<lparr>sv_value = v, sv_updated = now\<rparr> (db_settings db)\<rparr>"

definition upsert_settings :: "(string \<times> string) list \<Rightarrow> instant \<Rightarrow> db \<Rightarrow> db" where
  "upsert_settings values now db = fold (\<lambda>(k, v) db. upsert_setting k v now db) values db"

definition upsert_desired_settings :: "(string \<times> string) list \<Rightarrow> uuid \<Rightarrow> instant \<Rightarrow> int tx" where
  "upsert_desired_settings values op now db = bump_desired_generation op now (upsert_settings values now db)"

definition get_setting :: "string \<Rightarrow> db \<Rightarrow> setting_row option" where
  "get_setting key db = bt_get (db_settings db) (trim key)"

definition list_settings :: "db \<Rightarrow> (string \<times> setting_row) list" where
  "list_settings db = db_settings db"

text \<open>The loop of \<open>upsert\_settings\_with\_runtime\_keys\_inner\<close>: has a runtime key changed so far?\<close>

fun write_settings :: "(string \<times> string) list \<Rightarrow> string list \<Rightarrow> instant \<Rightarrow> bool \<times> db \<Rightarrow> bool \<times> db" where
  "write_settings [] runtime_keys now (changed, db) = (changed, db)"
| "write_settings ((k, v) # values) runtime_keys now (changed, db) =
     write_settings values runtime_keys now
       (changed \<or> k \<in> set runtime_keys
          \<and> map_option sv_value (bt_get (db_settings db) (trim k)) \<noteq> Some v,
        upsert_setting k v now db)"

definition upsert_settings_with_runtime_keys_inner ::
  "(string \<times> string) list \<Rightarrow> string list \<Rightarrow> audit_event option \<Rightarrow> uuid \<Rightarrow> instant \<Rightarrow> int option tx" where
  "upsert_settings_with_runtime_keys_inner values runtime_keys event op now db =
     (case write_settings values runtime_keys now (False, db) of (changed, db) \<Rightarrow>
        and_then (if changed then and_then (bump_desired_generation op now db) (\<lambda>(g, db). Ok (Some g, db))
            else Ok (None, db)) (\<lambda>(g, db).
        and_then (audit_opt event now db) (\<lambda>(_, db). Ok (g, db))))"

definition upsert_setting_if_missing :: "string \<Rightarrow> string \<Rightarrow> instant \<Rightarrow> db \<Rightarrow> db" where
  "upsert_setting_if_missing key v now db = (case bt_get (db_settings db) (trim key) of
       Some _ \<Rightarrow> db
     | None \<Rightarrow> upsert_setting key v now db)"

definition DEFAULT_SETTINGS :: "(string \<times> string) list" where
  "DEFAULT_SETTINGS =
     [(''panel_name'', ''Infiproxy''), (''subscription_domain'', ''sub.infiproxy.local''),
      (''node_domain'', ''node.infiproxy.local''), (''panel_update_enabled'', ''true''),
      (''panel_update_hour'', ''5''), (''panel_update_time'', ''05:00''),
      (''panel_update_repo'', ''infinitrator/stealthhub-panel''), (''panel_update_ref'', ''main''),
      (''panel_update_available'', ''false''), (''panel_update_checked_at'', ''never''),
      (''panel_update_current_sha'', ''unknown''), (''panel_update_latest_sha'', ''unknown''),
      (''panel_update_planned_for'', ''not scheduled''), (''panel_update_status'', ''idle'')]"

definition ensure_default_settings :: "instant \<Rightarrow> db \<Rightarrow> db" where
  "ensure_default_settings now db =
     fold (\<lambda>(k, v) db. upsert_setting_if_missing k v now db) DEFAULT_SETTINGS db"

text \<open>A setting that is missing falls back to the default of \<open>PanelSettings\<close>.\<close>

definition load_panel_settings :: "db \<Rightarrow> panel_settings" where
  "load_panel_settings db =
     \<lparr>panel_name = (case get_setting ''panel_name'' db of None \<Rightarrow> panel_name default_panel_settings
        | Some s \<Rightarrow> sv_value s),
      subscription_domain = (case get_setting ''subscription_domain'' db of
          None \<Rightarrow> subscription_domain default_panel_settings
        | Some s \<Rightarrow> sv_value s),
      node_domain = (case get_setting ''node_domain'' db of None \<Rightarrow> node_domain default_panel_settings
        | Some s \<Rightarrow> sv_value s)\<rparr>"

subsection \<open>Secrets\<close>

definition upsert_secret_inner ::
  "string \<Rightarrow> string \<Rightarrow> audit_event option \<Rightarrow> uuid \<Rightarrow> instant \<Rightarrow> unit tx" where
  "upsert_secret_inner name v event op now db =
     (let name = trim name;
          created = (case bt_get (db_secrets db) name of None \<Rightarrow> now | Some s \<Rightarrow> sx_created s);
          db = db\<lparr>db_secrets := bt_insert name \<lparr>sx_value = v, sx_created = created, sx_updated = now\<rparr>
            (db_secrets db)\<rparr> in
      and_then (bump_desired_generation op now db) (\<lambda>(_, db). audit_opt event now db))"

definition get_secret :: "string \<Rightarrow> db \<Rightarrow> secret_row option" where
  "get_secret name db = bt_get (db_secrets db) (trim name)"

definition list_secret_names :: "db \<Rightarrow> string list" where
  "list_secret_names db = bt_keys (db_secrets db)"

definition delete_secret_inner :: "string \<Rightarrow> audit_event option \<Rightarrow> uuid \<Rightarrow> instant \<Rightarrow> unit tx" where
  "delete_secret_inner name event op now db =
     (case bt_get (db_secrets db) (trim name) of
        None \<Rightarrow> Err ''secret not found''
      | Some _ \<Rightarrow>
          and_then (bump_desired_generation op now (db\<lparr>db_secrets := bt_remove (trim name) (db_secrets db)\<rparr>))
            (\<lambda>(_, db). audit_opt event now db))"

subsection \<open>Adapter state\<close>

record json_codec =
  jc_write :: "json \<Rightarrow> string"
  jc_read :: "string \<Rightarrow> json res"

record persisted_state =
  ps_adapter_id :: string
  ps_adapter_kind :: string
  ps_resource_id :: string
  ps_schema_version :: u32
  ps_config :: json
  ps_enabled :: bool

definition valid_adapter_namespace :: "string \<Rightarrow> bool" where
  "valid_adapter_namespace v \<longleftrightarrow> v \<noteq> [] \<and> length v \<le> 64
     \<and> list_all (\<lambda>b. is_lower b \<or> is_digit b \<or> b = CHR ''-'') v"

definition upsert_adapter_state :: "json_codec \<Rightarrow> persisted_state \<Rightarrow> instant \<Rightarrow> unit tx" where
  "upsert_adapter_state codec s now db =
     (if \<not> valid_adapter_id (ps_adapter_id s) \<or> \<not> valid_adapter_namespace (ps_adapter_kind s)
         \<or> \<not> valid_adapter_resource_id (ps_resource_id s) \<or> ps_schema_version s = 0
      then Err ''invalid durable adapter state identity''
      else
        let k = (ps_adapter_kind s, ps_adapter_id s, ps_resource_id s);
            created = (case bt_get (db_adapter_state db) k of None \<Rightarrow> now | Some r \<Rightarrow> as_created r) in
        Ok ((), db\<lparr>db_adapter_state := bt_insert k
          \<lparr>as_schema_version = uint (ps_schema_version s), as_config = jc_write codec (ps_config s),
           as_enabled = ps_enabled s, as_created = created, as_updated = now\<rparr> (db_adapter_state db)\<rparr>))"

definition list_adapter_state_records :: "db \<Rightarrow> ((string \<times> string \<times> string) \<times> adapter_state_row) list" where
  "list_adapter_state_records db = db_adapter_state db"

definition u32_of :: "int \<Rightarrow> u32 option" where
  "u32_of i = (if 0 \<le> i \<and> i < 2 ^ 32 then Some (of_int i) else None)"

definition decode_adapter_state ::
  "json_codec \<Rightarrow> (string \<times> string \<times> string) \<times> adapter_state_row \<Rightarrow> persisted_state res" where
  "decode_adapter_state codec = (\<lambda>((kind, i, res), r).
     and_then (ok_or ''invalid adapter state schema version'' (u32_of (as_schema_version r))) (\<lambda>v.
     and_then (jc_read codec (as_config r)) (\<lambda>config.
       Ok \<lparr>ps_adapter_id = i, ps_adapter_kind = kind, ps_resource_id = res, ps_schema_version = v,
         ps_config = config, ps_enabled = as_enabled r\<rparr>)))"

definition list_adapter_states :: "json_codec \<Rightarrow> db \<Rightarrow> persisted_state list res" where
  "list_adapter_states codec db =
     collect_res (map (decode_adapter_state codec) (list_adapter_state_records db))"

text \<open>The migrations the installed adapters offer, by kind and identifier; absent adapters offer none.\<close>

record migrations =
  mg_protocol :: "string \<Rightarrow> (u32 \<Rightarrow> json \<Rightarrow> (u32 \<times> json) res) option"
  mg_core :: "string \<Rightarrow> (u32 \<Rightarrow> json \<Rightarrow> (u32 \<times> json) res) option"

definition res_option :: "'a res \<Rightarrow> 'a option" where
  "res_option r = (case r of Inl _ \<Rightarrow> None | Inr x \<Rightarrow> Some x)"

definition state_migration ::
  "migrations \<Rightarrow> string \<Rightarrow> string \<Rightarrow> u32 \<Rightarrow> json \<Rightarrow> (u32 \<times> json) option" where
  "state_migration m kind i from_version config =
     (if kind = ''protocol'' then Option.bind (mg_protocol m i) (\<lambda>f. res_option (f from_version config))
      else if kind = ''core'' \<or> kind = ''infrastructure''
      then Option.bind (mg_core m i) (\<lambda>f. res_option (f from_version config))
      else None)"

text \<open>One record; the label is what the function reports for a rewritten row.\<close>

definition migrate_record ::
  "json_codec \<Rightarrow> migrations \<Rightarrow> instant \<Rightarrow> (string \<times> string \<times> string) \<times> adapter_state_row
    \<Rightarrow> adapter_state_row \<times> string list" where
  "migrate_record codec m now = (\<lambda>((kind, i, res), r).
     case u32_of (as_schema_version r) of None \<Rightarrow> (r, [])
     | Some from_version \<Rightarrow> (case jc_read codec (as_config r) of Inl _ \<Rightarrow> (r, [])
       | Inr config \<Rightarrow> (case state_migration m kind i from_version config of None \<Rightarrow> (r, [])
         | Some (v, config) \<Rightarrow>
             if v \<noteq> from_version \<or> jc_write codec config \<noteq> as_config r
             then (r\<lparr>as_schema_version := uint v, as_config := jc_write codec config, as_updated := now\<rparr>,
               [kind @ '':'' @ i @ '':'' @ res])
             else (r, []))))"

definition migrate_available_adapter_states ::
  "json_codec \<Rightarrow> migrations \<Rightarrow> instant \<Rightarrow> db \<Rightarrow> string list \<times> db" where
  "migrate_available_adapter_states codec m now db =
     (concat (map (snd \<circ> migrate_record codec m now) (list_adapter_state_records db)),
      db\<lparr>db_adapter_state := map (\<lambda>(k, r). (k, fst (migrate_record codec m now (k, r)))) (db_adapter_state db)\<rparr>)"

subsection \<open>Telemetry history\<close>

definition TELEMETRY_HISTORY_LIMIT :: nat where
  "TELEMETRY_HISTORY_LIMIT = 4096"

text \<open>\<open>DELETE ... WHERE id NOT IN (SELECT id ... ORDER BY id DESC LIMIT ?)\<close>\<close>

definition prune_samples :: "nat \<Rightarrow> telemetry_row list \<Rightarrow> telemetry_row list" where
  "prune_samples limit rows =
     (let keep = map tm_id (take limit (rev (sort_key tm_id rows))) in filter (\<lambda>r. tm_id r \<in> set keep) rows)"

definition record_runtime_telemetry ::
  "(telemetry_observation \<Rightarrow> string res) \<Rightarrow> telemetry_observation \<Rightarrow> int option \<Rightarrow> unit tx" where
  "record_runtime_telemetry encode ob user_id db =
     (if \<not> valid_adapter_id (to_runtime_id ob) then Err ''invalid telemetry runtime ID''
      else and_then (encode ob) (\<lambda>encoded.
        if 16 * 1024 < length encoded then Err ''telemetry observation exceeds 16 KiB''
        else if user_id \<noteq> None \<and> the user_id \<notin> us_id ` set (db_users db)
        then Err ''FOREIGN KEY constraint failed''
        else
          let i = db_telemetry_seq db + 1;
              rows = db_telemetry db @ [\<lparr>tm_id = i, tm_runtime = to_runtime_id ob, tm_user = user_id,
                tm_observed = to_observed_at ob, tm_json = encoded\<rparr>];
              latest = (case user_id of
                  Some _ \<Rightarrow> db_telemetry_latest db
                | None \<Rightarrow> (case bt_get (db_telemetry_latest db) (to_runtime_id ob) of
                    None \<Rightarrow> bt_insert (to_runtime_id ob) (to_observed_at ob, encoded) (db_telemetry_latest db)
                  | Some (seen, _) \<Rightarrow>
                      if seen \<le> to_observed_at ob
                      then bt_insert (to_runtime_id ob) (to_observed_at ob, encoded) (db_telemetry_latest db)
                      else db_telemetry_latest db)) in
          Ok ((), db\<lparr>db_telemetry_seq := i, db_telemetry := prune_samples TELEMETRY_HISTORY_LIMIT rows,
            db_telemetry_latest := latest\<rparr>)))"

definition list_latest_runtime_telemetry ::
  "(string \<Rightarrow> telemetry_observation res) \<Rightarrow> db \<Rightarrow> telemetry_observation list res" where
  "list_latest_runtime_telemetry decode db =
     collect_res (map (\<lambda>(_, _, json). decode json) (db_telemetry_latest db))"

definition list_user_runtime_telemetry ::
  "(string \<Rightarrow> telemetry_observation res) \<Rightarrow> int \<Rightarrow> u32 \<Rightarrow> db \<Rightarrow> (telemetry_row \<times> telemetry_observation) list res" where
  "list_user_runtime_telemetry decode user_id limit db =
     collect_res (map (\<lambda>r. and_then (decode (tm_json r)) (\<lambda>ob. Ok (r, ob)))
       (take (max 1 (min 200 (unat limit)))
         (rev (sort_key (\<lambda>r. (tm_observed r, tm_id r))
           (filter (\<lambda>r. tm_user r = Some user_id) (db_telemetry db))))))"

end
