(* ===== verification/Store_Admins_Inv.thy ===== *)
theory Store_Admins_Inv
  imports Store_Admins
begin

text \<open>
  What holds of the administrator and session tables: a step relation over every operation that
  writes them, the invariant it keeps, and the owner that never changes once the first administrator
  was created.
\<close>

definition admin_tables :: "db \<Rightarrow> admin_record list \<times> int \<times> session_record list \<times> int" where
  "admin_tables db = (db_admins db, db_admin_seq db, db_sessions db, db_session_seq db)"

text \<open>Operations on other tables are the last rule.\<close>

inductive admin_step :: "db \<Rightarrow> db \<Rightarrow> bool" where
  first_admin: "create_first_admin_inner username h event now db = Inr (a, db') \<Longrightarrow> admin_step db db'"
| another_admin: "create_admin username h now db = Inr (a, db') \<Longrightarrow> admin_step db db'"
| log_in: "create_admin_session i t expires now db = Inr (x, db') \<Longrightarrow> admin_step db db'"
| touch: "admin_step db (touch_admin_session t now db)"
| log_out: "admin_step db (delete_admin_session t db)"
| rotate_password: "update_admin_password_inner i h event now db = Inr (x, db') \<Longrightarrow> admin_step db db'"
| expire: "admin_step db (delete_expired_admin_sessions now db)"
| elsewhere: "admin_tables db' = admin_tables db \<Longrightarrow> admin_step db db'"

definition admins_ok :: "admin_record list \<Rightarrow> int \<Rightarrow> bool" where
  "admins_ok as seq \<longleftrightarrow> distinct (map ad_username as) \<and> sorted_wrt (<) (map ad_id as)
     \<and> (\<forall>a \<in> set as. ad_id a \<le> seq)"

definition sessions_ok :: "int set \<Rightarrow> session_record list \<Rightarrow> bool" where
  "sessions_ok ids ss \<longleftrightarrow> distinct (map se_token_hash ss) \<and> (\<forall>s \<in> set ss. se_admin_id s \<in> ids)"

definition admins_inv :: "db \<Rightarrow> bool" where
  "admins_inv db \<longleftrightarrow> admins_ok (db_admins db) (db_admin_seq db)
     \<and> sessions_ok (ad_id ` set (db_admins db)) (db_sessions db)"

lemma admins_inv_tables: "admin_tables db' = admin_tables db \<Longrightarrow> admins_inv db' = admins_inv db"
  by (simp add: admin_tables_def admins_inv_def)

lemma audit_opt_admin_tables:
  assumes "audit_opt event now db = Inr (x, db')"
  shows "admin_tables db' = admin_tables db"
  using audit_ext_keeps [OF audit_opt_ext [OF assms]] audit_opt_ext [OF assms]
  by (auto simp: admin_tables_def audit_ext_def)

subsection \<open>What each operation does to the tables\<close>

lemma insert_admin_Inr:
  assumes "insert_admin username h now db = Inr db'"
  shows "\<exists>a. ad_id a = db_admin_seq db + 1 \<and> ad_username a \<notin> ad_username ` set (db_admins db)
    \<and> admin_tables db' = (db_admins db @ [a], db_admin_seq db + 1, db_sessions db, db_session_seq db)"
  using assms by (auto simp: insert_admin_def admin_tables_def Let_def split: if_splits)

lemma admins_ok_insert:
  assumes "admins_ok as seq" and "ad_id a = seq + 1" and "ad_username a \<notin> ad_username ` set as"
  shows "admins_ok (as @ [a]) (seq + 1)"
  using assms by (fastforce simp: admins_ok_def sorted_wrt_append)

lemma sessions_ok_filter: "sessions_ok ids ss \<Longrightarrow> sessions_ok ids (filter P ss)"
  by (auto simp: sessions_ok_def distinct_map_filter)

lemma sessions_ok_mono: "sessions_ok ids ss \<Longrightarrow> ids \<subseteq> ids' \<Longrightarrow> sessions_ok ids' ss"
  by (auto simp: sessions_ok_def)

text \<open>The shapes a step can have on the tables.\<close>

lemma admin_step_shape:
  assumes "admin_step db db'"
  shows "(\<exists>a. ad_id a = db_admin_seq db + 1 \<and> ad_username a \<notin> ad_username ` set (db_admins db)
        \<and> admin_tables db' = (db_admins db @ [a], db_admin_seq db + 1, db_sessions db, db_session_seq db))
    \<or> (\<exists>f. map ad_id (map f (db_admins db)) = map ad_id (db_admins db)
        \<and> map ad_username (map f (db_admins db)) = map ad_username (db_admins db)
        \<and> db_admins db' = map f (db_admins db) \<and> db_admin_seq db' = db_admin_seq db
        \<and> ((\<exists>P. db_sessions db' = filter P (db_sessions db))
          \<or> (\<exists>g. db_sessions db' = map g (db_sessions db) \<and> (\<forall>s. se_token_hash (g s) = se_token_hash s
              \<and> se_admin_id (g s) = se_admin_id s))
          \<or> (\<exists>s. db_sessions db' = db_sessions db @ [s] \<and> se_admin_id s \<in> ad_id ` set (db_admins db)
              \<and> se_token_hash s \<notin> se_token_hash ` set (db_sessions db))))"
    (is "?new \<or> (\<exists>f. ?same f)")
  using assms
proof cases
  case (first_admin username h event now a)
  then obtain db1 ev b where ins: "insert_admin (trim username) h now db = Inr db1"
    and aud: "audit_opt ev now db1 = Inr (b, db')"
    by (auto simp: create_first_admin_inner_def Let_def and_then_Inr_iff split: if_split_asm)
  show ?thesis
    using insert_admin_Inr [OF ins] unfolding audit_opt_admin_tables [OF aud, symmetric] by blast
next
  case (another_admin username h now a)
  then have "insert_admin (trim username) h now db = Inr db'"
    by (auto simp: create_admin_def Let_def and_then_Inr_iff)
  from insert_admin_Inr [OF this] show ?thesis by blast
next
  case (log_in i t expires now x)
  then have "?same id"
    by (auto simp: create_admin_session_def Let_def split: if_splits)
  then show ?thesis by blast
next
  case (touch t now)
  let ?g = "\<lambda>s. if se_token_hash s = t then s\<lparr>se_last_seen := now\<rparr> else s"
  have "db_sessions db' = map ?g (db_sessions db)"
    "\<forall>s. se_token_hash (?g s) = se_token_hash s \<and> se_admin_id (?g s) = se_admin_id s"
    and same: "db_admins db' = map id (db_admins db)" "db_admin_seq db' = db_admin_seq db"
    using touch by (simp_all add: touch_admin_session_def)
  then have "\<exists>g. db_sessions db' = map g (db_sessions db) \<and> (\<forall>s. se_token_hash (g s) = se_token_hash s
      \<and> se_admin_id (g s) = se_admin_id s)" by (intro exI [of _ ?g] conjI)
  moreover have "map ad_id (map id (db_admins db)) = map ad_id (db_admins db)"
    "map ad_username (map id (db_admins db)) = map ad_username (db_admins db)" by simp_all
  ultimately show ?thesis using same by blast
next
  case (log_out t)
  then have "?same id" by (auto simp: delete_admin_session_def)
  then show ?thesis by blast
next
  case (rotate_password i h event now x)
  let ?f = "\<lambda>a. if ad_id a = i then a\<lparr>ad_password_hash := h, ad_updated := now\<rparr> else a"
  let ?db = "db\<lparr>db_admins := map ?f (db_admins db), db_sessions := filter (\<lambda>s. se_admin_id s \<noteq> i) (db_sessions db)\<rparr>"
  have aud: "audit_opt event now ?db = Inr (x, db')"
    using rotate_password by (simp add: update_admin_password_inner_def split: if_split_asm)
  have "?same ?f"
    using audit_opt_admin_tables [OF aud] by (auto simp: admin_tables_def)
  then show ?thesis by blast
next
  case (expire now)
  then have "?same id" by (auto simp: delete_expired_admin_sessions_def)
  then show ?thesis by blast
next
  case elsewhere
  then have "?same id" by (auto simp: admin_tables_def intro!: exI [of _ "\<lambda>_. True"])
  then show ?thesis by blast
qed

lemma admins_ok_relabel:
  "admins_ok as seq \<Longrightarrow> map ad_id bs = map ad_id as \<Longrightarrow> map ad_username bs = map ad_username as \<Longrightarrow> admins_ok bs seq"
  unfolding admins_ok_def by (metis (no_types, lifting) imageE image_eqI list.set_map)

lemma admin_step_inv:
  assumes "admin_step db db'" and "admins_inv db"
  shows "admins_inv db'"
  using admin_step_shape [OF assms(1)]
proof (elim disjE exE conjE)
  fix a assume "ad_id a = db_admin_seq db + 1" "ad_username a \<notin> ad_username ` set (db_admins db)"
    and "admin_tables db' = (db_admins db @ [a], db_admin_seq db + 1, db_sessions db, db_session_seq db)"
  then show ?thesis
    using assms(2) admins_ok_insert by (auto simp: admins_inv_def admin_tables_def intro: sessions_ok_mono)
next
  fix f P assume f: "map ad_id (map f (db_admins db)) = map ad_id (db_admins db)"
    "map ad_username (map f (db_admins db)) = map ad_username (db_admins db)"
    "db_admins db' = map f (db_admins db)" "db_admin_seq db' = db_admin_seq db"
    and s: "db_sessions db' = filter P (db_sessions db)"
  have "ad_id ` set (db_admins db') = ad_id ` set (db_admins db)" using f(1,3) by (metis list.set_map)
  then show ?thesis
    using assms(2) admins_ok_relabel [OF _ f(1,2)] f(3,4) s sessions_ok_filter by (auto simp: admins_inv_def)
next
  fix f g assume f: "map ad_id (map f (db_admins db)) = map ad_id (db_admins db)"
    "map ad_username (map f (db_admins db)) = map ad_username (db_admins db)"
    "db_admins db' = map f (db_admins db)" "db_admin_seq db' = db_admin_seq db"
    and s: "db_sessions db' = map g (db_sessions db)"
      "\<forall>s. se_token_hash (g s) = se_token_hash s \<and> se_admin_id (g s) = se_admin_id s"
  have "ad_id ` set (db_admins db') = ad_id ` set (db_admins db)" using f(1,3) by (metis list.set_map)
  moreover have "map se_token_hash (db_sessions db') = map se_token_hash (db_sessions db)"
    "\<forall>s \<in> set (db_sessions db'). \<exists>r \<in> set (db_sessions db). se_admin_id s = se_admin_id r" using s by auto
  ultimately have "sessions_ok (ad_id ` set (db_admins db')) (db_sessions db')"
    using assms(2) unfolding admins_inv_def sessions_ok_def by metis
  then show ?thesis
    using assms(2) admins_ok_relabel [OF _ f(1,2)] f(3,4) by (simp add: admins_inv_def)
next
  fix f s assume f: "map ad_id (map f (db_admins db)) = map ad_id (db_admins db)"
    "map ad_username (map f (db_admins db)) = map ad_username (db_admins db)"
    "db_admins db' = map f (db_admins db)" "db_admin_seq db' = db_admin_seq db"
    and s: "db_sessions db' = db_sessions db @ [s]" "se_admin_id s \<in> ad_id ` set (db_admins db)"
      "se_token_hash s \<notin> se_token_hash ` set (db_sessions db)"
  have "ad_id ` set (db_admins db') = ad_id ` set (db_admins db)" using f(1,3) by (metis list.set_map)
  then show ?thesis
    using assms(2) admins_ok_relabel [OF _ f(1,2)] f(3,4) s by (auto simp: admins_inv_def sessions_ok_def)
qed

lemma admin_steps_inv: "admin_step\<^sup>*\<^sup>* db db' \<Longrightarrow> admins_inv db \<Longrightarrow> admins_inv db'"
  by (induction rule: rtranclp_induct) (auto intro: admin_step_inv)

lemma empty_admins_inv: "admins_inv (empty_db now)"
  by (simp add: admins_inv_def admins_ok_def sessions_ok_def empty_db_def)

subsection \<open>The owner\<close>

lemma fold_min_head: "\<forall>b \<in> set as. m \<le> ad_id b \<Longrightarrow> fold (\<lambda>b m. min (ad_id b) m) as m = m"
  by (induction as) auto

lemma owner_is_head:
  assumes "admins_inv db"
  shows "is_owner_admin_id i db \<longleftrightarrow> (\<exists>a as. db_admins db = a # as \<and> ad_id a = i)"
  using assms fold_min_head [of "tl (db_admins db)" "ad_id (hd (db_admins db))"]
  by (cases "db_admins db")
    (fastforce simp: is_owner_admin_id_def min_admin_id_def admins_inv_def admins_ok_def)+

lemma admin_step_owner:
  assumes "admin_step db db'" and "admins_inv db" and "is_owner_admin_id i db"
  shows "is_owner_admin_id i db'"
proof -
  from assms(3) obtain a as where a: "db_admins db = a # as" "ad_id a = i" unfolding owner_is_head [OF assms(2)] by blast
  have "\<exists>b bs. db_admins db' = b # bs \<and> ad_id b = i"
    using admin_step_shape [OF assms(1)] a by (auto simp: admin_tables_def)
  then show ?thesis unfolding owner_is_head [OF admin_step_inv [OF assms(1,2)]] .
qed

lemma admin_steps_owner:
  "admin_step\<^sup>*\<^sup>* db db' \<Longrightarrow> admins_inv db \<Longrightarrow> is_owner_admin_id i db \<Longrightarrow> is_owner_admin_id i db'"
  by (induction rule: rtranclp_induct) (auto intro: admin_step_owner admin_steps_inv)

subsection \<open>Sessions by token\<close>

lemma find_unique:
  assumes "distinct (map f xs)"
  shows "List.find (\<lambda>x. f x = k \<and> P x) xs = Some x \<longleftrightarrow> x \<in> set xs \<and> f x = k \<and> P x"
  using assms by (induction xs) auto

lemma valid_session_iff:
  assumes "sessions_ok ids (db_sessions db)"
  shows "get_valid_admin_session t now db = Some s \<longleftrightarrow> s \<in> set (db_sessions db) \<and> se_token_hash s = t \<and> now < se_expires s"
  using assms unfolding get_valid_admin_session_def sessions_ok_def by (simp add: find_unique)

lemma find_admin_map:
  assumes "\<And>a. ad_id (f a) = ad_id a"
  shows "List.find (\<lambda>a. ad_id a = i) (map f as) = map_option f (List.find (\<lambda>a. ad_id a = i) as)"
  using assms by (induction as) auto

end
