(* ===== verification/Store_Policy.thy ===== *)
theory Store_Policy
  imports Storage_Base Store_Admins
begin

text \<open>
  The client policy of \<open>storage.rs\<close>: transport pools with their members, ordered routing rules and
  the DNS policy. A policy is loaded from its rows, edited and validated as a whole, and saved by
  replacing all rows in one transaction that also raises the desired generation.
\<close>

definition parse_pool_kind :: "string \<Rightarrow> pool_kind res" where
  "parse_pool_kind v =
     (if v = ''select'' then Ok PkSelect else if v = ''url-test'' then Ok PkUrlTest
      else if v = ''fallback'' then Ok PkFallback else if v = ''load-balance'' then Ok PkLoadBalance
      else Err ''invalid transport pool kind'')"

definition encode_pool_member :: "pool_member \<Rightarrow> string \<times> string option" where
  "encode_pool_member m = (case m of
       MProfile v \<Rightarrow> (''profile'', Some v)
     | MCapability v \<Rightarrow> (''capability'', Some v)
     | MRole r \<Rightarrow> (''role'', Some (role_name r))
     | MAllExceptRole r \<Rightarrow> (''all-except-role'', Some (role_name r))
     | MPool v \<Rightarrow> (''pool'', Some v)
     | MAllProfiles \<Rightarrow> (''all-profiles'', None)
     | MDirect \<Rightarrow> (''direct'', None)
     | MReject \<Rightarrow> (''reject'', None))"

definition decode_pool_member :: "string \<Rightarrow> string option \<Rightarrow> pool_member res" where
  "decode_pool_member kind v =
     (if kind = ''profile'' then and_then (ok_or ''profile member has no value'' v) (\<lambda>v. Ok (MProfile v))
      else if kind = ''capability''
      then and_then (ok_or ''capability member has no value'' v) (\<lambda>v. Ok (MCapability v))
      else if kind = ''role''
      then and_then (ok_or ''role member has no value'' v) (\<lambda>v. and_then (parse_role v) (\<lambda>r. Ok (MRole r)))
      else if kind = ''all-except-role''
      then and_then (ok_or ''excluded role member has no value'' v)
        (\<lambda>v. and_then (parse_role v) (\<lambda>r. Ok (MAllExceptRole r)))
      else if kind = ''pool'' then and_then (ok_or ''pool member has no value'' v) (\<lambda>v. Ok (MPool v))
      else if kind = ''all-profiles'' then Ok MAllProfiles
      else if kind = ''direct'' then Ok MDirect
      else if kind = ''reject'' then Ok MReject
      else Err ''invalid transport pool member kind'')"

definition optional_u32 :: "int option \<Rightarrow> u32 option res" where
  "optional_u32 x = (case x of None \<Rightarrow> Ok None
     | Some i \<Rightarrow> and_then (ok_or ''out of range integral type conversion attempted'' (u32_of i)) (\<lambda>w. Ok (Some w)))"

subsection \<open>Loading\<close>

definition pool_members :: "string \<Rightarrow> db \<Rightarrow> pool_member list res" where
  "pool_members i db = collect_res (map (\<lambda>m. decode_pool_member (mw_kind m) (mw_value m))
     (sort_key mw_position (filter (\<lambda>m. mw_pool m = i) (db_members db))))"

definition decode_pool :: "db \<Rightarrow> pool_row \<Rightarrow> transport_pool res" where
  "decode_pool db r =
     and_then (pool_members (pw_id r) db) (\<lambda>members.
     and_then (parse_pool_kind (pw_kind r)) (\<lambda>kind.
     and_then (optional_u32 (pw_interval r)) (\<lambda>interval.
     and_then (optional_u32 (pw_timeout r)) (\<lambda>timeout.
     and_then (optional_u32 (pw_tolerance r)) (\<lambda>tolerance.
     and_then (optional_u32 (pw_max_failures r)) (\<lambda>max_failures.
     and_then (optional_u32 (pw_minimum_healthy r)) (\<lambda>minimum_healthy.
       Ok \<lparr>tp_id = pw_id r, tp_display_name = pw_display_name r, tp_kind = kind, tp_enabled = pw_enabled r,
         tp_members = members, tp_test_url = pw_test_url r, tp_interval_seconds = interval,
         tp_timeout_ms = timeout, tp_tolerance_ms = tolerance, tp_max_failures = max_failures,
         tp_lazy = pw_lazy r, tp_minimum_healthy_count = minimum_healthy, tp_fallback_pool = pw_fallback r,
         tp_priority = pw_priority r, tp_strategy = pw_strategy r\<rparr>)))))))"

definition load_client_policy :: "db \<Rightarrow> client_policy res" where
  "load_client_policy db =
     and_then (collect_res (map (decode_pool db)
         (sort_key (\<lambda>r. (pw_priority r, pw_position r, pw_id r)) (db_pools db)))) (\<lambda>pools.
       Ok \<lparr>cp_pools = pools, cp_rules = sort_key (\<lambda>r. (rr_priority r, rr_id r)) (db_policy_rules db)\<rparr>)"

subsection \<open>Saving\<close>

definition pool_row_of :: "nat \<Rightarrow> transport_pool \<Rightarrow> pool_row" where
  "pool_row_of position p =
     \<lparr>pw_id = tp_id p, pw_display_name = tp_display_name p, pw_kind = pool_kind_name (tp_kind p),
      pw_enabled = tp_enabled p, pw_test_url = tp_test_url p,
      pw_interval = map_option uint (tp_interval_seconds p), pw_timeout = map_option uint (tp_timeout_ms p),
      pw_tolerance = map_option uint (tp_tolerance_ms p),
      pw_max_failures = map_option uint (tp_max_failures p), pw_lazy = tp_lazy p,
      pw_minimum_healthy = map_option uint (tp_minimum_healthy_count p),
      pw_fallback = tp_fallback_pool p, pw_priority = tp_priority p, pw_strategy = tp_strategy p,
      pw_position = int position\<rparr>"

definition member_row_of :: "string \<Rightarrow> nat \<Rightarrow> pool_member \<Rightarrow> member_row" where
  "member_row_of i position m = (case encode_pool_member m of (kind, v) \<Rightarrow>
     \<lparr>mw_pool = i, mw_position = int position, mw_kind = kind, mw_value = v\<rparr>)"

definition pool_rows :: "transport_pool list \<Rightarrow> pool_row list" where
  "pool_rows pools = map (\<lambda>(k, p). pool_row_of k p) (enumerate 0 pools)"

definition member_rows :: "transport_pool \<Rightarrow> member_row list" where
  "member_rows p = map (\<lambda>(k, m). member_row_of (tp_id p) k m) (enumerate 0 (tp_members p))"

text \<open>All rows are replaced; a repeated identifier breaks the primary key.\<close>

definition save_client_policy ::
  "client_policy \<Rightarrow> (string \<times> string) option \<Rightarrow> audit_event option \<Rightarrow> uuid \<Rightarrow> instant \<Rightarrow> unit tx" where
  "save_client_policy policy renamed_pool event op now db =
     (if \<not> distinct (map tp_id (cp_pools policy)) \<or> \<not> distinct (map rr_id (cp_rules policy))
      then Err ''UNIQUE constraint failed''
      else
        let db = db\<lparr>db_pools := pool_rows (cp_pools policy),
              db_members := concat (map member_rows (cp_pools policy)),
              db_policy_rules := cp_rules policy\<rparr>;
            db = (case renamed_pool of None \<Rightarrow> db
              | Some (old, new) \<Rightarrow> db\<lparr>db_rule_sets := map (\<lambda>(k, s). (k,
                  if rs_target s = old then s\<lparr>rs_target := new\<rparr> else s)) (db_rule_sets db)\<rparr>) in
        and_then (bump_desired_generation op now db) (\<lambda>(_, db). audit_opt event now db))"

subsection \<open>Edits\<close>

definition replace_member :: "string \<Rightarrow> string \<Rightarrow> pool_member \<Rightarrow> pool_member" where
  "replace_member old new m = (if m = MPool old then MPool new else m)"

definition replace_pool_references :: "string \<Rightarrow> string \<Rightarrow> client_policy \<Rightarrow> client_policy" where
  "replace_pool_references old new p =
     \<lparr>cp_pools = map (\<lambda>q. q\<lparr>tp_members := map (replace_member old new) (tp_members q),
         tp_fallback_pool := (if tp_fallback_pool q = Some old then Some new else tp_fallback_pool q)\<rparr>) (cp_pools p),
      cp_rules = map (\<lambda>r. if rr_target r = old then r\<lparr>rr_target := new\<rparr> else r) (cp_rules p)\<rparr>"

text \<open>\<open>position\<close> of the first element with an identifier.\<close>

fun index_of :: "('a \<Rightarrow> bool) \<Rightarrow> 'a list \<Rightarrow> nat option" where
  "index_of P [] = None"
| "index_of P (x # xs) = (if P x then Some 0 else map_option Suc (index_of P xs))"

definition given_id :: "string option \<Rightarrow> string option" where
  "given_id i = (if i = Some [] then None else i)"

definition edit_pool ::
  "string option \<Rightarrow> transport_pool \<Rightarrow> client_policy \<Rightarrow> (client_policy \<times> (string \<times> string) option) res" where
  "edit_pool original_id v policy = (case given_id original_id of
       Some old \<Rightarrow> (case index_of (\<lambda>p. tp_id p = old) (cp_pools policy) of
           None \<Rightarrow> Err ''unknown transport pool''
         | Some k \<Rightarrow>
             if old \<noteq> tp_id v \<and> tp_id v \<in> tp_id ` set (cp_pools policy)
             then Err ''transport pool ID already exists''
             else
               let policy = replace_pool_references old (tp_id v) policy in
               Ok (policy\<lparr>cp_pools := (cp_pools policy)[k := v]\<rparr>,
                   if old \<noteq> tp_id v then Some (old, tp_id v) else None))
     | None \<Rightarrow>
         if tp_id v \<in> tp_id ` set (cp_pools policy) then Err ''transport pool ID already exists''
         else Ok (policy\<lparr>cp_pools := cp_pools policy @ [v]\<rparr>, None))"

definition upsert_transport_pool_inner ::
  "string option \<Rightarrow> transport_pool \<Rightarrow> protocol_profile list \<Rightarrow> audit_event option \<Rightarrow> uuid \<Rightarrow> instant \<Rightarrow> unit tx" where
  "upsert_transport_pool_inner original_id v profiles event op now db =
     and_then (load_client_policy db) (\<lambda>policy.
     and_then (edit_pool original_id v policy) (\<lambda>(policy, renamed).
     and_then (client_policy_validate policy profiles) (\<lambda>_.
       save_client_policy policy renamed event op now db)))"

definition refers_to_pool :: "string \<Rightarrow> transport_pool \<Rightarrow> bool" where
  "refers_to_pool i p \<longleftrightarrow> tp_fallback_pool p = Some i \<or> MPool i \<in> set (tp_members p)"

definition rule_set_references :: "string \<Rightarrow> db \<Rightarrow> nat" where
  "rule_set_references i db = length (filter (\<lambda>(_, s). rs_target s = i) (db_rule_sets db))"

text \<open>The policy without the pool, with every reference to it moved to the replacement.\<close>

definition remove_pool ::
  "string \<Rightarrow> string option \<Rightarrow> nat \<Rightarrow> client_policy \<Rightarrow> (client_policy \<times> (string \<times> string) option) res" where
  "remove_pool i replacement set_references policy =
     (if i \<notin> tp_id ` set (cp_pools policy) then Err ''unknown transport pool''
      else
        let referenced = (list_ex (refers_to_pool i) (cp_pools policy)
              \<or> list_ex (\<lambda>r. rr_target r = i) (cp_rules policy) \<or> 0 < set_references);
            drop = (\<lambda>p. p\<lparr>cp_pools := filter (\<lambda>q. tp_id q \<noteq> i) (cp_pools p)\<rparr>) in
        if \<not> referenced then Ok (drop policy, None)
        else (case replacement of
            None \<Rightarrow> Err ''transport pool is referenced; choose a replacement''
          | Some new \<Rightarrow>
              if new = [] \<or> new = i then Err ''transport pool is referenced; choose a replacement''
              else if new \<notin> tp_id ` set (cp_pools policy)
              then Err ''replacement transport pool does not exist''
              else Ok (drop (replace_pool_references i new policy), Some (i, new))))"

definition delete_transport_pool_inner ::
  "string \<Rightarrow> string option \<Rightarrow> protocol_profile list \<Rightarrow> audit_event option \<Rightarrow> uuid \<Rightarrow> instant \<Rightarrow> unit tx" where
  "delete_transport_pool_inner i replacement profiles event op now db =
     and_then (load_client_policy db) (\<lambda>policy.
     and_then (remove_pool i replacement (rule_set_references i db) policy) (\<lambda>(policy, renamed).
     and_then (client_policy_validate policy profiles) (\<lambda>_.
       save_client_policy policy renamed event op now db)))"

definition edit_rule ::
  "string option \<Rightarrow> routing_policy_rule \<Rightarrow> client_policy \<Rightarrow> client_policy res" where
  "edit_rule original_id v policy = (case given_id original_id of
       Some old \<Rightarrow> (case index_of (\<lambda>r. rr_id r = old) (cp_rules policy) of
           None \<Rightarrow> Err ''unknown routing policy''
         | Some k \<Rightarrow>
             if old \<noteq> rr_id v \<and> rr_id v \<in> rr_id ` set (cp_rules policy)
             then Err ''routing policy ID already exists''
             else Ok (policy\<lparr>cp_rules := (cp_rules policy)[k := v]\<rparr>))
     | None \<Rightarrow>
         if rr_id v \<in> rr_id ` set (cp_rules policy) then Err ''routing policy ID already exists''
         else Ok (policy\<lparr>cp_rules := cp_rules policy @ [v]\<rparr>))"

definition upsert_routing_policy_inner ::
  "string option \<Rightarrow> routing_policy_rule \<Rightarrow> protocol_profile list \<Rightarrow> audit_event option \<Rightarrow> uuid \<Rightarrow> instant \<Rightarrow> unit tx" where
  "upsert_routing_policy_inner original_id v profiles event op now db =
     and_then (load_client_policy db) (\<lambda>policy.
     and_then (edit_rule original_id v policy) (\<lambda>policy.
     and_then (client_policy_validate policy profiles) (\<lambda>_.
       save_client_policy policy None event op now db)))"

definition delete_routing_policy_inner :: "string \<Rightarrow> audit_event option \<Rightarrow> uuid \<Rightarrow> instant \<Rightarrow> unit tx" where
  "delete_routing_policy_inner i event op now db =
     and_then (load_client_policy db) (\<lambda>policy.
       let rules = filter (\<lambda>r. rr_id r \<noteq> i) (cp_rules policy) in
       if length rules = length (cp_rules policy) then Err ''unknown routing policy''
       else save_client_policy (policy\<lparr>cp_rules := rules\<rparr>) None event op now db)"

subsection \<open>DNS policy\<close>

definition ensure_default_dns_policy :: "db \<Rightarrow> db" where
  "ensure_default_dns_policy db = (case db_dns db of None \<Rightarrow> db\<lparr>db_dns := Some default_dns_policy\<rparr> | Some _ \<Rightarrow> db)"

definition load_dns_policy :: "db \<Rightarrow> dns_policy res" where
  "load_dns_policy db = (case db_dns db of None \<Rightarrow> Err ''row not found''
     | Some p \<Rightarrow> and_then (dns_policy_validate p) (\<lambda>_. Ok p))"

definition update_dns_policy_inner :: "dns_policy \<Rightarrow> audit_event option \<Rightarrow> instant \<Rightarrow> unit tx" where
  "update_dns_policy_inner p event now db =
     and_then (dns_policy_validate p) (\<lambda>_.
       case db_dns db of None \<Rightarrow> Err ''DNS policy is not initialized''
       | Some _ \<Rightarrow> audit_opt event now (db\<lparr>db_dns := Some p\<rparr>))"

subsection \<open>Bootstrap\<close>

text \<open>\<open>ON CONFLICT DO NOTHING\<close> row by row; members conflict on (pool, position).\<close>

definition insert_missing :: "('a \<Rightarrow> 'k) \<Rightarrow> 'a list \<Rightarrow> 'a list \<Rightarrow> 'a list" where
  "insert_missing key rows old = fold (\<lambda>r acc. if key r \<in> key ` set acc then acc else acc @ [r]) rows old"

definition ensure_default_client_policy :: "db \<Rightarrow> db" where
  "ensure_default_client_policy db =
     db\<lparr>db_pools := insert_missing pw_id (pool_rows (cp_pools default_client_policy)) (db_pools db),
       db_members := insert_missing (\<lambda>m. (mw_pool m, mw_position m))
         (concat (map member_rows (cp_pools default_client_policy))) (db_members db),
       db_policy_rules := insert_missing rr_id (cp_rules default_client_policy) (db_policy_rules db)\<rparr>"

text \<open>Everything that names a retired pool goes to \<open>SMART-AUTO\<close>.\<close>

definition retarget_pool :: "string \<Rightarrow> db \<Rightarrow> db" where
  "retarget_pool legacy db =
     db\<lparr>db_members := map (\<lambda>m. if mw_kind m = ''pool'' \<and> mw_value m = Some legacy
          then m\<lparr>mw_value := Some ''SMART-AUTO''\<rparr> else m) (db_members db),
       db_pools := map (\<lambda>r. if pw_fallback r = Some legacy
          then r\<lparr>pw_fallback := Some ''SMART-AUTO''\<rparr> else r) (db_pools db),
       db_policy_rules := map (\<lambda>r. if rr_target r = legacy
          then r\<lparr>rr_target := ''SMART-AUTO''\<rparr> else r) (db_policy_rules db),
       db_rule_sets := map (\<lambda>(k, s). (k, if rs_target s = legacy
          then s\<lparr>rs_target := ''SMART-AUTO''\<rparr> else s)) (db_rule_sets db)\<rparr>"

definition remove_pool_rows :: "string list \<Rightarrow> db \<Rightarrow> db" where
  "remove_pool_rows ids db =
     db\<lparr>db_members := filter (\<lambda>m. mw_pool m \<notin> set ids) (db_members db),
       db_pools := filter (\<lambda>r. pw_id r \<notin> set ids) (db_pools db)\<rparr>"

definition LEGACY_POOLS :: "string list" where
  "LEGACY_POOLS = [''STEALTH-TCP'', ''HTTPS-LIKE'', ''FAST-UDP'', ''AUTO-SAFE'', ''FAILOVER'',
     ''BALANCE'', ''SPEED'', ''RU-ACCESS'']"

definition REPLACED_POOLS :: "string list" where
  "REPLACED_POOLS = LEGACY_POOLS @ [''FAST-AUTO'', ''REST-AUTO'', ''SMART-AUTO'', ''MANUAL'']"

definition LEGACY_RULES :: "string list" where
  "LEGACY_RULES = [''geoip-ru'', ''private-10'', ''private-172'', ''private-192'', ''catch-all'']"

text \<open>A one-time upgrade runs at most once; its key is written in the same transaction.\<close>

definition upgrade_once :: "string \<Rightarrow> (db \<Rightarrow> db res) \<Rightarrow> db \<Rightarrow> db res" where
  "upgrade_once key f db =
     (if key \<in> set (db_bootstrap db) then Ok db
      else and_then (f db) (\<lambda>db. Ok (db\<lparr>db_bootstrap := db_bootstrap db @ [key]\<rparr>)))"

text \<open>Plain INSERTs of the default policy after the rows with its identifiers were deleted.\<close>

definition insert_default_policy :: "db \<Rightarrow> db res" where
  "insert_default_policy db =
     (let pools = pool_rows (cp_pools default_client_policy);
          members = concat (map member_rows (cp_pools default_client_policy));
          rules = cp_rules default_client_policy in
      if \<not> distinct (map pw_id (db_pools db @ pools)) \<or> \<not> distinct (map rr_id (db_policy_rules db @ rules))
         \<or> \<not> distinct (map (\<lambda>m. (mw_pool m, mw_position m)) (db_members db @ members))
      then Err ''UNIQUE constraint failed''
      else Ok (db\<lparr>db_pools := db_pools db @ pools, db_members := db_members db @ members,
        db_policy_rules := db_policy_rules db @ rules\<rparr>))"

definition ensure_smart_auto_client_policy :: "db \<Rightarrow> db res" where
  "ensure_smart_auto_client_policy = upgrade_once ''smart-auto-client-routing-v1'' (\<lambda>db.
     let db = fold retarget_pool LEGACY_POOLS db;
         db = remove_pool_rows REPLACED_POOLS db;
         gone = LEGACY_RULES @ map rr_id (cp_rules default_client_policy);
         db = db\<lparr>db_policy_rules := filter (\<lambda>r. rr_id r \<notin> set gone) (db_policy_rules db)\<rparr> in
     insert_default_policy db)"

definition LEGACY_RULE_SETS :: "string list" where
  "LEGACY_RULE_SETS = [''banking-direct'', ''direct-local'', ''proxy-ai'', ''streaming'']"

definition routing_setting_key :: "string \<Rightarrow> string \<Rightarrow> string" where
  "routing_setting_key slug field = ''routing.ruleset.'' @ trim slug @ ''.'' @ field"

text \<open>Deleting a rule set cascades to its entries and sources.\<close>

definition drop_rule_set :: "string \<Rightarrow> db \<Rightarrow> db" where
  "drop_rule_set slug db =
     db\<lparr>db_rule_sets := bt_remove slug (db_rule_sets db),
       db_rule_entries := filter (\<lambda>(_, e). re_rule_set_id e \<noteq> slug) (db_rule_entries db),
       db_rule_sources := filter (\<lambda>(_, s). src_rule_set_id s \<noteq> slug) (db_rule_sources db)\<rparr>"

definition drop_legacy_rule_set :: "string \<Rightarrow> db \<Rightarrow> db" where
  "drop_legacy_rule_set slug db =
     (let db = drop_rule_set slug db in
      db\<lparr>db_settings := fold (\<lambda>field. bt_remove (routing_setting_key slug field))
        [''enabled'', ''target'', ''payload''] (db_settings db)\<rparr>)"

definition upsert_custom_direct :: "routing_rule_set \<Rightarrow> db \<Rightarrow> db" where
  "upsert_custom_direct c db = db\<lparr>db_rule_sets := bt_insert (rs_slug c)
     (case bt_get (db_rule_sets db) (rs_slug c) of None \<Rightarrow> c | Some s \<Rightarrow> s\<lparr>rs_target := ''DIRECT''\<rparr>)
     (db_rule_sets db)\<rparr>"

definition ensure_daily_routing_cleanup :: "db \<Rightarrow> db res" where
  "ensure_daily_routing_cleanup = upgrade_once ''daily-client-routing-v2'' (\<lambda>db.
     let db = fold (\<lambda>legacy db. remove_pool_rows [legacy] (retarget_pool legacy db)) LEGACY_POOLS db;
         db = fold drop_legacy_rule_set LEGACY_RULE_SETS db in
     case List.find (\<lambda>s. rs_slug s = CUSTOM_DIRECT_SLUG) default_routing_rule_sets of
       None \<Rightarrow> Err ''custom-direct is a built-in rule set''
     | Some c \<Rightarrow> Ok (upsert_custom_direct c db))"

definition parse_bool_setting :: "string \<Rightarrow> bool" where
  "parse_bool_setting v \<longleftrightarrow> trim v \<in> {''1'', ''true'', ''yes'', ''on''}"

text \<open>One built-in rule set, with the values of the old settings.\<close>

definition rule_set_from_settings :: "db \<Rightarrow> routing_rule_set \<Rightarrow> routing_rule_set" where
  "rule_set_from_settings db s =
     (let get = (\<lambda>field. map_option sv_value (get_setting (routing_setting_key (rs_slug s) field) db)) in
      s\<lparr>rs_enabled := (case get ''enabled'' of None \<Rightarrow> rs_enabled s | Some v \<Rightarrow> parse_bool_setting v),
        rs_target := (case get ''target'' of None \<Rightarrow> rs_target s | Some v \<Rightarrow> v),
        rs_payload := (case get ''payload'' of None \<Rightarrow> rs_payload s | Some v \<Rightarrow> v)\<rparr>)"

definition insert_rule_set_if_missing :: "routing_rule_set \<Rightarrow> db \<Rightarrow> db" where
  "insert_rule_set_if_missing s db = (case bt_get (db_rule_sets db) (rs_slug s) of
       Some _ \<Rightarrow> db
     | None \<Rightarrow> db\<lparr>db_rule_sets := bt_insert (rs_slug s) s (db_rule_sets db)\<rparr>)"

definition bootstrap_client_routing :: "db \<Rightarrow> db" where
  "bootstrap_client_routing db =
     (if ''client-routing'' \<in> set (db_bootstrap db) then db
      else
        let db = fold (\<lambda>s db. insert_rule_set_if_missing (rule_set_from_settings db s) db)
              default_routing_rule_sets db;
            db = ensure_default_dns_policy (ensure_default_client_policy db) in
        db\<lparr>db_bootstrap := db_bootstrap db @ [''client-routing'']\<rparr>)"

definition ensure_default_routing_rule_sets :: "db \<Rightarrow> db res" where
  "ensure_default_routing_rule_sets db =
     and_then (ensure_smart_auto_client_policy (bootstrap_client_routing db)) ensure_daily_routing_cleanup"

subsection \<open>What is saved is what is loaded\<close>

lemma decode_encode_member: "(case encode_pool_member m of (k, v) \<Rightarrow> decode_pool_member k v) = Inr m"
  by (cases m) (simp_all add: encode_pool_member_def decode_pool_member_def parse_role_name)

lemma parse_pool_kind_name: "parse_pool_kind (pool_kind_name k) = Inr k"
  by (cases k) (simp_all add: parse_pool_kind_def pool_kind_name_def)

lemma u32_of_uint [simp]: "u32_of (uint w) = Some w"
  using unsigned_less [of w] by (simp add: u32_of_def)

lemma optional_u32_uint [simp]: "optional_u32 (map_option uint x) = Inr x"
  by (cases x) (simp_all add: optional_u32_def)

lemma filter_members:
  assumes "distinct (map tp_id ps)" and "p \<in> set ps"
  shows "filter (\<lambda>m. mw_pool m = tp_id p) (concat (map member_rows ps)) = member_rows p"
  using assms
proof (induction ps)
  case (Cons q qs)
  have own: "filter (\<lambda>m. mw_pool m = tp_id p) (member_rows q) = (if tp_id q = tp_id p then member_rows q else [])"
    by (auto simp: member_rows_def member_row_of_def filter_empty_conv filter_id_conv split: prod.splits)
  show ?case
  proof (cases "p = q")
    case True
    then have "tp_id p \<notin> tp_id ` set qs" using Cons.prems by auto
    then have "filter (\<lambda>m. mw_pool m = tp_id p) (concat (map member_rows qs)) = []"
      by (intro filter_False) (auto simp: member_rows_def member_row_of_def image_iff split: prod.splits)
    then show ?thesis using own True by simp
  next
    case False
    then have "p \<in> set qs" using Cons.prems by simp
    then have "tp_id q \<noteq> tp_id p" using Cons.prems by auto
    then show ?thesis using own False Cons by simp
  qed
qed simp

lemma member_positions: "map mw_position (member_rows p) = map int [0..<length (tp_members p)]"
proof -
  have "map mw_position (member_rows p) = map int (map fst (enumerate 0 (tp_members p)))"
    by (simp add: member_rows_def member_row_of_def comp_def split_def del: map_fst_enumerate)
  then show ?thesis by (simp only: map_fst_enumerate add_0)
qed

lemma members_loaded:
  assumes "distinct (map tp_id ps)" and "p \<in> set ps" and "db_members db = concat (map member_rows ps)"
  shows "pool_members (tp_id p) db = Inr (tp_members p)"
proof -
  have sorted: "sort_key mw_position (member_rows p) = member_rows p"
    by (rule sort_key_id_if_sorted) (simp add: member_positions sorted_map sorted_wrt_upt)
  have "map (\<lambda>m. decode_pool_member (mw_kind m) (mw_value m)) (member_rows p)
      = map (\<lambda>e. (case encode_pool_member (snd e) of (k, v) \<Rightarrow> decode_pool_member k v)) (enumerate 0 (tp_members p))"
    by (simp add: member_rows_def member_row_of_def comp_def split_def)
  also have "\<dots> = map Inr (map snd (enumerate 0 (tp_members p)))"
    by (simp add: decode_encode_member comp_def del: map_snd_enumerate)
  also have "\<dots> = map Inr (tp_members p)" by (simp only: map_snd_enumerate)
  finally show ?thesis
    using filter_members [OF assms(1,2)] sorted by (simp add: pool_members_def assms(3))
qed

lemma insort_key_cong:
  "(\<And>y. y \<in> set ys \<Longrightarrow> (f x \<le> f y) = (g x \<le> g y)) \<Longrightarrow> insort_key f x ys = insort_key g x ys"
  by (induction ys) auto

lemma map_insort_key: "map h (insort_key (f \<circ> h) x xs) = insort_key f (h x) (map h xs)"
  by (induction xs) auto

lemma map_sort_key: "map h (sort_key (f \<circ> h) xs) = sort_key f (map h xs)"
  by (induction xs) (simp_all only: sort_key_simps list.map map_insort_key)

lemma sort_with_position:
  "sort_key (\<lambda>(k, x). (f x, int k, g x)) (enumerate n xs) = sort_key (\<lambda>(k, x). f x) (enumerate n xs)"
proof (induction xs arbitrary: n)
  case (Cons x xs)
  have "insort_key (\<lambda>(k, x). (f x, int k, g x)) (n, x) (sort_key (\<lambda>(k, x). f x) (enumerate (Suc n) xs))
      = insort_key (\<lambda>(k, x). f x) (n, x) (sort_key (\<lambda>(k, x). f x) (enumerate (Suc n) xs))"
  proof (rule insort_key_cong)
    fix e assume "e \<in> set (sort_key (\<lambda>(k, x). f x) (enumerate (Suc n) xs))"
    then have "n < fst e" by (auto simp: in_set_enumerate_eq)
    then show "((\<lambda>(k, x). (f x, int k, g x)) (n, x) \<le> (\<lambda>(k, x). (f x, int k, g x)) e)
        = ((\<lambda>(k, x). f x) (n, x) \<le> (\<lambda>(k, x). f x) e)"
      by (cases e) (auto simp: less_le)
  qed
  then show ?case using Cons.IH [of "Suc n"] by simp
qed simp

text \<open>The order in which a policy is read back: pools by priority (stable), rules by priority and name.\<close>

definition in_load_order :: "client_policy \<Rightarrow> client_policy" where
  "in_load_order p = \<lparr>cp_pools = sort_key tp_priority (cp_pools p),
     cp_rules = sort_key (\<lambda>r. (rr_priority r, rr_id r)) (cp_rules p)\<rparr>"

lemma decode_pool_row:
  "pool_members (tp_id p) db = Inr (tp_members p) \<Longrightarrow> decode_pool db (pool_row_of k p) = Inr p"
  by (simp add: decode_pool_def pool_row_of_def parse_pool_kind_name)

lemma sorted_pool_rows:
  "sort_key (\<lambda>r. (pw_priority r, pw_position r, pw_id r)) (pool_rows ps)
     = map (\<lambda>(k, p). pool_row_of k p) (sort_key (\<lambda>(k, p). tp_priority p) (enumerate 0 ps))"
proof -
  have "sort_key (\<lambda>r. (pw_priority r, pw_position r, pw_id r)) (pool_rows ps)
      = map (\<lambda>(k, p). pool_row_of k p)
          (sort_key ((\<lambda>r. (pw_priority r, pw_position r, pw_id r)) \<circ> (\<lambda>(k, p). pool_row_of k p)) (enumerate 0 ps))"
    unfolding pool_rows_def by (rule map_sort_key [symmetric])
  also have "(\<lambda>r. (pw_priority r, pw_position r, pw_id r)) \<circ> (\<lambda>(k, p). pool_row_of k p)
      = (\<lambda>(k, p). (tp_priority p, int k, tp_id p))"
    by (auto simp: pool_row_of_def)
  finally show ?thesis by (simp only: sort_with_position)
qed

lemma load_saved_rows:
  assumes "distinct (map tp_id (cp_pools p))"
    and "db_pools db = pool_rows (cp_pools p)" and "db_members db = concat (map member_rows (cp_pools p))"
    and "db_policy_rules db = cp_rules p"
  shows "load_client_policy db = Inr (in_load_order p)"
proof -
  let ?es = "sort_key (\<lambda>(k, p). tp_priority p) (enumerate 0 (cp_pools p))"
  have "map (decode_pool db) (map (\<lambda>(k, p). pool_row_of k p) ?es) = map Inr (map snd ?es)"
  proof (simp, intro ballI)
    fix e assume "e \<in> set (enumerate 0 (cp_pools p))"
    then have "snd e \<in> set (cp_pools p)" by (metis map_snd_enumerate list.set_map image_eqI)
    from members_loaded [OF assms(1) this assms(3)] decode_pool_row
    show "decode_pool db (case e of (k, p) \<Rightarrow> pool_row_of k p) = Inr (snd e)"
      by (cases e) auto
  qed
  moreover have "map snd ?es = sort_key tp_priority (cp_pools p)"
  proof -
    have "map snd ?es = map snd (sort_key (tp_priority \<circ> snd) (enumerate 0 (cp_pools p)))"
      by (simp add: comp_def split_def)
    also have "\<dots> = sort_key tp_priority (cp_pools p)" by (simp add: map_sort_key)
    finally show ?thesis .
  qed
  ultimately show ?thesis
    unfolding load_client_policy_def assms(2,4) sorted_pool_rows by (simp add: in_load_order_def)
qed

end
