(* ===== verification/Store_Rules.thy ===== *)
theory Store_Rules
  imports Store_Policy Rules
begin

text \<open>
  The routing rule sets of \<open>storage.rs\<close>: the sets, their normalized entries and their remote sources.
  Entries and sources are keyed by identifier; the rule kind and the source format, which the tables
  hold by name, are kept as values. The reads before a transaction and the transaction are one step.
\<close>

record update_rule_set =
  ur_slug :: string
  ur_enabled :: bool
  ur_target :: string
  ur_payload :: string

definition load_routing_rule_sets :: "db \<Rightarrow> routing_rule_set list" where
  "load_routing_rule_sets db = bt_values (db_rule_sets db)"

definition load_rule_entries :: "string \<Rightarrow> db \<Rightarrow> rule_entry list" where
  "load_rule_entries slug db =
     sort_key (\<lambda>e. (re_priority e, re_id e))
       (filter (\<lambda>e. re_rule_set_id e = slug) (bt_values (db_rule_entries db)))"

definition load_rule_sources :: "string \<Rightarrow> db \<Rightarrow> rule_set_source list" where
  "load_rule_sources slug db =
     sort_key src_id (filter (\<lambda>s. src_rule_set_id s = slug) (bt_values (db_rule_sources db)))"

definition list_rule_sources :: "db \<Rightarrow> rule_set_source list" where
  "list_rule_sources db = concat (map (\<lambda>s. load_rule_sources (rs_slug s) db) (load_routing_rule_sets db))"

definition get_rule_source :: "string \<Rightarrow> db \<Rightarrow> rule_set_source option" where
  "get_rule_source i db = (case bt_get (db_rule_sources db) i of
       None \<Rightarrow> None
     | Some s \<Rightarrow> List.find (\<lambda>r. src_id r = i) (load_rule_sources (src_rule_set_id s) db))"

definition compiled_rule_set_payload :: "routing_rule_set \<Rightarrow> db \<Rightarrow> string res" where
  "compiled_rule_set_payload s db =
     compile_rule_set_payload (load_rule_entries (rs_slug s) db) (rs_payload s) (load_rule_sources (rs_slug s) db)"

definition valid_rule_object_id :: "string \<Rightarrow> bool" where
  "valid_rule_object_id v \<longleftrightarrow> v \<noteq> [] \<and> length v \<le> 64 \<and> is_alphanumeric (hd v)
     \<and> list_all (\<lambda>b. is_alphanumeric b \<or> b = CHR ''-'' \<or> b = CHR ''_'') v"

subsection \<open>Rule sets\<close>

definition validate_managed_rule_set_target :: "string \<Rightarrow> string \<Rightarrow> unit res" where
  "validate_managed_rule_set_target slug target =
     (if slug = CUSTOM_DIRECT_SLUG \<and> target \<noteq> ''DIRECT'' then Err ''custom-direct target is fixed to DIRECT''
      else Ok ())"

text \<open>A target is a built-in one or an enabled pool of the stored policy.\<close>

definition target_supported :: "string \<Rightarrow> client_policy \<Rightarrow> bool" where
  "target_supported target policy \<longleftrightarrow> is_valid_routing_target target
     \<or> list_ex (\<lambda>p. tp_enabled p \<and> tp_id p = target) (cp_pools policy)"

definition validate_rule_set_metadata :: "routing_rule_set \<Rightarrow> db \<Rightarrow> unit res" where
  "validate_rule_set_metadata s db =
     (if \<not> valid_rule_object_id (rs_slug s) \<or> trim (rs_title s) = [] \<or> 80 < length (rs_title s)
         \<or> 256 < length (rs_effect s) \<or> has_control (rs_title s) \<or> has_control (rs_effect s)
      then Err ''invalid rule-set metadata''
      else and_then (validate_managed_rule_set_target (trim (rs_slug s)) (trim (rs_target s))) (\<lambda>_.
        and_then (load_client_policy db) (\<lambda>policy.
          if target_supported (trim (rs_target s)) policy then Ok () else Err ''unsupported routing target'')))"

text \<open>The stored form of a local payload: empty, or its validated rules.\<close>

definition normal_payload :: "string \<Rightarrow> string res" where
  "normal_payload payload =
     (if trim payload = [] then Ok []
      else and_then (validate_classical_rule_payload payload) (\<lambda>rules. Ok (join [newline] rules)))"

definition put_rule_set :: "routing_rule_set \<Rightarrow> db \<Rightarrow> db" where
  "put_rule_set s db = db\<lparr>db_rule_sets := bt_insert (rs_slug s) s (db_rule_sets db)\<rparr>"

definition update_routing_rule_set_inner :: "update_rule_set \<Rightarrow> audit_event option \<Rightarrow> instant \<Rightarrow> unit tx" where
  "update_routing_rule_set_inner input event now db =
     (let slug = trim (ur_slug input); target = trim (ur_target input) in
      and_then (validate_managed_rule_set_target slug target) (\<lambda>_.
      and_then (load_client_policy db) (\<lambda>policy.
        if \<not> target_supported target policy then Err ''unsupported routing target''
        else
          and_then (if trim (ur_payload input) = [] \<and> slug = CUSTOM_DIRECT_SLUG then Ok []
              else and_then (validate_classical_rule_payload (ur_payload input)) (\<lambda>rules.
                Ok (join [newline] rules))) (\<lambda>payload.
            if slug = CUSTOM_DIRECT_SLUG \<and> ur_enabled input \<and> payload = []
            then Err ''custom-direct cannot be enabled without a rule''
            else (case bt_get (db_rule_sets db) slug of
                None \<Rightarrow> Err ''unknown rule set''
              | Some s \<Rightarrow> audit_opt event now (put_rule_set
                  (s\<lparr>rs_enabled := ur_enabled input, rs_target := target, rs_payload := payload\<rparr>) db))))))"

definition create_routing_rule_set_inner :: "routing_rule_set \<Rightarrow> audit_event option \<Rightarrow> instant \<Rightarrow> unit tx" where
  "create_routing_rule_set_inner v event now db =
     and_then (validate_rule_set_metadata v db) (\<lambda>_.
       if rs_enabled v \<and> trim (rs_payload v) = []
       then Err ''an enabled new rule set requires an initial local payload''
       else
         and_then (normal_payload (rs_payload v)) (\<lambda>payload.
           if bt_get (db_rule_sets db) (trim (rs_slug v)) \<noteq> None then Err ''UNIQUE constraint failed''
           else audit_opt event now (put_rule_set
             \<lparr>rs_slug = trim (rs_slug v), rs_title = trim (rs_title v), rs_effect = trim (rs_effect v),
              rs_target = trim (rs_target v), rs_enabled = rs_enabled v, rs_payload = payload\<rparr> db)))"

definition save_routing_rule_set_inner :: "routing_rule_set \<Rightarrow> audit_event option \<Rightarrow> instant \<Rightarrow> unit tx" where
  "save_routing_rule_set_inner v event now db =
     and_then (validate_rule_set_metadata v db) (\<lambda>_.
     and_then (normal_payload (rs_payload v)) (\<lambda>payload.
     and_then (if rs_enabled v
         then and_then (compile_rule_set_payload (load_rule_entries (rs_slug v) db) payload
           (load_rule_sources (rs_slug v) db)) (\<lambda>_. Ok ())
         else Ok ()) (\<lambda>_.
       case bt_get (db_rule_sets db) (trim (rs_slug v)) of
         None \<Rightarrow> Err ''unknown rule set''
       | Some s \<Rightarrow> audit_opt event now (put_rule_set
           (s\<lparr>rs_title := trim (rs_title v), rs_effect := trim (rs_effect v), rs_target := trim (rs_target v),
             rs_enabled := rs_enabled v, rs_payload := payload\<rparr>) db))))"

definition delete_routing_rule_set_inner :: "string \<Rightarrow> audit_event option \<Rightarrow> instant \<Rightarrow> unit tx" where
  "delete_routing_rule_set_inner slug event now db =
     (if trim slug = CUSTOM_DIRECT_SLUG then Err ''custom-direct is product-owned and cannot be deleted''
      else (case bt_get (db_rule_sets db) (trim slug) of
          None \<Rightarrow> Err ''unknown rule set''
        | Some _ \<Rightarrow> audit_opt event now (drop_rule_set (trim slug) db)))"

text \<open>Plain INSERTs: the identifier must be new.\<close>

fun insert_entries :: "rule_entry list \<Rightarrow> db \<Rightarrow> db res" where
  "insert_entries [] db = Ok db"
| "insert_entries (e # es) db =
     (if bt_get (db_rule_entries db) (re_id e) \<noteq> None then Err ''UNIQUE constraint failed''
      else insert_entries es (db\<lparr>db_rule_entries :=
        bt_insert (re_id e) (e\<lparr>re_value := trim (re_value e)\<rparr>) (db_rule_entries db)\<rparr>))"

fun insert_sources :: "rule_set_source list \<Rightarrow> db \<Rightarrow> db res" where
  "insert_sources [] db = Ok db"
| "insert_sources (s # ss) db =
     (if bt_get (db_rule_sources db) (src_id s) \<noteq> None then Err ''UNIQUE constraint failed''
      else insert_sources ss (db\<lparr>db_rule_sources := bt_insert (src_id s) s (db_rule_sources db)\<rparr>))"

text \<open>\<open>fresh k\<close> is the identifier drawn for the k-th copied row.\<close>

definition clone_routing_rule_set_inner ::
  "string \<Rightarrow> string \<Rightarrow> audit_event option \<Rightarrow> (nat \<Rightarrow> string) \<Rightarrow> instant \<Rightarrow> unit tx" where
  "clone_routing_rule_set_inner source new_slug event fresh now db =
     and_then (ok_or ''unknown source rule set''
         (List.find (\<lambda>s. rs_slug s = source) (load_routing_rule_sets db))) (\<lambda>s.
       let c = s\<lparr>rs_slug := trim new_slug, rs_title := rs_title s @ '' copy''\<rparr>;
           entries = load_rule_entries source db; sources = load_rule_sources source db in
       and_then (validate_rule_set_metadata c db) (\<lambda>_.
         if bt_get (db_rule_sets db) (rs_slug c) \<noteq> None then Err ''UNIQUE constraint failed''
         else
           and_then (insert_entries (map (\<lambda>(k, e). e\<lparr>re_id := fresh k, re_rule_set_id := rs_slug c\<rparr>)
               (enumerate 0 entries)) (put_rule_set c db)) (\<lambda>db.
           and_then (insert_sources (map (\<lambda>(k, r). r\<lparr>src_id := fresh k, src_rule_set_id := rs_slug c\<rparr>)
               (enumerate (length entries) sources)) db) (\<lambda>db.
             audit_opt event now db))))"

subsection \<open>Entries\<close>

definition find_rule_set :: "string \<Rightarrow> db \<Rightarrow> routing_rule_set res" where
  "find_rule_set slug db = ok_or ''unknown rule set''
     (List.find (\<lambda>s. rs_slug s = slug) (load_routing_rule_sets db))"

text \<open>Compile before writing, when the set is enabled.\<close>

definition compile_enabled ::
  "routing_rule_set \<Rightarrow> rule_entry list \<Rightarrow> rule_set_source list \<Rightarrow> unit res" where
  "compile_enabled s entries sources =
     (if rs_enabled s then and_then (compile_rule_set_payload entries (rs_payload s) sources) (\<lambda>_. Ok ())
      else Ok ())"

definition replace_or_push :: "('a \<Rightarrow> bool) \<Rightarrow> 'a \<Rightarrow> 'a list \<Rightarrow> 'a list" where
  "replace_or_push P x xs = (case index_of P xs of None \<Rightarrow> xs @ [x] | Some k \<Rightarrow> xs[k := x])"

definition upsert_rule_entry_inner :: "rule_entry \<Rightarrow> audit_event option \<Rightarrow> instant \<Rightarrow> unit tx" where
  "upsert_rule_entry_inner e event now db =
     and_then (rule_entry_validate e) (\<lambda>_.
     and_then (find_rule_set (re_rule_set_id e) db) (\<lambda>s.
     and_then (compile_enabled s
         (replace_or_push (\<lambda>v. re_id v = re_id e) e (load_rule_entries (re_rule_set_id e) db))
         (load_rule_sources (re_rule_set_id e) db)) (\<lambda>_.
       audit_opt event now (db\<lparr>db_rule_entries :=
         bt_insert (re_id e) (e\<lparr>re_value := trim (re_value e)\<rparr>) (db_rule_entries db)\<rparr>))))"

definition delete_rule_entry_inner :: "string \<Rightarrow> audit_event option \<Rightarrow> instant \<Rightarrow> unit tx" where
  "delete_rule_entry_inner i event now db = (case bt_get (db_rule_entries db) i of
       None \<Rightarrow> Err ''unknown rule entry''
     | Some e \<Rightarrow>
         and_then (find_rule_set (re_rule_set_id e) db) (\<lambda>s.
         and_then (compile_enabled s (filter (\<lambda>v. re_id v \<noteq> i) (load_rule_entries (rs_slug s) db))
             (load_rule_sources (rs_slug s) db)) (\<lambda>_.
           audit_opt event now (db\<lparr>db_rule_entries := bt_remove i (db_rule_entries db)\<rparr>))))"

definition entry_key :: "rule_kind \<Rightarrow> string \<Rightarrow> string" where
  "entry_key kind v = to_ascii_lowercase (mihomo_name kind @ '':'' @ v)"

fun bulk_additions ::
  "(nat \<Rightarrow> string) \<Rightarrow> string \<Rightarrow> rule_kind \<Rightarrow> string option \<Rightarrow> nat \<Rightarrow> string list \<Rightarrow> int \<Rightarrow> string list
    \<Rightarrow> rule_entry list res" where
  "bulk_additions fresh slug kind tag k seen priority [] = Ok []"
| "bulk_additions fresh slug kind tag k seen priority (v # vs) =
     (if entry_key kind v \<in> set seen then bulk_additions fresh slug kind tag k seen priority vs
      else
        let priority = min (priority + 10) i64_max;
            e = \<lparr>re_id = fresh k, re_rule_set_id = slug, re_enabled = True, re_kind = kind, re_value = v,
              re_comment = None, re_source_tag = tag, re_priority = priority\<rparr> in
        and_then (rule_entry_validate e) (\<lambda>_.
        and_then (bulk_additions fresh slug kind tag (Suc k) (entry_key kind v # seen) priority vs) (\<lambda>es.
          Ok (e # es))))"

definition max_priority :: "rule_entry list \<Rightarrow> int" where
  "max_priority es = (case es of [] \<Rightarrow> 0 | e # es \<Rightarrow> fold (\<lambda>e m. max (re_priority e) m) es (re_priority e))"

definition MAX_BULK_LINES :: nat where
  "MAX_BULK_LINES = 10000"

definition bulk_add_rule_entries_inner ::
  "string \<Rightarrow> rule_kind \<Rightarrow> string \<Rightarrow> string option \<Rightarrow> audit_event option \<Rightarrow> (nat \<Rightarrow> string) \<Rightarrow> instant \<Rightarrow> nat tx" where
  "bulk_add_rule_entries_inner slug kind input tag event fresh now db =
     (let vs = filter (\<lambda>l. l \<noteq> []) (map trim (lines input)) in
      if MAX_BULK_LINES < length vs then Err ''bulk rule input exceeds 10000 lines''
      else
        and_then (if kind = RkClassical then validate_classical_rule_payload input else Ok vs) (\<lambda>vs.
          let existing = load_rule_entries slug db in
          and_then (bulk_additions fresh slug kind tag 0
              (map (\<lambda>e. entry_key (re_kind e) (trim (re_value e))) existing) (max_priority existing) vs) (\<lambda>additions.
          and_then (find_rule_set slug db) (\<lambda>s.
          and_then (compile_enabled s (existing @ additions) (load_rule_sources slug db)) (\<lambda>_.
          and_then (insert_entries additions db) (\<lambda>db.
          and_then (audit_opt (map_option (\<lambda>e. e\<lparr>ae_metadata := metadata_count (length additions)\<rparr>) event)
              now db) (\<lambda>(_, db). Ok (length additions, db))))))))"

fun duplicate_ids :: "string list \<Rightarrow> rule_entry list \<Rightarrow> string list" where
  "duplicate_ids seen [] = []"
| "duplicate_ids seen (e # es) = (let k = entry_key (re_kind e) (trim (re_value e)) in
     if k \<in> set seen then re_id e # duplicate_ids seen es else duplicate_ids (k # seen) es)"

definition deduplicate_rule_entries_inner :: "string \<Rightarrow> audit_event option \<Rightarrow> instant \<Rightarrow> nat tx" where
  "deduplicate_rule_entries_inner slug event now db =
     (let duplicates = duplicate_ids [] (load_rule_entries slug db) in
      and_then (find_rule_set slug db) (\<lambda>s.
      and_then (compile_enabled s (filter (\<lambda>e. re_id e \<notin> set duplicates) (load_rule_entries slug db))
          (load_rule_sources slug db)) (\<lambda>_.
      and_then (audit_opt (map_option (\<lambda>e. e\<lparr>ae_metadata := metadata_count (length duplicates)\<rparr>) event) now
          (db\<lparr>db_rule_entries := fold bt_remove duplicates (db_rule_entries db)\<rparr>)) (\<lambda>(_, db).
        Ok (length duplicates, db)))))"

subsection \<open>Remote sources\<close>

definition source_admissible :: "rule_set_source \<Rightarrow> bool" where
  "source_admissible s \<longleftrightarrow> valid_rule_object_id (src_id s) \<and> valid_rule_object_id (src_rule_set_id s)
     \<and> starts_with (src_url s) ''https://'' \<and> length (src_url s) \<le> 2048
     \<and> 300 \<le> src_refresh_interval_seconds s \<and> src_refresh_interval_seconds s \<le> 604800"

text \<open>What a fetch found stays with the source when its definition is edited.\<close>

definition keep_fetched :: "rule_set_source \<Rightarrow> rule_set_source \<Rightarrow> rule_set_source" where
  "keep_fetched current s = s\<lparr>src_etag := src_etag current, src_last_modified := src_last_modified current,
     src_last_successful_fetch := src_last_successful_fetch current, src_checksum := src_checksum current,
     src_entry_count := src_entry_count current, src_last_error := src_last_error current,
     src_cached_payload := src_cached_payload current\<rparr>"

definition upsert_rule_source_inner :: "rule_set_source \<Rightarrow> audit_event option \<Rightarrow> instant \<Rightarrow> unit tx" where
  "upsert_rule_source_inner s event now db =
     (if \<not> source_admissible s then Err ''invalid remote rule source''
      else
        and_then (find_rule_set (src_rule_set_id s) db) (\<lambda>set.
        let effective = (case get_rule_source (src_id s) db of None \<Rightarrow> s | Some c \<Rightarrow> keep_fetched c s) in
        and_then (compile_enabled set (load_rule_entries (src_rule_set_id s) db)
            (replace_or_push (\<lambda>v. src_id v = src_id s) effective (load_rule_sources (src_rule_set_id s) db))) (\<lambda>_.
          audit_opt event now (db\<lparr>db_rule_sources := bt_insert (src_id s)
            (case bt_get (db_rule_sources db) (src_id s) of None \<Rightarrow> s | Some c \<Rightarrow> keep_fetched c s)
            (db_rule_sources db)\<rparr>))))"

definition update_rule_source_success_inner :: "rule_set_source \<Rightarrow> audit_event option \<Rightarrow> instant \<Rightarrow> unit tx" where
  "update_rule_source_success_inner s event now db = (case bt_get (db_rule_sources db) (src_id s) of
       None \<Rightarrow> Err ''unknown rule source''
     | Some c \<Rightarrow> audit_opt event now (db\<lparr>db_rule_sources := bt_insert (src_id s)
         (c\<lparr>src_etag := src_etag s, src_last_modified := src_last_modified s,
           src_last_successful_fetch := src_last_successful_fetch s, src_checksum := src_checksum s,
           src_entry_count := src_entry_count s, src_last_error := None,
           src_cached_payload := src_cached_payload s\<rparr>) (db_rule_sources db)\<rparr>))"

definition update_rule_source_error :: "(nat \<Rightarrow> string \<Rightarrow> string) \<Rightarrow> string \<Rightarrow> string \<Rightarrow> db \<Rightarrow> db" where
  "update_rule_source_error take_chars i error db = (case bt_get (db_rule_sources db) i of
       None \<Rightarrow> db
     | Some c \<Rightarrow> db\<lparr>db_rule_sources := bt_insert i (c\<lparr>src_last_error := Some (take_chars 512 error)\<rparr>)
         (db_rule_sources db)\<rparr>)"

definition delete_rule_source_inner :: "string \<Rightarrow> audit_event option \<Rightarrow> instant \<Rightarrow> unit tx" where
  "delete_rule_source_inner i event now db =
     and_then (ok_or ''unknown rule source'' (get_rule_source i db)) (\<lambda>r.
     and_then (find_rule_set (src_rule_set_id r) db) (\<lambda>s.
     and_then (compile_enabled s (load_rule_entries (rs_slug s) db)
         (filter (\<lambda>v. src_id v \<noteq> i) (load_rule_sources (rs_slug s) db))) (\<lambda>_.
       audit_opt event now (db\<lparr>db_rule_sources := bt_remove i (db_rule_sources db)\<rparr>))))"

end
