(* ===== verification/Store_Rules_Inv.thy ===== *)
theory Store_Rules_Inv
  imports Store_Rules
begin

text \<open>
  What the operations on rule sets keep: every stored entry compiles, every stored payload is blank or
  validates, and every enabled rule set has at least one rule, so that it compiles.
\<close>

subsection \<open>When a rule set compiles\<close>

lemma ws_len_append: "3 \<le> length s \<Longrightarrow> ws_len (s @ t) = ws_len s"
  by (cases s; cases "tl s"; cases "tl (tl s)") (auto simp: ws_len_def)

lemma ws_len_rev_append: "3 \<le> length s \<Longrightarrow> ws_len_rev (s @ t) = ws_len_rev s"
  by (cases s; cases "tl s"; cases "tl (tl s)") (auto simp: ws_len_rev_def)

lemma classical_rule_length:
  assumes "classical_rule l"
  shows "3 \<le> length l"
proof -
  obtain k rest where l: "l = k @ CHR '','' # rest" "trim rest \<noteq> []" "trim k \<in> set CLASSICAL_CONDITION_TYPES"
    using assms unfolding classical_rule_def by blast
  have "k \<noteq> []" using l(3) condition_types_plain [of "trim k"] by auto
  moreover have "rest \<noteq> []" using l(2) by auto
  ultimately show ?thesis using l(1) by (cases k; cases rest) auto
qed

lemma join_starts: "rs \<noteq> [] \<Longrightarrow> \<exists>t. join sep (r # rs) = r @ t" and
  join_ends: "rs \<noteq> [] \<Longrightarrow> \<exists>t. join sep rs = t @ last rs"
proof -
  show "rs \<noteq> [] \<Longrightarrow> \<exists>t. join sep (r # rs) = r @ t" by (simp add: join_Cons)
  show "rs \<noteq> [] \<Longrightarrow> \<exists>t. join sep rs = t @ last rs"
  proof (induction rs)
    case (Cons a as)
    show ?case
    proof (cases "as = []")
      case False
      then obtain t where "join sep as = t @ last as" using Cons.IH by blast
      then have "join sep (a # as) = (a @ sep @ t) @ last (a # as)" using False by (simp add: join_Cons)
      then show ?thesis by blast
    qed simp
  qed simp
qed

lemma rejoined_trimmed:
  assumes "rules \<noteq> []" and "\<forall>l \<in> set rules. classical_rule l"
  shows "trim (join [newline] rules) = join [newline] rules \<and> join [newline] rules \<noteq> []"
proof -
  have fixed: "ws_len l = 0" "ws_len_rev (rev l) = 0" "3 \<le> length l" if "l \<in> set rules" for l
    using that assms(2) classical_rule_length trim_eq_iff [of l] by (auto simp: classical_rule_def)
  obtain r rs where rules: "rules = r # rs" using assms(1) by (cases rules) auto
  obtain t where t: "join [newline] rules = r @ t"
    using join_starts [of rs "[newline]" r] unfolding rules by (cases "rs = []") auto
  have "ws_len (join [newline] rules) = 0"
    unfolding t using fixed [of r] rules by (simp add: ws_len_append)
  moreover obtain u where u: "join [newline] rules = u @ last rules"
    using join_ends [OF assms(1)] by blast
  have "ws_len_rev (rev (join [newline] rules)) = 0"
    unfolding u using fixed [of "last rules"] assms(1) by (simp add: ws_len_rev_append)
  moreover have "join [newline] rules \<noteq> []" unfolding t using fixed(3) [of r] rules by auto
  ultimately show ?thesis using trim_fixed by blast
qed

definition payload_ok :: "string \<Rightarrow> bool" where
  "payload_ok p \<longleftrightarrow> trim p = [] \<or> is_ok (validate_classical_rule_payload p)"

lemma local_rules_ok: "is_ok (local_rules p) \<longleftrightarrow> payload_ok p"
  by (auto simp: local_rules_def payload_ok_def)

lemma local_rules_nonempty: "local_rules p = Inr rules \<Longrightarrow> rules = [] \<longleftrightarrow> trim p = []"
  using validate_payload_rules by (auto simp: local_rules_def split: if_splits)

lemma source_rules_ok: "is_ok (source_rules ss) \<longleftrightarrow> (\<forall>s \<in> set ss. payload_ok (src_cached_payload s))"
proof (induction ss)
  case (Cons s ss)
  have "is_ok (source_rules (s # ss)) \<longleftrightarrow> payload_ok (src_cached_payload s) \<and> is_ok (source_rules ss)"
    by (cases "validate_classical_rule_payload (src_cached_payload s)"; cases "source_rules ss")
      (auto simp: payload_ok_def)
  then show ?case using Cons.IH by simp
qed simp

lemma source_rules_nonempty:
  "source_rules ss = Inr rules \<Longrightarrow> rules = [] \<longleftrightarrow> (\<forall>s \<in> set ss. trim (src_cached_payload s) = [])"
proof (induction ss arbitrary: rules)
  case (Cons s ss)
  then show ?case using validate_payload_rules
    by (fastforce simp: and_then_Inr_iff split: if_splits)
qed simp

lemma compile_ok_iff:
  "is_ok (compile_rule_set_payload es p ss) \<longleftrightarrow>
     (\<forall>e \<in> set es. re_enabled e \<longrightarrow> is_ok (rule_entry_compiled e)) \<and> payload_ok p
     \<and> (\<forall>s \<in> set ss. src_enabled s \<longrightarrow> payload_ok (src_cached_payload s))
     \<and> ((\<exists>e \<in> set es. re_enabled e) \<or> trim p \<noteq> []
        \<or> (\<exists>s \<in> set ss. src_enabled s \<and> trim (src_cached_payload s) \<noteq> []))"
proof -
  have own: "is_ok (compiled_entries es) \<longleftrightarrow> (\<forall>e \<in> set es. re_enabled e \<longrightarrow> is_ok (rule_entry_compiled e))"
    by (auto simp: compiled_entries_def is_ok_collect_res)
  have own_nil: "rules = [] \<longleftrightarrow> \<not> (\<exists>e \<in> set es. re_enabled e)" if "compiled_entries es = Inr rules" for rules
    using that by (auto simp: compiled_entries_def collect_res_Inr_iff filter_empty_conv
        dest: arg_cong [of _ _ length])
  have src_nil: "rules = [] \<longleftrightarrow> \<not> (\<exists>s \<in> set ss. src_enabled s \<and> trim (src_cached_payload s) \<noteq> [])"
    if "source_rules (filter src_enabled ss) = Inr rules" for rules
    using source_rules_nonempty [OF that] by auto
  have "is_ok (compile_rule_set_payload es p ss) \<longleftrightarrow>
     (\<exists>o' l r. compiled_entries es = Inr o' \<and> local_rules p = Inr l
        \<and> source_rules (filter src_enabled ss) = Inr r \<and> \<not> (o' = [] \<and> l = [] \<and> r = []))"
    by (auto simp: compile_rule_set_payload_def is_ok_and_then is_ok_if retain_new_Nil_iff Let_def)
  also have "\<dots> \<longleftrightarrow> is_ok (compiled_entries es) \<and> is_ok (local_rules p)
      \<and> is_ok (source_rules (filter src_enabled ss))
      \<and> ((\<exists>e \<in> set es. re_enabled e) \<or> trim p \<noteq> []
        \<or> (\<exists>s \<in> set ss. src_enabled s \<and> trim (src_cached_payload s) \<noteq> []))"
    using own_nil local_rules_nonempty src_nil by (auto simp: is_ok_iff; blast)
  finally show ?thesis unfolding own local_rules_ok source_rules_ok by auto
qed

subsection \<open>The invariant\<close>

definition entries_in :: "string \<Rightarrow> db \<Rightarrow> rule_entry set" where
  "entries_in slug db = {e. \<exists>i. bt_get (db_rule_entries db) i = Some e \<and> re_rule_set_id e = slug}"

definition sources_in :: "string \<Rightarrow> db \<Rightarrow> rule_set_source set" where
  "sources_in slug db = {r. \<exists>i. bt_get (db_rule_sources db) i = Some r \<and> src_rule_set_id r = slug}"

definition has_rules :: "rule_entry set \<Rightarrow> string \<Rightarrow> rule_set_source set \<Rightarrow> bool" where
  "has_rules es p ss \<longleftrightarrow> (\<exists>e \<in> es. re_enabled e) \<or> trim p \<noteq> []
     \<or> (\<exists>r \<in> ss. src_enabled r \<and> trim (src_cached_payload r) \<noteq> [])"

definition rows_ok :: "db \<Rightarrow> bool" where
  "rows_ok db \<longleftrightarrow> bt_wf (db_rule_sets db) \<and> bt_wf (db_rule_entries db) \<and> bt_wf (db_rule_sources db)
     \<and> (\<forall>k s. bt_get (db_rule_sets db) k = Some s \<longrightarrow> rs_slug s = k \<and> payload_ok (rs_payload s))
     \<and> (\<forall>i e. bt_get (db_rule_entries db) i = Some e \<longrightarrow> re_id e = i \<and> is_ok (rule_entry_compiled e))
     \<and> (\<forall>i r. bt_get (db_rule_sources db) i = Some r \<longrightarrow> src_id r = i \<and> payload_ok (src_cached_payload r))"

definition rules_inv :: "db \<Rightarrow> bool" where
  "rules_inv db \<longleftrightarrow> rows_ok db \<and> (\<forall>k s. bt_get (db_rule_sets db) k = Some s \<and> rs_enabled s \<longrightarrow>
     has_rules (entries_in k db) (rs_payload s) (sources_in k db))"

lemma rows_okD:
  assumes "rows_ok db"
  shows "bt_wf (db_rule_sets db)" "bt_wf (db_rule_entries db)" "bt_wf (db_rule_sources db)"
    "bt_get (db_rule_sets db) k = Some s \<Longrightarrow> rs_slug s = k \<and> payload_ok (rs_payload s)"
    "bt_get (db_rule_entries db) i = Some e \<Longrightarrow> re_id e = i \<and> is_ok (rule_entry_compiled e)"
    "bt_get (db_rule_sources db) j = Some r \<Longrightarrow> src_id r = j \<and> payload_ok (src_cached_payload r)"
  using assms unfolding rows_ok_def by blast+

lemma values_set: "bt_wf m \<Longrightarrow> set (bt_values m) = {v. \<exists>k. bt_get m k = Some v}"
  by (force simp: bt_values_def bt_get_mem)

lemma set_load_entries: "rows_ok db \<Longrightarrow> set (load_rule_entries slug db) = entries_in slug db"
  using values_set [OF rows_okD(2)] by (auto simp: load_rule_entries_def entries_in_def)

lemma set_load_sources: "rows_ok db \<Longrightarrow> set (load_rule_sources slug db) = sources_in slug db"
  using values_set [OF rows_okD(3)] by (auto simp: load_rule_sources_def sources_in_def)

lemma find_rule_set_Inr:
  assumes "rows_ok db" and "find_rule_set slug db = Inr s"
  shows "bt_get (db_rule_sets db) slug = Some s \<and> rs_slug s = slug"
proof -
  have "s \<in> set (bt_values (db_rule_sets db)) \<and> rs_slug s = slug"
    using assms(2) unfolding find_rule_set_def ok_or_Inr_iff load_routing_rule_sets_def by (rule find_Some_mem)
  then show ?thesis using values_set [OF rows_okD(1) [OF assms(1)]] rows_okD(4) [OF assms(1)] by blast
qed

text \<open>The three tables are all the invariant looks at.\<close>

definition rule_tables ::
  "db \<Rightarrow> (string, routing_rule_set) btmap \<times> (string, rule_entry) btmap \<times> (string, rule_set_source) btmap" where
  "rule_tables db = (db_rule_sets db, db_rule_entries db, db_rule_sources db)"

lemma rules_inv_tables: "rule_tables db' = rule_tables db \<Longrightarrow> rules_inv db' = rules_inv db"
  unfolding rule_tables_def rules_inv_def rows_ok_def entries_in_def sources_in_def by simp

lemma audit_opt_tables: "audit_opt event now db = Inr (x, db') \<Longrightarrow> rule_tables db' = rule_tables db"
  by (cases event) (auto simp: audit_opt_def rule_tables_def dest!: audit_Inr)

lemma audited_inv: "audit_opt event now db = Inr (x, db') \<Longrightarrow> rules_inv db \<Longrightarrow> rules_inv db'"
  using rules_inv_tables [OF audit_opt_tables] by blast

lemma compiles_iff:
  assumes "rows_ok db" and "bt_get (db_rule_sets db) k = Some s"
  shows "is_ok (compiled_rule_set_payload s db) \<longleftrightarrow> has_rules (entries_in k db) (rs_payload s) (sources_in k db)"
proof -
  have k: "rs_slug s = k" "payload_ok (rs_payload s)" using rows_okD(4) [OF assms] by auto
  have e: "is_ok (rule_entry_compiled e)" if "e \<in> entries_in k db" for e
    using that rows_okD(5) [OF assms(1)] by (auto simp: entries_in_def)
  have r: "payload_ok (src_cached_payload r)" if "r \<in> sources_in k db" for r
    using that rows_okD(6) [OF assms(1)] by (auto simp: sources_in_def)
  show ?thesis
    unfolding compiled_rule_set_payload_def compile_ok_iff k(1)
      set_load_entries [OF assms(1)] set_load_sources [OF assms(1)] has_rules_def
    using k(2) e r by blast
qed

subsection \<open>Writing a rule set\<close>

lemma put_rule_set_tables:
  "entries_in k (put_rule_set s db) = entries_in k db" "sources_in k (put_rule_set s db) = sources_in k db"
  "bt_get (db_rule_sets (put_rule_set s db)) k = (if k = rs_slug s then Some s else bt_get (db_rule_sets db) k)"
  by (simp_all add: put_rule_set_def entries_in_def sources_in_def bt_get_insert)

lemma put_rule_set_rows: "rows_ok db \<Longrightarrow> payload_ok (rs_payload s) \<Longrightarrow> rows_ok (put_rule_set s db)"
  unfolding rows_ok_def put_rule_set_def by (auto simp: bt_get_insert bt_wf_insert split: if_splits)

lemma put_rule_set_inv:
  assumes "rules_inv db" and "payload_ok (rs_payload s)"
    and "rs_enabled s \<Longrightarrow> has_rules (entries_in (rs_slug s) db) (rs_payload s) (sources_in (rs_slug s) db)"
  shows "rules_inv (put_rule_set s db)"
  using assms put_rule_set_rows [of db s] unfolding rules_inv_def put_rule_set_tables by auto

lemma stored_payload:
  assumes "validate_classical_rule_payload p = Inr rules"
  shows "payload_ok (join [newline] rules) \<and> trim (join [newline] rules) \<noteq> []"
proof -
  have r: "rules \<noteq> []" "\<forall>l \<in> set rules. classical_rule l" using validate_payload_rules [OF assms] by auto
  show ?thesis using rejoined_trimmed [OF r] validate_rejoined(2) [OF r] by (simp add: payload_ok_def is_ok_def)
qed

lemma normal_payload_Inr:
  "normal_payload p = Inr q \<Longrightarrow> payload_ok q \<and> (trim q = [] \<longleftrightarrow> trim p = [])"
  using stored_payload by (auto simp: normal_payload_def and_then_Inr_iff payload_ok_def split: if_splits)

lemma update_rule_set_inv:
  assumes "update_routing_rule_set_inner input event now db = Inr (x, db')" and "rules_inv db"
  shows "rules_inv db'"
proof -
  from assms(1) obtain payload s where
    pay: "(if trim (ur_payload input) = [] \<and> trim (ur_slug input) = CUSTOM_DIRECT_SLUG then Ok []
      else and_then (validate_classical_rule_payload (ur_payload input)) (\<lambda>rules. Ok (join [newline] rules))) = Inr payload"
    and some: "\<not> (trim (ur_slug input) = CUSTOM_DIRECT_SLUG \<and> ur_enabled input \<and> payload = [])"
    and s: "bt_get (db_rule_sets db) (trim (ur_slug input)) = Some s"
    and aud: "audit_opt event now (put_rule_set (s\<lparr>rs_enabled := ur_enabled input,
      rs_target := trim (ur_target input), rs_payload := payload\<rparr>) db) = Inr (x, db')"
    unfolding update_routing_rule_set_inner_def Let_def
    by (simp add: and_then_Inr_iff split: if_split_asm option.split_asm) blast+
  have ok: "payload_ok payload" "ur_enabled input \<Longrightarrow> trim payload \<noteq> []"
    using pay some stored_payload
    by (auto simp: and_then_Inr_iff payload_ok_def split: if_splits)
  then show ?thesis
    by (intro audited_inv [OF aud] put_rule_set_inv [OF assms(2)]) (auto simp: has_rules_def)
qed

lemma create_rule_set_inv:
  assumes "create_routing_rule_set_inner v event now db = Inr (x, db')" and "rules_inv db"
  shows "rules_inv db'"
proof -
  from assms(1) obtain payload where
    some: "\<not> (rs_enabled v \<and> trim (rs_payload v) = [])" and pay: "normal_payload (rs_payload v) = Inr payload"
    and aud: "audit_opt event now (put_rule_set
      \<lparr>rs_slug = trim (rs_slug v), rs_title = trim (rs_title v), rs_effect = trim (rs_effect v),
       rs_target = trim (rs_target v), rs_enabled = rs_enabled v, rs_payload = payload\<rparr> db) = Inr (x, db')"
    unfolding create_routing_rule_set_inner_def
    by (auto simp: and_then_Inr_iff split: if_split_asm)
  show ?thesis
    using normal_payload_Inr [OF pay] some
    by (intro audited_inv [OF aud] put_rule_set_inv [OF assms(2)]) (auto simp: has_rules_def)
qed

lemma guard_Inr: "(if b then and_then r (\<lambda>_. Ok ()) else Ok ()) = Inr x \<longleftrightarrow> (b \<longrightarrow> is_ok r)"
  by (cases r) auto

lemma valid_slug_trimmed: "valid_rule_object_id v \<Longrightarrow> trim v = v"
proof (rule trim_solid)
  assume v: "valid_rule_object_id v"
  then show "v \<noteq> []" by (simp add: valid_rule_object_id_def)
  have marks: "solid (CHR ''-'')" "solid (CHR ''_'')" by (simp_all add: solid_def byte_def)
  have "solid b" if "b \<in> set v" for b
  proof -
    have "is_alphanumeric b \<or> b = CHR ''-'' \<or> b = CHR ''_''"
      using that v unfolding valid_rule_object_id_def list_all_iff by blast
    then show ?thesis using alphanumeric_solid marks by blast
  qed
  then show "solid (hd v)" "solid (last v)" using \<open>v \<noteq> []\<close> by auto
qed

lemma save_rule_set_inv:
  assumes "save_routing_rule_set_inner v event now db = Inr (x, db')" and "rules_inv db"
  shows "rules_inv db'"
proof -
  have rows: "rows_ok db" using assms(2) by (simp add: rules_inv_def)
  from assms(1) obtain payload s where
    meta: "validate_rule_set_metadata v db = Inr ()" and pay: "normal_payload (rs_payload v) = Inr payload"
    and comp: "rs_enabled v \<Longrightarrow> is_ok (compile_rule_set_payload (load_rule_entries (rs_slug v) db) payload
           (load_rule_sources (rs_slug v) db))"
    and s: "bt_get (db_rule_sets db) (trim (rs_slug v)) = Some s"
    and aud: "audit_opt event now (put_rule_set (s\<lparr>rs_title := trim (rs_title v), rs_effect := trim (rs_effect v),
      rs_target := trim (rs_target v), rs_enabled := rs_enabled v, rs_payload := payload\<rparr>) db) = Inr (x, db')"
    unfolding save_routing_rule_set_inner_def
    by (simp add: and_then_Inr_iff [where r = "if rs_enabled v then _ else _"] guard_Inr
        and_then_Inr_iff [where r = "validate_rule_set_metadata _ _"]
        and_then_Inr_iff [where r = "normal_payload _"] split: option.split_asm) blast+
  have slug: "trim (rs_slug v) = rs_slug v"
    using meta valid_slug_trimmed by (auto simp: validate_rule_set_metadata_def split: if_splits)
  have k: "rs_slug s = rs_slug v" using rows_okD(4) [OF rows s] slug by simp
  have "has_rules (entries_in (rs_slug v) db) payload (sources_in (rs_slug v) db)" if "rs_enabled v"
    using comp [OF that] unfolding compile_ok_iff set_load_entries [OF rows] set_load_sources [OF rows]
    by (simp add: has_rules_def)
  then show ?thesis
    using normal_payload_Inr [OF pay] k
    by (intro audited_inv [OF aud] put_rule_set_inv [OF assms(2)]) auto
qed

lemma bt_get_filter_values:
  "bt_wf m \<Longrightarrow> bt_get (filter (\<lambda>(_, v). P v) m) i = (case bt_get m i of None \<Rightarrow> None
     | Some v \<Rightarrow> if P v then Some v else None)"
proof (induction m)
  case (Cons e m)
  obtain a b where e: "e = (a, b)" by (cases e)
  have wf: "bt_wf m" "bt_get m a = None"
    using Cons.prems by (auto simp: e bt_wf_Cons bt_get_None)
  show ?case using Cons.IH [OF wf(1)] wf(2) by (auto simp: e split: option.splits)
qed simp

lemma bt_wf_filter: "bt_wf m \<Longrightarrow> bt_wf (filter P m)"
  by (induction m) (auto simp: bt_wf_Cons)

lemma drop_rule_set_inv:
  assumes "rules_inv db"
  shows "rules_inv (drop_rule_set slug db)"
proof -
  have rows: "rows_ok db" using assms by (simp add: rules_inv_def)
  note k = rows_okD [OF rows]
  have sets: "bt_get (db_rule_sets (drop_rule_set slug db)) i = (if i = slug then None else bt_get (db_rule_sets db) i)"
    and ents: "bt_get (db_rule_entries (drop_rule_set slug db)) i = (case bt_get (db_rule_entries db) i of
        None \<Rightarrow> None | Some e \<Rightarrow> if re_rule_set_id e \<noteq> slug then Some e else None)"
    and srcs: "bt_get (db_rule_sources (drop_rule_set slug db)) i = (case bt_get (db_rule_sources db) i of
        None \<Rightarrow> None | Some e \<Rightarrow> if src_rule_set_id e \<noteq> slug then Some e else None)" for i
    unfolding drop_rule_set_def
    using bt_get_remove [OF k(1)] bt_get_filter_values [OF k(2)] bt_get_filter_values [OF k(3)] by auto
  have "bt_wf (db_rule_sets (drop_rule_set slug db))" "bt_wf (db_rule_entries (drop_rule_set slug db))"
    "bt_wf (db_rule_sources (drop_rule_set slug db))"
    using k(1-3) by (simp_all add: drop_rule_set_def bt_wf_remove bt_wf_filter)
  then have "rows_ok (drop_rule_set slug db)"
    unfolding rows_ok_def sets ents srcs using k(4-6) by (auto split: option.splits if_splits)
  moreover have "entries_in i (drop_rule_set slug db) = entries_in i db"
    "sources_in i (drop_rule_set slug db) = sources_in i db" if "i \<noteq> slug" for i
    unfolding entries_in_def sources_in_def ents srcs using that by (auto split: option.splits if_splits)
  ultimately show ?thesis using assms unfolding rules_inv_def sets by (auto split: if_splits)
qed

lemma delete_rule_set_inv:
  assumes "delete_routing_rule_set_inner slug event now db = Inr (x, db')" and "rules_inv db"
  shows "rules_inv db'"
  using assms audited_inv drop_rule_set_inv
  by (fastforce simp: delete_routing_rule_set_inner_def split: if_splits option.splits)

subsection \<open>Writing entries\<close>

lemma index_of_Some: "index_of P xs = Some k \<Longrightarrow> k < length xs \<and> P (xs ! k)"
  by (induction xs arbitrary: k) (auto split: if_splits)

lemma index_of_None: "index_of P xs = None \<longleftrightarrow> (\<forall>x \<in> set xs. \<not> P x)"
  by (induction xs) auto

lemma replace_or_push_set:
  assumes "distinct (map f xs)"
  shows "set (replace_or_push (\<lambda>v. f v = f x) x xs) \<subseteq> insert x {v \<in> set xs. f v \<noteq> f x}"
proof (cases "index_of (\<lambda>v. f v = f x) xs")
  case None
  then have "\<forall>y \<in> set xs. f y \<noteq> f x" unfolding index_of_None .
  then show ?thesis using None by (auto simp: replace_or_push_def)
next
  case (Some k)
  note k = index_of_Some [OF Some]
  have "y = x \<or> (y \<in> set xs \<and> f y \<noteq> f x)" if "y \<in> set (xs[k := x])" for y
  proof -
    from that obtain j where j: "j < length xs" "xs[k := x] ! j = y" by (auto simp: in_set_conv_nth)
    show ?thesis
    proof (cases "j = k")
      case True
      then show ?thesis using j by simp
    next
      case False
      then have y: "y = xs ! j" using j by simp
      have j': "j < length xs" using j(1) by simp
      have "map f xs ! j \<noteq> map f xs ! k"
        using assms False j' k(1) by (simp add: nth_eq_iff_index_eq del: nth_map)
      then have "f y \<noteq> f x" using y j' k by simp
      moreover have "y \<in> set xs" using y j' by simp
      ultimately show ?thesis by blast
    qed
  qed
  then show ?thesis using Some by (auto simp: replace_or_push_def)
qed

lemma distinct_values:
  assumes "bt_wf m" and "\<And>k v. bt_get m k = Some v \<Longrightarrow> f v = k"
  shows "distinct (map f (bt_values m))"
proof -
  have "map f (bt_values m) = map fst m"
    unfolding bt_values_def list.map_comp
    using assms(2) bt_get_mem [OF assms(1)] by (intro map_cong) auto
  then show ?thesis using bt_wf_distinct [OF assms(1)] by simp
qed

lemma distinct_map_sort_filter: "distinct (map f xs) \<Longrightarrow> distinct (map f (sort_key g (filter P xs)))"
  by (auto simp: distinct_map inj_on_def)

lemma distinct_load_entries: "rows_ok db \<Longrightarrow> distinct (map re_id (load_rule_entries slug db))"
  unfolding load_rule_entries_def
  by (intro distinct_map_sort_filter distinct_values) (auto simp: rows_ok_def)

lemma distinct_load_sources: "rows_ok db \<Longrightarrow> distinct (map src_id (load_rule_sources slug db))"
  unfolding load_rule_sources_def
  by (intro distinct_map_sort_filter distinct_values) (auto simp: rows_ok_def)

lemma has_rules_mono: "has_rules es p ss \<Longrightarrow> es \<subseteq> es' \<Longrightarrow> ss \<subseteq> ss' \<Longrightarrow> has_rules es' p ss'"
  by (auto simp: has_rules_def)

definition with_entries :: "(string, rule_entry) btmap \<Rightarrow> db \<Rightarrow> db" where
  "with_entries m db = db\<lparr>db_rule_entries := m\<rparr>"

lemma with_entries_tables:
  "db_rule_sets (with_entries m db) = db_rule_sets db" "db_rule_sources (with_entries m db) = db_rule_sources db"
  "db_rule_entries (with_entries m db) = m" "sources_in k (with_entries m db) = sources_in k db"
  by (simp_all add: with_entries_def sources_in_def)

lemma put_entry_rows:
  assumes "rows_ok db" and "is_ok (rule_entry_compiled e)"
  shows "rows_ok (with_entries (bt_insert (re_id e) e (db_rule_entries db)) db)"
    and "entries_in k (with_entries (bt_insert (re_id e) e (db_rule_entries db)) db)
       = {v \<in> entries_in k db. re_id v \<noteq> re_id e} \<union> (if re_rule_set_id e = k then {e} else {})"
proof -
  show "rows_ok (with_entries (bt_insert (re_id e) e (db_rule_entries db)) db)"
    using assms unfolding rows_ok_def with_entries_tables
    by (auto simp: bt_get_insert bt_wf_insert split: if_splits)
  have "re_id v = i" if "bt_get (db_rule_entries db) i = Some v" for i v
    using rows_okD(5) [OF assms(1) that] by simp
  then show "entries_in k (with_entries (bt_insert (re_id e) e (db_rule_entries db)) db)
       = {v \<in> entries_in k db. re_id v \<noteq> re_id e} \<union> (if re_rule_set_id e = k then {e} else {})"
    unfolding entries_in_def with_entries_tables bt_get_insert by (auto split: if_splits)
qed

lemma put_entry_inv:
  assumes "rules_inv db" and "is_ok (rule_entry_compiled e)"
    and "\<And>c. bt_get (db_rule_entries db) (re_id e) = Some c \<Longrightarrow> re_rule_set_id c = re_rule_set_id e"
    and "\<And>s. bt_get (db_rule_sets db) (re_rule_set_id e) = Some s \<Longrightarrow> rs_enabled s \<Longrightarrow>
      has_rules (insert e {v \<in> entries_in (re_rule_set_id e) db. re_id v \<noteq> re_id e}) (rs_payload s)
        (sources_in (re_rule_set_id e) db)"
  shows "rules_inv (with_entries (bt_insert (re_id e) e (db_rule_entries db)) db)"
proof -
  have rows: "rows_ok db" using assms(1) by (simp add: rules_inv_def)
  note p = put_entry_rows [OF rows assms(2)]
  have "has_rules (entries_in k (with_entries (bt_insert (re_id e) e (db_rule_entries db)) db))
      (rs_payload s) (sources_in k db)"
    if "bt_get (db_rule_sets db) k = Some s" "rs_enabled s" for k s
  proof (cases "re_rule_set_id e = k")
    case True
    then show ?thesis using assms(4) that unfolding p(2) by simp
  next
    case False
    have "v \<in> entries_in k (with_entries (bt_insert (re_id e) e (db_rule_entries db)) db)"
      if "v \<in> entries_in k db" for v
    proof -
      obtain i where i: "bt_get (db_rule_entries db) i = Some v" "re_rule_set_id v = k"
        using \<open>v \<in> entries_in k db\<close> by (auto simp: entries_in_def)
      have "re_id v = i" using rows_okD(5) [OF rows i(1)] by simp
      then have "re_id v \<noteq> re_id e" using assms(3) [of v] i False by metis
      then show ?thesis unfolding p(2) using \<open>v \<in> entries_in k db\<close> False by simp
    qed
    then show ?thesis using has_rules_mono assms(1) that unfolding rules_inv_def by blast
  qed
  then show ?thesis using p(1) unfolding rules_inv_def with_entries_tables by blast
qed

text \<open>Restricting the entries: what is left must suffice for the sets that are enabled.\<close>

lemma drop_entries_inv:
  assumes "rules_inv db" and "bt_wf m"
    and "\<And>i. bt_get m i = (if P i then bt_get (db_rule_entries db) i else None)"
    and "\<And>k s. bt_get (db_rule_sets db) k = Some s \<Longrightarrow> rs_enabled s \<Longrightarrow>
      has_rules {e \<in> entries_in k db. P (re_id e)} (rs_payload s) (sources_in k db)"
  shows "rules_inv (with_entries m db)"
proof -
  have rows: "rows_ok db" using assms(1) by (simp add: rules_inv_def)
  have id: "re_id v = i" if "bt_get (db_rule_entries db) i = Some v" for i v
    using rows_okD(5) [OF rows that] by simp
  have "rows_ok (with_entries m db)"
    using rows assms(2) unfolding rows_ok_def with_entries_tables assms(3) by (auto split: if_splits)
  moreover have "entries_in k (with_entries m db) = {e \<in> entries_in k db. P (re_id e)}" for k
    unfolding entries_in_def with_entries_tables assms(3) using id by (auto split: if_splits)
  ultimately show ?thesis using assms(4) unfolding rules_inv_def with_entries_tables by simp
qed

lemma entry_validate_compiled: "rule_entry_validate e = Inr () \<Longrightarrow> is_ok (rule_entry_compiled e)"
  by (auto simp: rule_entry_validate_def and_then_Inr_iff is_ok_iff split: if_splits)

lemma compiled_trimmed: "rule_entry_compiled (e\<lparr>re_value := trim (re_value e)\<rparr>) = rule_entry_compiled e"
  by (simp add: rule_entry_compiled_def Let_def)

lemma compile_enabled_Inr: "compile_enabled s es ss = Inr () \<longleftrightarrow>
    (rs_enabled s \<longrightarrow> is_ok (compile_rule_set_payload es (rs_payload s) ss))"
  unfolding compile_enabled_def guard_Inr ..

lemma upsert_entry_inv:
  assumes "upsert_rule_entry_inner e event now db = Inr (x, db')" and "rules_inv db"
    and "\<And>c. bt_get (db_rule_entries db) (re_id e) = Some c \<Longrightarrow> re_rule_set_id c = re_rule_set_id e"
  shows "rules_inv db'"
proof -
  let ?k = "re_rule_set_id e"
  let ?e = "e\<lparr>re_value := trim (re_value e)\<rparr>"
  have rows: "rows_ok db" using assms(2) by (simp add: rules_inv_def)
  from assms(1) obtain s where
    val: "rule_entry_validate e = Inr ()" and s: "find_rule_set ?k db = Inr s"
    and comp: "compile_enabled s (replace_or_push (\<lambda>v. re_id v = re_id e) e (load_rule_entries ?k db))
         (load_rule_sources ?k db) = Inr ()"
    and aud: "audit_opt event now (with_entries (bt_insert (re_id ?e) ?e (db_rule_entries db)) db) = Inr (x, db')"
    by (auto simp: upsert_rule_entry_inner_def and_then_Inr_iff with_entries_def)
  have set: "bt_get (db_rule_sets db) ?k = Some s" using find_rule_set_Inr [OF rows s] by simp
  have sub: "set (replace_or_push (\<lambda>v. re_id v = re_id e) e (load_rule_entries ?k db))
      \<subseteq> insert e {v \<in> entries_in ?k db. re_id v \<noteq> re_id e}"
    using replace_or_push_set [OF distinct_load_entries [OF rows], of e] set_load_entries [OF rows] by simp
  have "has_rules (insert ?e {v \<in> entries_in ?k db. re_id v \<noteq> re_id ?e}) (rs_payload s) (sources_in ?k db)"
    if "rs_enabled s"
  proof -
    have "has_rules (insert e {v \<in> entries_in ?k db. re_id v \<noteq> re_id e}) (rs_payload s) (sources_in ?k db)"
      using comp that sub unfolding compile_enabled_Inr compile_ok_iff set_load_sources [OF rows] has_rules_def
      by blast
    then show ?thesis by (auto simp: has_rules_def)
  qed
  then have "rules_inv (with_entries (bt_insert (re_id ?e) ?e (db_rule_entries db)) db)"
    using assms(3) set entry_validate_compiled [OF val] compiled_trimmed [of e]
    by (intro put_entry_inv [OF assms(2)]) auto
  then show ?thesis by (rule audited_inv [OF aud])
qed

lemma checked_rest:
  assumes "rules_inv db" and "compile_enabled s (filter P (load_rule_entries k db)) (load_rule_sources k db) = Inr ()"
    and "bt_get (db_rule_sets db) k = Some s" and "rs_enabled s"
  shows "has_rules {e \<in> entries_in k db. P e} (rs_payload s) (sources_in k db)"
proof -
  have rows: "rows_ok db" using assms(1) by (simp add: rules_inv_def)
  show ?thesis
    using assms(2,4) unfolding compile_enabled_Inr compile_ok_iff set_filter set_load_entries [OF rows]
      set_load_sources [OF rows] by (simp add: has_rules_def)
qed

lemma delete_entry_inv:
  assumes "delete_rule_entry_inner i event now db = Inr (x, db')" and "rules_inv db"
  shows "rules_inv db'"
proof -
  have rows: "rows_ok db" using assms(2) by (simp add: rules_inv_def)
  from assms(1) obtain e s where
    e: "bt_get (db_rule_entries db) i = Some e" and s: "find_rule_set (re_rule_set_id e) db = Inr s"
    and comp: "compile_enabled s (filter (\<lambda>v. re_id v \<noteq> i) (load_rule_entries (rs_slug s) db))
         (load_rule_sources (rs_slug s) db) = Inr ()"
    and aud: "audit_opt event now (with_entries (bt_remove i (db_rule_entries db)) db) = Inr (x, db')"
    by (auto simp: delete_rule_entry_inner_def and_then_Inr_iff with_entries_def split: option.splits)
  note set = find_rule_set_Inr [OF rows s]
  have "rules_inv (with_entries (bt_remove i (db_rule_entries db)) db)"
  proof (rule drop_entries_inv [OF assms(2), where P = "\<lambda>j. j \<noteq> i"])
    show "bt_wf (bt_remove i (db_rule_entries db))" by (rule bt_wf_remove [OF rows_okD(2) [OF rows]])
    show "bt_get (bt_remove i (db_rule_entries db)) j = (if j \<noteq> i then bt_get (db_rule_entries db) j else None)" for j
      using bt_get_remove [OF rows_okD(2) [OF rows]] by simp
  next
    fix k t assume t: "bt_get (db_rule_sets db) k = Some t" "rs_enabled t"
    show "has_rules {e \<in> entries_in k db. re_id e \<noteq> i} (rs_payload t) (sources_in k db)"
    proof (cases "k = re_rule_set_id e")
      case True
      then show ?thesis using checked_rest [OF assms(2), of s "\<lambda>v. re_id v \<noteq> i" k] comp set t by simp
    next
      case False
      have "re_id v \<noteq> i" if v: "v \<in> entries_in k db" for v
      proof
        assume i: "re_id v = i"
        obtain j where j: "bt_get (db_rule_entries db) j = Some v" "re_rule_set_id v = k"
          using v by (auto simp: entries_in_def)
        then have "j = i" using rows_okD(5) [OF rows j(1)] i by simp
        then show False using j e False by simp
      qed
      then have "{e \<in> entries_in k db. re_id e \<noteq> i} = entries_in k db" by blast
      then show ?thesis using assms(2) t unfolding rules_inv_def by simp
    qed
  qed
  then show ?thesis by (rule audited_inv [OF aud])
qed

lemma fold_remove:
  "bt_wf m \<Longrightarrow> bt_wf (fold bt_remove ds m) \<and>
     (\<forall>j. bt_get (fold bt_remove ds m) j = (if j \<notin> set ds then bt_get m j else None))"
proof (induction ds arbitrary: m)
  case (Cons d ds)
  show ?case using Cons.IH [OF bt_wf_remove [OF Cons.prems], of d] bt_get_remove [OF Cons.prems, of d] by auto
qed simp

lemma duplicate_ids_subset: "set (duplicate_ids seen es) \<subseteq> re_id ` set es"
  by (induction seen es rule: duplicate_ids.induct) (auto simp: Let_def)

lemma deduplicate_inv:
  assumes "deduplicate_rule_entries_inner slug event now db = Inr (n, db')" and "rules_inv db"
  shows "rules_inv db'"
proof -
  have rows: "rows_ok db" using assms(2) by (simp add: rules_inv_def)
  let ?ds = "duplicate_ids [] (load_rule_entries slug db)"
  from assms(1) obtain s x where
    s: "find_rule_set slug db = Inr s"
    and comp: "compile_enabled s (filter (\<lambda>e. re_id e \<notin> set ?ds) (load_rule_entries slug db))
         (load_rule_sources slug db) = Inr ()"
    and aud: "audit_opt (map_option (\<lambda>e. e\<lparr>ae_metadata := metadata_count (length ?ds)\<rparr>) event) now
        (with_entries (fold bt_remove ?ds (db_rule_entries db)) db) = Inr (x, db')"
    by (auto simp: deduplicate_rule_entries_inner_def and_then_Inr_iff with_entries_def Let_def)
  note set = find_rule_set_Inr [OF rows s] and fr = fold_remove [OF rows_okD(2) [OF rows], of ?ds]
  have "rules_inv (with_entries (fold bt_remove ?ds (db_rule_entries db)) db)"
  proof (rule drop_entries_inv [OF assms(2), where P = "\<lambda>j. j \<notin> set ?ds"])
    show "bt_wf (fold bt_remove ?ds (db_rule_entries db))" using fr by simp
    show "bt_get (fold bt_remove ?ds (db_rule_entries db)) j
        = (if j \<notin> set ?ds then bt_get (db_rule_entries db) j else None)" for j using fr by simp
  next
    fix k t assume t: "bt_get (db_rule_sets db) k = Some t" "rs_enabled t"
    show "has_rules {e \<in> entries_in k db. re_id e \<notin> set ?ds} (rs_payload t) (sources_in k db)"
    proof (cases "k = slug")
      case True
      then show ?thesis using checked_rest [OF assms(2) comp, of ] set t by simp
    next
      case False
      have "re_id v \<notin> set ?ds" if v: "v \<in> entries_in k db" for v
      proof
        assume "re_id v \<in> set ?ds"
        then obtain w where w: "w \<in> entries_in slug db" "re_id w = re_id v"
          using duplicate_ids_subset set_load_entries [OF rows] by fastforce
        have "v = w" using v w rows_okD(5) [OF rows] by (fastforce simp: entries_in_def)
        then show False using v w False by (auto simp: entries_in_def)
      qed
      then have "{e \<in> entries_in k db. re_id e \<notin> set ?ds} = entries_in k db" by blast
      then show ?thesis using assms(2) t unfolding rules_inv_def by simp
    qed
  qed
  then show ?thesis by (rule audited_inv [OF aud])
qed

text \<open>Plain insertions only add rows.\<close>

lemma insert_entries_effect:
  assumes "insert_entries es db = Inr db'" and "rows_ok db" and "\<forall>e \<in> set es. is_ok (rule_entry_compiled e)"
  shows "rows_ok db' \<and> db_rule_sets db' = db_rule_sets db \<and> db_rule_sources db' = db_rule_sources db
    \<and> (\<forall>k. entries_in k db \<subseteq> entries_in k db')
    \<and> (\<forall>e \<in> set es. e\<lparr>re_value := trim (re_value e)\<rparr> \<in> entries_in (re_rule_set_id e) db')"
  using assms
proof (induction es arbitrary: db)
  case (Cons e es)
  let ?e = "e\<lparr>re_value := trim (re_value e)\<rparr>"
  let ?db = "with_entries (bt_insert (re_id ?e) ?e (db_rule_entries db)) db"
  have fresh: "bt_get (db_rule_entries db) (re_id e) = None" and rest: "insert_entries es ?db = Inr db'"
    using Cons.prems(1) by (auto simp: with_entries_def split: if_splits)
  have ok: "is_ok (rule_entry_compiled ?e)" using Cons.prems(3) compiled_trimmed [of e] by simp
  note p = put_entry_rows [OF Cons.prems(2) ok]
  have "re_id v \<noteq> re_id e" if "v \<in> entries_in k db" for v k
    using that fresh rows_okD(5) [OF Cons.prems(2)] by (fastforce simp: entries_in_def)
  then have sub: "entries_in k db \<subseteq> entries_in k ?db" for k unfolding p(2) by auto
  have own: "?e \<in> entries_in (re_rule_set_id e) ?db" unfolding p(2) by simp
  show ?case
    using Cons.IH [OF rest p(1)] Cons.prems(3) sub own by (fastforce simp: with_entries_tables)
qed simp

lemma bulk_additions_ok:
  "bulk_additions fresh slug kind tag k seen priority vs = Inr es \<Longrightarrow>
     \<forall>e \<in> set es. rule_entry_validate e = Inr () \<and> re_rule_set_id e = slug"
  by (induction vs arbitrary: k seen priority es) (auto simp: and_then_Inr_iff Let_def split: if_splits)

lemma and_thenE: "and_then x f = Inr r \<Longrightarrow> (\<And>a. x = Inr a \<Longrightarrow> f a = Inr r \<Longrightarrow> P) \<Longrightarrow> P"
  by (cases x) auto

lemma rules_inv_mono:
  assumes "rules_inv db" and "rows_ok db'" and "db_rule_sets db' = db_rule_sets db"
    and "\<And>k. entries_in k db \<subseteq> entries_in k db'" and "\<And>k. sources_in k db \<subseteq> sources_in k db'"
  shows "rules_inv db'"
proof -
  have "has_rules (entries_in k db') (rs_payload s) (sources_in k db')"
    if "bt_get (db_rule_sets db') k = Some s" "rs_enabled s" for k s
  proof (rule has_rules_mono [OF _ assms(4) assms(5)])
    show "has_rules (entries_in k db) (rs_payload s) (sources_in k db)"
      using that assms(1,3) by (simp add: rules_inv_def)
  qed
  then show ?thesis using assms(2) by (simp add: rules_inv_def)
qed

lemma bulk_add_steps:
  assumes "bulk_add_rule_entries_inner slug kind input tag event fresh now db = Inr (n, db')"
  shows "\<exists>vs additions db1 y. bulk_additions fresh slug kind tag 0
        (map (\<lambda>e. entry_key (re_kind e) (trim (re_value e))) (load_rule_entries slug db))
        (max_priority (load_rule_entries slug db)) vs = Inr additions
    \<and> insert_entries additions db = Inr db1
    \<and> audit_opt (map_option (\<lambda>e. e\<lparr>ae_metadata := metadata_count (length additions)\<rparr>) event) now db1
        = Inr y \<and> snd y = db'"
  using assms unfolding bulk_add_rule_entries_inner_def Let_def case_prod_beta
  apply (cases "MAX_BULK_LINES < length (filter (\<lambda>l. l \<noteq> []) (map trim (lines input)))")
   apply (simp only: if_True sum.distinct simp_thms)
  apply (simp only: if_False)
  apply (erule and_thenE)+
  apply (simp only: sum.inject prod.inject)
  by blast

lemma bulk_add_inv:
  assumes "bulk_add_rule_entries_inner slug kind input tag event fresh now db = Inr (n, db')" and "rules_inv db"
  shows "rules_inv db'"
proof -
  have rows: "rows_ok db" using assms(2) by (simp add: rules_inv_def)
  from bulk_add_steps [OF assms(1)] obtain vs additions db1 y where
    add: "bulk_additions fresh slug kind tag 0
        (map (\<lambda>e. entry_key (re_kind e) (trim (re_value e))) (load_rule_entries slug db))
        (max_priority (load_rule_entries slug db)) vs = Inr additions"
    and ins: "insert_entries additions db = Inr db1"
    and aud: "audit_opt (map_option (\<lambda>e. e\<lparr>ae_metadata := metadata_count (length additions)\<rparr>) event) now db1
        = Inr y" and y: "snd y = db'" by blast
  have aud': "audit_opt (map_option (\<lambda>e. e\<lparr>ae_metadata := metadata_count (length additions)\<rparr>) event) now db1
        = Inr (fst y, db')" using aud y by (cases y) simp
  have "\<forall>e \<in> set additions. is_ok (rule_entry_compiled e)"
    using bulk_additions_ok [OF add] entry_validate_compiled by blast
  note effect = insert_entries_effect [OF ins rows this]
  have "sources_in k db \<subseteq> sources_in k db1" for k using effect by (simp add: sources_in_def)
  then have "rules_inv db1" using rules_inv_mono [OF assms(2)] effect by blast
  then show ?thesis by (rule audited_inv [OF aud'])
qed

subsection \<open>Writing sources\<close>

definition with_sources :: "(string, rule_set_source) btmap \<Rightarrow> db \<Rightarrow> db" where
  "with_sources m db = db\<lparr>db_rule_sources := m\<rparr>"

lemma with_sources_tables:
  "db_rule_sets (with_sources m db) = db_rule_sets db" "db_rule_entries (with_sources m db) = db_rule_entries db"
  "db_rule_sources (with_sources m db) = m" "entries_in k (with_sources m db) = entries_in k db"
  by (simp_all add: with_sources_def entries_in_def)

lemma put_source_rows:
  assumes "rows_ok db" and "payload_ok (src_cached_payload r)"
  shows "rows_ok (with_sources (bt_insert (src_id r) r (db_rule_sources db)) db)"
    and "sources_in k (with_sources (bt_insert (src_id r) r (db_rule_sources db)) db)
       = {v \<in> sources_in k db. src_id v \<noteq> src_id r} \<union> (if src_rule_set_id r = k then {r} else {})"
proof -
  show "rows_ok (with_sources (bt_insert (src_id r) r (db_rule_sources db)) db)"
    using assms unfolding rows_ok_def with_sources_tables
    by (auto simp: bt_get_insert bt_wf_insert split: if_splits)
  have "src_id v = i" if "bt_get (db_rule_sources db) i = Some v" for i v
    using rows_okD(6) [OF assms(1) that] by simp
  then show "sources_in k (with_sources (bt_insert (src_id r) r (db_rule_sources db)) db)
       = {v \<in> sources_in k db. src_id v \<noteq> src_id r} \<union> (if src_rule_set_id r = k then {r} else {})"
    unfolding sources_in_def with_sources_tables bt_get_insert by (auto split: if_splits)
qed

lemma put_source_inv:
  assumes "rules_inv db" and "payload_ok (src_cached_payload r)"
    and "\<And>c. bt_get (db_rule_sources db) (src_id r) = Some c \<Longrightarrow> src_rule_set_id c = src_rule_set_id r"
    and "\<And>s. bt_get (db_rule_sets db) (src_rule_set_id r) = Some s \<Longrightarrow> rs_enabled s \<Longrightarrow>
      has_rules (entries_in (src_rule_set_id r) db) (rs_payload s)
        (insert r {v \<in> sources_in (src_rule_set_id r) db. src_id v \<noteq> src_id r})"
  shows "rules_inv (with_sources (bt_insert (src_id r) r (db_rule_sources db)) db)"
proof -
  have rows: "rows_ok db" using assms(1) by (simp add: rules_inv_def)
  note p = put_source_rows [OF rows assms(2)]
  have "has_rules (entries_in k db) (rs_payload s)
      (sources_in k (with_sources (bt_insert (src_id r) r (db_rule_sources db)) db))"
    if "bt_get (db_rule_sets db) k = Some s" "rs_enabled s" for k s
  proof (cases "src_rule_set_id r = k")
    case True
    then show ?thesis using assms(4) that unfolding p(2) by simp
  next
    case False
    have "v \<in> sources_in k (with_sources (bt_insert (src_id r) r (db_rule_sources db)) db)"
      if "v \<in> sources_in k db" for v
    proof -
      obtain i where i: "bt_get (db_rule_sources db) i = Some v" "src_rule_set_id v = k"
        using \<open>v \<in> sources_in k db\<close> by (auto simp: sources_in_def)
      have "src_id v = i" using rows_okD(6) [OF rows i(1)] by simp
      then have "src_id v \<noteq> src_id r" using assms(3) [of v] i False by metis
      then show ?thesis unfolding p(2) using \<open>v \<in> sources_in k db\<close> False by simp
    qed
    then show ?thesis using has_rules_mono assms(1) that unfolding rules_inv_def by blast
  qed
  then show ?thesis using p(1) unfolding rules_inv_def with_sources_tables by blast
qed

lemma get_rule_source_row:
  assumes "rows_ok db"
  shows "get_rule_source i db = bt_get (db_rule_sources db) i"
proof (cases "bt_get (db_rule_sources db) i")
  case (Some s)
  have id: "src_id s = i" using rows_okD(6) [OF assms Some] by simp
  have "s \<in> set (load_rule_sources (src_rule_set_id s) db)"
    using Some set_load_sources [OF assms] by (auto simp: sources_in_def)
  then obtain t where t: "List.find (\<lambda>r. src_id r = i) (load_rule_sources (src_rule_set_id s) db) = Some t"
    using find_Some_if [of _ "\<lambda>r. src_id r = i"] id by blast
  then have "t \<in> sources_in (src_rule_set_id s) db" "src_id t = i"
    using find_Some_mem [OF t] set_load_sources [OF assms] by auto
  then have "bt_get (db_rule_sources db) i = Some t"
    using rows_okD(6) [OF assms] by (fastforce simp: sources_in_def)
  then show ?thesis using Some t by (simp add: get_rule_source_def)
qed (simp add: get_rule_source_def)

lemma upsert_source_inv:
  assumes "upsert_rule_source_inner r event now db = Inr (x, db')" and "rules_inv db"
    and "\<And>c. bt_get (db_rule_sources db) (src_id r) = Some c \<Longrightarrow> src_rule_set_id c = src_rule_set_id r"
    and "payload_ok (src_cached_payload r)"
  shows "rules_inv db'"
proof -
  let ?k = "src_rule_set_id r"
  let ?r = "case bt_get (db_rule_sources db) (src_id r) of None \<Rightarrow> r | Some c \<Rightarrow> keep_fetched c r"
  have rows: "rows_ok db" using assms(2) by (simp add: rules_inv_def)
  have r: "src_id ?r = src_id r" "src_rule_set_id ?r = ?k" "payload_ok (src_cached_payload ?r)"
    using rows_okD(6) [OF rows] assms(4) by (auto simp: keep_fetched_def split: option.split)
  from assms(1) obtain s where s: "find_rule_set ?k db = Inr s"
    and comp: "compile_enabled s (load_rule_entries ?k db)
        (replace_or_push (\<lambda>v. src_id v = src_id r) ?r (load_rule_sources ?k db)) = Inr ()"
    and aud: "audit_opt event now (with_sources (bt_insert (src_id r) ?r (db_rule_sources db)) db) = Inr (x, db')"
    unfolding upsert_rule_source_inner_def get_rule_source_row [OF rows] Let_def
    by (auto simp: and_then_Inr_iff with_sources_def split: if_splits)
  have set: "bt_get (db_rule_sets db) ?k = Some s" using find_rule_set_Inr [OF rows s] by simp
  have sub: "set (replace_or_push (\<lambda>v. src_id v = src_id r) ?r (load_rule_sources ?k db))
      \<subseteq> insert ?r {v \<in> sources_in ?k db. src_id v \<noteq> src_id r}"
    using replace_or_push_set [OF distinct_load_sources [OF rows], of ?r] set_load_sources [OF rows]
    unfolding r(1) by simp
  have "has_rules (entries_in ?k db) (rs_payload s) (insert ?r {v \<in> sources_in ?k db. src_id v \<noteq> src_id r})"
    if "rs_enabled s"
    using comp that sub unfolding compile_enabled_Inr compile_ok_iff set_load_entries [OF rows] has_rules_def
    by blast
  then have "rules_inv (with_sources (bt_insert (src_id ?r) ?r (db_rule_sources db)) db)"
    using assms(3) set r by (intro put_source_inv [OF assms(2)]) auto
  then show ?thesis using audited_inv [OF aud] unfolding r(1) by blast
qed

lemma replace_source_inv:
  assumes "rules_inv db" and "bt_get (db_rule_sources db) i = Some c"
    and "src_id r = i" "src_rule_set_id r = src_rule_set_id c" "src_enabled r = src_enabled c"
    and "payload_ok (src_cached_payload r)"
    and "trim (src_cached_payload r) = [] \<Longrightarrow> trim (src_cached_payload c) = []"
  shows "rules_inv (with_sources (bt_insert i r (db_rule_sources db)) db)"
proof -
  have rows: "rows_ok db" using assms(1) by (simp add: rules_inv_def)
  have "rules_inv (with_sources (bt_insert (src_id r) r (db_rule_sources db)) db)"
  proof (rule put_source_inv [OF assms(1,6)])
    show "src_rule_set_id v = src_rule_set_id r" if "bt_get (db_rule_sources db) (src_id r) = Some v" for v
      using that assms(2,3,4) by simp
  next
    fix s assume s: "bt_get (db_rule_sets db) (src_rule_set_id r) = Some s" "rs_enabled s"
    then have "has_rules (entries_in (src_rule_set_id r) db) (rs_payload s) (sources_in (src_rule_set_id r) db)"
      using assms(1) unfolding rules_inv_def by blast
    moreover have "v = c \<or> v \<in> {v \<in> sources_in (src_rule_set_id r) db. src_id v \<noteq> src_id r}"
      if "v \<in> sources_in (src_rule_set_id r) db" for v
      using that assms(2,3) rows_okD(6) [OF rows] by (fastforce simp: sources_in_def)
    ultimately show "has_rules (entries_in (src_rule_set_id r) db) (rs_payload s)
        (insert r {v \<in> sources_in (src_rule_set_id r) db. src_id v \<noteq> src_id r})"
      using assms(5,7) unfolding has_rules_def by blast
  qed
  then show ?thesis unfolding assms(3) .
qed

lemma source_success_inv:
  assumes "update_rule_source_success_inner r event now db = Inr (x, db')" and "rules_inv db"
    and "payload_ok (src_cached_payload r)"
    and "\<And>c. bt_get (db_rule_sources db) (src_id r) = Some c \<Longrightarrow> trim (src_cached_payload r) = [] \<Longrightarrow>
      trim (src_cached_payload c) = []"
  shows "rules_inv db'"
proof -
  have rows: "rows_ok db" using assms(2) by (simp add: rules_inv_def)
  from assms(1) obtain c where c: "bt_get (db_rule_sources db) (src_id r) = Some c"
    and aud: "audit_opt event now (with_sources (bt_insert (src_id r)
         (c\<lparr>src_etag := src_etag r, src_last_modified := src_last_modified r,
           src_last_successful_fetch := src_last_successful_fetch r, src_checksum := src_checksum r,
           src_entry_count := src_entry_count r, src_last_error := None,
           src_cached_payload := src_cached_payload r\<rparr>) (db_rule_sources db)) db) = Inr (x, db')"
    by (auto simp: update_rule_source_success_inner_def with_sources_def split: option.splits)
  show ?thesis
    using rows_okD(6) [OF rows c] assms(3,4) c
    by (intro audited_inv [OF aud] replace_source_inv [OF assms(2) c]) auto
qed

lemma source_error_inv:
  assumes "rules_inv db"
  shows "rules_inv (update_rule_source_error take_chars i error db)"
proof (cases "bt_get (db_rule_sources db) i")
  case (Some c)
  have rows: "rows_ok db" using assms by (simp add: rules_inv_def)
  have "rules_inv (with_sources (bt_insert i (c\<lparr>src_last_error := Some (take_chars 512 error)\<rparr>) (db_rule_sources db)) db)"
    using rows_okD(6) [OF rows Some] by (intro replace_source_inv [OF assms Some]) auto
  then show ?thesis using Some by (simp add: update_rule_source_error_def with_sources_def)
qed (simp add: update_rule_source_error_def assms)

lemma delete_source_inv:
  assumes "delete_rule_source_inner i event now db = Inr (x, db')" and "rules_inv db"
  shows "rules_inv db'"
proof -
  have rows: "rows_ok db" using assms(2) by (simp add: rules_inv_def)
  from assms(1) obtain r s where
    r: "bt_get (db_rule_sources db) i = Some r" and s: "find_rule_set (src_rule_set_id r) db = Inr s"
    and comp: "compile_enabled s (load_rule_entries (rs_slug s) db)
        (filter (\<lambda>v. src_id v \<noteq> i) (load_rule_sources (rs_slug s) db)) = Inr ()"
    and aud: "audit_opt event now (with_sources (bt_remove i (db_rule_sources db)) db) = Inr (x, db')"
    by (auto simp: delete_rule_source_inner_def and_then_Inr_iff with_sources_def ok_or_Inr_iff
        get_rule_source_row [OF rows])
  note set = find_rule_set_Inr [OF rows s]
  let ?db = "with_sources (bt_remove i (db_rule_sources db)) db"
  have get: "bt_get (bt_remove i (db_rule_sources db)) j = (if j \<noteq> i then bt_get (db_rule_sources db) j else None)" for j
    using bt_get_remove [OF rows_okD(3) [OF rows]] by simp
  have rows': "rows_ok ?db"
    using rows bt_wf_remove [OF rows_okD(3) [OF rows]]
    unfolding rows_ok_def with_sources_tables get by (auto split: if_splits)
  have srcs: "sources_in k ?db = {v \<in> sources_in k db. src_id v \<noteq> i}" for k
    using rows_okD(6) [OF rows] unfolding sources_in_def with_sources_tables get
    by (auto split: if_splits)
  have "has_rules (entries_in k db) (rs_payload t) {v \<in> sources_in k db. src_id v \<noteq> i}"
    if t: "bt_get (db_rule_sets db) k = Some t" "rs_enabled t" for k t
  proof (cases "k = src_rule_set_id r")
    case True
    then show ?thesis
      using comp t set unfolding compile_enabled_Inr compile_ok_iff set_filter set_load_entries [OF rows]
        set_load_sources [OF rows] has_rules_def by auto
  next
    case False
    have "src_id v \<noteq> i" if v: "v \<in> sources_in k db" for v
    proof
      assume i: "src_id v = i"
      obtain j where j: "bt_get (db_rule_sources db) j = Some v" "src_rule_set_id v = k"
        using v by (auto simp: sources_in_def)
      then have "j = i" using rows_okD(6) [OF rows j(1)] i by simp
      then show False using j r False by simp
    qed
    then have "{v \<in> sources_in k db. src_id v \<noteq> i} = sources_in k db" by blast
    then show ?thesis using assms(2) t unfolding rules_inv_def by simp
  qed
  then have "rules_inv ?db" using rows' unfolding rules_inv_def srcs with_sources_tables by blast
  then show ?thesis by (rule audited_inv [OF aud])
qed

lemma insert_sources_effect:
  assumes "insert_sources rs db = Inr db'" and "rows_ok db" and "\<forall>r \<in> set rs. payload_ok (src_cached_payload r)"
  shows "rows_ok db' \<and> db_rule_sets db' = db_rule_sets db \<and> db_rule_entries db' = db_rule_entries db
    \<and> (\<forall>k. sources_in k db \<subseteq> sources_in k db') \<and> (\<forall>r \<in> set rs. r \<in> sources_in (src_rule_set_id r) db')"
  using assms
proof (induction rs arbitrary: db)
  case (Cons r rs)
  let ?db = "with_sources (bt_insert (src_id r) r (db_rule_sources db)) db"
  have fresh: "bt_get (db_rule_sources db) (src_id r) = None" and rest: "insert_sources rs ?db = Inr db'"
    using Cons.prems(1) by (auto simp: with_sources_def split: if_splits)
  have ok: "payload_ok (src_cached_payload r)" using Cons.prems(3) by simp
  note p = put_source_rows [OF Cons.prems(2) ok]
  have "src_id v \<noteq> src_id r" if "v \<in> sources_in k db" for v k
    using that fresh rows_okD(6) [OF Cons.prems(2)] by (fastforce simp: sources_in_def)
  then have sub: "sources_in k db \<subseteq> sources_in k ?db" for k unfolding p(2) by auto
  have own: "r \<in> sources_in (src_rule_set_id r) ?db" unfolding p(2) by simp
  show ?case
    using Cons.IH [OF rest p(1)] Cons.prems(3) sub own by (fastforce simp: with_sources_tables)
qed simp

subsection \<open>Cloning\<close>

lemma compiled_copy: "rule_entry_compiled (e\<lparr>re_id := i, re_rule_set_id := j\<rparr>) = rule_entry_compiled e"
  by (simp add: rule_entry_compiled_def Let_def)

lemma set_enumerate_snd: "(k, x) \<in> set (enumerate n xs) \<Longrightarrow> x \<in> set xs"
  by (auto simp: enumerate_eq_zip dest: set_zip_rightD)

lemma enumerate_mem: "x \<in> set xs \<Longrightarrow> \<exists>k. (k, x) \<in> set (enumerate n xs)"
  by (metis in_set_conv_nth length_enumerate nth_enumerate_eq)

lemma clone_inv:
  assumes "clone_routing_rule_set_inner source new_slug event fresh now db = Inr (x, db')" and "rules_inv db"
  shows "rules_inv db'"
proof -
  have rows: "rows_ok db" using assms(2) by (simp add: rules_inv_def)
  obtain s c es ss db1 db2 where
    s: "List.find (\<lambda>s. rs_slug s = source) (load_routing_rule_sets db) = Some s"
    and c: "c = s\<lparr>rs_slug := trim new_slug, rs_title := rs_title s @ '' copy''\<rparr>"
    and new: "bt_get (db_rule_sets db) (rs_slug c) = None"
    and es: "es = map (\<lambda>(k, e). e\<lparr>re_id := fresh k, re_rule_set_id := rs_slug c\<rparr>)
        (enumerate 0 (load_rule_entries source db))"
    and ss: "ss = map (\<lambda>(k, r). r\<lparr>src_id := fresh k, src_rule_set_id := rs_slug c\<rparr>)
        (enumerate (length (load_rule_entries source db)) (load_rule_sources source db))"
    and ins: "insert_entries es (put_rule_set c db) = Inr db1" "insert_sources ss db1 = Inr db2"
    and aud: "audit_opt event now db2 = Inr (x, db')"
    using assms(1) unfolding clone_routing_rule_set_inner_def Let_def
    by (auto simp: and_then_Inr_iff ok_or_Inr_iff split: if_split_asm)
  have find: "find_rule_set source db = Inr s" using s by (simp add: find_rule_set_def)
  note set = find_rule_set_Inr [OF rows find]
  have ok: "payload_ok (rs_payload c)" using rows_okD [OF rows] set unfolding c by auto
  note put = put_rule_set_rows [OF rows ok]
  have es_ok: "\<forall>e \<in> set es. is_ok (rule_entry_compiled e)"
    using set_load_entries [OF rows] rows_okD(5) [OF rows] unfolding es
    by (fastforce simp: compiled_copy entries_in_def dest: set_enumerate_snd)
  have ss_ok: "\<forall>r \<in> set ss. payload_ok (src_cached_payload r)"
    using set_load_sources [OF rows] rows_okD(6) [OF rows] unfolding ss
    by (fastforce simp: sources_in_def dest: set_enumerate_snd)
  note e1 = insert_entries_effect [OF ins(1) put es_ok]
  note e2 = insert_sources_effect [OF ins(2) _ ss_ok]
  have rows1: "rows_ok db1" and rows2: "rows_ok db2" using e1 e2 by blast+
  have sub: "entries_in k db \<subseteq> entries_in k db2" "sources_in k db \<subseteq> sources_in k db2" for k
    using e1 e2 unfolding put_rule_set_tables by (auto simp: entries_in_def sources_in_def put_rule_set_def)
  have sets: "bt_get (db_rule_sets db2) k = (if k = rs_slug c then Some c else bt_get (db_rule_sets db) k)" for k
    using e1 e2 by (simp add: put_rule_set_tables)
  have copied: "has_rules (entries_in (rs_slug c) db2) (rs_payload c) (sources_in (rs_slug c) db2)"
    if "rs_enabled c"
  proof -
    have "has_rules (entries_in source db) (rs_payload s) (sources_in source db)"
      using assms(2) set that unfolding rules_inv_def c by simp
    then consider e where "e \<in> entries_in source db" "re_enabled e" | "trim (rs_payload c) \<noteq> []"
      | r where "r \<in> sources_in source db" "src_enabled r" "trim (src_cached_payload r) \<noteq> []"
      unfolding has_rules_def c by auto
    then show ?thesis
    proof cases
      case 1
      then obtain k where "(k, e) \<in> set (enumerate 0 (load_rule_entries source db))"
        using enumerate_mem set_load_entries [OF rows] by metis
      then have "e\<lparr>re_id := fresh k, re_rule_set_id := rs_slug c\<rparr> \<in> set es" unfolding es by force
      with e1 obtain e' where "e' \<in> entries_in (rs_slug c) db1" "re_enabled e' = re_enabled e" by fastforce
      then show ?thesis using 1(2) e2 rows1 by (auto simp: has_rules_def entries_in_def)
    next
      case 2
      then show ?thesis by (simp add: has_rules_def)
    next
      case 3
      then obtain k where "(k, r) \<in> set (enumerate (length (load_rule_entries source db)) (load_rule_sources source db))"
        using enumerate_mem set_load_sources [OF rows] by metis
      then have "r\<lparr>src_id := fresh k, src_rule_set_id := rs_slug c\<rparr> \<in> set ss" unfolding ss by force
      with e2 rows1 have "r\<lparr>src_id := fresh k, src_rule_set_id := rs_slug c\<rparr> \<in> sources_in (rs_slug c) db2"
        by fastforce
      then show ?thesis unfolding has_rules_def using 3(2,3) by force
    qed
  qed
  have "has_rules (entries_in k db2) (rs_payload t) (sources_in k db2)"
    if "bt_get (db_rule_sets db2) k = Some t" "rs_enabled t" for k t
  proof (cases "k = rs_slug c")
    case True
    then show ?thesis using that copied unfolding sets by simp
  next
    case False
    show ?thesis
    proof (rule has_rules_mono [OF _ sub])
      show "has_rules (entries_in k db) (rs_payload t) (sources_in k db)"
        using that False assms(2) unfolding sets rules_inv_def by simp
    qed
  qed
  then have "rules_inv db2" using rows2 unfolding rules_inv_def by blast
  then show ?thesis by (rule audited_inv [OF aud])
qed

end
