(* ===== verification/Store_Rules_Steps.thy ===== *)
theory Store_Rules_Steps
  imports Store_Rules_Inv
begin

text \<open>
  Every operation that writes the three rule tables, as one step relation, and the invariant over
  whole runs: rule-set edits, entries, sources, the retargeting that comes with a renamed pool, and
  the bootstrap with its one-time upgrades.
\<close>

subsection \<open>Retargeting\<close>

definition retargeted :: "(routing_rule_set \<Rightarrow> string) \<Rightarrow> (string, routing_rule_set) btmap \<Rightarrow> (string, routing_rule_set) btmap" where
  "retargeted t m = map (\<lambda>(k, s). (k, s\<lparr>rs_target := t s\<rparr>)) m"

lemma bt_get_retargeted: "bt_get (retargeted t m) k = map_option (\<lambda>s. s\<lparr>rs_target := t s\<rparr>) (bt_get m k)"
  by (induction m k rule: bt_get.induct) (auto simp: retargeted_def)

lemma bt_wf_retargeted: "bt_wf (retargeted t m) = bt_wf m"
  by (simp add: bt_wf_def retargeted_def comp_def split_def)

lemma retargeted_inv:
  assumes "rules_inv db" and "rule_tables db' = (retargeted t (db_rule_sets db), db_rule_entries db, db_rule_sources db)"
  shows "rules_inv db'"
proof -
  have tables: "db_rule_sets db' = retargeted t (db_rule_sets db)" "db_rule_entries db' = db_rule_entries db"
    "db_rule_sources db' = db_rule_sources db"
    using assms(2) by (simp_all add: rule_tables_def)
  have parts: "entries_in k db' = entries_in k db" "sources_in k db' = sources_in k db" for k
    by (simp_all add: entries_in_def sources_in_def tables)
  have "rows_ok db'"
    using assms(1) unfolding rules_inv_def rows_ok_def tables bt_wf_retargeted bt_get_retargeted by auto
  then show ?thesis
    using assms(1) unfolding rules_inv_def parts tables bt_get_retargeted by auto
qed

lemma retarget_if: "map (\<lambda>(k, s). (k, if rs_target s = old then s\<lparr>rs_target := new\<rparr> else s)) m
    = retargeted (\<lambda>s. if rs_target s = old then new else rs_target s) m"
  by (auto simp: retargeted_def)

lemma bump_rule_tables: "bump_desired_generation op now db = Inr (g, db') \<Longrightarrow> rule_tables db' = rule_tables db"
  by (auto simp: rule_tables_def db_simps)

lemma same_rules_inv: "rules_inv db \<Longrightarrow> rule_tables db' = rule_tables db \<Longrightarrow> rules_inv db'"
  using rules_inv_tables by blast

text \<open>The rows written by \<open>save\_client\_policy\<close>, before the generation and the audit log.\<close>

definition policy_rows :: "client_policy \<Rightarrow> (string \<times> string) option \<Rightarrow> db \<Rightarrow> db" where
  "policy_rows p renamed db =
     (let db = db\<lparr>db_pools := pool_rows (cp_pools p), db_members := concat (map member_rows (cp_pools p)),
            db_policy_rules := cp_rules p\<rparr> in
      case renamed of None \<Rightarrow> db
      | Some (old, new) \<Rightarrow> db\<lparr>db_rule_sets := map (\<lambda>(k, s). (k,
          if rs_target s = old then s\<lparr>rs_target := new\<rparr> else s)) (db_rule_sets db)\<rparr>)"

lemma save_policy_Inr:
  "save_client_policy p renamed event op now db = Inr (x, db') \<longleftrightarrow>
     distinct (map tp_id (cp_pools p)) \<and> distinct (map rr_id (cp_rules p))
     \<and> (\<exists>g db2. bump_desired_generation op now (policy_rows p renamed db) = Inr (g, db2) \<and> audit_opt event now db2 = Inr (x, db'))"
  unfolding save_client_policy_def policy_rows_def Let_def by (auto simp: and_then_Inr_iff)

lemma policy_rows_inv:
  assumes "rules_inv db"
  shows "rules_inv (policy_rows p renamed db)"
proof (cases renamed)
  case None
  then show ?thesis by (intro same_rules_inv [OF assms]) (simp add: rule_tables_def policy_rows_def)
next
  case (Some r)
  obtain old new where "r = (old, new)" by (cases r)
  then show ?thesis
    using Some by (intro retargeted_inv [OF assms, of _ "\<lambda>s. if rs_target s = old then new else rs_target s"])
      (simp add: rule_tables_def policy_rows_def retarget_if)
qed

lemma save_policy_inv:
  assumes "save_client_policy p renamed event op now db = Inr (x, db')" and "rules_inv db"
  shows "rules_inv db'"
proof -
  from assms(1) obtain g db2 where bump: "bump_desired_generation op now (policy_rows p renamed db) = Inr (g, db2)"
    and aud: "audit_opt event now db2 = Inr (x, db')" unfolding save_policy_Inr by blast
  show ?thesis
    by (rule audited_inv [OF aud same_rules_inv [OF policy_rows_inv [OF assms(2)] bump_rule_tables [OF bump]]])
qed

subsection \<open>Bootstrap\<close>

lemma retarget_pool_inv: "rules_inv db \<Longrightarrow> rules_inv (retarget_pool legacy db)"
  by (erule retargeted_inv) (simp add: rule_tables_def retarget_pool_def retarget_if)

lemma remove_pool_rows_inv: "rules_inv db \<Longrightarrow> rules_inv (remove_pool_rows ids db)"
  by (erule same_rules_inv) (simp add: rule_tables_def remove_pool_rows_def)

lemma fold_inv: "(\<And>x db. rules_inv db \<Longrightarrow> rules_inv (f x db)) \<Longrightarrow> rules_inv db \<Longrightarrow> rules_inv (fold f xs db)"
  by (induction xs arbitrary: db) auto

lemma smart_auto_inv:
  assumes "ensure_smart_auto_client_policy db = Inr db'" and "rules_inv db"
  shows "rules_inv db'"
proof (cases "''smart-auto-client-routing-v1'' \<in> set (db_bootstrap db)")
  case True
  then show ?thesis using assms by (simp add: ensure_smart_auto_client_policy_def upgrade_once_def)
next
  case False
  let ?db = "remove_pool_rows REPLACED_POOLS (fold retarget_pool LEGACY_POOLS db)"
  have "rules_inv ?db" using assms(2) by (intro remove_pool_rows_inv fold_inv retarget_pool_inv)
  moreover have "rule_tables db' = rule_tables ?db"
    using assms(1) False
    by (auto simp: ensure_smart_auto_client_policy_def upgrade_once_def Let_def and_then_Inr_iff
        insert_default_policy_def rule_tables_def split: if_split_asm)
  ultimately show ?thesis by (rule same_rules_inv)
qed

lemma drop_legacy_inv: "rules_inv db \<Longrightarrow> rules_inv (drop_legacy_rule_set slug db)"
  by (rule same_rules_inv [OF drop_rule_set_inv]) (simp_all add: drop_legacy_rule_set_def Let_def rule_tables_def)

lemma upsert_custom_inv:
  assumes "rules_inv db" and "\<not> rs_enabled c" and "rs_payload c = []"
  shows "rules_inv (upsert_custom_direct c db)"
proof -
  let ?s = "case bt_get (db_rule_sets db) (rs_slug c) of None \<Rightarrow> c | Some s \<Rightarrow> s\<lparr>rs_target := ''DIRECT''\<rparr>"
  have rows: "rows_ok db" using assms(1) by (simp add: rules_inv_def)
  have s: "rs_slug ?s = rs_slug c" "payload_ok (rs_payload ?s)"
    "rs_enabled ?s \<Longrightarrow> has_rules (entries_in (rs_slug c) db) (rs_payload ?s) (sources_in (rs_slug c) db)"
    using rows_okD(4) [OF rows] assms by (auto simp: payload_ok_def rules_inv_def split: option.splits)
  have "upsert_custom_direct c db = put_rule_set ?s db"
    using s(1) by (simp add: upsert_custom_direct_def put_rule_set_def)
  then show ?thesis using put_rule_set_inv [OF assms(1) s(2)] s(1,3) by simp
qed

lemma default_sets: "default_routing_rule_sets = [\<lparr>rs_slug = CUSTOM_DIRECT_SLUG, rs_title = ''Manual DIRECT exceptions'',
    rs_effect = ''Operator-managed exceptions evaluated before Russian geodata.'', rs_target = ''DIRECT'',
    rs_enabled = False, rs_payload = []\<rparr>]"
  by (simp add: default_routing_rule_sets_def DEFAULT_RULE_SETS_def)

lemma daily_cleanup_inv:
  assumes "ensure_daily_routing_cleanup db = Inr db'" and "rules_inv db"
  shows "rules_inv db'"
proof (cases "''daily-client-routing-v2'' \<in> set (db_bootstrap db)")
  case True
  then show ?thesis using assms by (simp add: ensure_daily_routing_cleanup_def upgrade_once_def)
next
  case False
  let ?db = "fold drop_legacy_rule_set LEGACY_RULE_SETS
      (fold (\<lambda>legacy db. remove_pool_rows [legacy] (retarget_pool legacy db)) LEGACY_POOLS db)"
  let ?c = "hd default_routing_rule_sets"
  have "rules_inv ?db"
    using assms(2) by (intro fold_inv drop_legacy_inv remove_pool_rows_inv retarget_pool_inv)
  then have "rules_inv (upsert_custom_direct ?c ?db)" by (rule upsert_custom_inv) (simp_all add: default_sets)
  moreover have "rule_tables db' = rule_tables (upsert_custom_direct ?c ?db)"
    using assms(1) False unfolding ensure_daily_routing_cleanup_def upgrade_once_def Let_def default_sets
    by (simp, drule_tac sym, simp add: rule_tables_def)
  ultimately show ?thesis by (rule same_rules_inv)
qed

text \<open>No values of the settings that older versions kept for the rule sets.\<close>

definition no_legacy_values :: "db \<Rightarrow> bool" where
  "no_legacy_values db \<longleftrightarrow> get_setting (routing_setting_key CUSTOM_DIRECT_SLUG ''enabled'') db = None
     \<and> get_setting (routing_setting_key CUSTOM_DIRECT_SLUG ''payload'') db = None"

lemma bootstrap_inv:
  assumes "ensure_default_routing_rule_sets db = Inr db'" and "no_legacy_values db" and "rules_inv db"
  shows "rules_inv db'"
proof -
  let ?s = "rule_set_from_settings db (hd default_routing_rule_sets)"
  have s: "\<not> rs_enabled ?s" "rs_payload ?s = []" "payload_ok []"
    using assms(2) by (simp_all add: rule_set_from_settings_def Let_def default_sets no_legacy_values_def payload_ok_def)
  have "rules_inv (insert_rule_set_if_missing ?s db)"
    using put_rule_set_inv [OF assms(3), of ?s] assms(3) s
    by (auto simp: insert_rule_set_if_missing_def put_rule_set_def split: option.splits)
  moreover have "rule_tables (bootstrap_client_routing db)
      = (if ''client-routing'' \<in> set (db_bootstrap db) then rule_tables db else rule_tables (insert_rule_set_if_missing ?s db))"
    by (simp add: bootstrap_client_routing_def Let_def default_sets rule_tables_def ensure_default_dns_policy_def
        ensure_default_client_policy_def split: option.splits)
  ultimately have "rules_inv (bootstrap_client_routing db)"
    using same_rules_inv [OF assms(3)] same_rules_inv by (metis (full_types))
  then show ?thesis
    using assms(1) smart_auto_inv daily_cleanup_inv
    by (auto simp: ensure_default_routing_rule_sets_def and_then_Inr_iff)
qed

subsection \<open>Steps\<close>

text \<open>
  The premises on entries and sources are what the callers keep and the operations do not check: an
  identifier stays in its set, and text fetched from a source was validated before it is stored.
\<close>

inductive rule_step :: "db \<Rightarrow> db \<Rightarrow> bool" where
  bootstrap: "ensure_default_routing_rule_sets db = Inr db' \<Longrightarrow> no_legacy_values db \<Longrightarrow> rule_step db db'"
| update_set: "update_routing_rule_set_inner u event now db = Inr (x, db') \<Longrightarrow> rule_step db db'"
| create_set: "create_routing_rule_set_inner v event now db = Inr (x, db') \<Longrightarrow> rule_step db db'"
| save_set: "save_routing_rule_set_inner v event now db = Inr (x, db') \<Longrightarrow> rule_step db db'"
| delete_set: "delete_routing_rule_set_inner slug event now db = Inr (x, db') \<Longrightarrow> rule_step db db'"
| clone_set: "clone_routing_rule_set_inner source slug event fresh now db = Inr (x, db') \<Longrightarrow> rule_step db db'"
| upsert_entry: "upsert_rule_entry_inner e event now db = Inr (x, db') \<Longrightarrow>
    (\<And>c. bt_get (db_rule_entries db) (re_id e) = Some c \<Longrightarrow> re_rule_set_id c = re_rule_set_id e) \<Longrightarrow> rule_step db db'"
| delete_entry: "delete_rule_entry_inner i event now db = Inr (x, db') \<Longrightarrow> rule_step db db'"
| bulk_add: "bulk_add_rule_entries_inner slug kind input tag event fresh now db = Inr (n, db') \<Longrightarrow> rule_step db db'"
| deduplicate: "deduplicate_rule_entries_inner slug event now db = Inr (n, db') \<Longrightarrow> rule_step db db'"
| upsert_source: "upsert_rule_source_inner r event now db = Inr (x, db') \<Longrightarrow>
    (\<And>c. bt_get (db_rule_sources db) (src_id r) = Some c \<Longrightarrow> src_rule_set_id c = src_rule_set_id r) \<Longrightarrow>
    payload_ok (src_cached_payload r) \<Longrightarrow> rule_step db db'"
| fetched: "update_rule_source_success_inner r event now db = Inr (x, db') \<Longrightarrow>
    validate_classical_rule_payload body = Inr rules \<Longrightarrow> src_cached_payload r = join [newline] rules \<Longrightarrow>
    rule_step db db'"
| not_modified: "update_rule_source_success_inner r event now db = Inr (x, db') \<Longrightarrow>
    bt_get (db_rule_sources db) (src_id r) = Some c \<Longrightarrow> src_cached_payload r = src_cached_payload c \<Longrightarrow>
    rule_step db db'"
| fetch_failed: "rule_step db (update_rule_source_error take_chars i error db)"
| delete_source: "delete_rule_source_inner i event now db = Inr (x, db') \<Longrightarrow> rule_step db db'"
| save_policy: "save_client_policy p renamed event op now db = Inr (x, db') \<Longrightarrow> rule_step db db'"
| elsewhere: "rule_tables db' = rule_tables db \<Longrightarrow> rule_step db db'"

lemma rule_step_inv:
  assumes "rule_step db db'" and "rules_inv db"
  shows "rules_inv db'"
  using assms(1)
proof cases
  case (fetched r event now x body rules)
  have "payload_ok (src_cached_payload r)" "trim (src_cached_payload r) \<noteq> []"
    using stored_payload [OF fetched(2)] fetched(3) by simp_all
  then show ?thesis using source_success_inv [OF fetched(1) assms(2)] by blast
next
  case (not_modified r event now x c)
  have "payload_ok (src_cached_payload r)"
    using rows_okD(6) [OF _ not_modified(2)] not_modified(3) assms(2) by (simp add: rules_inv_def)
  then show ?thesis using source_success_inv [OF not_modified(1) assms(2)] not_modified(2,3) by simp
next
  case (upsert_source r event now x)
  then show ?thesis using upsert_source_inv assms(2) by blast
next
  case (upsert_entry e event now x)
  then show ?thesis using upsert_entry_inv assms(2) by blast
next
  case elsewhere
  then show ?thesis using same_rules_inv assms(2) by blast
qed (insert assms(2), auto intro: bootstrap_inv update_rule_set_inv create_rule_set_inv save_rule_set_inv
  delete_rule_set_inv clone_inv delete_entry_inv bulk_add_inv deduplicate_inv source_error_inv delete_source_inv
  save_policy_inv)

lemma rule_steps_inv: "rule_step\<^sup>*\<^sup>* db db' \<Longrightarrow> rules_inv db \<Longrightarrow> rules_inv db'"
  by (induction rule: rtranclp_induct) (auto intro: rule_step_inv)

lemma empty_rules_inv: "rules_inv (empty_db now)"
  by (simp add: rules_inv_def rows_ok_def empty_db_def)

end
