(* ===== verification/Store_Profiles.thy ===== *)
theory Store_Profiles
  imports Store_Admins Store_Users
begin

text \<open>
  The protocol profiles of \<open>storage.rs\<close>, their adapter migration, and the desired state that the
  reconciler loads. The profile rows carry the adapter configuration as JSON text; the codec and the
  adapters' migrations are parameters.
\<close>

record new_profile =
  np_name :: string
  np_display_name :: string
  np_protocol_id :: string
  np_schema_version :: u32
  np_role :: proxy_role
  np_enabled :: bool
  np_server :: string
  np_port :: u16
  np_preferred_core :: "string option"
  np_managed_resource :: "string option"
  np_config :: json

record update_profile =
  up_name :: string
  up_display_name :: string
  up_expected :: "instant option"
  up_enabled :: bool
  up_server :: string
  up_port :: u16
  up_preferred_core :: "string option"
  up_managed_resource :: "string option"
  up_config :: json

definition new_profile_from :: "protocol_profile \<Rightarrow> new_profile" where
  "new_profile_from p =
     \<lparr>np_name = pr_name p, np_display_name = pr_display_name p, np_protocol_id = pr_protocol_id p,
      np_schema_version = pr_schema_version p, np_role = pr_role p, np_enabled = pr_enabled p,
      np_server = pr_server p, np_port = pr_port p, np_preferred_core = pr_preferred_core p,
      np_managed_resource = pr_managed_resource p, np_config = pr_config p\<rparr>"

text \<open>The row of a new profile: the texts trimmed, the role and configuration serialized.\<close>

definition profile_row_of :: "json_codec \<Rightarrow> new_profile \<Rightarrow> int \<Rightarrow> instant \<Rightarrow> profile_row" where
  "profile_row_of codec input i now =
     \<lparr>pf_id = i, pf_name = trim (np_name input), pf_display_name = trim (np_display_name input),
      pf_kind = trim (np_protocol_id input), pf_role = role_name (np_role input),
      pf_enabled = np_enabled input, pf_server = trim (np_server input), pf_port = uint (np_port input),
      pf_config = jc_write codec (np_config input), pf_schema_version = uint (np_schema_version input),
      pf_preferred_core = np_preferred_core input, pf_managed_resource = np_managed_resource input,
      pf_created = now, pf_updated = now\<rparr>"

text \<open>The CHECK constraints of the table.\<close>

definition profile_row_ok :: "profile_row \<Rightarrow> bool" where
  "profile_row_ok r \<longleftrightarrow> 0 < pf_port r \<and> pf_port r \<le> 65535 \<and> 0 < pf_schema_version r"

definition profile_by_name :: "string \<Rightarrow> db \<Rightarrow> profile_row option" where
  "profile_by_name name db = List.find (\<lambda>r. pf_name r = name) (db_profiles db)"

definition get_protocol_profile_by_name :: "string \<Rightarrow> db \<Rightarrow> profile_row option" where
  "get_protocol_profile_by_name name db = profile_by_name (trim name) db"

definition list_protocol_profiles :: "db \<Rightarrow> profile_row list" where
  "list_protocol_profiles db = sort_key (\<lambda>r. (pf_role r, pf_display_name r, pf_name r)) (db_profiles db)"

definition insert_profile :: "profile_row \<Rightarrow> db \<Rightarrow> db res" where
  "insert_profile r db =
     (if \<not> profile_row_ok r then Err ''CHECK constraint failed''
      else if pf_name r \<in> pf_name ` set (db_profiles db) then Err ''UNIQUE constraint failed''
      else Ok (db\<lparr>db_profile_seq := db_profile_seq db + 1, db_profiles := db_profiles db @ [r]\<rparr>))"

definition bump_when :: "bool \<Rightarrow> uuid \<Rightarrow> instant \<Rightarrow> db \<Rightarrow> db res" where
  "bump_when b op now db =
     (if b then and_then (bump_desired_generation op now db) (\<lambda>(_, db). Ok db) else Ok db)"

definition create_protocol_profile_inner ::
  "json_codec \<Rightarrow> new_profile \<Rightarrow> audit_event option \<Rightarrow> uuid \<Rightarrow> instant \<Rightarrow> profile_row tx" where
  "create_protocol_profile_inner codec input event op now db =
     and_then (insert_profile (profile_row_of codec input (db_profile_seq db + 1) now) db) (\<lambda>db.
     and_then (bump_when (np_enabled input) op now db) (\<lambda>db.
     and_then (audit_opt event now db) (\<lambda>(_, db).
     and_then (ok_or ''protocol profile was not created'' (get_protocol_profile_by_name (np_name input) db)) (\<lambda>r.
       Ok (r, db)))))"

text \<open>\<open>INSERT ... ON CONFLICT(name) DO NOTHING\<close>: the CHECK constraints still apply.\<close>

definition ensure_protocol_profile :: "json_codec \<Rightarrow> new_profile \<Rightarrow> instant \<Rightarrow> db \<Rightarrow> db res" where
  "ensure_protocol_profile codec input now db =
     (let r = profile_row_of codec input (db_profile_seq db + 1) now in
      if \<not> profile_row_ok r then Err ''CHECK constraint failed''
      else if pf_name r \<in> pf_name ` set (db_profiles db) then Ok db
      else insert_profile r db)"

fun ensure_profiles :: "json_codec \<Rightarrow> protocol_profile list \<Rightarrow> instant \<Rightarrow> db \<Rightarrow> db res" where
  "ensure_profiles codec [] now db = Ok db"
| "ensure_profiles codec (p # ps) now db =
     and_then (ensure_protocol_profile codec (new_profile_from p) now db) (ensure_profiles codec ps now)"

definition bootstrap_complete :: "string \<Rightarrow> db \<Rightarrow> bool" where
  "bootstrap_complete key db \<longleftrightarrow> key \<in> set (db_bootstrap db)"

definition mark_bootstrap_complete :: "string \<Rightarrow> db \<Rightarrow> db" where
  "mark_bootstrap_complete key db =
     (if key \<in> set (db_bootstrap db) then db else db\<lparr>db_bootstrap := db_bootstrap db @ [key]\<rparr>)"

text \<open>One of the one-time upgrades: the listed defaults are added, then the key is set.\<close>

definition ensure_once ::
  "json_codec \<Rightarrow> string \<Rightarrow> protocol_profile list \<Rightarrow> instant \<Rightarrow> db \<Rightarrow> db res" where
  "ensure_once codec key ps now db =
     (if bootstrap_complete key db then Ok db
      else and_then (ensure_profiles codec ps now db) (\<lambda>db. Ok (mark_bootstrap_complete key db)))"

definition ensure_default_protocol_profiles ::
  "json_codec \<Rightarrow> protocol_profile list \<Rightarrow> instant \<Rightarrow> db \<Rightarrow> db res" where
  "ensure_default_protocol_profiles codec defaults now db =
     and_then (ensure_once codec ''protocol-profiles'' defaults now db) (\<lambda>db.
     and_then (ensure_once codec ''mihomo-protocol-profiles-v1''
        (filter (\<lambda>p. pr_protocol_id p \<in> {''trojan-tls'', ''snell-v5'', ''mieru''}) defaults) now db) (\<lambda>db.
     and_then (ensure_once codec ''modern-security-compositions-v1'' defaults now db) (\<lambda>db.
       ensure_once codec ''mihomo-verified-transports-v1''
        (filter (\<lambda>p. pr_protocol_id p \<in> {''vless-shadowtls-v3'', ''vless-restls'', ''vless-jls'',
          ''trusttunnel-h2'', ''shadowquic'', ''sudoku-httpmask''}) defaults) now db)))"

definition u16_of :: "int \<Rightarrow> u16 option" where
  "u16_of i = (if 0 \<le> i \<and> i < 2 ^ 16 then Some (of_int i) else None)"

definition decode_protocol_profile :: "json_codec \<Rightarrow> profile_row \<Rightarrow> protocol_profile res" where
  "decode_protocol_profile codec r =
     and_then (parse_role (pf_role r)) (\<lambda>role.
     and_then (jc_read codec (pf_config r)) (\<lambda>config.
     and_then (ok_or ''invalid protocol port'' (u16_of (pf_port r))) (\<lambda>port.
     and_then (ok_or ''invalid protocol schema version'' (u32_of (pf_schema_version r))) (\<lambda>v.
       Ok \<lparr>pr_name = pf_name r, pr_display_name = pf_display_name r, pr_protocol_id = pf_kind r,
         pr_schema_version = v, pr_role = role, pr_server = pf_server r, pr_port = port,
         pr_enabled = pf_enabled r, pr_preferred_core = pf_preferred_core r,
         pr_managed_resource = pf_managed_resource r, pr_config = config\<rparr>))))"

definition list_protocol_profiles_decoded :: "json_codec \<Rightarrow> db \<Rightarrow> protocol_profile list res" where
  "list_protocol_profiles_decoded codec db =
     collect_res (map (decode_protocol_profile codec) (list_protocol_profiles db))"

definition update_protocol_profile_inner ::
  "json_codec \<Rightarrow> update_profile \<Rightarrow> audit_event option \<Rightarrow> uuid \<Rightarrow> instant \<Rightarrow> profile_row tx" where
  "update_protocol_profile_inner codec input event op now db =
     and_then (ok_or ''protocol profile not found'' (profile_by_name (trim (up_name input)) db)) (\<lambda>old.
       if up_expected input \<noteq> None \<and> up_expected input \<noteq> Some (pf_updated old)
       then Err ''protocol profile changed in another session''
       else
         let display_name = trim (up_display_name input); server = trim (up_server input);
             config = jc_write codec (up_config input);
             changed = (display_name \<noteq> pf_display_name old \<or> up_enabled input \<noteq> pf_enabled old
               \<or> server \<noteq> pf_server old \<or> uint (up_port input) \<noteq> pf_port old \<or> config \<noteq> pf_config old
               \<or> up_preferred_core input \<noteq> pf_preferred_core old
               \<or> up_managed_resource input \<noteq> pf_managed_resource old) in
         if \<not> changed then Ok (old, db)
         else
           let runtime_changed = (up_enabled input \<noteq> pf_enabled old \<or> up_enabled input
                 \<and> (server \<noteq> pf_server old \<or> uint (up_port input) \<noteq> pf_port old \<or> config \<noteq> pf_config old
                    \<or> up_preferred_core input \<noteq> pf_preferred_core old
                    \<or> up_managed_resource input \<noteq> pf_managed_resource old));
               edit = (\<lambda>r. r\<lparr>pf_display_name := display_name, pf_enabled := up_enabled input,
                 pf_server := server, pf_port := uint (up_port input), pf_config := config,
                 pf_preferred_core := up_preferred_core input,
                 pf_managed_resource := up_managed_resource input, pf_updated := now\<rparr>);
               here = (\<lambda>r. pf_name r = pf_name old \<and> pf_updated r = pf_updated old) in
           if list_ex (\<lambda>r. here r \<and> \<not> profile_row_ok (edit r)) (db_profiles db)
           then Err ''CHECK constraint failed''
           else if length (filter here (db_profiles db)) \<noteq> 1
           then Err ''protocol profile changed in another session''
           else
             and_then (bump_when runtime_changed op now
               (db\<lparr>db_profiles := map (\<lambda>r. if here r then edit r else r) (db_profiles db)\<rparr>)) (\<lambda>db.
             and_then (audit_opt event now db) (\<lambda>(_, db).
             and_then (ok_or ''protocol profile was not updated'' (get_protocol_profile_by_name (pf_name old) db)) (\<lambda>r.
               Ok (r, db)))))"

definition protocol_profile_reference_count :: "string \<Rightarrow> db \<Rightarrow> nat" where
  "protocol_profile_reference_count name db =
     length (filter (\<lambda>m. mw_kind m = ''profile'' \<and> mw_value m = Some (trim name)) (db_members db))
     + length (filter (\<lambda>r. rr_target r = trim name) (db_policy_rules db))
     + length (filter (\<lambda>(_, s). rs_target s = trim name) (db_rule_sets db))"

text \<open>The deletion cascades to the runtime synchronisation rows of the profile.\<close>

definition delete_protocol_profile_audited ::
  "string \<Rightarrow> instant \<Rightarrow> audit_event \<Rightarrow> uuid \<Rightarrow> instant \<Rightarrow> bool tx" where
  "delete_protocol_profile_audited name expected event op now db =
     and_then (ok_or ''protocol profile not found'' (profile_by_name (trim name) db)) (\<lambda>old.
       if pf_updated old \<noteq> expected then Err ''protocol profile changed in another session''
       else if protocol_profile_reference_count name db \<noteq> 0
       then Err ''protocol profile is referenced by routing''
       else
         let here = (\<lambda>r. pf_name r = trim name \<and> pf_updated r = expected) in
         if length (filter here (db_profiles db)) \<noteq> 1
         then Err ''protocol profile changed in another session''
         else
           and_then (bump_when (pf_enabled old) op now
             (db\<lparr>db_profiles := filter (\<lambda>r. \<not> here r) (db_profiles db),
               db_user_sync := filter (\<lambda>((p, _), _). p \<noteq> trim name) (db_user_sync db)\<rparr>)) (\<lambda>db.
           and_then (append_audit_event_in_transaction event now db) (\<lambda>(_, db). Ok (pf_enabled old, db))))"

subsection \<open>Adapter migration\<close>

definition default_runtime_preference :: "string \<Rightarrow> string option" where
  "default_runtime_preference protocol_id =
     (if protocol_id \<in> {''shadowsocks2022-shadow-tls'', ''any-tls''} then Some ''sing-box''
      else if protocol_id = ''hysteria2'' then Some ''hysteria''
      else if protocol_id = ''tuic'' then Some ''tuic''
      else if protocol_id \<in> {''vless-reality-xhttp'', ''vless-reality-tcp'', ''vless-shadowtls-v3'',
        ''vless-restls'', ''vless-jls'', ''anytls-tls'', ''anytls-shadowtls-v3'', ''anytls-restls'',
        ''anytls-jls'', ''trojan-tls'', ''trojan-shadowtls-v3'', ''trojan-restls'', ''trojan-jls'',
        ''trojan-reality'', ''snell-v5'', ''snell-v5-shadowtls-v3'', ''snell-v5-restls'',
        ''snell-v5-jls'', ''mieru'', ''trusttunnel-h2'', ''shadowquic'', ''sudoku-httpmask''}
      then Some ''mihomo''
      else None)"

definition legacy_runtime_preference :: "string \<Rightarrow> string option" where
  "legacy_runtime_preference protocol_id =
     (if protocol_id \<in> {''vless-reality-xhttp'', ''vless-reality-tcp''} then Some ''xray''
      else default_runtime_preference protocol_id)"

text \<open>\<open>registry.get(kind)\<close> with its \<open>migrate\_config\<close>, for the adapters that are installed.\<close>

type_synonym config_migrations = "string \<Rightarrow> (u32 \<Rightarrow> json \<Rightarrow> (u32 \<times> json) res) option"

definition migrate_profile ::
  "json_codec \<Rightarrow> config_migrations \<Rightarrow> instant \<Rightarrow> profile_row \<Rightarrow> profile_row res" where
  "migrate_profile codec reg now r = (case reg (pf_kind r) of
       None \<Rightarrow> Ok r
     | Some migrate_config \<Rightarrow>
         and_then (jc_read codec (pf_config r)) (\<lambda>config.
         and_then (ok_or ''invalid adapter schema version'' (u32_of (pf_schema_version r))) (\<lambda>from_version.
         and_then (migrate_config from_version config) (\<lambda>(v, migrated).
           let json = jc_write codec migrated;
               core = (case pf_preferred_core r of Some c \<Rightarrow> Some c
                 | None \<Rightarrow> legacy_runtime_preference (pf_kind r));
               resource = (case pf_managed_resource r of Some m \<Rightarrow> Some m
                 | None \<Rightarrow> Some (''legacy-profile-'' @ show_int (pf_id r)));
               new = r\<lparr>pf_schema_version := uint v, pf_config := json, pf_preferred_core := core,
                 pf_managed_resource := resource, pf_updated := now\<rparr> in
           if v \<noteq> from_version \<or> json \<noteq> pf_config r \<or> core \<noteq> pf_preferred_core r
              \<or> resource \<noteq> pf_managed_resource r
           then (if profile_row_ok new then Ok new else Err ''CHECK constraint failed'')
           else Ok r))))"

definition migrate_protocol_adapter_configs ::
  "json_codec \<Rightarrow> config_migrations \<Rightarrow> instant \<Rightarrow> db \<Rightarrow> db res" where
  "migrate_protocol_adapter_configs codec reg now db =
     and_then (collect_res (map (migrate_profile codec reg now) (db_profiles db)))
       (\<lambda>rows. Ok (db\<lparr>db_profiles := rows\<rparr>))"

subsection \<open>The desired state\<close>

definition subscription_of :: "user_record \<Rightarrow> subscription_user" where
  "subscription_of u = \<lparr>su_username = us_username u, su_uuid = us_uuid u, su_token = us_token u\<rparr>"

definition load_desired_state_at :: "json_codec \<Rightarrow> instant \<Rightarrow> db \<Rightarrow> desired_state res" where
  "load_desired_state_at codec now db =
     (if rc_desired (db_reconcile db) < 0 then Err ''invalid desired generation''
      else and_then (collect_res (map (decode_protocol_profile codec)
          (sort_key (\<lambda>r. (pf_role r, pf_name r)) (db_profiles db)))) (\<lambda>profiles.
        Ok \<lparr>ds_generation = of_int (rc_desired (db_reconcile db)), ds_profiles = profiles,
          ds_users = map subscription_of (filter (\<lambda>u. access_allowed (access_state_at u now))
            (sort_key us_id (db_users db))),
          ds_settings = map (\<lambda>(k, s). (k, sv_value s)) (db_settings db),
          ds_infrastructure = []\<rparr>))"

end
