(* ===== verification/Store_Generations.thy ===== *)
theory Store_Generations
  imports Store_Profiles Store_Policy
begin

text \<open>
  The desired generation as a version number. The worker compares generations only, so a desired
  state that differs in anything a runtime sees must have another generation. The abstract machine is
  a versioned value: a step keeps both, or takes the next version with any value. The operations of
  \<open>storage.rs\<close> on profiles, settings and secrets refine it.
\<close>

subsection \<open>The abstract machine\<close>

inductive versioned_step :: "int \<times> 'v \<Rightarrow> int \<times> 'v \<Rightarrow> bool" where
  keep: "versioned_step (n, v) (n, v)"
| next_version: "versioned_step (n, v) (n + 1, w)"

lemma versioned_steps_mono:
  "versioned_step\<^sup>*\<^sup>* a b \<Longrightarrow> fst a \<le> fst b \<and> (fst a = fst b \<longrightarrow> snd a = snd b)"
  by (induction rule: rtranclp_induct) (auto elim!: versioned_step.cases)

subsection \<open>What a runtime sees\<close>

definition runtime_row :: "profile_row \<Rightarrow> profile_row" where
  "runtime_row r = r\<lparr>pf_display_name := [], pf_updated := 0\<rparr>"

definition row_key :: "profile_row \<Rightarrow> string \<times> string" where
  "row_key r = (pf_role r, pf_name r)"

definition DOMAIN_KEYS :: "string list" where
  "DOMAIN_KEYS = [''subscription_domain'', ''node_domain'']"

type_synonym runtime_view = "profile_row list \<times> string option list \<times> (string \<times> string) list"

definition runtime_view :: "db \<Rightarrow> runtime_view" where
  "runtime_view db =
     (map runtime_row (sort_key row_key (filter pf_enabled (db_profiles db))),
      map (\<lambda>k. map_option sv_value (get_setting k db)) DOMAIN_KEYS,
      map (\<lambda>(k, s). (k, sx_value s)) (db_secrets db))"

definition versioned_view :: "db \<Rightarrow> int \<times> runtime_view" where
  "versioned_view db = (rc_desired (db_reconcile db), runtime_view db)"

lemma view_cong:
  "db_profiles db' = db_profiles db \<Longrightarrow> db_settings db' = db_settings db \<Longrightarrow> db_secrets db' = db_secrets db \<Longrightarrow>
     runtime_view db' = runtime_view db"
  by (simp add: runtime_view_def get_setting_def)

lemma bumped_step:
  "rc_desired (db_reconcile db') = rc_desired (db_reconcile db) + 1 \<Longrightarrow> versioned_step (versioned_view db) (versioned_view db')"
  unfolding versioned_view_def by (simp add: next_version)

lemma kept_step:
  "rc_desired (db_reconcile db') = rc_desired (db_reconcile db) \<Longrightarrow> runtime_view db' = runtime_view db \<Longrightarrow>
     versioned_step (versioned_view db) (versioned_view db')"
  unfolding versioned_view_def by (simp add: keep)

subsection \<open>Profiles\<close>

lemma bump_when_desired:
  "bump_when b op now db = Inr db' \<Longrightarrow>
     rc_desired (db_reconcile db') = rc_desired (db_reconcile db) + (if b then 1 else 0)
     \<and> db_profiles db' = db_profiles db \<and> db_settings db' = db_settings db \<and> db_secrets db' = db_secrets db"
  by (auto simp: bump_when_def and_then_Inr_iff db_simps dest: bump_desired split: if_splits)

lemma create_profile_step:
  assumes "create_protocol_profile_inner codec input event op now db = Inr (r, db')"
  shows "versioned_step (versioned_view db) (versioned_view db')"
proof -
  let ?r = "profile_row_of codec input (db_profile_seq db + 1) now"
  from assms obtain db1 db2 x where ins: "insert_profile ?r db = Inr db1"
    and bump: "bump_when (np_enabled input) op now db1 = Inr db2" and aud: "audit_opt event now db2 = Inr (x, db')"
    by (auto simp: create_protocol_profile_inner_def and_then_Inr_iff)
  have db1: "db_profiles db1 = db_profiles db @ [?r]" "db_settings db1 = db_settings db" "db_secrets db1 = db_secrets db"
    "rc_desired (db_reconcile db1) = rc_desired (db_reconcile db)"
    using ins by (auto simp: insert_profile_def split: if_splits)
  note b = bump_when_desired [OF bump] and a = audit_opt_keeps [OF aud]
  show ?thesis
  proof (cases "np_enabled input")
    case True
    then show ?thesis using a b db1 by (intro bumped_step) simp
  next
    case False
    then show ?thesis using a b db1 by (intro kept_step)
      (simp_all add: runtime_view_def get_setting_def profile_row_of_def)
  qed
qed

lemma filter_one:
  "length (filter P xs) = 1 \<Longrightarrow> x \<in> set xs \<Longrightarrow> P x \<Longrightarrow> y \<in> set xs \<Longrightarrow> P y \<Longrightarrow> y = x"
  by (cases "filter P xs") (auto simp: filter_eq_Cons_iff dest!: arg_cong [of _ _ set])

lemma edited_rows_view:
  assumes "\<And>r. r \<in> set rows \<Longrightarrow> pf_role (e r) = pf_role r \<and> pf_name (e r) = pf_name r \<and> pf_enabled (e r) = pf_enabled r"
    and "\<And>r. r \<in> set rows \<Longrightarrow> pf_enabled r \<Longrightarrow> runtime_row (e r) = runtime_row r"
  shows "map runtime_row (sort_key row_key (filter pf_enabled (map e rows)))
    = map runtime_row (sort_key row_key (filter pf_enabled rows))"
  using assms
proof -
  have key: "row_key r = row_key (runtime_row r)" for r by (simp add: row_key_def runtime_row_def)
  have swap: "map runtime_row (sort_key row_key xs) = sort_key row_key (map runtime_row xs)" for xs
  proof -
    have "row_key = row_key \<circ> runtime_row" using key by (auto simp: comp_def)
    then show ?thesis using map_sort_key [of runtime_row row_key xs] by metis
  qed
  have "map runtime_row (filter pf_enabled (map e rows)) = map runtime_row (filter pf_enabled rows)"
    using assms by (induction rows) auto
  then show ?thesis unfolding swap by simp
qed

lemma update_profile_step:
  assumes "update_protocol_profile_inner codec input event op now db = Inr (r, db')"
  shows "versioned_step (versioned_view db) (versioned_view db')"
proof -
  from assms obtain old where old: "profile_by_name (trim (up_name input)) db = Some old"
    by (auto simp: update_protocol_profile_inner_def and_then_Inr_iff ok_or_Inr_iff)
  then have mem: "old \<in> set (db_profiles db)" unfolding profile_by_name_def by (auto dest: find_Some_mem)
  let ?config = "jc_write codec (up_config input)"
  let ?edit = "\<lambda>r. r\<lparr>pf_display_name := trim (up_display_name input), pf_enabled := up_enabled input,
      pf_server := trim (up_server input), pf_port := uint (up_port input), pf_config := ?config,
      pf_preferred_core := up_preferred_core input, pf_managed_resource := up_managed_resource input, pf_updated := now\<rparr>"
  let ?here = "\<lambda>r. pf_name r = pf_name old \<and> pf_updated r = pf_updated old"
  let ?runtime = "up_enabled input \<noteq> pf_enabled old \<or> up_enabled input
      \<and> (trim (up_server input) \<noteq> pf_server old \<or> uint (up_port input) \<noteq> pf_port old \<or> ?config \<noteq> pf_config old
         \<or> up_preferred_core input \<noteq> pf_preferred_core old \<or> up_managed_resource input \<noteq> pf_managed_resource old)"
  let ?rows = "map (\<lambda>r. if ?here r then ?edit r else r) (db_profiles db)"
  consider "db' = db"
    | db2 x where "length (filter ?here (db_profiles db)) = 1"
        "bump_when ?runtime op now (db\<lparr>db_profiles := ?rows\<rparr>) = Inr db2" "audit_opt event now db2 = Inr (x, db')"
    using assms unfolding update_protocol_profile_inner_def old Let_def
    by (auto simp: and_then_Inr_iff ok_or_Inr_iff split: if_split_asm)
  then show ?thesis
  proof cases
    case 1
    then show ?thesis by (simp add: kept_step)
  next
    case (2 db2 x)
    note b = bump_when_desired [OF 2(2)] and a = audit_opt_keeps [OF 2(3)]
    show ?thesis
    proof (cases ?runtime)
      case True
      then show ?thesis using a b by (intro bumped_step) simp
    next
      case False
      have same: "pf_enabled (?edit r) = pf_enabled r \<and> (pf_enabled r \<longrightarrow> runtime_row (?edit r) = runtime_row r)"
        if "r \<in> set (db_profiles db)" "?here r" for r
      proof -
        have "r = old" using filter_one [OF 2(1) mem _ that(1)] that(2) by blast
        then show ?thesis using False by (simp add: runtime_row_def)
      qed
      have "map runtime_row (sort_key row_key (filter pf_enabled ?rows))
          = map runtime_row (sort_key row_key (filter pf_enabled (db_profiles db)))"
      proof (rule edited_rows_view)
        fix r assume r: "r \<in> set (db_profiles db)"
        let ?e = "if ?here r then ?edit r else r"
        show "pf_role ?e = pf_role r \<and> pf_name ?e = pf_name r \<and> pf_enabled ?e = pf_enabled r"
          using same [OF r] by simp
        assume en: "pf_enabled r"
        have "runtime_row (?edit r) = runtime_row r" if "?here r" using same [OF r that] en by blast
        then show "runtime_row ?e = runtime_row r" by (simp only: split: if_split) blast
      qed
      then have "runtime_view db' = runtime_view db"
        using a b by (simp add: runtime_view_def get_setting_def)
      then show ?thesis using a b False by (intro kept_step) simp_all
    qed
  qed
qed

lemma delete_profile_step:
  assumes "delete_protocol_profile_audited name expected event op now db = Inr (b, db')"
  shows "versioned_step (versioned_view db) (versioned_view db')"
proof -
  let ?here = "\<lambda>r. pf_name r = trim name \<and> pf_updated r = expected"
  let ?db = "db\<lparr>db_profiles := filter (\<lambda>r. \<not> ?here r) (db_profiles db),
      db_user_sync := filter (\<lambda>((p, _), _). p \<noteq> trim name) (db_user_sync db)\<rparr>"
  from assms obtain old db2 x where old: "profile_by_name (trim name) db = Some old" "pf_updated old = expected"
    and one: "length (filter ?here (db_profiles db)) = 1"
    and bump: "bump_when (pf_enabled old) op now ?db = Inr db2" and aud: "append_audit_event_in_transaction event now db2 = Inr (x, db')"
    by (auto simp: delete_protocol_profile_audited_def Let_def and_then_Inr_iff ok_or_Inr_iff split: if_split_asm)
  have mem: "old \<in> set (db_profiles db)" "pf_name old = trim name"
    using old(1) unfolding profile_by_name_def by (auto dest: find_Some_mem)
  have "audit_opt (Some event) now db2 = Inr (x, db')" using aud by (simp add: audit_opt_def)
  note b = bump_when_desired [OF bump] and a = audit_opt_keeps [OF this]
  show ?thesis
  proof (cases "pf_enabled old")
    case True
    then show ?thesis using a b by (intro bumped_step) simp
  next
    case False
    have "r = old" if "r \<in> set (db_profiles db)" "?here r" for r
      using filter_one [OF one mem(1) _ that(1)] that(2) old(2) mem(2) by blast
    then have "filter pf_enabled (filter (\<lambda>r. \<not> ?here r) (db_profiles db)) = filter pf_enabled (db_profiles db)"
      using False by (auto simp: filter_filter intro!: filter_cong)
    then have "runtime_view db' = runtime_view db"
      using a b by (simp add: runtime_view_def get_setting_def)
    then show ?thesis using a b False by (intro kept_step) simp_all
  qed
qed

subsection \<open>Settings and secrets\<close>

lemma upsert_setting_get:
  "get_setting k (upsert_setting j v now db) = (if trim k = trim j then Some \<lparr>sv_value = v, sv_updated = now\<rparr> else get_setting k db)"
  by (auto simp: get_setting_def upsert_setting_def bt_get_insert)

lemma upsert_setting_keeps:
  "db_profiles (upsert_setting k v now db) = db_profiles db" "db_secrets (upsert_setting k v now db) = db_secrets db"
  "db_reconcile (upsert_setting k v now db) = db_reconcile db"
  by (simp_all add: upsert_setting_def)

lemma trimmed_domain_keys: "k \<in> set DOMAIN_KEYS \<Longrightarrow> trim k = k"
  unfolding DOMAIN_KEYS_def by (simp, elim disjE; simp; code_simp)

definition same_domains :: "db \<Rightarrow> db \<Rightarrow> bool" where
  "same_domains db db' \<longleftrightarrow> (\<forall>k \<in> set DOMAIN_KEYS. map_option sv_value (get_setting k db') = map_option sv_value (get_setting k db))"

lemma view_domains:
  "db_profiles db' = db_profiles db \<Longrightarrow> db_secrets db' = db_secrets db \<Longrightarrow> same_domains db db' \<Longrightarrow>
     runtime_view db' = runtime_view db"
  by (simp add: runtime_view_def same_domains_def)

lemma write_settings_effect:
  assumes "write_settings kvs keys now (c, db) = (changed, db')" and "set DOMAIN_KEYS \<subseteq> set keys"
    and "\<forall>(k, v) \<in> set kvs. trim k = k"
  shows "db_profiles db' = db_profiles db \<and> db_secrets db' = db_secrets db \<and> db_reconcile db' = db_reconcile db
    \<and> (c \<longrightarrow> changed) \<and> (\<not> changed \<longrightarrow> same_domains db db')"
  using assms
proof (induction kvs arbitrary: c db)
  case (Cons kv kvs)
  obtain k v where kv: "kv = (k, v)" by (cases kv)
  let ?c = "c \<or> k \<in> set keys \<and> map_option sv_value (bt_get (db_settings db) (trim k)) \<noteq> Some v"
  have ih: "db_profiles db' = db_profiles db \<and> db_secrets db' = db_secrets db \<and> db_reconcile db' = db_reconcile db
      \<and> (?c \<longrightarrow> changed) \<and> (\<not> changed \<longrightarrow> same_domains (upsert_setting k v now db) db')"
    using Cons.IH [of ?c "upsert_setting k v now db"] Cons.prems kv by (simp add: upsert_setting_keeps)
  have "same_domains db (upsert_setting k v now db)" if "\<not> ?c"
    using that Cons.prems(2,3) kv trimmed_domain_keys
    by (auto simp: same_domains_def get_setting_def upsert_setting_def bt_get_insert subset_iff)
  then show ?case using ih by (auto simp: same_domains_def)
qed (simp add: same_domains_def)

lemma save_settings_step:
  assumes "upsert_settings_with_runtime_keys_inner kvs keys event op now db = Inr (g, db')"
    and "set DOMAIN_KEYS \<subseteq> set keys" and "\<forall>(k, v) \<in> set kvs. trim k = k"
  shows "versioned_step (versioned_view db) (versioned_view db')"
proof -
  obtain changed db1 where w: "write_settings kvs keys now (False, db) = (changed, db1)" by fastforce
  note e = write_settings_effect [OF w assms(2,3)]
  show ?thesis
  proof (cases changed)
    case True
    then obtain h db2 x where bump: "bump_desired_generation op now db1 = Inr (h, db2)" and aud: "audit_opt event now db2 = Inr (x, db')"
      using assms(1) w by (auto simp: upsert_settings_with_runtime_keys_inner_def and_then_Inr_iff)
    show ?thesis using bump_desired [OF bump] audit_opt_keeps [OF aud] e by (intro bumped_step) simp
  next
    case False
    then obtain x where aud: "audit_opt event now db1 = Inr (x, db')"
      using assms(1) w by (auto simp: upsert_settings_with_runtime_keys_inner_def and_then_Inr_iff)
    have "same_domains db db'" using e False audit_opt_keeps(8) [OF aud] by (simp add: same_domains_def get_setting_def)
    then show ?thesis using audit_opt_keeps [OF aud] e by (intro kept_step view_domains) simp_all
  qed
qed

lemma plain_setting_step:
  assumes "trim k \<notin> set DOMAIN_KEYS"
  shows "versioned_step (versioned_view db) (versioned_view (upsert_setting k v now db))"
proof -
  have "same_domains db (upsert_setting k v now db)"
    using assms trimmed_domain_keys by (auto simp: same_domains_def upsert_setting_get)
  then show ?thesis by (intro kept_step view_domains) (simp_all add: upsert_setting_keeps)
qed

lemma bump_then_audit_step:
  assumes "and_then (bump_desired_generation op now db1) (\<lambda>(_, db). audit_opt event now db) = Inr (x, db')"
    and "rc_desired (db_reconcile db1) = rc_desired (db_reconcile db)"
  shows "versioned_step (versioned_view db) (versioned_view db')"
proof -
  from assms(1) obtain g db2 where bump: "bump_desired_generation op now db1 = Inr (g, db2)" and aud: "audit_opt event now db2 = Inr (x, db')"
    by (auto simp: and_then_Inr_iff)
  show ?thesis using bump_desired [OF bump] audit_opt_keeps [OF aud] assms(2) by (intro bumped_step) simp
qed

lemma save_secret_step:
  "upsert_secret_inner name v event op now db = Inr (x, db') \<Longrightarrow> versioned_step (versioned_view db) (versioned_view db')"
  unfolding upsert_secret_inner_def Let_def by (erule bump_then_audit_step) simp

lemma delete_secret_step:
  "delete_secret_inner name event op now db = Inr (x, db') \<Longrightarrow> versioned_step (versioned_view db) (versioned_view db')"
  unfolding delete_secret_inner_def by (cases "bt_get (db_secrets db) (trim name)") (auto elim!: bump_then_audit_step)

subsection \<open>Runs\<close>

text \<open>
  The last rule stands for the operations on users, policy, rule sets, sessions and observations:
  they do not write these tables and move the generation by at most one.
\<close>

inductive desired_step :: "json_codec \<Rightarrow> db \<Rightarrow> db \<Rightarrow> bool" for codec where
  create_profile: "create_protocol_profile_inner codec input event op now db = Inr (r, db') \<Longrightarrow> desired_step codec db db'"
| update_profile: "update_protocol_profile_inner codec input event op now db = Inr (r, db') \<Longrightarrow> desired_step codec db db'"
| delete_profile: "delete_protocol_profile_audited name expected ev op now db = Inr (b, db') \<Longrightarrow> desired_step codec db db'"
| save_settings: "upsert_settings_with_runtime_keys_inner kvs keys event op now db = Inr (g, db') \<Longrightarrow>
    set DOMAIN_KEYS \<subseteq> set keys \<Longrightarrow> \<forall>(k, v) \<in> set kvs. trim k = k \<Longrightarrow> desired_step codec db db'"
| plain_setting: "trim k \<notin> set DOMAIN_KEYS \<Longrightarrow> desired_step codec db (upsert_setting k v now db)"
| save_secret: "upsert_secret_inner name v event op now db = Inr (x, db') \<Longrightarrow> desired_step codec db db'"
| delete_secret: "delete_secret_inner name event op now db = Inr (x, db') \<Longrightarrow> desired_step codec db db'"
| elsewhere: "db_profiles db' = db_profiles db \<Longrightarrow> db_settings db' = db_settings db \<Longrightarrow> db_secrets db' = db_secrets db \<Longrightarrow>
    rc_desired (db_reconcile db') - rc_desired (db_reconcile db) \<in> {0, 1} \<Longrightarrow> desired_step codec db db'"

text \<open>The simulation: every operation is one abstract step.\<close>

lemma desired_step_refines:
  assumes "desired_step codec db db'"
  shows "versioned_step (versioned_view db) (versioned_view db')"
  using assms
proof cases
  case elsewhere
  then consider "rc_desired (db_reconcile db') = rc_desired (db_reconcile db)"
    | "rc_desired (db_reconcile db') = rc_desired (db_reconcile db) + 1" by fastforce
  then show ?thesis using elsewhere(1-3) by cases (auto intro: kept_step bumped_step view_cong)
qed (auto intro: create_profile_step update_profile_step delete_profile_step save_settings_step
  plain_setting_step save_secret_step delete_secret_step)

lemma desired_steps_refine:
  "(desired_step codec)\<^sup>*\<^sup>* db db' \<Longrightarrow> versioned_step\<^sup>*\<^sup>* (versioned_view db) (versioned_view db')"
  by (induction rule: rtranclp_induct) (auto intro: rtranclp.rtrancl_into_rtrancl desired_step_refines)

subsection \<open>The state a worker loads\<close>

definition runtime_profile :: "protocol_profile \<Rightarrow> protocol_profile" where
  "runtime_profile p = p\<lparr>pr_display_name := []\<rparr>"

lemma decode_runtime_row:
  "decode_protocol_profile codec (runtime_row r) = (case decode_protocol_profile codec r of
     Inl e \<Rightarrow> Inl e | Inr p \<Rightarrow> Inr (runtime_profile p))"
  by (auto simp: decode_protocol_profile_def runtime_row_def runtime_profile_def and_then_def split: sum.splits)

lemma decode_enabled: "decode_protocol_profile codec r = Inr p \<Longrightarrow> pr_enabled p = pf_enabled r"
  by (auto simp: decode_protocol_profile_def and_then_Inr_iff)

lemma collect_runtime:
  "collect_res (map (decode_protocol_profile codec) rows) = Inr ps \<Longrightarrow>
     collect_res (map (decode_protocol_profile codec) (map runtime_row (filter pf_enabled rows)))
       = Inr (map runtime_profile (filter pr_enabled ps))"
proof (induction rows arbitrary: ps)
  case (Cons r rows)
  then obtain p qs where p: "decode_protocol_profile codec r = Inr p"
    and qs: "collect_res (map (decode_protocol_profile codec) rows) = Inr qs" and ps: "ps = p # qs"
    by (cases "decode_protocol_profile codec r") (auto simp: and_then_Inr_iff)
  show ?case using Cons.IH [OF qs] p decode_enabled [OF p] unfolding ps
    by (simp add: decode_runtime_row comp_def)
qed simp

lemma loaded_view:
  assumes "load_desired_state_at codec now db = Inr d"
  shows "collect_res (map (decode_protocol_profile codec) (fst (runtime_view db)))
      = Inr (map runtime_profile (filter pr_enabled (ds_profiles d)))"
    and "\<forall>k \<in> set DOMAIN_KEYS. bt_get (ds_settings d) k = map_option sv_value (get_setting k db)"
proof -
  have p: "collect_res (map (decode_protocol_profile codec) (sort_key row_key (db_profiles db))) = Inr (ds_profiles d)"
    and s: "ds_settings d = map (\<lambda>(k, s). (k, sv_value s)) (db_settings db)"
    using assms unfolding load_desired_state_at_def row_key_def [abs_def] by (auto simp: and_then_Inr_iff split: if_splits)
  show "collect_res (map (decode_protocol_profile codec) (fst (runtime_view db)))
      = Inr (map runtime_profile (filter pr_enabled (ds_profiles d)))"
    using collect_runtime [OF p] by (simp add: runtime_view_def filter_sort)
  have "bt_get (map (\<lambda>(k, s). (k, sv_value s)) m) k = map_option sv_value (bt_get m k)" for m :: "(string, setting_row) btmap" and k
    by (induction m k rule: bt_get.induct) auto
  then show "\<forall>k \<in> set DOMAIN_KEYS. bt_get (ds_settings d) k = map_option sv_value (get_setting k db)"
    using trimmed_domain_keys by (simp add: s get_setting_def)
qed

end
