(* ===== verification/Store_Telemetry_Inv.thy ===== *)
theory Store_Telemetry_Inv
  imports Store_Admins
begin

text \<open>
  The telemetry history: samples are numbered in the order they were recorded, and the prune of the
  same transaction keeps exactly the newest ones.
\<close>

definition telemetry_ok :: "db \<Rightarrow> bool" where
  "telemetry_ok db \<longleftrightarrow> sorted_wrt (<) (map tm_id (db_telemetry db))
     \<and> list_all (\<lambda>r. tm_id r \<le> db_telemetry_seq db) (db_telemetry db)
     \<and> length (db_telemetry db) \<le> TELEMETRY_HISTORY_LIMIT"

lemma sorted_ids_nth:
  assumes "sorted_wrt (<) (map f xs)" and "i < length xs" and "j < length xs"
  shows "f (xs ! i) = (f (xs ! j) :: int) \<longleftrightarrow> i = j"
proof -
  have "distinct (map f xs)" using assms(1) strict_sorted_iff by blast
  then show ?thesis using nth_eq_iff_index_eq [of "map f xs" i j] assms(2,3) by simp
qed

lemma filter_suffix:
  assumes "distinct (map f (xs @ ys))"
  shows "filter (\<lambda>r. f r \<in> f ` set ys) (xs @ ys) = ys"
proof -
  have "filter (\<lambda>r. f r \<in> f ` set ys) xs = []" using assms by (auto simp: filter_empty_conv)
  moreover have "filter (\<lambda>r. f r \<in> f ` set ys) ys = ys" by (simp add: filter_id_conv)
  ultimately show ?thesis by simp
qed

lemma prune_newest:
  assumes "sorted_wrt (<) (map tm_id rows)"
  shows "prune_samples limit rows = drop (length rows - limit) rows"
proof -
  let ?n = "length rows - limit"
  have "sorted (map tm_id rows)" and d: "distinct (map tm_id rows)"
    using assms strict_sorted_iff by blast+
  then have "set (map tm_id (take limit (rev (sort_key tm_id rows)))) = tm_id ` set (drop ?n rows)"
    by (simp add: sort_key_id_if_sorted take_rev)
  moreover have "distinct (map tm_id (take ?n rows @ drop ?n rows))" using d by simp
  ultimately show ?thesis
    unfolding prune_samples_def Let_def using filter_suffix [of tm_id "take ?n rows" "drop ?n rows"] by simp
qed

definition new_sample :: "telemetry_observation \<Rightarrow> int option \<Rightarrow> string \<Rightarrow> db \<Rightarrow> telemetry_row" where
  "new_sample ob user_id encoded db = \<lparr>tm_id = db_telemetry_seq db + 1, tm_runtime = to_runtime_id ob, tm_user = user_id,
     tm_observed = to_observed_at ob, tm_json = encoded\<rparr>"

lemma record_telemetry_Inr:
  assumes "record_runtime_telemetry encode ob user_id db = Inr (x, db')"
  shows "\<exists>encoded. encode ob = Inr encoded \<and> length encoded \<le> 16 * 1024
    \<and> db_telemetry_seq db' = db_telemetry_seq db + 1
    \<and> db_telemetry db' = prune_samples TELEMETRY_HISTORY_LIMIT (db_telemetry db @ [new_sample ob user_id encoded db])
    \<and> (\<forall>r. bt_get (db_telemetry_latest db') r =
        (if user_id = None \<and> r = to_runtime_id ob
            \<and> (case bt_get (db_telemetry_latest db) r of None \<Rightarrow> True | Some (seen, _) \<Rightarrow> seen \<le> to_observed_at ob)
         then Some (to_observed_at ob, encoded) else bt_get (db_telemetry_latest db) r))"
proof -
  from assms obtain encoded where e: "encode ob = Inr encoded" "\<not> 16 * 1024 < length encoded"
    by (auto simp: record_runtime_telemetry_def and_then_Inr_iff split: if_split_asm)
  show ?thesis
    using assms e unfolding record_runtime_telemetry_def new_sample_def
    by (intro exI [of _ encoded])
      (auto simp: Let_def bt_get_insert split: if_split_asm option.split prod.split)
qed

lemma appended_ok:
  assumes "telemetry_ok db"
  shows "sorted_wrt (<) (map tm_id (db_telemetry db @ [new_sample ob user_id encoded db]))"
  using assms by (auto simp: telemetry_ok_def new_sample_def sorted_wrt_append list_all_iff)

lemma set_drop_subset: "x \<in> set (drop n xs) \<Longrightarrow> x \<in> set xs"
  by (rule in_set_dropD)

lemma record_telemetry_effect:
  assumes "record_runtime_telemetry encode ob user_id db = Inr (x, db')" and "telemetry_ok db"
    and "encode ob = Inr encoded"
  shows "telemetry_ok db' \<and> db_telemetry db' =
    drop (Suc (length (db_telemetry db)) - TELEMETRY_HISTORY_LIMIT) (db_telemetry db @ [new_sample ob user_id encoded db])"
proof -
  let ?rows = "db_telemetry db @ [new_sample ob user_id encoded db]"
  let ?n = "Suc (length (db_telemetry db)) - TELEMETRY_HISTORY_LIMIT"
  note sorted = appended_ok [OF assms(2), of ob user_id encoded]
  have rows: "db_telemetry db' = drop ?n ?rows" and seq: "db_telemetry_seq db' = db_telemetry_seq db + 1"
    using record_telemetry_Inr [OF assms(1)] assms(3) prune_newest [OF sorted, of TELEMETRY_HISTORY_LIMIT] by auto
  have "list_all (\<lambda>r. tm_id r \<le> db_telemetry_seq db') ?rows"
    using assms(2) seq by (fastforce simp: telemetry_ok_def list_all_iff new_sample_def)
  then have "list_all (\<lambda>r. tm_id r \<le> db_telemetry_seq db') (db_telemetry db')"
    unfolding rows list_all_iff by (blast dest: set_drop_subset)
  moreover have "sorted_wrt (<) (map tm_id (db_telemetry db'))"
    unfolding rows drop_map [symmetric] by (rule sorted_wrt_drop [OF sorted])
  moreover have "length (db_telemetry db') \<le> TELEMETRY_HISTORY_LIMIT" unfolding rows by simp
  ultimately show ?thesis using rows by (simp add: telemetry_ok_def)
qed

lemma empty_telemetry_ok: "telemetry_ok (empty_db now)"
  by (simp add: telemetry_ok_def empty_db_def)

end
