(* ===== verification/Storage_Claims.thy ===== *)
theory Storage_Claims
  imports Store_Admins_Inv Store_Rules_Steps Store_Generations Store_Telemetry_Inv "HOL-Library.Multiset"
begin

text \<open>
  The properties of the other tables of \<open>storage.rs\<close>: administrators and sessions, the client
  policy, the rule sets, profiles and settings under the desired generation, the telemetry history.
\<close>

subsection \<open>Administrators\<close>

definition admins_sample :: db where
  "admins_sample = (case create_first_admin_inner '' root '' ''hash-1'' None 10 (empty_db 0) of
     Inl _ \<Rightarrow> empty_db 0 | Inr (_, db) \<Rightarrow> db)"

definition admins_logged_in :: db where
  "admins_logged_in = (case create_admin_session 1 ''token-hash'' 500 20 admins_sample of
     Inl _ \<Rightarrow> empty_db 0 | Inr (_, db) \<Rightarrow> db)"

definition first_admin_record :: admin_record where
  "first_admin_record = \<lparr>ad_id = 1, ad_username = ''root'', ad_password_hash = ''hash-1'', ad_created = 10, ad_updated = 10\<rparr>"

lemma admins_sample_run:
  "create_first_admin_inner '' root '' ''hash-1'' None 10 (empty_db 0) = Inr (first_admin_record, admins_sample)"
  by code_simp

lemma admins_logged_in_run: "create_admin_session 1 ''token-hash'' 500 20 admins_sample = Inr ((), admins_logged_in)"
  by code_simp

lemma admins_sample_reachable: "admin_step\<^sup>*\<^sup>* (empty_db 0) admins_sample"
  using admin_step.first_admin [OF admins_sample_run] by blast

lemma admins_logged_in_reachable: "admin_step\<^sup>*\<^sup>* (empty_db 0) admins_logged_in"
  using rtranclp.rtrancl_into_rtrancl [OF admins_sample_reachable admin_step.log_in [OF admins_logged_in_run]] .

lemma option_eqI: "(\<And>x. a = Some x \<longleftrightarrow> b = Some x) \<Longrightarrow> a = b"
  by (metis not_Some_eq)

lemma Some_case_iff:
  "(case r of Some s \<Rightarrow> if P s then None else Some s | None \<Rightarrow> None) = Some x \<longleftrightarrow> r = Some x \<and> \<not> P x"
  by (auto split: option.splits)

text \<open>
  Rotating the password of an administrator replaces the hash of exactly that administrator and
  ends exactly their sessions: from then on no token of theirs is accepted, at whatever instant it is
  presented, and every token of any other administrator is accepted as before.
\<close>

theorem password_rotation_revokes_sessions:
  assumes "admin_step\<^sup>*\<^sup>* (empty_db t0) db"
    and "update_admin_password_inner i h event now db = Inr (x, db')"
  shows "get_valid_admin_session token at db'
      = (case get_valid_admin_session token at db of
           Some s \<Rightarrow> if se_admin_id s = i then None else Some s
         | None \<Rightarrow> None)
    \<and> get_admin_by_id k db' = map_option
      (\<lambda>a. if ad_id a = i then a\<lparr>ad_password_hash := h, ad_updated := now\<rparr> else a) (get_admin_by_id k db)"
proof -
  have inv: "admins_inv db" "admins_inv db'"
    using admin_steps_inv [OF assms(1) empty_admins_inv] admin_step_inv [OF admin_step.rotate_password [OF assms(2)]]
    by blast+
  let ?f = "\<lambda>a. if ad_id a = i then a\<lparr>ad_password_hash := h, ad_updated := now\<rparr> else a"
  let ?db = "db\<lparr>db_admins := map ?f (db_admins db), db_sessions := filter (\<lambda>s. se_admin_id s \<noteq> i) (db_sessions db)\<rparr>"
  have "audit_opt event now ?db = Inr (x, db')"
    using assms(2) by (simp add: update_admin_password_inner_def split: if_split_asm)
  then have db': "db_admins db' = map ?f (db_admins db)"
      "db_sessions db' = filter (\<lambda>s. se_admin_id s \<noteq> i) (db_sessions db)"
    using audit_opt_admin_tables by (fastforce simp: admin_tables_def)+
  have iff: "get_valid_admin_session token at db = Some s \<longleftrightarrow> s \<in> set (db_sessions db) \<and> se_token_hash s = token \<and> at < se_expires s"
    "get_valid_admin_session token at db' = Some s
      \<longleftrightarrow> s \<in> set (db_sessions db) \<and> se_admin_id s \<noteq> i \<and> se_token_hash s = token \<and> at < se_expires s" for s
    using valid_session_iff [of _ db] valid_session_iff [of _ db'] inv unfolding admins_inv_def db'(2) by auto
  have "get_valid_admin_session token at db' = (case get_valid_admin_session token at db of
       Some s \<Rightarrow> if se_admin_id s = i then None else Some s | None \<Rightarrow> None)"
  proof (rule option_eqI)
    fix s show "get_valid_admin_session token at db' = Some s \<longleftrightarrow> (case get_valid_admin_session token at db of
       Some s \<Rightarrow> if se_admin_id s = i then None else Some s | None \<Rightarrow> None) = Some s"
      unfolding iff(2) iff(1) [symmetric] Some_case_iff by (metis iff(1))
  qed
  moreover have "get_admin_by_id k db' = map_option ?f (get_admin_by_id k db)"
    unfolding get_admin_by_id_def db'(1) by (rule find_admin_map) simp
  ultimately show ?thesis by blast
qed

definition admins_rotated :: db where
  "admins_rotated = (case update_admin_password_inner 1 ''hash-2'' None 30 admins_logged_in of
     Inl _ \<Rightarrow> empty_db 0 | Inr (_, db) \<Rightarrow> db)"

lemma admins_rotated_run: "update_admin_password_inner 1 ''hash-2'' None 30 admins_logged_in = Inr ((), admins_rotated)"
  by code_simp

lemma password_rotation_revokes_sessions_witness:
  "get_valid_admin_session ''token-hash'' 40 admins_logged_in \<noteq> None
    \<and> get_valid_admin_session ''token-hash'' 40 admins_rotated = None"
proof -
  have "map_option se_admin_id (get_valid_admin_session ''token-hash'' 40 admins_logged_in) = Some 1" by code_simp
  then show ?thesis
    using password_rotation_revokes_sessions [OF admins_logged_in_reachable admins_rotated_run, of "''token-hash''" 40]
    by (auto split: option.splits)
qed

text \<open>
  In every database the operations can reach, administrators have distinct names, no two
  sessions share a token and every session belongs to a present administrator. Whoever became the
  owner stays the owner through every later operation, no second administrator can claim the
  initial setup, and there is exactly one owner once it was done.
\<close>

theorem ownership_is_permanent:
  assumes "admin_step\<^sup>*\<^sup>* (empty_db t0) db" and "admin_step\<^sup>*\<^sup>* db db'" and "is_owner_admin_id i db"
  shows "distinct (map ad_username (db_admins db')) \<and> distinct (map se_token_hash (db_sessions db'))
    \<and> se_admin_id ` set (db_sessions db') \<subseteq> ad_id ` set (db_admins db')
    \<and> (is_owner_admin_id k db' \<longleftrightarrow> k = i)
    \<and> create_first_admin_inner username h event now db' = Inl ''initial administrator already exists''"
proof -
  have inv: "admins_inv db" using admin_steps_inv [OF assms(1) empty_admins_inv] .
  have inv': "admins_inv db'" using admin_steps_inv [OF assms(2) inv] .
  have "is_owner_admin_id i db'" using admin_steps_owner [OF assms(2) inv assms(3)] .
  then have owner: "min_admin_id db' = Some i" by (simp add: is_owner_admin_id_def)
  then have some: "db_admins db' \<noteq> []" by (auto simp: min_admin_id_def)
  show ?thesis
    using inv' owner some
    by (auto simp: admins_inv_def admins_ok_def sessions_ok_def is_owner_admin_id_def create_first_admin_inner_def)
qed

lemma ownership_is_permanent_witness:
  "(is_owner_admin_id 1 admins_logged_in \<longleftrightarrow> (1 :: int) = 1)
    \<and> create_first_admin_inner ''other'' ''h'' None 50 admins_logged_in = Inl ''initial administrator already exists''"
proof -
  have "is_owner_admin_id 1 admins_sample" by code_simp
  then show ?thesis
    using ownership_is_permanent [OF admins_sample_reachable, of admins_logged_in 1 1 "''other''" "''h''" None 50]
      admin_step.log_in [OF admins_logged_in_run] by blast
qed

subsection \<open>The client policy\<close>

lemma in_load_order_idem: "in_load_order (in_load_order p) = in_load_order p"
  by (simp add: in_load_order_def sort_key_id_if_sorted)

text \<open>
  C36: a policy that was saved is the policy that is loaded, pools with all their members and
  limits included, in the order of priorities; saving the loaded one again changes nothing. The save
  raises the desired generation by one, and a renamed or replaced pool takes every rule set that
  named it along and leaves the others alone.
\<close>

theorem saved_policy_is_loaded:
  assumes "save_client_policy p renamed event op now db = Inr (x, db')"
  shows "load_client_policy db' = Inr (in_load_order p) \<and> in_load_order (in_load_order p) = in_load_order p
    \<and> mset (cp_pools (in_load_order p)) = mset (cp_pools p) \<and> mset (cp_rules (in_load_order p)) = mset (cp_rules p)
    \<and> rc_desired (db_reconcile db') = rc_desired (db_reconcile db) + 1
    \<and> bt_get (db_rule_sets db') k = map_option (\<lambda>s. case renamed of None \<Rightarrow> s
        | Some (old, new) \<Rightarrow> if rs_target s = old then s\<lparr>rs_target := new\<rparr> else s) (bt_get (db_rule_sets db) k)"
proof -
  from assms obtain g db2 where d: "distinct (map tp_id (cp_pools p))"
    and bump: "bump_desired_generation op now (policy_rows p renamed db) = Inr (g, db2)"
    and aud: "audit_opt event now db2 = Inr (x, db')" unfolding save_policy_Inr by blast
  note keeps = audit_opt_keeps [OF aud] bump_keeps [OF bump] and b = bump_desired [OF bump]
  have rows: "db_pools (policy_rows p renamed db) = pool_rows (cp_pools p)"
    "db_members (policy_rows p renamed db) = concat (map member_rows (cp_pools p))"
    "db_policy_rules (policy_rows p renamed db) = cp_rules p"
    "db_reconcile (policy_rows p renamed db) = db_reconcile db"
    by (auto simp: policy_rows_def Let_def split: option.split)
  have load: "load_client_policy db' = Inr (in_load_order p)"
    by (rule load_saved_rows [OF d]) (simp_all only: keeps rows)
  have sets: "bt_get (db_rule_sets (policy_rows p renamed db)) k = map_option (\<lambda>s. case renamed of None \<Rightarrow> s
        | Some (old, new) \<Rightarrow> if rs_target s = old then s\<lparr>rs_target := new\<rparr> else s) (bt_get (db_rule_sets db) k)"
  proof (cases renamed)
    case None
    then show ?thesis by (simp add: policy_rows_def Let_def option.map_ident)
  next
    case (Some r)
    obtain old new where "r = (old, new)" by (cases r)
    then show ?thesis
      using Some bt_get_retargeted by (auto simp: policy_rows_def Let_def retarget_if intro!: option.map_cong0)
  qed
  show ?thesis
    using load b rows(4) sets keeps by (simp add: in_load_order_idem) (simp add: in_load_order_def)
qed

definition stored_policy :: client_policy where
  "stored_policy = \<lparr>cp_pools = [automatic_pool ''B'' PkSelect [MAllProfiles, MPool ''A''] 5 None 1,
      automatic_pool ''A'' PkUrlTest [MDirect] 2 None 1],
    cp_rules = [builtin_rule ''r'' ''R'' 1 ''MATCH'' ''A'']\<rparr>"

lemma stored_policy_saved:
  "is_ok (save_client_policy stored_policy (Some (''OLD'', ''A'')) None ''op'' 10 (empty_db 0))"
  by code_simp

theorem saved_policy_is_loaded_witness:
  "\<exists>db'. save_client_policy stored_policy (Some (''OLD'', ''A'')) None ''op'' 10 (empty_db 0) = Inr ((), db')
    \<and> load_client_policy db' = Inr (in_load_order stored_policy)"
proof -
  obtain r where r: "save_client_policy stored_policy (Some (''OLD'', ''A'')) None ''op'' 10 (empty_db 0) = Inr r"
    using stored_policy_saved by (auto simp: is_ok_iff)
  obtain x db' where "r = (x, db')" by (cases r)
  with r saved_policy_is_loaded [of stored_policy "Some (''OLD'', ''A'')" None "''op''" 10 "empty_db 0" x db']
  show ?thesis by simp
qed

subsection \<open>Rule sets\<close>


definition banks :: routing_rule_set where
  "banks = \<lparr>rs_slug = ''banks'', rs_title = ''Banks'', rs_effect = ''direct'', rs_target = ''DIRECT'',
     rs_enabled = True, rs_payload = ''DOMAIN,bank.test''\<rparr>"

definition db_banks :: db where
  "db_banks = (case create_routing_rule_set_inner banks None 10 (empty_db 0) of Inl _ \<Rightarrow> empty_db 0 | Inr (_, db) \<Rightarrow> db)"

lemma db_banks_run: "create_routing_rule_set_inner banks None 10 (empty_db 0) = Inr ((), db_banks)"
  by code_simp


subsection \<open>Generations\<close>


definition plain_codec :: json_codec where
  "plain_codec = \<lparr>jc_write = (\<lambda>_. ''{}''), jc_read = (\<lambda>_. Ok (JObject []))\<rparr>"

definition edge_profile :: new_profile where
  "edge_profile = \<lparr>np_name = ''edge'', np_display_name = ''Edge'', np_protocol_id = ''hysteria2'', np_schema_version = 1,
     np_role = Speed, np_enabled = True, np_server = '' node.test '', np_port = 443, np_preferred_core = None,
     np_managed_resource = None, np_config = JObject []\<rparr>"

definition edge_edit :: "string \<Rightarrow> string \<Rightarrow> update_profile" where
  "edge_edit display server = \<lparr>up_name = ''edge'', up_display_name = display, up_expected = None, up_enabled = True,
     up_server = server, up_port = 443, up_preferred_core = None, up_managed_resource = None, up_config = JObject []\<rparr>"

definition result_db :: "('a \<times> db) res \<Rightarrow> db" where
  "result_db r = (case r of Inl _ \<Rightarrow> empty_db 0 | Inr (_, db) \<Rightarrow> db)"

definition db_edge :: db where
  "db_edge = result_db (create_protocol_profile_inner plain_codec edge_profile None ''op-1'' 10 (empty_db 0))"

definition db_relabelled :: db where
  "db_relabelled = result_db (update_protocol_profile_inner plain_codec (edge_edit ''Edge (new)'' ''node.test'') None ''op-2'' 20 db_edge)"

definition db_moved :: db where
  "db_moved = result_db (update_protocol_profile_inner plain_codec (edge_edit ''Edge (new)'' ''other.test'') None ''op-3'' 30 db_relabelled)"

lemma edge_runs:
  "is_ok (update_protocol_profile_inner plain_codec (edge_edit ''Edge (new)'' ''node.test'') None ''op-2'' 20 db_edge)"
  "is_ok (load_desired_state_at plain_codec 40 db_edge)" "is_ok (load_desired_state_at plain_codec 40 db_relabelled)"
  "map (\<lambda>db. rc_desired (db_reconcile db)) [db_edge, db_relabelled, db_moved] = [1, 1, 2]"
  by code_simp+


subsection \<open>Telemetry\<close>

lemma collect_res_length: "collect_res rs = Inr xs \<Longrightarrow> length xs = length rs"
  by (induction rs arbitrary: xs rule: collect_res.induct) (auto simp: and_then_Inr_iff)

text \<open>
  Recording an observation appends one sample of at most 16 KiB under a fresh number and keeps
  exactly the newest 4096 of all samples, in order; the latest aggregate of a runtime never goes
  back in time, and the aggregates of other runtimes stay. A user history never holds more than 200
  rows, whatever limit is asked for.
\<close>

theorem telemetry_history_is_bounded:
  assumes "telemetry_ok db" and "record_runtime_telemetry encode ob user_id db = Inr (x, db')"
  shows "telemetry_ok db' \<and> length (db_telemetry db') \<le> 4096
    \<and> (\<exists>encoded. encode ob = Inr encoded \<and> length encoded \<le> 16384
        \<and> db_telemetry db' = drop (length (db_telemetry db) + 1 - 4096) (db_telemetry db @
            [\<lparr>tm_id = db_telemetry_seq db + 1, tm_runtime = to_runtime_id ob, tm_user = user_id,
              tm_observed = to_observed_at ob, tm_json = encoded\<rparr>]))
    \<and> (case bt_get (db_telemetry_latest db) runtime of None \<Rightarrow> True
        | Some (seen, json) \<Rightarrow> (case bt_get (db_telemetry_latest db') runtime of None \<Rightarrow> False
            | Some (seen', json') \<Rightarrow> seen \<le> seen' \<and> (runtime \<noteq> to_runtime_id ob \<longrightarrow> json' = json)))
    \<and> (case list_user_runtime_telemetry decode u lim db' of Inl _ \<Rightarrow> True | Inr rows \<Rightarrow> length rows \<le> 200)"
proof -
  obtain encoded where e: "encode ob = Inr encoded" "length encoded \<le> 16 * 1024"
    and latest: "bt_get (db_telemetry_latest db') runtime =
        (if user_id = None \<and> runtime = to_runtime_id ob
            \<and> (case bt_get (db_telemetry_latest db) runtime of None \<Rightarrow> True | Some (seen, _) \<Rightarrow> seen \<le> to_observed_at ob)
         then Some (to_observed_at ob, encoded) else bt_get (db_telemetry_latest db) runtime)"
    using record_telemetry_Inr [OF assms(2)] by blast
  note effect = record_telemetry_effect [OF assms(2,1) e(1)]
  have rows: "\<exists>encoded. encode ob = Inr encoded \<and> length encoded \<le> 16384
      \<and> db_telemetry db' = drop (length (db_telemetry db) + 1 - 4096) (db_telemetry db @
            [\<lparr>tm_id = db_telemetry_seq db + 1, tm_runtime = to_runtime_id ob, tm_user = user_id,
              tm_observed = to_observed_at ob, tm_json = encoded\<rparr>])"
    using e effect by (intro exI [of _ encoded]) (simp add: new_sample_def TELEMETRY_HISTORY_LIMIT_def)
  have history: "case list_user_runtime_telemetry decode u lim db' of Inl _ \<Rightarrow> True | Inr rows \<Rightarrow> length rows \<le> 200"
    by (auto simp: list_user_runtime_telemetry_def dest!: collect_res_length split: sum.split)
  have monotone: "case bt_get (db_telemetry_latest db) runtime of None \<Rightarrow> True
        | Some (seen, json) \<Rightarrow> (case bt_get (db_telemetry_latest db') runtime of None \<Rightarrow> False
            | Some (seen', json') \<Rightarrow> seen \<le> seen' \<and> (runtime \<noteq> to_runtime_id ob \<longrightarrow> json' = json))"
    unfolding latest by (auto split: option.split prod.split)
  have "length (db_telemetry db') \<le> 4096" using effect by (simp add: telemetry_ok_def TELEMETRY_HISTORY_LIMIT_def)
  then show ?thesis using effect rows history monotone by blast
qed

definition xray_seen :: telemetry_observation where
  "xray_seen = \<lparr>to_runtime_id = ''xray'', to_observed_at = 100, to_source = ''probe'', to_metrics = [],
     to_traffic = None, to_detail = None\<rparr>"

theorem telemetry_history_is_bounded_witness:
  "\<exists>db'. record_runtime_telemetry (\<lambda>_. Inr ''{}'') xray_seen None (empty_db 0) = Inr ((), db')
    \<and> telemetry_ok db' \<and> length (db_telemetry db') \<le> 4096"
proof -
  have id: "valid_adapter_id ''xray''" by code_simp
  obtain db' where r: "record_runtime_telemetry (\<lambda>_. Inr ''{}'') xray_seen None (empty_db 0) = Inr ((), db')"
    using id by (simp add: record_runtime_telemetry_def xray_seen_def Let_def)
  show ?thesis using r telemetry_history_is_bounded [OF empty_telemetry_ok r, of _ "\<lambda>_. Inr xray_seen" 0 0] by blast
qed

end
