(* ===== verification/Rule_Sources.thy ===== *)
theory Rule_Sources
  imports Store_Rules_Steps "HOL-Library.Word"
begin

unbundle bit_operations_syntax

text \<open>
  The refresh of remote rule sources (\<open>rule\_sources.rs\<close>): the address filter against requests to
  internal hosts, the bounded fetch with its redirects, the parser of the fetched text and the update
  of the stored source. The URL parser, the resolver, the HTTP client, YAML, SHA-256, UTF-8 checking
  and time stamps are a record of parameters; resolver and server may answer differently at every
  attempt. The requests made are part of the result.
\<close>

definition MAX_REDIRECTS :: nat where "MAX_REDIRECTS = 3"
definition MAX_BODY_BYTES :: int where "MAX_BODY_BYTES = 4 * 1024 * 1024"
definition MAX_LINES :: int where "MAX_LINES = 100000"
definition MAX_LINE_BYTES :: int where "MAX_LINE_BYTES = 4096"

subsection \<open>Addresses\<close>

datatype ip_addr = V4 "32 word" | V6 "128 word"

text \<open>The predicates of the standard library on IPv4 addresses, by their octets.\<close>

definition octet :: "nat \<Rightarrow> 32 word \<Rightarrow> 32 word" where
  "octet i v = drop_bit (8 * (3 - i)) v AND 0xFF"

definition v4_private :: "32 word \<Rightarrow> bool" where
  "v4_private v \<longleftrightarrow> octet 0 v = 10 \<or> octet 0 v = 172 \<and> 16 \<le> octet 1 v \<and> octet 1 v \<le> 31
     \<or> octet 0 v = 192 \<and> octet 1 v = 168"

definition v4_documentation :: "32 word \<Rightarrow> bool" where
  "v4_documentation v \<longleftrightarrow> octet 0 v = 192 \<and> octet 1 v = 0 \<and> octet 2 v = 2
     \<or> octet 0 v = 198 \<and> octet 1 v = 51 \<and> octet 2 v = 100 \<or> octet 0 v = 203 \<and> octet 1 v = 0 \<and> octet 2 v = 113"

definition forbidden_ipv4 :: "32 word \<Rightarrow> bool" where
  "forbidden_ipv4 v \<longleftrightarrow> v4_private v
     \<or> octet 0 v = 127
     \<or> octet 0 v = 169 \<and> octet 1 v = 254
     \<or> v = 0xFFFFFFFF
     \<or> v4_documentation v
     \<or> v = 0
     \<or> 224 \<le> octet 0 v \<and> octet 0 v \<le> 239
     \<or> drop_bit 24 v = 0
     \<or> v AND 0xFFC00000 = 0x64400000
     \<or> v AND 0xFFFE0000 = 0xC6120000
     \<or> v AND 0xF0000000 = 0xF0000000"

text \<open>\<open>Ipv6Addr::to\_ipv4\_mapped\<close>: \<open>::ffff:0:0/96\<close>.\<close>

definition to_ipv4_mapped :: "128 word \<Rightarrow> 32 word option" where
  "to_ipv4_mapped v = (if drop_bit 32 v = 0xFFFF then Some (ucast v) else None)"

definition forbidden_address :: "ip_addr \<Rightarrow> bool" where
  "forbidden_address a = (case a of
       V4 v \<Rightarrow> forbidden_ipv4 v
     | V6 v \<Rightarrow> (case to_ipv4_mapped v of
         Some mapped \<Rightarrow> forbidden_ipv4 mapped
       | None \<Rightarrow> v = 1 \<or> v = 0 \<or> drop_bit 120 v = 0xFF \<or> drop_bit 121 v = 0x7E \<or> drop_bit 118 v = 0x3FA))"

subsection \<open>The outside\<close>

record url =
  rl_scheme :: string
  rl_user :: string
  rl_password :: "string option"
  rl_host :: "string option"
  rl_port_or_default :: "u16 option"
  rl_rest :: string

record web_request =
  wq_url :: url
  wq_addresses :: "ip_addr list"
  wq_etag :: "string option"
  wq_modified :: "string option"

record web_response =
  ws_status :: int
  ws_location :: "string option"
  ws_length :: "int option"
  ws_etag :: "string option"
  ws_modified :: "string option"
  ws_chunks :: "string res list"

text \<open>
  \<open>wb\_header\<close> is \<open>HeaderValue::to\_str\<close>; \<open>wb\_utf8\<close> says whether bytes are UTF-8; \<open>wb\_past\<close>
  reads an RFC 3339 stamp as an instant.
\<close>

record web =
  wb_parse :: "string \<Rightarrow> url res"
  wb_join :: "url \<Rightarrow> string \<Rightarrow> url res"
  wb_lookup :: "nat \<Rightarrow> string \<Rightarrow> u16 \<Rightarrow> ip_addr list res"
  wb_get :: "nat \<Rightarrow> web_request \<Rightarrow> web_response res"
  wb_header :: "string \<Rightarrow> string option"
  wb_utf8 :: "string \<Rightarrow> bool"
  wb_yaml :: "string \<Rightarrow> string list res"
  wb_sha256 :: "string \<Rightarrow> string"
  wb_past :: "string \<Rightarrow> instant option"

definition source_is_due :: "web \<Rightarrow> (nat \<Rightarrow> int) \<Rightarrow> instant \<Rightarrow> rule_set_source \<Rightarrow> bool" where
  "source_is_due W seconds now s \<longleftrightarrow> src_enabled s \<and>
     (case Option.bind (src_last_successful_fetch s) (wb_past W) of
        None \<Rightarrow> True
      | Some seen \<Rightarrow> seconds (unat (src_refresh_interval_seconds s)) \<le> now - seen)"

definition validate_remote_url :: "web \<Rightarrow> nat \<Rightarrow> url \<Rightarrow> ip_addr list res" where
  "validate_remote_url W k u =
     (if rl_scheme u \<noteq> ''https'' \<or> rl_user u \<noteq> [] \<or> rl_password u \<noteq> None
      then Err ''remote rule source must use HTTPS without URL credentials''
      else and_then (ok_or ''remote rule source has no host'' (rl_host u)) (\<lambda>host.
        if eq_ignore_ascii_case host ''localhost'' \<or> ends_with host ''.localhost''
        then Err ''local remote-rule host is forbidden''
        else (case wb_lookup W k host (case rl_port_or_default u of None \<Rightarrow> 443 | Some p \<Rightarrow> p) of
            Inl _ \<Rightarrow> Err ''resolve remote rule source''
          | Inr addresses \<Rightarrow>
              if addresses = [] \<or> list_ex forbidden_address addresses
              then Err ''remote rule source resolves to a forbidden address''
              else Ok addresses)))"

definition bounded_header :: "web \<Rightarrow> string option \<Rightarrow> string option" where
  "bounded_header W v = (case Option.bind v (wb_header W) of
       None \<Rightarrow> None
     | Some s \<Rightarrow> if length s \<le> 512 \<and> \<not> has_control s then Some s else None)"

subsection \<open>The fetched text\<close>

definition MAX_U32 :: int where "MAX_U32 = 4294967295"

text \<open>\<open>trim\_start\_matches("+.")\<close> drops every leading repetition.\<close>

fun drop_plus_dot :: "string \<Rightarrow> string" where
  "drop_plus_dot (a # b # s) = (if a = CHR ''+'' \<and> b = CHR ''.'' then drop_plus_dot s else a # b # s)"
| "drop_plus_dot s = s"

definition text_rule :: "string \<Rightarrow> string" where
  "text_rule line = (if CHR '','' \<in> set line then line else ''DOMAIN-SUFFIX,'' @ drop_plus_dot line)"

definition parse_source :: "web \<Rightarrow> rule_source_format \<Rightarrow> string \<Rightarrow> string list res" where
  "parse_source W format body =
     (if MAX_LINES < int (length (lines body)) \<or> list_ex (\<lambda>l. MAX_LINE_BYTES < int (length l)) (lines body)
      then Err ''remote rule source exceeds line bounds''
      else and_then (if format = FmtText
          then Ok (join [newline] (map text_rule (filter (\<lambda>l. l \<noteq> [] \<and> \<not> starts_with l ''#'') (map trim (lines body)))))
          else and_then (wb_yaml W body) (\<lambda>rules. Ok (join [newline] rules)))
        validate_classical_rule_payload)"

fun read_body :: "string \<Rightarrow> string res list \<Rightarrow> string res" where
  "read_body acc [] = Ok acc"
| "read_body acc (c # cs) = and_then c (\<lambda>chunk.
     if MAX_BODY_BYTES < int (length acc + length chunk) then Err ''remote rule source exceeds body limit''
     else read_body (acc @ chunk) cs)"

definition accept_response :: "web \<Rightarrow> rule_set_source \<Rightarrow> web_response \<Rightarrow> rule_set_source res" where
  "accept_response W s r =
     (if ws_length r \<noteq> None \<and> MAX_BODY_BYTES < the (ws_length r) then Err ''remote rule source exceeds body limit''
      else and_then (read_body [] (ws_chunks r)) (\<lambda>body.
        if \<not> wb_utf8 W body then Err ''remote rule source is not UTF-8''
        else and_then (parse_source W (src_format s) body) (\<lambda>rules.
          if MAX_U32 < int (length rules) then Err ''out of range integral type conversion attempted''
          else Ok (s\<lparr>src_etag := bounded_header W (ws_etag r), src_last_modified := bounded_header W (ws_modified r),
            src_checksum := Some (wb_sha256 W body), src_entry_count := of_nat (length rules),
            src_cached_payload := join [newline] rules, src_last_error := None\<rparr>))))"

subsection \<open>Fetch\<close>

text \<open>
  The loop over \<open>0..=MAX\_REDIRECTS\<close>, with the number of redirects already followed. The result
  \<open>None\<close> is 304 Not Modified. Every request is pinned to the addresses that were checked.
\<close>

function fetch_from :: "web \<Rightarrow> rule_set_source \<Rightarrow> nat \<Rightarrow> url \<Rightarrow> web_request list \<times> rule_set_source option res" where
  "fetch_from W s k u =
     (case validate_remote_url W k u of
        Inl e \<Rightarrow> ([], Err e)
      | Inr addresses \<Rightarrow>
          let q = \<lparr>wq_url = u, wq_addresses = addresses, wq_etag = src_etag s, wq_modified = src_last_modified s\<rparr> in
          (case wb_get W k q of
             Inl e \<Rightarrow> ([q], Err e)
           | Inr r \<Rightarrow>
               if ws_status r = 304 then ([q], Ok None)
               else if 300 \<le> ws_status r \<and> ws_status r < 400 then
                 if MAX_REDIRECTS \<le> k then ([q], Err ''remote rule source exceeded redirect limit'')
                 else (case Option.bind (ws_location r) (wb_header W) of
                     None \<Rightarrow> ([q], Err ''redirect has no valid location'')
                   | Some location \<Rightarrow> (case wb_join W u location of
                       Inl _ \<Rightarrow> ([q], Err ''invalid redirect target'')
                     | Inr u' \<Rightarrow> (case fetch_from W s (Suc k) u' of (qs, res) \<Rightarrow> (q # qs, res))))
               else if 400 \<le> ws_status r \<and> ws_status r < 600 then ([q], Err ''HTTP status error'')
               else ([q], and_then (accept_response W s r) (\<lambda>s'. Ok (Some s')))))"
  by pat_completeness auto
termination by (relation "measure (\<lambda>(_, _, k, _). MAX_REDIRECTS - k)") auto

declare fetch_from.simps [simp del]

definition fetch_source :: "web \<Rightarrow> rule_set_source \<Rightarrow> web_request list \<times> rule_set_source option res" where
  "fetch_source W s = (case wb_parse W (src_url s) of
       Inl _ \<Rightarrow> ([], Err ''invalid source URL'')
     | Inr u \<Rightarrow> fetch_from W s 0 u)"

text \<open>
  \<open>refresh\_inner\<close>: the requests, the outcome and the database afterwards. \<open>stamp\<close> is the time
  stamp that is stored; a failed write leaves the database as it was.
\<close>

definition refresh_inner ::
  "web \<Rightarrow> (nat \<Rightarrow> string \<Rightarrow> string) \<Rightarrow> string \<Rightarrow> string \<Rightarrow> audit_event option \<Rightarrow> instant \<Rightarrow> db
    \<Rightarrow> web_request list \<times> rule_set_source res \<times> db" where
  "refresh_inner W take_chars stamp i event now db = (case get_rule_source i db of
       None \<Rightarrow> ([], Err ''unknown rule source'', db)
     | Some s \<Rightarrow> (case fetch_source W s of (qs, res) \<Rightarrow>
         (case res of
            Inl e \<Rightarrow> (qs, Err e, update_rule_source_error take_chars i e db)
          | Inr found \<Rightarrow>
              (case update_rule_source_success_inner
                  ((case found of None \<Rightarrow> s | Some s' \<Rightarrow> s')\<lparr>src_last_successful_fetch := Some stamp\<rparr>) event now db of
                 Inl e \<Rightarrow> (qs, Err e, db)
               | Inr (_, db') \<Rightarrow>
                   (qs, ok_or ''refreshed rule source disappeared'' (get_rule_source i db'), db')))))"

text \<open>One round of the scheduler: the due sources, one after the other; a failed refresh is only logged.\<close>

definition scheduled_round ::
  "web \<Rightarrow> (nat \<Rightarrow> string \<Rightarrow> string) \<Rightarrow> (nat \<Rightarrow> int) \<Rightarrow> (string \<Rightarrow> string) \<Rightarrow> instant \<Rightarrow> db \<Rightarrow> db" where
  "scheduled_round W take_chars seconds stamp now db =
     fold (\<lambda>s db. snd (snd (refresh_inner W take_chars (stamp (src_id s)) (src_id s) None now db)))
       (filter (source_is_due W seconds now) (list_rule_sources db)) db"

subsection \<open>The forbidden blocks\<close>

text \<open>
  What the address filter means: a list of CIDR blocks. The code spells some as octet tests and some
  as masks; a mapped IPv4 address is judged as the IPv4 address.
\<close>

definition in_block :: "'a::len word \<Rightarrow> nat \<Rightarrow> 'a word \<Rightarrow> bool" where
  "in_block base host v \<longleftrightarrow> drop_bit host v = drop_bit host base"

definition V4_BLOCKS :: "(32 word \<times> nat) list" where
  "V4_BLOCKS = [(0x00000000, 24), (0x0A000000, 24), (0x64400000, 22), (0x7F000000, 24), (0xA9FE0000, 16),
     (0xAC100000, 20), (0xC0000200, 8), (0xC0A80000, 16), (0xC6120000, 17), (0xC6336400, 8), (0xCB007100, 8),
     (0xE0000000, 28), (0xF0000000, 28)]"

definition V6_BLOCKS :: "(128 word \<times> nat) list" where
  "V6_BLOCKS = [(0, 0), (1, 0), (0xFF000000000000000000000000000000, 120),
     (0xFC000000000000000000000000000000, 121), (0xFE800000000000000000000000000000, 118)]"

definition internal :: "ip_addr \<Rightarrow> bool" where
  "internal a \<longleftrightarrow> (case a of
       V4 v \<Rightarrow> \<exists>(base, host) \<in> set V4_BLOCKS. in_block base host v
     | V6 v \<Rightarrow> (if in_block 0xFFFF00000000 32 v
         then \<exists>(base, host) \<in> set V4_BLOCKS. in_block base host (ucast v)
         else \<exists>(base, host) \<in> set V6_BLOCKS. in_block base host v))"

lemma unat_octet: "unat (octet i v) = unat v div 2 ^ (8 * (3 - i)) mod 256"
proof -
  have "(255 :: 32 word) = mask 8" by (simp add: mask_eq_exp_minus_1)
  then have "octet i v = take_bit 8 (drop_bit (8 * (3 - i)) v)"
    unfolding octet_def take_bit_eq_mask by simp
  then have "unat (octet i v) = take_bit 8 (drop_bit (8 * (3 - i)) (unat v))"
    unfolding unsigned_take_bit_eq [symmetric] unat_drop_bit_eq [symmetric] by simp
  then show ?thesis by (simp add: take_bit_eq_mod drop_bit_eq_div)
qed

lemma octet_is: "octet i v = w \<longleftrightarrow> unat v div 2 ^ (8 * (3 - i)) mod 256 = unat w"
  by (simp add: word_unat_eq_iff unat_octet)

lemma octet_le: "octet i v \<le> w \<longleftrightarrow> unat v div 2 ^ (8 * (3 - i)) mod 256 \<le> unat w"
  "w \<le> octet i v \<longleftrightarrow> unat w \<le> unat v div 2 ^ (8 * (3 - i)) mod 256"
  by (simp_all add: word_le_nat_alt unat_octet)

lemma drop_bit_is: "drop_bit k v = (w :: 32 word) \<longleftrightarrow> unat v div 2 ^ k = unat w"
  unfolding word_unat_eq_iff unat_drop_bit_eq by (simp add: drop_bit_eq_div)

lemma masked_is:
  assumes "C = push_bit k (- 1 :: 32 word)" and "D = push_bit k (drop_bit k D)"
  shows "v AND C = D \<longleftrightarrow> unat v div 2 ^ k = unat D div 2 ^ k"
proof -
  have "v AND C = push_bit k (drop_bit k v)"
    unfolding assms(1) by (rule bit_eqI) (auto simp: bit_simps)
  moreover have "drop_bit k (push_bit k (drop_bit k v)) = drop_bit k v"
    by (rule bit_eqI) (auto simp: bit_simps dest: bit_imp_le_length)
  ultimately have "v AND C = D \<longleftrightarrow> drop_bit k v = drop_bit k D"
    using assms(2) by metis
  then show ?thesis unfolding drop_bit_is unat_drop_bit_eq by (simp add: drop_bit_eq_div)
qed

lemma in_block_is: "in_block base k (v :: 32 word) \<longleftrightarrow> unat v div 2 ^ k = unat base div 2 ^ k"
  unfolding in_block_def drop_bit_is unat_drop_bit_eq by (simp add: drop_bit_eq_div)

lemma digits: "m div B = a \<and> m mod B = b \<longleftrightarrow> m = B * a + b" if "b < B" for m a b B :: nat
  using that div_mult_mod_eq [of m B] by auto

lemma two_octets: "n div 16777216 = a \<and> n div 65536 mod 256 = b \<longleftrightarrow> n div 65536 = 256 * a + b" if "b < 256" for n a b :: nat
  using digits [OF that, of "n div 65536" a] div_mult2_eq [of n 65536 256] by simp

lemma three_octets: "n div 16777216 = a \<and> n div 65536 mod 256 = b \<and> n div 256 mod 256 = c \<longleftrightarrow>
    n div 256 = 65536 * a + 256 * b + c" if "b < 256" "c < 256" for n a b c :: nat
proof -
  have "n div 16777216 = a \<and> n div 65536 mod 256 = b \<longleftrightarrow> n div 256 div 256 = 256 * a + b"
    using two_octets [OF that(1), of n a] div_mult2_eq [of n 256 256] by simp
  then show ?thesis using digits [OF that(2), of "n div 256" "256 * a + b"] by (auto simp: algebra_simps)
qed

lemma nibble_is: "16 \<le> r \<and> r \<le> 31 \<longleftrightarrow> r div 16 = 1" "224 \<le> r \<and> r \<le> 239 \<longleftrightarrow> r div 16 = 14" for r :: nat
  using div_mult_mod_eq [of r 16] mod_less_divisor [of 16 r] by auto

lemma multicast_range: "224 \<le> n div 16777216 \<and> n div 16777216 \<le> 239 \<longleftrightarrow> n div 268435456 = 14" for n :: nat
  unfolding nibble_is using div_mult2_eq [of n 16777216 16] by simp

lemma octet_range: "n div 16777216 = 172 \<and> 16 \<le> n div 65536 mod 256 \<and> n div 65536 mod 256 \<le> 31
    \<longleftrightarrow> n div 1048576 = 2753" for n :: nat
proof -
  have parts: "n div 16777216 = n div 65536 div 16 div 16" "n div 1048576 = n div 65536 div 16"
    "n div 65536 mod 256 div 16 = n div 65536 div 16 mod 16"
    using mod_mult2_eq [of "n div 65536" 16 16] by (simp_all add: div_mult2_eq [symmetric])
  show ?thesis unfolding nibble_is parts using digits [of 1 16 "n div 65536 div 16" 172] by simp
qed

lemma forbidden_ipv4_blocks: "forbidden_ipv4 v \<longleftrightarrow> internal (V4 v)"
proof -
  have masks: "v AND 0xFFC00000 = 0x64400000 \<longleftrightarrow> unat v div 2 ^ 22 = 401"
    "v AND 0xFFFE0000 = 0xC6120000 \<longleftrightarrow> unat v div 2 ^ 17 = 25353"
    "v AND 0xF0000000 = 0xF0000000 \<longleftrightarrow> unat v div 2 ^ 28 = 15"
    using masked_is [of "0xFFC00000" 22 "0x64400000" v] masked_is [of "0xFFFE0000" 17 "0xC6120000" v]
      masked_is [of "0xF0000000" 28 "0xF0000000" v] by (simp_all add: push_bit_eq_mult)
  define n where "n = unat v"
  have n: "n < 4294967296" using unsigned_less [of v, where ?'a = nat] by (simp add: n_def)
  have v: "v = w \<longleftrightarrow> n = unat w" for w by (simp add: n_def word_unat_eq_iff)
  have ends: "n = 4294967295 \<Longrightarrow> n div 268435456 = 15" "n = 0 \<Longrightarrow> n div 16777216 = 0" by simp_all
  have short: "n div 16777216 mod 256 = n div 16777216" using n by (simp add: less_mult_imp_div_less)
  have "forbidden_ipv4 v \<longleftrightarrow>
      (n div 16777216 = 10 \<or> n div 1048576 = 2753 \<or> n div 65536 = 49320)
      \<or> n div 16777216 = 127 \<or> n div 65536 = 43518 \<or> n = 4294967295
      \<or> (n div 256 = 12582914 \<or> n div 256 = 12989284 \<or> n div 256 = 13303921)
      \<or> n = 0 \<or> n div 268435456 = 14 \<or> n div 16777216 = 0
      \<or> n div 4194304 = 401 \<or> n div 131072 = 25353 \<or> n div 268435456 = 15"
    unfolding forbidden_ipv4_def v4_private_def v4_documentation_def masks octet_is octet_le drop_bit_is v
      n_def [symmetric]
    by (simp add: short octet_range multicast_range two_octets three_octets)
  moreover have "internal (V4 v) \<longleftrightarrow> n div 16777216 = 0 \<or> n div 16777216 = 10 \<or> n div 4194304 = 401
      \<or> n div 16777216 = 127 \<or> n div 65536 = 43518 \<or> n div 1048576 = 2753 \<or> n div 256 = 12582914
      \<or> n div 65536 = 49320 \<or> n div 131072 = 25353 \<or> n div 256 = 12989284 \<or> n div 256 = 13303921
      \<or> n div 268435456 = 14 \<or> n div 268435456 = 15"
    by (simp add: internal_def V4_BLOCKS_def in_block_is n_def [symmetric])
  ultimately show ?thesis using ends by blast
qed

lemma forbidden_address_blocks: "forbidden_address a \<longleftrightarrow> internal a"
proof (cases a)
  case (V4 v)
  then show ?thesis by (simp add: forbidden_address_def forbidden_ipv4_blocks)
next
  case (V6 v)
  have "forbidden_ipv4 (ucast v) \<longleftrightarrow> (\<exists>(base, host) \<in> set V4_BLOCKS. in_block base host (ucast v :: 32 word))"
    unfolding forbidden_ipv4_blocks by (simp add: internal_def)
  moreover have "drop_bit 32 v = 0xFFFF \<longleftrightarrow> in_block 0xFFFF00000000 32 v" by (simp add: in_block_def)
  moreover have "v = 1 \<or> v = 0 \<or> drop_bit 120 v = 0xFF \<or> drop_bit 121 v = 0x7E \<or> drop_bit 118 v = 0x3FA
      \<longleftrightarrow> (\<exists>(base, host) \<in> set V6_BLOCKS. in_block base host v)"
    by (auto simp: in_block_def V6_BLOCKS_def)
  ultimately show ?thesis
    using V6 by (simp add: forbidden_address_def to_ipv4_mapped_def internal_def)
qed

subsection \<open>Containment\<close>

text \<open>What a request may look like, and how a source may change.\<close>

definition contained :: "web_request \<Rightarrow> bool" where
  "contained q \<longleftrightarrow> rl_scheme (wq_url q) = ''https'' \<and> rl_user (wq_url q) = [] \<and> rl_password (wq_url q) = None
     \<and> wq_addresses q \<noteq> [] \<and> (\<forall>a \<in> set (wq_addresses q). \<not> internal a)"

definition fetched_payload :: "string \<Rightarrow> bool" where
  "fetched_payload p \<longleftrightarrow> (\<exists>rules. rules \<noteq> [] \<and> p = join [newline] rules \<and> (\<forall>l \<in> set rules. classical_rule l))"

lemma validated_url:
  "validate_remote_url W k u = Inr addresses \<Longrightarrow>
    contained \<lparr>wq_url = u, wq_addresses = addresses, wq_etag = e, wq_modified = m\<rparr>"
  by (auto simp: validate_remote_url_def contained_def and_then_Inr_iff forbidden_address_blocks list_ex_iff
      split: if_splits sum.splits)

lemma fetch_contained:
  "fetch_from W s k u = (qs, res) \<Longrightarrow> k \<le> MAX_REDIRECTS \<Longrightarrow>
    length qs \<le> Suc MAX_REDIRECTS - k \<and> (\<forall>q \<in> set qs. contained q)"
proof (induction W s k u arbitrary: qs res rule: fetch_from.induct)
  case (1 W s k u)
  show ?case
    using "1.prems" "1.IH" unfolding fetch_from.simps [of W s k u]
    by (auto simp: Let_def validated_url Suc_diff_le split: sum.splits if_splits option.splits prod.splits)
qed

lemma parse_source_rules:
  "parse_source W f body = Inr rules \<Longrightarrow> \<exists>text. validate_classical_rule_payload text = Inr rules"
  by (auto simp: parse_source_def and_then_Inr_iff split: if_splits)

text \<open>The new version of a source, when there is one.\<close>

definition new_version :: "rule_set_source \<Rightarrow> rule_set_source \<Rightarrow> bool" where
  "new_version s s' \<longleftrightarrow> src_id s' = src_id s \<and> (\<exists>text rules. validate_classical_rule_payload text = Inr rules
     \<and> src_cached_payload s' = join [newline] rules)"

lemma accepted: "accept_response W s r = Inr s' \<Longrightarrow> new_version s s'"
  using parse_source_rules [of W "src_format s"]
  by (fastforce simp: accept_response_def new_version_def and_then_Inr_iff split: if_splits)

lemma fetch_result: "fetch_from W s k u = (qs, Inr (Some s')) \<Longrightarrow> new_version s s'"
proof (induction W s k u arbitrary: qs rule: fetch_from.induct)
  case (1 W s k u)
  show ?case
    using "1.prems" "1.IH" unfolding fetch_from.simps [of W s k u]
    by (auto simp: Let_def and_then_Inr_iff accepted split: sum.splits if_splits option.splits prod.splits)
qed

lemma fetch_source_contained: "fetch_source W s = (qs, res) \<Longrightarrow> length qs \<le> 4 \<and> (\<forall>q \<in> set qs. contained q)"
  using fetch_contained [of W s 0] by (fastforce simp: fetch_source_def MAX_REDIRECTS_def split: sum.splits)

lemma fetch_source_result: "fetch_source W s = (qs, Inr (Some s')) \<Longrightarrow> new_version s s'"
  by (auto simp: fetch_source_def fetch_result split: sum.splits)

text \<open>A refresh is one of the writes that keep the rule tables consistent.\<close>

lemma refresh_step:
  assumes "refresh_inner W take_chars stamp i event now db = (qs, res, db')" and "rules_inv db"
  shows "rule_step db db'"
proof (cases "get_rule_source i db")
  case None
  then show ?thesis using assms(1) by (auto simp: refresh_inner_def intro: rule_step.elsewhere)
next
  case (Some s)
  obtain qs' found where f: "fetch_source W s = (qs', found)" by fastforce
  have row: "bt_get (db_rule_sources db) i = Some s" and id: "src_id s = i"
    using Some assms(2) get_rule_source_row rows_okD(6) by (auto simp: rules_inv_def)
  show ?thesis
  proof (cases found)
    case (Inl e)
    then show ?thesis using assms(1) Some f by (auto simp: refresh_inner_def intro: rule_step.fetch_failed)
  next
    case (Inr got)
    let ?new = "(case got of None \<Rightarrow> s | Some s' \<Rightarrow> s')\<lparr>src_last_successful_fetch := Some stamp\<rparr>"
    show ?thesis
    proof (cases "update_rule_source_success_inner ?new event now db")
      case (Inl e)
      then show ?thesis
        using assms(1) Some f Inr by (auto simp: refresh_inner_def intro: rule_step.elsewhere)
    next
      case (Inr upd)
      obtain x db'' where wr: "update_rule_source_success_inner ?new event now db = Inr (x, db'')"
        using Inr by (cases upd) auto
      then have "db' = db''" using assms(1) Some f \<open>found = Inr got\<close> by (auto simp: refresh_inner_def)
      show ?thesis
      proof (cases got)
        case None
        then show ?thesis using wr row id \<open>db' = db''\<close> by (auto intro: rule_step.not_modified)
      next
        case (Some s')
        then have "new_version s s'" using fetch_source_result f \<open>found = Inr got\<close> by blast
        then obtain body rules where "validate_classical_rule_payload body = Inr rules"
            "src_cached_payload s' = join [newline] rules" by (auto simp: new_version_def)
        then show ?thesis using wr Some \<open>db' = db''\<close> rule_step.fetched [of ?new event now db x db'' body rules] by simp
      qed
    qed
  qed
qed

lemma scheduled_round_inv: "rules_inv db \<Longrightarrow> rules_inv (scheduled_round W take_chars seconds stamp now db)"
proof -
  have "rules_inv (snd (snd (refresh_inner W take_chars t i event now db)))" if "rules_inv db" for t i event db
    using refresh_step [OF _ that] rule_step_inv that by (metis prod.collapse)
  then show "rules_inv db \<Longrightarrow> ?thesis" unfolding scheduled_round_def by (intro fold_inv) auto
qed

lemma validated_payload:
  "validate_classical_rule_payload text = Inr rules \<Longrightarrow> fetched_payload (join [newline] rules)"
  unfolding fetched_payload_def
  by (rule exI [of _ rules]) (auto simp: validate_classical_rule_payload_def and_then_Inr_iff classical_lines_Inr
      split: if_splits)

text \<open>What a refresh leaves of the other rows, and of its own row when it fails.\<close>

lemma written_row:
  assumes "update_rule_source_success_inner r event now db = Inr (x, db')" and "bt_wf (db_rule_sources db)"
    and "bt_get (db_rule_sources db) j = Some c"
  shows "\<exists>c'. bt_get (db_rule_sources db') j = Some c' \<and> (if j = src_id r
    then src_cached_payload c' = src_cached_payload r else c' = c)"
proof -
  obtain old where "audit_opt event now (db\<lparr>db_rule_sources := bt_insert (src_id r)
         (old\<lparr>src_etag := src_etag r, src_last_modified := src_last_modified r,
           src_last_successful_fetch := src_last_successful_fetch r, src_checksum := src_checksum r,
           src_entry_count := src_entry_count r, src_last_error := None,
           src_cached_payload := src_cached_payload r\<rparr>) (db_rule_sources db)\<rparr>) = Inr (x, db')"
    using assms(1) by (auto simp: update_rule_source_success_inner_def split: option.splits)
  from audit_opt_tables [OF this] show ?thesis
    using assms(2,3) by (auto simp: rule_tables_def bt_get_insert)
qed

lemma failed_row:
  assumes "bt_wf (db_rule_sources db)" and "bt_get (db_rule_sources db) j = Some c"
  shows "\<exists>c'. bt_get (db_rule_sources (update_rule_source_error take_chars i e db)) j = Some c'
    \<and> src_cached_payload c' = src_cached_payload c \<and> (j \<noteq> i \<longrightarrow> c' = c)"
  using assms by (auto simp: update_rule_source_error_def bt_get_insert split: option.splits)

lemma refresh_rows:
  assumes "refresh_inner W take_chars stamp i event now db = (qs, res, db')" and "rules_inv db"
    and j: "bt_get (db_rule_sources db) j = Some c"
  shows "\<exists>c'. bt_get (db_rule_sources db') j = Some c' \<and> (j \<noteq> i \<longrightarrow> c' = c)
    \<and> (src_cached_payload c' = src_cached_payload c \<or> is_ok res \<and> fetched_payload (src_cached_payload c'))"
proof (cases "get_rule_source i db")
  case None
  then show ?thesis using assms by (auto simp: refresh_inner_def)
next
  case (Some s)
  obtain qs' found where f: "fetch_source W s = (qs', found)" by fastforce
  have inv': "rules_inv db'" using refresh_step [OF assms(1,2)] rule_step_inv assms(2) by blast
  have wf: "bt_wf (db_rule_sources db)" and row: "bt_get (db_rule_sources db) i = Some s" and id: "src_id s = i"
    using Some assms(2) get_rule_source_row rows_okD(3,6) by (auto simp: rules_inv_def)
  show ?thesis
  proof (cases found)
    case (Inl e)
    then have "db' = update_rule_source_error take_chars i e db" using assms(1) Some f by (auto simp: refresh_inner_def)
    then show ?thesis using failed_row [OF wf j] by blast
  next
    case (Inr got)
    let ?new = "(case got of None \<Rightarrow> s | Some s' \<Rightarrow> s')\<lparr>src_last_successful_fetch := Some stamp\<rparr>"
    have new: "src_id ?new = i"
      "src_cached_payload ?new = src_cached_payload s \<or> fetched_payload (src_cached_payload ?new)"
      using fetch_source_result [of W s qs'] f Inr id validated_payload
      by (auto simp: new_version_def split: option.split)
    show ?thesis
    proof (cases "update_rule_source_success_inner ?new event now db")
      case (Inl e)
      then show ?thesis using assms(1) Some f \<open>found = Inr got\<close> j by (auto simp: refresh_inner_def)
    next
      case (Inr upd)
      then obtain x where wr: "update_rule_source_success_inner ?new event now db = Inr (x, db')"
        and res: "res = ok_or ''refreshed rule source disappeared'' (get_rule_source i db')"
        using assms(1) Some f \<open>found = Inr got\<close> by (cases upd) (auto simp: refresh_inner_def)
      have "get_rule_source i db' \<noteq> None"
        using written_row [OF wr wf row] get_rule_source_row inv' by (auto simp: rules_inv_def)
      then have "is_ok res" using res by (auto simp: is_ok_def)
      then show ?thesis using written_row [OF wr wf j] new row j by (cases "j = i") auto
    qed
  qed
qed

end
