(* ===== verification/Source_Claims.thy ===== *)
theory Source_Claims
  imports Rule_Sources Storage_Claims
begin

text \<open>
  The property of the refresh of remote rule sources, with a run over a redirect: the URL parser, the
  resolver and the server are small concrete functions.
\<close>

text \<open>
  C40: whatever the resolver and the servers answer, a refresh makes at most four requests, each over
  https without credentials and pinned to a non-empty list of addresses that lie in no forbidden
  CIDR block, mapped IPv4 addresses judged as IPv4. It keeps the rule tables consistent, so every
  enabled set still compiles; it touches no other source; and the cached rules change only when it
  succeeds, into a non-empty list of lines that are all valid classical rules.
\<close>

theorem refresh_is_contained:
  assumes "refresh_inner W take_chars stamp i event now db = (qs, res, db')" and "rules_inv db"
  shows "length qs \<le> 4 \<and> list_all contained qs \<and> rules_inv db'
    \<and> (case bt_get (db_rule_sources db) j of None \<Rightarrow> True | Some c \<Rightarrow>
        (case bt_get (db_rule_sources db') j of None \<Rightarrow> False | Some c' \<Rightarrow>
          (j = i \<or> c' = c) \<and> (src_cached_payload c' = src_cached_payload c
            \<or> is_ok res \<and> fetched_payload (src_cached_payload c'))))"
proof -
  have "length qs \<le> 4 \<and> (\<forall>q \<in> set qs. contained q)"
    using assms(1) fetch_source_contained [of W]
    by (auto simp: refresh_inner_def split: option.splits prod.splits sum.splits)
  moreover have "rules_inv db'" using refresh_step [OF assms] rule_step_inv assms(2) by blast
  moreover have "case bt_get (db_rule_sources db) j of None \<Rightarrow> True | Some c \<Rightarrow>
        (case bt_get (db_rule_sources db') j of None \<Rightarrow> False | Some c' \<Rightarrow>
          (j = i \<or> c' = c) \<and> (src_cached_payload c' = src_cached_payload c
            \<or> is_ok res \<and> fetched_payload (src_cached_payload c')))"
    using refresh_rows [OF assms, of j] by (auto split: option.splits)
  ultimately show ?thesis by (simp add: list_all_iff)
qed

definition list_url :: "string \<Rightarrow> url" where
  "list_url host = \<lparr>rl_scheme = ''https'', rl_user = [], rl_password = None, rl_host = Some host,
     rl_port_or_default = Some 443, rl_rest = ''/list.txt''\<rparr>"

definition a_page :: "int \<Rightarrow> string option \<Rightarrow> string res list \<Rightarrow> web_response" where
  "a_page status location chunks = \<lparr>ws_status = status, ws_location = location, ws_length = None, ws_etag = Some ''v1'',
     ws_modified = None, ws_chunks = chunks\<rparr>"

text \<open>The first host redirects; the second one sends two chunks; its name resolves to 1.1.1.1.\<close>

definition small_web :: "32 word \<Rightarrow> web" where
  "small_web address = \<lparr>wb_parse = (\<lambda>s. Ok (list_url s)), wb_join = (\<lambda>u s. Ok (list_url s)),
     wb_lookup = (\<lambda>k host port. Ok [if k = 0 then V4 0x08080808 else V4 address]),
     wb_get = (\<lambda>k q. Ok (if k = 0 then a_page 302 (Some ''mirror.test'') [] else
       a_page 200 None [Ok ''+.ads.test'', Ok (newline # ''DOMAIN,x.test'')])),
     wb_header = Some, wb_utf8 = (\<lambda>_. True), wb_yaml = (\<lambda>_. Err ''not yaml''), wb_sha256 = (\<lambda>_. ''00''),
     wb_past = (\<lambda>_. None)\<rparr>"

definition list_source :: rule_set_source where
  "list_source = \<lparr>src_id = ''s1'', src_rule_set_id = ''banks'', src_url = ''https://lists.test/l'', src_format = FmtText,
     src_enabled = True, src_refresh_interval_seconds = 3600, src_etag = None, src_last_modified = None,
     src_last_successful_fetch = None, src_checksum = None, src_entry_count = 0, src_last_error = None,
     src_cached_payload = []\<rparr>"

definition db_listed :: db where
  "db_listed = result_db (upsert_rule_source_inner list_source None 20 db_banks)"

definition refreshed :: "32 word \<Rightarrow> web_request list \<times> rule_set_source res \<times> db" where
  "refreshed address = refresh_inner (small_web address) take ''now'' ''s1'' None 30 db_listed"

lemma db_listed_run: "upsert_rule_source_inner list_source None 20 db_banks = Inr ((), db_listed)"
  by code_simp

lemma refreshed_run:
  "map (\<lambda>r. src_cached_payload r) (bt_values (db_rule_sources (snd (snd (refreshed 0x01010101)))))
    = [''DOMAIN-SUFFIX,ads.test'' @ newline # ''DOMAIN,x.test'']"
  "length (fst (refreshed 0x01010101)) = 2 \<and> is_ok (fst (snd (refreshed 0x01010101)))"
  "length (fst (refreshed 0x7F000001)) = 1 \<and> \<not> is_ok (fst (snd (refreshed 0x7F000001)))"
  by code_simp+

lemma db_listed_inv: "rules_inv db_listed"
proof -
  have "rule_step (empty_db 0) db_banks" using rule_step.create_set [OF db_banks_run] .
  moreover have "rule_step db_banks db_listed"
    by (rule rule_step.upsert_source [OF db_listed_run]) (simp_all add: list_source_def db_banks_def payload_ok_def, code_simp+)
  ultimately show ?thesis using rule_step_inv empty_rules_inv by blast
qed

theorem refresh_is_contained_witness:
  "list_all contained (fst (refreshed 0x01010101)) \<and> rules_inv (snd (snd (refreshed 0x01010101)))"
proof -
  obtain qs res db' where r: "refreshed 0x01010101 = (qs, res, db')" by (cases "refreshed 0x01010101") auto
  then show ?thesis
    using refresh_is_contained [OF r [unfolded refreshed_def] db_listed_inv] by simp
qed

end
