(* ===== verification/Storage_Findings.thy ===== *)
theory Storage_Findings
  imports Storage_Claims Mihomo
begin

text \<open>
  Three places where \<open>storage.rs\<close> does not keep what its own checks and documents say, each shown
  on a small database.
\<close>

subsection \<open>A disabled pool strands its rule sets\<close>

text \<open>
  A rule set may only target an enabled pool (\<open>validate_rule_set_metadata\<close>), and the deletion of a
  pool counts the rule sets that target it. Disabling the pool checks neither, so the enabled rule
  set goes on naming a group that the subscription no longer contains.
\<close>

definition banks_pool :: "bool \<Rightarrow> transport_pool" where
  "banks_pool enabled = (automatic_pool ''BANKS'' PkSelect [MDirect] 5 None 1)\<lparr>tp_enabled := enabled\<rparr>"

definition db_pool :: db where
  "db_pool = result_db (upsert_transport_pool_inner None (banks_pool True) [] None ''op-1'' 10 (empty_db 0))"

definition db_targeted :: db where
  "db_targeted = result_db (create_routing_rule_set_inner (banks\<lparr>rs_target := ''BANKS''\<rparr>) None 20 db_pool)"

definition db_stranded :: db where
  "db_stranded = result_db (upsert_transport_pool_inner (Some ''BANKS'') (banks_pool False) [] None ''op-2'' 30 db_targeted)"

lemma disabled_pool_strands_rule_set:
  "is_ok (create_routing_rule_set_inner (banks\<lparr>rs_target := ''BANKS''\<rparr>) None 20 db_pool)
    \<and> is_ok (upsert_transport_pool_inner (Some ''BANKS'') (banks_pool False) [] None ''op-2'' 30 db_targeted)
    \<and> map (\<lambda>s. (rs_enabled s, rs_target s)) (load_routing_rule_sets db_stranded) = [(True, ''BANKS'')]
    \<and> validate_rule_set_metadata (banks\<lparr>rs_target := ''BANKS''\<rparr>) db_stranded = Inl ''unsupported routing target''
    \<and> (case load_client_policy db_stranded of Inl _ \<Rightarrow> False | Inr p \<Rightarrow>
        resolved_pools p [] = Inr [] \<and>
        routing_rules (load_routing_rule_sets db_stranded) p [] = Inr [''RULE-SET,banks,BANKS''])"
  by code_simp

subsection \<open>An entry that moves leaves its set empty\<close>

text \<open>
  \<open>upsert_rule_entry_inner\<close> compiles the set an entry goes to. When the identifier exists in another
  set the \<open>ON CONFLICT\<close> clause moves the row, and the set it leaves is not compiled: an enabled set
  whose only rule is moved away has nothing to serve, which a deletion of the entry would refuse.
\<close>

definition an_entry :: "string \<Rightarrow> rule_entry" where
  "an_entry slug = \<lparr>re_id = ''e1'', re_rule_set_id = slug, re_enabled = True, re_kind = RkDomain, re_value = ''a.test'',
     re_comment = None, re_source_tag = None, re_priority = 10\<rparr>"

definition a_set :: "string \<Rightarrow> bool \<Rightarrow> routing_rule_set" where
  "a_set slug enabled = \<lparr>rs_slug = slug, rs_title = ''T'', rs_effect = [], rs_target = ''DIRECT'', rs_enabled = enabled,
     rs_payload = []\<rparr>"

definition db_two_sets :: db where
  "db_two_sets =
     (let db = result_db (create_routing_rule_set_inner (a_set ''one'' False) None 10 (empty_db 0));
          db = result_db (create_routing_rule_set_inner (a_set ''two'' False) None 11 db);
          db = result_db (upsert_rule_entry_inner (an_entry ''one'') None 12 db) in
      result_db (save_routing_rule_set_inner (a_set ''one'' True) None 13 db))"

lemma moved_entry_empties_a_set:
  "is_ok (compiled_rule_set_payload (a_set ''one'' True) db_two_sets)
    \<and> \<not> is_ok (delete_rule_entry_inner ''e1'' None 20 db_two_sets)
    \<and> (case upsert_rule_entry_inner (an_entry ''two'') None 20 db_two_sets of Inl _ \<Rightarrow> False | Inr (_, db) \<Rightarrow>
        map rs_enabled (load_routing_rule_sets db) = [True, False]
        \<and> \<not> is_ok (compiled_rule_set_payload (a_set ''one'' True) db))"
  by code_simp

subsection \<open>A migration without a generation\<close>

text \<open>
  \<open>migrate_protocol_adapter_configs\<close> rewrites enabled profiles, their preferred runtime and resource
  included, and keeps the desired generation, although docs/storage-schema.md says that
  runtime-affecting changes and the new generation happen in one transaction. A worker that already
  applied this generation takes the new desired state for the old one.
\<close>

definition upgrade_edge :: config_migrations where
  "upgrade_edge kind = (if kind = ''hysteria2'' then Some (\<lambda>v config. Ok (2, config)) else None)"

definition db_migrated :: db where
  "db_migrated = (case migrate_protocol_adapter_configs plain_codec upgrade_edge 50 db_edge of
     Inl _ \<Rightarrow> empty_db 0 | Inr db \<Rightarrow> db)"

lemma migration_keeps_the_generation:
  "rc_desired (db_reconcile db_migrated) = rc_desired (db_reconcile db_edge)
    \<and> map pf_preferred_core (db_profiles db_edge) = [None]
    \<and> map pf_preferred_core (db_profiles db_migrated) = [Some ''hysteria'']
    \<and> map pf_enabled (db_profiles db_migrated) = [True]
    \<and> runtime_view db_migrated \<noteq> runtime_view db_edge"
  by code_simp

end
