(* ===== verification/Panel_Session.thy ===== *)
theory Panel_Session
  imports Store_Admins_Inv Lifecycle_Outbox
begin

text \<open>
  The panel's front door (\<open>main.rs\<close>): sessions and their cookie, the CSRF token, the owner check, the
  login rate limiter, the first setup, login, logout, the password and theme forms.

  A request is handled at one instant. The cookie parser, SHA-256 with base64, Argon2, IP addresses and
  the random source are parameters. A page is named by its title; its text is not modelled.
\<close>

definition SECOND :: int where "SECOND = 1000000000"
definition minutes :: "int \<Rightarrow> int" where "minutes n = n * 60 * SECOND"
definition days :: "int \<Rightarrow> int" where "days n = n * 86400 * SECOND"

definition ADMIN_SESSION_COOKIE :: string where "ADMIN_SESSION_COOKIE = ''infiproxy_admin_session''"
definition ADMIN_SESSION_TTL_DAYS :: int where "ADMIN_SESSION_TTL_DAYS = 7"
definition MIN_ADMIN_PASSWORD_LEN :: nat where "MIN_ADMIN_PASSWORD_LEN = 12"
definition MAX_ADMIN_PASSWORD_LEN :: nat where "MAX_ADMIN_PASSWORD_LEN = 1024"
definition LOGIN_RATE_LIMIT_WINDOW :: int where "LOGIN_RATE_LIMIT_WINDOW = minutes 15"
definition LOGIN_RATE_LIMIT_MAX_FAILURES :: u32 where "LOGIN_RATE_LIMIT_MAX_FAILURES = 5"
definition LOGIN_RATE_LIMIT_MAX_KEYS :: nat where "LOGIN_RATE_LIMIT_MAX_KEYS = 2048"
definition SESSION_TOUCH_INTERVAL_MINUTES :: int where "SESSION_TOUCH_INTERVAL_MINUTES = 5"
definition MIN_SETUP_TOKEN_LEN :: nat where "MIN_SETUP_TOKEN_LEN = 32"
definition DUMMY_PASSWORD_HASH :: string where
  "DUMMY_PASSWORD_HASH = ''$argon2id$v=19$m=19456,t=2,p=1$gTSHLOLVD71RNAjjkqaKvQ$cCpCPgJOl06K2/RHtedp/MTm/4u+0n4JeNlYF00eQj4''"

subsection \<open>Requests, responses and state\<close>

text \<open>What a request brings along, and what is drawn for it: clocks, randomness, the file system.\<close>

record arrival =
  ar_now :: instant
  ar_tick :: int
  ar_cookies :: "string option"
  ar_real_ip :: "string option"
  ar_peer :: string
  ar_peer_loopback :: bool
  ar_worker_free :: bool
  ar_session_token :: "string res"
  ar_uuid :: uuid
  ar_user_token :: string
  ar_operation :: uuid
  ar_fresh :: "nat \<Rightarrow> string"
  ar_io :: io
  ar_process :: process

record site =
  si_cookie_secure :: bool
  si_setup_token :: string
  si_digest :: "string \<Rightarrow> string"
  si_cookie :: "string \<Rightarrow> (string \<times> string) option"
  si_hash :: "string \<Rightarrow> string res"
  si_verify :: "string \<Rightarrow> string \<Rightarrow> bool res"
  si_ip :: "string \<Rightarrow> string option"
  si_take_chars :: "nat \<Rightarrow> string \<Rightarrow> string"
  si_rfc3339 :: "string \<Rightarrow> (instant \<times> int) option"
  si_request_json :: "reconcile_request \<Rightarrow> string res"

record login_attempt =
  la_failures :: u32
  la_started :: int

record panel =
  pn_box :: outbox
  pn_attempts :: "(string, login_attempt) btmap"

record cookie =
  ck_value :: string
  ck_path :: string
  ck_secure :: bool
  ck_max_age :: int

datatype response =
    See_Other string "cookie list"
  | Failure nat string
  | Retry_later string int
  | Shown string
  | Served nat "(string \<times> string) list" string

definition panel_db :: "panel \<Rightarrow> db" where
  "panel_db p = ob_db (pn_box p)"

definition with_db :: "db \<Rightarrow> panel \<Rightarrow> panel" where
  "with_db db p = p\<lparr>pn_box := (pn_box p)\<lparr>ob_db := db\<rparr>\<rparr>"

lemma panel_db_with [simp]: "panel_db (with_db db p) = db"
  by (simp add: panel_db_def with_db_def)

lemma with_db_same [simp]: "with_db (panel_db p) p = p"
  by (simp add: panel_db_def with_db_def)

lemma with_db_attempts [simp]: "pn_attempts (with_db db p) = pn_attempts p"
  by (simp add: with_db_def)

lemma panel_db_attempts [simp]: "panel_db (p\<lparr>pn_attempts := a\<rparr>) = panel_db p"
  by (simp add: panel_db_def)

subsection \<open>Sessions\<close>

definition hash_session_token :: "site \<Rightarrow> string \<Rightarrow> string" where
  "hash_session_token S token = si_digest S token"

definition csrf_token_for_session_token :: "site \<Rightarrow> string \<Rightarrow> string" where
  "csrf_token_for_session_token S token = si_digest S (''infiproxy-admin-csrf-v1:'' @ token)"

fun first_cookie :: "site \<Rightarrow> string list \<Rightarrow> string option" where
  "first_cookie S [] = None"
| "first_cookie S (v # vs) = (case si_cookie S (trim v) of
       None \<Rightarrow> first_cookie S vs
     | Some (name, value) \<Rightarrow> if name = ADMIN_SESSION_COOKIE then Some value else first_cookie S vs)"

definition session_token_from_headers :: "site \<Rightarrow> arrival \<Rightarrow> string option" where
  "session_token_from_headers S r = Option.bind (ar_cookies r) (\<lambda>h. first_cookie S (split_on (CHR '';'') h))"

record authenticated_admin =
  au_admin :: admin_record
  au_is_owner :: bool
  au_csrf_token :: string

definition seen_long_ago :: "session_record \<Rightarrow> instant \<Rightarrow> bool" where
  "seen_long_ago s now \<longleftrightarrow> se_last_seen s \<le> now - minutes SESSION_TOUCH_INTERVAL_MINUTES"

definition current_admin :: "site \<Rightarrow> arrival \<Rightarrow> panel \<Rightarrow> authenticated_admin option \<times> panel" where
  "current_admin S r p = (case session_token_from_headers S r of
       None \<Rightarrow> (None, p)
     | Some token \<Rightarrow>
         let token_hash = hash_session_token S token; db = panel_db p in
         (case get_valid_admin_session token_hash (ar_now r) db of
            None \<Rightarrow> (None, p)
          | Some s \<Rightarrow> (case get_admin_by_id (se_admin_id s) db of
              None \<Rightarrow> (None, with_db (delete_admin_session token_hash db) p)
            | Some a \<Rightarrow>
                (Some \<lparr>au_admin = a, au_is_owner = is_owner_admin_id (ad_id a) db,
                   au_csrf_token = csrf_token_for_session_token S token\<rparr>,
                 if seen_long_ago s (ar_now r) then with_db (touch_admin_session token_hash (ar_now r) db) p else p))))"

definition require_admin :: "site \<Rightarrow> arrival \<Rightarrow> panel \<Rightarrow> (response + authenticated_admin) \<times> panel" where
  "require_admin S r p = (case current_admin S r p of
       (Some a, p) \<Rightarrow> (Inr a, p)
     | (None, p) \<Rightarrow>
         (Inl (See_Other (if admin_count (panel_db p) = 0 then ''/admin/setup'' else ''/admin/login'') []), p))"

definition csrf_error_response :: "authenticated_admin \<Rightarrow> string \<Rightarrow> response option" where
  "csrf_error_response auth token =
     (if token = au_csrf_token auth then None else Some (Failure 403 ''Request blocked''))"

definition owner_only_response :: response where
  "owner_only_response = Failure 403 ''Owner-only action''"

text \<open>The prologue of the POST handlers; \<open>owner\<close> says whether the handler checks the owner.\<close>

definition admin_action ::
  "site \<Rightarrow> arrival \<Rightarrow> string \<Rightarrow> bool \<Rightarrow> (authenticated_admin \<Rightarrow> panel \<Rightarrow> response \<times> panel) \<Rightarrow> panel \<Rightarrow> response \<times> panel" where
  "admin_action S r csrf owner body p = (case require_admin S r p of
       (Inl response, p) \<Rightarrow> (response, p)
     | (Inr auth, p) \<Rightarrow> (case csrf_error_response auth csrf of
         Some response \<Rightarrow> (response, p)
       | None \<Rightarrow> if owner \<and> \<not> au_is_owner auth then (owner_only_response, p) else body auth p))"

definition new_audit_event ::
  "authenticated_admin \<Rightarrow> audit_action \<Rightarrow> audit_object \<Rightarrow> string \<Rightarrow> audit_outcome \<Rightarrow> audit_metadata \<Rightarrow> audit_event" where
  "new_audit_event auth action object_type object_id outcome metadata =
     \<lparr>ae_actor = (if au_is_owner auth then owner_actor (ad_id (au_admin auth)) (ad_username (au_admin auth))
        else admin_actor (ad_id (au_admin auth)) (ad_username (au_admin auth))),
      ae_action = action, ae_object_type = object_type, ae_object_id = object_id, ae_outcome = outcome,
      ae_metadata = metadata\<rparr>"

text \<open>\<open>queue\_latest\_reconcile\<close>: a failure is logged, the generation stays pending.\<close>

definition queue_latest_reconcile :: "site \<Rightarrow> arrival \<Rightarrow> panel \<Rightarrow> panel" where
  "queue_latest_reconcile S r p =
     (let g = rc_desired (get_reconcile_state (panel_db p)) in
      if g < 0 then p
      else p\<lparr>pn_box := snd (publish_and_acknowledge (si_request_json S) (ar_io r) (ar_process r) g (pn_box p))\<rparr>)"

text \<open>The shape of most handlers: one transaction, then the answer.\<close>

definition commit ::
  "'a tx \<Rightarrow> (string \<Rightarrow> response) \<Rightarrow> ('a \<Rightarrow> panel \<Rightarrow> response \<times> panel) \<Rightarrow> panel \<Rightarrow> response \<times> panel" where
  "commit tx failed k p = (case tx (panel_db p) of
       Inl e \<Rightarrow> (failed e, p)
     | Inr (x, db) \<Rightarrow> k x (with_db db p))"

end
