(* ===== verification/Panel_Login.thy ===== *)
theory Panel_Login
  imports Panel_Session
begin

text \<open>
  The rate limiter and the account handlers of \<open>main.rs\<close>: first setup, login, logout, password change
  and theme. \<open>Instant\<close> is the monotonic clock of the request; the delay after a failed login is left
  out.
\<close>

subsection \<open>The rate limiter\<close>

definition source_hint :: "site \<Rightarrow> arrival \<Rightarrow> string" where
  "source_hint S r = (if ar_peer_loopback r
     then (case Option.bind (ar_real_ip r) (\<lambda>v. si_ip S (trim v)) of None \<Rightarrow> ar_peer r | Some ip \<Rightarrow> ip)
     else ar_peer r)"

definition login_rate_limit_keys :: "site \<Rightarrow> arrival \<Rightarrow> string \<Rightarrow> string list" where
  "login_rate_limit_keys S r username =
     (let name = si_take_chars S 128 (to_ascii_lowercase (trim username));
          name = (if name = [] then ''<empty>'' else name);
          source = source_hint S r in
      [''source:'' @ source, ''account-source:'' @ name @ ''@'' @ source])"

definition in_window :: "int \<Rightarrow> login_attempt \<Rightarrow> bool" where
  "in_window tick a \<longleftrightarrow> tick - la_started a < LOGIN_RATE_LIMIT_WINDOW"

definition prune_login_attempts :: "int \<Rightarrow> (string, login_attempt) btmap \<Rightarrow> (string, login_attempt) btmap" where
  "prune_login_attempts tick attempts = filter (\<lambda>(_, a). in_window tick a) attempts"

definition blocked_for :: "int \<Rightarrow> login_attempt \<Rightarrow> int option" where
  "blocked_for tick a = (if LOGIN_RATE_LIMIT_MAX_FAILURES \<le> la_failures a
     then Some (max 0 (LOGIN_RATE_LIMIT_WINDOW - (tick - la_started a))) else None)"

text \<open>
  \<open>retry\_after\<close>. The removal of an entry that left its window, inside the closure, finds nothing after
  the pruning.
\<close>

definition retry_after ::
  "string list \<Rightarrow> int \<Rightarrow> (string, login_attempt) btmap \<Rightarrow> int option \<times> (string, login_attempt) btmap" where
  "retry_after keys tick attempts =
     (let attempts = prune_login_attempts tick attempts;
          waits = List.map_filter (\<lambda>k. Option.bind (bt_get attempts k) (blocked_for tick)) keys in
      (if waits = [] then None else Some (Max (set waits)), attempts))"

definition count_failure :: "int \<Rightarrow> string \<Rightarrow> (string, login_attempt) btmap \<Rightarrow> (string, login_attempt) btmap" where
  "count_failure tick key attempts =
     (if bt_get attempts key = None \<and> LOGIN_RATE_LIMIT_MAX_KEYS \<le> length attempts then attempts
      else
        let a = (case bt_get attempts key of None \<Rightarrow> \<lparr>la_failures = 0, la_started = tick\<rparr> | Some a \<Rightarrow> a);
            a = (if in_window tick a then a else \<lparr>la_failures = 0, la_started = tick\<rparr>) in
        bt_insert key (a\<lparr>la_failures := (if la_failures a = - 1 then la_failures a else la_failures a + 1)\<rparr>) attempts)"

definition record_failure :: "string list \<Rightarrow> int \<Rightarrow> (string, login_attempt) btmap \<Rightarrow> (string, login_attempt) btmap" where
  "record_failure keys tick attempts = fold (count_failure tick) keys (prune_login_attempts tick attempts)"

definition record_success :: "string list \<Rightarrow> (string, login_attempt) btmap \<Rightarrow> (string, login_attempt) btmap" where
  "record_success keys attempts = fold bt_remove keys attempts"

subsection \<open>Passwords\<close>

text \<open>\<open>None\<close>: every password worker is busy.\<close>

definition verify_password_limited :: "site \<Rightarrow> arrival \<Rightarrow> string \<Rightarrow> string \<Rightarrow> bool option res" where
  "verify_password_limited S r password password_hash =
     (if \<not> ar_worker_free r then Ok None
      else and_then (si_verify S password password_hash) (\<lambda>b. Ok (Some b)))"

definition internal_error :: response where
  "internal_error = Failure 500 ''Request failed''"

definition password_workers_busy_response :: response where
  "password_workers_busy_response = Retry_later ''Login capacity reached'' 3"

definition login_failed_response :: response where
  "login_failed_response = Failure 401 ''Login failed''"

definition rate_limited_response :: "int \<Rightarrow> response" where
  "rate_limited_response wait = Retry_later ''Login temporarily blocked'' (max 1 (wait div SECOND))"

definition active_session_cookie :: "site \<Rightarrow> string \<Rightarrow> cookie" where
  "active_session_cookie S token = \<lparr>ck_value = token, ck_path = ''/admin'', ck_secure = si_cookie_secure S,
     ck_max_age = days ADMIN_SESSION_TTL_DAYS\<rparr>"

definition expired_session_cookie :: "site \<Rightarrow> string \<Rightarrow> cookie" where
  "expired_session_cookie S path = \<lparr>ck_value = [], ck_path = path, ck_secure = si_cookie_secure S, ck_max_age = 0\<rparr>"

definition create_session_redirect :: "site \<Rightarrow> arrival \<Rightarrow> int \<Rightarrow> string \<Rightarrow> panel \<Rightarrow> response \<times> panel" where
  "create_session_redirect S r admin_id location p =
     (let p = with_db (delete_expired_admin_sessions (ar_now r) (panel_db p)) p in
      case ar_session_token r of
        Inl _ \<Rightarrow> (internal_error, p)
      | Inr token \<Rightarrow> commit
          (create_admin_session admin_id (hash_session_token S token) (ar_now r + days ADMIN_SESSION_TTL_DAYS) (ar_now r))
          (\<lambda>_. internal_error)
          (\<lambda>_ p. (See_Other location [expired_session_cookie S ''/'', active_session_cookie S token], p)) p)"

subsection \<open>First setup\<close>

definition setup_token_matches :: "site \<Rightarrow> string \<Rightarrow> bool" where
  "setup_token_matches S candidate \<longleftrightarrow> MIN_SETUP_TOKEN_LEN \<le> length (si_setup_token S)
     \<and> si_setup_token S = trim candidate"

definition valid_account_name :: "string \<Rightarrow> nat \<Rightarrow> bool" where
  "valid_account_name v minimum_length \<longleftrightarrow> minimum_length \<le> length v \<and> length v \<le> 64
     \<and> (case v of [] \<Rightarrow> False | b # _ \<Rightarrow> is_alphanumeric b)
     \<and> list_all (\<lambda>b. is_alphanumeric b \<or> b = CHR ''.'' \<or> b = CHR ''_'' \<or> b = CHR ''-'') v"

definition password_length_ok :: "string \<Rightarrow> bool" where
  "password_length_ok v \<longleftrightarrow> MIN_ADMIN_PASSWORD_LEN \<le> length v \<and> length v \<le> MAX_ADMIN_PASSWORD_LEN"

record setup_admin_form =
  sf_setup_token :: string
  sf_username :: string
  sf_password :: string
  sf_password_confirm :: string

definition setup_admin_action :: "site \<Rightarrow> arrival \<Rightarrow> setup_admin_form \<Rightarrow> panel \<Rightarrow> response \<times> panel" where
  "setup_admin_action S r form p =
     (let username = trim (sf_username form) in
      if admin_count (panel_db p) \<noteq> 0 then (See_Other ''/admin/login'' [], p)
      else if \<not> setup_token_matches S (sf_setup_token form) then (Failure 403 ''Setup blocked'', p)
      else if \<not> valid_account_name username 3 then (Failure 400 ''Setup failed'', p)
      else if \<not> password_length_ok (sf_password form) then (Failure 400 ''Setup failed'', p)
      else if sf_password form \<noteq> sf_password_confirm form then (Failure 400 ''Setup failed'', p)
      else case si_hash S (sf_password form) of
        Inl _ \<Rightarrow> (internal_error, p)
      | Inr password_hash \<Rightarrow> commit
          (create_first_admin_inner username password_hash (Some \<lparr>ae_actor = initial_owner username,
             ae_action = OwnerCreated, ae_object_type = ObOwner, ae_object_id = username,
             ae_outcome = OcSucceeded, ae_metadata = metadata_none\<rparr>) (ar_now r))
          (\<lambda>_. Failure 409 ''Setup failed'')
          (\<lambda>a. create_session_redirect S r (ad_id a) ''/admin'') p)"

subsection \<open>Login\<close>

record login_form =
  lf_username :: string
  lf_password :: string

definition login_failure :: "string list \<Rightarrow> arrival \<Rightarrow> panel \<Rightarrow> response \<times> panel" where
  "login_failure keys r p =
     (login_failed_response, p\<lparr>pn_attempts := record_failure keys (ar_tick r) (pn_attempts p)\<rparr>)"

definition login_action :: "site \<Rightarrow> arrival \<Rightarrow> login_form \<Rightarrow> panel \<Rightarrow> response \<times> panel" where
  "login_action S r form p =
     (if admin_count (panel_db p) = 0 then (See_Other ''/admin/setup'' [], p)
      else
        let keys = login_rate_limit_keys S r (lf_username form) in
        case retry_after keys (ar_tick r) (pn_attempts p) of (wait, attempts) \<Rightarrow>
        let p = p\<lparr>pn_attempts := attempts\<rparr> in
        case wait of Some w \<Rightarrow> (rate_limited_response w, p)
        | None \<Rightarrow>
        if MAX_ADMIN_PASSWORD_LEN < length (lf_password form) then login_failure keys r p
        else case get_admin_by_username (lf_username form) (panel_db p) of
          None \<Rightarrow> (case verify_password_limited S r (lf_password form) DUMMY_PASSWORD_HASH of
              Inl _ \<Rightarrow> (internal_error, p)
            | Inr None \<Rightarrow> (password_workers_busy_response, p)
            | Inr (Some _) \<Rightarrow> login_failure keys r p)
        | Some a \<Rightarrow> (case verify_password_limited S r (lf_password form) (ad_password_hash a) of
              Inl _ \<Rightarrow> (internal_error, p)
            | Inr None \<Rightarrow> (password_workers_busy_response, p)
            | Inr (Some True) \<Rightarrow> create_session_redirect S r (ad_id a) ''/admin''
                (p\<lparr>pn_attempts := record_success keys (pn_attempts p)\<rparr>)
            | Inr (Some False) \<Rightarrow> login_failure keys r p))"

subsection \<open>Logout, password and theme\<close>

definition end_session_redirect :: "site \<Rightarrow> response" where
  "end_session_redirect S =
     See_Other ''/admin/login'' [expired_session_cookie S ''/admin'', expired_session_cookie S ''/'']"

definition logout_action :: "site \<Rightarrow> arrival \<Rightarrow> string \<Rightarrow> panel \<Rightarrow> response \<times> panel" where
  "logout_action S r csrf = admin_action S r csrf False (\<lambda>_ p.
     (end_session_redirect S, case session_token_from_headers S r of
        None \<Rightarrow> p
      | Some token \<Rightarrow> with_db (delete_admin_session (hash_session_token S token) (panel_db p)) p))"

text \<open>The theme names of \<open>ui.rs\<close>; a retired name is read as the default theme.\<close>

definition parse_theme :: "string \<Rightarrow> string option" where
  "parse_theme v = (if v = ''obsidian-gate'' \<or> v = ''hades'' then Some ''obsidian-gate''
     else if v = ''ultrakill'' then Some ''ultrakill'' else None)"

definition admin_theme_setting_key :: "int \<Rightarrow> string" where
  "admin_theme_setting_key i = ''admin.'' @ show_int i @ ''.theme''"

definition theme_action :: "site \<Rightarrow> arrival \<Rightarrow> string \<Rightarrow> string \<Rightarrow> panel \<Rightarrow> response \<times> panel" where
  "theme_action S r csrf theme = admin_action S r csrf False (\<lambda>auth p.
     case parse_theme theme of
       None \<Rightarrow> (Failure 422 ''Theme rejected'', p)
     | Some t \<Rightarrow> (See_Other ''/admin'' [],
         with_db (upsert_setting (admin_theme_setting_key (ad_id (au_admin auth))) t (ar_now r) (panel_db p)) p))"

record password_change_form =
  pc_current :: string
  pc_new :: string
  pc_confirm :: string

definition change_password_action :: "site \<Rightarrow> arrival \<Rightarrow> string \<Rightarrow> password_change_form \<Rightarrow> panel \<Rightarrow> response \<times> panel" where
  "change_password_action S r csrf form = admin_action S r csrf False (\<lambda>auth p.
     if MAX_ADMIN_PASSWORD_LEN < length (pc_current form) then (Failure 403 ''Password not changed'', p)
     else if \<not> password_length_ok (pc_new form) then (Failure 400 ''Password not changed'', p)
     else if pc_new form \<noteq> pc_confirm form then (Failure 400 ''Password not changed'', p)
     else case verify_password_limited S r (pc_current form) (ad_password_hash (au_admin auth)) of
       Inl _ \<Rightarrow> (internal_error, p)
     | Inr None \<Rightarrow> (password_workers_busy_response, p)
     | Inr (Some False) \<Rightarrow> (Failure 403 ''Password not changed'', p)
     | Inr (Some True) \<Rightarrow> (case si_hash S (pc_new form) of
         Inl _ \<Rightarrow> (internal_error, p)
       | Inr password_hash \<Rightarrow> commit
           (update_admin_password_inner (ad_id (au_admin auth)) password_hash
              (Some (new_audit_event auth PasswordChanged ObAdminAccount (ad_username (au_admin auth)) OcSucceeded metadata_none))
              (ar_now r))
           (\<lambda>_. internal_error) (\<lambda>_ p. (end_session_redirect S, p)) p))"

end
