(* ===== verification/Panel_Users.thy ===== *)
theory Panel_Users
  imports Panel_Login
begin

text \<open>
  The handlers of \<open>main.rs\<close> for subscription users, with the parsers of their form fields. An RFC 3339
  stamp is an instant with an offset; the range of \<open>DateTime\<close> is not modelled.
\<close>

definition GIB_BYTES :: int where "GIB_BYTES = 1024 * 1024 * 1024"
definition MAX_USER_EXPIRY_DAYS :: int where "MAX_USER_EXPIRY_DAYS = 3650"

text \<open>\<open>str::parse::<i64>\<close>\<close>

definition parse_i64 :: "string \<Rightarrow> int option" where
  "parse_i64 v =
     (let (negative, digits) = (case v of [] \<Rightarrow> (False, [])
        | c # cs \<Rightarrow> if c = CHR ''-'' then (True, cs) else if c = CHR ''+'' then (False, cs) else (False, v));
        n = (if negative then - int (parse_digits digits) else int (parse_digits digits)) in
      if digits = [] \<or> \<not> list_all is_digit digits \<or> n < - (2 ^ 63) \<or> i64_max < n then None else Some n)"

definition parse_user_traffic_limit :: "string \<Rightarrow> int option res" where
  "parse_user_traffic_limit v =
     (let v = trim v in
      if v = [] \<or> v = ''0'' then Ok None
      else case parse_i64 v of
        None \<Rightarrow> Err ''Traffic limit must be a whole number of GiB''
      | Some gib \<Rightarrow> if gib \<le> 0 then Err ''Traffic limit must be positive''
          else if i64_max < gib * GIB_BYTES then Err ''Traffic limit is too large''
          else Ok (Some (gib * GIB_BYTES)))"

definition parse_create_user_expiry :: "string \<Rightarrow> instant \<Rightarrow> instant option res" where
  "parse_create_user_expiry v now =
     (let v = trim v in
      if v = [] \<or> v = ''0'' then Ok None
      else case parse_i64 v of
        None \<Rightarrow> Err ''Expiry must be a whole number of days''
      | Some n \<Rightarrow> if n < 1 \<or> MAX_USER_EXPIRY_DAYS < n then Err ''Expiry must be between 1 and 3650 days''
          else Ok (Some (now + days n)))"

definition parse_user_expiry_utc :: "site \<Rightarrow> string \<Rightarrow> instant \<Rightarrow> instant option res" where
  "parse_user_expiry_utc S v now =
     (if trim v = [] then Ok None
      else case si_rfc3339 S (trim v) of
        None \<Rightarrow> Err ''Expiry must be an RFC 3339 timestamp in UTC''
      | Some (parsed, offset) \<Rightarrow>
          if offset \<noteq> 0 then Err ''Expiry must use UTC with a Z or +00:00 offset''
          else if parsed < now - days MAX_USER_EXPIRY_DAYS \<or> now + days MAX_USER_EXPIRY_DAYS < parsed
          then Err ''Expiry must be within 3650 days of the current UTC time''
          else Ok (Some parsed))"

definition parse_user_version :: "site \<Rightarrow> string \<Rightarrow> instant res" where
  "parse_user_version S v = (case si_rfc3339 S (trim v) of
       None \<Rightarrow> Err ''The user form version is invalid; reload the page''
     | Some (t, _) \<Rightarrow> Ok t)"

definition checkbox_enabled :: "string \<Rightarrow> bool" where
  "checkbox_enabled v \<longleftrightarrow> v = ''1'' \<or> v = ''true'' \<or> v = ''yes'' \<or> v = ''on''"

definition bad_request :: response where
  "bad_request = Failure 400 ''Bad request''"

definition user_event :: "authenticated_admin \<Rightarrow> audit_action \<Rightarrow> string \<Rightarrow> audit_metadata \<Rightarrow> audit_event" where
  "user_event auth action object_id metadata = new_audit_event auth action ObUser object_id OcSucceeded metadata"

text \<open>The answer after a change of a user: a new generation is handed to the worker.\<close>

definition users_redirect :: "site \<Rightarrow> arrival \<Rightarrow> user_mutation_result \<Rightarrow> panel \<Rightarrow> response \<times> panel" where
  "users_redirect S r result p = (See_Other ''/admin/users'' [],
     if um_generation result = None then p else queue_latest_reconcile S r p)"

record create_user_form =
  cf_username :: string
  cf_traffic_limit_gb :: string
  cf_expires_in_days :: string

definition create_user_action :: "site \<Rightarrow> arrival \<Rightarrow> string \<Rightarrow> create_user_form \<Rightarrow> panel \<Rightarrow> response \<times> panel" where
  "create_user_action S r csrf form = admin_action S r csrf False (\<lambda>auth p.
     let username = trim (cf_username form) in
     if \<not> valid_user_name username then (bad_request, p)
     else case parse_user_traffic_limit (cf_traffic_limit_gb form) of Inl _ \<Rightarrow> (bad_request, p)
     | Inr limit \<Rightarrow> (case parse_create_user_expiry (cf_expires_in_days form) (ar_now r) of Inl _ \<Rightarrow> (bad_request, p)
     | Inr expires \<Rightarrow> commit
         (create_user_inner \<lparr>nu_username = username, nu_limit = limit, nu_expires = expires\<rparr>
            (Some (user_event auth UserCreated username metadata_none)) (ar_uuid r) (ar_user_token r) (ar_operation r) (ar_now r))
         (\<lambda>_. Failure 409 ''Create user failed'')
         (\<lambda>_ p. (See_Other ''/admin/users'' [], queue_latest_reconcile S r p)) p))"

record edit_user_form =
  ef_username :: string
  ef_traffic_limit_gb :: string
  ef_expires_at_utc :: string
  ef_expected_updated_at :: string

definition edit_user_action :: "site \<Rightarrow> arrival \<Rightarrow> string \<Rightarrow> int \<Rightarrow> edit_user_form \<Rightarrow> panel \<Rightarrow> response \<times> panel" where
  "edit_user_action S r csrf i form = admin_action S r csrf False (\<lambda>auth p.
     let username = trim (ef_username form) in
     if \<not> valid_user_name username then (bad_request, p)
     else case parse_user_traffic_limit (ef_traffic_limit_gb form) of Inl _ \<Rightarrow> (bad_request, p)
     | Inr limit \<Rightarrow> (case parse_user_expiry_utc S (ef_expires_at_utc form) (ar_now r) of Inl _ \<Rightarrow> (bad_request, p)
     | Inr expires \<Rightarrow> (case parse_user_version S (ef_expected_updated_at form) of Inl _ \<Rightarrow> (bad_request, p)
     | Inr expected \<Rightarrow> commit
         (update_user_audited \<lparr>uu_id = i, uu_expected = expected, uu_username = username, uu_limit = limit, uu_expires = expires\<rparr>
            (user_event auth UserUpdated (show_int i) metadata_none) (ar_operation r) (ar_now r))
         (\<lambda>_. Failure 409 ''Edit user failed'') (users_redirect S r) p)))"

definition toggle_user_action :: "site \<Rightarrow> arrival \<Rightarrow> string \<Rightarrow> int \<Rightarrow> panel \<Rightarrow> response \<times> panel" where
  "toggle_user_action S r csrf i = admin_action S r csrf False (\<lambda>auth p.
     case user_by_id i (panel_db p) of
       None \<Rightarrow> (Failure 404 ''User not found'', p)
     | Some u \<Rightarrow>
         let enabled = (\<not> us_enabled u) in
         commit (set_user_enabled_inner i enabled
             (Some (user_event auth (if enabled then UserEnabled else UserDisabled) (show_int i) (metadata_enabled enabled)))
             (ar_operation r) (ar_now r))
           (\<lambda>_. Failure 500 ''Toggle user failed'') (users_redirect S r) p)"

definition reset_user_token_action :: "site \<Rightarrow> arrival \<Rightarrow> string \<Rightarrow> int \<Rightarrow> panel \<Rightarrow> response \<times> panel" where
  "reset_user_token_action S r csrf i = admin_action S r csrf False (\<lambda>auth p.
     commit (reset_user_subscription_token_inner i
         (Some (user_event auth UserSubscriptionTokenReset (show_int i) metadata_none)) (ar_user_token r) (ar_now r))
       (\<lambda>_. Failure 500 ''Reset token failed'') (\<lambda>_ p. (See_Other ''/admin/users'' [], p)) p)"

definition rotate_user_identity_action :: "site \<Rightarrow> arrival \<Rightarrow> string \<Rightarrow> int \<Rightarrow> string \<Rightarrow> panel \<Rightarrow> response \<times> panel" where
  "rotate_user_identity_action S r csrf i version = admin_action S r csrf False (\<lambda>auth p.
     case parse_user_version S version of Inl _ \<Rightarrow> (bad_request, p)
     | Inr expected \<Rightarrow> commit
         (rotate_user_runtime_identity_audited i expected
            (user_event auth UserRuntimeIdentityRotated (show_int i) metadata_none) (ar_uuid r) (ar_operation r) (ar_now r))
         (\<lambda>_. Failure 409 ''Rotate identity failed'') (users_redirect S r) p)"

definition delete_user_action :: "site \<Rightarrow> arrival \<Rightarrow> string \<Rightarrow> int \<Rightarrow> panel \<Rightarrow> response \<times> panel" where
  "delete_user_action S r csrf i = admin_action S r csrf False (\<lambda>auth p.
     commit (delete_user_inner i (Some (user_event auth UserDeleted (show_int i) metadata_none)) (ar_operation r) (ar_now r))
       (\<lambda>_. Failure 500 ''Delete user failed'') (users_redirect S r) p)"

end
