(* ===== verification/Panel_Routing.thy ===== *)
theory Panel_Routing
  imports Panel_Users Rule_Sources Store_Profiles
begin

text \<open>
  The handlers of \<open>main.rs\<close> for DNS, transport pools, routing policies, rule sets, their entries and
  their remote sources. All of them are for the owner. The JSON codec of stored profiles and the web
  of the rule sources are parameters.
\<close>

record outside =
  ou_codec :: json_codec
  ou_web :: web
  ou_stamp :: string
  ou_yaml :: "string list \<Rightarrow> string res"

definition routing_input_error :: "string \<Rightarrow> response" where
  "routing_input_error title = Failure 400 title"

definition routing_redirect :: "'a \<Rightarrow> panel \<Rightarrow> response \<times> panel" where
  "routing_redirect x p = (See_Other ''/admin/routing'' [], p)"

definition nonempty :: "string \<Rightarrow> string option" where
  "nonempty v = (if trim v = [] then None else Some (trim v))"

definition saved_event :: "authenticated_admin \<Rightarrow> audit_action \<Rightarrow> audit_object \<Rightarrow> string \<Rightarrow> audit_metadata \<Rightarrow> audit_event" where
  "saved_event auth action object i metadata = new_audit_event auth action object i OcSucceeded metadata"

subsection \<open>The built-in rule sets\<close>

record routing_rule_set_form =
  rf_slug :: string
  rf_enabled :: string
  rf_target :: string
  rf_payload :: string

definition update_routing_rule_action :: "site \<Rightarrow> outside \<Rightarrow> arrival \<Rightarrow> string \<Rightarrow> routing_rule_set_form \<Rightarrow> panel \<Rightarrow> response \<times> panel" where
  "update_routing_rule_action S Q r csrf form = admin_action S r csrf True (\<lambda>auth p.
     if trim (rf_payload form) \<noteq> [] \<and> \<not> is_ok (routing_rule_payload_yaml (ou_yaml Q) (rf_payload form))
     then (Failure 400 ''Routing update failed'', p)
     else if trim (rf_payload form) = [] \<and> rf_slug form \<noteq> CUSTOM_DIRECT_SLUG
     then (Failure 400 ''Routing update failed'', p)
     else
       let custom_direct = (rf_slug form = CUSTOM_DIRECT_SLUG);
           input = \<lparr>ur_slug = rf_slug form,
             ur_enabled = (if custom_direct then trim (rf_payload form) \<noteq> [] else checkbox_enabled (rf_enabled form)),
             ur_target = (if custom_direct then ''DIRECT'' else rf_target form), ur_payload = rf_payload form\<rparr> in
       commit (update_routing_rule_set_inner input
           (Some (saved_event auth RuleSetSaved ObRuleSet (ur_slug input) (metadata_enabled (ur_enabled input)))) (ar_now r))
         (\<lambda>_. Failure 400 ''Routing update failed'') routing_redirect p)"

subsection \<open>DNS\<close>

record dns_policy_form =
  df_enabled :: string
  df_ipv6 :: string
  df_respect_rules :: string
  df_enhanced_mode :: string
  df_bootstrap_resolvers :: string
  df_remote_resolvers :: string
  df_direct_resolvers :: string

definition trimmed_lines :: "string \<Rightarrow> string list" where
  "trimmed_lines v = filter (\<lambda>l. l \<noteq> []) (map trim (lines v))"

definition dns_policy_from_form :: "dns_policy_form \<Rightarrow> dns_policy" where
  "dns_policy_from_form form = \<lparr>dp_enabled = checkbox_enabled (df_enabled form), dp_ipv6 = checkbox_enabled (df_ipv6 form),
     dp_enhanced_mode = df_enhanced_mode form, dp_respect_rules = checkbox_enabled (df_respect_rules form),
     dp_bootstrap_resolvers = trimmed_lines (df_bootstrap_resolvers form),
     dp_remote_resolvers = trimmed_lines (df_remote_resolvers form),
     dp_direct_resolvers = trimmed_lines (df_direct_resolvers form)\<rparr>"

definition update_dns_policy_action :: "site \<Rightarrow> arrival \<Rightarrow> string \<Rightarrow> dns_policy_form \<Rightarrow> panel \<Rightarrow> response \<times> panel" where
  "update_dns_policy_action S r csrf form = admin_action S r csrf True (\<lambda>auth p.
     let policy = dns_policy_from_form form in
     commit (update_dns_policy_inner policy
         (Some (saved_event auth DnsPolicySaved ObDnsPolicy ''client'' (metadata_enabled (dp_enabled policy)))) (ar_now r))
       (\<lambda>_. Failure 400 ''DNS policy update failed'') routing_redirect p)"

subsection \<open>Transport pools\<close>

record transport_pool_form =
  tf_original_id :: string
  tf_id :: string
  tf_display_name :: string
  tf_kind :: string
  tf_enabled :: string
  tf_members :: string
  tf_test_url :: string
  tf_interval_seconds :: string
  tf_timeout_ms :: string
  tf_tolerance_ms :: string
  tf_max_failures :: string
  tf_lazy :: string
  tf_minimum_healthy_count :: string
  tf_fallback_pool :: string
  tf_priority :: int
  tf_strategy :: string

definition parse_pool_member :: "string \<Rightarrow> pool_member res" where
  "parse_pool_member v =
     (if v = ''all-profiles'' then Ok MAllProfiles
      else if v = ''DIRECT'' then Ok MDirect
      else if v = ''REJECT'' then Ok MReject
      else case split_once (CHR '':'') v of
        None \<Rightarrow> Err ''member must use kind:value syntax''
      | Some (kind, value) \<Rightarrow>
          if trim value = [] then Err ''transport pool member value is empty''
          else if kind = ''profile'' then Ok (MProfile (trim value))
          else if kind = ''capability'' then Ok (MCapability (trim value))
          else if kind = ''role'' then and_then (parse_role (trim value)) (\<lambda>role. Ok (MRole role))
          else if kind = ''all-except-role'' then and_then (parse_role (trim value)) (\<lambda>role. Ok (MAllExceptRole role))
          else if kind = ''pool'' then Ok (MPool (trim value))
          else Err ''unknown transport pool member kind'')"

text \<open>\<open>str::parse::<u32>\<close> takes an optional plus sign.\<close>

definition parse_u32 :: "string \<Rightarrow> u32 option" where
  "parse_u32 v =
     (let digits = (case v of [] \<Rightarrow> [] | c # cs \<Rightarrow> if c = CHR ''+'' then cs else v) in
      if digits = [] \<or> \<not> list_all is_digit digits \<or> MAX_U32 < int (parse_digits digits) then None
      else Some (of_nat (parse_digits digits)))"

definition form_u32 :: "string \<Rightarrow> string \<Rightarrow> u32 option res" where
  "form_u32 label v =
     (if trim v = [] then Ok None
      else case parse_u32 (trim v) of
        None \<Rightarrow> Err (label @ '' must be an unsigned integer'')
      | Some n \<Rightarrow> Ok (Some n))"

definition form_pool_kind :: "string \<Rightarrow> pool_kind res" where
  "form_pool_kind v =
     (if v = ''manual'' \<or> v = ''select'' then Ok PkSelect else if v = ''url-test'' then Ok PkUrlTest
      else if v = ''fallback'' then Ok PkFallback else if v = ''load-balance'' then Ok PkLoadBalance
      else Err ''unknown transport pool strategy'')"

definition transport_pool_from_form :: "transport_pool_form \<Rightarrow> transport_pool res" where
  "transport_pool_from_form form =
     and_then (form_pool_kind (tf_kind form)) (\<lambda>kind.
     and_then (collect_res (map parse_pool_member (trimmed_lines (tf_members form)))) (\<lambda>members.
     and_then (form_u32 ''interval'' (tf_interval_seconds form)) (\<lambda>interval.
     and_then (form_u32 ''timeout'' (tf_timeout_ms form)) (\<lambda>timeout.
     and_then (form_u32 ''tolerance'' (tf_tolerance_ms form)) (\<lambda>tolerance.
     and_then (form_u32 ''maximum failures'' (tf_max_failures form)) (\<lambda>failures.
     and_then (form_u32 ''minimum healthy count'' (tf_minimum_healthy_count form)) (\<lambda>minimum.
       Ok \<lparr>tp_id = trim (tf_id form), tp_display_name = trim (tf_display_name form), tp_kind = kind,
         tp_enabled = checkbox_enabled (tf_enabled form), tp_members = members, tp_test_url = nonempty (tf_test_url form),
         tp_interval_seconds = interval, tp_timeout_ms = timeout, tp_tolerance_ms = tolerance,
         tp_max_failures = failures, tp_lazy = checkbox_enabled (tf_lazy form), tp_minimum_healthy_count = minimum,
         tp_fallback_pool = nonempty (tf_fallback_pool form), tp_priority = tf_priority form,
         tp_strategy = nonempty (tf_strategy form)\<rparr>)))))))"

text \<open>Three handlers load the profiles first, against which the policy is validated.\<close>

definition with_profiles ::
  "outside \<Rightarrow> (protocol_profile list \<Rightarrow> panel \<Rightarrow> response \<times> panel) \<Rightarrow> panel \<Rightarrow> response \<times> panel" where
  "with_profiles Q k p = (case list_protocol_profiles_decoded (ou_codec Q) (panel_db p) of
       Inl _ \<Rightarrow> (internal_error, p)
     | Inr profiles \<Rightarrow> k profiles p)"

definition save_transport_pool_action :: "site \<Rightarrow> outside \<Rightarrow> arrival \<Rightarrow> string \<Rightarrow> transport_pool_form \<Rightarrow> panel \<Rightarrow> response \<times> panel" where
  "save_transport_pool_action S Q r csrf form = admin_action S r csrf True (\<lambda>auth p.
     case transport_pool_from_form form of Inl _ \<Rightarrow> (routing_input_error ''Transport pool rejected'', p)
     | Inr v \<Rightarrow> with_profiles Q (\<lambda>profiles. commit
         (upsert_transport_pool_inner (nonempty (tf_original_id form)) v profiles
            (Some (saved_event auth TransportPoolSaved ObTransportPool (tp_id v) metadata_none)) (ar_operation r) (ar_now r))
         (\<lambda>_. routing_input_error ''Transport pool rejected'') routing_redirect) p)"

definition delete_transport_pool_action :: "site \<Rightarrow> outside \<Rightarrow> arrival \<Rightarrow> string \<Rightarrow> string \<Rightarrow> string \<Rightarrow> panel \<Rightarrow> response \<times> panel" where
  "delete_transport_pool_action S Q r csrf i replacement = admin_action S r csrf True (\<lambda>auth.
     with_profiles Q (\<lambda>profiles. commit
         (delete_transport_pool_inner (trim i) (nonempty replacement) profiles
            (Some (saved_event auth TransportPoolDeleted ObTransportPool (trim i) metadata_none)) (ar_operation r) (ar_now r))
         (\<lambda>_. routing_input_error ''Transport pool deletion rejected'') routing_redirect))"

subsection \<open>Routing policies\<close>

record routing_policy_form =
  yf_original_id :: string
  yf_id :: string
  yf_display_name :: string
  yf_enabled :: string
  yf_priority :: int
  yf_condition :: string
  yf_target :: string

definition save_routing_policy_action :: "site \<Rightarrow> outside \<Rightarrow> arrival \<Rightarrow> string \<Rightarrow> routing_policy_form \<Rightarrow> panel \<Rightarrow> response \<times> panel" where
  "save_routing_policy_action S Q r csrf form = admin_action S r csrf True (\<lambda>auth.
     let v = \<lparr>rr_id = trim (yf_id form), rr_display_name = trim (yf_display_name form),
           rr_enabled = checkbox_enabled (yf_enabled form), rr_priority = yf_priority form,
           rr_condition = trim (yf_condition form), rr_target = trim (yf_target form)\<rparr> in
     with_profiles Q (\<lambda>profiles. commit
         (upsert_routing_policy_inner (nonempty (yf_original_id form)) v profiles
            (Some (saved_event auth RoutingPolicySaved ObRoutingPolicy (rr_id v) metadata_none)) (ar_operation r) (ar_now r))
         (\<lambda>_. routing_input_error ''Routing policy rejected'') routing_redirect))"

definition delete_routing_policy_action :: "site \<Rightarrow> arrival \<Rightarrow> string \<Rightarrow> string \<Rightarrow> panel \<Rightarrow> response \<times> panel" where
  "delete_routing_policy_action S r csrf i = admin_action S r csrf True (\<lambda>auth. commit
     (delete_routing_policy_inner (trim i)
        (Some (saved_event auth RoutingPolicyDeleted ObRoutingPolicy (trim i) metadata_none)) (ar_operation r) (ar_now r))
     (\<lambda>_. routing_input_error ''Routing policy deletion rejected'') routing_redirect)"

subsection \<open>Rule sets\<close>

record rule_set_form =
  vf_create :: string
  vf_slug :: string
  vf_title :: string
  vf_effect :: string
  vf_target :: string
  vf_enabled :: string
  vf_payload :: string

definition rule_set_from_form :: "rule_set_form \<Rightarrow> routing_rule_set" where
  "rule_set_from_form form = \<lparr>rs_slug = trim (vf_slug form), rs_title = trim (vf_title form), rs_effect = trim (vf_effect form),
     rs_target = trim (vf_target form), rs_enabled = checkbox_enabled (vf_enabled form), rs_payload = vf_payload form\<rparr>"

definition save_rule_set_action :: "site \<Rightarrow> arrival \<Rightarrow> string \<Rightarrow> rule_set_form \<Rightarrow> panel \<Rightarrow> response \<times> panel" where
  "save_rule_set_action S r csrf form = admin_action S r csrf True (\<lambda>auth.
     let v = rule_set_from_form form;
         event = saved_event auth RuleSetSaved ObRuleSet (rs_slug v) (metadata_enabled (rs_enabled v)) in
     commit (if checkbox_enabled (vf_create form) then create_routing_rule_set_inner v (Some event) (ar_now r)
         else save_routing_rule_set_inner v (Some event) (ar_now r))
       (\<lambda>_. routing_input_error ''Rule set rejected'') routing_redirect)"

definition delete_rule_set_action :: "site \<Rightarrow> arrival \<Rightarrow> string \<Rightarrow> string \<Rightarrow> panel \<Rightarrow> response \<times> panel" where
  "delete_rule_set_action S r csrf slug = admin_action S r csrf True (\<lambda>auth. commit
     (delete_routing_rule_set_inner (trim slug) (Some (saved_event auth RuleSetDeleted ObRuleSet (trim slug) metadata_none)) (ar_now r))
     (\<lambda>_. routing_input_error ''Rule set deletion rejected'') routing_redirect)"

definition clone_rule_set_action :: "site \<Rightarrow> arrival \<Rightarrow> string \<Rightarrow> string \<Rightarrow> string \<Rightarrow> panel \<Rightarrow> response \<times> panel" where
  "clone_rule_set_action S r csrf slug new_slug = admin_action S r csrf True (\<lambda>auth. commit
     (clone_routing_rule_set_inner (trim slug) (trim new_slug)
        (Some (saved_event auth RuleSetCloned ObRuleSet (trim new_slug) metadata_none)) (ar_fresh r) (ar_now r))
     (\<lambda>_. routing_input_error ''Rule set clone rejected'') routing_redirect)"

subsection \<open>Entries\<close>

record rule_entry_form =
  nf_id :: string
  nf_rule_set_id :: string
  nf_enabled :: string
  nf_kind :: string
  nf_value :: string
  nf_comment :: string
  nf_source_tag :: string
  nf_priority :: int

definition rule_entry_from_form :: "arrival \<Rightarrow> rule_kind \<Rightarrow> rule_entry_form \<Rightarrow> rule_entry" where
  "rule_entry_from_form r kind form = \<lparr>re_id = (if trim (nf_id form) = [] then ar_uuid r else trim (nf_id form)),
     re_rule_set_id = trim (nf_rule_set_id form), re_enabled = checkbox_enabled (nf_enabled form), re_kind = kind,
     re_value = trim (nf_value form), re_comment = nonempty (nf_comment form), re_source_tag = nonempty (nf_source_tag form),
     re_priority = nf_priority form\<rparr>"

definition save_rule_entry_action :: "site \<Rightarrow> arrival \<Rightarrow> string \<Rightarrow> rule_entry_form \<Rightarrow> panel \<Rightarrow> response \<times> panel" where
  "save_rule_entry_action S r csrf form = admin_action S r csrf True (\<lambda>auth p.
     case rule_kind_parse (nf_kind form) of Inl _ \<Rightarrow> (routing_input_error ''Rule entry rejected'', p)
     | Inr kind \<Rightarrow>
         let e = rule_entry_from_form r kind form in
         commit (upsert_rule_entry_inner e
             (Some (saved_event auth RuleEntrySaved ObRuleEntry (re_id e) (metadata_enabled (re_enabled e)))) (ar_now r))
           (\<lambda>_. routing_input_error ''Rule entry rejected'') routing_redirect p)"

definition delete_rule_entry_action :: "site \<Rightarrow> arrival \<Rightarrow> string \<Rightarrow> string \<Rightarrow> panel \<Rightarrow> response \<times> panel" where
  "delete_rule_entry_action S r csrf i = admin_action S r csrf True (\<lambda>auth. commit
     (delete_rule_entry_inner (trim i) (Some (saved_event auth RuleEntryDeleted ObRuleEntry (trim i) metadata_none)) (ar_now r))
     (\<lambda>_. routing_input_error ''Rule entry deletion rejected'') routing_redirect)"

record bulk_rule_entry_form =
  bf_rule_set_id :: string
  bf_kind :: string
  bf_input :: string
  bf_source_tag :: string

definition bulk_rule_entries_action :: "site \<Rightarrow> arrival \<Rightarrow> string \<Rightarrow> bulk_rule_entry_form \<Rightarrow> panel \<Rightarrow> response \<times> panel" where
  "bulk_rule_entries_action S r csrf form = admin_action S r csrf True (\<lambda>auth p.
     case rule_kind_parse (bf_kind form) of Inl _ \<Rightarrow> (routing_input_error ''Bulk rules rejected'', p)
     | Inr kind \<Rightarrow> commit
         (bulk_add_rule_entries_inner (trim (bf_rule_set_id form)) kind (bf_input form) (nonempty (bf_source_tag form))
            (Some (saved_event auth RuleEntriesBulkAdded ObRuleSet (trim (bf_rule_set_id form)) metadata_none)) (ar_fresh r) (ar_now r))
         (\<lambda>_. routing_input_error ''Bulk rules rejected'') routing_redirect p)"

definition deduplicate_rule_entries_action :: "site \<Rightarrow> arrival \<Rightarrow> string \<Rightarrow> string \<Rightarrow> panel \<Rightarrow> response \<times> panel" where
  "deduplicate_rule_entries_action S r csrf slug = admin_action S r csrf True (\<lambda>auth. commit
     (deduplicate_rule_entries_inner (trim slug)
        (Some (saved_event auth RuleEntriesDeduplicated ObRuleSet (trim slug) metadata_none)) (ar_now r))
     (\<lambda>_. routing_input_error ''Rule deduplication rejected'') routing_redirect)"

subsection \<open>Sources\<close>

record rule_source_form =
  of_id :: string
  of_rule_set_id :: string
  of_url :: string
  of_format :: string
  of_enabled :: string
  of_refresh_interval_seconds :: u32

definition rule_source_from_form :: "arrival \<Rightarrow> rule_source_format \<Rightarrow> rule_source_form \<Rightarrow> rule_set_source" where
  "rule_source_from_form r format form = \<lparr>src_id = (if trim (of_id form) = [] then ar_uuid r else trim (of_id form)),
     src_rule_set_id = trim (of_rule_set_id form), src_url = trim (of_url form), src_format = format,
     src_enabled = checkbox_enabled (of_enabled form), src_refresh_interval_seconds = of_refresh_interval_seconds form,
     src_etag = None, src_last_modified = None, src_last_successful_fetch = None, src_checksum = None,
     src_entry_count = 0, src_last_error = None, src_cached_payload = []\<rparr>"

definition save_rule_source_action :: "site \<Rightarrow> arrival \<Rightarrow> string \<Rightarrow> rule_source_form \<Rightarrow> panel \<Rightarrow> response \<times> panel" where
  "save_rule_source_action S r csrf form = admin_action S r csrf True (\<lambda>auth p.
     case rule_source_format_parse (of_format form) of Inl _ \<Rightarrow> (routing_input_error ''Rule source rejected'', p)
     | Inr format \<Rightarrow>
         let v = rule_source_from_form r format form in
         commit (upsert_rule_source_inner v
             (Some (saved_event auth RuleSourceSaved ObRuleSource (src_id v) (metadata_enabled (src_enabled v)))) (ar_now r))
           (\<lambda>_. routing_input_error ''Rule source rejected'') routing_redirect p)"

definition delete_rule_source_action :: "site \<Rightarrow> arrival \<Rightarrow> string \<Rightarrow> string \<Rightarrow> panel \<Rightarrow> response \<times> panel" where
  "delete_rule_source_action S r csrf i = admin_action S r csrf True (\<lambda>auth. commit
     (delete_rule_source_inner (trim i) (Some (saved_event auth RuleSourceDeleted ObRuleSource (trim i) metadata_none)) (ar_now r))
     (\<lambda>_. routing_input_error ''Rule source deletion rejected'') routing_redirect)"

text \<open>A failed refresh is written to the source's row; the requests it made are dropped here.\<close>

definition refresh_rule_source_action :: "site \<Rightarrow> outside \<Rightarrow> arrival \<Rightarrow> string \<Rightarrow> string \<Rightarrow> panel \<Rightarrow> response \<times> panel" where
  "refresh_rule_source_action S Q r csrf i = admin_action S r csrf True (\<lambda>auth p.
     case refresh_inner (ou_web Q) (si_take_chars S) (ou_stamp Q) (trim i)
       (Some (saved_event auth RuleSourceRefreshed ObRuleSource (trim i) metadata_none)) (ar_now r) (panel_db p) of
       (_, res, db) \<Rightarrow> (case res of Inl _ \<Rightarrow> routing_input_error ''Rule source refresh failed''
           | Inr _ \<Rightarrow> See_Other ''/admin/routing'' [], with_db db p))"

end
