(* ===== verification/Panel_Profiles.thy ===== *)
theory Panel_Profiles
  imports Panel_Routing Profile_Lifecycle
begin

text \<open>
  The handlers of \<open>main.rs\<close> for panel settings, secrets and protocol profiles, with the parsers of host
  names, ports and profile fields. The installed adapters, the fields and the server-only references
  they declare are parameters; the semaphore that serialises profile changes is implied by requests
  that run one at a time.
\<close>

subsection \<open>Hosts\<close>

definition trim_dots :: "string \<Rightarrow> string" where
  "trim_dots v = rev (dropWhile (\<lambda>c. c = CHR ''.'') (rev v))"

text \<open>\<open>IpAddr::is\_ipv6\<close> on the printed form.\<close>

definition printed_ipv6 :: "string \<Rightarrow> bool" where
  "printed_ipv6 ip \<longleftrightarrow> CHR '':'' \<in> set ip"

definition parse_u16 :: "string \<Rightarrow> u16 option" where
  "parse_u16 v = (case parse_u32 v of None \<Rightarrow> None | Some n \<Rightarrow> if n \<le> 65535 then Some (ucast n) else None)"

definition normalize_optional_port :: "string \<Rightarrow> string res" where
  "normalize_optional_port v =
     (if v = [] then Ok []
      else case strip_prefix '':'' v of
        None \<Rightarrow> Err ''Unexpected data after host.''
      | Some port \<Rightarrow> (case parse_u16 port of
            None \<Rightarrow> Err ''Port must be a number from 1 to 65535.''
          | Some n \<Rightarrow> if n = 0 then Err ''Port must be a number from 1 to 65535.''
              else Ok (CHR '':'' # show_nat (unat n))))"

definition bad_label :: "string \<Rightarrow> bool" where
  "bad_label l \<longleftrightarrow> l = [] \<or> 63 < length l \<or> \<not> list_all (\<lambda>c. is_alphanumeric c \<or> c = CHR ''-'') l
     \<or> \<not> is_alphanumeric (hd l) \<or> \<not> is_alphanumeric (last l)"

definition rsplit_once :: "char \<Rightarrow> string \<Rightarrow> (string \<times> string) option" where
  "rsplit_once c v = map_option (\<lambda>(a, b). (rev b, rev a)) (split_once c (rev v))"

definition normalize_bracketed :: "site \<Rightarrow> string \<Rightarrow> string res" where
  "normalize_bracketed S bracketed = (case split_once (CHR '']'') bracketed of
       None \<Rightarrow> Err ''Bracketed IPv6 host is incomplete.''
     | Some (address, suffix) \<Rightarrow> (case si_ip S address of
         None \<Rightarrow> Err ''Bracketed host must be a valid IPv6 address.''
       | Some ip \<Rightarrow>
           if \<not> printed_ipv6 ip then Err ''Brackets are only valid around an IPv6 address.''
           else and_then (normalize_optional_port suffix) (\<lambda>port. Ok (CHR ''['' # ip @ CHR '']'' # port))))"

definition normalize_plain :: "site \<Rightarrow> string \<Rightarrow> string \<Rightarrow> string res" where
  "normalize_plain S host port =
     (let host = trim_dots host in
      if host = [] \<or> 253 < length host then Err ''Host is empty or too long.''
      else case si_ip S host of
        Some ip \<Rightarrow> if printed_ipv6 ip then Err ''IPv6 addresses must be enclosed in brackets.'' else Ok (ip @ port)
      | None \<Rightarrow>
          if \<not> eq_ignore_ascii_case host ''localhost'' \<and> list_ex bad_label (split_on (CHR ''.'') host)
          then Err ''Host must be a valid DNS name, IPv4 address, or bracketed IPv6 address.''
          else Ok (to_ascii_lowercase host @ port))"

definition normalize_public_host :: "site \<Rightarrow> string \<Rightarrow> string res" where
  "normalize_public_host S v =
     (let v = trim_dots (trim v) in
      if v = [] then Err ''Host must not be empty.''
      else if contains_str v ''://'' \<or> CHR ''/'' \<in> set v \<or> CHR 0x5C \<in> set v
      then Err ''Use host only, without scheme, path, or trailing slash.''
      else if 261 < length v then Err ''Host is too long.''
      else case strip_prefix ''['' v of
        Some bracketed \<Rightarrow> normalize_bracketed S bracketed
      | None \<Rightarrow>
          if 1 < length (filter (\<lambda>c. c = CHR '':'') v) then Err ''IPv6 addresses must be enclosed in brackets.''
          else case rsplit_once (CHR '':'') v of
            None \<Rightarrow> normalize_plain S v []
          | Some (host, port) \<Rightarrow>
              and_then (normalize_optional_port (CHR '':'' # port)) (\<lambda>port. normalize_plain S host port))"

definition normalize_profile_server :: "site \<Rightarrow> string \<Rightarrow> string res" where
  "normalize_profile_server S v =
     (let v = trim_dots (trim v);
          plain = (if CHR '':'' \<in> set v
            then Err ''Do not include a port in the server field; use the separate port field.''
            else normalize_public_host S v) in
      case si_ip S v of
        Some ip \<Rightarrow> Ok ip
      | None \<Rightarrow> (case Option.bind (strip_prefix ''['' v) (\<lambda>w. strip_prefix '']'' (rev w)) of
          None \<Rightarrow> plain
        | Some inner \<Rightarrow> (case si_ip S (rev inner) of
            None \<Rightarrow> Err ''Server must be a valid DNS name or IP address.''
          | Some ip \<Rightarrow> if printed_ipv6 ip then Ok ip else plain)))"

subsection \<open>Panel settings\<close>

definition parse_schedule_time :: "string \<Rightarrow> (u32 \<times> u32) option" where
  "parse_schedule_time v = (case split_once (CHR '':'') (trim v) of
       None \<Rightarrow> None
     | Some (h, m) \<Rightarrow>
         if length h \<noteq> 2 \<or> length m \<noteq> 2 then None
         else (case (parse_u32 h, parse_u32 m) of
             (Some hour, Some minute) \<Rightarrow> if hour \<le> 23 \<and> minute \<le> 59 then Some (hour, minute) else None
           | _ \<Rightarrow> None))"

definition non_empty_or_default :: "string \<Rightarrow> string \<Rightarrow> string" where
  "non_empty_or_default v d = (if trim v = [] then d else trim v)"

record panel_settings_form =
  gf_panel_name :: string
  gf_subscription_domain :: string
  gf_node_domain :: string
  gf_update_enabled :: string
  gf_update_time :: string

definition owner_settings :: "authenticated_admin \<Rightarrow> panel_settings_form \<Rightarrow> (string \<times> string) list res" where
  "owner_settings auth form =
     (if \<not> au_is_owner auth then Ok []
      else if trim (gf_update_enabled form) \<noteq> ''true'' \<and> trim (gf_update_enabled form) \<noteq> ''false''
      then Err ''Invalid update policy''
      else
        let time = non_empty_or_default (gf_update_time form) ''05:00'' in
        case parse_schedule_time time of
          None \<Rightarrow> Err ''Invalid update window''
        | Some (hour, _) \<Rightarrow> Ok [(''panel_update_enabled'', trim (gf_update_enabled form)),
            (''panel_update_time'', time), (''panel_update_hour'', show_nat (unat hour))])"

text \<open>The update check that the owner's save starts in the background is not modelled.\<close>

definition update_settings_action :: "site \<Rightarrow> arrival \<Rightarrow> string \<Rightarrow> panel_settings_form \<Rightarrow> panel \<Rightarrow> response \<times> panel" where
  "update_settings_action S r csrf form = admin_action S r csrf False (\<lambda>auth p.
     let name = trim (gf_panel_name form) in
     if length name < 2 \<or> 80 < length name \<or> has_control name then (Failure 400 ''Invalid settings'', p)
     else case normalize_public_host S (gf_subscription_domain form) of Inl _ \<Rightarrow> (Failure 400 ''Invalid subscription host'', p)
     | Inr subscription \<Rightarrow> (case normalize_public_host S (gf_node_domain form) of Inl _ \<Rightarrow> (Failure 400 ''Invalid node host'', p)
     | Inr node \<Rightarrow> (case owner_settings auth form of Inl e \<Rightarrow> (Failure 400 e, p)
     | Inr extra \<Rightarrow> commit
         (upsert_settings_with_runtime_keys_inner
            ([(''panel_name'', name), (''subscription_domain'', subscription), (''node_domain'', node)] @ extra)
            [''subscription_domain'', ''node_domain'']
            (Some (new_audit_event auth SettingsSaved ObSettings ''panel'' OcSucceeded metadata_none)) (ar_operation r) (ar_now r))
         (\<lambda>_. Failure 500 ''Settings not saved'')
         (\<lambda>g p. (See_Other ''/admin/settings'' [], if g = None then p else queue_latest_reconcile S r p)) p)))"

subsection \<open>Secrets\<close>

record config_field =
  cg_name :: string
  cg_label :: string
  cg_secret_ref :: bool
  cg_required :: bool

text \<open>The adapters, and what the trait methods \<open>fields\<close> and \<open>server\_only\_secret\_references\<close> return.\<close>

record 'w adapters =
  ad_protocols :: protocol_registry
  ad_cores :: "'w core_registry"
  ad_world :: 'w
  ad_fields :: "string \<Rightarrow> config_field list"
  ad_server_only :: "string \<Rightarrow> json \<Rightarrow> string list res"

definition valid_secret_name :: "string \<Rightarrow> bool" where
  "valid_secret_name v \<longleftrightarrow> 1 \<le> length v \<and> length v \<le> 128
     \<and> list_all (\<lambda>c. is_alphanumeric c \<or> c = CHR ''.'' \<or> c = CHR ''_'' \<or> c = CHR ''-'') v"

definition is_server_only_secret_reference :: "'w adapters \<Rightarrow> string \<Rightarrow> protocol_profile list \<Rightarrow> bool" where
  "is_server_only_secret_reference A name profiles = list_ex (\<lambda>profile.
     bt_get (ad_protocols A) (pr_protocol_id profile) \<noteq> None
     \<and> (case ad_server_only A (pr_protocol_id profile) (pr_config profile) of
          Inl _ \<Rightarrow> False | Inr references \<Rightarrow> name \<in> set references)) profiles"

definition secret_save_action :: "site \<Rightarrow> outside \<Rightarrow> 'w adapters \<Rightarrow> arrival \<Rightarrow> string \<Rightarrow> string \<Rightarrow> string \<Rightarrow> panel \<Rightarrow> response \<times> panel" where
  "secret_save_action S Q A r csrf name v = admin_action S r csrf True (\<lambda>auth p.
     let name = trim name in
     if \<not> valid_secret_name name then (Failure 400 ''Secret not saved'', p)
     else if v = [] \<or> 8 * 1024 < length v \<or> CHR 0x00 \<in> set v then (Failure 400 ''Secret not saved'', p)
     else with_profiles Q (\<lambda>profiles p.
       if is_server_only_secret_reference A name profiles then (Failure 400 ''Secret not saved'', p)
       else commit (upsert_secret_inner name v
           (Some (new_audit_event auth (if get_secret name (panel_db p) = None then SecretCreated else SecretReplaced)
              ObSecretReference name OcSucceeded metadata_none)) (ar_operation r) (ar_now r))
         (\<lambda>_. internal_error) (\<lambda>_ p. (See_Other ''/admin/secrets'' [], queue_latest_reconcile S r p)) p) p)"

definition secret_delete_action :: "site \<Rightarrow> arrival \<Rightarrow> string \<Rightarrow> string \<Rightarrow> string \<Rightarrow> panel \<Rightarrow> response \<times> panel" where
  "secret_delete_action S r csrf name confirm = admin_action S r csrf True (\<lambda>auth p.
     let name = trim name in
     if \<not> valid_secret_name name \<or> trim confirm \<noteq> name then (Failure 400 ''Secret not deleted'', p)
     else commit (delete_secret_inner name
         (Some (new_audit_event auth SecretDeleted ObSecretReference name OcSucceeded metadata_none)) (ar_operation r) (ar_now r))
       (\<lambda>_. Failure 404 ''Secret not deleted'') (\<lambda>_ p. (See_Other ''/admin/secrets'' [], queue_latest_reconcile S r p)) p)"

subsection \<open>Protocol profiles\<close>

type_synonym fields = "(string, string) btmap"

definition field :: "string \<Rightarrow> fields \<Rightarrow> string" where
  "field k form = (case bt_get form k of None \<Rightarrow> [] | Some v \<Rightarrow> v)"

definition required_profile_field :: "string \<Rightarrow> string \<Rightarrow> nat \<Rightarrow> string res" where
  "required_profile_field v label maximum =
     (let v = trim v in
      if v = [] then Err (label @ '' is required'')
      else if maximum < length v \<or> has_control v then Err (label @ '' is invalid or too long'')
      else Ok v)"

fun merge_fields :: "config_field list \<Rightarrow> fields \<Rightarrow> (string \<times> json) list \<Rightarrow> (string \<times> json) list res" where
  "merge_fields [] form config = Ok config"
| "merge_fields (f # fs) form config =
     (let v = trim (field (cg_name f) form) in
      if v = [] then
        if cg_required f then Err (cg_label f @ '' is required'')
        else merge_fields fs form (bt_remove (cg_name f) config)
      else and_then (required_profile_field v (cg_label f) 2048) (\<lambda>v.
        and_then (if cg_secret_ref f then and_then (parse_secret_ref v) (\<lambda>_. Ok ()) else Ok ()) (\<lambda>_.
          merge_fields fs form (bt_insert (cg_name f) (JString v) config))))"

definition protocol_config_from_fields ::
  "'w adapters \<Rightarrow> json \<Rightarrow> u32 \<Rightarrow> string \<Rightarrow> protocol_adapter \<Rightarrow> fields \<Rightarrow> json res" where
  "protocol_config_from_fields A initial schema_version protocol_id adapter form = (case initial of
       JObject config \<Rightarrow>
         and_then (merge_fields (ad_fields A protocol_id) form config) (\<lambda>config.
         and_then (pa_validate_config adapter schema_version (JObject config)) (\<lambda>_. Ok (JObject config)))
     | _ \<Rightarrow> Err ''stored adapter configuration is invalid'')"

definition protocol_config_from_form :: "'w adapters \<Rightarrow> protocol_profile \<Rightarrow> fields \<Rightarrow> json res" where
  "protocol_config_from_form A existing form =
     and_then (ok_or ''protocol adapter is not installed'' (bt_get (ad_protocols A) (pr_protocol_id existing))) (\<lambda>adapter.
       protocol_config_from_fields A (pr_config existing) (pr_schema_version existing) (pr_protocol_id existing) adapter form)"

definition parse_profile_revision :: "site \<Rightarrow> fields \<Rightarrow> instant res" where
  "parse_profile_revision S form =
     ok_or ''profile revision is missing or invalid''
       (map_option fst (Option.bind (bt_get form ''expected_updated_at'') (si_rfc3339 S)))"

definition valid_stored_profile_id :: "string \<Rightarrow> bool" where
  "valid_stored_profile_id v \<longleftrightarrow> 1 \<le> length v \<and> length v \<le> 64 \<and> list_all slug_char v"

definition profile_write_status :: "string \<Rightarrow> nat" where
  "profile_write_status error =
     (if contains_str error ''another session'' \<or> contains_str error ''referenced by routing'' then 409 else 500)"

definition profile_configuration_changed :: "protocol_profile \<Rightarrow> protocol_profile \<Rightarrow> bool" where
  "profile_configuration_changed before after \<longleftrightarrow> pr_server before \<noteq> pr_server after \<or> pr_port before \<noteq> pr_port after
     \<or> pr_preferred_core before \<noteq> pr_preferred_core after \<or> pr_managed_resource before \<noteq> pr_managed_resource after
     \<or> pr_config before \<noteq> pr_config after"

definition profile_runtime_changed :: "protocol_profile \<Rightarrow> protocol_profile \<Rightarrow> bool" where
  "profile_runtime_changed before after \<longleftrightarrow> pr_enabled before \<noteq> pr_enabled after
     \<or> pr_enabled after \<and> profile_configuration_changed before after"

definition validate_profile_for_publish :: "outside \<Rightarrow> 'w adapters \<Rightarrow> protocol_profile \<Rightarrow> db \<Rightarrow> unit res" where
  "validate_profile_for_publish Q A candidate db =
     and_then (list_protocol_profiles_decoded (ou_codec Q) db) (\<lambda>profiles.
       validate_profile_candidate candidate profiles (ad_protocols A) (ad_cores A) (set (list_secret_names db)) (ad_world A))"

definition checked :: "bool \<Rightarrow> unit res \<Rightarrow> unit res" where
  "checked needed r = (if needed then r else Ok ())"

definition form_port :: "fields \<Rightarrow> u16 res" where
  "form_port form = (case Option.bind (bt_get form ''port'') parse_u16 of
       Some port \<Rightarrow> if 0 < port then Ok port else Err ''Server port must be between 1 and 65535.''
     | None \<Rightarrow> Err ''Server port must be between 1 and 65535.'')"

definition form_enabled :: "fields \<Rightarrow> bool" where
  "form_enabled form \<longleftrightarrow> (case bt_get form ''enabled'' of None \<Rightarrow> False | Some v \<Rightarrow> checkbox_enabled v)"

definition profile_event :: "authenticated_admin \<Rightarrow> audit_action \<Rightarrow> string \<Rightarrow> audit_metadata \<Rightarrow> audit_event" where
  "profile_event auth action name metadata = new_audit_event auth action ObProtocolProfile name OcSucceeded metadata"

text \<open>The stored profile with its decoded form, or the answer.\<close>

definition with_profile ::
  "outside \<Rightarrow> string \<Rightarrow> string \<Rightarrow> (protocol_profile \<Rightarrow> panel \<Rightarrow> response \<times> panel) \<Rightarrow> panel \<Rightarrow> response \<times> panel" where
  "with_profile Q title name k p =
     (if \<not> valid_stored_profile_id name then (Failure 400 title, p)
      else case get_protocol_profile_by_name name (panel_db p) of
        None \<Rightarrow> (Failure 404 title, p)
      | Some row \<Rightarrow> (case decode_protocol_profile (ou_codec Q) row of
          Inl _ \<Rightarrow> (internal_error, p)
        | Inr existing \<Rightarrow> k existing p))"

definition saved_profile :: "site \<Rightarrow> arrival \<Rightarrow> bool \<Rightarrow> string \<Rightarrow> 'a \<Rightarrow> panel \<Rightarrow> response \<times> panel" where
  "saved_profile S r changed location x p =
     (See_Other location [], if changed then queue_latest_reconcile S r p else p)"

definition update_protocol_action ::
  "site \<Rightarrow> outside \<Rightarrow> 'w adapters \<Rightarrow> arrival \<Rightarrow> string \<Rightarrow> fields \<Rightarrow> panel \<Rightarrow> response \<times> panel" where
  "update_protocol_action S Q A r name form = admin_action S r (field ''csrf_token'' form) True (\<lambda>auth.
     let title = ''Protocol update failed''; refused = (\<lambda>p. (Failure 400 title, p)) in
     with_profile Q title name (\<lambda>existing p.
       case parse_profile_revision S form of Inl _ \<Rightarrow> refused p | Inr expected \<Rightarrow>
       (case normalize_profile_server S (field ''server'' form) of Inl _ \<Rightarrow> refused p | Inr server \<Rightarrow>
       (case form_port form of Inl _ \<Rightarrow> refused p | Inr port \<Rightarrow>
       (case required_profile_field (field ''display_name'' form) ''Display name'' 96 of Inl _ \<Rightarrow> refused p | Inr display_name \<Rightarrow>
       (let available = (bt_get (ad_protocols A) (pr_protocol_id existing) \<noteq> None) in
        case if available then protocol_config_from_form A existing form else Ok (pr_config existing) of
          Inl _ \<Rightarrow> refused p
        | Inr config \<Rightarrow>
            let candidate = existing\<lparr>pr_display_name := display_name, pr_enabled := form_enabled form, pr_server := server,
                  pr_port := port, pr_config := config\<rparr>;
                needed = (profile_configuration_changed existing candidate \<or> \<not> pr_enabled existing \<and> pr_enabled candidate) in
            if \<not> available \<and> needed then refused p
            else case checked (available \<and> needed) (validate_profile_for_publish Q A candidate (panel_db p)) of
              Inl _ \<Rightarrow> refused p
            | Inr _ \<Rightarrow> commit
                (update_protocol_profile_inner (ou_codec Q) \<lparr>up_name = pr_name existing, up_display_name = display_name,
                   up_expected = Some expected, up_enabled = form_enabled form, up_server = server, up_port = port,
                   up_preferred_core = pr_preferred_core existing, up_managed_resource = pr_managed_resource existing,
                   up_config = config\<rparr>
                   (Some (profile_event auth
                      (if form_enabled form \<noteq> pr_enabled existing
                       then if form_enabled form then ProtocolProfileEnabled else ProtocolProfileDisabled
                       else ProtocolProfileSaved)
                      (pr_name existing) (metadata_enabled (form_enabled form)))) (ar_operation r) (ar_now r))
                (\<lambda>e. Failure (profile_write_status e) title)
                (saved_profile S r (profile_runtime_changed existing candidate) (''/admin/protocols/'' @ pr_name existing)) p))))))"

definition create_protocol_action ::
  "site \<Rightarrow> outside \<Rightarrow> 'w adapters \<Rightarrow> arrival \<Rightarrow> fields \<Rightarrow> panel \<Rightarrow> response \<times> panel" where
  "create_protocol_action S Q A r form = admin_action S r (field ''csrf_token'' form) True (\<lambda>auth p.
     let name = trim (field ''name'' form); protocol_id = trim (field ''protocol_id'' form);
         title = ''Profile creation failed''; refused = (Failure 400 title, p) in
     if \<not> valid_adapter_id name then refused
     else if get_protocol_profile_by_name name (panel_db p) \<noteq> None then (Failure 409 title, p)
     else case bt_get (ad_protocols A) protocol_id of None \<Rightarrow> refused | Some adapter \<Rightarrow>
     (case required_profile_field (field ''display_name'' form) ''Display name'' 96 of Inl _ \<Rightarrow> refused | Inr display_name \<Rightarrow>
     (case normalize_profile_server S (field ''server'' form) of Inl _ \<Rightarrow> refused | Inr server \<Rightarrow>
     (case form_port form of Inl _ \<Rightarrow> refused | Inr port \<Rightarrow>
     (case parse_role (field ''role'' form) of Inl _ \<Rightarrow> refused | Inr role \<Rightarrow>
     (let schema_version = pm_schema_version (pa_manifest adapter) in
      case protocol_config_from_fields A (JObject []) schema_version protocol_id adapter form of Inl _ \<Rightarrow> refused | Inr config \<Rightarrow>
      let preferred = map_option vr_adapter_id (pc_preferred_runtime (pm_composition (pa_manifest adapter)));
          candidate = \<lparr>pr_name = name, pr_display_name = display_name, pr_protocol_id = protocol_id,
            pr_schema_version = schema_version, pr_role = role, pr_server = server, pr_port = port,
            pr_enabled = form_enabled form, pr_preferred_core = preferred, pr_managed_resource = Some name,
            pr_config = config\<rparr> in
      case validate_profile_for_publish Q A candidate (panel_db p) of Inl _ \<Rightarrow> refused
      | Inr _ \<Rightarrow> commit
          (create_protocol_profile_inner (ou_codec Q) \<lparr>np_name = name, np_display_name = display_name,
             np_protocol_id = protocol_id, np_schema_version = schema_version, np_role = role,
             np_enabled = form_enabled form, np_server = server, np_port = port, np_preferred_core = preferred,
             np_managed_resource = Some name, np_config = config\<rparr>
             (Some (profile_event auth ProtocolProfileCreated name (metadata_enabled (form_enabled form)))) (ar_operation r) (ar_now r))
          (\<lambda>e. Failure (profile_write_status e) title)
          (saved_profile S r (form_enabled form) (''/admin/protocols/'' @ name)) p))))))"

definition set_protocol_enabled_action ::
  "site \<Rightarrow> outside \<Rightarrow> 'w adapters \<Rightarrow> arrival \<Rightarrow> string \<Rightarrow> fields \<Rightarrow> panel \<Rightarrow> response \<times> panel" where
  "set_protocol_enabled_action S Q A r name form = admin_action S r (field ''csrf_token'' form) True (\<lambda>auth.
     let title = ''Profile update failed'' in
     with_profile Q title name (\<lambda>existing p.
       case bt_get form ''enabled'' of None \<Rightarrow> (Failure 400 title, p)
       | Some v \<Rightarrow>
         if v \<noteq> ''true'' \<and> v \<noteq> ''false'' then (Failure 400 title, p)
         else
           let enabled = (v = ''true'') in
           case parse_profile_revision S form of Inl _ \<Rightarrow> (Failure 400 ''Protocol update failed'', p) | Inr expected \<Rightarrow>
           (case checked (enabled \<and> \<not> pr_enabled existing)
               (validate_profile_for_publish Q A (existing\<lparr>pr_enabled := enabled\<rparr>) (panel_db p)) of
              Inl _ \<Rightarrow> (Failure 400 ''Profile enable failed'', p)
            | Inr _ \<Rightarrow> commit
                (update_protocol_profile_inner (ou_codec Q) \<lparr>up_name = name, up_display_name = pr_display_name existing,
                   up_expected = Some expected, up_enabled = enabled, up_server = pr_server existing, up_port = pr_port existing,
                   up_preferred_core = pr_preferred_core existing, up_managed_resource = pr_managed_resource existing,
                   up_config = pr_config existing\<rparr>
                   (Some (profile_event auth (if enabled then ProtocolProfileEnabled else ProtocolProfileDisabled) name
                      (metadata_enabled enabled))) (ar_operation r) (ar_now r))
                (\<lambda>e. Failure (profile_write_status e) title)
                (saved_profile S r (enabled \<noteq> pr_enabled existing) (''/admin/protocols/'' @ name)) p)))"

definition delete_protocol_action :: "site \<Rightarrow> arrival \<Rightarrow> string \<Rightarrow> fields \<Rightarrow> panel \<Rightarrow> response \<times> panel" where
  "delete_protocol_action S r name form = admin_action S r (field ''csrf_token'' form) True (\<lambda>auth p.
     let title = ''Profile deletion failed'' in
     if \<not> valid_stored_profile_id name then (Failure 400 title, p)
     else case parse_profile_revision S form of Inl _ \<Rightarrow> (Failure 400 title, p)
     | Inr expected \<Rightarrow> commit
         (delete_protocol_profile_audited name expected (profile_event auth ProtocolProfileDeleted name metadata_none)
            (ar_operation r) (ar_now r))
         (\<lambda>e. Failure (profile_write_status e) title)
         (\<lambda>changed. saved_profile S r changed ''/admin/protocols'' ()) p)"

end
