(* ===== verification/Panel_Site.thy ===== *)
theory Panel_Site
  imports Panel_Profiles Mihomo
begin

text \<open>
  The public endpoints of \<open>main.rs\<close> (subscription, subscription page, rule provider), the pages behind
  the login, and the dispatch of every modelled route. Of a page only its title and the data that
  decides it are modelled.
\<close>

subsection \<open>The subscription\<close>

definition subscription_block_reason :: "user_record \<Rightarrow> instant \<Rightarrow> string option" where
  "subscription_block_reason u now =
     (if access_allowed (access_state_at u now) then None else Some ''subscription unavailable'')"

definition subscription_userinfo_header :: "user_record \<Rightarrow> string" where
  "subscription_userinfo_header u =
     ''upload=0; download='' @ show_int (max 0 (us_used u))
     @ ''; total='' @ show_int (max 0 (case us_limit u of None \<Rightarrow> 0 | Some l \<Rightarrow> l))
     @ ''; expire='' @ show_int (case us_expires u of None \<Rightarrow> 0 | Some t \<Rightarrow> max 0 (t div SECOND))"

fun add_secrets :: "string list \<Rightarrow> db \<Rightarrow> (string, string) btmap \<Rightarrow> (string, string) btmap" where
  "add_secrets [] db m = m"
| "add_secrets (n # ns) db m = add_secrets ns db
     (if bt_get m n \<noteq> None then m
      else case get_secret n db of None \<Rightarrow> m | Some s \<Rightarrow> bt_insert n (sx_value s) m)"

fun load_secret_values_map ::
  "protocol_registry \<Rightarrow> protocol_profile list \<Rightarrow> db \<Rightarrow> (string, string) btmap \<Rightarrow> (string, string) btmap res" where
  "load_secret_values_map reg [] db m = Ok m"
| "load_secret_values_map reg (profile # ps) db m =
     and_then (ok_or ''protocol adapter is unavailable'' (bt_get reg (pr_protocol_id profile))) (\<lambda>adapter.
     and_then (pa_client_secret_references adapter (pr_config profile)) (\<lambda>references.
       load_secret_values_map reg ps db (add_secrets references db m)))"

definition runtime_capabilities :: "'w adapters \<Rightarrow> string set" where
  "runtime_capabilities A = (\<Union>a \<in> set (filter (\<lambda>a. cb_installed (ca_probe a (ad_world A)) = Some True)
     (bt_values (ad_cores A))). ca_capabilities a)"

text \<open>Everything the subscription is generated from; \<open>ou_json_yaml\<close> writes the document.\<close>

definition subscription_input :: "outside \<Rightarrow> 'w adapters \<Rightarrow> user_record \<Rightarrow> db \<Rightarrow> mihomo_input res" where
  "subscription_input Q A u db =
     and_then (list_protocol_profiles_decoded (ou_codec Q) db) (\<lambda>profiles.
     and_then (load_secret_values_map (ad_protocols A) profiles db []) (\<lambda>secrets.
     and_then (load_client_policy db) (\<lambda>policy.
     and_then (load_dns_policy db) (\<lambda>dns.
       Ok \<lparr>mi_settings = load_panel_settings db, mi_user = subscription_of u, mi_profiles = profiles,
         mi_secrets = secrets, mi_rule_sets = load_routing_rule_sets db, mi_policy = policy, mi_dns_policy = dns,
         mi_capabilities = Some (runtime_capabilities A)\<rparr>))))"

definition mihomo_subscription ::
  "(json \<Rightarrow> string res) \<Rightarrow> outside \<Rightarrow> 'w adapters \<Rightarrow> instant \<Rightarrow> string \<Rightarrow> db \<Rightarrow> response" where
  "mihomo_subscription to_yaml Q A now token db = (case get_user_by_token token db of
       Inl _ \<Rightarrow> Served 401 [] ''invalid subscription token''
     | Inr u \<Rightarrow> (case subscription_block_reason u now of
         Some reason \<Rightarrow> Served 403 [] reason
       | None \<Rightarrow> (case subscription_input Q A u db of
           Inl _ \<Rightarrow> Served 500 [] ''subscription temporarily unavailable''
         | Inr input \<Rightarrow> (case generate_mihomo_yaml_detailed to_yaml input (ad_protocols A) of
             Inl _ \<Rightarrow> Served 503 [] ''subscription is not configured''
           | Inr out \<Rightarrow> Served 200 [(''Content-Type'', ''application/yaml; charset=utf-8''),
               (''Cache-Control'', ''no-cache, no-store, must-revalidate''),
               (''Subscription-Userinfo'', subscription_userinfo_header u)] (mo_yaml out)))))"

definition HEX :: string where "HEX = ''0123456789ABCDEF''"

definition percent_char :: "char \<Rightarrow> string" where
  "percent_char c = (if is_alphanumeric c \<or> c = CHR ''-'' \<or> c = CHR ''_'' \<or> c = CHR ''.'' \<or> c = CHR ''~'' then [c]
     else [CHR ''%'', HEX ! (byte c div 16), HEX ! (byte c mod 16)])"

definition percent_encode :: "string \<Rightarrow> string" where
  "percent_encode v = concat (map percent_char v)"

definition mihomo_subscription_url :: "string \<Rightarrow> string \<Rightarrow> string" where
  "mihomo_subscription_url host token =
     ''https://'' @ rev (dropWhile (\<lambda>c. c = CHR ''/'') (rev (trim host))) @ ''/sub/'' @ token @ ''/mihomo.yaml''"

definition mihomo_import_url :: "string \<Rightarrow> string \<Rightarrow> string \<Rightarrow> string" where
  "mihomo_import_url name username yaml_url =
     ''clash://install-config?url='' @ percent_encode yaml_url @ ''&name='' @ percent_encode (name @ '' - '' @ username)"

text \<open>The page shows the two addresses and whether the subscription is blocked.\<close>

definition subscription_page :: "instant \<Rightarrow> string \<Rightarrow> db \<Rightarrow> response" where
  "subscription_page now token db = (case get_user_by_token token db of
       Inl _ \<Rightarrow> Served 401 [] ''Invalid subscription token.''
     | Inr u \<Rightarrow>
         let settings = load_panel_settings db;
             yaml_url = mihomo_subscription_url (subscription_domain settings) (us_token u) in
         Served 200 [(''blocked'', case subscription_block_reason u now of None \<Rightarrow> [] | Some reason \<Rightarrow> reason),
           (''import'', mihomo_import_url (panel_name settings) (us_username u) yaml_url)] yaml_url)"

subsection \<open>Rule providers\<close>

definition content_etag :: "site \<Rightarrow> string \<Rightarrow> string" where
  "content_etag S content = [CHR 0x22] @ si_digest S content @ [CHR 0x22]"

text \<open>\<open>trim\_end\_matches(".yaml")\<close> drops every repetition at the end.\<close>

function drop_suffixes :: "string \<Rightarrow> string \<Rightarrow> string" where
  "drop_suffixes suffix v = (if suffix \<noteq> [] \<and> ends_with v suffix
     then drop_suffixes suffix (take (length v - length suffix) v) else v)"
  by pat_completeness auto
termination
proof (relation "measure (\<lambda>(_, v). length v)")
  fix suffix v :: string
  assume "suffix \<noteq> [] \<and> ends_with v suffix"
  then have "0 < length suffix" "length suffix \<le> length v" "0 < length v"
    by (auto simp: ends_with_def starts_with_def dest: arg_cong [of _ _ length])
  then show "((suffix, take (length v - length suffix) v), (suffix, v)) \<in> measure (\<lambda>(_, v). length v)"
    by (simp add: diff_less)
qed simp

declare drop_suffixes.simps [simp del]

definition rule_provider :: "site \<Rightarrow> outside \<Rightarrow> string \<Rightarrow> string option \<Rightarrow> db \<Rightarrow> response" where
  "rule_provider S Q name if_none_match db =
     (if ends_with name ''.mrs'' then Served 501 [] ''MRS generation is unsupported''
      else
        let slug = drop_suffixes ''.yaml'' name in
        case List.find (\<lambda>s. rs_slug s = slug \<and> rs_enabled s) (load_routing_rule_sets db) of
          None \<Rightarrow> Served 404 [] ''rule not found''
        | Some s \<Rightarrow> (case and_then (compiled_rule_set_payload s db) (routing_rule_payload_yaml (ou_yaml Q)) of
            Inl _ \<Rightarrow> Served 500 [] ''subscription temporarily unavailable''
          | Inr body \<Rightarrow>
              let etag = content_etag S body;
                  headers = [(''Content-Type'', ''application/yaml; charset=utf-8''),
                    (''Cache-Control'', ''public, max-age=300''), (''ETag'', etag)] in
              if (case if_none_match of None \<Rightarrow> False | Some v \<Rightarrow> etag \<in> set (map trim (split_on (CHR '','') v)))
              then Served 304 headers [] else Served 200 headers body))"

subsection \<open>Pages\<close>

definition setup_admin_page :: "site \<Rightarrow> arrival \<Rightarrow> panel \<Rightarrow> response \<times> panel" where
  "setup_admin_page S r p = (case current_admin S r p of
       (Some _, p) \<Rightarrow> (See_Other ''/admin'' [], p)
     | (None, p) \<Rightarrow> (if admin_count (panel_db p) = 0 then Shown ''setup'' else See_Other ''/admin/login'' [], p))"

definition login_page :: "site \<Rightarrow> arrival \<Rightarrow> panel \<Rightarrow> response \<times> panel" where
  "login_page S r p =
     (if admin_count (panel_db p) = 0 then (See_Other ''/admin/setup'' [], p)
      else case current_admin S r p of
        (Some _, p) \<Rightarrow> (See_Other ''/admin'' [], p)
      | (None, p) \<Rightarrow> (Shown ''login'', p))"

text \<open>A page for administrators: the session is checked, then something is shown.\<close>

definition admin_page :: "site \<Rightarrow> arrival \<Rightarrow> string \<Rightarrow> panel \<Rightarrow> response \<times> panel" where
  "admin_page S r title p = (case require_admin S r p of
       (Inl response, p) \<Rightarrow> (response, p)
     | (Inr auth, p) \<Rightarrow> (Shown title, p))"

definition AUDIT_PAGE_SIZE :: u32 where "AUDIT_PAGE_SIZE = 50"
definition AUDIT_MAX_PAGE :: u32 where "AUDIT_MAX_PAGE = 2000"

definition bounded_audit_page :: "u32 option \<Rightarrow> u32" where
  "bounded_audit_page page = (case page of
       Some v \<Rightarrow> if v < AUDIT_MAX_PAGE then v else AUDIT_MAX_PAGE
     | None \<Rightarrow> 0)"

definition audit_has_next :: "u32 \<Rightarrow> u64 \<Rightarrow> bool" where
  "audit_has_next page count \<longleftrightarrow>
     (let offset = ucast page * ucast AUDIT_PAGE_SIZE in
      page < AUDIT_MAX_PAGE \<and> offset + ucast AUDIT_PAGE_SIZE < count)"

definition audit_page :: "site \<Rightarrow> arrival \<Rightarrow> u32 option \<Rightarrow> panel \<Rightarrow> (response + audit_row list \<times> u32 \<times> bool) \<times> panel" where
  "audit_page S r query p = (case require_admin S r p of
       (Inl response, p) \<Rightarrow> (Inl response, p)
     | (Inr auth, p) \<Rightarrow>
         if \<not> au_is_owner auth then (Inl owner_only_response, p)
         else
           let page = bounded_audit_page query;
               events = list_audit_events AUDIT_PAGE_SIZE (ucast page * ucast AUDIT_PAGE_SIZE) (panel_db p);
               count = of_int (max 0 (audit_event_count (panel_db p))) in
           (Inr (events, page, audit_has_next page count), p))"

subsection \<open>Routes\<close>

datatype request =
    Setup_Page | Setup setup_admin_form | Login_Page | Login login_form | Logout string | Set_Theme string string
  | Change_Password string password_change_form | Admin_Page string
  | Save_Settings string panel_settings_form
  | Create_User string create_user_form | Edit_User string int edit_user_form | Toggle_User string int
  | Reset_Token string int | Rotate_Identity string int string | Delete_User string int
  | Save_Secret string string string | Delete_Secret string string string
  | Create_Profile fields | Update_Profile string fields | Enable_Profile string fields | Delete_Profile string fields
  | Update_Rule_Set string routing_rule_set_form | Save_Dns string dns_policy_form
  | Save_Pool string transport_pool_form | Delete_Pool string string string
  | Save_Policy string routing_policy_form | Delete_Policy string string
  | Save_Rule_Set string rule_set_form | Delete_Rule_Set string string | Clone_Rule_Set string string string
  | Save_Entry string rule_entry_form | Delete_Entry string string | Bulk_Entries string bulk_rule_entry_form
  | Deduplicate string string | Save_Source string rule_source_form | Delete_Source string string
  | Refresh_Source string string

definition handle :: "site \<Rightarrow> outside \<Rightarrow> 'w adapters \<Rightarrow> arrival \<Rightarrow> request \<Rightarrow> panel \<Rightarrow> response \<times> panel" where
  "handle S Q A r q = (case q of
       Setup_Page \<Rightarrow> setup_admin_page S r | Setup form \<Rightarrow> setup_admin_action S r form
     | Login_Page \<Rightarrow> login_page S r | Login form \<Rightarrow> login_action S r form | Logout csrf \<Rightarrow> logout_action S r csrf
     | Set_Theme csrf theme \<Rightarrow> theme_action S r csrf theme
     | Change_Password csrf form \<Rightarrow> change_password_action S r csrf form | Admin_Page title \<Rightarrow> admin_page S r title
     | Save_Settings csrf form \<Rightarrow> update_settings_action S r csrf form
     | Create_User csrf form \<Rightarrow> create_user_action S r csrf form
     | Edit_User csrf i form \<Rightarrow> edit_user_action S r csrf i form
     | Toggle_User csrf i \<Rightarrow> toggle_user_action S r csrf i | Reset_Token csrf i \<Rightarrow> reset_user_token_action S r csrf i
     | Rotate_Identity csrf i version \<Rightarrow> rotate_user_identity_action S r csrf i version
     | Delete_User csrf i \<Rightarrow> delete_user_action S r csrf i
     | Save_Secret csrf name v \<Rightarrow> secret_save_action S Q A r csrf name v
     | Delete_Secret csrf name confirm \<Rightarrow> secret_delete_action S r csrf name confirm
     | Create_Profile form \<Rightarrow> create_protocol_action S Q A r form
     | Update_Profile name form \<Rightarrow> update_protocol_action S Q A r name form
     | Enable_Profile name form \<Rightarrow> set_protocol_enabled_action S Q A r name form
     | Delete_Profile name form \<Rightarrow> delete_protocol_action S r name form
     | Update_Rule_Set csrf form \<Rightarrow> update_routing_rule_action S Q r csrf form
     | Save_Dns csrf form \<Rightarrow> update_dns_policy_action S r csrf form
     | Save_Pool csrf form \<Rightarrow> save_transport_pool_action S Q r csrf form
     | Delete_Pool csrf i replacement \<Rightarrow> delete_transport_pool_action S Q r csrf i replacement
     | Save_Policy csrf form \<Rightarrow> save_routing_policy_action S Q r csrf form
     | Delete_Policy csrf i \<Rightarrow> delete_routing_policy_action S r csrf i
     | Save_Rule_Set csrf form \<Rightarrow> save_rule_set_action S r csrf form
     | Delete_Rule_Set csrf slug \<Rightarrow> delete_rule_set_action S r csrf slug
     | Clone_Rule_Set csrf slug new_slug \<Rightarrow> clone_rule_set_action S r csrf slug new_slug
     | Save_Entry csrf form \<Rightarrow> save_rule_entry_action S r csrf form
     | Delete_Entry csrf i \<Rightarrow> delete_rule_entry_action S r csrf i
     | Bulk_Entries csrf form \<Rightarrow> bulk_rule_entries_action S r csrf form
     | Deduplicate csrf slug \<Rightarrow> deduplicate_rule_entries_action S r csrf slug
     | Save_Source csrf form \<Rightarrow> save_rule_source_action S r csrf form
     | Delete_Source csrf i \<Rightarrow> delete_rule_source_action S r csrf i
     | Refresh_Source csrf i \<Rightarrow> refresh_rule_source_action S Q r csrf i)"

end
