(* ===== verification/Panel_Audit.thy ===== *)
theory Panel_Audit
  imports Panel_Site
begin

text \<open>
  Every transaction of the panel's handlers leaves exactly one row in the audit log, under the
  administrator of the event, or changes nothing.
\<close>

named_theorems audits_intro \<open>transactions that write one audit row\<close>

definition row_by :: "int \<Rightarrow> db \<Rightarrow> db \<Rightarrow> bool" where
  "row_by i db db' \<longleftrightarrow> (\<exists>row. db_audit db' = db_audit db @ [row] \<and> au_admin_id row = Some i)"

definition audits :: "int \<Rightarrow> 'a tx \<Rightarrow> bool" where
  "audits i tx \<longleftrightarrow> (\<forall>db x db'. tx db = Inr (x, db') \<longrightarrow> db' = db \<or> row_by i db db')"

lemma auditsI: "(\<And>db x db'. tx db = Inr (x, db') \<Longrightarrow> db' = db \<or> row_by i db db') \<Longrightarrow> audits i tx"
  by (auto simp: audits_def)

definition event_of :: "int \<Rightarrow> audit_event \<Rightarrow> bool" where
  "event_of i e \<longleftrightarrow> aa_admin_id (ae_actor e) = Some i"

lemma event_of_new [simp]: "event_of i (new_audit_event auth action obj k outcome m) \<longleftrightarrow> ad_id (au_admin auth) = i"
  by (simp add: event_of_def new_audit_event_def owner_actor_def admin_actor_def)

lemma event_of_events [simp]:
  "event_of i (user_event auth action k m) \<longleftrightarrow> ad_id (au_admin auth) = i"
  "event_of i (saved_event auth action obj k m) \<longleftrightarrow> ad_id (au_admin auth) = i"
  "event_of i (profile_event auth action k m) \<longleftrightarrow> ad_id (au_admin auth) = i"
  by (simp_all add: user_event_def saved_event_def profile_event_def)

lemma event_of_update [simp]: "event_of i (e\<lparr>ae_metadata := m\<rparr>) = event_of i e" "event_of i (e\<lparr>ae_object_id := k\<rparr>) = event_of i e"
  by (simp_all add: event_of_def)

lemma append_row:
  "append_audit_event_in_transaction e now db = Inr (x, db') \<Longrightarrow> event_of i e \<Longrightarrow> db_audit db = db_audit db0 \<Longrightarrow> row_by i db0 db'"
  using audit_Inr [of e now db x db'] by (auto simp: row_by_def event_of_def)

lemma opt_row: "audit_opt (Some e) now db = Inr (x, db') \<Longrightarrow> event_of i e \<Longrightarrow> db_audit db = db_audit db0 \<Longrightarrow> row_by i db0 db'"
  unfolding audit_opt_def by (simp add: append_row)

lemma user_row: "audit_user (Some e) k now db = Inr (x, db') \<Longrightarrow> event_of i e \<Longrightarrow> db_audit db = db_audit db0 \<Longrightarrow> row_by i db0 db'"
  by (auto simp: audit_user_def audit_user_id_def and_then_Inr_iff intro: append_row)

lemma bump_if_audit: "bump_if c op now db = Inr (g, db') \<Longrightarrow> db_audit db' = db_audit db"
  by (auto simp: bump_if_def and_then_Inr_iff bump_keeps split: if_splits)

lemma bump_when_audit: "bump_when c op now db = Inr db' \<Longrightarrow> db_audit db' = db_audit db"
  by (auto simp: bump_when_def and_then_Inr_iff bump_keeps split: if_splits)

lemma checkpoint_audit [simp]: "db_audit (upsert_user_lifecycle_checkpoint u st t g db) = db_audit db"
  by (simp add: upsert_user_lifecycle_checkpoint_def)

lemma update_users_audit: "update_users P f db = Inr (n, db') \<Longrightarrow> db_audit db' = db_audit db"
  by (auto simp: update_users_def Let_def split: if_splits)

lemma insert_user_audit: "insert_user mk db = Inr (u, db') \<Longrightarrow> db_audit db' = db_audit db"
  by (auto simp: insert_user_def Let_def split: if_splits)

subsection \<open>Users\<close>

lemma create_user_audits [audits_intro]: "event_of i e \<Longrightarrow> audits i (create_user_inner input (Some e) uuid token op now)"
  by (rule auditsI, rule disjI2)
    (auto simp: create_user_inner_def Let_def and_then_Inr_iff bump_keeps insert_user_audit elim!: user_row)

lemma update_user_audits [audits_intro]: "event_of i e \<Longrightarrow> audits i (update_user_audited input e op now)"
  by (rule auditsI, rule disjI2)
    (auto simp: update_user_audited_def Let_def and_then_Inr_iff audit_user_id_def update_users_audit bump_if_audit
      split: if_splits elim!: append_row)

lemma rotate_audits [audits_intro]: "event_of i e \<Longrightarrow> audits i (rotate_user_runtime_identity_audited k t e u op now)"
  by (rule auditsI, rule disjI2)
    (auto simp: rotate_user_runtime_identity_audited_def Let_def and_then_Inr_iff update_users_audit bump_keeps
      split: if_splits elim!: user_row)

lemma toggle_audits [audits_intro]: "event_of i e \<Longrightarrow> audits i (set_user_enabled_inner k b (Some e) op now)"
  by (rule auditsI, rule disjI2)
    (auto simp: set_user_enabled_inner_def Let_def and_then_Inr_iff update_users_audit bump_if_audit
      split: if_splits elim!: user_row)

lemma reset_audits [audits_intro]: "event_of i e \<Longrightarrow> audits i (reset_user_subscription_token_inner k (Some e) token now)"
  by (rule auditsI, rule disjI2)
    (auto simp: reset_user_subscription_token_inner_def Let_def and_then_Inr_iff update_users_audit
      split: if_splits elim!: user_row)

lemma delete_user_audits [audits_intro]: "event_of i e \<Longrightarrow> audits i (delete_user_inner k (Some e) op now)"
  by (rule auditsI, rule disjI2)
    (auto simp: delete_user_inner_def delete_users_def Let_def and_then_Inr_iff bump_if_audit
      split: if_splits elim!: user_row)

subsection \<open>Accounts, settings and secrets\<close>

lemma password_audits [audits_intro]: "event_of i e \<Longrightarrow> audits i (update_admin_password_inner k h (Some e) now)"
  by (rule auditsI, rule disjI2) (auto simp: update_admin_password_inner_def split: if_splits elim!: opt_row)

lemma write_settings_audit: "write_settings kvs keys now (c, db) = (c', db') \<Longrightarrow> db_audit db' = db_audit db"
  by (induction kvs keys now "(c, db)" arbitrary: c db rule: write_settings.induct) (auto simp: upsert_setting_def)

lemma settings_audits [audits_intro]: "event_of i e \<Longrightarrow> audits i (upsert_settings_with_runtime_keys_inner kvs keys (Some e) op now)"
proof (rule auditsI, rule disjI2)
  fix db g db'
  assume e: "event_of i e"
    and upd: "upsert_settings_with_runtime_keys_inner kvs keys (Some e) op now db = Inr (g, db')"
  obtain c db1 where w: "write_settings kvs keys now (False, db) = (c, db1)" by fastforce
  show "row_by i db db'"
    using upd e write_settings_audit [OF w]
    by (auto simp: upsert_settings_with_runtime_keys_inner_def w and_then_Inr_iff bump_keeps split: if_splits elim!: opt_row)
qed

lemma secret_audits [audits_intro]: "event_of i e \<Longrightarrow> audits i (upsert_secret_inner name v (Some e) op now)"
  by (rule auditsI, rule disjI2)
    (auto simp: upsert_secret_inner_def Let_def and_then_Inr_iff bump_keeps elim!: opt_row)

lemma delete_secret_audits [audits_intro]: "event_of i e \<Longrightarrow> audits i (delete_secret_inner name (Some e) op now)"
  by (rule auditsI, rule disjI2)
    (auto simp: delete_secret_inner_def and_then_Inr_iff bump_keeps split: option.splits elim!: opt_row)

subsection \<open>Profiles\<close>

lemma insert_profile_audit: "insert_profile row db = Inr db' \<Longrightarrow> db_audit db' = db_audit db"
  by (auto simp: insert_profile_def Let_def split: if_splits)

lemma opt_append: "audit_opt (Some e) now db = Inr (x, db') \<Longrightarrow>
    \<exists>row. db_audit db' = db_audit db @ [row] \<and> (event_of i e \<longrightarrow> au_admin_id row = Some i)"
  using opt_row [of e now db x db' i db] audit_Inr [of e now db x db'] by (auto simp: row_by_def audit_opt_def event_of_def)

lemma create_profile_audits [audits_intro]: "event_of i e \<Longrightarrow> audits i (create_protocol_profile_inner codec input (Some e) op now)"
  by (rule auditsI, rule disjI2)
    (auto simp: create_protocol_profile_inner_def ensure_protocol_profile_def Let_def and_then_Inr_iff
      dest!: bump_when_audit insert_profile_audit split: if_splits elim!: opt_row)

lemma update_profile_audits [audits_intro]: "event_of i e \<Longrightarrow> audits i (update_protocol_profile_inner codec input (Some e) op now)"
  by (rule auditsI)
    (auto simp: update_protocol_profile_inner_def Let_def and_then_Inr_iff row_by_def
      dest!: bump_when_audit opt_append [of _ _ _ _ _ i] split: if_split_asm)

lemma delete_profile_audits [audits_intro]: "event_of i e \<Longrightarrow> audits i (delete_protocol_profile_audited name t e op now)"
  by (rule auditsI, rule disjI2)
    (auto simp: delete_protocol_profile_audited_def Let_def and_then_Inr_iff dest!: bump_when_audit
      split: if_splits elim!: append_row)

subsection \<open>Routing\<close>

lemma save_policy_audits: "event_of i e \<Longrightarrow> audits i (save_client_policy policy renamed (Some e) op now)"
proof (rule auditsI, rule disjI2)
  fix db x db'
  assume e: "event_of i e" and save: "save_client_policy policy renamed (Some e) op now db = Inr (x, db')"
  then obtain g db2 where bump: "bump_desired_generation op now (policy_rows policy renamed db) = Inr (g, db2)"
    and aud: "audit_opt (Some e) now db2 = Inr (x, db')" by (auto simp: save_policy_Inr)
  have "db_audit (policy_rows policy renamed db) = db_audit db" by (auto simp: policy_rows_def Let_def split: option.split)
  then show "row_by i db db'" using opt_row [OF aud e] bump_keeps [OF bump] by simp
qed

lemma audits_policy:
  assumes "\<And>policy renamed. audits i (save_client_policy policy renamed (Some e) op now)"
    and "tx db = Inr (x, db')"
    and "\<exists>policy renamed. save_client_policy policy renamed (Some e) op now db = Inr ((), db')"
  shows "db' = db \<or> row_by i db db'"
  using assms unfolding audits_def by blast

lemma upsert_pool_audits [audits_intro]: "event_of i e \<Longrightarrow> audits i (upsert_transport_pool_inner k v profiles (Some e) op now)"
  using save_policy_audits [of i e] by (fastforce simp: audits_def upsert_transport_pool_inner_def and_then_Inr_iff)

lemma delete_pool_audits [audits_intro]: "event_of i e \<Longrightarrow> audits i (delete_transport_pool_inner k v profiles (Some e) op now)"
  using save_policy_audits [of i e] by (fastforce simp: audits_def delete_transport_pool_inner_def and_then_Inr_iff)

lemma upsert_rule_audits [audits_intro]: "event_of i e \<Longrightarrow> audits i (upsert_routing_policy_inner k v profiles (Some e) op now)"
  using save_policy_audits [of i e] by (fastforce simp: audits_def upsert_routing_policy_inner_def and_then_Inr_iff)

lemma delete_rule_audits [audits_intro]: "event_of i e \<Longrightarrow> audits i (delete_routing_policy_inner k (Some e) op now)"
  using save_policy_audits [of i e]
  by (fastforce simp: audits_def delete_routing_policy_inner_def Let_def and_then_Inr_iff split: if_splits)

lemma dns_audits [audits_intro]: "event_of i e \<Longrightarrow> audits i (update_dns_policy_inner v (Some e) now)"
  by (rule auditsI, rule disjI2)
    (auto simp: update_dns_policy_inner_def and_then_Inr_iff split: option.splits elim!: opt_row)

subsection \<open>Rule sets\<close>

lemma insert_entries_audit: "insert_entries es db = Inr db' \<Longrightarrow> db_audit db' = db_audit db"
  by (induction es arbitrary: db) (auto split: if_splits)

lemma insert_sources_audit: "insert_sources rs db = Inr db' \<Longrightarrow> db_audit db' = db_audit db"
  by (induction rs arbitrary: db) (auto split: if_splits)

lemma put_rule_set_audit [simp]: "db_audit (put_rule_set s db) = db_audit db" "db_audit (drop_rule_set k db) = db_audit db"
  by (simp_all add: put_rule_set_def drop_rule_set_def)

lemma update_set_audits [audits_intro]: "event_of i e \<Longrightarrow> audits i (update_routing_rule_set_inner u (Some e) now)"
  by (rule auditsI, rule disjI2)
    (auto simp: update_routing_rule_set_inner_def Let_def and_then_Inr_iff split: if_splits option.splits elim!: opt_row)

lemma create_set_audits [audits_intro]: "event_of i e \<Longrightarrow> audits i (create_routing_rule_set_inner v (Some e) now)"
  by (rule auditsI, rule disjI2)
    (auto simp: create_routing_rule_set_inner_def Let_def and_then_Inr_iff split: if_splits option.splits elim!: opt_row)

lemma save_set_audits [audits_intro]: "event_of i e \<Longrightarrow> audits i (save_routing_rule_set_inner v (Some e) now)"
  by (rule auditsI, rule disjI2)
    (auto simp: save_routing_rule_set_inner_def Let_def and_then_Inr_iff split: if_splits option.splits elim!: opt_row)

lemma delete_set_audits [audits_intro]: "event_of i e \<Longrightarrow> audits i (delete_routing_rule_set_inner k (Some e) now)"
  by (rule auditsI, rule disjI2)
    (auto simp: delete_routing_rule_set_inner_def Let_def and_then_Inr_iff split: if_splits option.splits elim!: opt_row)

lemma clone_set_audits [audits_intro]: "event_of i e \<Longrightarrow> audits i (clone_routing_rule_set_inner k v (Some e) fresh now)"
  by (rule auditsI, rule disjI2)
    (auto simp: clone_routing_rule_set_inner_def Let_def and_then_Inr_iff dest!: insert_entries_audit insert_sources_audit
      split: if_splits option.splits elim!: opt_row)

lemma upsert_entry_audits [audits_intro]: "event_of i e \<Longrightarrow> audits i (upsert_rule_entry_inner v (Some e) now)"
  by (rule auditsI, rule disjI2)
    (auto simp: upsert_rule_entry_inner_def Let_def and_then_Inr_iff split: if_splits option.splits elim!: opt_row)

lemma delete_entry_audits [audits_intro]: "event_of i e \<Longrightarrow> audits i (delete_rule_entry_inner k (Some e) now)"
  by (rule auditsI, rule disjI2)
    (auto simp: delete_rule_entry_inner_def Let_def and_then_Inr_iff split: if_splits option.splits elim!: opt_row)

lemma bulk_audits [audits_intro]: "event_of i e \<Longrightarrow> audits i (bulk_add_rule_entries_inner k kind input tag (Some e) fresh now)"
  by (rule auditsI, rule disjI2)
    (auto simp: bulk_add_rule_entries_inner_def Let_def and_then_Inr_iff dest!: insert_entries_audit
      split: if_split_asm elim!: opt_row)

lemma dedup_audits [audits_intro]: "event_of i e \<Longrightarrow> audits i (deduplicate_rule_entries_inner k (Some e) now)"
  by (rule auditsI, rule disjI2)
    (auto simp: deduplicate_rule_entries_inner_def Let_def and_then_Inr_iff elim!: opt_row)

lemma upsert_source_audits [audits_intro]: "event_of i e \<Longrightarrow> audits i (upsert_rule_source_inner v (Some e) now)"
  by (rule auditsI, rule disjI2)
    (auto simp: upsert_rule_source_inner_def Let_def and_then_Inr_iff split: if_split_asm elim!: opt_row)

lemma delete_source_audits [audits_intro]: "event_of i e \<Longrightarrow> audits i (delete_rule_source_inner k (Some e) now)"
  by (rule auditsI, rule disjI2)
    (auto simp: delete_rule_source_inner_def Let_def and_then_Inr_iff elim!: opt_row)

lemma source_success_audits: "event_of i e \<Longrightarrow> audits i (update_rule_source_success_inner v (Some e) now)"
  by (rule auditsI, rule disjI2)
    (auto simp: update_rule_source_success_inner_def split: option.splits elim!: opt_row)

end
