(* ===== verification/Panel_Frames.thy ===== *)
theory Panel_Frames
  imports Panel_Audit
begin

text \<open>
  Which tables the transactions of the panel leave alone: what lets the invariants of users,
  administrators and rules be carried through all of them together.
\<close>

definition user_tables :: "db \<Rightarrow> user_record list \<times> int \<times> (int, lifecycle_row) btmap" where
  "user_tables db = (db_users db, db_user_seq db, db_lifecycle db)"

text \<open>Everything the three invariants look at, with the desired generation.\<close>

definition frame where
  "frame db = (admin_tables db, rule_tables db, user_tables db, rc_desired (db_reconcile db))"

definition frame_kept :: "db \<Rightarrow> db \<Rightarrow> bool" where
  "frame_kept db db' \<longleftrightarrow> admin_tables db' = admin_tables db \<and> rule_tables db' = rule_tables db
     \<and> user_tables db' = user_tables db \<and> rc_desired (db_reconcile db) \<le> rc_desired (db_reconcile db')"

lemmas frame_defs = frame_def frame_kept_def admin_tables_def rule_tables_def user_tables_def

lemma audit_opt_frame: "audit_opt e now db = Inr (x, db') \<Longrightarrow> frame db' = frame db"
  using audit_opt_ext [of e now db x db'] by (auto simp: frame_defs audit_ext_def)

lemma append_frame: "append_audit_event_in_transaction e now db = Inr (x, db') \<Longrightarrow> frame db' = frame db"
  using audit_opt_frame [of "Some e" now db x db'] by (simp add: audit_opt_def)

lemma audit_user_frame: "audit_user e k now db = Inr (x, db') \<Longrightarrow> frame db' = frame db"
  by (auto simp: audit_user_def and_then_Inr_iff dest: append_frame split: option.splits)

lemma bump_frame: "bump_desired_generation op now db = Inr (g, db') \<Longrightarrow>
    frame db' = (admin_tables db, rule_tables db, user_tables db, rc_desired (db_reconcile db) + 1)"
  by (auto simp: bump_Inr frame_defs)

lemma bump_when_frame: "bump_when c op now db = Inr db' \<Longrightarrow>
    frame db' = (admin_tables db, rule_tables db, user_tables db, rc_desired (db_reconcile db) + (if c then 1 else 0))"
  by (auto simp: bump_when_def and_then_Inr_iff split: if_splits dest: bump_frame) (simp add: frame_def)

subsection \<open>Settings, secrets and profiles leave all three alone\<close>

lemma write_settings_frame: "write_settings kvs keys now (c, db) = (c', db') \<Longrightarrow> frame db' = frame db"
  by (induction kvs keys now "(c, db)" arbitrary: c db rule: write_settings.induct)
    (auto simp: upsert_setting_def frame_defs)

lemma settings_frame:
  assumes "upsert_settings_with_runtime_keys_inner kvs keys e op now db = Inr (g, db')"
  shows "frame_kept db db'"
proof -
  obtain c db1 where w: "write_settings kvs keys now (False, db) = (c, db1)" by fastforce
  show ?thesis
    using assms write_settings_frame [OF w]
    by (auto simp: upsert_settings_with_runtime_keys_inner_def w and_then_Inr_iff dest!: audit_opt_frame bump_frame
        split: if_splits) (auto simp: frame_def frame_kept_def)
qed

lemma setting_frame: "frame_kept db (upsert_setting k v now db)"
  by (simp add: upsert_setting_def frame_defs)

lemma secret_frame: "upsert_secret_inner name v e op now db = Inr (x, db') \<Longrightarrow> frame_kept db db'"
  by (auto simp: upsert_secret_inner_def Let_def and_then_Inr_iff frame_defs dest!: audit_opt_frame bump_frame)

lemma delete_secret_frame: "delete_secret_inner name e op now db = Inr (x, db') \<Longrightarrow> frame_kept db db'"
  by (auto simp: delete_secret_inner_def and_then_Inr_iff frame_defs dest!: audit_opt_frame bump_frame split: option.splits)

lemma insert_profile_frame: "insert_profile row db = Inr db' \<Longrightarrow> frame db' = frame db"
  by (auto simp: insert_profile_def frame_defs split: if_splits)

lemma create_profile_frame: "create_protocol_profile_inner codec input e op now db = Inr (x, db') \<Longrightarrow> frame_kept db db'"
  by (auto simp: create_protocol_profile_inner_def ensure_protocol_profile_def Let_def and_then_Inr_iff frame_defs
      dest!: audit_opt_frame bump_when_frame insert_profile_frame split: if_split_asm)

lemma update_profile_frame: "update_protocol_profile_inner codec input e op now db = Inr (x, db') \<Longrightarrow> frame_kept db db'"
  by (auto simp: update_protocol_profile_inner_def Let_def and_then_Inr_iff frame_defs
      dest!: audit_opt_frame bump_when_frame split: if_split_asm)

lemma delete_profile_frame: "delete_protocol_profile_audited name t e op now db = Inr (x, db') \<Longrightarrow> frame_kept db db'"
  by (auto simp: delete_protocol_profile_audited_def Let_def and_then_Inr_iff frame_defs
      dest!: append_frame bump_when_frame split: if_split_asm)

lemma dns_frame: "update_dns_policy_inner v e now db = Inr (x, db') \<Longrightarrow> frame_kept db db'"
  by (auto simp: update_dns_policy_inner_def and_then_Inr_iff frame_defs dest!: audit_opt_frame split: option.splits)

subsection \<open>The policy and the rule operations leave users and administrators alone\<close>

definition rules_only :: "db \<Rightarrow> db \<Rightarrow> bool" where
  "rules_only db db' \<longleftrightarrow> admin_tables db' = admin_tables db \<and> user_tables db' = user_tables db
     \<and> rc_desired (db_reconcile db) \<le> rc_desired (db_reconcile db')"

lemma rules_onlyI: "fst (frame db') = fst (frame db) \<Longrightarrow> snd (snd (frame db')) = snd (snd (frame db)) \<Longrightarrow> rules_only db db'"
  by (simp add: rules_only_def frame_def)

lemma save_policy_frame: "save_client_policy policy renamed e op now db = Inr (x, db') \<Longrightarrow> rules_only db db'"
  by (auto simp: save_policy_Inr policy_rows_def Let_def frame_defs rules_only_def
      dest!: audit_opt_frame bump_frame split: option.splits)

lemmas policy_defs = upsert_transport_pool_inner_def delete_transport_pool_inner_def upsert_routing_policy_inner_def
  delete_routing_policy_inner_def Let_def and_then_Inr_iff

text \<open>All four policy operations end in one save.\<close>

lemma policy_saves:
  "upsert_transport_pool_inner k v profiles e op now db = Inr (x, db') \<Longrightarrow>
    \<exists>policy renamed. save_client_policy policy renamed e op now db = Inr ((), db')"
  "delete_transport_pool_inner k' v' profiles e op now db = Inr (x, db') \<Longrightarrow>
    \<exists>policy renamed. save_client_policy policy renamed e op now db = Inr ((), db')"
  "upsert_routing_policy_inner k r profiles e op now db = Inr (x, db') \<Longrightarrow>
    \<exists>policy renamed. save_client_policy policy renamed e op now db = Inr ((), db')"
  "delete_routing_policy_inner k' e op now db = Inr (x, db') \<Longrightarrow>
    \<exists>policy renamed. save_client_policy policy renamed e op now db = Inr ((), db')"
  by (auto simp: policy_defs split: if_splits)

lemma insert_entries_frame: "insert_entries es db = Inr db' \<Longrightarrow> rules_only db db'"
  by (induction es arbitrary: db) (fastforce simp: frame_defs rules_only_def split: if_splits)+

lemma insert_sources_frame: "insert_sources rs db = Inr db' \<Longrightarrow> rules_only db db'"
  by (induction rs arbitrary: db) (fastforce simp: frame_defs rules_only_def split: if_splits)+

lemmas rules_only_defs = rules_only_def frame_defs put_rule_set_def drop_rule_set_def Let_def and_then_Inr_iff

lemma set_frames:
  "update_routing_rule_set_inner u e now db = Inr (x, db') \<Longrightarrow> rules_only db db'"
  "create_routing_rule_set_inner v e now db = Inr (x, db') \<Longrightarrow> rules_only db db'"
  "save_routing_rule_set_inner v e now db = Inr (x, db') \<Longrightarrow> rules_only db db'"
  "delete_routing_rule_set_inner k e now db = Inr (x, db') \<Longrightarrow> rules_only db db'"
  by (auto simp: update_routing_rule_set_inner_def create_routing_rule_set_inner_def save_routing_rule_set_inner_def
      delete_routing_rule_set_inner_def rules_only_defs dest!: audit_opt_frame split: if_splits option.splits)

lemma clone_frame: "clone_routing_rule_set_inner k v e fresh now db = Inr (x, db') \<Longrightarrow> rules_only db db'"
  by (auto simp: clone_routing_rule_set_inner_def rules_only_defs
      dest!: audit_opt_frame insert_entries_frame insert_sources_frame split: if_splits)

lemma entry_frames:
  "upsert_rule_entry_inner r e now db = Inr (x, db') \<Longrightarrow> rules_only db db'"
  "delete_rule_entry_inner k e now db = Inr (x, db') \<Longrightarrow> rules_only db db'"
  "deduplicate_rule_entries_inner k e now db = Inr (n, db') \<Longrightarrow> rules_only db db'"
  by (auto simp: upsert_rule_entry_inner_def delete_rule_entry_inner_def deduplicate_rule_entries_inner_def rules_only_defs
      dest!: audit_opt_frame split: option.splits)

lemma bulk_frame: "bulk_add_rule_entries_inner k kind input tag e fresh now db = Inr (n, db') \<Longrightarrow> rules_only db db'"
  by (auto simp: bulk_add_rule_entries_inner_def rules_only_defs dest!: audit_opt_frame insert_entries_frame split: if_split_asm)

lemma source_frames:
  "upsert_rule_source_inner r e now db = Inr (x, db') \<Longrightarrow> rules_only db db'"
  "delete_rule_source_inner k e now db = Inr (x, db') \<Longrightarrow> rules_only db db'"
  "update_rule_source_success_inner r e now db = Inr (x, db') \<Longrightarrow> rules_only db db'"
  "rules_only db (update_rule_source_error take_chars k error db)"
  by (auto simp: upsert_rule_source_inner_def delete_rule_source_inner_def update_rule_source_success_inner_def
      update_rule_source_error_def rules_only_defs dest!: audit_opt_frame split: if_split_asm option.splits)

lemma refresh_frame: "refresh_inner W take_chars stamp k e now db = (qs, res, db') \<Longrightarrow> rules_only db db'"
  using source_frames(3,4)
  by (auto simp: refresh_inner_def rules_only_def split: option.splits prod.splits sum.splits)

subsection \<open>The user operations leave the rest alone\<close>

definition users_only :: "db \<Rightarrow> db \<Rightarrow> bool" where
  "users_only db db' \<longleftrightarrow> admin_tables db' = admin_tables db \<and> rule_tables db' = rule_tables db"

lemma bump_if_frame: "bump_if c op now db = Inr (g, db') \<Longrightarrow> users_only db db'"
  by (auto simp: bump_if_def and_then_Inr_iff frame_defs users_only_def split: if_splits dest!: bump_frame)

lemma update_users_frame: "update_users P f db = Inr (n, db') \<Longrightarrow> users_only db db'"
  by (auto simp: update_users_def Let_def frame_defs users_only_def split: if_splits)

lemma insert_user_frame: "insert_user mk db = Inr (u, db') \<Longrightarrow> users_only db db'"
  by (auto simp: insert_user_def Let_def frame_defs users_only_def split: if_splits)

lemma checkpoint_frame: "frame (upsert_user_lifecycle_checkpoint u st t g db) =
    (admin_tables db, rule_tables db, user_tables (upsert_user_lifecycle_checkpoint u st t g db), rc_desired (db_reconcile db))"
  by (simp add: upsert_user_lifecycle_checkpoint_def frame_defs)

lemma users_onlyD: "users_only db db' \<Longrightarrow> admin_tables db' = admin_tables db" "users_only db db' \<Longrightarrow> rule_tables db' = rule_tables db"
  by (simp_all add: users_only_def)

lemma checkpoint_elsewhere [simp]:
  "admin_tables (upsert_user_lifecycle_checkpoint u st t g db) = admin_tables db"
  "rule_tables (upsert_user_lifecycle_checkpoint u st t g db) = rule_tables db"
  using checkpoint_frame [of u st t g db] by (simp_all add: frame_def)

lemma frame_tables: "frame db' = frame db \<Longrightarrow> users_only db db'"
  by (simp add: frame_def users_only_def)

lemma bump_users_only: "bump_desired_generation op now db = Inr (g, db') \<Longrightarrow> users_only db db'"
  by (drule bump_frame) (simp add: frame_def users_only_def)

lemmas user_frames = frame_tables [OF audit_user_frame] frame_tables [OF append_frame] bump_users_only bump_if_frame
  update_users_frame insert_user_frame

lemma create_user_frame: "create_user_inner input e u t op now db = Inr (x, db') \<Longrightarrow> users_only db db'"
  by (auto simp: create_user_inner_def Let_def and_then_Inr_iff users_only_def dest!: user_frames)

lemma update_user_frame: "update_user_audited input e op now db = Inr (x, db') \<Longrightarrow> users_only db db'"
  by (auto simp: update_user_audited_def Let_def and_then_Inr_iff users_only_def dest!: user_frames split: if_split_asm)

lemma rotate_frame: "rotate_user_runtime_identity_audited k t e u op now db = Inr (x, db') \<Longrightarrow> users_only db db'"
  by (auto simp: rotate_user_runtime_identity_audited_def Let_def and_then_Inr_iff users_only_def dest!: user_frames
      split: if_split_asm)

lemma toggle_frame: "set_user_enabled_inner k b e op now db = Inr (x, db') \<Longrightarrow> users_only db db'"
  by (auto simp: set_user_enabled_inner_def Let_def and_then_Inr_iff users_only_def dest!: user_frames split: if_split_asm)

lemma reset_frame: "reset_user_subscription_token_inner k e t now db = Inr (x, db') \<Longrightarrow> users_only db db'"
  by (auto simp: reset_user_subscription_token_inner_def Let_def and_then_Inr_iff users_only_def dest!: user_frames
      split: if_split_asm)

lemma delete_user_frame: "delete_user_inner k e op now db = Inr (x, db') \<Longrightarrow> users_only db db'"
  by (auto simp: delete_user_inner_def delete_users_def Let_def and_then_Inr_iff users_only_def rule_tables_def admin_tables_def
      dest!: user_frames split: if_split_asm)

lemma published_frame: "users_only db (mark_user_lifecycle_reconcile_published g db)"
  by (simp add: mark_user_lifecycle_reconcile_published_def users_only_def frame_defs)

end
