(* ===== verification/Panel_Access.thy ===== *)
theory Panel_Access
  imports Panel_Frames Store_Users_Steps Store_Rules_Steps
begin

text \<open>
  What one request may do. \<open>safe\<close> relates two databases through which the invariants of users,
  administrators and rules are carried; \<open>noted\<close> says of a handler's body that it keeps the content or
  leaves one audit row, is safe and opens no session.
\<close>

definition safe :: "db \<Rightarrow> db \<Rightarrow> bool" where
  "safe db db' \<longleftrightarrow> (users_reachable db \<longrightarrow> users_reachable db') \<and> admin_step\<^sup>*\<^sup>* db db' \<and> (rules_inv db \<longrightarrow> rules_inv db')"

lemma safe_refl [simp]: "safe db db"
  by (simp add: safe_def)

lemma safe_trans: "safe a b \<Longrightarrow> safe b c \<Longrightarrow> safe a c"
  by (auto simp: safe_def intro: rtranclp_trans)

lemma safe_admin:
  assumes "admin_step db db'" and "rule_tables db' = rule_tables db" and "user_tables db' = user_tables db"
    and "rc_desired (db_reconcile db) \<le> rc_desired (db_reconcile db')"
  shows "safe db db'"
  using assms rules_inv_tables [of db' db]
  by (auto simp: safe_def user_tables_def intro: users_reachable.elsewhere)

lemma safe_frame: "frame_kept db db' \<Longrightarrow> safe db db'"
  by (rule safe_admin) (auto simp: frame_kept_def intro: admin_step.elsewhere)

lemma safe_rules: "rules_only db db' \<Longrightarrow> (rules_inv db \<Longrightarrow> rules_inv db') \<Longrightarrow> safe db db'"
  by (auto simp: safe_def rules_only_def user_tables_def intro: users_reachable.elsewhere admin_step.elsewhere)

lemma safe_users: "users_only db db' \<Longrightarrow> run_user_op op now db = Inr db' \<Longrightarrow> safe db db'"
  using rules_inv_tables [of db' db]
  by (auto simp: safe_def users_only_def intro: users_reachable.user_op admin_step.elsewhere)

definition session_hashes :: "db \<Rightarrow> string set" where
  "session_hashes db = se_token_hash ` set (db_sessions db)"

lemma hashes_kept: "admin_tables db' = admin_tables db \<Longrightarrow> session_hashes db' = session_hashes db"
  by (simp add: session_hashes_def admin_tables_def)

text \<open>What is left of a database without its sessions and the marks of published generations.\<close>

definition content :: "db \<Rightarrow> db" where
  "content db = db\<lparr>db_sessions := [], db_session_seq := 0,
     db_lifecycle := map (\<lambda>(k, r). (k, r\<lparr>ul_pending := None\<rparr>)) (db_lifecycle db)\<rparr>"

lemma content_audit: "content db' = content db \<Longrightarrow> db_audit db' = db_audit db"
  by (drule arg_cong [of _ _ db_audit]) (simp add: content_def)

lemma content_session [simp]:
  "content (touch_admin_session t now db) = content db" "content (delete_admin_session t db) = content db"
  "content (delete_expired_admin_sessions now db) = content db"
  by (simp_all add: content_def touch_admin_session_def delete_admin_session_def delete_expired_admin_sessions_def)

lemma content_published [simp]: "content (mark_user_lifecycle_reconcile_published g db) = content db"
  by (simp add: content_def mark_user_lifecycle_reconcile_published_def comp_def split_def)
    (auto split: option.split intro!: map_cong)

subsection \<open>Good transactions\<close>

definition good :: "int \<Rightarrow> 'a tx \<Rightarrow> db \<Rightarrow> bool" where
  "good i tx db \<longleftrightarrow> (\<forall>x db'. tx db = Inr (x, db') \<longrightarrow>
     (db' = db \<or> row_by i db db') \<and> safe db db' \<and> session_hashes db' \<subseteq> session_hashes db)"

named_theorems good_intro \<open>transactions of the handlers\<close>

lemma goodI:
  assumes "audits i tx" and "\<And>x db'. tx db = Inr (x, db') \<Longrightarrow> safe db db' \<and> admin_tables db' = admin_tables db"
  shows "good i tx db"
  using assms hashes_kept unfolding good_def audits_def by blast

lemma good_frame:
  assumes "audits i tx" and "\<And>x db'. tx db = Inr (x, db') \<Longrightarrow> frame_kept db db'"
  shows "good i tx db"
  using assms safe_frame by (intro goodI) (auto simp: frame_kept_def)

lemma good_rules:
  assumes "audits i tx" and "\<And>x db'. tx db = Inr (x, db') \<Longrightarrow> rules_only db db'"
    and "\<And>x db'. tx db = Inr (x, db') \<Longrightarrow> rule_step db db'"
  shows "good i tx db"
  using assms safe_rules rule_step_inv by (intro goodI) (auto simp: rules_only_def)

lemma good_users:
  assumes "audits i tx" and "\<And>x db'. tx db = Inr (x, db') \<Longrightarrow> users_only db db'"
    and "\<And>x db'. tx db = Inr (x, db') \<Longrightarrow> run_user_op op now db = Inr db'"
  shows "good i tx db"
  using assms safe_users by (intro goodI) (auto simp: users_only_def)

lemma good_user_ops [good_intro]:
  assumes "event_of i e"
  shows "good i (create_user_inner input (Some e) u t op now) db"
    "good i (update_user_audited edit e op now) db"
    "good i (rotate_user_runtime_identity_audited k expected e u op now) db"
    "good i (set_user_enabled_inner k b (Some e) op now) db"
    "good i (reset_user_subscription_token_inner k (Some e) t now) db"
    "good i (delete_user_inner k (Some e) op now) db"
proof -
  show "good i (create_user_inner input (Some e) u t op now) db"
    using assms by (intro good_users [where op = "CreateUser input (Some e) u t op" and now = now])
      (auto simp: run_user_op_def no_result_def intro: audits_intro dest: create_user_frame)
  show "good i (update_user_audited edit e op now) db"
    using assms by (intro good_users [where op = "UpdateUser edit e op" and now = now])
      (auto simp: run_user_op_def no_result_def intro: audits_intro dest: update_user_frame)
  show "good i (rotate_user_runtime_identity_audited k expected e u op now) db"
    using assms by (intro good_users [where op = "RotateIdentity k expected e u op" and now = now])
      (auto simp: run_user_op_def no_result_def intro: audits_intro dest: rotate_frame)
  show "good i (set_user_enabled_inner k b (Some e) op now) db"
    using assms by (intro good_users [where op = "SetEnabled k b (Some e) op" and now = now])
      (auto simp: run_user_op_def no_result_def intro: audits_intro dest: toggle_frame)
  show "good i (reset_user_subscription_token_inner k (Some e) t now) db"
    using assms by (intro good_users [where op = "ResetToken k (Some e) t" and now = now])
      (auto simp: run_user_op_def no_result_def intro: audits_intro dest: reset_frame)
  show "good i (delete_user_inner k (Some e) op now) db"
    using assms by (intro good_users [where op = "DeleteUser k (Some e) op" and now = now])
      (auto simp: run_user_op_def no_result_def intro: audits_intro dest: delete_user_frame)
qed

lemma good_settings [good_intro]:
  assumes "event_of i e"
  shows "good i (upsert_settings_with_runtime_keys_inner kvs keys (Some e) op now) db"
    "good i (upsert_secret_inner name v (Some e) op now) db" "good i (delete_secret_inner name (Some e) op now) db"
    "good i (create_protocol_profile_inner codec new (Some e) op now) db"
    "good i (update_protocol_profile_inner codec edit (Some e) op now) db"
    "good i (delete_protocol_profile_audited name t e op now) db" "good i (update_dns_policy_inner dns (Some e) now) db"
  by (rule good_frame; fastforce intro: audits_intro assms dest: settings_frame secret_frame delete_secret_frame
    create_profile_frame update_profile_frame delete_profile_frame dns_frame)+

lemma good_policy [good_intro]:
  assumes "event_of i e"
  shows "good i (upsert_transport_pool_inner k v profiles (Some e) op now) db"
    "good i (delete_transport_pool_inner s k' profiles (Some e) op now) db"
    "good i (upsert_routing_policy_inner k r profiles (Some e) op now) db"
    "good i (delete_routing_policy_inner s (Some e) op now) db"
  by (rule good_rules; (fastforce intro: audits_intro assms dest: policy_saves save_policy_frame intro: rule_step.save_policy))+

lemma good_rule_sets [good_intro]:
  assumes "event_of i e"
  shows "good i (update_routing_rule_set_inner u (Some e) now) db"
    "good i (create_routing_rule_set_inner v (Some e) now) db"
    "good i (save_routing_rule_set_inner v (Some e) now) db"
    "good i (delete_routing_rule_set_inner k (Some e) now) db"
    "good i (clone_routing_rule_set_inner k k' (Some e) fresh now) db"
    "good i (delete_rule_entry_inner k (Some e) now) db"
    "good i (bulk_add_rule_entries_inner k kind input tag (Some e) fresh now) db"
    "good i (deduplicate_rule_entries_inner k (Some e) now) db"
    "good i (delete_rule_source_inner k (Some e) now) db"
  by (rule good_rules; (fastforce intro: audits_intro assms rule_step.intros
      dest: set_frames clone_frame entry_frames bulk_frame source_frames(1,2,3)))+

end
