(* ===== verification/Panel_Steps.thy ===== *)
theory Panel_Steps
  imports Panel_Access
begin

text \<open>
  Whose request may change what: the prologue lets through a valid session with its CSRF token (and the
  owner, where the handler asks for him), and every body behind it is noted in the audit log.
\<close>

definition noted :: "int \<Rightarrow> panel \<Rightarrow> response \<times> panel \<Rightarrow> bool" where
  "noted i p x \<longleftrightarrow> (content (panel_db (snd x)) = content (panel_db p) \<or> row_by i (panel_db p) (panel_db (snd x)))
     \<and> safe (panel_db p) (panel_db (snd x)) \<and> session_hashes (panel_db (snd x)) \<subseteq> session_hashes (panel_db p)
     \<and> pn_attempts (snd x) = pn_attempts p"

lemma noted_same [simp, intro]: "noted i p (resp, p)"
  by (simp add: noted_def)

text \<open>What a continuation after the transaction may do: nothing but publish.\<close>

definition quiet :: "('a \<Rightarrow> panel \<Rightarrow> response \<times> panel) \<Rightarrow> bool" where
  "quiet k \<longleftrightarrow> (\<forall>x p. content (panel_db (snd (k x p))) = content (panel_db p)
     \<and> safe (panel_db p) (panel_db (snd (k x p)))
     \<and> session_hashes (panel_db (snd (k x p))) = session_hashes (panel_db p) \<and> pn_attempts (snd (k x p)) = pn_attempts p)"

lemma noted_commit:
  assumes "good i tx (panel_db p)" and "quiet k"
  shows "noted i p (commit tx failed k p)"
proof (cases "tx (panel_db p)")
  case (Inr x)
  obtain y db' where x: "x = (y, db')" by fastforce
  have g: "db' = panel_db p \<or> row_by i (panel_db p) db'" "safe (panel_db p) db'" "session_hashes db' \<subseteq> session_hashes (panel_db p)"
    using assms(1) Inr unfolding good_def x by blast+
  let ?p = "snd (k y (with_db db' p))"
  have q: "content (panel_db ?p) = content db'" "safe db' (panel_db ?p)" "session_hashes (panel_db ?p) = session_hashes db'"
    "pn_attempts ?p = pn_attempts p"
    using assms(2) unfolding quiet_def by (metis panel_db_with, metis panel_db_with, metis panel_db_with, metis with_db_attempts)
  have "content (panel_db ?p) = content (panel_db p) \<or> row_by i (panel_db p) (panel_db ?p)"
    using g(1) q(1) content_audit [OF q(1)] by (auto simp: row_by_def)
  then show ?thesis using g q safe_trans by (auto simp: commit_def Inr x noted_def)
qed (simp add: commit_def)

lemma published_safe: "safe db (mark_user_lifecycle_reconcile_published g db)"
  by (rule safe_users [OF published_frame, where op = "LifecyclePublished g"]) (simp add: run_user_op_def)

lemma published_sessions [simp]: "session_hashes (mark_user_lifecycle_reconcile_published g db) = session_hashes db"
  by (simp add: session_hashes_def mark_user_lifecycle_reconcile_published_def)

lemma queue_quiet:
  "content (panel_db (queue_latest_reconcile S r p)) = content (panel_db p)"
  "safe (panel_db p) (panel_db (queue_latest_reconcile S r p))"
  "session_hashes (panel_db (queue_latest_reconcile S r p)) = session_hashes (panel_db p)"
  "pn_attempts (queue_latest_reconcile S r p) = pn_attempts p"
  by (auto simp: queue_latest_reconcile_def publish_and_acknowledge_def Let_def panel_db_def published_safe
      split: prod.splits sum.splits)

lemma quiet_intro [good_intro]:
  "quiet (users_redirect S r)" "quiet routing_redirect" "quiet (saved_profile S r changed location)"
  "quiet (\<lambda>changed. saved_profile S r (c changed) location ())"
  "quiet (\<lambda>_ p. (resp, p))" "quiet (\<lambda>_ p. (resp, queue_latest_reconcile S r p))"
  "quiet (\<lambda>g p. (resp, if P g then p else queue_latest_reconcile S r p))"
  by (auto simp: quiet_def users_redirect_def routing_redirect_def saved_profile_def queue_quiet)

subsection \<open>The prologue\<close>

definition authorised :: "site \<Rightarrow> arrival \<Rightarrow> string \<Rightarrow> bool \<Rightarrow> db \<Rightarrow> int \<Rightarrow> bool" where
  "authorised S r csrf owner db i \<longleftrightarrow> (\<exists>token s. session_token_from_headers S r = Some token
     \<and> csrf = csrf_token_for_session_token S token \<and> s \<in> set (db_sessions db)
     \<and> se_token_hash s = hash_session_token S token \<and> ar_now r < se_expires s \<and> se_admin_id s = i)
     \<and> i \<in> ad_id ` set (db_admins db) \<and> (owner \<longrightarrow> is_owner_admin_id i db)"

text \<open>What the session check itself does to the panel.\<close>

definition looked :: "panel \<Rightarrow> panel \<Rightarrow> bool" where
  "looked p p' \<longleftrightarrow> content (panel_db p') = content (panel_db p) \<and> safe (panel_db p) (panel_db p')
     \<and> session_hashes (panel_db p') \<subseteq> session_hashes (panel_db p) \<and> pn_attempts p' = pn_attempts p"

lemma looked_same [simp]: "looked p p"
  by (simp add: looked_def)

lemma session_hashes_sub [simp]:
  "session_hashes (touch_admin_session t now db) = session_hashes db"
  "session_hashes (delete_admin_session t db) = session_hashes db - {t}"
  "session_hashes (delete_expired_admin_sessions now db) \<subseteq> session_hashes db"
proof -
  have "map se_token_hash (db_sessions (touch_admin_session t now db)) = map se_token_hash (db_sessions db)"
    by (simp add: touch_admin_session_def)
  then show "session_hashes (touch_admin_session t now db) = session_hashes db"
    unfolding session_hashes_def by (metis list.set_map)
qed (auto simp: session_hashes_def delete_admin_session_def delete_expired_admin_sessions_def)

lemma session_ops_frame:
  "rule_tables (touch_admin_session t now db) = rule_tables db" "user_tables (touch_admin_session t now db) = user_tables db"
  "rule_tables (delete_admin_session t db) = rule_tables db" "user_tables (delete_admin_session t db) = user_tables db"
  "rule_tables (delete_expired_admin_sessions now db) = rule_tables db"
  "user_tables (delete_expired_admin_sessions now db) = user_tables db"
  "db_reconcile (touch_admin_session t now db) = db_reconcile db" "db_reconcile (delete_admin_session t db) = db_reconcile db"
  "db_reconcile (delete_expired_admin_sessions now db) = db_reconcile db"
  by (simp_all add: rule_tables_def user_tables_def touch_admin_session_def delete_admin_session_def delete_expired_admin_sessions_def)

lemma session_ops_safe [simp]:
  "safe db (touch_admin_session t now db)" "safe db (delete_admin_session t db)"
  "safe db (delete_expired_admin_sessions now db)"
  by (rule safe_admin, simp_all add: admin_step.intros session_ops_frame)+

lemma looked_with_db:
  assumes "content db' = content (panel_db p)" and "safe (panel_db p) db'" and "session_hashes db' \<subseteq> session_hashes (panel_db p)"
  shows "looked p (with_db db' p)"
  using assms by (simp add: looked_def)

lemma content_fields:
  assumes "content db' = content db"
  shows "db_admins db' = db_admins db" "is_owner_admin_id i db' = is_owner_admin_id i db" "db_audit db' = db_audit db"
    "rule_tables db' = rule_tables db"
proof -
  show "db_admins db' = db_admins db" using arg_cong [OF assms, of db_admins] by (simp add: content_def)
  then show "is_owner_admin_id i db' = is_owner_admin_id i db" by (simp add: is_owner_admin_id_def min_admin_id_def)
  show "db_audit db' = db_audit db" by (rule content_audit [OF assms])
  show "rule_tables db' = rule_tables db" using arg_cong [OF assms, of rule_tables] by (simp add: content_def rule_tables_def)
qed

lemma current_admin_looked:
  assumes "current_admin S r p = (who, p')"
  shows "looked p p'"
  using assms by (auto simp: current_admin_def Let_def looked_with_db split: option.splits if_splits)

lemma current_admin_authorised:
  assumes "current_admin S r p = (Some auth, p')"
  shows "authorised S r (au_csrf_token auth) (au_is_owner auth) (panel_db p) (ad_id (au_admin auth))"
proof -
  from assms obtain token s a where t: "session_token_from_headers S r = Some token"
    and s: "get_valid_admin_session (hash_session_token S token) (ar_now r) (panel_db p) = Some s"
    and a: "get_admin_by_id (se_admin_id s) (panel_db p) = Some a"
    and auth: "auth = \<lparr>au_admin = a, au_is_owner = is_owner_admin_id (ad_id a) (panel_db p),
      au_csrf_token = csrf_token_for_session_token S token\<rparr>"
    by (auto simp: current_admin_def Let_def split: option.splits)
  have mem: "a \<in> set (db_admins (panel_db p))" and same: "ad_id a = se_admin_id s"
    using a by (auto simp: get_admin_by_id_def find_Some_iff in_set_conv_nth)
  have "se_admin_id s \<in> ad_id ` set (db_admins (panel_db p))" using mem unfolding same [symmetric] by (rule imageI)
  moreover note same
  moreover have "s \<in> set (db_sessions (panel_db p))" "se_token_hash s = hash_session_token S token" "ar_now r < se_expires s"
    using s by (auto simp: get_valid_admin_session_def find_Some_iff in_set_conv_nth)
  ultimately show ?thesis using t unfolding authorised_def auth by auto
qed

text \<open>A handler behind the prologue: refused without a trace, or run for an authorised administrator.\<close>

lemma admin_action_cases:
  obtains (refused) resp p' where "admin_action S r csrf owner body p = (resp, p')" "looked p p'"
  | (granted) auth p' where "admin_action S r csrf owner body p = body auth p'" "looked p p'"
    "authorised S r csrf owner (panel_db p) (ad_id (au_admin auth))"
proof (cases "current_admin S r p")
  case (Pair who p')
  have l: "looked p p'" by (rule current_admin_looked [OF Pair])
  show thesis
  proof (cases who)
    case None
    then show thesis using refused [OF _ l] by (simp add: admin_action_def require_admin_def Pair)
  next
    case (Some auth)
    show thesis
    proof (cases "csrf = au_csrf_token auth \<and> (owner \<longrightarrow> au_is_owner auth)")
      case True
      have "authorised S r csrf owner (panel_db p) (ad_id (au_admin auth))"
        using current_admin_authorised [OF Pair [unfolded Some]] True unfolding authorised_def by blast
      then show thesis
        using granted [OF _ l] True by (auto simp: admin_action_def require_admin_def Pair Some csrf_error_response_def)
    next
      case False
      then show thesis
        using refused [OF _ l]
        by (cases "csrf = au_csrf_token auth"; simp add: admin_action_def require_admin_def Pair Some csrf_error_response_def)
    qed
  qed
qed

lemma noted_looked:
  assumes "looked p p1" and "noted i p1 x"
  shows "noted i p x"
  using assms safe_trans content_audit [of "panel_db p1" "panel_db p"] unfolding looked_def noted_def row_by_def
  by (metis (no_types, lifting) subset_trans)

text \<open>The conclusion for one handler.\<close>

definition accounted :: "site \<Rightarrow> arrival \<Rightarrow> string \<Rightarrow> bool \<Rightarrow> panel \<Rightarrow> panel \<Rightarrow> bool" where
  "accounted S r csrf owner p p' \<longleftrightarrow> safe (panel_db p) (panel_db p') \<and> session_hashes (panel_db p') \<subseteq> session_hashes (panel_db p)
     \<and> pn_attempts p' = pn_attempts p
     \<and> (content (panel_db p') = content (panel_db p)
        \<or> (\<exists>i. authorised S r csrf owner (panel_db p) i \<and> row_by i (panel_db p) (panel_db p')))"

lemma accounted_looked: "looked p p' \<Longrightarrow> accounted S r csrf owner p p'"
  by (simp add: looked_def accounted_def)

lemma accounted_action:
  assumes "\<And>auth p1. looked p p1 \<Longrightarrow> noted (ad_id (au_admin auth)) p1 (body auth p1)"
  shows "accounted S r csrf owner p (snd (admin_action S r csrf owner body p))"
proof (cases S r csrf owner body p rule: admin_action_cases)
  case (refused resp p')
  then show ?thesis by (simp add: accounted_looked)
next
  case (granted auth p')
  then show ?thesis
    using noted_looked [OF granted(2) assms [OF granted(2)]] unfolding noted_def accounted_def by (simp, blast)
qed

lemmas body_splits = sum.splits option.splits if_splits bool.splits

text \<open>Rule entries and sources: the identifier in the form stays in its set.\<close>

fun stays :: "request \<Rightarrow> arrival \<Rightarrow> db \<Rightarrow> bool" where
  "stays (Save_Entry csrf form) r db \<longleftrightarrow> (\<forall>kind. case bt_get (db_rule_entries db) (re_id (rule_entry_from_form r kind form)) of
       None \<Rightarrow> True | Some c \<Rightarrow> re_rule_set_id c = re_rule_set_id (rule_entry_from_form r kind form))"
| "stays (Save_Source csrf form) r db \<longleftrightarrow> (\<forall>k. case bt_get (db_rule_sources db) (src_id (rule_source_from_form r k form)) of
       None \<Rightarrow> True | Some c \<Rightarrow> src_rule_set_id c = src_rule_set_id (rule_source_from_form r k form))"
| "stays q r db \<longleftrightarrow> True"

lemma user_actions:
  "accounted S r csrf False p (snd (create_user_action S r csrf cform p))"
  "accounted S r csrf False p (snd (edit_user_action S r csrf i eform p))"
  "accounted S r csrf False p (snd (toggle_user_action S r csrf i p))"
  "accounted S r csrf False p (snd (reset_user_token_action S r csrf i p))"
  "accounted S r csrf False p (snd (rotate_user_identity_action S r csrf i version p))"
  "accounted S r csrf False p (snd (delete_user_action S r csrf i p))"
  unfolding create_user_action_def edit_user_action_def toggle_user_action_def reset_user_token_action_def
    rotate_user_identity_action_def delete_user_action_def Let_def
  by (rule accounted_action; auto split: body_splits intro!: noted_commit good_intro)+

lemma routing_actions:
  "accounted S r csrf True p (snd (update_routing_rule_action S Q r csrf f1 p))"
  "accounted S r csrf True p (snd (update_dns_policy_action S r csrf f2 p))"
  "accounted S r csrf True p (snd (save_transport_pool_action S Q r csrf f3 p))"
  "accounted S r csrf True p (snd (delete_transport_pool_action S Q r csrf k replacement p))"
  "accounted S r csrf True p (snd (save_routing_policy_action S Q r csrf f4 p))"
  "accounted S r csrf True p (snd (delete_routing_policy_action S r csrf k p))"
  unfolding update_routing_rule_action_def update_dns_policy_action_def save_transport_pool_action_def with_profiles_def
    delete_transport_pool_action_def save_routing_policy_action_def delete_routing_policy_action_def Let_def
  by (rule accounted_action; auto split: body_splits intro!: noted_commit good_intro)+

lemma rule_set_actions:
  "accounted S r csrf True p (snd (save_rule_set_action S r csrf f5 p))"
  "accounted S r csrf True p (snd (delete_rule_set_action S r csrf k p))"
  "accounted S r csrf True p (snd (clone_rule_set_action S r csrf k k' p))"
  "accounted S r csrf True p (snd (delete_rule_entry_action S r csrf k p))"
  "accounted S r csrf True p (snd (bulk_rule_entries_action S r csrf f6 p))"
  "accounted S r csrf True p (snd (deduplicate_rule_entries_action S r csrf k p))"
  "accounted S r csrf True p (snd (delete_rule_source_action S r csrf k p))"
  unfolding save_rule_set_action_def delete_rule_set_action_def clone_rule_set_action_def delete_rule_entry_action_def
    bulk_rule_entries_action_def deduplicate_rule_entries_action_def delete_rule_source_action_def Let_def
  by (rule accounted_action; auto split: body_splits intro!: noted_commit good_intro)+

lemma good_entry:
  assumes "event_of i e" and "\<And>c. bt_get (db_rule_entries db) (re_id v) = Some c \<Longrightarrow> re_rule_set_id c = re_rule_set_id v"
  shows "good i (upsert_rule_entry_inner v (Some e) now) db"
  using assms by (intro good_rules) (auto intro: audits_intro rule_step.upsert_entry dest: entry_frames(1))

lemma good_source:
  assumes "event_of i e" and "\<And>c. bt_get (db_rule_sources db) (src_id v) = Some c \<Longrightarrow> src_rule_set_id c = src_rule_set_id v"
    and "payload_ok (src_cached_payload v)"
  shows "good i (upsert_rule_source_inner v (Some e) now) db"
  using assms by (intro good_rules) (auto intro: audits_intro rule_step.upsert_source dest: source_frames(1))

lemma looked_rules:
  assumes "looked p p'"
  shows "db_rule_entries (panel_db p') = db_rule_entries (panel_db p)"
    "db_rule_sources (panel_db p') = db_rule_sources (panel_db p)"
  using assms content_fields(4) [of "panel_db p'" "panel_db p"] by (auto simp: looked_def rule_tables_def)

lemma entry_action:
  assumes "stays (Save_Entry csrf form) r (panel_db p)"
  shows "accounted S r csrf True p (snd (save_rule_entry_action S r csrf form p))"
  using assms unfolding save_rule_entry_action_def Let_def
  by (intro accounted_action) (auto split: body_splits intro!: noted_commit good_intro good_entry simp: looked_rules)

lemma source_action:
  assumes "stays (Save_Source csrf form) r (panel_db p)"
  shows "accounted S r csrf True p (snd (save_rule_source_action S r csrf form p))"
proof -
  have "payload_ok (src_cached_payload (rule_source_from_form r k form))" for k
    by (simp add: rule_source_from_form_def payload_ok_def)
  then show ?thesis
    using assms unfolding save_rule_source_action_def Let_def
    by (intro accounted_action) (auto split: body_splits intro!: noted_commit good_intro good_source simp: looked_rules)
qed

lemma settings_actions:
  "accounted S r csrf False p (snd (update_settings_action S r csrf f7 p))"
  "accounted S r csrf True p (snd (secret_save_action S Q A r csrf name v p))"
  "accounted S r csrf True p (snd (secret_delete_action S r csrf name confirm p))"
  unfolding update_settings_action_def secret_save_action_def secret_delete_action_def with_profiles_def Let_def
  by (rule accounted_action; auto split: body_splits intro!: noted_commit good_intro)+

lemma delete_protocol_accounted:
  "accounted S r (field ''csrf_token'' form) True p (snd (delete_protocol_action S r name form p))"
  unfolding delete_protocol_action_def Let_def
  by (rule accounted_action; auto split: body_splits intro!: noted_commit good_intro)

lemma toggle_protocol_accounted:
  "accounted S r (field ''csrf_token'' form) True p (snd (set_protocol_enabled_action S Q A r name form p))"
  unfolding set_protocol_enabled_action_def with_profile_def Let_def
  by (rule accounted_action; auto split: body_splits intro!: noted_commit good_intro)

lemma create_protocol_accounted:
  "accounted S r (field ''csrf_token'' form) True p (snd (create_protocol_action S Q A r form p))"
  unfolding create_protocol_action_def Let_def
  by (rule accounted_action; auto split: body_splits intro!: noted_commit good_intro)

lemma update_protocol_accounted:
  "accounted S r (field ''csrf_token'' form) True p (snd (update_protocol_action S Q A r name form p))"
  unfolding update_protocol_action_def with_profile_def Let_def
  by (rule accounted_action; auto split: body_splits intro!: noted_commit good_intro)

subsection \<open>Accounts\<close>

lemma good_password [good_intro]:
  assumes "event_of i e"
  shows "good i (update_admin_password_inner k h (Some e) now) db"
proof -
  have "safe db db' \<and> session_hashes db' \<subseteq> session_hashes db"
    if upd: "update_admin_password_inner k h (Some e) now db = Inr (x, db')" for x db'
  proof
    have f: "rule_tables db' = rule_tables db" "user_tables db' = user_tables db"
      "rc_desired (db_reconcile db') = rc_desired (db_reconcile db)"
      "session_hashes db' \<subseteq> session_hashes db"
      using upd by (auto simp: update_admin_password_inner_def frame_defs session_hashes_def split: if_split_asm dest!: audit_opt_frame)
    then show "session_hashes db' \<subseteq> session_hashes db" by blast
    show "safe db db'" by (rule safe_admin) (use f upd in \<open>auto intro: admin_step.rotate_password\<close>)
  qed
  then show ?thesis using password_audits [OF assms, of k h now] unfolding good_def audits_def by blast
qed

lemma logout_accounted: "accounted S r csrf False p (snd (logout_action S r csrf p))"
  unfolding logout_action_def
  by (rule accounted_action) (auto simp: noted_def split: option.split)

lemma password_accounted: "accounted S r csrf False p (snd (change_password_action S r csrf form p))"
  unfolding change_password_action_def
  by (rule accounted_action) (auto split: body_splits intro!: noted_commit good_intro)

lemma page_looked: "looked p (snd (setup_admin_page S r p))" "looked p (snd (login_page S r p))" "looked p (snd (admin_page S r title p))"
  by (auto simp: setup_admin_page_def login_page_def admin_page_def require_admin_def dest: current_admin_looked
      split: prod.splits option.splits sum.splits if_splits)

text \<open>The two actions that leave no audit row of their own in every case: the theme and a refresh.\<close>

definition mild :: "panel \<Rightarrow> panel \<Rightarrow> bool" where
  "mild p p' \<longleftrightarrow> safe (panel_db p) (panel_db p') \<and> session_hashes (panel_db p') \<subseteq> session_hashes (panel_db p)
     \<and> pn_attempts p' = pn_attempts p"

lemma accounted_mild: "accounted S r csrf owner p p' \<Longrightarrow> mild p p'"
  by (simp add: accounted_def mild_def)

lemma looked_mild: "looked p p' \<Longrightarrow> mild p p'"
  by (simp add: looked_def mild_def)

lemma mild_action:
  assumes "\<And>auth p1. looked p p1 \<Longrightarrow> mild p1 (snd (body auth p1))"
  shows "mild p (snd (admin_action S r csrf owner body p))
    \<and> (content (panel_db (snd (admin_action S r csrf owner body p))) = content (panel_db p)
       \<or> (\<exists>i. authorised S r csrf owner (panel_db p) i))"
proof (cases S r csrf owner body p rule: admin_action_cases)
  case (refused resp p')
  then show ?thesis by (simp add: looked_def mild_def)
next
  case (granted auth p')
  have "mild p (snd (body auth p'))"
    using granted(2) assms [OF granted(2)] safe_trans unfolding looked_def mild_def by (metis subset_trans)
  then show ?thesis using granted by auto
qed

lemma mild_with_db:
  assumes "safe (panel_db p) db" and "admin_tables db = admin_tables (panel_db p)"
  shows "mild p (with_db db p)"
  using assms hashes_kept [OF assms(2)] by (simp add: mild_def)

lemma mild_same [simp]: "mild p p"
  by (simp add: mild_def)

lemma theme_mild: "mild p (snd (theme_action S r csrf theme p))
    \<and> (content (panel_db (snd (theme_action S r csrf theme p))) = content (panel_db p)
       \<or> (\<exists>i. authorised S r csrf False (panel_db p) i))"
  unfolding theme_action_def using setting_frame
  by (intro mild_action) (auto split: option.splits intro!: mild_with_db safe_frame simp: frame_kept_def)

lemma refresh_safe:
  assumes "refresh_inner W take_chars stamp i e now db = (qs, res, db')"
  shows "safe db db' \<and> admin_tables db' = admin_tables db"
  using refresh_frame [OF assms] refresh_step [OF assms] rule_step_inv
  by (auto intro: safe_rules simp: rules_only_def)

lemma refresh_mild: "mild p (snd (refresh_rule_source_action S Q r csrf i p))
    \<and> (content (panel_db (snd (refresh_rule_source_action S Q r csrf i p))) = content (panel_db p)
       \<or> (\<exists>i. authorised S r csrf True (panel_db p) i))"
  unfolding refresh_rule_source_action_def
  by (intro mild_action) (auto split: prod.splits intro!: mild_with_db dest: refresh_safe)

subsection \<open>What needs no premise on identifiers\<close>

definition allowed :: "site \<Rightarrow> arrival \<Rightarrow> string \<Rightarrow> bool \<Rightarrow> panel \<Rightarrow> panel \<Rightarrow> bool" where
  "allowed S r csrf owner p p' \<longleftrightarrow> session_hashes (panel_db p') \<subseteq> session_hashes (panel_db p)
     \<and> (content (panel_db p') = content (panel_db p)
        \<or> (\<exists>i. authorised S r csrf owner (panel_db p) i \<and> row_by i (panel_db p) (panel_db p')))"

lemma accounted_allowed: "accounted S r csrf owner p p' \<Longrightarrow> allowed S r csrf owner p p'"
  by (simp add: accounted_def allowed_def)

definition traced :: "int \<Rightarrow> panel \<Rightarrow> response \<times> panel \<Rightarrow> bool" where
  "traced i p x \<longleftrightarrow> session_hashes (panel_db (snd x)) \<subseteq> session_hashes (panel_db p)
     \<and> (content (panel_db (snd x)) = content (panel_db p) \<or> row_by i (panel_db p) (panel_db (snd x)))"

lemma traced_same: "traced i p (resp, p)"
  by (simp add: traced_def)

lemma traced_commit:
  assumes "audits i tx" and "\<And>db x db'. tx db = Inr (x, db') \<Longrightarrow> rules_only db db'"
  shows "traced i p (commit tx failed routing_redirect p)"
proof (cases "tx (panel_db p)")
  case (Inr x)
  obtain y db' where x: "x = (y, db')" by fastforce
  have "session_hashes db' = session_hashes (panel_db p)"
    using assms(2) Inr x hashes_kept unfolding rules_only_def by blast
  moreover have "db' = panel_db p \<or> row_by i (panel_db p) db'"
    using assms(1) Inr x unfolding audits_def by blast
  ultimately show ?thesis by (auto simp: traced_def commit_def Inr x routing_redirect_def)
qed (simp add: commit_def traced_def)

lemma allowed_action:
  assumes "\<And>auth p1. traced (ad_id (au_admin auth)) p1 (body auth p1)"
  shows "allowed S r csrf owner p (snd (admin_action S r csrf owner body p))"
proof (cases S r csrf owner body p rule: admin_action_cases)
  case (refused resp p')
  then show ?thesis by (simp add: looked_def allowed_def)
next
  case (granted auth p1)
  have "db_audit (panel_db p1) = db_audit (panel_db p)"
    using granted(2) content_audit unfolding looked_def by blast
  then show ?thesis
    using granted assms [of auth p1] by (auto simp: looked_def allowed_def traced_def row_by_def)
qed

lemma entry_allowed: "allowed S r csrf True p (snd (save_rule_entry_action S r csrf form p))"
  unfolding save_rule_entry_action_def Let_def
  by (rule allowed_action) (auto intro: traced_same intro!: traced_commit audits_intro dest: entry_frames(1) split: sum.split)

lemma source_allowed: "allowed S r csrf True p (snd (save_rule_source_action S r csrf form p))"
  unfolding save_rule_source_action_def Let_def
  by (rule allowed_action) (auto intro: traced_same intro!: traced_commit audits_intro dest: source_frames(1) split: sum.split)

subsection \<open>New sessions\<close>

text \<open>A new session is the only change; the rate limiter may have changed before.\<close>

definition entered :: "site \<Rightarrow> arrival \<Rightarrow> panel \<Rightarrow> panel \<Rightarrow> bool" where
  "entered S r p p' \<longleftrightarrow> content (panel_db p') = content (panel_db p) \<and> safe (panel_db p) (panel_db p')
     \<and> pn_attempts p' = pn_attempts p
     \<and> session_hashes (panel_db p') \<subseteq> session_hashes (panel_db p)
         \<union> {hash_session_token S token |token. ar_session_token r = Inr token}"

lemma session_redirect_entered: "entered S r p (snd (create_session_redirect S r i location p))"
proof -
  let ?db = "delete_expired_admin_sessions (ar_now r) (panel_db p)"
  have "content db' = content db \<and> safe db db' \<and> session_hashes db' = insert h (session_hashes db)"
    if new: "create_admin_session i h expires now db = Inr (x, db')" for h expires now x db db'
  proof -
    have f: "content db' = content db" "rule_tables db' = rule_tables db" "user_tables db' = user_tables db"
      "rc_desired (db_reconcile db') = rc_desired (db_reconcile db)" "session_hashes db' = insert h (session_hashes db)"
      using new by (auto simp: create_admin_session_def Let_def content_def frame_defs session_hashes_def split: if_split_asm)
    have "safe db db'" by (rule safe_admin) (use f new in \<open>auto intro: admin_step.log_in\<close>)
    then show ?thesis using f by blast
  qed
  moreover from this have "safe (panel_db p) db'" if "create_admin_session i h expires now ?db = Inr (x, db')" for h expires now x db'
    using that safe_trans [OF session_ops_safe(3)] by blast
  ultimately show ?thesis
    by (cases "ar_session_token r"; cases "create_admin_session i (hash_session_token S (projr (ar_session_token r)))
        (ar_now r + days ADMIN_SESSION_TTL_DAYS) (ar_now r) ?db")
      (auto simp: create_session_redirect_def commit_def entered_def
        dest: subsetD [OF session_hashes_sub(3)])
qed

text \<open>Who is let in at the login: an account of that name, whose password the verifier accepts.\<close>

definition let_in :: "site \<Rightarrow> login_form \<Rightarrow> db \<Rightarrow> bool" where
  "let_in S form db \<longleftrightarrow> (\<exists>a \<in> set (db_admins db). ad_username a = trim (lf_username form)
     \<and> si_verify S (lf_password form) (ad_password_hash a) = Inr True)"

definition throttled :: "site \<Rightarrow> arrival \<Rightarrow> login_form \<Rightarrow> panel \<Rightarrow> bool" where
  "throttled S r form p \<longleftrightarrow> fst (retry_after (login_rate_limit_keys S r (lf_username form)) (ar_tick r) (pn_attempts p)) \<noteq> None"

lemma panel_db_failure [simp]: "panel_db (snd (login_failure keys r p)) = panel_db p"
  by (simp add: login_failure_def)

lemma login_cases:
  obtains (same) "panel_db (snd (login_action S r form p)) = panel_db p"
  | (entered) q where "let_in S form (panel_db p)" "\<not> throttled S r form p" "panel_db q = panel_db p"
      "entered S r q (snd (login_action S r form p))"
proof -
  obtain wait attempts where w: "retry_after (login_rate_limit_keys S r (lf_username form)) (ar_tick r) (pn_attempts p) = (wait, attempts)"
    by fastforce
  let ?p = "p\<lparr>pn_attempts := attempts\<rparr>"
  let ?keys = "login_rate_limit_keys S r (lf_username form)"
  show thesis
  proof (cases "wait = None \<and> admin_count (panel_db p) \<noteq> 0 \<and> length (lf_password form) \<le> MAX_ADMIN_PASSWORD_LEN")
    case False
    then show thesis
      by (intro same) (auto simp: login_action_def Let_def w split: option.splits)
  next
    case True
    show thesis
    proof (cases "get_admin_by_username (lf_username form) (panel_db p)")
      case None
      then show thesis
        using True by (intro same) (auto simp: login_action_def Let_def w split: option.splits sum.splits)
    next
      case (Some a)
      then have a: "a \<in> set (db_admins (panel_db p))" "ad_username a = trim (lf_username form)"
        by (auto simp: get_admin_by_username_def find_Some_iff in_set_conv_nth)
      show thesis
      proof (cases "verify_password_limited S r (lf_password form) (ad_password_hash a) = Inr (Some True)")
        case ok: True
        then have v: "si_verify S (lf_password form) (ad_password_hash a) = Inr True"
          by (auto simp: verify_password_limited_def and_then_Inr_iff split: if_splits)
        let ?q = "?p\<lparr>pn_attempts := record_success ?keys attempts\<rparr>"
        show thesis
          by (rule entered [of ?q])
            (use True Some ok a v w session_redirect_entered [of S r ?q] in
              \<open>auto simp: login_action_def Let_def let_in_def throttled_def\<close>)
      next
        case False
        then show thesis
          using True Some
          by (intro same) (auto simp: login_action_def Let_def w split: option.splits sum.splits bool.splits)
      qed
    qed
  qed
qed

text \<open>The first setup.\<close>

lemma first_admin_effect:
  assumes "create_first_admin_inner name h e now db = Inr (a, db')"
  shows "safe db db' \<and> session_hashes db' = session_hashes db \<and> db_admins db = []"
proof -
  have f: "rule_tables db' = rule_tables db" "user_tables db' = user_tables db"
    "rc_desired (db_reconcile db') = rc_desired (db_reconcile db)" "session_hashes db' = session_hashes db" "db_admins db = []"
    using assms by (auto simp: create_first_admin_inner_def insert_admin_def Let_def and_then_Inr_iff frame_defs session_hashes_def
        split: if_split_asm dest!: audit_opt_frame)
  then have "safe db db'" by (intro safe_admin) (auto intro: admin_step.first_admin assms)
  then show ?thesis using f by blast
qed

lemma setup_cases:
  obtains (same) "panel_db (snd (setup_admin_action S r form p)) = panel_db p"
  | (created) "db_admins (panel_db p) = []" "setup_token_matches S (sf_setup_token form)"
      "safe (panel_db p) (panel_db (snd (setup_admin_action S r form p)))"
      "session_hashes (panel_db (snd (setup_admin_action S r form p))) \<subseteq> session_hashes (panel_db p)
         \<union> {hash_session_token S token |token. ar_session_token r = Inr token}"
proof (cases "panel_db (snd (setup_admin_action S r form p)) = panel_db p")
  case False
  then obtain h e a db where tok: "setup_token_matches S (sf_setup_token form)"
    and new: "create_first_admin_inner (trim (sf_username form)) h e (ar_now r) (panel_db p) = Inr (a, db)"
    and res: "setup_admin_action S r form p = create_session_redirect S r (ad_id a) ''/admin'' (with_db db p)"
    by (auto simp: setup_admin_action_def Let_def commit_def split: if_splits sum.splits prod.splits)
  show thesis
    using first_admin_effect [OF new] session_redirect_entered [of S r "with_db db p" "ad_id a" "''/admin''"]
    by (intro created) (auto simp: res tok entered_def intro: safe_trans)
qed

end
