(* ===== verification/Panel_Requests.thy ===== *)
theory Panel_Requests
  imports Panel_Steps
begin

text \<open>
  The requests as a whole: the token and the rank a request needs, what any request does to the
  panel, and the runs of requests and background jobs.
\<close>

fun form_token :: "request \<Rightarrow> string" where
  "form_token (Logout csrf) = csrf"
| "form_token (Set_Theme csrf theme) = csrf"
| "form_token (Change_Password csrf form) = csrf"
| "form_token (Save_Settings csrf form) = csrf"
| "form_token (Create_User csrf form) = csrf"
| "form_token (Edit_User csrf i form) = csrf"
| "form_token (Toggle_User csrf i) = csrf"
| "form_token (Reset_Token csrf i) = csrf"
| "form_token (Rotate_Identity csrf i version) = csrf"
| "form_token (Delete_User csrf i) = csrf"
| "form_token (Save_Secret csrf name v) = csrf"
| "form_token (Delete_Secret csrf name confirm) = csrf"
| "form_token (Create_Profile form) = field ''csrf_token'' form"
| "form_token (Update_Profile name form) = field ''csrf_token'' form"
| "form_token (Enable_Profile name form) = field ''csrf_token'' form"
| "form_token (Delete_Profile name form) = field ''csrf_token'' form"
| "form_token (Update_Rule_Set csrf form) = csrf"
| "form_token (Save_Dns csrf form) = csrf"
| "form_token (Save_Pool csrf form) = csrf"
| "form_token (Delete_Pool csrf i replacement) = csrf"
| "form_token (Save_Policy csrf form) = csrf"
| "form_token (Delete_Policy csrf i) = csrf"
| "form_token (Save_Rule_Set csrf form) = csrf"
| "form_token (Delete_Rule_Set csrf slug) = csrf"
| "form_token (Clone_Rule_Set csrf slug new_slug) = csrf"
| "form_token (Save_Entry csrf form) = csrf"
| "form_token (Delete_Entry csrf i) = csrf"
| "form_token (Bulk_Entries csrf form) = csrf"
| "form_token (Deduplicate csrf slug) = csrf"
| "form_token (Save_Source csrf form) = csrf"
| "form_token (Delete_Source csrf i) = csrf"
| "form_token (Refresh_Source csrf i) = csrf"
| "form_token q = []"

text \<open>Everything but one's own account, the panel's names and the users is the owner's.\<close>

fun owner_only :: "request \<Rightarrow> bool" where
  "owner_only (Logout csrf) = False"
| "owner_only (Set_Theme csrf theme) = False"
| "owner_only (Change_Password csrf form) = False"
| "owner_only (Save_Settings csrf form) = False"
| "owner_only (Create_User csrf form) = False"
| "owner_only (Edit_User csrf i form) = False"
| "owner_only (Toggle_User csrf i) = False"
| "owner_only (Reset_Token csrf i) = False"
| "owner_only (Rotate_Identity csrf i version) = False"
| "owner_only (Delete_User csrf i) = False"
| "owner_only q = True"

text \<open>The requests that change the content without an audit row in every case.\<close>

fun audited :: "request \<Rightarrow> bool" where
  "audited (Set_Theme csrf theme) = False"
| "audited (Refresh_Source csrf i) = False"
| "audited q = True"

fun session_request :: "request \<Rightarrow> bool" where
  "session_request (Setup form) = False"
| "session_request (Login form) = False"
| "session_request q = True"

lemmas handler_facts = user_actions routing_actions rule_set_actions settings_actions delete_protocol_accounted
  toggle_protocol_accounted create_protocol_accounted update_protocol_accounted logout_accounted password_accounted

lemma page_accounted:
  "accounted S r csrf owner p (snd (setup_admin_page S r p))" "accounted S r csrf owner p (snd (login_page S r p))"
  "accounted S r csrf owner p (snd (admin_page S r title p))"
  by (rule accounted_looked, rule page_looked)+

lemma handle_allowed:
  assumes "session_request q" and "audited q"
  shows "allowed S r (form_token q) (owner_only q) p (snd (handle S Q A r q p))"
  using assms
  by (cases q) (auto simp: handle_def intro: accounted_allowed [OF handler_facts(1)] accounted_allowed handler_facts
      page_accounted entry_allowed source_allowed)

lemma handle_unlogged:
  assumes "\<not> audited q"
  shows "mild p (snd (handle S Q A r q p))
    \<and> (content (panel_db (snd (handle S Q A r q p))) = content (panel_db p)
       \<or> (\<exists>i. authorised S r (form_token q) (owner_only q) (panel_db p) i))"
  using assms theme_mild refresh_mild by (cases q) (auto simp: handle_def)

lemma handle_safe:
  assumes "stays q r (panel_db p)"
  shows "safe (panel_db p) (panel_db (snd (handle S Q A r q p)))"
proof -
  have acc: "accounted S r' csrf owner p p' \<Longrightarrow> safe (panel_db p) (panel_db p')" for r' csrf owner p'
    by (simp add: accounted_def)
  show ?thesis
  proof (cases "audited q")
    case False
    then show ?thesis using handle_unlogged [OF False, of p S Q A r] by (simp add: mild_def)
  next
    case True
    show ?thesis
    proof (cases q)
      case (Setup form)
      then show ?thesis by (cases S r form p rule: setup_cases) (simp_all add: handle_def)
    next
      case (Login form)
      then show ?thesis by (cases S r form p rule: login_cases) (simp_all add: handle_def entered_def)
    next
      case (Save_Entry csrf form)
      then show ?thesis using acc [OF entry_action [OF assms [unfolded Save_Entry]]] by (simp add: handle_def)
    next
      case (Save_Source csrf form)
      then show ?thesis using acc [OF source_action [OF assms [unfolded Save_Source]]] by (simp add: handle_def)
    qed (use True in \<open>auto simp: handle_def intro: acc handler_facts page_accounted\<close>)
  qed
qed

end
