(* ===== verification/Panel_Runs.thy ===== *)
theory Panel_Runs
  imports Panel_Requests
begin

text \<open>
  Runs of the panel: requests, the lifecycle checker, the scheduler of the rule sources, the startup of
  the routing tables and whatever leaves users, administrators and rules alone.
\<close>

definition apart :: "db \<Rightarrow> db" where
  "apart db = db\<lparr>db_pools := [], db_members := [], db_policy_rules := [], db_rule_sets := [], db_rule_entries := [],
     db_rule_sources := [], db_settings := [], db_bootstrap := [], db_dns := None\<rparr>"

lemma fold_keeps:
  assumes "\<And>x s. f (g x s) = f s"
  shows "f (fold g xs s) = f s"
  by (induction xs arbitrary: s) (simp_all add: assms)

lemma apart_simps [simp]:
  "apart (retarget_pool k db) = apart db" "apart (remove_pool_rows ks db) = apart db"
  "apart (drop_legacy_rule_set k db) = apart db" "apart (upsert_custom_direct c db) = apart db"
  "apart (insert_rule_set_if_missing s db) = apart db" "apart (db\<lparr>db_bootstrap := b\<rparr>) = apart db"
  "apart (db\<lparr>db_policy_rules := r\<rparr>) = apart db" "apart (ensure_default_dns_policy db) = apart db"
  "apart (ensure_default_client_policy db) = apart db"
  by (simp_all add: apart_def retarget_pool_def remove_pool_rows_def drop_legacy_rule_set_def drop_rule_set_def Let_def
      upsert_custom_direct_def insert_rule_set_if_missing_def ensure_default_dns_policy_def ensure_default_client_policy_def
      split: option.split)

lemma insert_default_apart: "insert_default_policy db = Inr db' \<Longrightarrow> apart db' = apart db"
  by (auto simp: insert_default_policy_def Let_def apart_def split: if_splits)

lemma bootstrap_apart:
  assumes "ensure_default_routing_rule_sets db = Inr db'"
  shows "apart db' = apart db"
proof -
  have "apart (bootstrap_client_routing db) = apart db"
    by (simp add: bootstrap_client_routing_def Let_def fold_keeps [of apart])
  then show ?thesis
    using assms
    by (auto simp: ensure_default_routing_rule_sets_def ensure_smart_auto_client_policy_def ensure_daily_routing_cleanup_def
        upgrade_once_def Let_def and_then_Inr_iff fold_keeps [of apart] dest!: insert_default_apart split: if_split_asm option.splits)
qed

lemma bootstrap_safe:
  assumes "ensure_default_routing_rule_sets db = Inr db'" and "no_legacy_values db"
  shows "safe db db'"
proof (rule safe_rules)
  have "rules_only (apart db) (apart db')" by (simp add: bootstrap_apart [OF assms(1)] rules_only_def)
  then show "rules_only db db'"
    by (simp add: rules_only_def admin_tables_def user_tables_def apart_def)
  show "rules_inv db \<Longrightarrow> rules_inv db'" by (rule bootstrap_inv [OF assms])
qed

subsection \<open>The background jobs\<close>

lemma publish_safe: "safe (ob_db w) (ob_db (snd (publish_and_acknowledge to_json io pr g w)))"
  by (auto simp: publish_and_acknowledge_def published_safe split: prod.splits sum.splits)

lemma evaluate_frame:
  assumes "evaluate_user_lifecycle scope op now db = Inr (e, db')"
  shows "users_only db db'"
proof -
  define T where "T db = (admin_tables db, rule_tables db)" for db
  have "T (checkpoint_evaluated now g x db) = T db" for g x db
    by (simp add: T_def checkpoint_evaluated_def split_def)
  then have "T (fold (checkpoint_evaluated now g) xs db) = T db" for g xs db
    by (rule fold_keeps)
  moreover have "T (raise_pending g db) = T db" for g db
    by (simp add: T_def raise_pending_def admin_tables_def rule_tables_def)
  moreover have "bump_desired_generation op now db = Inr (g, db1) \<Longrightarrow> T db1 = T db" for g db1
    by (drule bump_users_only) (simp add: T_def users_only_def)
  ultimately have "T db' = T db"
    using assms by (auto simp: evaluate_user_lifecycle_def Let_def and_then_Inr_iff split: if_splits)
  then show ?thesis by (simp add: T_def users_only_def)
qed

lemma checker_safe:
  assumes "evaluate_and_publish to_json io pr repair op now w = (res, w')"
  shows "safe (ob_db w) (ob_db w')"
proof (cases "evaluate_user_lifecycle (if repair then Repair else Deadlines) op now (ob_db w)")
  case (Inl e)
  then show ?thesis using assms by (simp add: evaluate_and_publish_def)
next
  case (Inr x)
  obtain e db where x: "x = (e, db)" by fastforce
  have "safe (ob_db w) db"
    by (rule safe_users [OF evaluate_frame, where op = "EvaluateLifecycle (if repair then Repair else Deadlines) op" and now = now])
      (use Inr x in \<open>auto simp: run_user_op_def no_result_def\<close>)
  moreover have "safe db (ob_db w')"
    using assms Inr x publish_safe [of "w\<lparr>ob_db := db\<rparr>" to_json io pr]
    by (auto simp: evaluate_and_publish_def publish_evaluation_def split: option.splits) (metis snd_conv)+
  ultimately show ?thesis by (rule safe_trans)
qed

lemma publish_admins: "admin_tables (ob_db (snd (publish_and_acknowledge to_json io pr g w))) = admin_tables (ob_db w)"
  using users_onlyD(1) [OF published_frame] by (auto simp: publish_and_acknowledge_def split: prod.splits sum.splits)

lemma checker_admins:
  assumes "evaluate_and_publish to_json io pr repair op now w = (res, w')"
  shows "admin_tables (ob_db w') = admin_tables (ob_db w)"
proof (cases "evaluate_user_lifecycle (if repair then Repair else Deadlines) op now (ob_db w)")
  case (Inl e)
  then show ?thesis using assms by (simp add: evaluate_and_publish_def)
next
  case (Inr x)
  obtain e db where x: "x = (e, db)" by fastforce
  have "admin_tables db = admin_tables (ob_db w)"
    using users_onlyD(1) [OF evaluate_frame] Inr x by blast
  then show ?thesis
    using assms Inr x publish_admins [of to_json io pr _ "w\<lparr>ob_db := db\<rparr>"]
    by (cases "le_pending e") (auto simp: evaluate_and_publish_def publish_evaluation_def, metis snd_conv)
qed

lemma scheduler_safe: "safe db (scheduled_round W take_chars seconds stamp now db)
    \<and> admin_tables (scheduled_round W take_chars seconds stamp now db) = admin_tables db"
proof -
  have "safe db (fold (\<lambda>s db. snd (snd (refresh_inner W take_chars (stamp (src_id s)) (src_id s) None now db))) ss db)
    \<and> admin_tables (fold (\<lambda>s db. snd (snd (refresh_inner W take_chars (stamp (src_id s)) (src_id s) None now db))) ss db)
      = admin_tables db" for ss
  proof (induction ss arbitrary: db)
    case (Cons s ss)
    obtain qs res db1 where "refresh_inner W take_chars (stamp (src_id s)) (src_id s) None now db = (qs, res, db1)"
      by (metis surj_pair)
    then show ?case using Cons refresh_safe safe_trans by fastforce
  qed simp
  then show ?thesis unfolding scheduled_round_def by blast
qed

subsection \<open>Runs\<close>

text \<open>
  The trace of the requests of a run. The adapters and the outside world may differ from one request
  to the next. A request on a rule entry or a source keeps it in its rule set.
\<close>

inductive panel_run :: "site \<Rightarrow> (nat \<Rightarrow> outside) \<Rightarrow> (nat \<Rightarrow> 'w adapters) \<Rightarrow> (arrival \<times> request) list \<Rightarrow> panel \<Rightarrow> bool"
  for S Q A where
  schema: "panel_db p = empty_db now \<Longrightarrow> pn_attempts p = [] \<Longrightarrow> panel_run S Q A [] p"
| request: "panel_run S Q A tr p \<Longrightarrow> handle S (Q (length tr)) (A (length tr)) r q p = (resp, p') \<Longrightarrow> stays q r (panel_db p) \<Longrightarrow>
    panel_run S Q A (tr @ [(r, q)]) p'"
| startup: "panel_run S Q A tr p \<Longrightarrow> ensure_default_routing_rule_sets (panel_db p) = Inr db \<Longrightarrow> no_legacy_values (panel_db p) \<Longrightarrow>
    panel_run S Q A tr (with_db db p)"
| checker: "panel_run S Q A tr p \<Longrightarrow> evaluate_and_publish to_json io pr repair op now (pn_box p) = (res, w) \<Longrightarrow>
    panel_run S Q A tr (p\<lparr>pn_box := w\<rparr>)"
| scheduler: "panel_run S Q A tr p \<Longrightarrow> panel_run S Q A tr (with_db (scheduled_round W take_chars seconds stamp now (panel_db p)) p)"
| elsewhere: "panel_run S Q A tr p \<Longrightarrow> frame_kept (panel_db p) db \<Longrightarrow> panel_run S Q A tr (with_db db p)"

definition all_inv :: "db \<Rightarrow> bool" where
  "all_inv db \<longleftrightarrow> users_reachable db \<and> admins_inv db \<and> rules_inv db"

lemma safe_all_inv: "safe db db' \<Longrightarrow> all_inv db \<Longrightarrow> all_inv db'"
  by (auto simp: safe_def all_inv_def intro: admin_steps_inv)

lemma panel_run_inv: "panel_run S Q A tr p \<Longrightarrow> all_inv (panel_db p)"
proof (induction rule: panel_run.induct)
  case (schema p now)
  then show ?case
    by (simp add: all_inv_def users_reachable.schema empty_admins_inv empty_rules_inv)
next
  case (request tr p r q resp p')
  then show ?case using handle_safe [OF request(3), of S "Q (length tr)" "A (length tr)"] safe_all_inv by (metis snd_conv)
next
  case (startup tr p db)
  then show ?case using safe_all_inv [OF bootstrap_safe [OF startup(2,3)] startup.IH] by simp
next
  case (checker tr p to_json io pr repair op now res w)
  then show ?case using checker_safe [OF checker(2)] safe_all_inv by (simp add: panel_db_def)
next
  case (scheduler tr p W take_chars seconds stamp now)
  then show ?case
    using safe_all_inv [OF conjunct1 [OF scheduler_safe [of "panel_db p" W take_chars seconds stamp now]] scheduler.IH] by simp
next
  case (elsewhere tr p db)
  then show ?case using safe_all_inv [OF safe_frame [OF elsewhere(2)] elsewhere.IH] by simp
qed

subsection \<open>Where sessions come from\<close>

text \<open>The request gave this session: a login that was let in, or the first setup.\<close>

definition gave_session :: "site \<Rightarrow> arrival \<Rightarrow> request \<Rightarrow> panel \<Rightarrow> string \<Rightarrow> bool" where
  "gave_session S r q p h \<longleftrightarrow> (\<exists>token. ar_session_token r = Inr token \<and> h = hash_session_token S token)
     \<and> ((\<exists>form. q = Login form \<and> let_in S form (panel_db p) \<and> \<not> throttled S r form p)
        \<or> (\<exists>form. q = Setup form \<and> db_admins (panel_db p) = [] \<and> setup_token_matches S (sf_setup_token form)))"

lemma new_session_given:
  assumes "handle S Q A r q p = (resp, p')" and "h \<in> session_hashes (panel_db p')" and "h \<notin> session_hashes (panel_db p)"
  shows "gave_session S r q p h"
proof -
  have res: "p' = snd (handle S Q A r q p)" using assms(1) by simp
  have "\<not> (session_request q \<and> audited q)"
    using handle_allowed [of q S r p Q A] assms(2,3) unfolding res allowed_def by blast
  moreover have "audited q"
    using handle_unlogged [of q p S Q A r] assms(2,3) unfolding res mild_def by blast
  ultimately have "\<not> session_request q" by blast
  then consider form where "q = Setup form" | form where "q = Login form" by (cases q) auto
  then show ?thesis
  proof cases
    case 1
    show ?thesis
    proof (cases S r form p rule: setup_cases)
      case same
      then show ?thesis using assms(2,3) 1 by (simp add: res handle_def)
    next
      case created
      then show ?thesis using assms(2,3) 1 by (auto simp: res handle_def gave_session_def)
    qed
  next
    case 2
    show ?thesis
    proof (cases S r form p rule: login_cases)
      case same
      then show ?thesis using assms(2,3) 2 by (simp add: res handle_def)
    next
      case (entered q)
      then show ?thesis using assms(2,3) 2 by (auto simp: res handle_def gave_session_def entered_def)
    qed
  qed
qed

lemma session_given_in_run:
  assumes "panel_run S Q A tr p" and "h \<in> session_hashes (panel_db p)"
  shows "\<exists>before r q after p0. tr = before @ (r, q) # after \<and> panel_run S Q A before p0 \<and> gave_session S r q p0 h"
  using assms
proof (induction rule: panel_run.induct)
  case (schema p now)
  then show ?case by (simp add: session_hashes_def empty_db_def)
next
  case (request tr p r q resp p')
  show ?case
  proof (cases "h \<in> session_hashes (panel_db p)")
    case True
    then obtain before r' q' rest p0 where "tr = before @ (r', q') # rest" "panel_run S Q A before p0" "gave_session S r' q' p0 h"
      using request.IH by blast
    then have "tr @ [(r, q)] = before @ (r', q') # (rest @ [(r, q)])" by simp
    then show ?thesis using \<open>panel_run S Q A before p0\<close> \<open>gave_session S r' q' p0 h\<close> by blast
  next
    case False
    have "gave_session S r q p h" by (rule new_session_given [OF request(2) request.prems False])
    then show ?thesis using request(1) by blast
  qed
next
  case (startup tr p db)
  have "admin_tables db = admin_tables (panel_db p)"
    using arg_cong [OF bootstrap_apart [OF startup(2)], of admin_tables] by (simp add: apart_def admin_tables_def)
  from hashes_kept [OF this] show ?case using startup.IH startup.prems by simp
next
  case (checker tr p to_json io pr repair op now res w)
  have "session_hashes (ob_db w) = session_hashes (panel_db p)"
    using hashes_kept [OF checker_admins [OF checker(2)]] by (simp add: panel_db_def)
  then show ?case using checker.IH checker.prems by (simp add: panel_db_def)
next
  case (scheduler tr p W take_chars seconds stamp now)
  then show ?case using hashes_kept [OF conjunct2 [OF scheduler_safe]] by simp
next
  case (elsewhere tr p db)
  then show ?case using hashes_kept [of db "panel_db p"] by (simp add: frame_kept_def)
qed

end
