(* ===== verification/Login_Limits.thy ===== *)
theory Login_Limits
  imports Panel_Steps
begin

text \<open>
  The rate limiter over sequences of login attempts: within one window a source is answered with at
  most five failures, and from then on refused before its password is looked at.
\<close>

fun logins :: "site \<Rightarrow> (arrival \<times> login_form) list \<Rightarrow> panel \<Rightarrow> response list \<times> panel" where
  "logins S [] p = ([], p)"
| "logins S ((r, form) # xs) p = (case login_action S r form p of (resp, p1) \<Rightarrow>
     (case logins S xs p1 of (resps, p2) \<Rightarrow> (resp # resps, p2)))"

definition failures :: "response list \<Rightarrow> nat" where
  "failures resps = length (filter (\<lambda>x. x = login_failed_response) resps)"

subsection \<open>The table of attempts\<close>

lemma prune_wf: "bt_wf m \<Longrightarrow> bt_wf (prune_login_attempts tick m)"
  by (induction m) (auto simp: prune_login_attempts_def bt_wf_Cons)

lemma prune_length: "length (prune_login_attempts tick m) \<le> length m"
  by (simp add: prune_login_attempts_def)

lemma prune_get:
  assumes "bt_wf m"
  shows "bt_get (prune_login_attempts tick m) k
    = Option.bind (bt_get m k) (\<lambda>a. if in_window tick a then Some a else None)"
  using assms
proof (induction m)
  case (Cons e m)
  obtain a b where e: "e = (a, b)" by (cases e)
  have "bt_get m a = None" "bt_wf m" using Cons.prems by (auto simp: e bt_wf_Cons bt_get_None)
  then show ?case using Cons.IH by (cases "k = a") (auto simp: e prune_login_attempts_def)
qed (simp add: prune_login_attempts_def)

lemma insert_length: "length (bt_insert k v m) \<le> Suc (length m)"
  by (induction k v m rule: bt_insert.induct) auto

lemma count_wf: "bt_wf m \<Longrightarrow> bt_wf (count_failure tick k m)"
  by (simp add: count_failure_def Let_def bt_wf_insert)

lemma count_length: "length (count_failure tick k m) \<le> Suc (length m)"
  by (simp add: count_failure_def Let_def insert_length)

lemma count_other: "j \<noteq> k \<Longrightarrow> bt_get (count_failure tick j m) k = bt_get m k"
  by (simp add: count_failure_def Let_def bt_get_insert)

text \<open>\<open>n\<close> failures counted for a key since \<open>t0\<close>.\<close>

definition counted :: "string \<Rightarrow> int \<Rightarrow> nat \<Rightarrow> (string, login_attempt) btmap \<Rightarrow> bool" where
  "counted k t0 n m \<longleftrightarrow> (case bt_get m k of
       None \<Rightarrow> n = 0
     | Some a \<Rightarrow> 0 < n \<and> la_failures a = of_nat n \<and> t0 \<le> la_started a)"

lemma still_in_window: "t0 \<le> la_started a \<Longrightarrow> tick < t0 + LOGIN_RATE_LIMIT_WINDOW \<Longrightarrow> in_window tick a"
  by (simp add: in_window_def)

lemma counted_prune:
  "bt_wf m \<Longrightarrow> counted k t0 n m \<Longrightarrow> tick < t0 + LOGIN_RATE_LIMIT_WINDOW \<Longrightarrow> counted k t0 n (prune_login_attempts tick m)"
  by (auto simp: counted_def prune_get still_in_window split: option.splits)

lemma counted_once:
  assumes "counted k t0 n m" and "n < 5" and "t0 \<le> tick" and "tick < t0 + LOGIN_RATE_LIMIT_WINDOW"
    and "length m < LOGIN_RATE_LIMIT_MAX_KEYS"
  shows "counted k t0 (Suc n) (count_failure tick k m)"
proof -
  have "(of_nat n :: u32) \<noteq> - 1" 
  proof -
    have "n = 0 \<or> n = 1 \<or> n = 2 \<or> n = 3 \<or> n = 4" using assms(2) by linarith
    then show ?thesis by (elim disjE) simp_all
  qed
  moreover have "in_window tick \<lparr>la_failures = x, la_started = tick\<rparr>" for x
    by (simp add: in_window_def LOGIN_RATE_LIMIT_WINDOW_def minutes_def SECOND_def)
  ultimately show ?thesis
    using assms still_in_window [OF _ assms(4)]
    by (auto simp: counted_def count_failure_def Let_def bt_get_insert split: option.splits)
qed

lemma counted_record:
  assumes "bt_wf m" and "counted k t0 n m" and "n < 5" and "t0 \<le> tick" and "tick < t0 + LOGIN_RATE_LIMIT_WINDOW"
    and "length m + 2 \<le> LOGIN_RATE_LIMIT_MAX_KEYS" and "k \<in> {k1, k2}" and "k1 \<noteq> k2"
  shows "counted k t0 (Suc n) (record_failure [k1, k2] tick m) \<and> bt_wf (record_failure [k1, k2] tick m)
    \<and> length (record_failure [k1, k2] tick m) \<le> length m + 2"
proof -
  let ?m = "prune_login_attempts tick m"
  have c: "counted k t0 n ?m" "bt_wf ?m" "length ?m \<le> length m"
    using assms(1,2,5) counted_prune prune_wf prune_length by blast+
  have len: "length (count_failure tick k1 ?m) < LOGIN_RATE_LIMIT_MAX_KEYS"
    using count_length [of tick k1 ?m] c(3) assms(6) by linarith
  have "counted k t0 (Suc n) (count_failure tick k2 (count_failure tick k1 ?m))"
  proof (cases "k = k1")
    case True
    have "counted k t0 (Suc n) (count_failure tick k1 ?m)"
      using counted_once [OF c(1) assms(3-5)] c(3) assms(6) True by simp
    then show ?thesis using assms(8) True by (simp add: counted_def count_other)
  next
    case False
    then have "k = k2" "counted k t0 n (count_failure tick k1 ?m)"
      using assms(7) c(1) by (auto simp: counted_def count_other)
    then show ?thesis using counted_once [OF _ assms(3-5)] len by blast
  qed
  then show ?thesis
    using c count_wf count_length [of tick k1 ?m] count_length [of tick k2 "count_failure tick k1 ?m"]
    by (auto simp: record_failure_def intro: count_wf)
qed

lemma retry_after_blocked:
  assumes "bt_wf m" and "counted k t0 5 m" and "tick < t0 + LOGIN_RATE_LIMIT_WINDOW" and "k \<in> set keys"
  shows "fst (retry_after keys tick m) \<noteq> None"
proof -
  obtain a where a: "bt_get (prune_login_attempts tick m) k = Some a" "la_failures a = 5"
    using counted_prune [OF assms(1-3)] by (auto simp: counted_def split: option.splits)
  have "Option.bind (bt_get (prune_login_attempts tick m) k) (blocked_for tick) \<noteq> None"
    by (simp add: a blocked_for_def LOGIN_RATE_LIMIT_MAX_FAILURES_def)
  then have "List.map_filter (\<lambda>k. Option.bind (bt_get (prune_login_attempts tick m) k) (blocked_for tick)) keys \<noteq> []"
    using assms(4) by (auto simp: map_filter_def filter_empty_conv)
  then show ?thesis by (simp add: retry_after_def Let_def)
qed

subsection \<open>One attempt\<close>

lemma keys_pair:
  obtains k1 k2 where "login_rate_limit_keys S r name = [k1, k2]" "k1 \<noteq> k2"
  by (auto simp: login_rate_limit_keys_def Let_def)

lemma wrong_password:
  assumes "\<not> let_in S form (panel_db p)" and "login_action S r form p = (resp, p')"
  defines "keys \<equiv> login_rate_limit_keys S r (lf_username form)"
  shows "panel_db p' = panel_db p
    \<and> (resp = login_failed_response \<and> admin_count (panel_db p) \<noteq> 0 \<and> fst (retry_after keys (ar_tick r) (pn_attempts p)) = None
         \<and> pn_attempts p' = record_failure keys (ar_tick r) (prune_login_attempts (ar_tick r) (pn_attempts p))
       \<or> resp \<noteq> login_failed_response
         \<and> (pn_attempts p' = pn_attempts p \<or> pn_attempts p' = prune_login_attempts (ar_tick r) (pn_attempts p)))"
proof -
  obtain wait where w: "retry_after keys (ar_tick r) (pn_attempts p) = (wait, prune_login_attempts (ar_tick r) (pn_attempts p))"
    by (simp add: retry_after_def Let_def)
  have "verify_password_limited S r (lf_password form) (ad_password_hash a) \<noteq> Inr (Some True)"
    if "get_admin_by_username (lf_username form) (panel_db p) = Some a" for a
    using that assms(1)
    by (auto simp: let_in_def verify_password_limited_def and_then_Inr_iff get_admin_by_username_def find_Some_iff
        split: if_splits)
  then show ?thesis
    using assms(2) w
    by (auto simp: login_action_def Let_def keys_def login_failure_def login_failed_response_def rate_limited_response_def
        internal_error_def password_workers_busy_response_def split: if_split_asm option.splits sum.splits bool.splits)
qed

subsection \<open>Sequences of attempts\<close>

lemma logins_throttled:
  assumes "logins S xs p = (resps, p')" and "bt_wf (pn_attempts p)" and "counted k t0 n (pn_attempts p)" and "n \<le> 5"
    and "length (pn_attempts p) + 2 * length xs \<le> LOGIN_RATE_LIMIT_MAX_KEYS"
    and "\<And>r form. (r, form) \<in> set xs \<Longrightarrow> k \<in> set (login_rate_limit_keys S r (lf_username form)) \<and> t0 \<le> ar_tick r
      \<and> ar_tick r < t0 + LOGIN_RATE_LIMIT_WINDOW \<and> \<not> let_in S form (panel_db p)"
  shows "n + failures resps \<le> 5 \<and> counted k t0 (n + failures resps) (pn_attempts p') \<and> bt_wf (pn_attempts p')
    \<and> panel_db p' = panel_db p \<and> (0 < failures resps \<longrightarrow> admin_count (panel_db p) \<noteq> 0)"
  using assms
proof (induction S xs p arbitrary: n resps rule: logins.induct)
  case (1 S p)
  then show ?case by (simp add: failures_def)
next
  case (2 S r form xs p)
  obtain resp p1 where l: "login_action S r form p = (resp, p1)" by fastforce
  obtain resps' where rs: "logins S xs p1 = (resps', p')" "resps = resp # resps'"
    using "2.prems"(1) l by (auto split: prod.splits)
  let ?keys = "login_rate_limit_keys S r (lf_username form)"
  let ?m = "pn_attempts p" let ?pruned = "prune_login_attempts (ar_tick r) ?m"
  have here: "k \<in> set ?keys" "t0 \<le> ar_tick r" "ar_tick r < t0 + LOGIN_RATE_LIMIT_WINDOW" "\<not> let_in S form (panel_db p)"
    using "2.prems"(6) by auto
  note pruned = prune_wf [OF "2.prems"(2), of "ar_tick r"] counted_prune [OF "2.prems"(2,3) here(3)] prune_length [of "ar_tick r" ?m]
  from wrong_password [OF here(4) l] have db: "panel_db p1 = panel_db p" by blast
  from wrong_password [OF here(4) l] show ?case
  proof (elim conjE disjE)
    assume failed: "resp = login_failed_response" and count: "admin_count (panel_db p) \<noteq> 0"
      and free: "fst (retry_after ?keys (ar_tick r) ?m) = None"
      and m: "pn_attempts p1 = record_failure ?keys (ar_tick r) ?pruned"
    have n: "n < 5" using retry_after_blocked [OF "2.prems"(2) _ here(3,1)] free "2.prems"(3,4) by (cases "n = 5") auto
    obtain k1 k2 where k: "?keys = [k1, k2]" "k1 \<noteq> k2" by (rule keys_pair)
    have len: "length ?pruned + 2 \<le> LOGIN_RATE_LIMIT_MAX_KEYS" using pruned(3) "2.prems"(5) by simp
    have rec: "counted k t0 (Suc n) (pn_attempts p1)" "bt_wf (pn_attempts p1)" "length (pn_attempts p1) \<le> length ?pruned + 2"
      using counted_record [OF pruned(1,2) n here(2,3) len, of k1 k2] here(1) k m by auto
    have "Suc n + failures resps' \<le> 5 \<and> counted k t0 (Suc n + failures resps') (pn_attempts p') \<and> bt_wf (pn_attempts p')
        \<and> panel_db p' = panel_db p1 \<and> (0 < failures resps' \<longrightarrow> admin_count (panel_db p1) \<noteq> 0)"
      by (rule "2.IH" [OF l [symmetric] rs(1) rec(2,1)]) (use n rec(3) pruned(3) "2.prems"(5,6) db in auto)
    then show ?thesis using failed count db by (simp add: rs failures_def)
  next
    assume other: "resp \<noteq> login_failed_response" and m: "pn_attempts p1 = ?m"
    have "n + failures resps' \<le> 5 \<and> counted k t0 (n + failures resps') (pn_attempts p') \<and> bt_wf (pn_attempts p')
        \<and> panel_db p' = panel_db p1 \<and> (0 < failures resps' \<longrightarrow> admin_count (panel_db p1) \<noteq> 0)"
      by (rule "2.IH" [OF l [symmetric] rs(1)]) (use m "2.prems" db in auto)
    then show ?thesis using other db by (simp add: rs failures_def)
  next
    assume other: "resp \<noteq> login_failed_response" and m: "pn_attempts p1 = ?pruned"
    have "n + failures resps' \<le> 5 \<and> counted k t0 (n + failures resps') (pn_attempts p') \<and> bt_wf (pn_attempts p')
        \<and> panel_db p' = panel_db p1 \<and> (0 < failures resps' \<longrightarrow> admin_count (panel_db p1) \<noteq> 0)"
      by (rule "2.IH" [OF l [symmetric] rs(1)]) (use m pruned "2.prems" db in auto)
    then show ?thesis using other db by (simp add: rs failures_def)
  qed
qed

lemma blocked_login:
  assumes "fst (retry_after (login_rate_limit_keys S r (lf_username form)) (ar_tick r) (pn_attempts p)) \<noteq> None"
    and "admin_count (panel_db p) \<noteq> 0"
  shows "\<exists>wait. fst (login_action S r form p) = rate_limited_response wait \<and> panel_db (snd (login_action S r form p)) = panel_db p"
  using assms by (auto simp: login_action_def Let_def split: prod.splits)

end
