(* ===== verification/Revocation.thy ===== *)
theory Revocation
  imports Panel_Requests
begin

text \<open>
  Taking access away: what the deletion, the deactivation and the token reset of a user leave of the
  old subscription address.
\<close>

fun revokes :: "request \<Rightarrow> arrival \<Rightarrow> user_record \<Rightarrow> bool" where
  "revokes (Delete_User csrf i) r u \<longleftrightarrow> us_id u = i"
| "revokes (Reset_Token csrf i) r u \<longleftrightarrow> us_id u = i \<and> ar_user_token r \<noteq> us_token u"
| "revokes (Toggle_User csrf i) r u \<longleftrightarrow> us_id u = i \<and> us_enabled u"
| "revokes q r u \<longleftrightarrow> False"

lemma users_of_tables: "user_tables db' = user_tables db \<Longrightarrow> db_users db' = db_users db"
  by (simp add: user_tables_def)

lemma audit_user_users: "audit_user e k now db = Inr (x, db') \<Longrightarrow> db_users db' = db_users db"
  by (drule audit_user_frame) (simp add: frame_def user_tables_def)

lemma bump_if_users: "bump_if c op now db = Inr (g, db') \<Longrightarrow> db_users db' = db_users db"
  by (auto simp: bump_if_def and_then_Inr_iff frame_def user_tables_def split: if_splits dest!: bump_frame)

lemma checkpoint_users [simp]: "db_users (upsert_user_lifecycle_checkpoint u st t g db) = db_users db"
  by (simp add: upsert_user_lifecycle_checkpoint_def)

lemma update_users_users: "update_users P f db = Inr (n, db') \<Longrightarrow> db_users db' = map (\<lambda>v. if P v then f v else v) (db_users db)"
  by (auto simp: update_users_def Let_def split: if_splits)

lemma deleted_users:
  "delete_user_inner i e op now db = Inr (x, db') \<Longrightarrow> db_users db' = filter (\<lambda>v. us_id v \<noteq> i) (db_users db)"
  by (auto simp: delete_user_inner_def delete_users_def Let_def and_then_Inr_iff split: if_split_asm
      dest!: audit_user_users bump_if_users)

lemma reset_users:
  assumes "reset_user_subscription_token_inner i e token now db = Inr (x, db')"
  shows "\<exists>t. db_users db' = map (\<lambda>v. if us_id v = i then v\<lparr>us_token := token, us_updated := t\<rparr> else v) (db_users db)"
  using assms
  by (auto simp: reset_user_subscription_token_inner_def Let_def and_then_Inr_iff split: if_split_asm
      dest!: audit_user_users update_users_users)

lemma toggled_users:
  assumes "set_user_enabled_inner i b e op now db = Inr (x, db')"
  shows "\<exists>t. db_users db' = map (\<lambda>v. if us_id v = i then v\<lparr>us_enabled := b, us_updated := t\<rparr> else v) (db_users db)"
  using assms
  by (auto simp: set_user_enabled_inner_def Let_def and_then_Inr_iff split: if_split_asm
      dest!: audit_user_users bump_if_users update_users_users)

lemma content_users: "content db' = content db \<Longrightarrow> db_users db' = db_users db"
  by (drule arg_cong [of _ _ db_users]) (simp add: content_def)

lemma granted_users_page:
  assumes "admin_action S r csrf owner body p = (See_Other ''/admin/users'' [], p')"
  shows "\<exists>auth p1. db_users (panel_db p1) = db_users (panel_db p) \<and> body auth p1 = (See_Other ''/admin/users'' [], p')"
proof -
  obtain who p1 where c: "current_admin S r p = (who, p1)" by fastforce
  have "db_users (panel_db p1) = db_users (panel_db p)"
    using current_admin_looked [OF c] by (intro content_users) (simp add: looked_def)
  then show ?thesis
    using assms
    by (cases who) (auto simp: admin_action_def require_admin_def c csrf_error_response_def owner_only_response_def split: if_split_asm)
qed

lemma commit_users:
  assumes "commit tx (\<lambda>_. Failure n title) k p = (See_Other l cs, p')" and "quiet k"
  shows "\<exists>x db. tx (panel_db p) = Inr (x, db) \<and> db_users (panel_db p') = db_users db"
proof -
  from assms(1) obtain x db where tx: "tx (panel_db p) = Inr (x, db)" and k: "k x (with_db db p) = (See_Other l cs, p')"
    by (auto simp: commit_def split: sum.splits)
  have "content (panel_db (snd (k x (with_db db p)))) = content (panel_db (with_db db p))"
    using assms(2) by (simp add: quiet_def)
  from content_users [OF this] show ?thesis using tx k by simp
qed

text \<open>The transaction behind a revocation that was answered with the list of users.\<close>

lemma revocation_users:
  assumes "handle S Q A r q p = (See_Other ''/admin/users'' [], p')" and "revokes q r u" and "u \<in> set (db_users (panel_db p))"
    and "distinct (map us_id (db_users (panel_db p)))"
  shows "db_users (panel_db p') = filter (\<lambda>v. us_id v \<noteq> us_id u) (db_users (panel_db p))
    \<or> (\<exists>t token. token \<noteq> us_token u \<and> db_users (panel_db p')
         = map (\<lambda>v. if us_id v = us_id u then v\<lparr>us_token := token, us_updated := t\<rparr> else v) (db_users (panel_db p)))
    \<or> (\<exists>t. db_users (panel_db p')
         = map (\<lambda>v. if us_id v = us_id u then v\<lparr>us_enabled := False, us_updated := t\<rparr> else v) (db_users (panel_db p)))"
proof -
  consider csrf where "q = Delete_User csrf (us_id u)"
    | csrf where "q = Reset_Token csrf (us_id u)" "ar_user_token r \<noteq> us_token u"
    | csrf where "q = Toggle_User csrf (us_id u)" "us_enabled u"
    using assms(2) by (cases q) auto
  then show ?thesis
  proof cases
    case 1
    from assms(1) have "delete_user_action S r csrf (us_id u) p = (See_Other ''/admin/users'' [], p')"
      by (simp add: handle_def 1)
    from granted_users_page [OF this [unfolded delete_user_action_def]] obtain auth p1 where
      p1: "db_users (panel_db p1) = db_users (panel_db p)"
      "commit (delete_user_inner (us_id u) (Some (user_event auth UserDeleted (show_int (us_id u)) metadata_none)) (ar_operation r) (ar_now r))
         (\<lambda>_. Failure 500 ''Delete user failed'') (users_redirect S r) p1 = (See_Other ''/admin/users'' [], p')"
      by blast
    from commit_users [OF p1(2) quiet_intro(1)] obtain x db where
      "delete_user_inner (us_id u) (Some (user_event auth UserDeleted (show_int (us_id u)) metadata_none)) (ar_operation r) (ar_now r)
         (panel_db p1) = Inr (x, db)" "db_users (panel_db p') = db_users db" by blast
    from deleted_users [OF this(1)] this(2) show ?thesis by (simp add: p1(1))
  next
    case 2
    from assms(1) have "reset_user_token_action S r csrf (us_id u) p = (See_Other ''/admin/users'' [], p')"
      by (simp add: handle_def 2)
    from granted_users_page [OF this [unfolded reset_user_token_action_def]] obtain auth p1 where
      p1: "db_users (panel_db p1) = db_users (panel_db p)"
      "commit (reset_user_subscription_token_inner (us_id u)
         (Some (user_event auth UserSubscriptionTokenReset (show_int (us_id u)) metadata_none)) (ar_user_token r) (ar_now r))
       (\<lambda>_. Failure 500 ''Reset token failed'') (\<lambda>_ p. (See_Other ''/admin/users'' [], p)) p1 = (See_Other ''/admin/users'' [], p')"
      by blast
    from commit_users [OF p1(2) quiet_intro(5)] obtain x db where
      "reset_user_subscription_token_inner (us_id u)
         (Some (user_event auth UserSubscriptionTokenReset (show_int (us_id u)) metadata_none)) (ar_user_token r) (ar_now r)
         (panel_db p1) = Inr (x, db)" "db_users (panel_db p') = db_users db" by blast
    from reset_users [OF this(1)] this(2) show ?thesis using 2(2) by (auto simp: p1(1))
  next
    case 3
    from assms(1) have "toggle_user_action S r csrf (us_id u) p = (See_Other ''/admin/users'' [], p')"
      by (simp add: handle_def 3)
    from granted_users_page [OF this [unfolded toggle_user_action_def]] obtain auth p1 where
      p1: "db_users (panel_db p1) = db_users (panel_db p)"
      and act: "(case user_by_id (us_id u) (panel_db p1) of
         None \<Rightarrow> (Failure 404 ''User not found'', p1)
       | Some u' \<Rightarrow>
         let enabled = (\<not> us_enabled u') in
         commit (set_user_enabled_inner (us_id u) enabled
             (Some (user_event auth (if enabled then UserEnabled else UserDisabled) (show_int (us_id u)) (metadata_enabled enabled)))
             (ar_operation r) (ar_now r))
           (\<lambda>_. Failure 500 ''Toggle user failed'') (users_redirect S r) p1) = (See_Other ''/admin/users'' [], p')"
      by blast
    have found: "user_by_id (us_id u) (panel_db p1) = Some u"
      using assms(3,4) find_unique [of us_id "db_users (panel_db p)" "us_id u" "\<lambda>_. True"]
      by (simp add: user_by_id_def p1)
    have com: "commit (set_user_enabled_inner (us_id u) False
             (Some (user_event auth UserDisabled (show_int (us_id u)) (metadata_enabled False))) (ar_operation r) (ar_now r))
           (\<lambda>_. Failure 500 ''Toggle user failed'') (users_redirect S r) p1 = (See_Other ''/admin/users'' [], p')"
      using act by (simp add: found 3(2))
    from commit_users [OF com quiet_intro(1)] obtain x db where
      "set_user_enabled_inner (us_id u) False
             (Some (user_event auth UserDisabled (show_int (us_id u)) (metadata_enabled False))) (ar_operation r) (ar_now r)
         (panel_db p1) = Inr (x, db)" "db_users (panel_db p') = db_users db" by blast
    from toggled_users [OF this(1)] this(2) show ?thesis by (auto simp: p1)
  qed
qed

text \<open>The subscription answers by the users alone when it refuses.\<close>

lemma unknown_token_refused:
  assumes "\<forall>v \<in> set (db_users db). us_token v \<noteq> token"
  shows "mihomo_subscription to_yaml Q A now token db = Served 401 [] ''invalid subscription token''"
proof -
  have "List.find (\<lambda>u. us_token u = token) (db_users db) = None" using assms by (simp add: find_None_iff)
  then show ?thesis by (simp add: mihomo_subscription_def get_user_by_token_def ok_or_def)
qed

lemma disabled_refused:
  assumes "\<forall>v \<in> set (db_users db). us_token v = token \<longrightarrow> \<not> us_enabled v" and "\<exists>v \<in> set (db_users db). us_token v = token"
  shows "mihomo_subscription to_yaml Q A now token db = Served 403 [] ''subscription unavailable''"
proof -
  obtain v where v: "List.find (\<lambda>u. us_token u = token) (db_users db) = Some v"
    using assms(2) by (cases "List.find (\<lambda>u. us_token u = token) (db_users db)") (auto simp: find_None_iff)
  then have "\<not> us_enabled v" using assms(1) by (auto simp: find_Some_iff)
  then show ?thesis
    using v by (simp add: mihomo_subscription_def get_user_by_token_def ok_or_def subscription_block_reason_def
        access_state_at_def access_evaluate_def access_allowed_def)
qed

lemma same_user_by_token: "users_unique us \<Longrightarrow> u \<in> set us \<Longrightarrow> v \<in> set us \<Longrightarrow> us_token v = us_token u \<Longrightarrow> v = u"
  by (auto simp: users_unique_def distinct_map inj_on_def)

lemma revoked_refused:
  assumes "users_inv (panel_db p)" and "u \<in> set (db_users (panel_db p))" and "revokes q r u"
    and "handle S Q A r q p = (See_Other ''/admin/users'' [], p')"
  shows "\<exists>status body. mihomo_subscription to_yaml Q' A' now (us_token u) (panel_db p') = Served status [] body
    \<and> (status = 401 \<or> status = 403)"
proof -
  have ok: "distinct (map us_id (db_users (panel_db p)))" "users_unique (db_users (panel_db p))"
    using assms(1) by (auto simp: users_inv_def users_ok_def)
  note same = same_user_by_token [OF ok(2) assms(2)]
  from revocation_users [OF assms(4,3,2) ok(1)] show ?thesis
  proof (elim disjE exE conjE)
    assume "db_users (panel_db p') = filter (\<lambda>v. us_id v \<noteq> us_id u) (db_users (panel_db p))"
    then have "\<forall>v \<in> set (db_users (panel_db p')). us_token v \<noteq> us_token u" using same by auto
    from unknown_token_refused [OF this] show ?thesis by blast
  next
    fix t token assume "token \<noteq> us_token u" and "db_users (panel_db p')
      = map (\<lambda>v. if us_id v = us_id u then v\<lparr>us_token := token, us_updated := t\<rparr> else v) (db_users (panel_db p))"
    then have "\<forall>v \<in> set (db_users (panel_db p')). us_token v \<noteq> us_token u" using same by auto
    from unknown_token_refused [OF this] show ?thesis by blast
  next
    fix t assume us: "db_users (panel_db p')
      = map (\<lambda>v. if us_id v = us_id u then v\<lparr>us_enabled := False, us_updated := t\<rparr> else v) (db_users (panel_db p))"
    have "\<forall>v \<in> set (db_users (panel_db p')). us_token v = us_token u \<longrightarrow> \<not> us_enabled v" using same by (auto simp: us)
    moreover have "\<exists>v \<in> set (db_users (panel_db p')). us_token v = us_token u"
      by (rule bexI [of _ "u\<lparr>us_enabled := False, us_updated := t\<rparr>"]) (use assms(2) in \<open>auto simp: us intro!: image_eqI [of _ _ u]\<close>)
    ultimately show ?thesis using disabled_refused by blast
  qed
qed

end
