(* ===== verification/Panel_Claims.thy ===== *)
theory Panel_Claims
  imports Panel_Runs Login_Limits Revocation Source_Claims
begin

text \<open>
  The properties of the panel as a whole: who may change anything, where sessions come from, what every
  run keeps, what the rate limiter guarantees, what a revocation takes away. The sample site at the
  top serves the witnesses.
\<close>

subsection \<open>A small site\<close>

definition small_site :: site where
  "small_site = \<lparr>si_cookie_secure = True, si_setup_token = ''0123456789abcdef0123456789abcdef'',
     si_digest = (\<lambda>s. ''digest of '' @ s), si_cookie = split_once (CHR ''=''), si_hash = (\<lambda>s. Ok (s @ '' hashed'')),
     si_verify = (\<lambda>s h. Ok (h = s @ '' hashed'')), si_ip = (\<lambda>_. None), si_take_chars = take, si_rfc3339 = (\<lambda>_. None),
     si_request_json = (\<lambda>_. Err ''the disk is full'')\<rparr>"

definition small_outside :: outside where
  "small_outside = \<lparr>ou_codec = plain_codec, ou_web = small_web 0x01010101, ou_stamp = ''now'', ou_yaml = (\<lambda>_. Ok [])\<rparr>"

definition no_adapters :: "unit adapters" where
  "no_adapters = \<lparr>ad_protocols = [], ad_cores = [], ad_world = (), ad_fields = (\<lambda>_. []), ad_server_only = (\<lambda>_ _. Ok [])\<rparr>"

definition visit :: "int \<Rightarrow> string option \<Rightarrow> string \<Rightarrow> arrival" where
  "visit now cookies token = \<lparr>ar_now = now, ar_tick = now, ar_cookies = cookies, ar_real_ip = None, ar_peer = ''198.51.100.7'',
     ar_peer_loopback = False, ar_worker_free = True, ar_session_token = Ok token, ar_uuid = ''uuid-'' @ token,
     ar_user_token = ''user-'' @ token, ar_operation = ''op-'' @ token, ar_fresh = (\<lambda>_. ''fresh''),
     ar_io = (\<lambda>_. Err ''no disk''), ar_process = \<lparr>pr_uid = 1000, pr_umask = 0, pr_suffix = ''x''\<rparr>\<rparr>"

definition panel_of :: "db \<Rightarrow> panel" where
  "panel_of db = \<lparr>pn_box = \<lparr>ob_db = db, ob_dir = \<lparr>dr_is_dir = True, dr_uid = 1000, dr_mode = 448, dr_files = []\<rparr>\<rparr>, pn_attempts = []\<rparr>"

definition small_handle :: "arrival \<Rightarrow> request \<Rightarrow> panel \<Rightarrow> response \<times> panel" where
  "small_handle = handle small_site small_outside no_adapters"

definition first_setup :: request where
  "first_setup = Setup \<lparr>sf_setup_token = ''0123456789abcdef0123456789abcdef'', sf_username = ''root'',
     sf_password = ''correct horse'', sf_password_confirm = ''correct horse''\<rparr>"

definition root_cookie :: "string option" where
  "root_cookie = Some ''infiproxy_admin_session=t1''"

definition root_csrf :: string where
  "root_csrf = csrf_token_for_session_token small_site ''t1''"

definition new_alice :: request where
  "new_alice = Create_User root_csrf \<lparr>cf_username = ''alice'', cf_traffic_limit_gb = [], cf_expires_in_days = []\<rparr>"

definition panel_root :: panel where
  "panel_root = snd (small_handle (visit 10 None ''t1'') first_setup (panel_of (empty_db 0)))"

definition panel_alice :: panel where
  "panel_alice = snd (small_handle (visit 20 root_cookie ''t2'') new_alice panel_root)"

lemma root_here: "map ad_username (db_admins (panel_db panel_root)) = [''root'']"
  "map se_token_hash (db_sessions (panel_db panel_root)) = [''digest of t1'']"
  by code_simp+

lemma alice_here: "map us_username (db_users (panel_db panel_alice)) = [''alice'']"
  "map us_token (db_users (panel_db panel_alice)) = [''user-t2'']"
  by code_simp+

lemma panel_runs:
  "panel_run small_site (\<lambda>_. small_outside) (\<lambda>_. no_adapters) [(visit 10 None ''t1'', first_setup)] panel_root"
  "panel_run small_site (\<lambda>_. small_outside) (\<lambda>_. no_adapters)
     [(visit 10 None ''t1'', first_setup), (visit 20 root_cookie ''t2'', new_alice)] panel_alice"
proof -
  have none: "panel_run small_site (\<lambda>_. small_outside) (\<lambda>_. no_adapters) [] (panel_of (empty_db 0))"
    by (rule panel_run.schema [of _ 0]) (simp_all add: panel_db_def panel_of_def)
  have step: "panel_run small_site (\<lambda>_. small_outside) (\<lambda>_. no_adapters) (tr @ [(r, q)]) (snd (small_handle r q p))"
    if "panel_run small_site (\<lambda>_. small_outside) (\<lambda>_. no_adapters) tr p" and "stays q r (panel_db p)" for tr p r q
    using panel_run.request [OF that(1) _ that(2)] by (simp add: small_handle_def prod_eq_iff)
  show one: "panel_run small_site (\<lambda>_. small_outside) (\<lambda>_. no_adapters) [(visit 10 None ''t1'', first_setup)] panel_root"
    using step [OF none, of first_setup "visit 10 None ''t1''"] by (simp add: first_setup_def panel_root_def)
  show "panel_run small_site (\<lambda>_. small_outside) (\<lambda>_. no_adapters)
     [(visit 10 None ''t1'', first_setup), (visit 20 root_cookie ''t2'', new_alice)] panel_alice"
    using step [OF one, of new_alice "visit 20 root_cookie ''t2''"] by (simp add: new_alice_def panel_alice_def)
qed

subsection \<open>Properties\<close>

text \<open>
  C24: no request changes the stored content, sessions and marks of published generations apart,
  unless it carries the cookie of an unexpired session of an existing administrator together with
  the CSRF token derived from that very session, and this administrator is the owner wherever the
  resource is the owner's (secrets, profiles, routing); every such change except a theme or a
  refresh adds exactly one row to the audit log under that administrator. The only other change is the
  first setup, with the setup token, while there is no administrator.
\<close>

theorem panel_changes_are_authorised:
  assumes "content (panel_db (snd (handle S Q A r q p))) \<noteq> content (panel_db p)"
  shows "(\<exists>i. authorised S r (form_token q) (owner_only q) (panel_db p) i
      \<and> (audited q \<longrightarrow> row_by i (panel_db p) (panel_db (snd (handle S Q A r q p)))))
    \<or> (\<exists>form. q = Setup form \<and> db_admins (panel_db p) = [] \<and> setup_token_matches S (sf_setup_token form))"
proof -
  have *: "\<exists>form. q = Setup form \<and> db_admins (panel_db p) = [] \<and> setup_token_matches S (sf_setup_token form)"
    if "\<not> session_request q"
  proof -
    from that consider form where "q = Setup form" | form where "q = Login form" by (cases q) auto
    then show ?thesis
    proof cases
      case 1
      then show ?thesis using assms by (cases S r form p rule: setup_cases) (auto simp: handle_def)
    next
      case 2
      then show ?thesis using assms by (cases S r form p rule: login_cases) (auto simp: handle_def entered_def)
    qed
  qed
  show ?thesis
    using assms * handle_allowed [of q S r p Q A] handle_unlogged [of q p S Q A r] unfolding allowed_def by blast
qed

theorem panel_changes_are_authorised_witness:
  "\<exists>i. authorised small_site (visit 20 root_cookie ''t2'') (form_token new_alice) (owner_only new_alice) (panel_db panel_root) i
     \<and> row_by i (panel_db panel_root) (panel_db panel_alice)"
proof -
  have "db_users (panel_db panel_root) = []" by code_simp
  then have "content (panel_db panel_alice) \<noteq> content (panel_db panel_root)"
    using content_users [of "panel_db panel_alice" "panel_db panel_root"] alice_here(1) by auto
  then show ?thesis
    using panel_changes_are_authorised [of small_site small_outside no_adapters "visit 20 root_cookie ''t2''" new_alice panel_root]
    by (simp add: panel_alice_def small_handle_def new_alice_def)
qed

text \<open>
  C12: every session in the database of a running panel goes back to one request of the run: a login
  with the name and the password of an existing account that the rate limiter let through, or the
  first setup with the setup token while there was no administrator. Its token is the one drawn for
  that request and only the digest is stored.
\<close>

theorem sessions_are_earned:
  assumes "panel_run S Q A tr p" and "s \<in> set (db_sessions (panel_db p))"
  shows "\<exists>before r q after p0. tr = before @ (r, q) # after \<and> panel_run S Q A before p0
    \<and> gave_session S r q p0 (se_token_hash s)"
  using session_given_in_run [OF assms(1)] assms(2) by (simp add: session_hashes_def)

theorem sessions_are_earned_witness:
  "\<exists>before r q after p0. [(visit 10 None ''t1'', first_setup)] = before @ (r, q) # after
    \<and> gave_session small_site r q p0 ''digest of t1''"
proof -
  from root_here(2) obtain s where "s \<in> set (db_sessions (panel_db panel_root))" "se_token_hash s = ''digest of t1''" by auto
  from sessions_are_earned [OF panel_runs(1) this(1)] this(2) show ?thesis by metis
qed




definition guess :: "nat \<Rightarrow> arrival \<times> login_form" where
  "guess n = (visit (100 + int n) None ''t9'', \<lparr>lf_username = ''root'', lf_password = ''wrong''\<rparr>)"

definition guesses :: "response list \<times> panel" where
  "guesses = logins small_site (map guess [0, 1, 2, 3, 4, 5]) panel_root"


text \<open>
  C18: revocation. Once the deletion or the deactivation of a user, or the reset of the token to
  another one, was answered with the list of users, the old subscription address yields no
  configuration at any later time, with whatever adapters and profiles: it answers 401 or 403.
\<close>

theorem revoked_access_is_refused:
  assumes "panel_run S Q0 A0 tr p" and "u \<in> set (db_users (panel_db p))" and "revokes q r u"
    and "handle S Q A r q p = (See_Other ''/admin/users'' [], p')"
  shows "\<exists>status body. mihomo_subscription to_yaml Q' A' now (us_token u) (panel_db p') = Served status [] body
    \<and> (status = 401 \<or> status = 403)"
  using revoked_refused [OF _ assms(2-4)] panel_run_inv [OF assms(1)] users_reachable_inv by (auto simp: all_inv_def)

theorem revoked_access_is_refused_witness:
  "\<exists>status body. mihomo_subscription (\<lambda>_. Ok ''yaml'') small_outside no_adapters 50 ''user-t2''
      (panel_db (snd (small_handle (visit 30 root_cookie ''t3'') (Toggle_User root_csrf 1) panel_alice))) = Served status [] body
    \<and> (status = 401 \<or> status = 403)"
proof -
  obtain u where u: "u \<in> set (db_users (panel_db panel_alice))" "us_token u = ''user-t2''" using alice_here(2) by auto
  have "list_all (\<lambda>u. us_id u = 1 \<and> us_enabled u) (db_users (panel_db panel_alice))" by code_simp
  then have "revokes (Toggle_User root_csrf 1) (visit 30 root_cookie ''t3'') u" using u by (simp add: list_all_iff)
  moreover have "fst (small_handle (visit 30 root_cookie ''t3'') (Toggle_User root_csrf 1) panel_alice) = See_Other ''/admin/users'' []"
    by code_simp
  ultimately show ?thesis
    using revoked_access_is_refused [OF panel_runs(2) u(1), of "Toggle_User root_csrf 1" "visit 30 root_cookie ''t3''"
        small_outside no_adapters _ "\<lambda>_. Ok ''yaml''" small_outside no_adapters 50] u(2)
    by (metis small_handle_def prod.collapse)
qed

end
