(* ===== verification/Json_Values.thy ===== *)
theory Json_Values
  imports Mihomo
begin

text \<open>
  Reading and building \<open>serde_json::Value\<close>s the way the built-in adapters do: \<open>get\<close>, the
  \<open>as_*\<close> accessors, \<open>value[key]\<close> (null when absent), \<open>value[key] = v\<close>, the numeric parsers and
  \<open>split_whitespace\<close>, with the facts that take an object literal apart again.
\<close>

named_theorems json_simps \<open>what lookups give on values built by \<open>json!\<close>\<close>

definition jget :: "json \<Rightarrow> string \<Rightarrow> json option" where
  "jget j k = (case j of JObject m \<Rightarrow> bt_get m k | _ \<Rightarrow> None)"

definition as_str :: "json \<Rightarrow> string option" where
  "as_str j = (case j of JString s \<Rightarrow> Some s | _ \<Rightarrow> None)"

definition as_array :: "json \<Rightarrow> json list option" where
  "as_array j = (case j of JArray xs \<Rightarrow> Some xs | _ \<Rightarrow> None)"

definition as_object :: "json \<Rightarrow> (string, json) btmap option" where
  "as_object j = (case j of JObject m \<Rightarrow> Some m | _ \<Rightarrow> None)"

definition as_u16 :: "json \<Rightarrow> u16 option" where
  "as_u16 j = (case j of JNum n \<Rightarrow> if 0 \<le> n \<and> n < 2 ^ 16 then Some (word_of_int n) else None | _ \<Rightarrow> None)"

definition jindex :: "json \<Rightarrow> string \<Rightarrow> json" where
  "jindex j k = (case jget j k of Some v \<Rightarrow> v | None \<Rightarrow> JNull)"

text \<open>\<open>value[key] = v\<close> on an object; the code uses it on object literals only.\<close>

definition jset :: "string \<Rightarrow> json \<Rightarrow> json \<Rightarrow> json" where
  "jset k v j = (case j of JObject m \<Rightarrow> JObject (bt_insert k v m) | _ \<Rightarrow> j)"

text \<open>\<open>v.and_then(Value::as_array).into_iter().flatten()\<close>.\<close>

definition array_or_empty :: "json option \<Rightarrow> json list" where
  "array_or_empty v = (case v of Some (JArray xs) \<Rightarrow> xs | _ \<Rightarrow> [])"

definition text_of :: "json option \<Rightarrow> string option" where
  "text_of v = (case v of Some (JString s) \<Rightarrow> Some s | _ \<Rightarrow> None)"

definition jport :: "u16 \<Rightarrow> json" where
  "jport p = JNum (uint p)"

subsection \<open>Lookups in literals\<close>

lemma jget_JObject [simp]: "jget (JObject m) k = bt_get m k"
  by (simp add: jget_def)

lemma jobj_object [json_simps]: "as_object (jobj kvs) = Some (bt_collect kvs [])"
  by (simp add: as_object_def jobj_def)

lemma is_object_jobj [json_simps]: "is_object (jobj kvs)"
  by (simp add: is_object_def jobj_def)

lemma bt_get_rev_distinct:
  "distinct (map fst kvs) \<Longrightarrow> bt_get (rev kvs) k = bt_get kvs k"
proof -
  assume d: "distinct (map fst kvs)"
  then have d': "distinct (map fst (rev kvs))" by (metis distinct_rev rev_map)
  show ?thesis
    using bt_get_distinct [OF d] bt_get_distinct [OF d'] bt_get_in
    by (metis option.exhaust set_rev)
qed

lemma jget_jobj: "jget (jobj kvs) k = bt_get (rev kvs) k"
  by (simp add: jget_def jobj_def bt_collect_get split: option.splits)

lemma jget_literal: "distinct (map fst kvs) \<Longrightarrow> jget (jobj kvs) k = bt_get kvs k"
  by (simp add: jget_jobj bt_get_rev_distinct)

lemma jget_jset [json_simps]:
  "is_object j \<Longrightarrow> jget (jset k v j) k' = (if k' = k then Some v else jget j k')"
  by (auto simp: jget_def jset_def is_object_def bt_get_insert split: json.splits)

lemma is_object_jset [json_simps]: "is_object (jset k v j) = is_object j"
  by (auto simp: jset_def is_object_def split: json.splits)

lemma text_of_simps [json_simps]:
  "text_of None = None" "text_of (Some (JString s)) = Some s" "text_of (Some (JNum n)) = None"
  "text_of (Some (JArray xs)) = None" "text_of (Some (jobj kvs)) = None" "text_of (Some JNull) = None"
  by (simp_all add: text_of_def jobj_def)

lemma array_or_empty_simps [json_simps]:
  "array_or_empty None = []" "array_or_empty (Some (JArray xs)) = xs"
  "array_or_empty (Some (jobj kvs)) = []" "array_or_empty (Some (JString s)) = []"
  by (simp_all add: array_or_empty_def jobj_def)

lemma as_u16_port [json_simps]: "as_u16 (jport p) = Some p"
  using uint_lt2p [of p] uint_ge_0 [of p]
  by (simp add: as_u16_def jport_def word_of_int_uint)

lemma text_of_port [json_simps]: "text_of (Some (jport p)) = None"
  by (simp add: text_of_def jport_def)

subsection \<open>Text\<close>

text \<open>\<open>str::parse::<u16>()\<close>: an optional plus sign, then digits, below \<open>2 ^ 16\<close>.\<close>

definition port_number :: "string \<Rightarrow> u16 option" where
  "port_number s =
     (let d = (case s of c # cs \<Rightarrow> if c = CHR ''+'' then cs else s | [] \<Rightarrow> [])
      in if d = [] \<or> \<not> list_all is_digit d \<or> 2 ^ 16 \<le> int (parse_digits d) then None
         else Some (of_nat (parse_digits d)))"

function split_white :: "string \<Rightarrow> string list" where
  "split_white s =
     (case s of [] \<Rightarrow> [[]]
      | c # cs \<Rightarrow>
          if 0 < ws_len s then [] # split_white (drop (ws_len s) s)
          else (case split_white cs of [] \<Rightarrow> [[c]] | p # ps \<Rightarrow> (c # p) # ps))"
  by pat_completeness auto
termination
  by (relation "measure length") auto

declare split_white.simps [simp del]

definition split_whitespace :: "string \<Rightarrow> string list" where
  "split_whitespace s = filter (\<lambda>w. w \<noteq> []) (split_white s)"

lemma split_on_at: "split_on d (s @ d # t) = split_on d s @ split_on d t"
proof (induction s)
  case Nil
  then show ?case by simp
next
  case (Cons c cs)
  then show ?case by (cases "split_on d cs") auto
qed

lemma last_split_on_append: "d \<notin> set t \<Longrightarrow> last (split_on d (s @ d # t)) = t"
  by (simp add: split_on_at split_on_none)

end
