(* ===== verification/Protocols.thy ===== *)
theory Protocols
  imports Json_Values
begin

text \<open>
  \<open>adapters/protocols.rs\<close>: the built-in protocol adapters. An adapter is its manifest, its
  configuration fields and the implementation that selects how it renders; the trait's methods are
  functions of it. A render context is the profile, the user (or the users) and the secret
  resolver. \<open>serde_json::Map\<close> is a key-sorted map, \<open>Map::extend\<close> overwrites.
\<close>

datatype security_wrapper = StandardTls | Reality | ShadowTlsV3 | ResTls | Jls

datatype implementation =
    VlessXhttp
  | VlessTcp
  | VlessWrapped security_wrapper
  | ShadowsocksShadowTls
  | Hysteria
  | AnyTlsLegacy
  | AnyTls security_wrapper
  | Tuic
  | Trojan security_wrapper
  | SnellV5 "security_wrapper option"
  | MieruTcp
  | TrustTunnelH2
  | ShadowQuic
  | SudokuHttpMask

datatype field_kind = TextField | SecretField

record config_field =
  cf_name :: string
  cf_label :: string
  cf_help :: string
  cf_kind :: field_kind
  cf_required :: bool

record json_adapter =
  ja_manifest :: protocol_manifest
  ja_fields :: "config_field list"
  ja_implementation :: implementation

subsection \<open>Compositions\<close>

fun wrapper_label :: "security_wrapper \<Rightarrow> string" where
  "wrapper_label StandardTls = ''tls''"
| "wrapper_label Reality = ''reality''"
| "wrapper_label ShadowTlsV3 = ''shadow-tls-v3''"
| "wrapper_label ResTls = ''restls''"
| "wrapper_label Jls = ''jls''"

definition wrapper_maturity :: "security_wrapper \<Rightarrow> adapter_maturity" where
  "wrapper_maturity w = (if w \<in> {StandardTls, Reality, ShadowTlsV3} then Stable else Experimental)"

definition pinned_runtime :: "implementation \<Rightarrow> validated_runtime" where
  "pinned_runtime i =
     (let (adapter_id, version) =
        (case i of
           ShadowsocksShadowTls \<Rightarrow> (''sing-box'', ''v1.13.20'')
         | AnyTlsLegacy \<Rightarrow> (''sing-box'', ''v1.13.20'')
         | Hysteria \<Rightarrow> (''hysteria'', ''app/v2.12.2'')
         | Tuic \<Rightarrow> (''tuic'', ''tuic-server-1.0.0'')
         | _ \<Rightarrow> (''mihomo'', ''v1.19.30''))
      in \<lparr>vr_adapter_id = adapter_id, vr_version = version, vr_exact_pin = True,
          vr_incompatible_from = None\<rparr>)"

definition fallback_runtime :: "implementation \<Rightarrow> validated_runtime option" where
  "fallback_runtime i =
     (if i = VlessTcp \<or> i = VlessXhttp
      then Some \<lparr>vr_adapter_id = ''xray'', vr_version = ''v26.3.27'', vr_exact_pin = True,
                 vr_incompatible_from = Some ''v26.7.11''\<rparr>
      else None)"

definition compatibility_note :: "implementation \<Rightarrow> string option" where
  "compatibility_note i =
     (case i of
        VlessXhttp \<Rightarrow> Some ''XHTTP must not use Vision flow.''
      | VlessTcp \<Rightarrow> Some ''Vision and XUDP are required by this profile.''
      | VlessWrapped _ \<Rightarrow>
          Some ''This TCP profile uses exactly one TLS camouflage wrapper and no Vision flow.''
      | AnyTls w \<Rightarrow>
          if w = Reality then Some ''AnyTLS with REALITY is unsupported by Mihomo.'' else None
      | TrustTunnelH2 \<Rightarrow>
          Some ''HTTP/3 is intentionally not exposed until dual TCP/UDP claims are modeled.''
      | ShadowQuic \<Rightarrow>
          Some ''JLS is intrinsic; 0-RTT is disabled to avoid pre-authentication replay risk.''
      | SudokuHttpMask \<Rightarrow>
          Some ''Legacy HTTPMask is paired with authenticated AEAD and does not claim CDN support.''
      | _ \<Rightarrow> None)"

fun composition_parts ::
  "implementation \<Rightarrow> string \<times> string \<times> string \<times> string option \<times> adapter_maturity" where
  "composition_parts VlessXhttp = (''vless'', ''xhttp'', ''reality'', None, Stable)"
| "composition_parts VlessTcp = (''vless'', ''tcp'', ''reality'', Some ''xtls-rprx-vision'', Stable)"
| "composition_parts (VlessWrapped w) = (''vless'', ''tcp'', wrapper_label w, None, Experimental)"
| "composition_parts ShadowsocksShadowTls =
     (''shadowsocks-2022'', ''tcp'', ''shadow-tls-v3'', None, Stable)"
| "composition_parts Hysteria = (''hysteria2'', ''quic'', ''tls+salamander'', None, Stable)"
| "composition_parts AnyTlsLegacy = (''anytls'', ''tcp'', ''tls'', None, Experimental)"
| "composition_parts (AnyTls w) = (''anytls'', ''tcp'', wrapper_label w, None, wrapper_maturity w)"
| "composition_parts Tuic = (''tuic-v5'', ''quic'', ''tls'', None, Stable)"
| "composition_parts (Trojan w) = (''trojan'', ''tcp'', wrapper_label w, None, wrapper_maturity w)"
| "composition_parts (SnellV5 w) =
     (''snell-v5'', ''tcp'', (case w of None \<Rightarrow> ''psk'' | Some w \<Rightarrow> wrapper_label w), None,
      (case w of None \<Rightarrow> Stable | Some w \<Rightarrow> wrapper_maturity w))"
| "composition_parts MieruTcp = (''mieru'', ''tcp'', ''protocol-auth'', None, Stable)"
| "composition_parts TrustTunnelH2 = (''trusttunnel'', ''h2'', ''tls'', None, Experimental)"
| "composition_parts ShadowQuic = (''shadowquic'', ''quic'', ''jls'', None, Experimental)"
| "composition_parts SudokuHttpMask =
     (''sudoku'', ''httpmask'', ''chacha20-poly1305'', None, Experimental)"

definition composition_of :: "implementation \<Rightarrow> protocol_composition" where
  "composition_of i =
     (let (protocol, transport, security, flow, maturity) = composition_parts i
      in \<lparr>pc_protocol = protocol, pc_transport = transport, pc_security = security,
          pc_flow = flow, pc_maturity = maturity,
          pc_client_baseline = Some ''Mihomo v1.19.30'',
          pc_preferred_runtime = Some (pinned_runtime i),
          pc_fallback_runtime = fallback_runtime i,
          pc_compatibility_note = compatibility_note i\<rparr>)"

definition new_adapter ::
  "string \<Rightarrow> string \<Rightarrow> implementation \<Rightarrow> config_field list \<Rightarrow> user_participation
   \<Rightarrow> listener_network \<Rightarrow> json_adapter" where
  "new_adapter i display_name impl fs participation network =
     \<lparr>ja_manifest =
        \<lparr>pm_api_version = ADAPTER_API_VERSION, pm_id = i, pm_display_name = display_name,
         pm_schema_version = 1, pm_required_capabilities = {i},
         pm_user_participation = participation, pm_listener_network = network,
         pm_composition = composition_of impl\<rparr>,
      ja_fields = fs, ja_implementation = impl\<rparr>"

subsection \<open>Reading a configuration\<close>

definition required_text :: "json \<Rightarrow> string \<Rightarrow> string res" where
  "required_text config name =
     ok_or (''adapter field `'' @ name @ ''` is required'')
       (case text_of (jget config name) of
          None \<Rightarrow> None
        | Some v \<Rightarrow> if trim v = [] then None else Some (trim v))"

definition optional_text :: "json \<Rightarrow> string \<Rightarrow> string option res" where
  "optional_text config name =
     (case jget config name of
        None \<Rightarrow> Ok None
      | Some JNull \<Rightarrow> Ok None
      | Some (JString v) \<Rightarrow> Ok (if trim v = [] then None else Some (trim v))
      | Some _ \<Rightarrow> Err (''adapter field `'' @ name @ ''` must be a string''))"

definition validate_field :: "json \<Rightarrow> config_field \<Rightarrow> unit res" where
  "validate_field config f =
     and_then
       (if cf_required f then and_then (required_text config (cf_name f)) (\<lambda>_. Ok ())
        else and_then (optional_text config (cf_name f)) (\<lambda>_. Ok ())) (\<lambda>_.
     if cf_kind f = SecretField
     then and_then (optional_text config (cf_name f)) (\<lambda>v.
          case v of None \<Rightarrow> Ok () | Some v \<Rightarrow> and_then (parse_secret_ref v) (\<lambda>_. Ok ()))
     else Ok ())"

definition validate_config :: "json_adapter \<Rightarrow> u32 \<Rightarrow> json \<Rightarrow> unit res" where
  "validate_config a schema_version config =
     (if schema_version \<noteq> pm_schema_version (ja_manifest a) \<or> \<not> is_object config
      then Err ''unsupported adapter configuration schema''
      else each_res (validate_field config) (ja_fields a))"

definition has_reality_key :: "implementation \<Rightarrow> bool" where
  "has_reality_key i \<longleftrightarrow> i \<in> {VlessXhttp, VlessTcp, Trojan Reality}"

definition migrate_config :: "json_adapter \<Rightarrow> u32 \<Rightarrow> json \<Rightarrow> (u32 \<times> json) res" where
  "migrate_config a from_version config =
     (if pm_schema_version (ja_manifest a) < from_version
      then Err ''adapter configuration is newer than this adapter''
      else (case config of
          JObject m \<Rightarrow>
            (let m' = (if has_reality_key (ja_implementation a) \<and> bt_get m ''private_key_secret'' = None
                       then bt_insert ''private_key_secret'' (JString ''xray.reality.private_key'') m
                       else m)
             in and_then (validate_config a (pm_schema_version (ja_manifest a)) (JObject m')) (\<lambda>_.
                Ok (pm_schema_version (ja_manifest a), JObject m')))
        | _ \<Rightarrow> Err ''adapter configuration must be an object''))"

definition secret_values :: "json_adapter \<Rightarrow> string \<Rightarrow> json \<Rightarrow> string list" where
  "secret_values a excluded config =
     filter (\<lambda>v. trim v \<noteq> [])
       (List.map_filter (\<lambda>f. text_of (jget config (cf_name f)))
         (filter (\<lambda>f. cf_name f \<noteq> excluded) (filter (\<lambda>f. cf_kind f = SecretField) (ja_fields a))))"

definition client_secret_references :: "json_adapter \<Rightarrow> json \<Rightarrow> string list res" where
  "client_secret_references a config =
     and_then (validate_config a (pm_schema_version (ja_manifest a)) config) (\<lambda>_.
     collect_res (map parse_secret_ref (secret_values a ''private_key_secret'' config)))"

definition server_secret_references :: "json_adapter \<Rightarrow> json \<Rightarrow> string list res" where
  "server_secret_references a config =
     and_then (validate_config a (pm_schema_version (ja_manifest a)) config) (\<lambda>_.
     collect_res (map parse_secret_ref (secret_values a ''public_key_secret'' config)))"

definition server_only_secret_references :: "json_adapter \<Rightarrow> json \<Rightarrow> string list res" where
  "server_only_secret_references a config =
     and_then (validate_config a (pm_schema_version (ja_manifest a)) config) (\<lambda>_.
     if has_reality_key (ja_implementation a)
     then and_then (required_text config ''private_key_secret'') (\<lambda>v.
          and_then (parse_secret_ref v) (\<lambda>r. Ok [r]))
     else Ok [])"

subsection \<open>Rendering for a client\<close>

record client_context =
  cx_profile :: protocol_profile
  cx_user :: subscription_user
  cx_secrets :: secret_resolver

type_synonym proxy = "(string, json) btmap"

definition cx_text :: "client_context \<Rightarrow> string \<Rightarrow> string res" where
  "cx_text cx name = required_text (pr_config (cx_profile cx)) name"

definition cx_secret :: "client_context \<Rightarrow> string \<Rightarrow> string res" where
  "cx_secret cx name =
     and_then (cx_text cx name) (\<lambda>v. and_then (parse_secret_ref v) (cx_secrets cx))"

definition base_proxy :: "client_context \<Rightarrow> string \<Rightarrow> proxy" where
  "base_proxy cx kind = bt_collect
     [(''name'', JString (pr_name (cx_profile cx))),
      (''type'', JString kind),
      (''server'', JString (pr_server (cx_profile cx))),
      (''port'', jport (pr_port (cx_profile cx)))] []"

definition juser :: "client_context \<Rightarrow> json" where
  "juser cx = JString (su_uuid (cx_user cx))"

definition client_wrapper :: "client_context \<Rightarrow> security_wrapper \<Rightarrow> proxy \<Rightarrow> proxy res" where
  "client_wrapper cx w proxy =
     (case w of
        StandardTls \<Rightarrow> Ok proxy
      | Reality \<Rightarrow>
          and_then (cx_secret cx ''public_key_secret'') (\<lambda>public_key.
          and_then (cx_secret cx ''short_id_secret'') (\<lambda>short_id.
          Ok (bt_insert ''reality-opts''
            (jobj [(''public-key'', JString public_key), (''short-id'', JString short_id)]) proxy)))
      | ShadowTlsV3 \<Rightarrow>
          and_then (cx_secret cx ''shadow_tls_password_secret'') (\<lambda>password.
          Ok (bt_insert ''shadow-tls-opts''
            (jobj [(''version'', JNum 3), (''password'', JString password)]) proxy))
      | ResTls \<Rightarrow>
          and_then (cx_secret cx ''restls_password_secret'') (\<lambda>password.
          Ok (bt_insert ''restls-opts''
            (jobj [(''password'', JString password), (''version-hint'', JString ''tls13'')]) proxy))
      | Jls \<Rightarrow>
          and_then (cx_secret cx ''jls_username_secret'') (\<lambda>username.
          and_then (cx_secret cx ''jls_password_secret'') (\<lambda>password.
          Ok (bt_insert ''jls-opts''
            (jobj [(''username'', JString username), (''password'', JString password)]) proxy))))"

definition snell_wrapper :: "client_context \<Rightarrow> security_wrapper \<Rightarrow> proxy \<Rightarrow> proxy res" where
  "snell_wrapper cx w proxy =
     and_then (cx_text cx ''sni'') (\<lambda>host.
     and_then
       (case w of
          ShadowTlsV3 \<Rightarrow>
            and_then (cx_secret cx ''shadow_tls_password_secret'') (\<lambda>password.
            Ok (jobj [(''mode'', JString ''shadow-tls''), (''host'', JString host),
                      (''version'', JNum 3), (''password'', JString password)]))
        | ResTls \<Rightarrow>
            and_then (cx_secret cx ''restls_password_secret'') (\<lambda>password.
            Ok (jobj [(''mode'', JString ''restls''), (''host'', JString host),
                      (''version-hint'', JString ''tls13''), (''password'', JString password)]))
        | Jls \<Rightarrow>
            and_then (cx_secret cx ''jls_username_secret'') (\<lambda>username.
            and_then (cx_secret cx ''jls_password_secret'') (\<lambda>password.
            Ok (jobj [(''mode'', JString ''jls''), (''host'', JString host),
                      (''username'', JString username), (''password'', JString password)])))
        | _ \<Rightarrow> Err ''unsupported Snell security wrapper'') (\<lambda>options.
     Ok (bt_insert ''obfs-opts'' options proxy)))"

definition render_vless_xhttp :: "client_context \<Rightarrow> proxy res" where
  "render_vless_xhttp cx =
     and_then (cx_text cx ''server_name'') (\<lambda>server_name.
     and_then (cx_secret cx ''public_key_secret'') (\<lambda>public_key.
     and_then (cx_secret cx ''short_id_secret'') (\<lambda>short_id.
     and_then (cx_text cx ''path'') (\<lambda>path.
     Ok (bt_collect
       [(''udp'', JBool True), (''uuid'', juser cx), (''encryption'', JString ''''),
        (''tls'', JBool True), (''servername'', JString server_name),
        (''client-fingerprint'', JString ''chrome''),
        (''reality-opts'',
         jobj [(''public-key'', JString public_key), (''short-id'', JString short_id)]),
        (''network'', JString ''xhttp''),
        (''xhttp-opts'', jobj [(''path'', JString path), (''host'', JString server_name)])]
       (base_proxy cx ''vless''))))))"

definition render_vless_tcp :: "client_context \<Rightarrow> proxy res" where
  "render_vless_tcp cx =
     and_then (cx_text cx ''server_name'') (\<lambda>server_name.
     and_then (cx_secret cx ''public_key_secret'') (\<lambda>public_key.
     and_then (cx_secret cx ''short_id_secret'') (\<lambda>short_id.
     Ok (bt_collect
       [(''udp'', JBool True), (''uuid'', juser cx), (''encryption'', JString ''''),
        (''network'', JString ''tcp''), (''flow'', JString ''xtls-rprx-vision''),
        (''packet-encoding'', JString ''xudp''), (''tls'', JBool True),
        (''servername'', JString server_name), (''client-fingerprint'', JString ''chrome''),
        (''reality-opts'',
         jobj [(''public-key'', JString public_key), (''short-id'', JString short_id)])]
       (base_proxy cx ''vless'')))))"

definition render_vless_wrapped :: "client_context \<Rightarrow> security_wrapper \<Rightarrow> proxy res" where
  "render_vless_wrapped cx w =
     and_then (cx_text cx ''sni'') (\<lambda>sni.
     client_wrapper cx w (bt_collect
       [(''udp'', JBool True), (''uuid'', juser cx), (''encryption'', JString ''''),
        (''network'', JString ''tcp''), (''tls'', JBool True), (''servername'', JString sni),
        (''client-fingerprint'', JString ''chrome'')]
       (base_proxy cx ''vless'')))"

definition render_shadowsocks :: "client_context \<Rightarrow> proxy res" where
  "render_shadowsocks cx =
     and_then (cx_secret cx ''password_secret'') (\<lambda>password.
     and_then (cx_text cx ''server_name'') (\<lambda>host.
     and_then (cx_secret cx ''shadow_tls_password_secret'') (\<lambda>plugin_password.
     Ok (bt_collect
       [(''cipher'', JString ''2022-blake3-aes-256-gcm''), (''password'', JString password),
        (''udp'', JBool True), (''plugin'', JString ''shadow-tls''),
        (''client-fingerprint'', JString ''chrome''),
        (''plugin-opts'',
         jobj [(''host'', JString host), (''password'', JString plugin_password),
               (''version'', JNum 3)])]
       (base_proxy cx ''ss'')))))"

definition render_hysteria :: "client_context \<Rightarrow> proxy res" where
  "render_hysteria cx =
     and_then (cx_secret cx ''password_secret'') (\<lambda>password.
     and_then (cx_text cx ''sni'') (\<lambda>sni.
     (let proxy = bt_collect
            [(''password'', JString password), (''sni'', JString sni), (''alpn'', jstrings [''h3''])]
            (base_proxy cx ''hysteria2'')
      in and_then (optional_text (pr_config (cx_profile cx)) ''obfs_password_secret'') (\<lambda>reference.
         case reference of
           None \<Rightarrow> Ok proxy
         | Some r \<Rightarrow>
             and_then (parse_secret_ref r) (\<lambda>r. and_then (cx_secrets cx r) (\<lambda>v.
             Ok (bt_insert ''obfs-password'' (JString v)
                  (bt_insert ''obfs'' (JString ''salamander'') proxy))))))))"

definition anytls_proxy :: "client_context \<Rightarrow> proxy res" where
  "anytls_proxy cx =
     and_then (cx_secret cx ''password_secret'') (\<lambda>password.
     and_then (cx_text cx ''sni'') (\<lambda>sni.
     Ok (bt_collect
       [(''password'', JString password), (''client-fingerprint'', JString ''chrome''),
        (''udp'', JBool True), (''sni'', JString sni)]
       (base_proxy cx ''anytls''))))"

definition render_anytls_legacy :: "client_context \<Rightarrow> proxy res" where
  "render_anytls_legacy cx = anytls_proxy cx"

definition render_anytls :: "client_context \<Rightarrow> security_wrapper \<Rightarrow> proxy res" where
  "render_anytls cx w = and_then (anytls_proxy cx) (client_wrapper cx w)"

definition render_tuic :: "client_context \<Rightarrow> proxy res" where
  "render_tuic cx =
     and_then (cx_secret cx ''password_secret'') (\<lambda>password.
     and_then (cx_text cx ''sni'') (\<lambda>sni.
     Ok (bt_collect
       [(''uuid'', juser cx), (''password'', JString password), (''udp'', JBool True),
        (''sni'', JString sni), (''alpn'', jstrings [''h3''])]
       (base_proxy cx ''tuic''))))"

definition render_trojan :: "client_context \<Rightarrow> security_wrapper \<Rightarrow> proxy res" where
  "render_trojan cx w =
     and_then (cx_text cx ''sni'') (\<lambda>sni.
     client_wrapper cx w (bt_collect
       [(''password'', juser cx), (''udp'', JBool True), (''network'', JString ''tcp''),
        (''sni'', JString sni), (''alpn'', jstrings [''h2'', ''http/1.1'']),
        (''client-fingerprint'', JString ''chrome'')]
       (base_proxy cx ''trojan'')))"

definition render_snell :: "client_context \<Rightarrow> security_wrapper option \<Rightarrow> proxy res" where
  "render_snell cx w =
     and_then (cx_secret cx ''psk_secret'') (\<lambda>psk.
     (let proxy = bt_collect
            [(''psk'', JString psk), (''version'', JNum 5), (''udp'', JBool True)]
            (base_proxy cx ''snell'')
      in case w of None \<Rightarrow> Ok proxy | Some w \<Rightarrow> snell_wrapper cx w proxy))"

definition render_mieru :: "client_context \<Rightarrow> proxy res" where
  "render_mieru cx =
     and_then (cx_secret cx ''password_secret'') (\<lambda>password.
     Ok (bt_collect
       [(''transport'', JString ''TCP''), (''username'', juser cx), (''password'', JString password),
        (''multiplexing'', JString ''MULTIPLEXING_LOW''),
        (''handshake-mode'', JString ''HANDSHAKE_STANDARD'')]
       (base_proxy cx ''mieru'')))"

definition render_trusttunnel :: "client_context \<Rightarrow> proxy res" where
  "render_trusttunnel cx =
     and_then (cx_text cx ''sni'') (\<lambda>sni.
     Ok (bt_collect
       [(''username'', juser cx), (''password'', juser cx), (''health-check'', JBool True),
        (''udp'', JBool False), (''quic'', JBool False), (''sni'', JString sni),
        (''alpn'', jstrings [''h2'']), (''client-fingerprint'', JString ''chrome'')]
       (base_proxy cx ''trusttunnel'')))"

definition render_shadowquic :: "client_context \<Rightarrow> proxy res" where
  "render_shadowquic cx =
     and_then (cx_text cx ''sni'') (\<lambda>sni.
     Ok (bt_collect
       [(''username'', juser cx), (''password'', juser cx), (''sni'', JString sni),
        (''alpn'', jstrings [''h3'']), (''quic-versions'', jstrings [''v1'']),
        (''udp-over-stream'', JBool False), (''zero-rtt'', JBool False),
        (''congestion-controller'', JString ''cubic'')]
       (base_proxy cx ''shadowquic'')))"

definition render_sudoku :: "client_context \<Rightarrow> proxy res" where
  "render_sudoku cx =
     and_then (cx_secret cx ''key_secret'') (\<lambda>key.
     and_then (cx_text cx ''path_root'') (\<lambda>path_root.
     Ok (bt_collect
       [(''key'', JString key), (''aead-method'', JString ''chacha20-poly1305''),
        (''padding-min'', JNum 2), (''padding-max'', JNum 7),
        (''table-type'', JString ''prefer_ascii''), (''multiplex'', JString ''off''),
        (''httpmask'',
         jobj [(''disable'', JBool False), (''mode'', JString ''legacy''),
               (''path-root'', JString path_root), (''multiplex'', JString ''off'')]),
        (''enable-pure-downlink'', JBool False)]
       (base_proxy cx ''sudoku''))))"

fun render_proxy :: "implementation \<Rightarrow> client_context \<Rightarrow> proxy res" where
  "render_proxy VlessXhttp cx = render_vless_xhttp cx"
| "render_proxy VlessTcp cx = render_vless_tcp cx"
| "render_proxy (VlessWrapped w) cx = render_vless_wrapped cx w"
| "render_proxy ShadowsocksShadowTls cx = render_shadowsocks cx"
| "render_proxy Hysteria cx = render_hysteria cx"
| "render_proxy AnyTlsLegacy cx = render_anytls_legacy cx"
| "render_proxy (AnyTls w) cx = render_anytls cx w"
| "render_proxy Tuic cx = render_tuic cx"
| "render_proxy (Trojan w) cx = render_trojan cx w"
| "render_proxy (SnellV5 w) cx = render_snell cx w"
| "render_proxy MieruTcp cx = render_mieru cx"
| "render_proxy TrustTunnelH2 cx = render_trusttunnel cx"
| "render_proxy ShadowQuic cx = render_shadowquic cx"
| "render_proxy SudokuHttpMask cx = render_sudoku cx"

definition render_client ::
  "json_adapter \<Rightarrow> protocol_profile \<Rightarrow> subscription_user \<Rightarrow> secret_resolver \<Rightarrow> json res" where
  "render_client a p user resolve =
     and_then (validate_config a (pr_schema_version p) (pr_config p)) (\<lambda>_.
     and_then (render_proxy (ja_implementation a) \<lparr>cx_profile = p, cx_user = user, cx_secrets = resolve\<rparr>)
       (\<lambda>proxy. Ok (JObject proxy)))"

subsection \<open>Rendering for a server\<close>

definition resolve_entry :: "secret_resolver \<Rightarrow> string \<Rightarrow> (string \<times> json) res" where
  "resolve_entry resolve r = and_then (resolve r) (\<lambda>v. Ok (r, JString v))"

definition jopt_string :: "string option \<Rightarrow> json" where
  "jopt_string v = (case v of None \<Rightarrow> JNull | Some s \<Rightarrow> JString s)"

definition user_entry :: "subscription_user \<Rightarrow> json" where
  "user_entry u = jobj [(''username'', JString (su_username u)), (''uuid'', JString (su_uuid u))]"

definition render_server ::
  "json_adapter \<Rightarrow> protocol_profile \<Rightarrow> subscription_user list \<Rightarrow> secret_resolver \<Rightarrow> server_fragment res" where
  "render_server a p users resolve =
     and_then (validate_config a (pr_schema_version p) (pr_config p)) (\<lambda>_.
     and_then (server_secret_references a (pr_config p)) (\<lambda>references.
     and_then (collect_res (map (resolve_entry resolve) references)) (\<lambda>secrets.
     (let individual = requires_individual_users (pm_user_participation (ja_manifest a))
      in Ok
        \<lparr>sf_profile_id = pr_name p,
         sf_capability = pm_id (ja_manifest a),
         sf_payload = jobj
           [(''server'', JString (pr_server p)),
            (''port'', jport (pr_port p)),
            (''config'', pr_config p),
            (''users'', JArray (if individual then map user_entry users else [])),
            (''resolved_secrets'', JObject (bt_collect secrets [])),
            (''managed_resource_id'', jopt_string (pr_managed_resource p))],
         sf_expected_user_ids = (if individual then Some (set (map su_uuid users)) else None),
         sf_listeners = [ListenerClaim (pm_listener_network (ja_manifest a)) (pr_port p)]\<rparr>))))"

text \<open>The adapter as the trait object the registries and the reconciler see.\<close>

definition as_protocol_adapter :: "json_adapter \<Rightarrow> protocol_adapter" where
  "as_protocol_adapter a =
     \<lparr>pa_manifest = ja_manifest a,
      pa_validate_config = validate_config a,
      pa_client_secret_references = client_secret_references a,
      pa_server_secret_references = server_secret_references a,
      pa_render_client = render_client a,
      pa_render_server = render_server a\<rparr>"

subsection \<open>The built-in adapters\<close>

definition text_field :: "string \<Rightarrow> string \<Rightarrow> string \<Rightarrow> config_field" where
  "text_field name label help =
     \<lparr>cf_name = name, cf_label = label, cf_help = help, cf_kind = TextField, cf_required = True\<rparr>"

definition secret_field :: "string \<Rightarrow> string \<Rightarrow> string \<Rightarrow> bool \<Rightarrow> config_field" where
  "secret_field name label help required =
     \<lparr>cf_name = name, cf_label = label, cf_help = help, cf_kind = SecretField, cf_required = required\<rparr>"

definition password_and_sni_fields :: "config_field list" where
  "password_and_sni_fields =
     [secret_field ''password_secret'' ''Password'' ''Secret reference containing the shared protocol password.'' True,
         text_field ''sni'' ''SNI'' ''TLS or camouflage destination hostname.'']"

fun wrapper_fields :: "security_wrapper \<Rightarrow> config_field list" where
  "wrapper_fields StandardTls = []"
| "wrapper_fields Reality = [secret_field ''public_key_secret'' ''REALITY public key'' ''Client-visible REALITY public key reference.'' True,
         secret_field ''short_id_secret'' ''REALITY short ID'' ''Client-visible REALITY short ID reference.'' True,
         secret_field ''private_key_secret'' ''REALITY private key'' ''Root-resolved server-only private key reference.'' True]"
| "wrapper_fields ShadowTlsV3 = [secret_field ''shadow_tls_password_secret'' ''ShadowTLS v3 password'' ''Shared ShadowTLS v3 credential reference.'' True]"
| "wrapper_fields ResTls = [secret_field ''restls_password_secret'' ''ResTLS password'' ''Shared ResTLS credential reference.'' True]"
| "wrapper_fields Jls = [secret_field ''jls_username_secret'' ''JLS username'' ''Shared JLS username reference.'' True,
         secret_field ''jls_password_secret'' ''JLS password'' ''Shared JLS password reference.'' True]"

definition wrapped_fields :: "config_field list \<Rightarrow> security_wrapper \<Rightarrow> config_field list" where
  "wrapped_fields base w = base @ wrapper_fields w"

definition reality_adapters :: "json_adapter list" where
  "reality_adapters =
     [new_adapter ''vless-reality-xhttp'' ''VLESS REALITY XHTTP''
        VlessXhttp
        [text_field ''server_name'' ''Server name'' ''TLS camouflage hostname.'',
         text_field ''path'' ''XHTTP path'' ''Client HTTP transport path.'',
         secret_field ''public_key_secret'' ''REALITY public key'' ''Secret reference containing the public key.'' True,
         secret_field ''short_id_secret'' ''REALITY short ID'' ''Secret reference containing the short ID.'' True,
         secret_field ''private_key_secret'' ''REALITY private key'' ''Root-resolved server private key reference.'' True]
        PerUserUuid Tcp,
      new_adapter ''vless-reality-tcp'' ''VLESS REALITY TCP''
        VlessTcp
        [text_field ''server_name'' ''Server name'' ''TLS camouflage hostname.'',
         secret_field ''public_key_secret'' ''REALITY public key'' ''Secret reference containing the public key.'' True,
         secret_field ''short_id_secret'' ''REALITY short ID'' ''Secret reference containing the short ID.'' True,
         secret_field ''private_key_secret'' ''REALITY private key'' ''Root-resolved server private key reference.'' True]
        PerUserUuid Tcp]"

definition wrapped_vless_adapters :: "json_adapter list" where
  "wrapped_vless_adapters =
     [new_adapter ''vless-shadowtls-v3'' ''VLESS + ShadowTLS v3''
        (VlessWrapped ShadowTlsV3)
        (wrapped_fields [text_field ''sni'' ''SNI'' ''ShadowTLS destination hostname.''] ShadowTlsV3)
        PerUserUuid Tcp,
      new_adapter ''vless-restls'' ''VLESS + ResTLS''
        (VlessWrapped ResTls)
        (wrapped_fields [text_field ''sni'' ''SNI'' ''ResTLS destination hostname.''] ResTls)
        PerUserUuid Tcp,
      new_adapter ''vless-jls'' ''VLESS + JLS''
        (VlessWrapped Jls)
        (wrapped_fields [text_field ''sni'' ''SNI'' ''JLS destination hostname.''] Jls)
        PerUserUuid Tcp]"

definition single_core_adapters :: "json_adapter list" where
  "single_core_adapters =
     [new_adapter ''shadowsocks2022-shadow-tls'' ''Shadowsocks 2022 + ShadowTLS''
        ShadowsocksShadowTls
        [text_field ''server_name'' ''Server name'' ''ShadowTLS camouflage hostname.'',
         secret_field ''password_secret'' ''Shadowsocks password'' ''Secret reference containing the method key.'' True,
         secret_field ''shadow_tls_password_secret'' ''ShadowTLS password'' ''Secret reference containing the plugin password.'' True]
        SharedCredential Tcp,
      new_adapter ''hysteria2'' ''Hysteria 2''
        Hysteria
        [secret_field ''password_secret'' ''Password'' ''Secret reference containing the authentication password.'' True,
         text_field ''sni'' ''SNI'' ''TLS certificate hostname.'',
         secret_field ''obfs_password_secret'' ''Obfuscation password'' ''Optional salamander secret reference.'' False]
        SharedCredential Udp,
      new_adapter ''any-tls'' ''AnyTLS TLS (legacy ID)''
        AnyTlsLegacy
        password_and_sni_fields
        SharedCredential Tcp]"

definition anytls_adapters :: "json_adapter list" where
  "anytls_adapters =
     [new_adapter ''anytls-tls'' ''AnyTLS TLS''
        (AnyTls StandardTls)
        password_and_sni_fields
        SharedCredential Tcp,
      new_adapter ''anytls-shadowtls-v3'' ''AnyTLS + ShadowTLS v3''
        (AnyTls ShadowTlsV3)
        (wrapped_fields password_and_sni_fields ShadowTlsV3)
        SharedCredential Tcp,
      new_adapter ''anytls-restls'' ''AnyTLS + ResTLS''
        (AnyTls ResTls)
        (wrapped_fields password_and_sni_fields ResTls)
        SharedCredential Tcp,
      new_adapter ''anytls-jls'' ''AnyTLS + JLS''
        (AnyTls Jls)
        (wrapped_fields password_and_sni_fields Jls)
        SharedCredential Tcp]"

definition tuic_adapter :: "json_adapter list" where
  "tuic_adapter =
     [new_adapter ''tuic'' ''TUIC''
        Tuic
        [secret_field ''password_secret'' ''Password'' ''Secret reference containing the user password.'' True,
         text_field ''sni'' ''SNI'' ''TLS certificate hostname.'']
        PerUserUuid Udp]"

definition trojan_adapters :: "json_adapter list" where
  "trojan_adapters =
     [new_adapter ''trojan-tls'' ''Trojan TLS/uTLS''
        (Trojan StandardTls)
        [text_field ''sni'' ''SNI'' ''TLS certificate hostname.'']
        PerUserUuid Tcp,
      new_adapter ''trojan-shadowtls-v3'' ''Trojan + ShadowTLS v3''
        (Trojan ShadowTlsV3)
        (wrapped_fields [text_field ''sni'' ''SNI'' ''ShadowTLS destination hostname.''] ShadowTlsV3)
        PerUserUuid Tcp,
      new_adapter ''trojan-restls'' ''Trojan + ResTLS''
        (Trojan ResTls)
        (wrapped_fields [text_field ''sni'' ''SNI'' ''ResTLS destination hostname.''] ResTls)
        PerUserUuid Tcp,
      new_adapter ''trojan-jls'' ''Trojan + JLS''
        (Trojan Jls)
        (wrapped_fields [text_field ''sni'' ''SNI'' ''JLS destination hostname.''] Jls)
        PerUserUuid Tcp,
      new_adapter ''trojan-reality'' ''Trojan + REALITY''
        (Trojan Reality)
        (wrapped_fields [text_field ''sni'' ''SNI'' ''REALITY destination hostname.''] Reality)
        PerUserUuid Tcp]"

definition snell_adapters :: "json_adapter list" where
  "snell_adapters =
     [new_adapter ''snell-v5'' ''Snell v5''
        (SnellV5 None)
        [secret_field ''psk_secret'' ''Pre-shared key'' ''Secret reference containing the shared Snell key.'' True]
        SharedCredential Tcp,
      new_adapter ''snell-v5-shadowtls-v3'' ''Snell v5 + ShadowTLS v3''
        (SnellV5 (Some ShadowTlsV3))
        (wrapped_fields [secret_field ''psk_secret'' ''Pre-shared key'' ''Shared Snell key reference.'' True,
         text_field ''sni'' ''SNI'' ''ShadowTLS destination hostname.''] ShadowTlsV3)
        SharedCredential Tcp,
      new_adapter ''snell-v5-restls'' ''Snell v5 + ResTLS''
        (SnellV5 (Some ResTls))
        (wrapped_fields [secret_field ''psk_secret'' ''Pre-shared key'' ''Shared Snell key reference.'' True,
         text_field ''sni'' ''SNI'' ''ResTLS destination hostname.''] ResTls)
        SharedCredential Tcp,
      new_adapter ''snell-v5-jls'' ''Snell v5 + JLS''
        (SnellV5 (Some Jls))
        (wrapped_fields [secret_field ''psk_secret'' ''Pre-shared key'' ''Shared Snell key reference.'' True,
         text_field ''sni'' ''SNI'' ''JLS destination hostname.''] Jls)
        SharedCredential Tcp]"

definition standalone_adapters :: "json_adapter list" where
  "standalone_adapters =
     [new_adapter ''mieru'' ''Mieru TCP''
        MieruTcp
        [secret_field ''password_secret'' ''Password'' ''Shared password paired with each user's UUID username.'' True]
        PerUserUuid Tcp,
      new_adapter ''trusttunnel-h2'' ''TrustTunnel HTTP/2''
        TrustTunnelH2
        [text_field ''sni'' ''SNI'' ''TLS certificate hostname.'']
        PerUserUuid Tcp,
      new_adapter ''shadowquic'' ''ShadowQUIC''
        ShadowQuic
        [text_field ''sni'' ''SNI'' ''JLS camouflage upstream hostname.'']
        PerUserUuid Udp,
      new_adapter ''sudoku-httpmask'' ''Sudoku HTTPMask''
        SudokuHttpMask
        [secret_field ''key_secret'' ''Shared key'' ''Secret reference containing the shared Sudoku UUID or key.'' True,
         text_field ''path_root'' ''HTTPMask path root'' ''Matching first-level path prefix used by both peers.'']
        SharedCredential Tcp]"

definition built_in_protocols :: "json_adapter list" where
  "built_in_protocols =
     reality_adapters @ wrapped_vless_adapters @ single_core_adapters @ anytls_adapters @ tuic_adapter @ trojan_adapters @ snell_adapters @ standalone_adapters"

definition protocol_registry :: "protocol_registry res" where
  "protocol_registry =
     register_all protocol_register (map as_protocol_adapter built_in_protocols) []"

subsection \<open>Default profiles\<close>

definition default_runtime_preference :: "string \<Rightarrow> string option" where
  "default_runtime_preference protocol_id =
     (if protocol_id \<in> {''shadowsocks2022-shadow-tls'', ''any-tls''} then Some ''sing-box''
      else if protocol_id = ''hysteria2'' then Some ''hysteria''
      else if protocol_id = ''tuic'' then Some ''tuic''
      else if protocol_id \<in> {''vless-reality-xhttp'', ''vless-reality-tcp'', ''vless-shadowtls-v3'', ''vless-restls'',
          ''vless-jls'', ''anytls-tls'', ''anytls-shadowtls-v3'', ''anytls-restls'',
          ''anytls-jls'', ''trojan-tls'', ''trojan-shadowtls-v3'', ''trojan-restls'',
          ''trojan-jls'', ''trojan-reality'', ''snell-v5'', ''snell-v5-shadowtls-v3'',
          ''snell-v5-restls'', ''snell-v5-jls'', ''mieru'', ''trusttunnel-h2'',
          ''shadowquic'', ''sudoku-httpmask''} then Some ''mihomo''
      else None)"

definition legacy_runtime_preference :: "string \<Rightarrow> string option" where
  "legacy_runtime_preference protocol_id =
     (if protocol_id \<in> {''vless-reality-xhttp'', ''vless-reality-tcp''} then Some ''xray''
      else default_runtime_preference protocol_id)"

definition default_profile :: "string \<Rightarrow> string \<Rightarrow> proxy_role \<Rightarrow> u16 \<Rightarrow> json \<Rightarrow> protocol_profile" where
  "default_profile name protocol_id role port config =
     \<lparr>pr_name = name, pr_display_name = name, pr_protocol_id = protocol_id, pr_schema_version = 1,
      pr_role = role, pr_server = ''node.infiproxy.local'', pr_port = port, pr_enabled = False,
      pr_preferred_core = default_runtime_preference protocol_id, pr_managed_resource = None,
      pr_config = config\<rparr>"

definition default_profiles :: "protocol_profile list" where
  "default_profiles =
     [default_profile ''VLESS-XHTTP-SAFE'' ''vless-reality-xhttp'' AutoSafe 8443
        (jobj [(''server_name'', JString ''www.microsoft.com''),
          (''path'', JString ''/api/v1''),
          (''public_key_secret'', JString ''xray.reality.public_key''),
          (''short_id_secret'', JString ''xray.reality.short_id''),
          (''private_key_secret'', JString ''xray.reality.private_key'')]),
      default_profile ''VLESS-REALITY-TCP-FALLBACK'' ''vless-reality-tcp'' Compatibility 7443
        (jobj [(''server_name'', JString ''www.microsoft.com''),
          (''public_key_secret'', JString ''xray.reality.public_key''),
          (''short_id_secret'', JString ''xray.reality.short_id''),
          (''private_key_secret'', JString ''xray.reality.private_key'')]),
      default_profile ''VLESS-SHADOWTLS-V3-EXPERIMENTAL'' ''vless-shadowtls-v3'' Compatibility 7543
        (jobj [(''sni'', JString ''www.apple.com''),
          (''shadow_tls_password_secret'', JString ''shadowtls.password'')]),
      default_profile ''VLESS-RESTLS-EXPERIMENTAL'' ''vless-restls'' Compatibility 7643
        (jobj [(''sni'', JString ''www.apple.com''),
          (''restls_password_secret'', JString ''restls.password'')]),
      default_profile ''VLESS-JLS-EXPERIMENTAL'' ''vless-jls'' Compatibility 7743
        (jobj [(''sni'', JString ''www.apple.com''),
          (''jls_username_secret'', JString ''jls.username''),
          (''jls_password_secret'', JString ''jls.password'')]),
      default_profile ''SS2022-SHADOWTLS-FALLBACK'' ''shadowsocks2022-shadow-tls'' Compatibility 9443
        (jobj [(''server_name'', JString ''www.apple.com''),
          (''password_secret'', JString ''shadowsocks.2022.password''),
          (''shadow_tls_password_secret'', JString ''shadowtls.password'')]),
      default_profile ''ANYTLS-EXPERIMENTAL'' ''any-tls'' Compatibility 10443
        (jobj [(''password_secret'', JString ''anytls.password''),
          (''sni'', JString ''www.apple.com'')]),
      default_profile ''ANYTLS-TLS'' ''anytls-tls'' Compatibility 10543
        (jobj [(''password_secret'', JString ''anytls.password''),
          (''sni'', JString ''node.infiproxy.local'')]),
      default_profile ''ANYTLS-SHADOWTLS-V3'' ''anytls-shadowtls-v3'' Compatibility 10643
        (jobj [(''password_secret'', JString ''anytls.password''),
          (''sni'', JString ''www.apple.com''),
          (''shadow_tls_password_secret'', JString ''shadowtls.password'')]),
      default_profile ''ANYTLS-RESTLS-EXPERIMENTAL'' ''anytls-restls'' Compatibility 10743
        (jobj [(''password_secret'', JString ''anytls.password''),
          (''sni'', JString ''www.apple.com''),
          (''restls_password_secret'', JString ''restls.password'')]),
      default_profile ''ANYTLS-JLS-EXPERIMENTAL'' ''anytls-jls'' Compatibility 10843
        (jobj [(''password_secret'', JString ''anytls.password''),
          (''sni'', JString ''www.apple.com''),
          (''jls_username_secret'', JString ''jls.username''),
          (''jls_password_secret'', JString ''jls.password'')]),
      default_profile ''HYSTERIA2-SPEED'' ''hysteria2'' Speed 443
        (jobj [(''password_secret'', JString ''hysteria2.password''),
          (''sni'', JString ''www.bing.com''),
          (''obfs_password_secret'', JString ''hysteria2.obfs_password'')]),
      default_profile ''TUIC-SPEED'' ''tuic'' Speed 11443
        (jobj [(''password_secret'', JString ''tuic.password''),
          (''sni'', JString ''www.github.com'')]),
      default_profile ''TROJAN-TLS-COMPATIBILITY'' ''trojan-tls'' Compatibility 12443
        (jobj [(''sni'', JString ''node.infiproxy.local'')]),
      default_profile ''TROJAN-SHADOWTLS-V3'' ''trojan-shadowtls-v3'' Compatibility 12543
        (jobj [(''sni'', JString ''www.apple.com''),
          (''shadow_tls_password_secret'', JString ''shadowtls.password'')]),
      default_profile ''TROJAN-RESTLS-EXPERIMENTAL'' ''trojan-restls'' Compatibility 12643
        (jobj [(''sni'', JString ''www.apple.com''),
          (''restls_password_secret'', JString ''restls.password'')]),
      default_profile ''TROJAN-JLS-EXPERIMENTAL'' ''trojan-jls'' Compatibility 12743
        (jobj [(''sni'', JString ''www.apple.com''),
          (''jls_username_secret'', JString ''jls.username''),
          (''jls_password_secret'', JString ''jls.password'')]),
      default_profile ''TROJAN-REALITY'' ''trojan-reality'' Compatibility 12843
        (jobj [(''sni'', JString ''www.microsoft.com''),
          (''public_key_secret'', JString ''xray.reality.public_key''),
          (''short_id_secret'', JString ''xray.reality.short_id''),
          (''private_key_secret'', JString ''xray.reality.private_key'')]),
      default_profile ''SNELL-V5-COMPATIBILITY'' ''snell-v5'' Compatibility 13443
        (jobj [(''psk_secret'', JString ''snell.psk'')]),
      default_profile ''SNELL-V5-SHADOWTLS-V3'' ''snell-v5-shadowtls-v3'' Compatibility 13543
        (jobj [(''psk_secret'', JString ''snell.psk''),
          (''sni'', JString ''www.apple.com''),
          (''shadow_tls_password_secret'', JString ''shadowtls.password'')]),
      default_profile ''SNELL-V5-RESTLS-EXPERIMENTAL'' ''snell-v5-restls'' Compatibility 13643
        (jobj [(''psk_secret'', JString ''snell.psk''),
          (''sni'', JString ''www.apple.com''),
          (''restls_password_secret'', JString ''restls.password'')]),
      default_profile ''SNELL-V5-JLS-EXPERIMENTAL'' ''snell-v5-jls'' Compatibility 13743
        (jobj [(''psk_secret'', JString ''snell.psk''),
          (''sni'', JString ''www.apple.com''),
          (''jls_username_secret'', JString ''jls.username''),
          (''jls_password_secret'', JString ''jls.password'')]),
      default_profile ''MIERU-TCP-COMPATIBILITY'' ''mieru'' Compatibility 14443
        (jobj [(''password_secret'', JString ''mieru.password'')]),
      default_profile ''TRUSTTUNNEL-H2-EXPERIMENTAL'' ''trusttunnel-h2'' Compatibility 15443
        (jobj [(''sni'', JString ''node.infiproxy.local'')]),
      default_profile ''SHADOWQUIC-EXPERIMENTAL'' ''shadowquic'' Speed 16443
        (jobj [(''sni'', JString ''www.apple.com'')]),
      default_profile ''SUDOKU-HTTPMASK-EXPERIMENTAL'' ''sudoku-httpmask'' Compatibility 17443
        (jobj [(''key_secret'', JString ''sudoku.key''),
          (''path_root'', JString ''infiproxy'')])]"

end
