(* ===== verification/Cores.thy ===== *)
theory Cores
  imports Protocols
begin

text \<open>
  \<open>adapters/cores.rs\<close>: the configuration documents of the five built-in runtimes. Each composer
  turns the fragments of a plan into the runtime's document; the discovery functions read the
  listeners and the users back from such a document. The JSON and YAML texts of the documents are
  the business of the codecs, which are parameters of the adapter.
\<close>

datatype flavor = FXray | FSingBox | FHysteria | FTuic | FMihomo

definition CERTIFICATE_PATH :: string where
  "CERTIFICATE_PATH = ''/etc/infiproxy-cores/tls/fullchain.pem''"

definition PRIVATE_KEY_PATH :: string where
  "PRIVATE_KEY_PATH = ''/etc/infiproxy-cores/tls/privkey.pem''"

definition XRAY_CAPABILITIES :: "string list" where
  "XRAY_CAPABILITIES = [''vless-reality-tcp'', ''vless-reality-xhttp'']"

definition SING_BOX_CAPABILITIES :: "string list" where
  "SING_BOX_CAPABILITIES =
     [''vless-reality-tcp'', ''shadowsocks2022-shadow-tls'', ''hysteria2'', ''any-tls'', ''tuic'']"

definition HYSTERIA_CAPABILITIES :: "string list" where
  "HYSTERIA_CAPABILITIES = [''hysteria2'']"

definition TUIC_CAPABILITIES :: "string list" where
  "TUIC_CAPABILITIES = [''tuic'']"

definition MIHOMO_CAPABILITIES :: "string list" where
  "MIHOMO_CAPABILITIES =
     [''vless-reality-tcp'', ''vless-reality-xhttp'', ''vless-shadowtls-v3'', ''vless-restls'',
      ''vless-jls'', ''anytls-tls'', ''anytls-shadowtls-v3'', ''anytls-restls'', ''anytls-jls'',
      ''trojan-tls'', ''trojan-shadowtls-v3'', ''trojan-restls'', ''trojan-jls'', ''trojan-reality'',
      ''snell-v5'', ''snell-v5-shadowtls-v3'', ''snell-v5-restls'', ''snell-v5-jls'', ''mieru'',
      ''trusttunnel-h2'', ''shadowquic'', ''sudoku-httpmask'']"

subsection \<open>Reading a fragment\<close>

type_synonym jmap = "(string, json) btmap"

definition payload_object :: "server_fragment \<Rightarrow> jmap res" where
  "payload_object f = ok_or ''server fragment must be an object'' (as_object (sf_payload f))"

definition payload_config :: "jmap \<Rightarrow> jmap res" where
  "payload_config payload =
     ok_or ''server fragment config is invalid'' (Option.bind (bt_get payload ''config'') as_object)"

definition payload_secrets :: "jmap \<Rightarrow> jmap res" where
  "payload_secrets payload =
     ok_or ''server fragment secrets are unresolved''
       (Option.bind (bt_get payload ''resolved_secrets'') as_object)"

definition config_text :: "jmap \<Rightarrow> string \<Rightarrow> string res" where
  "config_text config name =
     ok_or ''required adapter field is absent'' (Option.bind (bt_get config name) as_str)"

definition resolved_secret :: "jmap \<Rightarrow> string \<Rightarrow> string res" where
  "resolved_secret payload field =
     and_then (payload_config payload) (\<lambda>config.
     and_then (config_text config field) (\<lambda>reference.
     and_then (payload_secrets payload) (\<lambda>secrets.
     ok_or ''privileged secret reference is unresolved''
       (Option.bind (bt_get secrets reference) as_str))))"

definition payload_users :: "jmap \<Rightarrow> json list res" where
  "payload_users payload =
     ok_or ''server fragment users are invalid'' (Option.bind (bt_get payload ''users'') as_array)"

definition payload_port :: "jmap \<Rightarrow> u16 res" where
  "payload_port payload =
     ok_or ''server fragment port is invalid'' (Option.bind (bt_get payload ''port'') as_u16)"

definition user_uuids :: "json list \<Rightarrow> string list" where
  "user_uuids = List.map_filter (\<lambda>u. text_of (jget u ''uuid''))"

definition jsecret :: "jmap \<Rightarrow> string \<Rightarrow> json res" where
  "jsecret payload field = and_then (resolved_secret payload field) (\<lambda>s. Ok (JString s))"

subsection \<open>Xray\<close>

definition xray_user :: "bool \<Rightarrow> json \<Rightarrow> json" where
  "xray_user vision user =
     (let entry = jobj [(''id'', jindex user ''uuid''), (''email'', jindex user ''username'')]
      in if vision then jset ''flow'' (JString ''xtls-rprx-vision'') entry else entry)"

definition xray_inbound :: "server_fragment \<Rightarrow> json res" where
  "xray_inbound f =
     and_then (payload_object f) (\<lambda>payload.
     and_then (payload_config payload) (\<lambda>config.
     and_then (payload_users payload) (\<lambda>users.
     and_then (config_text config ''server_name'') (\<lambda>server_name.
     and_then (jsecret payload ''private_key_secret'') (\<lambda>private_key.
     and_then (jsecret payload ''short_id_secret'') (\<lambda>short_id.
     and_then
       (let stream = jobj
          [(''network'', JString ''tcp''),
           (''security'', JString ''reality''),
           (''realitySettings'', jobj
              [(''show'', JBool False),
               (''dest'', JString (server_name @ '':443'')),
               (''xver'', JNum 0),
               (''serverNames'', JArray [JString server_name]),
               (''privateKey'', private_key),
               (''shortIds'', JArray [short_id])])]
        in if sf_capability f = ''vless-reality-xhttp''
           then and_then (config_text config ''path'') (\<lambda>path.
             Ok (jset ''xhttpSettings'' (jobj [(''path'', JString path)])
                  (jset ''network'' (JString ''xhttp'') stream)))
           else Ok stream) (\<lambda>stream.
     and_then (payload_port payload) (\<lambda>port.
     Ok (jobj
       [(''tag'', JString (sf_profile_id f)),
        (''listen'', JString ''::''),
        (''port'', jport port),
        (''protocol'', JString ''vless''),
        (''settings'', jobj
           [(''clients'', JArray (map (xray_user (sf_capability f = ''vless-reality-tcp'')) users)),
            (''decryption'', JString ''none'')]),
        (''streamSettings'', stream)])))))))))"

definition compose_xray :: "core_plan \<Rightarrow> json res" where
  "compose_xray plan =
     and_then (collect_res (map xray_inbound (cp_fragments plan))) (\<lambda>inbounds.
     Ok (jobj
       [(''log'', jobj [(''loglevel'', JString ''warning'')]),
        (''inbounds'', JArray inbounds),
        (''outbounds'', JArray
           [jobj [(''protocol'', JString ''freedom''), (''tag'', JString ''direct'')],
            jobj [(''protocol'', JString ''blackhole''), (''tag'', JString ''blocked'')]])]))"

subsection \<open>sing-box\<close>

definition tls_files :: json where
  "tls_files = jobj
     [(''enabled'', JBool True), (''certificate_path'', JString CERTIFICATE_PATH),
      (''key_path'', JString PRIVATE_KEY_PATH)]"

definition sing_box_base :: "string \<Rightarrow> json \<Rightarrow> u16 \<Rightarrow> (string \<times> json) list" where
  "sing_box_base kind tag port =
     [(''type'', JString kind), (''tag'', tag), (''listen'', JString ''::''),
      (''listen_port'', jport port)]"

definition sing_box_vless :: "jmap \<Rightarrow> jmap \<Rightarrow> json \<Rightarrow> u16 \<Rightarrow> json list res" where
  "sing_box_vless payload config tag port =
     and_then (payload_users payload) (\<lambda>users.
     and_then (config_text config ''server_name'') (\<lambda>server_name.
     and_then (jsecret payload ''private_key_secret'') (\<lambda>private_key.
     and_then (jsecret payload ''short_id_secret'') (\<lambda>short_id.
     Ok [jobj (sing_box_base ''vless'' tag port @
       [(''users'', JArray (map (\<lambda>u. jobj
           [(''name'', jindex u ''username''), (''uuid'', jindex u ''uuid'')]) users)),
        (''tls'', jobj
           [(''enabled'', JBool True),
            (''server_name'', JString server_name),
            (''reality'', jobj
               [(''enabled'', JBool True),
                (''handshake'', jobj
                   [(''server'', JString server_name), (''server_port'', JNum 443)]),
                (''private_key'', private_key),
                (''short_id'', JArray [short_id])])])])]))))"

definition sing_box_shadowsocks ::
  "jmap \<Rightarrow> jmap \<Rightarrow> string \<Rightarrow> u16 \<Rightarrow> json list res" where
  "sing_box_shadowsocks payload config tag port =
     (let inner_tag = JString (tag @ ''-inner'') in
      and_then (jsecret payload ''password_secret'') (\<lambda>password.
      and_then (jsecret payload ''shadow_tls_password_secret'') (\<lambda>plugin_password.
      and_then (config_text config ''server_name'') (\<lambda>server_name.
      Ok [jobj [(''type'', JString ''shadowsocks''), (''tag'', inner_tag),
                (''method'', JString ''2022-blake3-aes-256-gcm''), (''password'', password)],
          jobj (sing_box_base ''shadowtls'' (JString tag) port @
            [(''version'', JNum 3),
             (''users'', JArray [jobj [(''name'', JString ''shared''), (''password'', plugin_password)]]),
             (''handshake'', jobj [(''server'', JString server_name), (''server_port'', JNum 443)]),
             (''detour'', inner_tag)])]))))"

definition sing_box_hysteria :: "jmap \<Rightarrow> jmap \<Rightarrow> json \<Rightarrow> u16 \<Rightarrow> json list res" where
  "sing_box_hysteria payload config tag port =
     and_then (jsecret payload ''password_secret'') (\<lambda>password.
     (let inbound = jobj (sing_box_base ''hysteria2'' tag port @
            [(''users'', JArray [jobj [(''name'', JString ''shared''), (''password'', password)]]),
             (''tls'', tls_files)])
      in if (case text_of (bt_get config ''obfs_password_secret'') of
               None \<Rightarrow> False | Some reference \<Rightarrow> trim reference \<noteq> [])
         then and_then (jsecret payload ''obfs_password_secret'') (\<lambda>obfs.
           Ok [jset ''obfs'' (jobj [(''type'', JString ''salamander''), (''password'', obfs)]) inbound])
         else Ok [inbound]))"

definition sing_box_anytls :: "jmap \<Rightarrow> json \<Rightarrow> u16 \<Rightarrow> json list res" where
  "sing_box_anytls payload tag port =
     and_then (jsecret payload ''password_secret'') (\<lambda>password.
     Ok [jobj (sing_box_base ''anytls'' tag port @
       [(''users'', JArray [jobj [(''name'', JString ''shared''), (''password'', password)]]),
        (''tls'', tls_files)])])"

definition sing_box_tuic :: "jmap \<Rightarrow> json \<Rightarrow> u16 \<Rightarrow> json list res" where
  "sing_box_tuic payload tag port =
     and_then (jsecret payload ''password_secret'') (\<lambda>password.
     and_then (payload_users payload) (\<lambda>users.
     Ok [jobj (sing_box_base ''tuic'' tag port @
       [(''users'', JArray (map (\<lambda>u. jobj
           [(''name'', jindex u ''username''), (''uuid'', jindex u ''uuid''), (''password'', password)])
           users)),
        (''congestion_control'', JString ''bbr''),
        (''zero_rtt_handshake'', JBool False),
        (''tls'', tls_files)])]))"

definition sing_box_inbounds :: "server_fragment \<Rightarrow> json list res" where
  "sing_box_inbounds f =
     and_then (payload_object f) (\<lambda>payload.
     and_then (payload_config payload) (\<lambda>config.
     and_then (payload_port payload) (\<lambda>port.
     (let tag = sf_profile_id f; capability = sf_capability f in
      if capability = ''vless-reality-tcp'' then sing_box_vless payload config (JString tag) port
      else if capability = ''shadowsocks2022-shadow-tls'' then sing_box_shadowsocks payload config tag port
      else if capability = ''hysteria2'' then sing_box_hysteria payload config (JString tag) port
      else if capability = ''any-tls'' then sing_box_anytls payload (JString tag) port
      else if capability = ''tuic'' then sing_box_tuic payload (JString tag) port
      else Err ''sing-box adapter received an unsupported capability''))))"

definition compose_sing_box :: "core_plan \<Rightarrow> json res" where
  "compose_sing_box plan =
     and_then (collect_res (map sing_box_inbounds (cp_fragments plan))) (\<lambda>inbounds.
     Ok (jobj
       [(''log'', jobj [(''level'', JString ''warn'')]),
        (''inbounds'', JArray (concat inbounds)),
        (''outbounds'', JArray
           [jobj [(''type'', JString ''direct''), (''tag'', JString ''direct'')],
            jobj [(''type'', JString ''block''), (''tag'', JString ''block'')]])]))"

subsection \<open>Hysteria and TUIC\<close>

definition hysteria_document :: "server_fragment \<Rightarrow> json res" where
  "hysteria_document f =
     and_then (payload_object f) (\<lambda>payload.
     and_then (payload_port payload) (\<lambda>port.
     and_then (jsecret payload ''password_secret'') (\<lambda>password.
     (let document = jobj
        [(''listen'', JString ('':'' @ show_nat (unat port))),
         (''tls'', jobj [(''cert'', JString CERTIFICATE_PATH), (''key'', JString PRIVATE_KEY_PATH)]),
         (''auth'', jobj [(''type'', JString ''password''), (''password'', password)])]
      in and_then (payload_config payload) (\<lambda>config.
         if bt_get config ''obfs_password_secret'' \<noteq> None
         then and_then (jsecret payload ''obfs_password_secret'') (\<lambda>obfs.
           Ok (jset ''obfs''
             (jobj [(''type'', JString ''salamander''), (''salamander'', jobj [(''password'', obfs)])])
             document))
         else Ok document)))))"

definition compose_hysteria :: "core_plan \<Rightarrow> json res" where
  "compose_hysteria plan =
     (case cp_fragments plan of
        [] \<Rightarrow> Ok (jobj [])
      | [f] \<Rightarrow> hysteria_document f
      | _ \<Rightarrow> Err ''native runtime supports one managed server profile'')"

definition tuic_document :: "server_fragment \<Rightarrow> json res" where
  "tuic_document f =
     and_then (payload_object f) (\<lambda>payload.
     and_then (jsecret payload ''password_secret'') (\<lambda>password.
     and_then (payload_users payload) (\<lambda>users.
     and_then (payload_port payload) (\<lambda>port.
     Ok (jobj
       [(''server'', JString (''[::]:'' @ show_nat (unat port))),
        (''users'', JObject (bt_collect (map (\<lambda>uuid. (uuid, password)) (user_uuids users)) [])),
        (''certificate'', JString CERTIFICATE_PATH),
        (''private_key'', JString PRIVATE_KEY_PATH),
        (''congestion_control'', JString ''bbr''),
        (''alpn'', jstrings [''h3'']),
        (''zero_rtt_handshake'', JBool False)])))))"

definition compose_tuic :: "core_plan \<Rightarrow> json res" where
  "compose_tuic plan =
     (case cp_fragments plan of
        [] \<Rightarrow> Ok (jobj
          [(''server'', JString ''[::]:0''), (''users'', jobj []),
           (''certificate'', JString CERTIFICATE_PATH), (''private_key'', JString PRIVATE_KEY_PATH)])
      | [f] \<Rightarrow> tuic_document f
      | _ \<Rightarrow> Err ''native runtime supports one managed server profile'')"

subsection \<open>Mihomo\<close>

definition wrapper_for_capability :: "string \<Rightarrow> security_wrapper res" where
  "wrapper_for_capability capability =
     (if ends_with capability ''-tls'' \<or> capability = ''anytls-tls'' then Ok StandardTls
      else if ends_with capability ''-reality'' then Ok Reality
      else if ends_with capability ''-shadowtls-v3'' then Ok ShadowTlsV3
      else if ends_with capability ''-restls'' then Ok ResTls
      else if ends_with capability ''-jls'' then Ok Jls
      else Err ''unsupported Mihomo security wrapper'')"

definition camouflage_host :: "jmap \<Rightarrow> string res" where
  "camouflage_host config =
     (case config_text config ''sni'' of
        Inr sni \<Rightarrow> Ok sni
      | Inl _ \<Rightarrow> config_text config ''server_name'')"

definition reality_server_options :: "jmap \<Rightarrow> jmap \<Rightarrow> json res" where
  "reality_server_options payload config =
     and_then (camouflage_host config) (\<lambda>host.
     and_then (jsecret payload ''private_key_secret'') (\<lambda>private_key.
     and_then (jsecret payload ''short_id_secret'') (\<lambda>short_id.
     Ok (jobj
       [(''dest'', JString (host @ '':443'')),
        (''private-key'', private_key),
        (''short-id'', JArray [short_id]),
        (''server-names'', JArray [JString host])]))))"

definition server_wrapper :: "jmap \<Rightarrow> jmap \<Rightarrow> security_wrapper \<Rightarrow> json \<Rightarrow> json res" where
  "server_wrapper payload config w listener =
     (let destination = and_then (config_text config ''sni'') (\<lambda>sni. Ok (JString (sni @ '':443'')))
      in case w of
        StandardTls \<Rightarrow>
          Ok (jset ''private-key'' (JString PRIVATE_KEY_PATH)
                (jset ''certificate'' (JString CERTIFICATE_PATH) listener))
      | Reality \<Rightarrow>
          and_then (reality_server_options payload config) (\<lambda>options.
          Ok (jset ''reality-config'' options listener))
      | ShadowTlsV3 \<Rightarrow>
          and_then (jsecret payload ''shadow_tls_password_secret'') (\<lambda>password.
          and_then destination (\<lambda>dest.
          Ok (jset ''shadow-tls''
            (jobj [(''enable'', JBool True), (''version'', JNum 3),
                   (''users'', JArray [jobj [(''name'', JString ''shared''), (''password'', password)]]),
                   (''handshake'', jobj [(''dest'', dest)])]) listener)))
      | ResTls \<Rightarrow>
          and_then destination (\<lambda>dest.
          and_then (jsecret payload ''restls_password_secret'') (\<lambda>password.
          Ok (jset ''res-tls''
            (jobj [(''enable'', JBool True), (''dest'', dest), (''password'', password)]) listener)))
      | Jls \<Rightarrow>
          and_then (jsecret payload ''jls_username_secret'') (\<lambda>username.
          and_then (jsecret payload ''jls_password_secret'') (\<lambda>password.
          and_then destination (\<lambda>dest.
          Ok (jset ''jls-config''
            (jobj [(''enable'', JBool True),
                   (''users'', JArray [jobj [(''username'', username), (''password'', password)]]),
                   (''dest'', dest)]) listener)))))"

definition wrapped_listener :: "jmap \<Rightarrow> jmap \<Rightarrow> string \<Rightarrow> json \<Rightarrow> json res" where
  "wrapped_listener payload config capability listener =
     and_then (wrapper_for_capability capability) (\<lambda>w. server_wrapper payload config w listener)"

definition mihomo_base :: "string \<Rightarrow> json \<Rightarrow> u16 \<Rightarrow> (string \<times> json) list" where
  "mihomo_base kind name port =
     [(''name'', name), (''type'', JString kind), (''listen'', JString ''::''), (''port'', jport port)]"

definition mihomo_vless_user :: "bool \<Rightarrow> json \<Rightarrow> json" where
  "mihomo_vless_user vision user =
     (let entry = jobj [(''username'', jindex user ''username''), (''uuid'', jindex user ''uuid'')]
      in if vision then jset ''flow'' (JString ''xtls-rprx-vision'') entry else entry)"

definition mihomo_password_user :: "json \<Rightarrow> json" where
  "mihomo_password_user user =
     jobj [(''username'', jindex user ''uuid''), (''password'', jindex user ''uuid'')]"

definition mihomo_vless :: "jmap \<Rightarrow> jmap \<Rightarrow> string \<Rightarrow> json \<Rightarrow> u16 \<Rightarrow> json res" where
  "mihomo_vless payload config capability name port =
     and_then (payload_users payload) (\<lambda>users.
     (let listener = jobj (mihomo_base ''vless'' name port @
            [(''users'', JArray (map (mihomo_vless_user (capability = ''vless-reality-tcp'')) users))])
      in if capability = ''vless-reality-tcp''
         then and_then (reality_server_options payload config) (\<lambda>options.
              Ok (jset ''reality-config'' options listener))
         else if capability = ''vless-reality-xhttp''
         then and_then (reality_server_options payload config) (\<lambda>options.
              and_then (config_text config ''path'') (\<lambda>path.
              and_then (config_text config ''server_name'') (\<lambda>host.
              Ok (jset ''xhttp-config''
                (jobj [(''path'', JString path), (''host'', JString host), (''mode'', JString ''auto'')])
                (jset ''reality-config'' options listener)))))
         else wrapped_listener payload config capability listener))"

definition mihomo_anytls :: "jmap \<Rightarrow> jmap \<Rightarrow> string \<Rightarrow> json \<Rightarrow> u16 \<Rightarrow> json res" where
  "mihomo_anytls payload config capability name port =
     and_then (jsecret payload ''password_secret'') (\<lambda>password.
     wrapped_listener payload config capability
       (jobj (mihomo_base ''anytls'' name port @ [(''users'', jobj [(''shared'', password)])])))"

definition mihomo_trojan :: "jmap \<Rightarrow> jmap \<Rightarrow> string \<Rightarrow> json \<Rightarrow> u16 \<Rightarrow> json res" where
  "mihomo_trojan payload config capability name port =
     and_then (payload_users payload) (\<lambda>users.
     wrapped_listener payload config capability
       (jobj (mihomo_base ''trojan'' name port @
         [(''users'', JArray (map mihomo_password_user users))])))"

definition mihomo_snell :: "jmap \<Rightarrow> jmap \<Rightarrow> string \<Rightarrow> json \<Rightarrow> u16 \<Rightarrow> json res" where
  "mihomo_snell payload config capability name port =
     and_then (jsecret payload ''psk_secret'') (\<lambda>psk.
     (let listener = jobj (mihomo_base ''snell'' name port @
            [(''psk'', psk), (''version'', JNum 5), (''udp'', JBool True)])
      in if capability \<noteq> ''snell-v5'' then wrapped_listener payload config capability listener
         else Ok listener))"

definition mihomo_mieru :: "jmap \<Rightarrow> json \<Rightarrow> u16 \<Rightarrow> json res" where
  "mihomo_mieru payload name port =
     and_then (jsecret payload ''password_secret'') (\<lambda>password.
     and_then (payload_users payload) (\<lambda>users.
     Ok (jobj (mihomo_base ''mieru'' name port @
       [(''transport'', JString ''TCP''),
        (''users'', JObject (bt_collect (map (\<lambda>uuid. (uuid, password)) (user_uuids users)) [])),
        (''user-hint-is-mandatory'', JBool True)]))))"

definition mihomo_trusttunnel :: "jmap \<Rightarrow> json \<Rightarrow> u16 \<Rightarrow> json res" where
  "mihomo_trusttunnel payload name port =
     and_then (payload_users payload) (\<lambda>users.
     Ok (jobj (mihomo_base ''trusttunnel'' name port @
       [(''users'', JArray (map mihomo_password_user users)),
        (''certificate'', JString CERTIFICATE_PATH), (''private-key'', JString PRIVATE_KEY_PATH),
        (''network'', jstrings [''tcp''])])))"

definition mihomo_shadowquic :: "jmap \<Rightarrow> jmap \<Rightarrow> json \<Rightarrow> u16 \<Rightarrow> json res" where
  "mihomo_shadowquic payload config name port =
     and_then (payload_users payload) (\<lambda>users.
     and_then (config_text config ''sni'') (\<lambda>sni.
     Ok (jobj (mihomo_base ''shadowquic'' name port @
       [(''users'', JArray (map mihomo_password_user users)),
        (''jls-upstream'', jobj [(''addr'', JString (sni @ '':443'')), (''sni'', JString sni)]),
        (''alpn'', jstrings [''h3'']), (''quic-versions'', jstrings [''v1'']),
        (''zero-rtt'', JBool False), (''congestion-controller'', JString ''cubic'')]))))"

definition mihomo_sudoku :: "jmap \<Rightarrow> jmap \<Rightarrow> json \<Rightarrow> u16 \<Rightarrow> json res" where
  "mihomo_sudoku payload config name port =
     and_then (jsecret payload ''key_secret'') (\<lambda>key.
     and_then (config_text config ''path_root'') (\<lambda>path_root.
     Ok (jobj (mihomo_base ''sudoku'' name port @
       [(''key'', key), (''aead-method'', JString ''chacha20-poly1305''),
        (''padding-min'', JNum 2), (''padding-max'', JNum 7),
        (''table-type'', JString ''prefer_ascii''), (''handshake-timeout'', JNum 5),
        (''enable-pure-downlink'', JBool False),
        (''httpmask'', jobj
           [(''disable'', JBool False), (''mode'', JString ''legacy''),
            (''path-root'', JString path_root)])]))))"

definition VLESS_CAPABILITIES :: "string list" where
  "VLESS_CAPABILITIES =
     [''vless-reality-tcp'', ''vless-reality-xhttp'', ''vless-shadowtls-v3'', ''vless-restls'',
      ''vless-jls'']"

definition mihomo_listener :: "server_fragment \<Rightarrow> json res" where
  "mihomo_listener f =
     and_then (payload_object f) (\<lambda>payload.
     and_then (payload_config payload) (\<lambda>config.
     and_then (payload_port payload) (\<lambda>port.
     (let name = JString (sf_profile_id f); capability = sf_capability f in
      if capability \<in> set VLESS_CAPABILITIES then mihomo_vless payload config capability name port
      else if starts_with capability ''anytls-'' then mihomo_anytls payload config capability name port
      else if starts_with capability ''trojan-'' then mihomo_trojan payload config capability name port
      else if capability = ''snell-v5'' \<or> starts_with capability ''snell-v5-''
      then mihomo_snell payload config capability name port
      else if capability = ''mieru'' then mihomo_mieru payload name port
      else if capability = ''trusttunnel-h2'' then mihomo_trusttunnel payload name port
      else if capability = ''shadowquic'' then mihomo_shadowquic payload config name port
      else if capability = ''sudoku-httpmask'' then mihomo_sudoku payload config name port
      else Err ''mihomo adapter received an unsupported capability''))))"

definition compose_mihomo :: "core_plan \<Rightarrow> json res" where
  "compose_mihomo plan =
     and_then (collect_res (map mihomo_listener (cp_fragments plan))) (\<lambda>listeners.
     Ok (jobj
       [(''log-level'', JString ''warning''),
        (''mode'', JString ''rule''),
        (''listeners'', JArray listeners),
        (''rules'', jstrings [''MATCH,DIRECT''])]))"

definition compose_document :: "flavor \<Rightarrow> core_plan \<Rightarrow> json res" where
  "compose_document flavor plan =
     (case flavor of
        FXray \<Rightarrow> compose_xray plan
      | FSingBox \<Rightarrow> compose_sing_box plan
      | FHysteria \<Rightarrow> compose_hysteria plan
      | FTuic \<Rightarrow> compose_tuic plan
      | FMihomo \<Rightarrow> compose_mihomo plan)"

subsection \<open>Discovery in a configuration document\<close>

definition entry_port :: "string \<Rightarrow> string list \<Rightarrow> json \<Rightarrow> (u16 \<times> bool) list" where
  "entry_port key udp_kinds entry =
     (case Option.bind (jget entry key) as_u16 of
        None \<Rightarrow> []
      | Some port \<Rightarrow>
          [(port, case text_of (jget entry ''type'') of None \<Rightarrow> False | Some kind \<Rightarrow> kind \<in> set udp_kinds)])"

definition xray_port :: "json \<Rightarrow> (u16 \<times> bool) list" where
  "xray_port inbound =
     (case Option.bind (jget inbound ''port'') as_u16 of None \<Rightarrow> [] | Some port \<Rightarrow> [(port, False)])"

definition address_port :: "json option \<Rightarrow> u16 option" where
  "address_port v =
     (case text_of v of None \<Rightarrow> None | Some address \<Rightarrow> port_number (last (split_on (CHR '':'') address)))"

definition discover_config_ports :: "flavor \<Rightarrow> json \<Rightarrow> (u16 \<times> bool) list" where
  "discover_config_ports flavor document =
     (case flavor of
        FXray \<Rightarrow> concat (map xray_port (array_or_empty (jget document ''inbounds'')))
      | FSingBox \<Rightarrow>
          concat (map (entry_port ''listen_port'' [''hysteria2'', ''tuic''])
            (array_or_empty (jget document ''inbounds'')))
      | FHysteria \<Rightarrow>
          (case address_port (jget document ''listen'') of None \<Rightarrow> [] | Some port \<Rightarrow> [(port, True)])
      | FTuic \<Rightarrow>
          (case address_port (jget document ''server'') of
             None \<Rightarrow> [] | Some port \<Rightarrow> if port \<noteq> 0 then [(port, True)] else [])
      | FMihomo \<Rightarrow>
          concat (map (entry_port ''port'' [''shadowquic''])
            (array_or_empty (jget document ''listeners''))))"

definition entry_users :: "string \<Rightarrow> json list \<Rightarrow> string list" where
  "entry_users key = List.map_filter (\<lambda>user. text_of (jget user key))"

definition object_keys :: "json option \<Rightarrow> string list" where
  "object_keys v = (case v of Some (JObject m) \<Rightarrow> map fst m | _ \<Rightarrow> [])"

definition xray_users :: "json \<Rightarrow> string list" where
  "xray_users inbound =
     entry_users ''id'' (array_or_empty (Option.bind (jget inbound ''settings'') (\<lambda>s. jget s ''clients'')))"

definition sing_box_users :: "json \<Rightarrow> string list" where
  "sing_box_users inbound = entry_users ''uuid'' (array_or_empty (jget inbound ''users''))"

definition discover_config_users :: "flavor \<Rightarrow> json \<Rightarrow> string set res" where
  "discover_config_users flavor document =
     (case flavor of
        FXray \<Rightarrow> Ok (set (concat (map xray_users (array_or_empty (jget document ''inbounds'')))))
      | FSingBox \<Rightarrow> Ok (set (concat (map sing_box_users (array_or_empty (jget document ''inbounds'')))))
      | FTuic \<Rightarrow> Ok (set (object_keys (jget document ''users'')))
      | FHysteria \<Rightarrow> Ok {}
      | FMihomo \<Rightarrow> Err ''Mihomo user discovery requires the active core plan'')"

text \<open>Mihomo spells the users of each protocol differently; the active plan says which is which.\<close>

datatype user_spelling = UuidArray | UsernameArray | ObjectKeys

definition user_representation :: "string \<Rightarrow> (string \<times> user_spelling) res" where
  "user_representation capability =
     (if starts_with capability ''vless-'' then Ok (''vless'', UuidArray)
      else if starts_with capability ''trojan-'' then Ok (''trojan'', UsernameArray)
      else if capability = ''mieru'' then Ok (''mieru'', ObjectKeys)
      else if capability = ''trusttunnel-h2'' then Ok (''trusttunnel'', UsernameArray)
      else if capability = ''shadowquic'' then Ok (''shadowquic'', UsernameArray)
      else Err ''unsupported per-user Mihomo listener capability'')"

definition spelled_users :: "user_spelling \<Rightarrow> json \<Rightarrow> string list" where
  "spelled_users spelling listener =
     (case spelling of
        UuidArray \<Rightarrow> entry_users ''uuid'' (array_or_empty (jget listener ''users''))
      | UsernameArray \<Rightarrow> entry_users ''username'' (array_or_empty (jget listener ''users''))
      | ObjectKeys \<Rightarrow> object_keys (jget listener ''users''))"

fun select_listeners :: "server_fragment list \<Rightarrow> (string, string) btmap \<Rightarrow> (string, string) btmap res" where
  "select_listeners [] selected = Ok selected"
| "select_listeners (f # fs) selected =
     (if sf_expected_user_ids f = None then select_listeners fs selected
      else if bt_get selected (sf_profile_id f) \<noteq> None
      then Err ''duplicate per-user Mihomo profile identifier''
      else select_listeners fs (bt_insert (sf_profile_id f) (sf_capability f) selected))"

fun listener_users ::
  "(string, string) btmap \<Rightarrow> json list \<Rightarrow> string set \<Rightarrow> string set \<Rightarrow> string set res" where
  "listener_users selected [] matched users = Ok users"
| "listener_users selected (l # ls) matched users =
     (case text_of (jget l ''name'') of
        None \<Rightarrow> listener_users selected ls matched users
      | Some name \<Rightarrow>
          (case bt_get selected name of
             None \<Rightarrow> listener_users selected ls matched users
           | Some capability \<Rightarrow>
               if name \<in> matched then Err ''duplicate per-user Mihomo listener identifier''
               else and_then (user_representation capability) (\<lambda>(kind, spelling).
                 if text_of (jget l ''type'') \<noteq> Some kind
                 then Err ''Mihomo per-user listener type does not match the active plan''
                 else listener_users selected ls (insert name matched)
                        (users \<union> set (spelled_users spelling l)))))"

definition discover_mihomo_config_users :: "json \<Rightarrow> core_plan \<Rightarrow> string set res" where
  "discover_mihomo_config_users document plan =
     and_then (select_listeners (cp_fragments plan) []) (\<lambda>selected.
     listener_users selected (array_or_empty (jget document ''listeners'')) {} {})"

end
