(* ===== verification/Module_Manifest.thy ===== *)
theory Module_Manifest
  imports File_Store Topology
begin

text \<open>
  \<open>module_manifest.rs\<close>: the declarative manifests of the runtime modules. A manifest is a small
  \<open>key=value\<close> file; parsing checks every key and value, validation confines the service, the binary
  and the configuration path to the module's own tree, and \<open>pipe_record\<close> hands the module to the
  shell updater as one line of fourteen fields. Release tags are compared by their three numeric
  components. The file system is the map of \<open>Filesystem\<close> with owner and mode bits of each path.
\<close>

definition MAX_MANIFEST_BYTES :: nat where
  "MAX_MANIFEST_BYTES = 16 * 1024"

definition FIELDS :: "string list" where
  "FIELDS =
     [''id'', ''name'', ''kind'', ''role'', ''repo'', ''upstream'', ''ref'', ''driver'', ''root'',
      ''binary'', ''service'', ''config'', ''asset_amd64'', ''asset_arm64'']"

datatype upstream_kind =
    Release
  | PinnedRelease (pinned_tag: string)
  | Commit (commit_ref: string)

record module_spec =
  mo_id :: string
  mo_name :: string
  mo_kind :: string
  mo_role :: string
  mo_repo :: string
  mo_upstream :: upstream_kind
  mo_driver :: string
  mo_root :: string
  mo_binary :: string
  mo_binary_path :: string
  mo_service :: string
  mo_config_path :: string
  mo_asset_amd64 :: string
  mo_asset_arm64 :: string

record read_options =
  ro_root_owned :: bool
  ro_registration :: bool

subsection \<open>Character classes\<close>

definition valid_id :: "string \<Rightarrow> bool" where
  "valid_id v \<longleftrightarrow>
     v \<noteq> [] \<and> length v \<le> 32 \<and> is_lower (hd v)
     \<and> list_all (\<lambda>c. is_lower c \<or> is_digit c \<or> c = CHR ''-'') v"

definition safe_repo_part :: "string \<Rightarrow> bool" where
  "safe_repo_part v \<longleftrightarrow>
     v \<noteq> [] \<and> length v \<le> 100
     \<and> list_all (\<lambda>c. is_alphanumeric c \<or> c \<in> {CHR ''.'', CHR ''_'', CHR ''-''}) v"

definition valid_repo :: "string \<Rightarrow> bool" where
  "valid_repo v =
     (case split_on (CHR ''/'') v of
        [owner, repo] \<Rightarrow> safe_repo_part owner \<and> safe_repo_part repo
      | _ \<Rightarrow> False)"

definition valid_ref :: "string \<Rightarrow> bool" where
  "valid_ref v \<longleftrightarrow>
     v \<noteq> [] \<and> length v \<le> 120 \<and> \<not> starts_with v ''/'' \<and> \<not> contains_str v ''..''
     \<and> list_all (\<lambda>c. is_alphanumeric c \<or> c \<in> {CHR ''.'', CHR ''_'', CHR ''/'', CHR ''-''}) v"

definition safe_text :: "string \<Rightarrow> bool" where
  "safe_text v \<longleftrightarrow>
     list_all (\<lambda>c. is_ascii c \<and> \<not> is_ascii_control c \<and> c \<notin> {CHR ''='', CHR ''|''}) v"

definition safe_filename :: "string \<Rightarrow> bool" where
  "safe_filename v \<longleftrightarrow>
     v \<noteq> [] \<and> length v \<le> 80
     \<and> list_all (\<lambda>c. is_alphanumeric c \<or> c \<in> {CHR ''.'', CHR ''_'', CHR ''+'', CHR ''-''}) v"

definition safe_service :: "string \<Rightarrow> bool" where
  "safe_service v \<longleftrightarrow>
     ends_with v ''.service'' \<and> length v \<le> 128
     \<and> list_all (\<lambda>c. is_alphanumeric c \<or> c \<in> {CHR ''.'', CHR ''_'', CHR ''@'', CHR ''-''}) v"

definition safe_asset :: "string \<Rightarrow> bool" where
  "safe_asset v \<longleftrightarrow>
     v \<noteq> [] \<and> length v \<le> 180
     \<and> list_all (\<lambda>c. is_alphanumeric c
          \<or> c \<in> {CHR ''.'', CHR ''_'', CHR ''+'', CHR ''-'', CHR ''{'', CHR ''}''}) v"

definition safe_path_char :: "char \<Rightarrow> bool" where
  "safe_path_char c \<longleftrightarrow>
     is_alphanumeric c \<or> c \<in> {CHR ''/'', CHR ''.'', CHR ''_'', CHR ''+'', CHR ''-''}"

subsection \<open>Release versions\<close>

type_synonym version = "u64 \<times> u64 \<times> u64"

fun split_by :: "(char \<Rightarrow> bool) \<Rightarrow> string \<Rightarrow> string list" where
  "split_by p [] = [[]]"
| "split_by p (c # cs) =
     (if p c then [] # split_by p cs
      else (case split_by p cs of [] \<Rightarrow> [[c]] | w # ws \<Rightarrow> (c # w) # ws))"

definition triple :: "u64 list \<Rightarrow> version option" where
  "triple xs = (case xs of [a, b, c] \<Rightarrow> Some (a, b, c) | _ \<Rightarrow> None)"

definition normalized_release_version :: "string \<Rightarrow> version option" where
  "normalized_release_version v =
     (case dropWhile (\<lambda>c. \<not> is_digit c) v of
        [] \<Rightarrow> None
      | rest \<Rightarrow>
          (case collect_res (map parse_u64 (filter (\<lambda>w. w \<noteq> []) (split_by (\<lambda>c. \<not> is_digit c) rest))) of
             Inl _ \<Rightarrow> None
           | Inr components \<Rightarrow> triple components))"

datatype ordering = Less | Equal | Greater

definition compare_versions :: "version \<Rightarrow> version \<Rightarrow> ordering" where
  "compare_versions l r =
     (case (l, r) of ((a, b, c), (a', b', c')) \<Rightarrow>
        if a < a' then Less else if a' < a then Greater
        else if b < b' then Less else if b' < b then Greater
        else if c < c' then Less else if c' < c then Greater else Equal)"

definition compare_release_versions :: "string \<Rightarrow> string \<Rightarrow> ordering res" where
  "compare_release_versions l r =
     and_then (ok_or (''unsupported release version: '' @ l) (normalized_release_version l)) (\<lambda>vl.
     and_then (ok_or (''unsupported release version: '' @ r) (normalized_release_version r)) (\<lambda>vr.
     Ok (compare_versions vl vr)))"

subsection \<open>Validation\<close>

definition upstream_check :: "upstream_kind \<Rightarrow> unit res" where
  "upstream_check u =
     (case u of
        Release \<Rightarrow> Ok ()
      | Commit git_ref \<Rightarrow> if valid_ref git_ref then Ok () else Err ''invalid Git reference''
      | PinnedRelease tag \<Rightarrow>
          if \<not> valid_ref tag \<or> normalized_release_version tag = None
          then Err ''invalid pinned release tag'' else Ok ())"

definition is_release :: "upstream_kind \<Rightarrow> bool" where
  "is_release u \<longleftrightarrow> (case u of Commit _ \<Rightarrow> False | _ \<Rightarrow> True)"

definition label_check :: "string \<times> string \<times> nat \<Rightarrow> unit res" where
  "label_check x =
     (case x of (label, v, limit) \<Rightarrow>
        if v = [] \<or> limit < length v then Err (''invalid module '' @ label) else Ok ())"

definition driver_check :: "module_spec \<Rightarrow> unit res" where
  "driver_check s =
     (if mo_driver s = ''release'' then
        (if mo_root s \<noteq> ''cores''
            \<or> mo_service s \<noteq> ''infiproxy-'' @ mo_id s @ ''.service''
            \<or> \<not> starts_with (mo_config_path s) (''/etc/infiproxy-cores/'' @ mo_id s @ ''/'')
         then Err ''generic modules must use their own core service and config tree'' else Ok ())
      else if mo_driver s = ''headscale'' then
        (if mo_id s \<noteq> ''headscale'' \<or> mo_root s \<noteq> ''modules''
            \<or> mo_service s \<noteq> ''headscale.service''
            \<or> mo_config_path s \<noteq> ''/etc/headscale/config.yaml''
         then Err ''invalid Headscale module contract'' else Ok ())
      else if mo_driver s = ''mtproto-source'' then
        (if mo_id s \<noteq> ''mtproto'' \<or> mo_root s \<noteq> ''cores''
            \<or> mo_service s \<noteq> ''infiproxy-mtproto.service''
            \<or> \<not> starts_with (mo_config_path s) ''/etc/infiproxy-cores/mtproto/''
         then Err ''invalid MTProto module contract'' else Ok ())
      else Err ''unsupported module driver'')"

definition guard :: "bool \<Rightarrow> string \<Rightarrow> unit res" where
  "guard bad message = (if bad then Err message else Ok ())"

definition validate_spec :: "module_spec \<Rightarrow> bool \<Rightarrow> module_spec res" where
  "validate_spec s registration =
     and_then (guard (\<not> valid_id (mo_id s)) ''invalid module id'') (\<lambda>_.
     and_then (each_res label_check
       [(''name'', mo_name s, 80), (''kind'', mo_kind s, 48), (''role'', mo_role s, 160)]) (\<lambda>_.
     and_then (guard (\<not> valid_repo (mo_repo s)) ''invalid GitHub repository'') (\<lambda>_.
     and_then (upstream_check (mo_upstream s)) (\<lambda>_.
     and_then (guard (mo_root s \<notin> {''cores'', ''modules''}) ''invalid runtime root'') (\<lambda>_.
     and_then (guard (\<not> safe_filename (mo_binary s)) ''invalid binary name'') (\<lambda>_.
     and_then (guard (\<not> safe_service (mo_service s)) ''invalid service name'') (\<lambda>_.
     and_then (guard (\<not> starts_with (mo_config_path s) ''/etc/'' \<or> contains_str (mo_config_path s) ''..''
          \<or> \<not> list_all safe_path_char (mo_config_path s)) ''invalid config path'') (\<lambda>_.
     and_then (guard (is_release (mo_upstream s)
          \<and> (\<not> safe_asset (mo_asset_amd64 s) \<or> \<not> safe_asset (mo_asset_arm64 s)))
          ''invalid release asset template'') (\<lambda>_.
     and_then (driver_check s) (\<lambda>_.
     and_then (guard (registration
          \<and> (\<not> is_release (mo_upstream s) \<or> mo_driver s \<noteq> ''release'' \<or> mo_root s \<noteq> ''cores''))
          ''registration only supports generic release modules under cores'') (\<lambda>_.
     Ok (s\<lparr>mo_binary_path :=
       ''/opt/infiproxy/'' @ mo_root s @ ''/'' @ mo_id s @ ''/current/'' @ mo_binary s\<rparr>))))))))))))"

subsection \<open>Parsing\<close>

type_synonym values_map = "(string, string) btmap"

definition line_message :: "string \<Rightarrow> nat \<Rightarrow> string \<Rightarrow> string" where
  "line_message shown index message = shown @ '':'' @ show_nat (index + 1) @ '': '' @ message"

definition manifest_line :: "string \<Rightarrow> nat \<Rightarrow> string \<Rightarrow> values_map \<Rightarrow> values_map res" where
  "manifest_line shown index raw values_so_far =
     (let line = trim raw in
      if line = [] \<or> starts_with line ''#'' then Ok values_so_far
      else (case split_once (CHR ''='') line of
          None \<Rightarrow> Err (line_message shown index ''expected key=value'')
        | Some (k, v) \<Rightarrow>
            (let key = trim k; v = trim v in
             if key \<notin> set FIELDS then Err (line_message shown index (''unknown key '' @ key))
             else if \<not> safe_text v then Err (line_message shown index ''unsafe value'')
             else if bt_get values_so_far key \<noteq> None
             then Err (line_message shown index (''duplicate key '' @ key))
             else Ok (bt_insert key v values_so_far))))"

fun manifest_lines :: "string \<Rightarrow> nat \<Rightarrow> string list \<Rightarrow> values_map \<Rightarrow> values_map res" where
  "manifest_lines shown index [] vs = Ok vs"
| "manifest_lines shown index (l # ls) vs =
     and_then (manifest_line shown index l vs) (manifest_lines shown (index + 1) ls)"

definition manifest_value :: "string \<Rightarrow> values_map \<Rightarrow> string \<Rightarrow> string res" where
  "manifest_value shown vs key = ok_or (shown @ '': missing '' @ key) (bt_get vs key)"

definition manifest_upstream :: "string \<Rightarrow> values_map \<Rightarrow> upstream_kind res" where
  "manifest_upstream shown vs =
     and_then (manifest_value shown vs ''upstream'') (\<lambda>u.
     if u = ''release'' then Ok Release
     else if u = ''pinned-release''
     then and_then (manifest_value shown vs ''ref'') (\<lambda>tag. Ok (PinnedRelease tag))
     else if u = ''commit''
     then and_then (manifest_value shown vs ''ref'') (\<lambda>git_ref. Ok (Commit git_ref))
     else Err (shown @ '': unsupported upstream''))"

definition manifest_spec :: "string \<Rightarrow> values_map \<Rightarrow> module_spec res" where
  "manifest_spec shown vs =
     (let get = manifest_value shown vs in
      and_then (manifest_upstream shown vs) (\<lambda>upstream.
      and_then (get ''id'') (\<lambda>i.
      and_then (get ''name'') (\<lambda>name.
      and_then (get ''kind'') (\<lambda>kind.
      and_then (get ''role'') (\<lambda>role.
      and_then (get ''repo'') (\<lambda>repo.
      and_then (get ''driver'') (\<lambda>driver.
      and_then (get ''root'') (\<lambda>root.
      and_then (get ''binary'') (\<lambda>binary.
      and_then (get ''service'') (\<lambda>service.
      and_then (get ''config'') (\<lambda>config.
      and_then (get ''asset_amd64'') (\<lambda>amd64.
      and_then (get ''asset_arm64'') (\<lambda>arm64.
      Ok \<lparr>mo_id = i, mo_name = name, mo_kind = kind, mo_role = role, mo_repo = repo,
          mo_upstream = upstream, mo_driver = driver, mo_root = root, mo_binary = binary,
          mo_binary_path = [], mo_service = service, mo_config_path = config,
          mo_asset_amd64 = amd64, mo_asset_arm64 = arm64\<rparr>))))))))))))))"

text \<open>\<open>Path::file_stem\<close> and \<open>Path::extension\<close> of a file name.\<close>

definition name_parts :: "string \<Rightarrow> string \<times> string option" where
  "name_parts name =
     (if name = ''..'' then (name, None)
      else (case split_once (CHR ''.'') (rev name) of
          None \<Rightarrow> (name, None)
        | Some (rev_ext, rev_stem) \<Rightarrow>
            if rev_stem = [] then (name, None) else (rev rev_stem, Some (rev rev_ext))))"

definition file_stem :: "path \<Rightarrow> string" where
  "file_stem p = (if p = [] then [] else fst (name_parts (last p)))"

definition extension :: "path \<Rightarrow> string option" where
  "extension p = (if p = [] then None else snd (name_parts (last p)))"

definition show_path :: "path \<Rightarrow> string" where
  "show_path p = concat (map (\<lambda>c. ''/'' @ c) p)"

definition parse_manifest :: "string \<Rightarrow> path \<Rightarrow> bool \<Rightarrow> module_spec res" where
  "parse_manifest content p registration =
     and_then (manifest_lines (show_path p) 0 (lines content) []) (\<lambda>vs.
     and_then (manifest_spec (show_path p) vs) (\<lambda>spec.
     if mo_id spec \<noteq> file_stem p then Err (show_path p @ '': id must match the file name'')
     else validate_spec spec registration))"

subsection \<open>The registry directory\<close>

text \<open>The parts of a host the reader looks at besides the file map: owners, modes and text decoding.\<close>

record file_meta =
  fm_uid :: "path \<Rightarrow> nat"
  fm_mode :: "path \<Rightarrow> u32"
  fm_utf8 :: "string \<Rightarrow> bool"

definition validate_installed_metadata :: "file_meta \<Rightarrow> path \<Rightarrow> unit res" where
  "validate_installed_metadata M p =
     guard (fm_uid M p \<noteq> 0 \<or> and (fm_mode M p) 0x12 \<noteq> 0)
       ''installed manifest must be root-owned and not group/world-writable''"

definition read_manifest :: "file_meta \<Rightarrow> fs \<Rightarrow> path \<Rightarrow> read_options \<Rightarrow> module_spec res" where
  "read_manifest M fs p options =
     (case bt_get fs p of
        None \<Rightarrow> Err (''could not inspect '' @ show_path p)
      | Some (RegularFile content) \<Rightarrow>
          if MAX_MANIFEST_BYTES < length content
          then Err ''manifest must be a regular file no larger than 16 KiB''
          else and_then (if ro_root_owned options then validate_installed_metadata M p else Ok ()) (\<lambda>_.
            if \<not> fm_utf8 M content then Err (''could not read '' @ show_path p @ '' as UTF-8'')
            else parse_manifest content p (ro_registration options))
      | Some _ \<Rightarrow> Err ''manifest must be a regular file no larger than 16 KiB'')"

definition module_files :: "fs \<Rightarrow> path \<Rightarrow> path list" where
  "module_files fs directory =
     filter (\<lambda>p. p \<noteq> [] \<and> butlast p = directory \<and> extension p = Some ''module'') (map fst fs)"

fun read_specs ::
  "file_meta \<Rightarrow> fs \<Rightarrow> read_options \<Rightarrow> path list \<Rightarrow> string set \<Rightarrow> module_spec list \<Rightarrow> module_spec list res" where
  "read_specs M fs options [] ids specs = Ok specs"
| "read_specs M fs options (p # ps) ids specs =
     and_then (read_manifest M fs p options) (\<lambda>spec.
     if mo_id spec \<in> ids then Err (''duplicate module id: '' @ mo_id spec)
     else read_specs M fs options ps (insert (mo_id spec) ids) (specs @ [spec]))"

definition load_registry :: "file_meta \<Rightarrow> fs \<Rightarrow> path \<Rightarrow> read_options \<Rightarrow> module_spec list res" where
  "load_registry M fs directory options =
     (if bt_get fs directory \<noteq> Some Directory then Ok []
      else and_then (read_specs M fs options (module_files fs directory) {} []) (\<lambda>specs.
        Ok (sort_key mo_id specs)))"

subsection \<open>The record handed to the shell\<close>

definition record_fields :: "module_spec \<Rightarrow> string list" where
  "record_fields s =
     (let (upstream, git_ref) =
        (case mo_upstream s of
           Release \<Rightarrow> (''release'', '''')
         | PinnedRelease tag \<Rightarrow> (''pinned-release'', tag)
         | Commit git_ref \<Rightarrow> (''commit'', git_ref))
      in [mo_id s, mo_name s, mo_kind s, mo_role s, mo_repo s, upstream, git_ref, mo_driver s,
          mo_root s, mo_binary s, mo_service s, mo_config_path s, mo_asset_amd64 s, mo_asset_arm64 s])"

definition pipe_record :: "module_spec \<Rightarrow> string" where
  "pipe_record s = join ''|'' (record_fields s)"

subsection \<open>What an accepted manifest guarantees\<close>

lemma guard_ok: "guard bad message = Ok () \<longleftrightarrow> \<not> bad"
  by (simp add: guard_def)

definition plain :: "string \<Rightarrow> bool" where
  "plain v \<longleftrightarrow> CHR ''|'' \<notin> set v \<and> (\<forall>c \<in> set v. is_ascii c \<and> \<not> is_ascii_control c)"

lemma safe_text_plain: "safe_text v \<Longrightarrow> plain v"
  by (auto simp: safe_text_def plain_def list_all_iff)

lemma manifest_line_keeps:
  "manifest_line shown n raw vs = Ok vs' \<Longrightarrow> \<forall>k v. bt_get vs k = Some v \<longrightarrow> plain v \<Longrightarrow>
     \<forall>k v. bt_get vs' k = Some v \<longrightarrow> plain v"
  by (auto simp: manifest_line_def Let_def bt_get_insert safe_text_plain split: if_splits option.splits)

lemma manifest_lines_plain:
  "manifest_lines shown n ls vs = Ok vs' \<Longrightarrow> \<forall>k v. bt_get vs k = Some v \<longrightarrow> plain v \<Longrightarrow>
     bt_get vs' k = Some v \<Longrightarrow> plain v"
proof (induction ls arbitrary: n vs)
  case Nil
  then show ?case by simp
next
  case (Cons l ls)
  then obtain vs1 where step: "manifest_line shown n l vs = Ok vs1" "manifest_lines shown (n + 1) ls vs1 = Ok vs'"
    by (auto simp: and_then_Inr_iff)
  with Cons.IH [OF step(2) manifest_line_keeps [OF step(1) Cons.prems(2)]] Cons.prems(3) show ?case by blast
qed

lemma manifest_value_ok: "manifest_value shown vs k = Ok v \<longleftrightarrow> bt_get vs k = Some v"
  by (simp add: manifest_value_def ok_or_Inr_iff)

lemma manifest_upstream_ok:
  "manifest_upstream shown vs = Ok u \<Longrightarrow>
     (case u of Release \<Rightarrow> True | PinnedRelease t \<Rightarrow> bt_get vs ''ref'' = Some t | Commit r \<Rightarrow> bt_get vs ''ref'' = Some r)"
  by (auto simp: manifest_upstream_def and_then_Inr_iff manifest_value_ok split: if_splits)

lemma plain_literals: "plain ''release''" "plain ''pinned-release''" "plain ''commit''" "plain []"
  by (simp_all add: plain_def is_ascii_def is_ascii_control_def byte_def)

lemma manifest_spec_fields:
  assumes spec: "manifest_spec shown vs = Ok s" and vs: "\<And>k v. bt_get vs k = Some v \<Longrightarrow> plain v"
  shows "\<forall>v \<in> set (record_fields s). plain v"
proof -
  from spec obtain u where u: "manifest_upstream shown vs = Ok u" "mo_upstream s = u"
    by (auto simp: manifest_spec_def Let_def and_then_Inr_iff)
  from manifest_upstream_ok [OF u(1)] vs
  have "\<forall>t. u = PinnedRelease t \<longrightarrow> plain t" "\<forall>t. u = Commit t \<longrightarrow> plain t" by auto
  with spec vs u show ?thesis
    by (auto simp: manifest_spec_def Let_def and_then_Inr_iff manifest_value_ok record_fields_def plain_literals
        split: upstream_kind.splits)
qed

lemma validate_spec_ok:
  "validate_spec s reg = Ok s' \<longleftrightarrow>
     valid_id (mo_id s) \<and> each_res label_check
       [(''name'', mo_name s, 80), (''kind'', mo_kind s, 48), (''role'', mo_role s, 160)] = Ok ()
     \<and> valid_repo (mo_repo s) \<and> upstream_check (mo_upstream s) = Ok () \<and> mo_root s \<in> {''cores'', ''modules''}
     \<and> safe_filename (mo_binary s) \<and> safe_service (mo_service s)
     \<and> starts_with (mo_config_path s) ''/etc/'' \<and> \<not> contains_str (mo_config_path s) ''..''
     \<and> list_all safe_path_char (mo_config_path s)
     \<and> (is_release (mo_upstream s) \<longrightarrow> safe_asset (mo_asset_amd64 s) \<and> safe_asset (mo_asset_arm64 s))
     \<and> driver_check s = Ok ()
     \<and> (reg \<longrightarrow> is_release (mo_upstream s) \<and> mo_driver s = ''release'' \<and> mo_root s = ''cores'')
     \<and> s' = s\<lparr>mo_binary_path := ''/opt/infiproxy/'' @ mo_root s @ ''/'' @ mo_id s @ ''/current/'' @ mo_binary s\<rparr>"
  unfolding validate_spec_def by (auto simp: and_then_Inr_iff guard_ok)

lemma driver_cases:
  assumes "driver_check s = Ok ()"
  shows "mo_driver s = ''release'' \<and> mo_root s = ''cores'' \<and> mo_service s = ''infiproxy-'' @ mo_id s @ ''.service''
           \<and> starts_with (mo_config_path s) (''/etc/infiproxy-cores/'' @ mo_id s @ ''/'')
       \<or> mo_driver s = ''headscale'' \<and> mo_id s = ''headscale'' \<and> mo_root s = ''modules''
           \<and> mo_service s = ''headscale.service'' \<and> mo_config_path s = ''/etc/headscale/config.yaml''
       \<or> mo_driver s = ''mtproto-source'' \<and> mo_id s = ''mtproto'' \<and> mo_root s = ''cores''
           \<and> mo_service s = ''infiproxy-mtproto.service''
           \<and> starts_with (mo_config_path s) ''/etc/infiproxy-cores/mtproto/''"
  using assms by (auto simp: driver_check_def split: if_splits)

lemma parse_manifest_ok:
  assumes "parse_manifest content p reg = Ok s"
  obtains s0 where "validate_spec s0 reg = Ok s" and "mo_id s0 = file_stem p"
    and "\<forall>v \<in> set (record_fields s0). plain v"
proof -
  from assms obtain vs s0 where vs: "manifest_lines (show_path p) 0 (lines content) [] = Ok vs"
    and s0: "manifest_spec (show_path p) vs = Ok s0" "mo_id s0 = file_stem p" "validate_spec s0 reg = Ok s"
    by (auto simp: parse_manifest_def and_then_Inr_iff split: if_splits)
  have "\<And>k v. bt_get vs k = Some v \<Longrightarrow> plain v"
    using manifest_lines_plain [OF vs] by simp
  then have "\<forall>v \<in> set (record_fields s0). plain v" by (rule manifest_spec_fields [OF s0(1)])
  with s0 that show ?thesis by blast
qed

lemma validate_spec_record:
  "validate_spec s0 reg = Ok s \<Longrightarrow> record_fields s = record_fields s0 \<and> mo_id s = mo_id s0"
  by (auto simp: validate_spec_ok record_fields_def)

lemma record_round_trip:
  assumes "\<forall>v \<in> set (record_fields s). plain v"
  shows "split_on (CHR ''|'') (pipe_record s) = record_fields s"
  unfolding pipe_record_def
  using assms by (intro split_on_join) (auto simp: plain_def record_fields_def Let_def split: prod.splits)

lemma record_fields_length: "length (record_fields s) = length FIELDS"
  by (simp add: record_fields_def FIELDS_def Let_def split: prod.splits)

subsection \<open>The registry\<close>

lemma read_manifest_ok:
  assumes "read_manifest M fs p options = Ok s"
  obtains content where "bt_get fs p = Some (RegularFile content)" and "length content \<le> MAX_MANIFEST_BYTES"
    and "parse_manifest content p (ro_registration options) = Ok s"
    and "ro_root_owned options \<Longrightarrow> fm_uid M p = 0 \<and> and (fm_mode M p) 0x12 = 0"
  using assms
  by (auto simp: read_manifest_def and_then_Inr_iff validate_installed_metadata_def guard_ok
      split: option.splits file_node.splits if_splits)

lemma read_specs_ok:
  "read_specs M fs options ps ids specs = Ok specs' \<Longrightarrow> ids = mo_id ` set specs \<Longrightarrow> distinct (map mo_id specs) \<Longrightarrow>
     \<exists>new. specs' = specs @ new \<and> distinct (map mo_id specs')
       \<and> list_all2 (\<lambda>p s. read_manifest M fs p options = Ok s) ps new"
proof (induction ps arbitrary: ids specs)
  case Nil
  then show ?case by auto
next
  case (Cons p ps)
  from Cons.prems(1) obtain s where s: "read_manifest M fs p options = Ok s" "mo_id s \<notin> ids"
    and rest: "read_specs M fs options ps (insert (mo_id s) ids) (specs @ [s]) = Ok specs'"
    by (auto simp: and_then_Inr_iff split: if_splits)
  from Cons.IH [OF rest] s Cons.prems obtain new where "specs' = (specs @ [s]) @ new" "distinct (map mo_id specs')"
    "list_all2 (\<lambda>p s. read_manifest M fs p options = Ok s) ps new"
    by auto
  with s show ?case by auto
qed

lemma load_registry_ok:
  assumes "load_registry M fs directory options = Ok specs" and "bt_get fs directory = Some Directory"
  shows "sorted_wrt (<) (map mo_id specs)"
    and "s \<in> set specs \<longleftrightarrow> (\<exists>p \<in> set (module_files fs directory). read_manifest M fs p options = Ok s)"
proof -
  from assms obtain raw where raw: "read_specs M fs options (module_files fs directory) {} [] = Ok raw"
    and specs: "specs = sort_key mo_id raw"
    by (auto simp: load_registry_def and_then_Inr_iff)
  from read_specs_ok [OF raw] have d: "distinct (map mo_id raw)"
    and l: "list_all2 (\<lambda>p s. read_manifest M fs p options = Ok s) (module_files fs directory) raw" by auto
  have "distinct (map mo_id specs)" using d by (simp add: specs distinct_map)
  then show "sorted_wrt (<) (map mo_id specs)"
    using sorted_sort_key [of mo_id raw] specs by (simp add: strict_sorted_iff)
  show "s \<in> set specs \<longleftrightarrow> (\<exists>p \<in> set (module_files fs directory). read_manifest M fs p options = Ok s)"
    using l unfolding specs by (force simp: list_all2_conv_all_nth in_set_conv_nth)
qed

subsection \<open>Versions\<close>

lemma compare_versions_equal: "compare_versions l r = Equal \<longleftrightarrow> l = r"
  by (cases l; cases r) (auto simp: compare_versions_def)

lemma compare_versions_flip: "compare_versions l r = Less \<longleftrightarrow> compare_versions r l = Greater"
  by (cases l; cases r) (auto simp: compare_versions_def)

lemma compare_versions_trans:
  "compare_versions u v = Less \<Longrightarrow> compare_versions v w = Less \<Longrightarrow> compare_versions u w = Less"
  by (cases u; cases v; cases w) (auto simp: compare_versions_def split: if_splits)

end
