(* ===== verification/Core_Adapter.thy ===== *)
theory Core_Adapter
  imports Cores Module_Manifest
begin

text \<open>
  \<open>ManagedCoreAdapter\<close> of \<open>adapters/cores.rs\<close>: the adapter that stages, checks, installs, activates,
  observes and rolls back one runtime. The host is a file map, the listener state each adapter
  keeps between staging and verification, and the state \<open>'u\<close> of the service manager and its
  processes. \<open>systemctl\<close>, \<open>ss\<close>, \<open>chown\<close>, the runtimes' own validators and version commands, the
  JSON and YAML libraries and the TLS readiness probe are parameters (\<open>tools\<close>); where they may
  fail the model follows the error path.
\<close>

record listener_state =
  ls_previous :: "(u16 \<times> bool) list"
  ls_desired :: "(u16 \<times> bool) list"

record 'u host =
  ho_files :: fs
  ho_listeners :: "string \<Rightarrow> listener_state"
  ho_units :: 'u

text \<open>Where an installation may stop: an I/O error or a refused \<open>chown\<close>.\<close>

datatype install_stop =
  StopCreateDir | StopOpen | StopRead | StopWrite nat | StopSync | StopMode | StopChown | StopRename | StopDirSync

record 'u tools =
  tl_systemctl :: "string list \<Rightarrow> string \<Rightarrow> fs \<Rightarrow> 'u \<Rightarrow> bool option \<times> 'u"
  tl_is :: "string \<Rightarrow> string \<Rightarrow> 'u \<Rightarrow> bool"
  tl_check :: "path \<Rightarrow> string list \<Rightarrow> fs \<Rightarrow> 'u \<Rightarrow> bool option"
  tl_output :: "path \<Rightarrow> string list \<Rightarrow> fs \<Rightarrow> 'u \<Rightarrow> (bool \<times> string \<times> string) option"
  tl_ss :: "nat \<Rightarrow> 'u \<Rightarrow> (bool \<times> string) option"
  tl_main_pid :: "string \<Rightarrow> nat \<Rightarrow> 'u \<Rightarrow> (bool \<times> string) option"
  tl_write_json :: "json \<Rightarrow> string res"
  tl_write_yaml :: "json \<Rightarrow> string res"
  tl_read_json :: "string \<Rightarrow> json res"
  tl_read_yaml :: "string \<Rightarrow> json res"
  tl_uuid :: string
  tl_stop :: "install_stop option"
  tl_tls_ready :: "fs \<Rightarrow> 'u \<Rightarrow> bool"

record managed_core =
  mc_manifest :: core_manifest
  mc_flavor :: flavor
  mc_binary :: path
  mc_config :: path
  mc_validated_version :: string
  mc_version_file :: path

definition managed_core_new ::
  "string \<Rightarrow> string \<Rightarrow> string \<Rightarrow> flavor \<Rightarrow> path \<Rightarrow> path \<Rightarrow> string list \<Rightarrow> int \<Rightarrow> string \<Rightarrow> path option \<Rightarrow> managed_core" where
  "managed_core_new i display_name service flavor binary config capabilities priority version version_file =
     \<lparr>mc_manifest =
        \<lparr>cm_api_version = ADAPTER_API_VERSION, cm_id = i, cm_display_name = display_name,
         cm_capabilities = set capabilities, cm_service = service, cm_selection_priority = priority\<rparr>,
      mc_flavor = flavor, mc_binary = binary, mc_config = config, mc_validated_version = version,
      mc_version_file =
        (case version_file of
           Some p \<Rightarrow> p
         | None \<Rightarrow> [''var'', ''lib'', ''infiproxy-maintenance'', ''module-versions'', i @ ''.version''])\<rparr>"

subsection \<open>Composition and checks\<close>

definition compose :: "'u tools \<Rightarrow> managed_core \<Rightarrow> core_plan \<Rightarrow> string res" where
  "compose T A plan =
     and_then (compose_document (mc_flavor A) plan)
       (if mc_flavor A \<in> {FHysteria, FMihomo} then tl_write_yaml T else tl_write_json T)"

definition read_document :: "'u tools \<Rightarrow> flavor \<Rightarrow> string \<Rightarrow> json res" where
  "read_document T flavor bytes =
     (if flavor \<in> {FHysteria, FMihomo} then tl_read_yaml T bytes else tl_read_json T bytes)"

definition read_file :: "fs \<Rightarrow> path \<Rightarrow> string res" where
  "read_file fs p = (case bt_get fs p of Some (RegularFile b) \<Rightarrow> Ok b | _ \<Rightarrow> Err ''could not read file'')"

definition write_file :: "path \<Rightarrow> string \<Rightarrow> fs \<Rightarrow> unit res \<times> fs" where
  "write_file p bytes fs =
     (if p = [] \<or> butlast p \<noteq> [] \<and> bt_get fs (butlast p) \<noteq> Some Directory then (Err ''no such directory'', fs)
      else (case bt_get fs p of
          None \<Rightarrow> (Ok (), bt_insert p (RegularFile bytes) fs)
        | Some (RegularFile _) \<Rightarrow> (Ok (), bt_insert p (RegularFile bytes) fs)
        | Some _ \<Rightarrow> (Err ''not a regular file'', fs)))"

definition is_file :: "fs \<Rightarrow> path \<Rightarrow> bool" where
  "is_file fs p = (case bt_get fs p of Some (RegularFile _) \<Rightarrow> True | _ \<Rightarrow> False)"

definition validate_structure :: "'u tools \<Rightarrow> managed_core \<Rightarrow> path \<Rightarrow> fs \<Rightarrow> unit res" where
  "validate_structure T A candidate fs =
     and_then (read_file fs candidate) (\<lambda>bytes.
     and_then (read_document T (mc_flavor A) bytes) (\<lambda>document.
     guard (\<not> is_object document)
       (if mc_flavor A \<in> {FHysteria, FMihomo} then ''candidate root must be a mapping''
        else ''candidate root must be an object'')))"

definition show_file :: "path \<Rightarrow> string" where
  "show_file = show_path"

definition validation_command :: "'u tools \<Rightarrow> managed_core \<Rightarrow> path \<Rightarrow> 'u host \<Rightarrow> unit res \<times> 'u host" where
  "validation_command T A candidate h =
     (let run = (\<lambda>args h.
            case tl_check T (mc_binary A) args (ho_files h) (ho_units h) of
              None \<Rightarrow> (Err ''could not run the runtime'', h)
            | Some success \<Rightarrow> (guard (\<not> success) ''runtime rejected candidate configuration'', h))
      in case mc_flavor A of
           FXray \<Rightarrow> run [''run'', ''-test'', ''-config'', show_file candidate] h
         | FSingBox \<Rightarrow> run [''check'', ''-c'', show_file candidate] h
         | FMihomo \<Rightarrow>
             (if candidate = [] then (Err ''Mihomo candidate has no transaction directory'', h)
              else let home = butlast candidate @ [''home''] in
                (case create_dir_all home (ho_files h) of
                   (Inl e, fs) \<Rightarrow> (Err ''create transaction-local Mihomo validation home'', h\<lparr>ho_files := fs\<rparr>)
                 | (Inr _, fs) \<Rightarrow>
                     run [''-d'', show_file home, ''-t'', ''-f'', show_file candidate] (h\<lparr>ho_files := fs\<rparr>)))
         | FHysteria \<Rightarrow> (Ok (), h)
         | FTuic \<Rightarrow> (Ok (), h))"

definition systemctl :: "'u tools \<Rightarrow> managed_core \<Rightarrow> string list \<Rightarrow> 'u host \<Rightarrow> unit res \<times> 'u host" where
  "systemctl T A args h =
     (case tl_systemctl T args (cm_service (mc_manifest A)) (ho_files h) (ho_units h) of
        (None, u) \<Rightarrow> (Err ''could not run systemctl'', h\<lparr>ho_units := u\<rparr>)
      | (Some success, u) \<Rightarrow>
          (guard (\<not> success) ''runtime service operation failed'', h\<lparr>ho_units := u\<rparr>))"

definition systemctl_is :: "'u tools \<Rightarrow> managed_core \<Rightarrow> string \<Rightarrow> 'u host \<Rightarrow> bool" where
  "systemctl_is T A property h = tl_is T property (cm_service (mc_manifest A)) (ho_units h)"

subsection \<open>The live configuration\<close>

text \<open>
  \<open>atomic_install\<close> copies the candidate beside the live file and renames it over it; on an error
  the temporary file is removed again.
\<close>

definition install_file :: "install_stop option \<Rightarrow> string \<Rightarrow> path \<Rightarrow> path \<Rightarrow> fs \<Rightarrow> unit res \<times> fs" where
  "install_file stop uuid source config fs =
     (if config = [] then (Err ''runtime config has no parent'', fs)
      else if stop = Some StopCreateDir then (Err ''create directory'', fs)
      else (case create_dir_all (butlast config) fs of
        (Inl e, fs1) \<Rightarrow> (Err e, fs1)
      | (Inr _, fs1) \<Rightarrow>
          (let temporary = butlast config @ [''.candidate-'' @ uuid];
               failed = (\<lambda>e fs. (Err e, fs_remove temporary fs)) in
           if stop = Some StopOpen \<or> bt_get fs1 temporary \<noteq> None then failed ''open'' fs1
           else (case (if stop = Some StopRead then Err ''read'' else read_file fs1 source) of
             Inl e \<Rightarrow> failed e (bt_insert temporary (RegularFile []) fs1)
           | Inr bytes \<Rightarrow>
              (case stop of
                 Some (StopWrite n) \<Rightarrow> failed ''write'' (bt_insert temporary (RegularFile (take n bytes)) fs1)
               | _ \<Rightarrow>
                 (let fs2 = bt_insert temporary (RegularFile bytes) fs1 in
                  if stop = Some StopSync then failed ''sync'' fs2
                  else if stop = Some StopMode then failed ''set permissions'' fs2
                  else if stop = Some StopChown then failed ''could not set runtime config ownership'' fs2
                  else if stop = Some StopRename \<or> bt_get fs2 config = Some Directory then failed ''rename'' fs2
                  else
                    (let fs3 = bt_insert config (RegularFile bytes) (fs_remove temporary fs2) in
                     if stop = Some StopDirSync then failed ''sync'' fs3 else (Ok (), fs3))))))))"

definition atomic_install :: "'u tools \<Rightarrow> managed_core \<Rightarrow> path \<Rightarrow> 'u host \<Rightarrow> unit res \<times> 'u host" where
  "atomic_install T A source h =
     (case install_file (tl_stop T) (tl_uuid T) source (mc_config A) (ho_files h) of
        (r, fs) \<Rightarrow> (r, h\<lparr>ho_files := fs\<rparr>))"

definition read_current_config :: "managed_core \<Rightarrow> fs \<Rightarrow> string option res" where
  "read_current_config A fs =
     (case bt_get fs (mc_config A) of
        None \<Rightarrow> Ok None
      | Some (RegularFile bytes) \<Rightarrow> Ok (Some bytes)
      | Some _ \<Rightarrow> Err ''runtime config must be a regular file'')"

subsection \<open>Versions\<close>

definition strict_release_version :: "string \<Rightarrow> version option" where
  "strict_release_version v =
     (let v = (case strip_prefix ''v'' v of Some w \<Rightarrow> w | None \<Rightarrow> v)
      in case collect_res (map parse_u64 (split_on (CHR ''.'') v)) of
           Inl _ \<Rightarrow> None
         | Inr components \<Rightarrow> triple components)"

definition format_release_version :: "version \<Rightarrow> string" where
  "format_release_version v =
     (case v of (a, b, c) \<Rightarrow> join ''.'' [show_nat (unat a), show_nat (unat b), show_nat (unat c)])"

definition version_arguments :: "flavor \<Rightarrow> string list" where
  "version_arguments flavor =
     (case flavor of FMihomo \<Rightarrow> [''-v''] | FTuic \<Rightarrow> [''--version''] | _ \<Rightarrow> [''version''])"

definition version_prefix :: "flavor \<Rightarrow> string option" where
  "version_prefix flavor =
     (case flavor of
        FXray \<Rightarrow> Some ''Xray '' | FMihomo \<Rightarrow> Some ''Mihomo Meta ''
      | FSingBox \<Rightarrow> Some ''sing-box version '' | FHysteria \<Rightarrow> Some ''Version:'' | FTuic \<Rightarrow> None)"

definition line_version :: "string option \<Rightarrow> string \<Rightarrow> version option" where
  "line_version prefix raw =
     (let line = trim raw in
      case prefix of
        None \<Rightarrow> strict_release_version line
      | Some p \<Rightarrow>
          (case strip_prefix p line of
             None \<Rightarrow> None
           | Some suffix \<Rightarrow>
               (case split_whitespace suffix of [] \<Rightarrow> None | word # _ \<Rightarrow> strict_release_version word)))"

definition probed_version :: "'u tools \<Rightarrow> managed_core \<Rightarrow> 'u host \<Rightarrow> version option" where
  "probed_version T A h =
     (case tl_output T (mc_binary A) (version_arguments (mc_flavor A)) (ho_files h) (ho_units h) of
        None \<Rightarrow> None
      | Some (success, out, err) \<Rightarrow>
          if \<not> success then None
          else (case remdups (List.map_filter (line_version (version_prefix (mc_flavor A)))
                       (lines (out @ [newline] @ err))) of
                  [v] \<Rightarrow> Some v
                | _ \<Rightarrow> None))"

text \<open>\<open>capabilities_require_tls\<close> of \<open>adapters/tls.rs\<close>.\<close>

definition TLS_CAPABILITIES :: "string set" where
  "TLS_CAPABILITIES = {''hysteria2'', ''any-tls'', ''anytls-tls'', ''trojan-tls'', ''tuic'', ''trusttunnel-h2''}"

definition capabilities_require_tls :: "string set \<Rightarrow> bool" where
  "capabilities_require_tls caps \<longleftrightarrow> (\<exists>c \<in> caps. c \<in> TLS_CAPABILITIES)"

definition compatible :: "'u tools \<Rightarrow> managed_core \<Rightarrow> string set \<Rightarrow> 'u host \<Rightarrow> bool res" where
  "compatible T A required h =
     (if \<not> is_file (ho_files h) (mc_binary A) then Ok False
      else if capabilities_require_tls required \<and> \<not> tl_tls_ready T (ho_files h) (ho_units h) then Ok False
      else and_then (ok_or ''validated runtime version is invalid''
             (normalized_release_version (mc_validated_version A))) (\<lambda>expected.
        and_then
          (case bt_get (ho_files h) (mc_version_file A) of
             None \<Rightarrow> Ok True
           | Some (RegularFile marker) \<Rightarrow> Ok (normalized_release_version (trim marker) = Some expected)
           | Some _ \<Rightarrow> Err ''could not read version marker'') (\<lambda>marker_matches.
        Ok (marker_matches \<and> probed_version T A h = Some expected))))"

subsection \<open>Listener verification\<close>

record listener_observation =
  lo_listeners :: string
  lo_main_pid :: "u32 option"

definition listener_line_has_port :: "string \<Rightarrow> u16 \<Rightarrow> bool" where
  "listener_line_has_port line port =
     list_ex (\<lambda>field. ends_with field ('':'' @ show_nat (unat port))) (split_whitespace line)"

definition listener_line_has_protocol :: "string \<Rightarrow> string \<Rightarrow> bool" where
  "listener_line_has_protocol line protocol =
     (case split_whitespace line of [] \<Rightarrow> False | word # _ \<Rightarrow> word = protocol)"

fun marker_then_no_digit :: "string \<Rightarrow> string \<Rightarrow> bool" where
  "marker_then_no_digit marker [] = False"
| "marker_then_no_digit marker (c # cs) =
     (starts_with (c # cs) marker
        \<and> (case drop (length marker) (c # cs) of [] \<Rightarrow> True | d # _ \<Rightarrow> \<not> is_digit d)
      \<or> marker_then_no_digit marker cs)"

definition listener_line_has_pid :: "string \<Rightarrow> u32 \<Rightarrow> bool" where
  "listener_line_has_pid line pid = marker_then_no_digit (''pid='' @ show_nat (unat pid)) line"

definition protocol_name :: "bool \<Rightarrow> string" where
  "protocol_name udp = (if udp then ''udp'' else ''tcp'')"

definition required_listener :: "listener_observation \<Rightarrow> u16 \<times> bool \<Rightarrow> unit res" where
  "required_listener ob x =
     (case x of (port, udp) \<Rightarrow>
        and_then (ok_or ''missing runtime PID'' (lo_main_pid ob)) (\<lambda>pid.
        guard (\<not> list_ex (\<lambda>line. listener_line_has_protocol line (protocol_name udp)
                  \<and> listener_line_has_port line port \<and> listener_line_has_pid line pid)
               (lines (lo_listeners ob)))
          ''required listener is absent or owned by another process''))"

definition forbidden_listener :: "listener_observation \<Rightarrow> u16 \<times> bool \<Rightarrow> unit res" where
  "forbidden_listener ob x =
     (case x of (port, udp) \<Rightarrow>
        guard (list_ex (\<lambda>line. listener_line_has_protocol line (protocol_name udp)
                  \<and> listener_line_has_port line port) (lines (lo_listeners ob)))
          ''stale listener remains active'')"

definition verify_listener_observation ::
  "(u16 \<times> bool) list \<Rightarrow> (u16 \<times> bool) list \<Rightarrow> listener_observation \<Rightarrow> unit res" where
  "verify_listener_observation required forbidden ob =
     and_then (each_res (required_listener ob) required) (\<lambda>_. each_res (forbidden_listener ob) forbidden)"

text \<open>The polling loop: the result and the number of times it slept.\<close>

fun await_ready :: "(nat \<Rightarrow> unit res) \<Rightarrow> nat \<Rightarrow> nat \<Rightarrow> unit res \<times> nat" where
  "await_ready check k 0 = (Err ''listener readiness check did not run'', 0)"
| "await_ready check k (Suc n) =
     (case check k of
        Inr _ \<Rightarrow> (Ok (), 0)
      | Inl e \<Rightarrow>
          if n = 0 then (Err e, 0)
          else (case await_ready check (Suc k) n of (r, sleeps) \<Rightarrow> (r, Suc sleeps)))"

definition wait_for_listener_readiness ::
  "(u16 \<times> bool) list \<Rightarrow> (u16 \<times> bool) list \<Rightarrow> nat \<Rightarrow> (nat \<Rightarrow> listener_observation res) \<Rightarrow> unit res \<times> nat" where
  "wait_for_listener_readiness required forbidden attempts observe =
     await_ready (\<lambda>k. and_then (observe k) (verify_listener_observation required forbidden)) 0 (max attempts 1)"

definition RUNTIME_LISTENER_READY_TIMEOUT :: nat where "RUNTIME_LISTENER_READY_TIMEOUT = 5000"
definition RUNTIME_LISTENER_POLL_INTERVAL :: nat where "RUNTIME_LISTENER_POLL_INTERVAL = 100"

definition main_pid :: "'u tools \<Rightarrow> managed_core \<Rightarrow> nat \<Rightarrow> 'u \<Rightarrow> u32 res" where
  "main_pid T A k u =
     (case tl_main_pid T (cm_service (mc_manifest A)) k u of
        None \<Rightarrow> Err ''could not run systemctl''
      | Some (success, out) \<Rightarrow>
          if \<not> success then Err ''could not inspect runtime PID''
          else (let s = trim out; d = (case s of c # cs \<Rightarrow> if c = CHR ''+'' then cs else s | [] \<Rightarrow> []) in
            if d = [] \<or> \<not> list_all is_digit d \<or> 2 ^ 32 \<le> int (parse_digits d)
            then Err ''invalid digit found in string''
            else if parse_digits d = 0 then Err ''runtime has no active PID''
            else Ok (of_nat (parse_digits d))))"

definition observe_listeners ::
  "'u tools \<Rightarrow> managed_core \<Rightarrow> bool \<Rightarrow> 'u \<Rightarrow> nat \<Rightarrow> listener_observation res" where
  "observe_listeners T A need_pid u k =
     (case tl_ss T k u of
        None \<Rightarrow> Err ''inspect runtime listeners''
      | Some (success, out) \<Rightarrow>
          if \<not> success then Err ''listener discovery failed''
          else and_then
            (if need_pid then and_then (main_pid T A k u) (\<lambda>pid. Ok (Some pid)) else Ok None) (\<lambda>pid.
            Ok \<lparr>lo_listeners = out, lo_main_pid = pid\<rparr>))"

definition verify_port_set ::
  "'u tools \<Rightarrow> managed_core \<Rightarrow> (u16 \<times> bool) list \<Rightarrow> (u16 \<times> bool) list \<Rightarrow> 'u host \<Rightarrow> unit res" where
  "verify_port_set T A required forbidden h =
     fst (wait_for_listener_readiness required forbidden
       (RUNTIME_LISTENER_READY_TIMEOUT div RUNTIME_LISTENER_POLL_INTERVAL + 1)
       (observe_listeners T A (required \<noteq> []) (ho_units h)))"

subsection \<open>The trait's methods\<close>

definition probe_detail ::
  "string \<Rightarrow> bool \<Rightarrow> version option \<Rightarrow> version option \<Rightarrow> bool option \<Rightarrow> string option" where
  "probe_detail validated is_installed actual expected marker_matches =
     (if \<not> is_installed then Some ''runtime binary is not installed''
      else (case actual of
          None \<Rightarrow> Some ''runtime binary version probe failed''
        | Some actual \<Rightarrow>
            (case expected of
               None \<Rightarrow> Some ''validated runtime version is invalid''
             | Some expected \<Rightarrow>
                 if actual \<noteq> expected
                 then Some (''runtime version mismatch: installed '' @ format_release_version actual
                            @ '', validated '' @ validated)
                 else if marker_matches = Some False
                 then Some ''runtime version marker does not match the validated contract''
                 else None)))"

definition version_marker :: "managed_core \<Rightarrow> fs \<Rightarrow> string option" where
  "version_marker A fs =
     (case read_file fs (mc_version_file A) of
        Inl _ \<Rightarrow> None
      | Inr text \<Rightarrow> if trim text = [] then None else Some (trim text))"

definition core_probe_of :: "'u tools \<Rightarrow> managed_core \<Rightarrow> 'u host \<Rightarrow> core_probe" where
  "core_probe_of T A h =
     (let is_installed = is_file (ho_files h) (mc_binary A);
          active = (if is_installed
            then (case tl_output T [''usr'', ''bin'', ''systemctl'']
                    [''is-active'', ''--quiet'', cm_service (mc_manifest A)] (ho_files h) (ho_units h) of
                    None \<Rightarrow> None | Some (success, _) \<Rightarrow> Some success)
            else None);
          expected = normalized_release_version (mc_validated_version A);
          actual = (if is_installed then probed_version T A h else None);
          marker_matches =
            (case Option.bind (version_marker A (ho_files h)) normalized_release_version of
               None \<Rightarrow> None
             | Some m \<Rightarrow> (case expected of None \<Rightarrow> None | Some e \<Rightarrow> Some (m = e)))
      in default_probe
           \<lparr>cb_installed := Some is_installed,
            cb_active := active,
            cb_healthy := active,
            cb_version := map_option format_release_version actual,
            cb_validated_version := Some (mc_validated_version A),
            cb_version_compatible :=
              (if is_installed then Some (actual = expected \<and> marker_matches \<noteq> Some False) else None),
            cb_detail := probe_detail (mc_validated_version A) is_installed actual expected marker_matches\<rparr>)"

definition candidate_path :: "managed_core \<Rightarrow> path \<Rightarrow> path" where
  "candidate_path A dir =
     dir @ [if mc_flavor A \<in> {FHysteria, FMihomo} then ''candidate.yaml'' else ''candidate.json'']"

definition discover_ports :: "'u tools \<Rightarrow> flavor \<Rightarrow> string \<Rightarrow> (u16 \<times> bool) list res" where
  "discover_ports T flavor bytes =
     and_then (read_document T flavor bytes) (\<lambda>document. Ok (discover_config_ports flavor document))"

definition live_ports :: "'u tools \<Rightarrow> managed_core \<Rightarrow> fs \<Rightarrow> (u16 \<times> bool) list res" where
  "live_ports T A fs =
     and_then (read_current_config A fs) (\<lambda>current.
     case current of None \<Rightarrow> Ok [] | Some bytes \<Rightarrow> discover_ports T (mc_flavor A) bytes)"

definition desired_ports :: "core_plan \<Rightarrow> (u16 \<times> bool) list" where
  "desired_ports plan =
     concat (map (\<lambda>f. map (\<lambda>l. (lc_port l, lc_network l = Udp)) (sf_listeners f)) (cp_fragments plan))"

definition stage_config :: "'u tools \<Rightarrow> managed_core \<Rightarrow> core_plan \<Rightarrow> path \<Rightarrow> ('u host, path) io" where
  "stage_config T A plan dir h =
     (case compose T A plan of
        Inl e \<Rightarrow> (Err e, h)
      | Inr bytes \<Rightarrow>
          (case write_file (candidate_path A dir) bytes (ho_files h) of
             (Inl e, fs) \<Rightarrow> (Err e, h\<lparr>ho_files := fs\<rparr>)
           | (Inr _, fs) \<Rightarrow>
               (case live_ports T A fs of
                  Inl e \<Rightarrow> (Err e, h\<lparr>ho_files := fs\<rparr>)
                | Inr previous \<Rightarrow>
                    (Ok (candidate_path A dir),
                     h\<lparr>ho_files := fs,
                       ho_listeners := (ho_listeners h)
                         (cm_id (mc_manifest A) := \<lparr>ls_previous = previous, ls_desired = desired_ports plan\<rparr>)\<rparr>))))"

definition check_candidate :: "'u tools \<Rightarrow> managed_core \<Rightarrow> path \<Rightarrow> ('u host, unit) io" where
  "check_candidate T A candidate h =
     (case validate_structure T A candidate (ho_files h) of
        Inl e \<Rightarrow> (Err e, h)
      | Inr _ \<Rightarrow> validation_command T A candidate h)"

definition snapshot_config :: "'u tools \<Rightarrow> managed_core \<Rightarrow> path \<Rightarrow> ('u host, core_snapshot) io" where
  "snapshot_config T A dir h =
     (let snapshot_dir = dir @ [''snapshot''] in
      case create_dir_all snapshot_dir (ho_files h) of
        (Inl e, fs) \<Rightarrow> (Err e, h\<lparr>ho_files := fs\<rparr>)
      | (Inr _, fs) \<Rightarrow>
          (case read_current_config A fs of
             Inl e \<Rightarrow> (Err e, h\<lparr>ho_files := fs\<rparr>)
           | Inr current \<Rightarrow>
               (case (case current of
                        Some bytes \<Rightarrow> write_file (snapshot_dir @ [''config'']) bytes fs
                      | None \<Rightarrow> write_file (snapshot_dir @ [''config.absent'']) [] fs) of
                  (Inl e, fs) \<Rightarrow> (Err e, h\<lparr>ho_files := fs\<rparr>)
                | (Inr _, fs) \<Rightarrow>
                    (Ok \<lparr>cs_path = snapshot_dir,
                         cs_service_was_enabled = systemctl_is T A ''is-enabled'' h,
                         cs_service_was_active = systemctl_is T A ''is-active'' h\<rparr>,
                     h\<lparr>ho_files := fs\<rparr>))))"

text \<open>Running two fallible steps in order, the second only when the first succeeded.\<close>

definition then_do :: "('w, 'a) io \<Rightarrow> ('w, 'b) io \<Rightarrow> ('w, 'b) io" where
  "then_do f g w = (case f w of (Inl e, w) \<Rightarrow> (Err e, w) | (Inr _, w) \<Rightarrow> g w)"

definition activate_config :: "'u tools \<Rightarrow> managed_core \<Rightarrow> core_plan \<Rightarrow> ('u host, unit) io" where
  "activate_config T A plan =
     (if cp_fragments plan = [] then systemctl T A [''disable'', ''--now'']
      else then_do (systemctl T A [''enable'']) (systemctl T A [''restart'']))"

definition healthcheck :: "'u tools \<Rightarrow> managed_core \<Rightarrow> core_plan \<Rightarrow> ('u host, unit) io" where
  "healthcheck T A plan h = (guard (\<not> systemctl_is T A ''is-active'' h) ''runtime service is not active'', h)"

definition verify_listeners :: "'u tools \<Rightarrow> managed_core \<Rightarrow> core_plan \<Rightarrow> ('u host, unit) io" where
  "verify_listeners T A plan h =
     (let ls = ho_listeners h (cm_id (mc_manifest A));
          forbidden = filter (\<lambda>l. l \<notin> set (ls_desired ls)) (ls_previous ls)
      in if cp_fragments plan = [] then (verify_port_set T A [] (ls_previous ls) h, h)
         else (verify_port_set T A (ls_desired ls) forbidden h, h))"

definition expected_users :: "core_plan \<Rightarrow> string set" where
  "expected_users plan =
     \<Union> (set (map (\<lambda>f. case sf_expected_user_ids f of None \<Rightarrow> {} | Some ids \<Rightarrow> ids) (cp_fragments plan)))"

definition observe_users :: "'u tools \<Rightarrow> managed_core \<Rightarrow> core_plan \<Rightarrow> ('u host, user_sync_observation) io" where
  "observe_users T A plan h =
     ((if \<not> list_ex (\<lambda>f. sf_expected_user_ids f \<noteq> None) (cp_fragments plan) then Ok (InSync 0)
       else and_then (read_current_config A (ho_files h)) (\<lambda>current.
         and_then (ok_or ''runtime user observation requires a live config'' current) (\<lambda>bytes.
         and_then (read_document T (mc_flavor A) bytes) (\<lambda>document.
         and_then
           (if mc_flavor A = FMihomo then discover_mihomo_config_users document plan
            else discover_config_users (mc_flavor A) document) (\<lambda>observed.
         Ok (user_sync_compare (expected_users plan) observed)))))), h)"

definition restore_config :: "'u tools \<Rightarrow> managed_core \<Rightarrow> core_snapshot \<Rightarrow> ('u host, unit) io" where
  "restore_config T A snapshot h =
     (let config = cs_path snapshot @ [''config''] in
      if is_file (ho_files h) config then atomic_install T A config h
      else if is_file (ho_files h) (cs_path snapshot @ [''config.absent''])
      then (case bt_get (ho_files h) (mc_config A) of
          None \<Rightarrow> (Ok (), h)
        | Some Directory \<Rightarrow> (Err ''is a directory'', h)
        | Some _ \<Rightarrow> (Ok (), h\<lparr>ho_files := fs_remove (mc_config A) (ho_files h)\<rparr>))
      else (Err ''snapshot configuration is incomplete'', h))"

definition restart_restored :: "'u tools \<Rightarrow> managed_core \<Rightarrow> ('u host, unit) io" where
  "restart_restored T A =
     then_do (systemctl T A [''restart'']) (\<lambda>h.
     if \<not> systemctl_is T A ''is-active'' h then (Err ''restored runtime is not healthy'', h)
     else
       (and_then (read_current_config A (ho_files h)) (\<lambda>current.
        and_then (ok_or ''active runtime snapshot has no restored config'' current) (\<lambda>bytes.
        and_then (discover_ports T (mc_flavor A) bytes) (\<lambda>required.
        verify_port_set T A required [] h))), h))"

definition rollback_config :: "'u tools \<Rightarrow> managed_core \<Rightarrow> core_snapshot \<Rightarrow> ('u host, unit) io" where
  "rollback_config T A snapshot =
     then_do (restore_config T A snapshot)
       (then_do (systemctl T A [if cs_service_was_enabled snapshot then ''enable'' else ''disable''])
         (if cs_service_was_active snapshot then restart_restored T A else systemctl T A [''stop'']))"

text \<open>The adapter as the trait object the reconciler drives.\<close>

definition as_core_adapter :: "'u tools \<Rightarrow> managed_core \<Rightarrow> 'u host core_adapter" where
  "as_core_adapter T A =
     \<lparr>ca_manifest = mc_manifest A,
      ca_installed = (\<lambda>h. Ok (is_file (ho_files h) (mc_binary A))),
      ca_compatible = compatible T A,
      ca_probe = core_probe_of T A,
      ca_stage_config = stage_config T A,
      ca_validate_config = check_candidate T A,
      ca_snapshot_config = snapshot_config T A,
      ca_install_config = atomic_install T A,
      ca_activate_config = activate_config T A,
      ca_healthcheck = healthcheck T A,
      ca_verify_listeners = verify_listeners T A,
      ca_observe_users = observe_users T A,
      ca_rollback_config = rollback_config T A\<rparr>"

subsection \<open>The built-in runtimes\<close>

definition core_binary :: "string \<Rightarrow> string \<Rightarrow> path" where
  "core_binary core binary = [''opt'', ''infiproxy'', ''cores'', core, ''current'', binary]"

definition core_config :: "string \<Rightarrow> string \<Rightarrow> path" where
  "core_config core name = [''etc'', ''infiproxy-cores'', core, name]"

definition built_in_cores :: "managed_core list" where
  "built_in_cores =
     [managed_core_new ''xray'' ''Xray'' ''infiproxy-xray.service'' FXray
        (core_binary ''xray'' ''xray'') (core_config ''xray'' ''config.json'')
        XRAY_CAPABILITIES 100 ''v26.3.27'' None,
      managed_core_new ''mihomo'' ''Mihomo'' ''infiproxy-mihomo.service'' FMihomo
        (core_binary ''mihomo'' ''mihomo'') (core_config ''mihomo'' ''config.yaml'')
        MIHOMO_CAPABILITIES 200 ''v1.19.30'' None,
      managed_core_new ''sing-box'' ''sing-box'' ''infiproxy-sing-box.service'' FSingBox
        (core_binary ''sing-box'' ''sing-box'') (core_config ''sing-box'' ''config.json'')
        SING_BOX_CAPABILITIES 50 ''v1.13.20'' None,
      managed_core_new ''hysteria'' ''Hysteria'' ''infiproxy-hysteria.service'' FHysteria
        (core_binary ''hysteria'' ''hysteria'') (core_config ''hysteria'' ''config.yaml'')
        HYSTERIA_CAPABILITIES 200 ''app/v2.12.2'' None,
      managed_core_new ''tuic'' ''TUIC'' ''infiproxy-tuic.service'' FTuic
        (core_binary ''tuic'' ''tuic-server'') (core_config ''tuic'' ''config.json'')
        TUIC_CAPABILITIES 200 ''tuic-server-1.0.0'' None]"

definition core_registry_of :: "'u tools \<Rightarrow> 'u host core_registry res" where
  "core_registry_of T = register_all core_register (map (as_core_adapter T) built_in_cores) []"

end
