(* ===== verification/Protocol_Rendering.thy ===== *)
theory Protocol_Rendering
  imports Protocols
begin

text \<open>
  What an accepted configuration guarantees, which secrets a client document depends on, the
  payload a server fragment carries, and that the built-in adapters register.
\<close>

subsection \<open>Accepted configurations\<close>

lemma parse_secret_ref_ok: "parse_secret_ref v = Ok r \<Longrightarrow> r = v \<and> trim v = v"
proof -
  assume ok: "parse_secret_ref v = Ok r"
  then have r: "r = v" and ne: "v \<noteq> []"
    and chars: "\<forall>b \<in> set v. is_alphanumeric b \<or> b \<in> {CHR ''.'', CHR ''_'', CHR ''-''}"
    by (auto simp: parse_secret_ref_def list_all_iff split: if_splits)
  have "solid b" if "b \<in> set v" for b
    using bspec [OF chars that] alphanumeric_solid by (auto simp: solid_def byte_def)
  with ne have "trim v = v" by (intro trim_solid) auto
  with r show ?thesis by simp
qed

lemma parse_secret_ref_trim: "parse_secret_ref v = Ok r \<Longrightarrow> parse_secret_ref (trim v) = Ok v"
  using parse_secret_ref_ok by metis

lemma required_text_ok:
  "required_text config name = Ok t \<longleftrightarrow>
     (\<exists>v. text_of (jget config name) = Some v \<and> t = trim v \<and> t \<noteq> [])"
  by (auto simp: required_text_def ok_or_Inr_iff split: option.splits if_splits)

lemma validate_config_ok:
  "validate_config a version config = Ok () \<longleftrightarrow>
     version = pm_schema_version (ja_manifest a) \<and> is_object config
     \<and> (\<forall>f \<in> set (ja_fields a). validate_field config f = Ok ())"
  using each_res_ok_iff [of "validate_field config" "ja_fields a"]
  by (auto simp: validate_config_def is_ok_unit)

lemma valid_required:
  assumes "validate_field config f = Ok ()" and "cf_required f"
  obtains v where "text_of (jget config (cf_name f)) = Some v" and "trim v \<noteq> []"
  using assms by (auto simp: validate_field_def and_then_Inr_iff required_text_ok)

lemma parsed_references:
  "collect_res (map parse_secret_ref vs) = Ok refs \<Longrightarrow> refs = vs \<and> (\<forall>v \<in> set refs. parse_secret_ref v = Ok v)"
proof (induction vs arbitrary: refs)
  case Nil
  then show ?case by simp
next
  case (Cons v vs)
  then obtain r rs where r: "parse_secret_ref v = Inr r" "collect_res (map parse_secret_ref vs) = Inr rs"
    and refs: "refs = r # rs"
    by (cases "parse_secret_ref v") (auto simp: and_then_Inr_iff)
  from parse_secret_ref_ok [OF r(1)] have "r = v" by simp
  with r(1) Cons.IH [OF r(2)] refs show ?case by simp
qed

lemma server_references:
  assumes "server_secret_references a config = Ok refs"
  shows "refs = secret_values a ''public_key_secret'' config \<and> (\<forall>v \<in> set refs. parse_secret_ref v = Ok v)"
  using assms by (auto simp: server_secret_references_def and_then_Inr_iff dest: parsed_references)

lemma client_references:
  assumes "client_secret_references a config = Ok refs"
  shows "refs = secret_values a ''private_key_secret'' config \<and> (\<forall>v \<in> set refs. parse_secret_ref v = Ok v)"
  using assms by (auto simp: client_secret_references_def and_then_Inr_iff dest: parsed_references)

lemma secret_values_mem:
  "f \<in> set (ja_fields a) \<Longrightarrow> cf_kind f = SecretField \<Longrightarrow> cf_name f \<noteq> excluded \<Longrightarrow>
     text_of (jget config (cf_name f)) = Some v \<Longrightarrow> trim v \<noteq> [] \<Longrightarrow> v \<in> set (secret_values a excluded config)"
  by (force simp: secret_values_def map_filter_def)

subsection \<open>The secrets a client document depends on\<close>

text \<open>The fields whose secrets an implementation's client document contains.\<close>

fun wrapper_secrets :: "security_wrapper \<Rightarrow> string list" where
  "wrapper_secrets StandardTls = []"
| "wrapper_secrets Reality = [''public_key_secret'', ''short_id_secret'']"
| "wrapper_secrets ShadowTlsV3 = [''shadow_tls_password_secret'']"
| "wrapper_secrets ResTls = [''restls_password_secret'']"
| "wrapper_secrets Jls = [''jls_username_secret'', ''jls_password_secret'']"

fun client_secrets :: "implementation \<Rightarrow> string list" where
  "client_secrets VlessXhttp = [''public_key_secret'', ''short_id_secret'']"
| "client_secrets VlessTcp = [''public_key_secret'', ''short_id_secret'']"
| "client_secrets (VlessWrapped w) = wrapper_secrets w"
| "client_secrets ShadowsocksShadowTls = [''password_secret'', ''shadow_tls_password_secret'']"
| "client_secrets Hysteria = [''password_secret'', ''obfs_password_secret'']"
| "client_secrets AnyTlsLegacy = [''password_secret'']"
| "client_secrets (AnyTls w) = ''password_secret'' # wrapper_secrets w"
| "client_secrets Tuic = [''password_secret'']"
| "client_secrets (Trojan w) = wrapper_secrets w"
| "client_secrets (SnellV5 w) = ''psk_secret'' # (case w of None \<Rightarrow> [] | Some w \<Rightarrow> wrapper_secrets w)"
| "client_secrets MieruTcp = [''password_secret'']"
| "client_secrets SudokuHttpMask = [''key_secret'']"
| "client_secrets _ = []"

definition same_secret :: "json \<Rightarrow> secret_resolver \<Rightarrow> secret_resolver \<Rightarrow> string \<Rightarrow> bool" where
  "same_secret config resolve1 resolve2 name \<longleftrightarrow>
     (\<forall>v. text_of (jget config name) = Some v \<longrightarrow> trim v \<noteq> [] \<longrightarrow>
        parse_secret_ref (trim v) = Ok (trim v) \<longrightarrow> resolve1 (trim v) = resolve2 (trim v))"

lemma parse_secret_ref_same: "parse_secret_ref v = Ok r \<Longrightarrow> parse_secret_ref v = Ok v"
  using parse_secret_ref_ok by metis

lemma same_cx_secret:
  assumes "same_secret (pr_config p) resolve1 resolve2 name"
  shows "cx_secret \<lparr>cx_profile = p, cx_user = u, cx_secrets = resolve1\<rparr> name
       = cx_secret \<lparr>cx_profile = p, cx_user = u, cx_secrets = resolve2\<rparr> name"
proof (cases "required_text (pr_config p) name")
  case (Inl e)
  then show ?thesis by (simp add: cx_secret_def cx_text_def)
next
  case (Inr t)
  show ?thesis
  proof (cases "parse_secret_ref t")
    case (Inl e)
    with Inr show ?thesis by (simp add: cx_secret_def cx_text_def)
  next
    case (Inr r)
    note parsed = this
    with parse_secret_ref_ok have r: "r = t" by blast
    obtain v where v: "text_of (jget (pr_config p) name) = Some v" "t = trim v" "t \<noteq> []"
      using \<open>required_text (pr_config p) name = Inr t\<close> by (auto simp: required_text_ok)
    with assms parsed r have "resolve1 t = resolve2 t" by (auto simp: same_secret_def)
    with parsed r \<open>required_text (pr_config p) name = Inr t\<close> show ?thesis
      by (simp add: cx_secret_def cx_text_def)
  qed
qed

lemma client_wrapper_cong:
  assumes "\<And>n. n \<in> set (wrapper_secrets w) \<Longrightarrow> cx_secret c1 n = cx_secret c2 n"
  shows "client_wrapper c1 w = client_wrapper c2 w"
  using assms by (cases w) (auto simp: client_wrapper_def fun_eq_iff)

lemma snell_wrapper_cong:
  assumes "\<And>n. n \<in> set (wrapper_secrets w) \<Longrightarrow> cx_secret c1 n = cx_secret c2 n"
    and "cx_text c1 = cx_text c2"
  shows "snell_wrapper c1 w = snell_wrapper c2 w"
  using assms by (cases w) (auto simp: snell_wrapper_def fun_eq_iff)

lemma optional_text_ok:
  "optional_text config name = Ok (Some t) \<longleftrightarrow>
     (\<exists>v. text_of (jget config name) = Some v \<and> t = trim v \<and> t \<noteq> [])"
  by (auto simp: optional_text_def text_of_def split: option.splits json.splits if_splits)

lemma same_optional:
  assumes "same_secret config r1 r2 name" and "optional_text config name = Ok (Some t)"
  shows "and_then (parse_secret_ref t) r1 = and_then (parse_secret_ref t) r2"
proof (cases "parse_secret_ref t")
  case (Inr r)
  from parse_secret_ref_ok [OF this] have "r = t" by simp
  with assms Inr show ?thesis by (auto simp: same_secret_def optional_text_ok)
qed simp

lemma and_then_assoc: "and_then (and_then r f) g = and_then r (\<lambda>x. and_then (f x) g)"
  by (cases r) auto

lemma hysteria_cong:
  assumes pw: "cx_secret c1 ''password_secret'' = cx_secret c2 ''password_secret''"
    and same: "cx_profile c1 = cx_profile c2"
    and obfs: "same_secret (pr_config (cx_profile c2)) (cx_secrets c1) (cx_secrets c2) ''obfs_password_secret''"
  shows "render_hysteria c1 = render_hysteria c2"
proof -
  have obfs': "and_then (parse_secret_ref t) (\<lambda>r. and_then (cx_secrets c1 r) f)
             = and_then (parse_secret_ref t) (\<lambda>r. and_then (cx_secrets c2 r) f)"
    if "optional_text (pr_config (cx_profile c2)) ''obfs_password_secret'' = Ok (Some t)" for t and f :: "string \<Rightarrow> proxy res"
    using same_optional [OF obfs that] by (metis and_then_assoc)
  have step: "(case b of None \<Rightarrow> Ok q | Some t \<Rightarrow>
        and_then (parse_secret_ref t) (\<lambda>r. and_then (cx_secrets c1 r) f))
      = (case b of None \<Rightarrow> Ok q | Some t \<Rightarrow>
        and_then (parse_secret_ref t) (\<lambda>r. and_then (cx_secrets c2 r) f))"
    if "optional_text (pr_config (cx_profile c2)) ''obfs_password_secret'' = Ok b" for b q and f :: "string \<Rightarrow> proxy res"
    using obfs' that by (cases b) auto
  show ?thesis
    by (cases "optional_text (pr_config (cx_profile c2)) ''obfs_password_secret''")
      (simp_all add: render_hysteria_def cx_text_def base_proxy_def same pw Let_def step del: bt_collect.simps bt_insert.simps)
qed

lemma render_proxy_cong:
  assumes secrets: "\<forall>n \<in> set (client_secrets i). same_secret (pr_config p) r1 r2 n"
  shows "render_proxy i \<lparr>cx_profile = p, cx_user = u, cx_secrets = r1\<rparr>
       = render_proxy i \<lparr>cx_profile = p, cx_user = u, cx_secrets = r2\<rparr>"
proof -
  define c1 where "c1 = \<lparr>cx_profile = p, cx_user = u, cx_secrets = r1\<rparr>"
  define c2 where "c2 = \<lparr>cx_profile = p, cx_user = u, cx_secrets = r2\<rparr>"
  have same: "cx_secret c1 n = cx_secret c2 n" if "n \<in> set (client_secrets i)" for n
    unfolding c1_def c2_def using secrets that by (intro same_cx_secret) blast
  have texts: "cx_text c1 = cx_text c2" and base: "base_proxy c1 = base_proxy c2" and user: "juser c1 = juser c2"
    by (auto simp: c1_def c2_def cx_text_def base_proxy_def juser_def fun_eq_iff)
  have "render_proxy i c1 = render_proxy i c2"
  proof (cases i)
    case Hysteria
    have "render_hysteria c1 = render_hysteria c2"
      using secrets same by (intro hysteria_cong) (auto simp: Hysteria c1_def c2_def)
    with Hysteria show ?thesis by simp
  next
    case (VlessWrapped w)
    with same texts base user show ?thesis
      using client_wrapper_cong [of w c1 c2] by (simp add: render_vless_wrapped_def)
  next
    case (AnyTls w)
    with same texts base user show ?thesis
      using client_wrapper_cong [of w c1 c2] by (simp add: render_anytls_def anytls_proxy_def)
  next
    case (Trojan w)
    with same texts base user show ?thesis
      using client_wrapper_cong [of w c1 c2] by (simp add: render_trojan_def)
  next
    case (SnellV5 w)
    with same texts base user show ?thesis
      using snell_wrapper_cong [of _ c1 c2] by (cases w) (simp_all add: render_snell_def)
  qed (use same texts base user in \<open>simp_all add: render_vless_xhttp_def render_vless_tcp_def
      render_shadowsocks_def render_anytls_legacy_def anytls_proxy_def render_tuic_def render_mieru_def
      render_trusttunnel_def render_shadowquic_def render_sudoku_def\<close>)
  then show ?thesis by (simp add: c1_def c2_def)
qed

lemma client_secrets_declared_table:
  "list_all (\<lambda>a. list_all (\<lambda>n. n \<noteq> ''private_key_secret''
       \<and> n \<in> set (map cf_name (filter (\<lambda>f. cf_kind f = SecretField) (ja_fields a))))
     (client_secrets (ja_implementation a))) built_in_protocols"
  by code_simp

lemma client_secrets_declared:
  assumes "a \<in> set built_in_protocols" and "n \<in> set (client_secrets (ja_implementation a))"
  obtains f where "f \<in> set (ja_fields a)" and "cf_kind f = SecretField" and "cf_name f = n"
    and "n \<noteq> ''private_key_secret''"
proof -
  have "n \<noteq> ''private_key_secret''
      \<and> n \<in> set (map cf_name (filter (\<lambda>f. cf_kind f = SecretField) (ja_fields a)))"
    using client_secrets_declared_table assms unfolding list_all_iff by blast
  then show ?thesis using that by auto
qed

lemma client_render_same:
  assumes a: "a \<in> set built_in_protocols"
    and refs: "client_secret_references a (pr_config p) = Ok refs"
    and same: "\<forall>r \<in> set refs. r1 r = r2 r"
  shows "render_client a p user r1 = render_client a p user r2"
proof -
  have "same_secret (pr_config p) r1 r2 n" if n: "n \<in> set (client_secrets (ja_implementation a))" for n
    unfolding same_secret_def
  proof (intro allI impI)
    fix v
    assume v: "text_of (jget (pr_config p) n) = Some v" "trim v \<noteq> []"
      and "parse_secret_ref (trim v) = Ok (trim v)"
    obtain f where f: "f \<in> set (ja_fields a)" "cf_kind f = SecretField" "cf_name f = n" "n \<noteq> ''private_key_secret''"
      using client_secrets_declared [OF a n] by blast
    then have "v \<in> set refs"
      using client_references [OF refs] secret_values_mem [of f a "''private_key_secret''" "pr_config p" v] v by auto
    moreover from this have "trim v = v"
      using client_references [OF refs] parse_secret_ref_ok by blast
    ultimately show "r1 (trim v) = r2 (trim v)" using same by simp
  qed
  then have "render_proxy (ja_implementation a) \<lparr>cx_profile = p, cx_user = user, cx_secrets = r1\<rparr>
      = render_proxy (ja_implementation a) \<lparr>cx_profile = p, cx_user = user, cx_secrets = r2\<rparr>"
    by (intro render_proxy_cong) blast
  then show ?thesis by (simp add: render_client_def)
qed

subsection \<open>Registration\<close>

lemma composition_valid:
  "valid_composition_value (pc_protocol (composition_of i)) \<and> valid_composition_value (pc_transport (composition_of i))
   \<and> valid_composition_value (pc_security (composition_of i))
   \<and> (case pc_flow (composition_of i) of None \<Rightarrow> True | Some f \<Rightarrow> valid_composition_value f)
   \<and> pc_maturity (composition_of i) \<noteq> Unsupported"
proof -
  have label: "valid_composition_value (wrapper_label w)" for w
    by (cases w) (simp_all add: valid_composition_value_def is_alphanumeric_def is_digit_def is_lower_def
        is_upper_def byte_def)
  have rest: "list_all valid_composition_value
     [''vless'', ''xhttp'', ''reality'', ''tcp'', ''xtls-rprx-vision'', ''shadowsocks-2022'', ''shadow-tls-v3'',
      ''hysteria2'', ''quic'', ''tls+salamander'', ''anytls'', ''tls'', ''tuic-v5'', ''trojan'', ''snell-v5'',
      ''psk'', ''mieru'', ''protocol-auth'', ''trusttunnel'', ''h2'', ''shadowquic'', ''jls'', ''sudoku'',
      ''httpmask'', ''chacha20-poly1305'']"
    by code_simp
  have maturity: "wrapper_maturity w \<noteq> Unsupported" for w by (simp add: wrapper_maturity_def)
  show ?thesis
    using rest label maturity
    by (cases i) (auto simp: composition_of_def split: option.splits)
qed

lemma new_adapter_valid:
  assumes "valid_adapter_id i" and "d \<noteq> [] \<and> solid (hd d) \<and> solid (last d)"
  shows "is_ok (validate_protocol_manifest (ja_manifest (new_adapter i d impl fs part net)))"
proof -
  have "trim d \<noteq> []" using assms(2) trim_solid [of d] by auto
  with assms(1) composition_valid [of impl] show ?thesis
    by (simp add: validate_protocol_manifest_def new_adapter_def Let_def validate_capabilities_def
        split: option.splits)
qed

definition display_ok :: "json_adapter \<Rightarrow> bool" where
  "display_ok a \<longleftrightarrow>
     (let d = pm_display_name (ja_manifest a) in d \<noteq> [] \<and> solid (hd d) \<and> solid (last d))"

lemma built_in_manifests_valid:
  "list_all (\<lambda>a. is_ok (validate_protocol_manifest (ja_manifest a))) built_in_protocols"
proof -
  have shape: "list_all (\<lambda>a. let m = ja_manifest a in
      m = ja_manifest (new_adapter (pm_id m) (pm_display_name m) (ja_implementation a) []
        (pm_user_participation m) (pm_listener_network m))) built_in_protocols"
    by (simp add: built_in_protocols_def reality_adapters_def wrapped_vless_adapters_def single_core_adapters_def
       anytls_adapters_def tuic_adapter_def trojan_adapters_def snell_adapters_def standalone_adapters_def
       new_adapter_def)
  have ids: "list_all (\<lambda>a. valid_adapter_id (pm_id (ja_manifest a)) \<and> display_ok a) built_in_protocols"
    by code_simp
  show ?thesis
    unfolding list_all_iff
  proof
    fix a
    assume a: "a \<in> set built_in_protocols"
    then have "ja_manifest a = ja_manifest (new_adapter (pm_id (ja_manifest a)) (pm_display_name (ja_manifest a))
        (ja_implementation a) [] (pm_user_participation (ja_manifest a)) (pm_listener_network (ja_manifest a)))"
      using shape unfolding list_all_iff Let_def by blast
    moreover have "is_ok (validate_protocol_manifest (ja_manifest (new_adapter (pm_id (ja_manifest a))
        (pm_display_name (ja_manifest a)) (ja_implementation a) [] (pm_user_participation (ja_manifest a))
        (pm_listener_network (ja_manifest a)))))"
      using ids a unfolding list_all_iff display_ok_def Let_def by (intro new_adapter_valid) blast+
    ultimately show "is_ok (validate_protocol_manifest (ja_manifest a))" by simp
  qed
qed

lemma built_in_ids_distinct: "distinct (map (\<lambda>a. pm_id (ja_manifest a)) built_in_protocols)"
  by code_simp

context registry
begin

lemma register_all_ok:
  "\<forall>a \<in> set as. is_ok (validate a) \<Longrightarrow> distinct (map ident as) \<Longrightarrow>
     \<forall>a \<in> set as. bt_get m (ident a) = None \<Longrightarrow> \<exists>m'. register_all reg_add as m = Ok m'"
proof (induction as arbitrary: m)
  case Nil
  then show ?case by simp
next
  case (Cons a as)
  then have "reg_add a m = Ok (bt_insert (ident a) a m)" by (simp add: add_ok)
  moreover have "\<forall>b \<in> set as. bt_get (bt_insert (ident a) a m) (ident b) = None"
  proof
    fix b
    assume b: "b \<in> set as"
    then have "ident b \<noteq> ident a" using Cons.prems(2) by (metis distinct.simps(2) image_eqI list.simps(9) set_map)
    with b Cons.prems(3) show "bt_get (bt_insert (ident a) a m) (ident b) = None"
      by (simp add: bt_get_insert)
  qed
  ultimately show ?case using Cons by simp
qed

end

lemma built_in_registered:
  obtains reg where "protocol_registry = Ok reg" and "protocol_registry_inv reg"
    and "\<forall>a \<in> set built_in_protocols. bt_get reg (pm_id (ja_manifest a)) = Some (as_protocol_adapter a)"
proof -
  have ident: "pa_id (as_protocol_adapter a) = pm_id (ja_manifest a)" for a
    by (simp add: pa_id_def as_protocol_adapter_def)
  have manifest: "pa_manifest (as_protocol_adapter a) = ja_manifest a" for a
    by (simp add: as_protocol_adapter_def)
  have "\<exists>reg. protocol_registry = Ok reg"
    unfolding protocol_registry_def
    using built_in_manifests_valid built_in_ids_distinct
    by (intro protocols.register_all_ok) (auto simp: ident manifest list_all_iff comp_def)
  then obtain reg where reg: "protocol_registry = Ok reg" ..
  have "protocol_registry_inv reg"
    using protocols.reg_inv_add_all [OF protocols.reg_inv_empty] reg by (simp add: protocol_registry_def)
  moreover have "bt_get reg (pm_id (ja_manifest a)) = Some (as_protocol_adapter a)"
    if "a \<in> set built_in_protocols" for a
    using protocols.add_all_get [of "map as_protocol_adapter built_in_protocols" "[]" reg "as_protocol_adapter a"] reg that
    by (simp add: protocol_registry_def ident)
  ultimately show ?thesis using that reg by blast
qed

end
