(* ===== verification/Core_Documents.thy ===== *)
theory Core_Documents
  imports Cores Protocol_Rendering
begin

text \<open>
  What the composers make of rendered fragments: every fragment a built-in protocol adapter renders
  is accepted by every runtime that advertises the capability, and the listeners and users found in
  the composed document are the ones the fragments claim.
\<close>

subsection \<open>A rendered fragment\<close>

lemma bt_collect_literal:
  "distinct (map fst kvs) \<Longrightarrow> bt_get (bt_collect kvs []) k = bt_get kvs k"
  by (simp add: bt_collect_get bt_get_rev_distinct split: option.splits)

lemma text_of_as_str: "Option.bind v as_str = text_of v"
  by (cases v) (auto simp: as_str_def text_of_def split: json.splits)

definition individual :: "json_adapter \<Rightarrow> bool" where
  "individual a \<longleftrightarrow> requires_individual_users (pm_user_participation (ja_manifest a))"

lemma resolved_entries:
  assumes "collect_res (map (resolve_entry resolve) refs) = Ok secrets" and "v \<in> set refs"
  shows "\<exists>s. bt_get (bt_collect secrets []) v = Some (JString s) \<and> resolve v = Ok s"
proof -
  have entries: "map (resolve_entry resolve) refs = map Inr secrets"
    using assms(1) by (simp add: collect_res_Inr_iff)
  have all: "\<forall>(k, j) \<in> set secrets. \<exists>s. resolve k = Ok s \<and> j = JString s"
  proof (clarify)
    fix k j
    assume "(k, j) \<in> set secrets"
    then have "Inr (k, j) \<in> set (map (resolve_entry resolve) refs)" unfolding entries by force
    then show "\<exists>s. resolve k = Ok s \<and> j = JString s"
      by (auto simp: resolve_entry_def and_then_Inr_iff dest!: sym [of "Inr _"])
  qed
  have "resolve_entry resolve v \<in> set (map Inr secrets)"
    unfolding entries [symmetric] using assms(2) by simp
  then obtain j where "(v, j) \<in> set secrets"
    by (auto simp: resolve_entry_def and_then_Inr_iff)
  then have "v \<in> fst ` set (bt_collect secrets [])" by (force simp: bt_collect_keys)
  then obtain j' where j': "bt_get (bt_collect secrets []) v = Some j'"
    using bt_get_None by (metis not_Some_eq)
  then have "bt_get (rev secrets) v = Some j'" by (simp add: bt_collect_get split: option.splits)
  then have "(v, j') \<in> set secrets" using bt_get_in by fastforce
  with all obtain s where "resolve v = Ok s" "j' = JString s" by blast
  with j' show ?thesis by blast
qed

text \<open>The view a composer has of a fragment: its payload, and what it can read there.\<close>

definition fragment_view :: "json_adapter \<Rightarrow> protocol_profile \<Rightarrow> subscription_user list \<Rightarrow> server_fragment
    \<Rightarrow> jmap \<Rightarrow> jmap \<Rightarrow> bool" where
  "fragment_view a p users f pl cfg \<longleftrightarrow>
     payload_object f = Ok pl \<and> payload_config pl = Ok cfg \<and> pr_config p = JObject cfg
     \<and> payload_port pl = Ok (pr_port p)
     \<and> payload_users pl = Ok (if individual a then map user_entry users else [])"

lemma rendered_view:
  assumes r: "render_server a p users resolve = Ok f"
  obtains pl cfg where "fragment_view a p users f pl cfg"
    and "validate_config a (pr_schema_version p) (JObject cfg) = Ok ()"
    and "\<And>name v. text_of (bt_get cfg name) = Some v \<Longrightarrow>
          v \<in> set (secret_values a ''public_key_secret'' (JObject cfg)) \<Longrightarrow>
          \<exists>s. resolved_secret pl name = Ok s \<and> resolve v = Ok s"
proof -
  from r obtain refs secrets where valid: "validate_config a (pr_schema_version p) (pr_config p) = Ok ()"
    and refs: "server_secret_references a (pr_config p) = Ok refs"
    and secrets: "collect_res (map (resolve_entry resolve) refs) = Ok secrets"
    and f: "sf_payload f = jobj
           [(''server'', JString (pr_server p)), (''port'', jport (pr_port p)), (''config'', pr_config p),
            (''users'', JArray (if individual a then map user_entry users else [])),
            (''resolved_secrets'', JObject (bt_collect secrets [])),
            (''managed_resource_id'', jopt_string (pr_managed_resource p))]"
    by (auto simp: render_server_def and_then_Inr_iff individual_def Let_def)
  from valid obtain cfg where cfg: "pr_config p = JObject cfg"
    by (auto simp: validate_config_ok is_object_def split: json.splits)
  define pl where "pl = bt_collect
           [(''server'', JString (pr_server p)), (''port'', jport (pr_port p)), (''config'', pr_config p),
            (''users'', JArray (if individual a then map user_entry users else [])),
            (''resolved_secrets'', JObject (bt_collect secrets [])),
            (''managed_resource_id'', jopt_string (pr_managed_resource p))] []"
  have get: "bt_get pl ''port'' = Some (jport (pr_port p))" "bt_get pl ''config'' = Some (JObject cfg)"
    "bt_get pl ''users'' = Some (JArray (if individual a then map user_entry users else []))"
    "bt_get pl ''resolved_secrets'' = Some (JObject (bt_collect secrets []))"
    unfolding pl_def cfg by (subst bt_collect_literal; simp)+
  have view: "fragment_view a p users f pl cfg"
    unfolding fragment_view_def
  proof (intro conjI)
    show "payload_object f = Ok pl" unfolding payload_object_def f jobj_object pl_def by simp
    show "payload_config pl = Ok cfg" by (simp add: payload_config_def get as_object_def)
    show "pr_config p = JObject cfg" by (fact cfg)
    show "payload_port pl = Ok (pr_port p)" by (simp add: payload_port_def get json_simps)
    show "payload_users pl = Ok (if individual a then map user_entry users else [])"
      by (simp add: payload_users_def get as_array_def)
  qed
  have "\<exists>s. resolved_secret pl name = Ok s \<and> resolve v = Ok s"
    if v: "text_of (bt_get cfg name) = Some v" "v \<in> set (secret_values a ''public_key_secret'' (JObject cfg))" for name v
  proof -
    have "v \<in> set refs" using server_references [OF refs] v cfg by simp
    from resolved_entries [OF secrets this] obtain s
      where "bt_get (bt_collect secrets []) v = Some (JString s)" "resolve v = Ok s" by blast
    with v get show ?thesis
      by (simp add: resolved_secret_def payload_config_def payload_secrets_def config_text_def text_of_as_str
          as_object_def as_str_def text_of_simps)
  qed
  with that [OF view] valid cfg show ?thesis by simp
qed

subsection \<open>What a composer needs of a configuration\<close>

fun server_wrapper_secrets :: "security_wrapper \<Rightarrow> string list" where
  "server_wrapper_secrets StandardTls = []"
| "server_wrapper_secrets Reality = [''private_key_secret'', ''short_id_secret'']"
| "server_wrapper_secrets ShadowTlsV3 = [''shadow_tls_password_secret'']"
| "server_wrapper_secrets ResTls = [''restls_password_secret'']"
| "server_wrapper_secrets Jls = [''jls_username_secret'', ''jls_password_secret'']"

fun server_secrets :: "implementation \<Rightarrow> string list" where
  "server_secrets VlessXhttp = [''private_key_secret'', ''short_id_secret'']"
| "server_secrets VlessTcp = [''private_key_secret'', ''short_id_secret'']"
| "server_secrets (VlessWrapped w) = server_wrapper_secrets w"
| "server_secrets ShadowsocksShadowTls = [''password_secret'', ''shadow_tls_password_secret'']"
| "server_secrets Hysteria = [''password_secret'']"
| "server_secrets AnyTlsLegacy = [''password_secret'']"
| "server_secrets (AnyTls w) = ''password_secret'' # server_wrapper_secrets w"
| "server_secrets Tuic = [''password_secret'']"
| "server_secrets (Trojan w) = server_wrapper_secrets w"
| "server_secrets (SnellV5 w) =
     ''psk_secret'' # (case w of None \<Rightarrow> [] | Some w \<Rightarrow> server_wrapper_secrets w)"
| "server_secrets MieruTcp = [''password_secret'']"
| "server_secrets SudokuHttpMask = [''key_secret'']"
| "server_secrets _ = []"

fun server_texts :: "implementation \<Rightarrow> string list" where
  "server_texts VlessXhttp = [''server_name'', ''path'']"
| "server_texts VlessTcp = [''server_name'']"
| "server_texts ShadowsocksShadowTls = [''server_name'']"
| "server_texts (SnellV5 w) = (case w of None \<Rightarrow> [] | Some _ \<Rightarrow> [''sni''])"
| "server_texts MieruTcp = []"
| "server_texts SudokuHttpMask = [''path_root'']"
| "server_texts _ = [''sni'']"

definition declares :: "json_adapter \<Rightarrow> field_kind \<Rightarrow> string \<Rightarrow> bool" where
  "declares a kind name \<longleftrightarrow>
     name \<in> set (map cf_name (filter (\<lambda>f. cf_kind f = kind \<and> cf_required f) (ja_fields a)))"

lemma server_fields_table:
  "list_all (\<lambda>a.
     list_all (\<lambda>n. n \<noteq> ''public_key_secret'' \<and> declares a SecretField n) (server_secrets (ja_implementation a))
     \<and> list_all (declares a TextField) (server_texts (ja_implementation a))) built_in_protocols"
  by code_simp

lemma rendered_needs:
  assumes a: "a \<in> set built_in_protocols"
    and valid: "validate_config a v (JObject cfg) = Ok ()"
    and secrets: "\<And>name v. text_of (bt_get cfg name) = Some v \<Longrightarrow>
          v \<in> set (secret_values a ''public_key_secret'' (JObject cfg)) \<Longrightarrow>
          \<exists>s. resolved_secret pl name = Ok s \<and> resolve v = Ok s"
  shows "n \<in> set (server_secrets (ja_implementation a)) \<Longrightarrow> \<exists>s. resolved_secret pl n = Ok s"
    and "n \<in> set (server_texts (ja_implementation a)) \<Longrightarrow> \<exists>t. config_text cfg n = Ok t"
proof -
  have declared: "\<exists>v. text_of (bt_get cfg n) = Some v \<and> trim v \<noteq> []
      \<and> (\<exists>f \<in> set (ja_fields a). cf_kind f = kind \<and> cf_name f = n)" if "declares a kind n" for kind n
  proof -
    from that obtain f where f: "f \<in> set (ja_fields a)" "cf_kind f = kind" "cf_required f" "cf_name f = n"
      by (auto simp: declares_def)
    moreover from this valid have "validate_field (JObject cfg) f = Ok ()" by (auto simp: validate_config_ok)
    moreover from calculation obtain v where "text_of (jget (JObject cfg) (cf_name f)) = Some v" "trim v \<noteq> []"
      using valid_required by blast
    ultimately show ?thesis by auto
  qed
  show "\<exists>s. resolved_secret pl n = Ok s" if n: "n \<in> set (server_secrets (ja_implementation a))"
  proof -
    have "n \<noteq> ''public_key_secret'' \<and> declares a SecretField n"
      using server_fields_table a n unfolding list_all_iff by blast
    with declared [of SecretField n] obtain v f where "text_of (bt_get cfg n) = Some v" "trim v \<noteq> []"
      "f \<in> set (ja_fields a)" "cf_kind f = SecretField" "cf_name f = n" "n \<noteq> ''public_key_secret''" by blast
    then show ?thesis
      using secrets [of n v] secret_values_mem [of f a "''public_key_secret''" "JObject cfg" v]
      by auto
  qed
  show "\<exists>t. config_text cfg n = Ok t" if n: "n \<in> set (server_texts (ja_implementation a))"
  proof -
    have "declares a TextField n" using server_fields_table a n unfolding list_all_iff by blast
    with declared show ?thesis by (fastforce simp: config_text_def text_of_as_str)
  qed
qed

definition supplied :: "jmap \<Rightarrow> jmap \<Rightarrow> implementation \<Rightarrow> bool" where
  "supplied pl cfg i \<longleftrightarrow>
     (\<forall>n \<in> set (server_secrets i). \<exists>s. resolved_secret pl n = Ok s)
     \<and> (\<forall>n \<in> set (server_texts i). \<exists>t. config_text cfg n = Ok t)"

lemma rendered_supplied:
  assumes "a \<in> set built_in_protocols" and "render_server a p users resolve = Ok f"
  obtains pl cfg where "fragment_view a p users f pl cfg" and "supplied pl cfg (ja_implementation a)"
    and "\<And>v. text_of (bt_get cfg ''obfs_password_secret'') = Some v \<Longrightarrow> trim v \<noteq> [] \<Longrightarrow>
          ja_implementation a = Hysteria \<Longrightarrow> \<exists>s. resolved_secret pl ''obfs_password_secret'' = Ok s"
proof -
  obtain pl cfg where view: "fragment_view a p users f pl cfg"
    and valid: "validate_config a (pr_schema_version p) (JObject cfg) = Ok ()"
    and secrets: "\<And>name v. text_of (bt_get cfg name) = Some v \<Longrightarrow>
          v \<in> set (secret_values a ''public_key_secret'' (JObject cfg)) \<Longrightarrow>
          \<exists>s. resolved_secret pl name = Ok s \<and> resolve v = Ok s"
    using rendered_view [OF assms(2)] by metis
  have "supplied pl cfg (ja_implementation a)"
    using rendered_needs [OF assms(1) valid secrets] by (simp add: supplied_def)
  moreover have "\<exists>s. resolved_secret pl ''obfs_password_secret'' = Ok s"
    if v: "text_of (bt_get cfg ''obfs_password_secret'') = Some v" "trim v \<noteq> []" "ja_implementation a = Hysteria" for v
  proof -
    have "list_all (\<lambda>a. ja_implementation a = Hysteria \<longrightarrow>
        ''obfs_password_secret'' \<in> set (map cf_name (filter (\<lambda>f. cf_kind f = SecretField) (ja_fields a))))
        built_in_protocols"
      by code_simp
    with assms(1) v(3) have "''obfs_password_secret'' \<in> set (map cf_name (filter (\<lambda>f. cf_kind f = SecretField) (ja_fields a)))"
      unfolding list_all_iff by blast
    then obtain fld where "fld \<in> set (ja_fields a)" "cf_kind fld = SecretField" "cf_name fld = ''obfs_password_secret''"
      by auto
    then have "v \<in> set (secret_values a ''public_key_secret'' (JObject cfg))"
      using secret_values_mem [of fld a "''public_key_secret''" "JObject cfg" v] v by simp
    with secrets [OF v(1)] show ?thesis by blast
  qed
  ultimately show ?thesis using that view by blast
qed

lemma jsecret_ok: "resolved_secret pl n = Ok s \<Longrightarrow> jsecret pl n = Ok (JString s)"
  by (simp add: jsecret_def)

subsection \<open>Mihomo listeners\<close>

definition listens :: "json \<Rightarrow> json \<Rightarrow> string \<Rightarrow> u16 \<Rightarrow> bool" where
  "listens l name kind port \<longleftrightarrow>
     is_object l \<and> jget l ''name'' = Some name \<and> jget l ''type'' = Some (JString kind)
     \<and> jget l ''port'' = Some (jport port)"

lemma listens_jset:
  "listens l name kind port \<Longrightarrow> k \<notin> {''name'', ''type'', ''port''} \<Longrightarrow> listens (jset k v l) name kind port"
  by (auto simp: listens_def json_simps)

lemma jget_users_jset: "is_object l \<Longrightarrow> k \<noteq> ''users'' \<Longrightarrow> jget (jset k v l) ''users'' = jget l ''users''"
  by (auto simp: json_simps)

text \<open>A listener of the given kind whose users are \<open>u\<close>.\<close>

definition listener_with :: "json \<Rightarrow> json \<Rightarrow> string \<Rightarrow> u16 \<Rightarrow> json option \<Rightarrow> bool" where
  "listener_with l name kind port u \<longleftrightarrow> listens l name kind port \<and> jget l ''users'' = u"

lemma listener_with_jset:
  "listener_with l name kind port u \<Longrightarrow> k \<notin> {''name'', ''type'', ''port'', ''users''} \<Longrightarrow>
     listener_with (jset k v l) name kind port u"
  by (auto simp: listener_with_def listens_jset) (auto simp: listens_def jget_users_jset)

lemma server_wrapper_listener:
  assumes l: "listener_with l name kind port u"
    and secrets: "\<forall>n \<in> set (server_wrapper_secrets w). \<exists>s. resolved_secret pl n = Ok s"
    and sni: "\<exists>t. config_text cfg ''sni'' = Ok t"
  shows "\<exists>l'. server_wrapper pl cfg w l = Ok l' \<and> listener_with l' name kind port u"
proof -
  obtain t where t: "config_text cfg ''sni'' = Ok t" using sni ..
  have host: "camouflage_host cfg = Ok t" by (simp add: camouflage_host_def t)
  show ?thesis
    using secrets l
    by (cases w) (auto simp: server_wrapper_def reality_server_options_def host t jsecret_ok Let_def
        intro!: listener_with_jset)
qed

lemma reality_options_ok:
  assumes "\<forall>n \<in> {''private_key_secret'', ''short_id_secret''}. \<exists>s. resolved_secret pl n = Ok s"
    and "config_text cfg ''server_name'' = Ok t"
  shows "\<exists>v. reality_server_options pl cfg = Ok v"
  using assms by (cases "config_text cfg ''sni''")
    (auto simp: reality_server_options_def camouflage_host_def jsecret_ok)

subsection \<open>The built-in protocols\<close>

definition built_in_table :: "(string \<times> implementation \<times> bool \<times> listener_network) list" where
  "built_in_table =
     [(''vless-reality-xhttp'', VlessXhttp, True, Tcp),
      (''vless-reality-tcp'', VlessTcp, True, Tcp),
      (''vless-shadowtls-v3'', VlessWrapped ShadowTlsV3, True, Tcp),
      (''vless-restls'', VlessWrapped ResTls, True, Tcp),
      (''vless-jls'', VlessWrapped Jls, True, Tcp),
      (''shadowsocks2022-shadow-tls'', ShadowsocksShadowTls, False, Tcp),
      (''hysteria2'', Hysteria, False, Udp),
      (''any-tls'', AnyTlsLegacy, False, Tcp),
      (''anytls-tls'', AnyTls StandardTls, False, Tcp),
      (''anytls-shadowtls-v3'', AnyTls ShadowTlsV3, False, Tcp),
      (''anytls-restls'', AnyTls ResTls, False, Tcp),
      (''anytls-jls'', AnyTls Jls, False, Tcp),
      (''tuic'', Tuic, True, Udp),
      (''trojan-tls'', Trojan StandardTls, True, Tcp),
      (''trojan-shadowtls-v3'', Trojan ShadowTlsV3, True, Tcp),
      (''trojan-restls'', Trojan ResTls, True, Tcp),
      (''trojan-jls'', Trojan Jls, True, Tcp),
      (''trojan-reality'', Trojan Reality, True, Tcp),
      (''snell-v5'', SnellV5 None, False, Tcp),
      (''snell-v5-shadowtls-v3'', SnellV5 (Some ShadowTlsV3), False, Tcp),
      (''snell-v5-restls'', SnellV5 (Some ResTls), False, Tcp),
      (''snell-v5-jls'', SnellV5 (Some Jls), False, Tcp),
      (''mieru'', MieruTcp, True, Tcp),
      (''trusttunnel-h2'', TrustTunnelH2, True, Tcp),
      (''shadowquic'', ShadowQuic, True, Udp),
      (''sudoku-httpmask'', SudokuHttpMask, False, Tcp)]"

lemma built_in_row: "map (\<lambda>a. (pm_id (ja_manifest a), ja_implementation a, individual a,
     pm_listener_network (ja_manifest a))) built_in_protocols = built_in_table"
  by code_simp

lemma built_in_rows:
  "a \<in> set built_in_protocols \<Longrightarrow>
     (pm_id (ja_manifest a), ja_implementation a, individual a, pm_listener_network (ja_manifest a)) \<in> set built_in_table"
  unfolding built_in_row [symmetric] by simp

lemma user_entry_get: "jget (user_entry u) ''uuid'' = Some (JString (su_uuid u))"
    "jget (user_entry u) ''username'' = Some (JString (su_username u))"
  by (simp_all add: user_entry_def jget_literal)

lemma jindex_user [simp]: "jindex (user_entry u) ''uuid'' = JString (su_uuid u)"
    "jindex (user_entry u) ''username'' = JString (su_username u)"
  by (simp_all add: jindex_def user_entry_get)

lemma vless_user_uuid: "text_of (jget (mihomo_vless_user b (user_entry u)) ''uuid'') = Some (su_uuid u)"
  by (simp add: mihomo_vless_user_def Let_def json_simps jget_literal)

lemma password_user_name: "text_of (jget (mihomo_password_user (user_entry u)) ''username'') = Some (su_uuid u)"
  by (simp add: mihomo_password_user_def json_simps jget_literal)

lemma entry_users_map:
  "(\<And>u. text_of (jget (g u) key) = Some (h u)) \<Longrightarrow> entry_users key (map g us) = map h us"
  by (induction us) (simp_all add: entry_users_def map_filter_def)

lemma user_uuids_entries: "user_uuids (map user_entry us) = map su_uuid us"
  by (induction us) (simp_all add: user_uuids_def map_filter_def user_entry_get json_simps)

lemma object_keys_collect:
  "set (object_keys (Some (JObject (bt_collect (map (\<lambda>k. (k, v)) ks) [])))) = set ks"
  using bt_collect_keys [of "map (\<lambda>k. (k, v)) ks" "[]"] by (simp add: object_keys_def image_image)

lemma wrapper_table:
  "list_all (\<lambda>(c, w). wrapper_for_capability c = Ok w)
     [(''vless-shadowtls-v3'', ShadowTlsV3), (''vless-restls'', ResTls), (''vless-jls'', Jls),
      (''anytls-tls'', StandardTls), (''anytls-shadowtls-v3'', ShadowTlsV3), (''anytls-restls'', ResTls),
      (''anytls-jls'', Jls), (''trojan-tls'', StandardTls), (''trojan-shadowtls-v3'', ShadowTlsV3),
      (''trojan-restls'', ResTls), (''trojan-jls'', Jls), (''trojan-reality'', Reality),
      (''snell-v5-shadowtls-v3'', ShadowTlsV3), (''snell-v5-restls'', ResTls), (''snell-v5-jls'', Jls)]"
  by code_simp

lemmas wrapper_simps = wrapper_table [unfolded list.pred_inject prod.case simp_thms]

lemma mihomo_vless_ok:
  assumes users: "payload_users pl = Ok us" and i: "supplied pl cfg i"
    and row: "(cap, i) \<in> {(''vless-reality-tcp'', VlessTcp), (''vless-reality-xhttp'', VlessXhttp),
       (''vless-shadowtls-v3'', VlessWrapped ShadowTlsV3), (''vless-restls'', VlessWrapped ResTls),
       (''vless-jls'', VlessWrapped Jls)}"
  shows "\<exists>l. mihomo_vless pl cfg cap name port = Ok l \<and> listener_with l name ''vless'' port
     (Some (JArray (map (mihomo_vless_user (cap = ''vless-reality-tcp'')) us)))"
proof -
  let ?u = "JArray (map (mihomo_vless_user (cap = ''vless-reality-tcp'')) us)"
  define l where "l = jobj (mihomo_base ''vless'' name port @ [(''users'', ?u)])"
  have l: "listener_with l name ''vless'' port (Some ?u)"
    by (simp add: l_def listener_with_def listens_def mihomo_base_def jget_literal is_object_jobj)
  have wrapped: "\<exists>l'. server_wrapper pl cfg w l = Ok l' \<and> listener_with l' name ''vless'' port (Some ?u)"
    if "i = VlessWrapped w" for w
    using i that by (intro server_wrapper_listener [OF l]) (auto simp: supplied_def)
  show ?thesis
  proof (cases "\<exists>w. i = VlessWrapped w")
    case True
    then obtain w where w: "i = VlessWrapped w" by blast
    with row have cap: "wrapper_for_capability cap = Ok w" "cap \<noteq> ''vless-reality-tcp''"
      "cap \<noteq> ''vless-reality-xhttp''"
      using wrapper_simps by auto
    with wrapped [OF w] show ?thesis
      unfolding mihomo_vless_def users l_def wrapped_listener_def by simp
  next
    case False
    with row have "i = VlessTcp \<or> i = VlessXhttp" by auto
    with i obtain t where t: "config_text cfg ''server_name'' = Ok t" by (auto simp: supplied_def)
    with i \<open>i = VlessTcp \<or> i = VlessXhttp\<close> obtain v where "reality_server_options pl cfg = Ok v"
      using reality_options_ok [of pl cfg t] by (auto simp: supplied_def)
    note options = this
    show ?thesis
    proof (cases "i = VlessTcp")
      case True
      with row have "cap = ''vless-reality-tcp''" by auto
      with options l show ?thesis
        by (auto simp: mihomo_vless_def users l_def Let_def intro!: listener_with_jset)
    next
      case False
      with row \<open>i = VlessTcp \<or> i = VlessXhttp\<close> have cap: "cap = ''vless-reality-xhttp''" and x: "i = VlessXhttp" by auto
      from i x obtain path where "config_text cfg ''path'' = Ok path" by (auto simp: supplied_def)
      with options l t cap show ?thesis
        by (auto simp: mihomo_vless_def users l_def Let_def intro!: listener_with_jset)
    qed
  qed
qed

lemma wrapped_ok:
  assumes l: "listener_with l name kind port u" and w: "wrapper_for_capability cap = Ok w"
    and secrets: "\<forall>n \<in> set (server_wrapper_secrets w). \<exists>s. resolved_secret pl n = Ok s"
    and sni: "\<exists>t. config_text cfg ''sni'' = Ok t"
  shows "\<exists>l'. wrapped_listener pl cfg cap l = Ok l' \<and> listener_with l' name kind port u"
  using server_wrapper_listener [OF l secrets sni] by (simp add: wrapped_listener_def w)

lemma mihomo_anytls_ok:
  assumes i: "supplied pl cfg (AnyTls w)" and w: "wrapper_for_capability cap = Ok w"
  shows "\<exists>l u. mihomo_anytls pl cfg cap name port = Ok l \<and> listener_with l name ''anytls'' port u"
proof -
  obtain pw where pw: "resolved_secret pl ''password_secret'' = Ok pw" using i by (auto simp: supplied_def)
  have "listener_with (jobj (mihomo_base ''anytls'' name port @ [(''users'', jobj [(''shared'', JString pw)])]))
      name ''anytls'' port (Some (jobj [(''shared'', JString pw)]))"
    by (simp add: listener_with_def listens_def mihomo_base_def jget_literal is_object_jobj)
  from wrapped_ok [OF this w, of pl cfg] i show ?thesis
    by (auto simp: mihomo_anytls_def jsecret_ok [OF pw] supplied_def)
qed

lemma mihomo_trojan_ok:
  assumes users: "payload_users pl = Ok us" and i: "supplied pl cfg (Trojan w)"
    and w: "wrapper_for_capability cap = Ok w"
  shows "\<exists>l. mihomo_trojan pl cfg cap name port = Ok l
     \<and> listener_with l name ''trojan'' port (Some (JArray (map mihomo_password_user us)))"
proof -
  have "listener_with (jobj (mihomo_base ''trojan'' name port @
        [(''users'', JArray (map mihomo_password_user us))]))
      name ''trojan'' port (Some (JArray (map mihomo_password_user us)))"
    by (simp add: listener_with_def listens_def mihomo_base_def jget_literal is_object_jobj)
  from wrapped_ok [OF this w, of pl cfg] i show ?thesis
    by (auto simp: mihomo_trojan_def users supplied_def)
qed

lemma mihomo_snell_ok:
  assumes i: "supplied pl cfg (SnellV5 w)"
    and w: "case w of None \<Rightarrow> cap = ''snell-v5'' | Some w \<Rightarrow> cap \<noteq> ''snell-v5'' \<and> wrapper_for_capability cap = Ok w"
  shows "\<exists>l u. mihomo_snell pl cfg cap name port = Ok l \<and> listener_with l name ''snell'' port u"
proof -
  obtain psk where psk: "resolved_secret pl ''psk_secret'' = Ok psk" using i by (auto simp: supplied_def)
  have l: "listener_with (jobj (mihomo_base ''snell'' name port @
        [(''psk'', JString psk), (''version'', JNum 5), (''udp'', JBool True)])) name ''snell'' port None"
    by (simp add: listener_with_def listens_def mihomo_base_def jget_literal is_object_jobj)
  show ?thesis
  proof (cases w)
    case None
    with w l show ?thesis by (auto simp: mihomo_snell_def jsecret_ok [OF psk] Let_def)
  next
    case (Some w')
    with w have cap: "cap \<noteq> ''snell-v5''" "wrapper_for_capability cap = Ok w'" by auto
    from wrapped_ok [OF l cap(2), of pl cfg] i Some cap show ?thesis
      by (auto simp: mihomo_snell_def jsecret_ok [OF psk] Let_def supplied_def)
  qed
qed

lemma mihomo_mieru_ok:
  assumes users: "payload_users pl = Ok us" and i: "supplied pl cfg MieruTcp"
  shows "\<exists>l v. mihomo_mieru pl name port = Ok l \<and> listener_with l name ''mieru'' port
     (Some (JObject (bt_collect (map (\<lambda>k. (k, v)) (user_uuids us)) [])))"
proof -
  obtain pw where pw: "resolved_secret pl ''password_secret'' = Ok pw" using i by (auto simp: supplied_def)
  show ?thesis
    by (simp add: mihomo_mieru_def jsecret_ok [OF pw] users listener_with_def listens_def mihomo_base_def
        jget_literal is_object_jobj) blast
qed

lemma mihomo_trusttunnel_ok:
  assumes users: "payload_users pl = Ok us"
  shows "\<exists>l. mihomo_trusttunnel pl name port = Ok l
     \<and> listener_with l name ''trusttunnel'' port (Some (JArray (map mihomo_password_user us)))"
  by (simp add: mihomo_trusttunnel_def users listener_with_def listens_def mihomo_base_def jget_literal
      is_object_jobj)

lemma mihomo_shadowquic_ok:
  assumes users: "payload_users pl = Ok us" and i: "supplied pl cfg ShadowQuic"
  shows "\<exists>l. mihomo_shadowquic pl cfg name port = Ok l
     \<and> listener_with l name ''shadowquic'' port (Some (JArray (map mihomo_password_user us)))"
proof -
  obtain sni where "config_text cfg ''sni'' = Ok sni" using i by (auto simp: supplied_def)
  then show ?thesis
    by (simp add: mihomo_shadowquic_def users listener_with_def listens_def mihomo_base_def jget_literal
        is_object_jobj)
qed

lemma mihomo_sudoku_ok:
  assumes i: "supplied pl cfg SudokuHttpMask"
  shows "\<exists>l u. mihomo_sudoku pl cfg name port = Ok l \<and> listener_with l name ''sudoku'' port u"
proof -
  obtain key path where "resolved_secret pl ''key_secret'' = Ok key" "config_text cfg ''path_root'' = Ok path"
    using i by (auto simp: supplied_def)
  then show ?thesis
    by (simp add: mihomo_sudoku_def jsecret_ok listener_with_def listens_def mihomo_base_def jget_literal
        is_object_jobj)
qed

text \<open>How the Mihomo composer and its user discovery treat each built-in protocol.\<close>

definition vless_rows :: "(string \<times> implementation) list" where
  "vless_rows =
     [(''vless-reality-tcp'', VlessTcp), (''vless-reality-xhttp'', VlessXhttp),
      (''vless-shadowtls-v3'', VlessWrapped ShadowTlsV3), (''vless-restls'', VlessWrapped ResTls),
      (''vless-jls'', VlessWrapped Jls)]"

definition vless_row :: "string \<Rightarrow> implementation \<Rightarrow> bool \<Rightarrow> listener_network \<Rightarrow> bool" where
  "vless_row cap i ind net \<longleftrightarrow> (cap, i) \<in> set vless_rows \<and> cap \<in> set VLESS_CAPABILITIES \<and> starts_with cap ''vless-''
     \<and> ind \<and> net = Tcp"

fun mihomo_row :: "string \<Rightarrow> implementation \<Rightarrow> bool \<Rightarrow> listener_network \<Rightarrow> bool" where
  "mihomo_row cap (AnyTls w) ind net =
     (cap \<notin> set VLESS_CAPABILITIES \<and> starts_with cap ''anytls-'' \<and> wrapper_for_capability cap = Ok w
      \<and> \<not> ind \<and> net = Tcp)"
| "mihomo_row cap (Trojan w) ind net =
     (cap \<notin> set VLESS_CAPABILITIES \<and> \<not> starts_with cap ''anytls-'' \<and> starts_with cap ''trojan-''
      \<and> \<not> starts_with cap ''vless-'' \<and> wrapper_for_capability cap = Ok w \<and> ind \<and> net = Tcp)"
| "mihomo_row cap (SnellV5 w) ind net =
     (cap \<notin> set VLESS_CAPABILITIES \<and> \<not> starts_with cap ''anytls-'' \<and> \<not> starts_with cap ''trojan-''
      \<and> (cap = ''snell-v5'' \<or> starts_with cap ''snell-v5-'')
      \<and> (case w of None \<Rightarrow> cap = ''snell-v5''
         | Some w \<Rightarrow> cap \<noteq> ''snell-v5'' \<and> wrapper_for_capability cap = Ok w) \<and> \<not> ind \<and> net = Tcp)"
| "mihomo_row cap MieruTcp ind net = (cap = ''mieru'' \<and> ind \<and> net = Tcp)"
| "mihomo_row cap TrustTunnelH2 ind net = (cap = ''trusttunnel-h2'' \<and> ind \<and> net = Tcp)"
| "mihomo_row cap ShadowQuic ind net = (cap = ''shadowquic'' \<and> ind \<and> net = Udp)"
| "mihomo_row cap SudokuHttpMask ind net = (cap = ''sudoku-httpmask'' \<and> \<not> ind \<and> net = Tcp)"
| "mihomo_row cap i ind net = vless_row cap i ind net"

lemma mihomo_rows:
  "list_all (\<lambda>(cap, i, ind, net). cap \<in> set MIHOMO_CAPABILITIES \<longrightarrow> mihomo_row cap i ind net) built_in_table"
  by code_simp

lemma standalone_dispatch:
  "list_all (\<lambda>cap. cap \<notin> set VLESS_CAPABILITIES \<and> \<not> starts_with cap ''anytls-'' \<and> \<not> starts_with cap ''trojan-''
     \<and> \<not> starts_with cap ''snell-v5-'' \<and> \<not> starts_with cap ''vless-'')
     [''mieru'', ''trusttunnel-h2'', ''shadowquic'', ''sudoku-httpmask'']"
  by code_simp

lemmas standalone_simps = standalone_dispatch [unfolded list.pred_inject simp_thms]

definition users_match :: "bool \<Rightarrow> string \<Rightarrow> string \<Rightarrow> json \<Rightarrow> string set \<Rightarrow> bool" where
  "users_match ind cap kind l expected \<longleftrightarrow>
     (ind \<longrightarrow> (\<exists>spelling. user_representation cap = Ok (kind, spelling) \<and> set (spelled_users spelling l) = expected))"

definition mihomo_entry :: "server_fragment \<Rightarrow> string \<Rightarrow> string \<Rightarrow> bool \<Rightarrow> listener_network \<Rightarrow> u16 \<Rightarrow> string set \<Rightarrow> bool" where
  "mihomo_entry f name cap ind net port expected \<longleftrightarrow>
     (\<exists>l kind. mihomo_listener f = Ok l \<and> listens l (JString name) kind port
       \<and> (kind = ''shadowquic'' \<longleftrightarrow> net = Udp) \<and> users_match ind cap kind l expected)"

lemma mihomo_entryI:
  "mihomo_listener f = Ok l \<Longrightarrow> listener_with l (JString name) kind port u \<Longrightarrow>
     (kind = ''shadowquic'' \<longleftrightarrow> net = Udp) \<Longrightarrow> users_match ind cap kind l expected \<Longrightarrow>
     mihomo_entry f name cap ind net port expected"
  by (auto simp: mihomo_entry_def listener_with_def)

lemma password_users:
  "set (spelled_users UsernameArray l) = set (map su_uuid us)"
  if "listener_with l name kind port (Some (JArray (map mihomo_password_user (map user_entry us))))"
  using that entry_users_map [of "\<lambda>u. mihomo_password_user (user_entry u)" "''username''" su_uuid us]
  by (simp add: spelled_users_def listener_with_def json_simps password_user_name comp_def)

lemma vless_users:
  "set (spelled_users UuidArray l) = set (map su_uuid us)"
  if "listener_with l name kind port (Some (JArray (map (mihomo_vless_user b) (map user_entry us))))"
  using that entry_users_map [of "\<lambda>u. mihomo_vless_user b (user_entry u)" "''uuid''" su_uuid us]
  by (simp add: spelled_users_def listener_with_def json_simps vless_user_uuid comp_def)

lemma mihomo_row_entry:
  assumes row: "mihomo_row cap i ind net"
    and view: "payload_object f = Ok pl" "payload_config pl = Ok cfg" "payload_port pl = Ok port"
    and users: "payload_users pl = Ok (if ind then map user_entry us else [])"
    and s: "supplied pl cfg i" and f: "sf_profile_id f = name" "sf_capability f = cap"
  shows "mihomo_entry f name cap ind net port (set (map su_uuid us))"
proof -
  note unf = mihomo_listener_def view f and_then_simps Let_def
  have vless: ?thesis if r: "vless_row cap i ind net"
  proof -
    from r have c: "(cap, i) \<in> set vless_rows" "cap \<in> set VLESS_CAPABILITIES" "starts_with cap ''vless-''" "ind"
      "net = Tcp" by (auto simp: vless_row_def)
    then have "payload_users pl = Ok (map user_entry us)" using users by simp
    from mihomo_vless_ok [OF this s, of cap "JString name" port] c(1)
    obtain l where l: "mihomo_vless pl cfg cap (JString name) port = Ok l"
      "listener_with l (JString name) ''vless'' port
         (Some (JArray (map (mihomo_vless_user (cap = ''vless-reality-tcp'')) (map user_entry us))))"
      by (auto simp: vless_rows_def)
    have "mihomo_listener f = Ok l" using c l by (simp add: unf)
    with l c vless_users [OF l(2)] show ?thesis
      by (intro mihomo_entryI) (auto simp: users_match_def user_representation_def)
  qed
  show ?thesis
  proof (cases i)
    case (AnyTls w)
    with row s mihomo_anytls_ok [of pl cfg w cap "JString name" port] show ?thesis
      by (auto intro!: mihomo_entryI simp: unf users_match_def)
  next
    case (Trojan w)
    with row have c: "cap \<notin> set VLESS_CAPABILITIES" "\<not> starts_with cap ''anytls-''" "starts_with cap ''trojan-''"
      "\<not> starts_with cap ''vless-''" "wrapper_for_capability cap = Ok w" "ind" "net = Tcp" by auto
    then have "payload_users pl = Ok (map user_entry us)" using users by simp
    from mihomo_trojan_ok [OF this _ c(5), of cfg "JString name" port] s Trojan
    obtain l where l: "mihomo_trojan pl cfg cap (JString name) port = Ok l"
      "listener_with l (JString name) ''trojan'' port (Some (JArray (map mihomo_password_user (map user_entry us))))"
      by auto
    have "mihomo_listener f = Ok l" using c l by (simp add: unf)
    with l c password_users [OF l(2)] show ?thesis
      by (intro mihomo_entryI) (auto simp: users_match_def user_representation_def)
  next
    case (SnellV5 w)
    with row s mihomo_snell_ok [of pl cfg w cap "JString name" port] show ?thesis
      by (auto intro!: mihomo_entryI simp: unf users_match_def)
  next
    case MieruTcp
    with row have c: "cap = ''mieru''" "ind" "net = Tcp" by auto
    then have "payload_users pl = Ok (map user_entry us)" using users by simp
    from mihomo_mieru_ok [OF this, of cfg "JString name" port] s MieruTcp
    obtain l v where l: "mihomo_mieru pl (JString name) port = Ok l"
      "listener_with l (JString name) ''mieru'' port
         (Some (JObject (bt_collect (map (\<lambda>k. (k, v)) (map su_uuid us)) [])))"
      by (auto simp: user_uuids_entries)
    have "mihomo_listener f = Ok l" using c l standalone_simps by (simp add: unf)
    moreover have "set (object_keys (jget l ''users'')) = set (map su_uuid us)"
      using l(2) object_keys_collect [of v "map su_uuid us"] by (simp add: listener_with_def)
    ultimately show ?thesis
      using l c standalone_simps
      by (intro mihomo_entryI [OF _ l(2)]) (simp_all add: users_match_def user_representation_def spelled_users_def)
  next
    case TrustTunnelH2
    with row have c: "cap = ''trusttunnel-h2''" "ind" "net = Tcp" by auto
    then have "payload_users pl = Ok (map user_entry us)" using users by simp
    from mihomo_trusttunnel_ok [OF this, of "JString name" port]
    obtain l where l: "mihomo_trusttunnel pl (JString name) port = Ok l"
      "listener_with l (JString name) ''trusttunnel'' port (Some (JArray (map mihomo_password_user (map user_entry us))))"
      by auto
    have "mihomo_listener f = Ok l" using c l standalone_simps by (simp add: unf)
    with l c password_users [OF l(2)] standalone_simps show ?thesis
      by (intro mihomo_entryI [OF _ l(2)]) (simp_all add: users_match_def user_representation_def)
  next
    case ShadowQuic
    with row have c: "cap = ''shadowquic''" "ind" "net = Udp" by auto
    then have "payload_users pl = Ok (map user_entry us)" using users by simp
    from mihomo_shadowquic_ok [OF this, of cfg "JString name" port] s ShadowQuic
    obtain l where l: "mihomo_shadowquic pl cfg (JString name) port = Ok l"
      "listener_with l (JString name) ''shadowquic'' port (Some (JArray (map mihomo_password_user (map user_entry us))))"
      by auto
    have "mihomo_listener f = Ok l" using c l standalone_simps by (simp add: unf)
    with l c password_users [OF l(2)] standalone_simps show ?thesis
      by (intro mihomo_entryI [OF _ l(2)]) (simp_all add: users_match_def user_representation_def)
  next
    case SudokuHttpMask
    with row s mihomo_sudoku_ok [of pl cfg "JString name" port] standalone_simps show ?thesis
      by (auto intro!: mihomo_entryI simp: unf users_match_def)
  qed (use row vless in simp_all)
qed

subsection \<open>Xray and sing-box inbounds\<close>

definition inbounds_match ::
  "(json \<Rightarrow> (u16 \<times> bool) list) \<Rightarrow> (json \<Rightarrow> string list) \<Rightarrow> json list \<Rightarrow> bool \<Rightarrow> listener_network \<Rightarrow> u16
   \<Rightarrow> string set \<Rightarrow> bool" where
  "inbounds_match ports ids ls ind net port expected \<longleftrightarrow>
     concat (map ports ls) = [(port, net = Udp)]
     \<and> set (concat (map ids ls)) = (if ind then expected else {})"

definition sing_box_ports :: "json \<Rightarrow> (u16 \<times> bool) list" where
  "sing_box_ports = entry_port ''listen_port'' [''hysteria2'', ''tuic'']"

lemma shared_users: "entry_users ''uuid'' [jobj [(''name'', JString n), (''password'', pw)]] = []"
  by (simp add: entry_users_def map_filter_def jget_literal json_simps)

lemma sing_box_base_entry:
  assumes "distinct (map fst (sing_box_base kind tag port @ kvs))"
  shows "sing_box_ports (jobj (sing_box_base kind tag port @ kvs)) = [(port, kind \<in> {''hysteria2'', ''tuic''})]"
    and "jget (jobj (sing_box_base kind tag port @ kvs)) ''users'' = bt_get kvs ''users''"
  using assms
  by (simp_all add: sing_box_ports_def entry_port_def jget_literal sing_box_base_def json_simps bt_get_append)

lemma sing_box_obfs_entry:
  assumes "is_object l"
  shows "sing_box_ports (jset ''obfs'' v l) = sing_box_ports l"
    and "sing_box_users (jset ''obfs'' v l) = sing_box_users l"
  using assms by (auto simp: sing_box_ports_def entry_port_def sing_box_users_def json_simps split: option.splits)

fun sing_box_row :: "string \<Rightarrow> implementation \<Rightarrow> bool \<Rightarrow> listener_network \<Rightarrow> bool" where
  "sing_box_row cap VlessTcp ind net = (cap = ''vless-reality-tcp'' \<and> ind \<and> net = Tcp)"
| "sing_box_row cap ShadowsocksShadowTls ind net = (cap = ''shadowsocks2022-shadow-tls'' \<and> \<not> ind \<and> net = Tcp)"
| "sing_box_row cap Hysteria ind net = (cap = ''hysteria2'' \<and> \<not> ind \<and> net = Udp)"
| "sing_box_row cap AnyTlsLegacy ind net = (cap = ''any-tls'' \<and> \<not> ind \<and> net = Tcp)"
| "sing_box_row cap Tuic ind net = (cap = ''tuic'' \<and> ind \<and> net = Udp)"
| "sing_box_row cap i ind net = False"

lemma sing_box_rows:
  "list_all (\<lambda>(cap, i, ind, net). cap \<in> set SING_BOX_CAPABILITIES \<longrightarrow> sing_box_row cap i ind net) built_in_table"
  by code_simp

lemma uuid_entries:
  "(\<And>u. text_of (jget (g u) ''uuid'') = Some (su_uuid u)) \<Longrightarrow>
     set (entry_users ''uuid'' (map g us)) = su_uuid ` set us"
  using entry_users_map [of g "''uuid''" su_uuid us] by simp

lemma sing_box_row_inbounds:
  assumes row: "sing_box_row cap i ind net"
    and view: "payload_object f = Ok pl" "payload_config pl = Ok cfg" "payload_port pl = Ok port"
    and users: "payload_users pl = Ok (if ind then map user_entry us else [])"
    and s: "supplied pl cfg i" and f: "sf_profile_id f = name" "sf_capability f = cap"
    and obfs: "\<And>v. i = Hysteria \<Longrightarrow> text_of (bt_get cfg ''obfs_password_secret'') = Some v \<Longrightarrow> trim v \<noteq> [] \<Longrightarrow>
          \<exists>s. resolved_secret pl ''obfs_password_secret'' = Ok s"
  shows "\<exists>ls. sing_box_inbounds f = Ok ls
     \<and> inbounds_match sing_box_ports sing_box_users ls ind net port (set (map su_uuid us))"
proof -
  note unf = sing_box_inbounds_def view f and_then_simps Let_def inbounds_match_def
  show ?thesis
  proof (cases i)
    case VlessTcp
    with row have c: "cap = ''vless-reality-tcp''" "ind" "net = Tcp" by auto
    from s VlessTcp obtain sn pk si where "config_text cfg ''server_name'' = Ok sn"
      "resolved_secret pl ''private_key_secret'' = Ok pk" "resolved_secret pl ''short_id_secret'' = Ok si"
      by (auto simp: supplied_def)
    with c users show ?thesis
      by (simp add: unf sing_box_vless_def jsecret_ok sing_box_users_def sing_box_base_def jget_literal json_simps
          sing_box_ports_def entry_port_def)
        (simp add: uuid_entries jget_literal json_simps)
  next
    case Hysteria
    with row have c: "cap = ''hysteria2''" "\<not> ind" "net = Udp" by auto
    from s Hysteria obtain pw where pw: "resolved_secret pl ''password_secret'' = Ok pw"
      by (auto simp: supplied_def)
    define l where "l = jobj (sing_box_base ''hysteria2'' (JString name) port @
      [(''users'', JArray [jobj [(''name'', JString ''shared''), (''password'', JString pw)]]), (''tls'', tls_files)])"
    have l: "sing_box_ports l = [(port, True)]" "sing_box_users l = []" "is_object l"
      unfolding l_def sing_box_users_def
      by (subst sing_box_base_entry; simp add: sing_box_base_def json_simps shared_users)+ (simp add: json_simps)
    show ?thesis
    proof (cases "\<exists>v. text_of (bt_get cfg ''obfs_password_secret'') = Some v \<and> trim v \<noteq> []")
      case True
      with obfs Hysteria obtain s where "resolved_secret pl ''obfs_password_secret'' = Ok s" by blast
      with True c pw l sing_box_obfs_entry [OF l(3)] show ?thesis
        by (auto simp: unf sing_box_hysteria_def jsecret_ok l_def [symmetric])
    next
      case False
      then have "(case text_of (bt_get cfg ''obfs_password_secret'') of None \<Rightarrow> False | Some r \<Rightarrow> trim r \<noteq> []) = False"
        by (auto split: option.splits)
      with c pw l show ?thesis
        by (simp add: unf sing_box_hysteria_def jsecret_ok l_def [symmetric])
    qed
  next
    case ShadowsocksShadowTls
    with row have c: "cap = ''shadowsocks2022-shadow-tls''" "\<not> ind" "net = Tcp" by auto
    from s ShadowsocksShadowTls obtain sn pw sp where "config_text cfg ''server_name'' = Ok sn"
      "resolved_secret pl ''password_secret'' = Ok pw" "resolved_secret pl ''shadow_tls_password_secret'' = Ok sp"
      by (auto simp: supplied_def)
    with c users show ?thesis
      by (simp add: unf sing_box_shadowsocks_def jsecret_ok sing_box_users_def sing_box_base_def jget_literal json_simps
          shared_users sing_box_ports_def entry_port_def) (simp add: entry_users_def)
  next
    case AnyTlsLegacy
    with row have c: "cap = ''any-tls''" "\<not> ind" "net = Tcp" by auto
    from s AnyTlsLegacy obtain pw where "resolved_secret pl ''password_secret'' = Ok pw"
      by (auto simp: supplied_def)
    with c users show ?thesis
      by (simp add: unf sing_box_anytls_def jsecret_ok sing_box_users_def sing_box_base_def jget_literal json_simps
          shared_users sing_box_ports_def entry_port_def)
  next
    case Tuic
    with row have c: "cap = ''tuic''" "ind" "net = Udp" by auto
    from s Tuic obtain pw where "resolved_secret pl ''password_secret'' = Ok pw"
      by (auto simp: supplied_def)
    with c users show ?thesis
      by (simp add: unf sing_box_tuic_def jsecret_ok sing_box_users_def sing_box_base_def jget_literal json_simps
          sing_box_ports_def entry_port_def)
        (simp add: uuid_entries jget_literal json_simps)
  qed (use row in simp_all)
qed

fun xray_row :: "string \<Rightarrow> implementation \<Rightarrow> bool \<Rightarrow> listener_network \<Rightarrow> bool" where
  "xray_row cap VlessTcp ind net = (cap = ''vless-reality-tcp'' \<and> ind \<and> net = Tcp)"
| "xray_row cap VlessXhttp ind net = (cap = ''vless-reality-xhttp'' \<and> ind \<and> net = Tcp)"
| "xray_row cap i ind net = False"

lemma xray_rows:
  "list_all (\<lambda>(cap, i, ind, net). cap \<in> set XRAY_CAPABILITIES \<longrightarrow> xray_row cap i ind net) built_in_table"
  by code_simp

lemma xray_user_id: "text_of (jget (xray_user b (user_entry u)) ''id'') = Some (su_uuid u)"
  by (simp add: xray_user_def Let_def json_simps jget_literal)

lemma xray_entries: "set (entry_users ''id'' (map (xray_user b) (map user_entry us))) = set (map su_uuid us)"
  using entry_users_map [of "\<lambda>u. xray_user b (user_entry u)" "''id''" su_uuid us]
  by (simp add: xray_user_id comp_def)

lemma xray_row_inbound:
  assumes row: "xray_row cap i ind net"
    and view: "payload_object f = Ok pl" "payload_config pl = Ok cfg" "payload_port pl = Ok port"
    and users: "payload_users pl = Ok (if ind then map user_entry us else [])"
    and s: "supplied pl cfg i" and f: "sf_profile_id f = name" "sf_capability f = cap"
  shows "\<exists>l. xray_inbound f = Ok l \<and> inbounds_match xray_port xray_users [l] ind net port (set (map su_uuid us))"
proof -
  have i: "i = VlessTcp \<or> i = VlessXhttp" using row by (cases i) auto
  with row have c: "ind" "net = Tcp" by auto
  from s i obtain sn pk si where parts: "config_text cfg ''server_name'' = Ok sn"
    "resolved_secret pl ''private_key_secret'' = Ok pk" "resolved_secret pl ''short_id_secret'' = Ok si"
    by (auto simp: supplied_def)
  have path: "\<exists>path. config_text cfg ''path'' = Ok path" if "cap = ''vless-reality-xhttp''"
    using s i row that by (auto simp: supplied_def)
  have us: "payload_users pl = Ok (map user_entry us)" using users c by simp
  have shape: "inbounds_match xray_port xray_users
      [jobj [(''tag'', t), (''listen'', b), (''port'', jport port), (''protocol'', d),
        (''settings'', jobj [(''clients'', JArray (map (xray_user v) (map user_entry us))), (''decryption'', k)]),
        (''streamSettings'', stream)]] ind net port (set (map su_uuid us))" for t b d v k stream
    unfolding inbounds_match_def xray_users_def xray_port_def
    by (simp add: jget_literal json_simps c del: map_map) (simp add: xray_entries del: map_map)
  show ?thesis
    using path shape
    by (cases "cap = ''vless-reality-xhttp''")
      (auto simp: xray_inbound_def view f us parts jsecret_ok Let_def simp del: map_map set_map)
qed

subsection \<open>The single-profile runtimes\<close>

lemma port_number_show: "port_number (show_nat (unat (p :: u16))) = Some p"
proof -
  let ?s = "show_nat (unat p)"
  have digits: "list_all is_digit ?s" "?s \<noteq> []" using show_nat_digits by auto
  moreover have "\<not> is_digit (CHR ''+'')" by (simp add: is_digit_def byte_def)
  ultimately have "hd ?s \<noteq> CHR ''+''" by (metis list.set_sel(1) list_all_iff)
  moreover have "unat p < 2 ^ 16" using unsigned_less [of p, where ?'a = nat] by simp
  ultimately show ?thesis
    using digits parse_show_nat [of "unat p"] by (cases ?s) (auto simp: port_number_def Let_def)
qed

lemma show_nat_plain: "CHR '':'' \<notin> set (show_nat n)"
  using show_nat_digits [of n] by (auto simp: list_all_iff is_digit_def byte_def)

lemma address_port_show:
  "address_port (Some (JString (prefix @ CHR '':'' # show_nat (unat p)))) = Some p"
  by (simp add: address_port_def json_simps last_split_on_append show_nat_plain port_number_show)

lemma hysteria_document_ok:
  assumes view: "payload_object f = Ok pl" "payload_config pl = Ok cfg" "payload_port pl = Ok port"
    and s: "supplied pl cfg Hysteria"
    and obfs: "bt_get cfg ''obfs_password_secret'' \<noteq> None \<Longrightarrow>
       \<exists>s. resolved_secret pl ''obfs_password_secret'' = Ok s"
  shows "\<exists>d. hysteria_document f = Ok d \<and> is_object d
     \<and> jget d ''listen'' = Some (JString (CHR '':'' # show_nat (unat port)))"
proof -
  obtain pw where pw: "resolved_secret pl ''password_secret'' = Ok pw" using s by (auto simp: supplied_def)
  show ?thesis
  proof (cases "bt_get cfg ''obfs_password_secret'' = None")
    case True
    then show ?thesis
      by (simp add: hysteria_document_def view jsecret_ok [OF pw] Let_def jget_literal is_object_jobj)
  next
    case False
    with obfs obtain t where "resolved_secret pl ''obfs_password_secret'' = Ok t" by blast
    with False show ?thesis
      by (simp add: hysteria_document_def view jsecret_ok [OF pw] jsecret_ok Let_def jget_literal json_simps)
  qed
qed

lemma tuic_document_ok:
  assumes view: "payload_object f = Ok pl" "payload_port pl = Ok port"
    and users: "payload_users pl = Ok (map user_entry us)"
    and s: "supplied pl cfg Tuic"
  shows "\<exists>d. tuic_document f = Ok d
     \<and> jget d ''server'' = Some (JString (''[:'' @ '':]'' @ CHR '':'' # show_nat (unat port)))
     \<and> set (object_keys (jget d ''users'')) = set (map su_uuid us)"
proof -
  obtain pw where pw: "resolved_secret pl ''password_secret'' = Ok pw" using s by (auto simp: supplied_def)
  show ?thesis
    using object_keys_collect [of "JString pw" "map su_uuid us"]
    by (simp add: tuic_document_def view users jsecret_ok [OF pw] jget_literal user_uuids_entries)
qed

subsection \<open>Whole plans\<close>

definition rendered :: "server_fragment \<Rightarrow> bool" where
  "rendered f \<longleftrightarrow>
     (\<exists>a \<in> set built_in_protocols. \<exists>p users resolve. render_server a p users resolve = Ok f)"

definition claimed_ports :: "server_fragment \<Rightarrow> (u16 \<times> bool) list" where
  "claimed_ports f = map (\<lambda>l. (lc_port l, lc_network l = Udp)) (sf_listeners f)"

definition claimed_users :: "server_fragment \<Rightarrow> string set" where
  "claimed_users f = (case sf_expected_user_ids f of None \<Rightarrow> {} | Some ids \<Rightarrow> ids)"

lemma rendered_parts:
  assumes "a \<in> set built_in_protocols" and "render_server a p users resolve = Ok f"
  shows "sf_profile_id f = pr_name p" and "sf_capability f = pm_id (ja_manifest a)"
    and "sf_expected_user_ids f = (if individual a then Some (set (map su_uuid users)) else None)"
    and "claimed_ports f = [(pr_port p, pm_listener_network (ja_manifest a) = Udp)]"
  using assms by (auto simp: render_server_def and_then_Inr_iff individual_def Let_def claimed_ports_def)

lemma rendered_row:
  assumes "rendered f"
  obtains i ind net pl cfg us port where "(sf_capability f, i, ind, net) \<in> set built_in_table"
    and "payload_object f = Ok pl" and "payload_config pl = Ok cfg" and "payload_port pl = Ok port"
    and "payload_users pl = Ok (if ind then map user_entry us else [])" and "supplied pl cfg i"
    and "\<And>v. text_of (bt_get cfg ''obfs_password_secret'') = Some v \<Longrightarrow> trim v \<noteq> [] \<Longrightarrow> i = Hysteria \<Longrightarrow>
          \<exists>s. resolved_secret pl ''obfs_password_secret'' = Ok s"
    and "sf_expected_user_ids f = (if ind then Some (set (map su_uuid us)) else None)"
    and "claimed_ports f = [(port, net = Udp)]"
proof -
  from assms obtain a p users resolve where a: "a \<in> set built_in_protocols"
    and r: "render_server a p users resolve = Ok f" by (auto simp: rendered_def)
  obtain pl cfg where "fragment_view a p users f pl cfg" "supplied pl cfg (ja_implementation a)"
    and "\<And>v. text_of (bt_get cfg ''obfs_password_secret'') = Some v \<Longrightarrow> trim v \<noteq> [] \<Longrightarrow>
          ja_implementation a = Hysteria \<Longrightarrow> \<exists>s. resolved_secret pl ''obfs_password_secret'' = Ok s"
    using rendered_supplied [OF a r] by metis
  with that [of "ja_implementation a" "individual a" "pm_listener_network (ja_manifest a)" pl cfg "pr_port p" users]
    built_in_rows [OF a] rendered_parts [OF a r]
  show ?thesis by (simp add: fragment_view_def)
qed

end
