(* ===== verification/Core_Plans.thy ===== *)
theory Core_Plans
  imports Core_Adapter Core_Documents
begin

text \<open>
  Whole plans: the document composed from rendered fragments exists, and what is discovered in it,
  listeners and users, is what the fragments claim.
\<close>

lemma collect_inbounds:
  assumes "\<And>f. f \<in> set fs \<Longrightarrow> \<exists>ls. g f = Ok ls \<and> concat (map ports ls) = claimed_ports f
     \<and> set (concat (map ids ls)) = claimed_users f"
  shows "\<exists>lss. collect_res (map g fs) = Ok lss
     \<and> concat (map ports (concat lss)) = concat (map claimed_ports fs)
     \<and> set (concat (map ids (concat lss))) = \<Union> (claimed_users ` set fs)"
  using assms
proof (induction fs)
  case Nil
  then show ?case by simp
next
  case (Cons f fs)
  from Cons.prems [of f] obtain ls where ls: "g f = Ok ls" "concat (map ports ls) = claimed_ports f"
    "set (concat (map ids ls)) = claimed_users f" by auto
  from Cons.IH Cons.prems obtain lss where "collect_res (map g fs) = Ok lss"
    "concat (map ports (concat lss)) = concat (map claimed_ports fs)"
    "set (concat (map ids (concat lss))) = \<Union> (claimed_users ` set fs)" by auto
  with ls show ?case by (intro exI [of _ "ls # lss"]) auto
qed

lemma rendered_sing_box:
  assumes "rendered f" and "sf_capability f \<in> set SING_BOX_CAPABILITIES"
  shows "\<exists>ls. sing_box_inbounds f = Ok ls \<and> concat (map sing_box_ports ls) = claimed_ports f
     \<and> set (concat (map sing_box_users ls)) = claimed_users f"
proof -
  obtain i ind net pl cfg us port
    where row: "(sf_capability f, i, ind, net) \<in> set built_in_table"
      and view: "payload_object f = Ok pl" "payload_config pl = Ok cfg" "payload_port pl = Ok port"
      and users: "payload_users pl = Ok (if ind then map user_entry us else [])" and s: "supplied pl cfg i"
      and obfs: "\<And>v. text_of (bt_get cfg ''obfs_password_secret'') = Some v \<Longrightarrow> trim v \<noteq> [] \<Longrightarrow> i = Hysteria \<Longrightarrow>
          \<exists>s. resolved_secret pl ''obfs_password_secret'' = Ok s"
      and claims: "sf_expected_user_ids f = (if ind then Some (set (map su_uuid us)) else None)"
        "claimed_ports f = [(port, net = Udp)]" by (rule rendered_row [OF assms(1)]) blast
  have "sing_box_row (sf_capability f) i ind net"
    using sing_box_rows row assms(2) unfolding list_all_iff by blast
  from sing_box_row_inbounds [OF this view users s refl refl] obfs claims
  show ?thesis by (auto simp: inbounds_match_def claimed_users_def)
qed

lemma rendered_xray:
  assumes "rendered f" and "sf_capability f \<in> set XRAY_CAPABILITIES"
  shows "\<exists>l. xray_inbound f = Ok l \<and> xray_port l = claimed_ports f \<and> set (xray_users l) = claimed_users f"
proof -
  obtain i ind net pl cfg us port
    where row: "(sf_capability f, i, ind, net) \<in> set built_in_table"
      and view: "payload_object f = Ok pl" "payload_config pl = Ok cfg" "payload_port pl = Ok port"
      and users: "payload_users pl = Ok (if ind then map user_entry us else [])" and s: "supplied pl cfg i"
      and claims: "sf_expected_user_ids f = (if ind then Some (set (map su_uuid us)) else None)"
        "claimed_ports f = [(port, net = Udp)]" by (rule rendered_row [OF assms(1)]) blast
  have "xray_row (sf_capability f) i ind net"
    using xray_rows row assms(2) unfolding list_all_iff by blast
  from xray_row_inbound [OF this view users s refl refl] claims
  show ?thesis by (auto simp: inbounds_match_def claimed_users_def)
qed

lemma desired_ports_claims: "desired_ports plan = concat (map claimed_ports (cp_fragments plan))"
  by (simp add: desired_ports_def claimed_ports_def [abs_def])

lemma expected_users_claims: "expected_users plan = \<Union> (claimed_users ` set (cp_fragments plan))"
  by (simp add: expected_users_def claimed_users_def [abs_def])

definition faithful :: "flavor \<Rightarrow> core_plan \<Rightarrow> json \<Rightarrow> bool" where
  "faithful flavor plan document \<longleftrightarrow>
     is_object document \<and> discover_config_ports flavor document = desired_ports plan
     \<and> (if flavor = FMihomo then discover_mihomo_config_users document plan
         else discover_config_users flavor document) = Ok (expected_users plan)"

lemma sing_box_faithful:
  assumes "\<forall>f \<in> set (cp_fragments plan). rendered f \<and> sf_capability f \<in> set SING_BOX_CAPABILITIES"
  shows "\<exists>d. compose_document FSingBox plan = Ok d \<and> faithful FSingBox plan d"
proof -
  obtain lss where "collect_res (map sing_box_inbounds (cp_fragments plan)) = Ok lss"
    "concat (map sing_box_ports (concat lss)) = desired_ports plan"
    "set (concat (map sing_box_users (concat lss))) = expected_users plan"
    using collect_inbounds [of "cp_fragments plan" sing_box_inbounds sing_box_ports sing_box_users]
      rendered_sing_box assms unfolding desired_ports_claims expected_users_claims by metis
  then show ?thesis
    by (simp add: compose_document_def compose_sing_box_def faithful_def discover_config_ports_def
        discover_config_users_def jget_literal json_simps sing_box_ports_def [symmetric])
qed

lemma xray_faithful:
  assumes "\<forall>f \<in> set (cp_fragments plan). rendered f \<and> sf_capability f \<in> set XRAY_CAPABILITIES"
  shows "\<exists>d. compose_document FXray plan = Ok d \<and> faithful FXray plan d"
proof -
  define g where "g f = and_then (xray_inbound f) (\<lambda>l. Ok [l])" for f
  have unit: "collect_res (map g fs) = Ok lss \<Longrightarrow> collect_res (map xray_inbound fs) = Ok (concat lss)" for fs lss
  proof (induction fs arbitrary: lss)
    case (Cons f fs)
    then show ?case by (cases "xray_inbound f") (auto simp: g_def and_then_Inr_iff)
  qed simp
  have "\<exists>ls. g f = Ok ls \<and> concat (map xray_port ls) = claimed_ports f \<and> set (concat (map xray_users ls)) = claimed_users f"
    if "f \<in> set (cp_fragments plan)" for f
    using rendered_xray [of f] assms that by (auto simp: g_def)
  then obtain lss where "collect_res (map g (cp_fragments plan)) = Ok lss"
    "concat (map xray_port (concat lss)) = desired_ports plan"
    "set (concat (map xray_users (concat lss))) = expected_users plan"
    using collect_inbounds [of "cp_fragments plan" g xray_port xray_users]
    unfolding desired_ports_claims expected_users_claims by metis
  with unit show ?thesis
    by (simp add: compose_document_def compose_xray_def faithful_def discover_config_ports_def
        discover_config_users_def jget_literal json_simps)
qed

subsection \<open>Mihomo plans\<close>

text \<open>A listener composed for a fragment, as the discovery functions see it.\<close>

definition listener_for :: "server_fragment \<Rightarrow> json \<Rightarrow> bool" where
  "listener_for f l \<longleftrightarrow>
     mihomo_listener f = Ok l \<and> text_of (jget l ''name'') = Some (sf_profile_id f)
     \<and> entry_port ''port'' [''shadowquic''] l = claimed_ports f
     \<and> (\<forall>ids. sf_expected_user_ids f = Some ids \<longrightarrow>
          (\<exists>kind spelling. user_representation (sf_capability f) = Ok (kind, spelling)
             \<and> text_of (jget l ''type'') = Some kind \<and> set (spelled_users spelling l) = ids))"

lemma rendered_mihomo:
  assumes "rendered f" and "sf_capability f \<in> set MIHOMO_CAPABILITIES"
  shows "\<exists>l. listener_for f l"
proof -
  obtain i ind net pl cfg us port
    where row: "(sf_capability f, i, ind, net) \<in> set built_in_table"
      and view: "payload_object f = Ok pl" "payload_config pl = Ok cfg" "payload_port pl = Ok port"
      and users: "payload_users pl = Ok (if ind then map user_entry us else [])" and s: "supplied pl cfg i"
      and claims: "sf_expected_user_ids f = (if ind then Some (set (map su_uuid us)) else None)"
        "claimed_ports f = [(port, net = Udp)]" by (rule rendered_row [OF assms(1)]) blast
  have "mihomo_row (sf_capability f) i ind net"
    using mihomo_rows row assms(2) unfolding list_all_iff by blast
  from mihomo_row_entry [OF this view users s refl refl] obtain l kind
    where l: "mihomo_listener f = Ok l" "listens l (JString (sf_profile_id f)) kind port"
      "kind = ''shadowquic'' \<longleftrightarrow> net = Udp" "users_match ind (sf_capability f) kind l (set (map su_uuid us))"
    by (auto simp: mihomo_entry_def)
  then have "entry_port ''port'' [''shadowquic''] l = claimed_ports f"
    by (simp add: entry_port_def listens_def json_simps claims)
  with l claims show ?thesis
    by (auto simp: listener_for_def listens_def json_simps users_match_def split: if_splits)
qed

lemma collect_listeners:
  "\<forall>f \<in> set fs. \<exists>l. listener_for f l \<Longrightarrow>
     \<exists>ls. collect_res (map mihomo_listener fs) = Ok ls \<and> list_all2 listener_for fs ls"
proof (induction fs)
  case Nil
  then show ?case by simp
next
  case (Cons f fs)
  then obtain l ls where "listener_for f l" "collect_res (map mihomo_listener fs) = Ok ls" "list_all2 listener_for fs ls"
    by auto
  moreover from this have "mihomo_listener f = Ok l" by (simp add: listener_for_def)
  ultimately show ?case by (intro exI [of _ "l # ls"]) simp
qed

lemma listener_ports:
  "list_all2 listener_for fs ls \<Longrightarrow>
     concat (map (entry_port ''port'' [''shadowquic'']) ls) = concat (map claimed_ports fs)"
  by (induction fs ls rule: list_all2_induct) (auto simp: listener_for_def)

lemma select_listeners_ok:
  "distinct (map sf_profile_id fs) \<Longrightarrow> \<forall>f \<in> set fs. bt_get selected (sf_profile_id f) = None \<Longrightarrow>
     \<exists>sel. select_listeners fs selected = Ok sel
       \<and> (\<forall>f \<in> set fs. bt_get sel (sf_profile_id f) =
            (if sf_expected_user_ids f = None then None else Some (sf_capability f)))
       \<and> (\<forall>k. k \<notin> sf_profile_id ` set fs \<longrightarrow> bt_get sel k = bt_get selected k)"
proof (induction fs arbitrary: selected)
  case Nil
  then show ?case by simp
next
  case (Cons f fs)
  let ?selected = "if sf_expected_user_ids f = None then selected
     else bt_insert (sf_profile_id f) (sf_capability f) selected"
  have fresh: "sf_profile_id f \<notin> sf_profile_id ` set fs" using Cons.prems(1) by simp
  then have other: "\<forall>g \<in> set fs. sf_profile_id g \<noteq> sf_profile_id f" by (metis image_eqI)
  then have "\<forall>g \<in> set fs. bt_get ?selected (sf_profile_id g) = None"
    using Cons.prems(2) by (simp add: bt_get_insert)
  from Cons.IH [OF _ this] Cons.prems(1) obtain sel where sel: "select_listeners fs ?selected = Ok sel"
    "\<forall>g \<in> set fs. bt_get sel (sf_profile_id g) =
       (if sf_expected_user_ids g = None then None else Some (sf_capability g))"
    "\<forall>k. k \<notin> sf_profile_id ` set fs \<longrightarrow> bt_get sel k = bt_get ?selected k" by auto
  have "select_listeners (f # fs) selected = Ok sel"
    using sel(1) Cons.prems(2) by (auto split: if_splits)
  with sel fresh Cons.prems(2) show ?case by (auto simp: bt_get_insert)
qed

lemma listener_users_ok:
  "list_all2 listener_for fs ls \<Longrightarrow> distinct (map sf_profile_id fs) \<Longrightarrow>
     \<forall>f \<in> set fs. sf_profile_id f \<notin> matched \<and> bt_get sel (sf_profile_id f) =
        (if sf_expected_user_ids f = None then None else Some (sf_capability f)) \<Longrightarrow>
     listener_users sel ls matched users = Ok (users \<union> \<Union> (claimed_users ` set fs))"
proof (induction fs ls arbitrary: matched users rule: list_all2_induct)
  case Nil
  then show ?case by simp
next
  case (Cons f fs l ls)
  have name: "text_of (jget l ''name'') = Some (sf_profile_id f)" using Cons.hyps by (simp add: listener_for_def)
  have "sf_profile_id f \<notin> sf_profile_id ` set fs" using Cons.prems(1) by simp
  then have fresh: "\<forall>g \<in> set fs. sf_profile_id g \<noteq> sf_profile_id f" by (metis image_eqI)
  show ?case
  proof (cases "sf_expected_user_ids f")
    case None
    then have "claimed_users f = {}" "bt_get sel (sf_profile_id f) = None"
      using Cons.prems(2) by (simp_all add: claimed_users_def)
    with Cons.IH Cons.prems name show ?thesis by simp
  next
    case (Some ids)
    with Cons.hyps obtain kind spelling where k: "user_representation (sf_capability f) = Ok (kind, spelling)"
      "text_of (jget l ''type'') = Some kind" "set (spelled_users spelling l) = ids"
      by (auto simp: listener_for_def)
    have sel: "bt_get sel (sf_profile_id f) = Some (sf_capability f)" "sf_profile_id f \<notin> matched"
      using Some Cons.prems(2) by auto
    have "listener_users sel ls (insert (sf_profile_id f) matched) (users \<union> ids)
        = Ok (users \<union> ids \<union> \<Union> (claimed_users ` set fs))"
      using Cons.prems fresh by (intro Cons.IH) auto
    with k sel name Some show ?thesis by (simp add: claimed_users_def Un_assoc)
  qed
qed

lemma mihomo_faithful:
  assumes "\<forall>f \<in> set (cp_fragments plan). rendered f \<and> sf_capability f \<in> set MIHOMO_CAPABILITIES"
    and "distinct (map sf_profile_id (cp_fragments plan))"
  shows "\<exists>d. compose_document FMihomo plan = Ok d \<and> faithful FMihomo plan d"
proof -
  obtain ls where ls: "collect_res (map mihomo_listener (cp_fragments plan)) = Ok ls"
    "list_all2 listener_for (cp_fragments plan) ls"
    using collect_listeners [of "cp_fragments plan"] rendered_mihomo assms(1) by blast
  obtain sel where sel: "select_listeners (cp_fragments plan) [] = Ok sel"
    "\<forall>f \<in> set (cp_fragments plan). bt_get sel (sf_profile_id f) =
       (if sf_expected_user_ids f = None then None else Some (sf_capability f))"
    using select_listeners_ok [OF assms(2), of "[]"] by auto
  have "listener_users sel ls {} {} = Ok (expected_users plan)"
    using listener_users_ok [OF ls(2) assms(2), of "{}" sel "{}"] sel(2) by (simp add: expected_users_claims)
  then show ?thesis
    using ls(1) sel(1) listener_ports [OF ls(2)]
    by (simp add: compose_document_def compose_mihomo_def faithful_def discover_config_ports_def
        discover_mihomo_config_users_def jget_literal json_simps desired_ports_claims)
qed

subsection \<open>Hysteria and TUIC plans\<close>

text \<open>The native Hysteria runtime reads the optional obfuscation secret whenever the key is there.\<close>

definition obfs_usable :: "server_fragment \<Rightarrow> bool" where
  "obfs_usable f \<longleftrightarrow>
     (\<forall>pl cfg. payload_object f = Ok pl \<longrightarrow> payload_config pl = Ok cfg \<longrightarrow>
        (case bt_get cfg ''obfs_password_secret'' of
           None \<Rightarrow> True | Some (JString v) \<Rightarrow> trim v \<noteq> [] | Some _ \<Rightarrow> False))"

lemma hysteria_faithful:
  assumes f: "cp_fragments plan = [f]" and r: "rendered f" "sf_capability f = ''hysteria2''" and o: "obfs_usable f"
  shows "\<exists>d. compose_document FHysteria plan = Ok d \<and> faithful FHysteria plan d"
proof -
  obtain i ind net pl cfg us port
    where row: "(sf_capability f, i, ind, net) \<in> set built_in_table"
      and view: "payload_object f = Ok pl" "payload_config pl = Ok cfg" "payload_port pl = Ok port"
      and users: "payload_users pl = Ok (if ind then map user_entry us else [])" and s: "supplied pl cfg i"
      and obfs: "\<And>v. text_of (bt_get cfg ''obfs_password_secret'') = Some v \<Longrightarrow> trim v \<noteq> [] \<Longrightarrow> i = Hysteria \<Longrightarrow>
          \<exists>s. resolved_secret pl ''obfs_password_secret'' = Ok s"
      and claims: "sf_expected_user_ids f = (if ind then Some (set (map su_uuid us)) else None)"
        "claimed_ports f = [(port, net = Udp)]" by (rule rendered_row [OF r(1)]) blast
  have "sf_capability f \<in> set SING_BOX_CAPABILITIES" using r(2) by (simp add: SING_BOX_CAPABILITIES_def)
  then have "sing_box_row (sf_capability f) i ind net"
    using sing_box_rows row unfolding list_all_iff by blast
  then have i: "i = Hysteria" "\<not> ind" "net = Udp" unfolding r(2) by (cases i; simp)+
  have "\<exists>s. resolved_secret pl ''obfs_password_secret'' = Ok s" if "bt_get cfg ''obfs_password_secret'' \<noteq> None"
    using o view that obfs [OF _ _ i(1)]
    by (auto simp: obfs_usable_def text_of_def split: option.splits json.splits)
  from hysteria_document_ok [OF view _ this] s i obtain d where "hysteria_document f = Ok d" "is_object d"
    "jget d ''listen'' = Some (JString ([] @ CHR '':'' # show_nat (unat port)))" by auto
  with i claims show ?thesis
    using address_port_show [of "[]" port]
    by (simp add: compose_document_def compose_hysteria_def f faithful_def discover_config_ports_def
        discover_config_users_def desired_ports_claims expected_users_claims claimed_users_def)
qed

lemma tuic_faithful:
  assumes f: "cp_fragments plan = [f]" and r: "rendered f" "sf_capability f = ''tuic''"
    and port: "\<forall>x \<in> set (claimed_ports f). fst x \<noteq> 0"
  shows "\<exists>d. compose_document FTuic plan = Ok d \<and> faithful FTuic plan d"
proof -
  obtain i ind net pl cfg us port
    where row: "(sf_capability f, i, ind, net) \<in> set built_in_table"
      and view: "payload_object f = Ok pl" "payload_config pl = Ok cfg" "payload_port pl = Ok port"
      and users: "payload_users pl = Ok (if ind then map user_entry us else [])" and s: "supplied pl cfg i"
      and claims: "sf_expected_user_ids f = (if ind then Some (set (map su_uuid us)) else None)"
        "claimed_ports f = [(port, net = Udp)]" by (rule rendered_row [OF r(1)]) blast
  have "sf_capability f \<in> set SING_BOX_CAPABILITIES" using r(2) by (simp add: SING_BOX_CAPABILITIES_def)
  then have "sing_box_row (sf_capability f) i ind net"
    using sing_box_rows row unfolding list_all_iff by blast
  then have i: "i = Tuic" "ind" "net = Udp" unfolding r(2) by (cases i; simp)+
  from tuic_document_ok [OF view(1,3), of us cfg] users s i obtain d where d: "tuic_document f = Ok d"
    "jget d ''server'' = Some (JString ((''[:'' @ '':]'') @ CHR '':'' # show_nat (unat port)))"
    "set (object_keys (jget d ''users'')) = set (map su_uuid us)" by auto
  have "is_object d" using d(2) by (auto simp: jget_def is_object_def split: json.splits)
  with d i claims port assms(4) show ?thesis
    using address_port_show [of "''[:'' @ '':]''" port]
    by (simp add: compose_document_def compose_tuic_def f faithful_def discover_config_ports_def
        discover_config_users_def desired_ports_claims expected_users_claims claimed_users_def)
qed

subsection \<open>Every built-in runtime\<close>

text \<open>
  The plans a runtime can be given: fragments rendered for capabilities it advertises, one profile at
  most for the single-profile runtimes.
\<close>

definition single_profile :: "flavor \<Rightarrow> bool" where
  "single_profile flavor \<longleftrightarrow> flavor = FHysteria \<or> flavor = FTuic"

definition suits :: "managed_core \<Rightarrow> core_plan \<Rightarrow> bool" where
  "suits A plan \<longleftrightarrow>
     (\<forall>f \<in> set (cp_fragments plan). rendered f \<and> sf_capability f \<in> cm_capabilities (mc_manifest A))
     \<and> distinct (map sf_profile_id (cp_fragments plan))
     \<and> (single_profile (mc_flavor A) \<longrightarrow> length (cp_fragments plan) \<le> 1)
     \<and> (mc_flavor A = FHysteria \<longrightarrow> (\<forall>f \<in> set (cp_fragments plan). obfs_usable f))
     \<and> (mc_flavor A = FTuic \<longrightarrow> (\<forall>x \<in> set (desired_ports plan). fst x \<noteq> 0))"

definition flavor_capabilities :: "flavor \<Rightarrow> string list" where
  "flavor_capabilities flavor =
     (case flavor of
        FXray \<Rightarrow> XRAY_CAPABILITIES | FSingBox \<Rightarrow> SING_BOX_CAPABILITIES | FHysteria \<Rightarrow> HYSTERIA_CAPABILITIES
      | FTuic \<Rightarrow> TUIC_CAPABILITIES | FMihomo \<Rightarrow> MIHOMO_CAPABILITIES)"

lemma core_capabilities:
  "A \<in> set built_in_cores \<Longrightarrow> cm_capabilities (mc_manifest A) = set (flavor_capabilities (mc_flavor A))"
  by (auto simp: built_in_cores_def managed_core_new_def flavor_capabilities_def)

lemma short_list: "length xs \<le> 1 \<Longrightarrow> xs = [] \<or> (\<exists>x. xs = [x])"
  by (cases xs) auto

lemma empty_single_faithful:
  assumes "cp_fragments plan = []" and "single_profile flavor"
  shows "\<exists>d. compose_document flavor plan = Ok d \<and> faithful flavor plan d"
proof -
  have "address_port (Some (JString ''[::]:0'')) = Some 0" by code_simp
  with assms show ?thesis
    by (auto simp: single_profile_def compose_document_def compose_hysteria_def compose_tuic_def faithful_def
        discover_config_ports_def discover_config_users_def jget_literal json_simps desired_ports_def
        expected_users_def address_port_def [of None] object_keys_def jobj_def is_object_def)
qed

lemma built_in_faithful:
  assumes A: "A \<in> set built_in_cores" and plan: "suits A plan"
  shows "\<exists>d. compose_document (mc_flavor A) plan = Ok d \<and> faithful (mc_flavor A) plan d"
proof -
  have frags: "\<forall>f \<in> set (cp_fragments plan). rendered f \<and> sf_capability f \<in> set (flavor_capabilities (mc_flavor A))"
    using plan core_capabilities [OF A] by (simp add: suits_def)
  show ?thesis
  proof (cases "single_profile (mc_flavor A)")
    case False
    with frags plan xray_faithful sing_box_faithful mihomo_faithful show ?thesis
      by (cases "mc_flavor A") (auto simp: flavor_capabilities_def single_profile_def suits_def)
  next
    case True
    with plan short_list [of "cp_fragments plan"] consider "cp_fragments plan = []"
      | f where "cp_fragments plan = [f]" by (auto simp: suits_def)
    then show ?thesis
    proof cases
      case 1
      with True empty_single_faithful show ?thesis by blast
    next
      case (2 f)
      have f: "rendered f" "sf_capability f \<in> set (flavor_capabilities (mc_flavor A))" using frags 2 by auto
      show ?thesis
      proof (cases "mc_flavor A = FHysteria")
        case True
        with plan 2 have "obfs_usable f" by (simp add: suits_def)
        with f True hysteria_faithful [OF 2 f(1)] show ?thesis
          by (simp add: flavor_capabilities_def HYSTERIA_CAPABILITIES_def)
      next
        case False
        with \<open>single_profile (mc_flavor A)\<close> have t: "mc_flavor A = FTuic" by (simp add: single_profile_def)
        with plan 2 have "\<forall>x \<in> set (claimed_ports f). fst x \<noteq> 0"
          by (simp add: suits_def desired_ports_claims)
        with f t tuic_faithful [OF 2 f(1)] show ?thesis
          by (simp add: flavor_capabilities_def TUIC_CAPABILITIES_def)
      qed
    qed
  qed
qed

end
