(* ===== verification/Core_Hosts.thy ===== *)
theory Core_Hosts
  imports Core_Plans
begin

text \<open>
  The host operations of the built-in runtime adapters: installation replaces the live file at once
  or not at all, an installed plan is observed to be in sync, a rollback restores the configuration
  and the service state of the snapshot, and the readiness loop is bounded.
\<close>

subsection \<open>Installation\<close>

definition install_temporary :: "path \<Rightarrow> string \<Rightarrow> path" where
  "install_temporary config uuid = butlast config @ [''.candidate-'' @ uuid]"

lemma install_file_ok:
  assumes "install_file stop uuid source config fs = (Ok (), fs')"
  obtains fs1 bytes where "create_dir_all (butlast config) fs = (Ok (), fs1)" and "read_file fs1 source = Ok bytes"
    and "bt_get fs' config = Some (RegularFile bytes)"
  using assms
  by (auto simp: install_file_def Let_def bt_get_insert
      split: if_splits prod.splits sum.splits option.splits install_stop.splits)

lemma install_file_target:
  assumes i: "install_file stop uuid source config fs = (r, fs')"
    and name: "config \<noteq> install_temporary config uuid"
  shows "bt_get fs' config = bt_get fs config
     \<or> (\<exists>bytes fs1. create_dir_all (butlast config) fs = (Ok (), fs1) \<and> read_file fs1 source = Ok bytes
          \<and> bt_get fs' config = Some (RegularFile bytes))"
proof (cases "config = []")
  case True
  then show ?thesis using i by (simp add: install_file_def)
next
  case False
  have notanc: "config \<notin> set (ancestors (butlast config))" by (rule ancestors_butlast [OF False refl])
  show ?thesis
    using i name
    by (auto simp: install_file_def create_dir_all_def Let_def bt_get_insert bt_get_fs_remove
      install_temporary_def create_dirs_get [OF _ notanc]
      split: if_splits prod.splits sum.splits option.splits install_stop.splits)
qed

lemma install_file_frame:
  assumes "install_file stop uuid source config fs = (r, fs')"
    and "q \<noteq> config" "q \<noteq> install_temporary config uuid" "q \<notin> set (ancestors (butlast config))"
  shows "bt_get fs' q = bt_get fs q"
  using assms
  by (auto simp: install_file_def create_dir_all_def Let_def bt_get_insert bt_get_fs_remove
      install_temporary_def create_dirs_get
      split: if_splits prod.splits sum.splits option.splits install_stop.splits)

lemma install_file_clean:
  assumes "install_file stop uuid source config fs = (r, fs')" and "config \<noteq> install_temporary config uuid"
    and "bt_get fs (install_temporary config uuid) = None"
  shows "bt_get fs' (install_temporary config uuid) = None"
proof (cases "config = []")
  case True
  then show ?thesis using assms by (simp add: install_file_def)
next
  case False
  have "length (install_temporary config uuid) = length config"
    using False by (simp add: install_temporary_def)
  then have notanc: "install_temporary config uuid \<notin> set (ancestors (butlast config))"
    by (rule ancestors_butlast [OF False])
  show ?thesis
    using assms
    by (auto simp: install_file_def create_dir_all_def Let_def bt_get_insert bt_get_fs_remove
      install_temporary_def [symmetric] create_dirs_get [OF _ notanc]
      split: if_splits prod.splits sum.splits option.splits install_stop.splits)
qed

lemma read_file_some: "read_file fs p = Ok b \<longleftrightarrow> bt_get fs p = Some (RegularFile b)"
  by (auto simp: read_file_def split: option.splits file_node.splits)

lemma read_file_after_dirs:
  "create_dir_all d fs = (Ok (), fs1) \<Longrightarrow> read_file fs p = Ok b \<Longrightarrow> read_file fs1 p = Ok b"
  unfolding create_dir_all_def read_file_some by (rule create_dirs_keeps)

lemma read_file_before_dirs:
  "create_dir_all d fs = (r, fs1) \<Longrightarrow> read_file fs1 p = Ok b \<Longrightarrow> read_file fs p = Ok b"
proof -
  have "create_dirs ps fs = (r, fs1) \<Longrightarrow> bt_get fs1 p = Some (RegularFile b) \<Longrightarrow> bt_get fs p = Some (RegularFile b)"
    for ps fs
    by (induction ps fs rule: create_dirs.induct)
      (auto simp: bt_get_insert split: option.splits file_node.splits if_splits)
  then show "create_dir_all d fs = (r, fs1) \<Longrightarrow> read_file fs1 p = Ok b \<Longrightarrow> read_file fs p = Ok b"
    unfolding create_dir_all_def read_file_some by blast
qed

lemma atomic_install_ok:
  assumes "atomic_install T A source h = (Ok (), h')" and "read_file (ho_files h) source = Ok bytes"
  shows "read_current_config A (ho_files h') = Ok (Some bytes)"
    and "ho_listeners h' = ho_listeners h" and "ho_units h' = ho_units h"
proof -
  from assms obtain fs' where i: "install_file (tl_stop T) (tl_uuid T) source (mc_config A) (ho_files h) = (Ok (), fs')"
    and h': "h' = h\<lparr>ho_files := fs'\<rparr>" by (auto simp: atomic_install_def split: prod.splits)
  obtain fs1 b where b: "create_dir_all (butlast (mc_config A)) (ho_files h) = (Ok (), fs1)" "read_file fs1 source = Ok b"
    "bt_get fs' (mc_config A) = Some (RegularFile b)" using install_file_ok [OF i] by blast
  have "b = bytes" using b(2) read_file_after_dirs [OF b(1) assms(2)] by simp
  with b(3) show "read_current_config A (ho_files h') = Ok (Some bytes)" by (simp add: read_current_config_def h')
  show "ho_listeners h' = ho_listeners h" "ho_units h' = ho_units h" by (simp_all add: h')
qed

subsection \<open>From staging to observation\<close>

text \<open>The text libraries read back what they wrote, for the documents of the runtime.\<close>

definition codec_ok :: "'u tools \<Rightarrow> flavor \<Rightarrow> bool" where
  "codec_ok T flavor \<longleftrightarrow>
     (\<forall>d bytes. (if flavor \<in> {FHysteria, FMihomo} then tl_write_yaml T d else tl_write_json T d) = Ok bytes \<longrightarrow>
        read_document T flavor bytes = Ok d)"

lemma write_file_ok: "write_file p bytes fs = (Ok (), fs') \<Longrightarrow> bt_get fs' p = Some (RegularFile bytes)"
  by (auto simp: write_file_def bt_get_insert split: if_splits option.splits file_node.splits)

lemma write_file_frame: "write_file p bytes fs = (r, fs') \<Longrightarrow> q \<noteq> p \<Longrightarrow> bt_get fs' q = bt_get fs q"
  by (auto simp: write_file_def bt_get_insert split: if_splits option.splits file_node.splits)

lemma stage_config_ok:
  assumes "stage_config T A plan dir h = (Ok candidate, h')"
  obtains bytes where "compose T A plan = Ok bytes" and "read_file (ho_files h') candidate = Ok bytes"
    and "ls_desired (ho_listeners h' (cm_id (mc_manifest A))) = desired_ports plan"
    and "live_ports T A (ho_files h') = Ok (ls_previous (ho_listeners h' (cm_id (mc_manifest A))))"
  using assms
  by (auto simp: stage_config_def read_file_some dest: write_file_ok split: sum.splits prod.splits)

lemma composed_document:
  assumes A: "A \<in> set built_in_cores" and plan: "suits A plan" and codec: "codec_ok T (mc_flavor A)"
    and c: "compose T A plan = Ok bytes"
  shows "\<exists>d. read_document T (mc_flavor A) bytes = Ok d \<and> faithful (mc_flavor A) plan d"
proof -
  obtain d where d: "compose_document (mc_flavor A) plan = Ok d" "faithful (mc_flavor A) plan d"
    using built_in_faithful [OF A plan] by blast
  with c have "(if mc_flavor A \<in> {FHysteria, FMihomo} then tl_write_yaml T d else tl_write_json T d) = Ok bytes"
    by (auto simp: compose_def split: if_splits)
  with codec d show ?thesis by (auto simp: codec_ok_def)
qed

lemma compare_same: "finite s \<Longrightarrow> user_sync_compare s s = InSync (card s)"
  by (simp add: user_sync_compare_def)

lemma installed_in_sync:
  assumes A: "A \<in> set built_in_cores" and plan: "suits A plan" and codec: "codec_ok T (mc_flavor A)"
    and staged: "stage_config T A plan dir h = (Ok candidate, h1)"
    and kept: "bt_get (ho_files h2) candidate = bt_get (ho_files h1) candidate"
    and installed: "atomic_install T A candidate h2 = (Ok (), h3)"
  shows "live_ports T A (ho_files h3) = Ok (desired_ports plan)"
    and "\<exists>n. fst (observe_users T A plan h3) = Ok (InSync n)"
proof -
  obtain bytes where bytes: "compose T A plan = Ok bytes" "read_file (ho_files h1) candidate = Ok bytes"
    using stage_config_ok [OF staged] by blast
  obtain d where d: "read_document T (mc_flavor A) bytes = Ok d" "faithful (mc_flavor A) plan d"
    using composed_document [OF A plan codec bytes(1)] by blast
  have "read_file (ho_files h2) candidate = Ok bytes"
    using bytes(2) kept by (simp add: read_file_some)
  from atomic_install_ok(1) [OF installed this] have live: "read_current_config A (ho_files h3) = Ok (Some bytes)" .
  show "live_ports T A (ho_files h3) = Ok (desired_ports plan)"
    using d by (simp add: live_ports_def live discover_ports_def faithful_def)
  have "user_sync_compare (expected_users plan) (expected_users plan) = InSync (card (expected_users plan))"
    by (simp add: user_sync_compare_def)
  then show "\<exists>n. fst (observe_users T A plan h3) = Ok (InSync n)"
    using d by (auto simp: observe_users_def live faithful_def split: if_splits)
qed

subsection \<open>Snapshot and rollback\<close>

lemma snapshot_config_ok:
  assumes s: "snapshot_config T A dir h = (Ok snap, h1)"
    and live: "mc_config A \<noteq> dir @ [''snapshot'', ''config'']" "mc_config A \<noteq> dir @ [''snapshot'', ''config.absent'']"
    and fresh: "bt_get (ho_files h) (dir @ [''snapshot'', ''config'']) = None"
  shows "cs_path snap = dir @ [''snapshot'']"
    and "(\<exists>bytes. read_current_config A (ho_files h) = Ok (Some bytes)
            \<and> bt_get (ho_files h1) (dir @ [''snapshot'', ''config'']) = Some (RegularFile bytes))
       \<or> (read_current_config A (ho_files h) = Ok None
            \<and> bt_get (ho_files h1) (dir @ [''snapshot'', ''config'']) = None
            \<and> (\<exists>b. bt_get (ho_files h1) (dir @ [''snapshot'', ''config.absent'']) = Some (RegularFile b)))"
    and "cs_service_was_enabled snap = systemctl_is T A ''is-enabled'' h"
    and "cs_service_was_active snap = systemctl_is T A ''is-active'' h"
proof -
  let ?d = "dir @ [''snapshot'']"
  from s obtain fs1 current fs2 where c: "create_dir_all ?d (ho_files h) = (Ok (), fs1)"
    "read_current_config A fs1 = Ok current"
    "(case current of Some bytes \<Rightarrow> write_file (?d @ [''config'']) bytes fs1
       | None \<Rightarrow> write_file (?d @ [''config.absent'']) [] fs1) = (Ok (), fs2)"
    and snap: "snap = \<lparr>cs_path = ?d, cs_service_was_enabled = systemctl_is T A ''is-enabled'' h,
         cs_service_was_active = systemctl_is T A ''is-active'' h\<rparr>" and h1: "h1 = h\<lparr>ho_files := fs2\<rparr>"
    by (auto simp: snapshot_config_def Let_def split: sum.splits prod.splits)
  have dirs: "create_dirs (ancestors ?d) (ho_files h) = (Ok (), fs1)" using c(1) by (simp add: create_dir_all_def)
  have "read_current_config A (ho_files h) = read_current_config A fs1"
  proof (cases "mc_config A \<in> set (ancestors ?d)")
    case True
    then have "bt_get fs1 (mc_config A) = Some Directory" by (rule create_dirs_ok [OF dirs])
    with c(2) show ?thesis by (simp add: read_current_config_def)
  next
    case False
    with create_dirs_get [OF dirs] show ?thesis by (simp add: read_current_config_def)
  qed
  with c(2) have cur: "read_current_config A (ho_files h) = Ok current" by simp
  have "dir @ [''snapshot'', ''config''] \<notin> set (ancestors ?d)"
    using ancestors_length [of "dir @ [''snapshot'', ''config'']" ?d] by auto
  then have fresh1: "bt_get fs1 (dir @ [''snapshot'', ''config'']) = None"
    using create_dirs_get [OF dirs] fresh by simp
  show "cs_path snap = ?d" "cs_service_was_enabled snap = systemctl_is T A ''is-enabled'' h"
    "cs_service_was_active snap = systemctl_is T A ''is-active'' h" by (simp_all add: snap)
  show "(\<exists>bytes. read_current_config A (ho_files h) = Ok (Some bytes)
            \<and> bt_get (ho_files h1) (dir @ [''snapshot'', ''config'']) = Some (RegularFile bytes))
       \<or> (read_current_config A (ho_files h) = Ok None
            \<and> bt_get (ho_files h1) (dir @ [''snapshot'', ''config'']) = None
            \<and> (\<exists>b. bt_get (ho_files h1) (dir @ [''snapshot'', ''config.absent'']) = Some (RegularFile b)))"
    using c(3) cur h1 fresh1 write_file_ok write_file_frame by (cases current) fastforce+
qed

text \<open>
  What \<open>systemctl\<close> documents of the four commands a rollback uses, for one service: enabling and
  disabling set the enablement and leave the activity alone, starting and stopping the reverse.
\<close>

definition service_manager_ok :: "'u tools \<Rightarrow> string \<Rightarrow> bool" where
  "service_manager_ok T service \<longleftrightarrow>
     (\<forall>fs u u'. (tl_systemctl T [''enable''] service fs u = (Some True, u') \<longrightarrow>
          tl_is T ''is-enabled'' service u')
       \<and> (tl_systemctl T [''disable''] service fs u = (Some True, u') \<longrightarrow>
          \<not> tl_is T ''is-enabled'' service u')
       \<and> (tl_systemctl T [''restart''] service fs u = (Some True, u') \<longrightarrow>
          tl_is T ''is-enabled'' service u' = tl_is T ''is-enabled'' service u)
       \<and> (tl_systemctl T [''stop''] service fs u = (Some True, u') \<longrightarrow>
          \<not> tl_is T ''is-active'' service u'
          \<and> tl_is T ''is-enabled'' service u' = tl_is T ''is-enabled'' service u))"

lemma systemctl_ok:
  "systemctl T A args h = (Ok (), h') \<longleftrightarrow>
     (\<exists>u. tl_systemctl T args (cm_service (mc_manifest A)) (ho_files h) (ho_units h) = (Some True, u)
        \<and> h' = h\<lparr>ho_units := u\<rparr>)"
  by (auto simp: systemctl_def guard_def split: prod.splits option.splits if_splits)

lemma then_do_ok: "then_do f g w = (Ok x, w') \<longleftrightarrow> (\<exists>y w1. f w = (Ok y, w1) \<and> g w1 = (Ok x, w'))"
  by (auto simp: then_do_def split: prod.splits sum.splits)

lemma restart_restored_ok:
  assumes "restart_restored T A h = (Ok (), h')"
  shows "systemctl T A [''restart''] h = (Ok (), h')" and "systemctl_is T A ''is-active'' h'"
    and "\<exists>bytes required. read_current_config A (ho_files h') = Ok (Some bytes)
       \<and> discover_ports T (mc_flavor A) bytes = Ok required \<and> verify_port_set T A required [] h' = Ok ()"
  using assms
  by (auto simp: restart_restored_def then_do_ok and_then_Inr_iff ok_or_Inr_iff split: if_splits)

lemma restore_config_ok:
  assumes r: "restore_config T A snap h = (Ok (), h')"
    and saved: "(\<exists>bytes. current = Some bytes \<and> bt_get (ho_files h) (cs_path snap @ [''config'']) = Some (RegularFile bytes))
       \<or> (current = None \<and> bt_get (ho_files h) (cs_path snap @ [''config'']) = None)"
  shows "read_current_config A (ho_files h') = Ok current" and "ho_units h' = ho_units h"
proof -
  have "read_current_config A (ho_files h') = Ok current \<and> ho_units h' = ho_units h"
  proof (cases current)
    case (Some bytes)
    with saved have stored: "bt_get (ho_files h) (cs_path snap @ [''config'']) = Some (RegularFile bytes)" by simp
    with r have "atomic_install T A (cs_path snap @ [''config'']) h = (Ok (), h')"
      by (simp add: restore_config_def is_file_def Let_def)
    from atomic_install_ok [OF this] stored Some show ?thesis by (simp add: read_file_some)
  next
    case None
    with saved r show ?thesis
      by (auto simp: restore_config_def is_file_def Let_def read_current_config_def bt_get_fs_remove
          split: if_splits option.splits file_node.splits)
  qed
  then show "read_current_config A (ho_files h') = Ok current" "ho_units h' = ho_units h" by auto
qed

lemma rollback_restores:
  assumes s: "snapshot_config T A dir h = (Ok snap, h1)"
    and live: "mc_config A \<noteq> dir @ [''snapshot'', ''config'']" "mc_config A \<noteq> dir @ [''snapshot'', ''config.absent'']"
    and fresh: "bt_get (ho_files h) (dir @ [''snapshot'', ''config'']) = None"
    and kept: "bt_get (ho_files h2) (dir @ [''snapshot'', ''config''])
             = bt_get (ho_files h1) (dir @ [''snapshot'', ''config''])"
    and manager: "service_manager_ok T (cm_service (mc_manifest A))"
    and r: "rollback_config T A snap h2 = (Ok (), h3)"
  shows "read_current_config A (ho_files h3) = read_current_config A (ho_files h)"
    and "systemctl_is T A ''is-enabled'' h3 = systemctl_is T A ''is-enabled'' h"
    and "systemctl_is T A ''is-active'' h3 = systemctl_is T A ''is-active'' h"
proof -
  note snap = snapshot_config_ok [OF s live fresh]
  obtain current where current: "read_current_config A (ho_files h) = Ok current"
    and saved: "(\<exists>bytes. current = Some bytes \<and> bt_get (ho_files h2) (cs_path snap @ [''config'']) = Some (RegularFile bytes))
       \<or> (current = None \<and> bt_get (ho_files h2) (cs_path snap @ [''config'']) = None)"
    using snap(1,2) kept by fastforce
  from r obtain ha hb where ra: "restore_config T A snap h2 = (Ok (), ha)"
    and rb: "systemctl T A [if cs_service_was_enabled snap then ''enable'' else ''disable''] ha = (Ok (), hb)"
    and rc: "(if cs_service_was_active snap then restart_restored T A else systemctl T A [''stop'']) hb = (Ok (), h3)"
    by (auto simp: rollback_config_def then_do_ok)
  have enabled: "systemctl_is T A ''is-enabled'' hb = cs_service_was_enabled snap"
    using manager rb by (auto simp: systemctl_ok systemctl_is_def service_manager_ok_def split: if_splits)
  have rest: "ho_files h3 = ho_files ha \<and> systemctl_is T A ''is-enabled'' h3 = systemctl_is T A ''is-enabled'' hb
      \<and> systemctl_is T A ''is-active'' h3 = cs_service_was_active snap"
  proof (cases "cs_service_was_active snap")
    case True
    with rc have "restart_restored T A hb = (Ok (), h3)" by simp
    from restart_restored_ok(1,2) [OF this] manager rb True show ?thesis
      by (auto simp: systemctl_ok systemctl_is_def service_manager_ok_def)
  next
    case False
    with rc have "systemctl T A [''stop''] hb = (Ok (), h3)" by simp
    with manager rb False show ?thesis
      by (auto simp: systemctl_ok systemctl_is_def service_manager_ok_def)
  qed
  show "read_current_config A (ho_files h3) = read_current_config A (ho_files h)"
    using restore_config_ok(1) [OF ra saved] rest current by simp
  show "systemctl_is T A ''is-enabled'' h3 = systemctl_is T A ''is-enabled'' h"
    using rest enabled snap(3) by simp
  show "systemctl_is T A ''is-active'' h3 = systemctl_is T A ''is-active'' h"
    using rest snap(4) by simp
qed

subsection \<open>Readiness and compatibility\<close>

lemma await_ready_iff:
  "n \<noteq> 0 \<Longrightarrow> fst (await_ready check k n) = Ok () \<longleftrightarrow> (\<exists>j < n. check (k + j) = Ok ())"
proof (induction n arbitrary: k)
  case 0
  then show ?case by simp
next
  case (Suc n)
  show ?case
  proof (cases "check k")
    case (Inl e)
    then have no: "check (k + 0) \<noteq> Ok ()" by simp
    show ?thesis
    proof (cases "n = 0")
      case True
      with Inl show ?thesis by auto
    next
      case False
      have "(\<exists>j < Suc n. check (k + j) = Ok ()) \<longleftrightarrow> (\<exists>j < n. check (Suc k + j) = Ok ())"
        using no by (metis Suc_less_eq add_Suc_shift not0_implies_Suc)
      with Suc.IH [OF False, of "Suc k"] Inl False show ?thesis
        by (cases "await_ready check (Suc k) n") simp
    qed
  next
    case (Inr u)
    then show ?thesis by force
  qed
qed

lemma await_ready_sleeps: "snd (await_ready check k n) \<le> n - 1"
proof (induction n arbitrary: k)
  case 0
  then show ?case by simp
next
  case (Suc n)
  then show ?case
    using Suc.IH [of "Suc k"] by (cases "await_ready check (Suc k) n") (auto split: sum.splits)
qed

lemma compatible_pinned:
  assumes "compatible T A required h = Ok True"
  shows "is_file (ho_files h) (mc_binary A)"
    and "\<exists>v. normalized_release_version (mc_validated_version A) = Some v \<and> probed_version T A h = Some v"
    and "capabilities_require_tls required \<Longrightarrow> tl_tls_ready T (ho_files h) (ho_units h)"
  using assms by (auto simp: compatible_def and_then_Inr_iff ok_or_Inr_iff split: if_splits)

end
