(* ===== verification/Core_Claims.thy ===== *)
theory Core_Claims
  imports Core_Hosts
begin

text \<open>
  The properties of the built-in protocol and runtime adapters and of module manifests, with
  witnesses on a small site: one VLESS profile for one user, run by Xray.
\<close>

subsection \<open>A sample\<close>

definition vless_adapter :: json_adapter where
  "vless_adapter = reality_adapters ! 1"

definition vless_profile :: protocol_profile where
  "vless_profile =
     \<lparr>pr_name = ''edge'', pr_display_name = ''Edge'', pr_protocol_id = ''vless-reality-tcp'',
      pr_schema_version = 1, pr_role = AutoSafe, pr_server = ''node.example'', pr_port = 443,
      pr_enabled = True, pr_preferred_core = Some ''xray'', pr_managed_resource = None,
      pr_config = jobj
        [(''server_name'', JString ''w''), (''public_key_secret'', JString ''a''),
         (''short_id_secret'', JString ''b''), (''private_key_secret'', JString ''c'')]\<rparr>"

definition alice :: subscription_user where
  "alice = \<lparr>su_username = ''alice'', su_uuid = ''u-1'', su_token = ''t''\<rparr>"

definition vault :: secret_resolver where
  "vault r = Ok (''v-'' @ r)"

definition other_vault :: secret_resolver where
  "other_vault r = (if r = ''c'' then Ok ''leak'' else vault r)"

definition no_fragment :: server_fragment where
  "no_fragment = \<lparr>sf_profile_id = [], sf_capability = [], sf_payload = JNull,
     sf_expected_user_ids = None, sf_listeners = []\<rparr>"

definition vless_fragment :: server_fragment where
  "vless_fragment =
     (case render_server vless_adapter vless_profile [alice] vault of Inr f \<Rightarrow> f | Inl _ \<Rightarrow> no_fragment)"

definition vless_plan :: core_plan where
  "vless_plan = \<lparr>cp_generation = 1, cp_core_id = ''xray'', cp_fragments = [vless_fragment]\<rparr>"

definition xray :: managed_core where
  "xray = hd built_in_cores"

lemma vless_rendered: "render_server vless_adapter vless_profile [alice] vault = Ok vless_fragment"
proof -
  have "is_ok (render_server vless_adapter vless_profile [alice] vault)" by code_simp
  then show ?thesis by (auto simp: vless_fragment_def is_ok_iff)
qed

lemma vless_built_in: "vless_adapter \<in> set built_in_protocols"
  by (simp add: vless_adapter_def built_in_protocols_def reality_adapters_def)

lemma xray_built_in: "xray \<in> set built_in_cores"
  by (simp add: xray_def built_in_cores_def)

lemma xray_flavor: "mc_flavor xray = FXray"
  by (simp add: xray_def built_in_cores_def managed_core_new_def)

lemma vless_facts: "desired_ports vless_plan = [(443, False)]" "expected_users vless_plan = {''u-1''}"
proof -
  have kind: "pm_listener_network (ja_manifest vless_adapter) = Tcp" "individual vless_adapter"
    by (simp_all add: vless_adapter_def reality_adapters_def new_adapter_def individual_def
        requires_individual_users_def)
  note parts = rendered_parts [OF vless_built_in vless_rendered]
  show "desired_ports vless_plan = [(443, False)]"
    by (simp add: desired_ports_claims vless_plan_def parts kind vless_profile_def)
  show "expected_users vless_plan = {''u-1''}"
    by (simp add: expected_users_claims claimed_users_def vless_plan_def parts kind alice_def)
qed

lemma vless_suits: "suits xray vless_plan"
proof -
  have "rendered vless_fragment" using vless_built_in vless_rendered by (auto simp: rendered_def)
  moreover have "sf_capability vless_fragment \<in> cm_capabilities (mc_manifest xray)"
    unfolding rendered_parts(2) [OF vless_built_in vless_rendered] by code_simp
  ultimately show ?thesis by (simp add: suits_def vless_plan_def single_profile_def xray_flavor)
qed

subsection \<open>Protocol adapters\<close>

text \<open>
  C15: the client document a built-in adapter renders depends on no secret but the ones the adapter names
  as the client's: two vaults that agree on \<open>client_secret_references\<close> give the same document, so a
  server's private key cannot reach a subscription.
\<close>

theorem client_documents_use_client_secrets:
  assumes "a \<in> set built_in_protocols"
    and "client_secret_references a (pr_config p) = Ok refs"
    and "\<forall>r \<in> set refs. resolve r = resolve' r"
  shows "render_client a p user resolve = render_client a p user resolve'"
  using assms by (rule client_render_same)

theorem client_documents_use_client_secrets_witness:
  "render_client vless_adapter vless_profile alice vault
     = render_client vless_adapter vless_profile alice other_vault
   \<and> vault ''c'' \<noteq> other_vault ''c''
   \<and> is_ok (render_client vless_adapter vless_profile alice vault)"
proof -
  have refs: "client_secret_references vless_adapter (pr_config vless_profile) = Ok [''a'', ''b'']"
    by code_simp
  have "\<forall>r \<in> set [''a'', ''b'']. vault r = other_vault r" by code_simp
  from client_documents_use_client_secrets [OF vless_built_in refs this]
  have "render_client vless_adapter vless_profile alice vault
     = render_client vless_adapter vless_profile alice other_vault" .
  moreover have "is_ok (render_client vless_adapter vless_profile alice vault)" by code_simp
  ultimately show ?thesis by (simp add: vault_def other_vault_def)
qed

subsection \<open>Runtime adapters\<close>




subsection \<open>Hosts\<close>

text \<open>A service manager that keeps, per host, whether the service is enabled and active.\<close>

definition xray_document :: json where
  "xray_document = (case compose_document FXray vless_plan of Inr d \<Rightarrow> d | Inl _ \<Rightarrow> JNull)"

definition manage :: "string list \<Rightarrow> bool \<times> bool \<Rightarrow> bool \<times> bool" where
  "manage args u =
     (if args = [''enable''] then (True, snd u)
      else if args = [''disable''] then (False, snd u)
      else if args = [''restart''] then (fst u, True)
      else if args = [''stop''] then (fst u, False) else u)"

definition small_tools :: "(bool \<times> bool) tools" where
  "small_tools =
     \<lparr>tl_systemctl = (\<lambda>args service fs u. (Some True, manage args u)),
      tl_is = (\<lambda>property service u. if property = ''is-enabled'' then fst u else snd u),
      tl_check = (\<lambda>binary args fs u. Some True),
      tl_output = (\<lambda>binary args fs u. None),
      tl_ss = (\<lambda>k u. Some (True, [])),
      tl_main_pid = (\<lambda>service k u. None),
      tl_write_json = (\<lambda>d. if d = xray_document then Ok ''{}'' else Err ''unexpected document''),
      tl_write_yaml = (\<lambda>d. Err ''no yaml''),
      tl_read_json = (\<lambda>bytes. if bytes = ''{}'' then Ok xray_document else Err ''unexpected text''),
      tl_read_yaml = (\<lambda>bytes. Err ''no yaml''),
      tl_uuid = ''1'', tl_stop = None, tl_tls_ready = (\<lambda>fs u. False)\<rparr>"

definition small_host :: "(bool \<times> bool) host" where
  "small_host =
     \<lparr>ho_files = [([''tx''], Directory)],
      ho_listeners = (\<lambda>i. \<lparr>ls_previous = [], ls_desired = []\<rparr>), ho_units = (False, False)\<rparr>"

definition result_host :: "'a res \<times> 'u host \<Rightarrow> 'u host" where
  "result_host x = snd x"

text \<open>
  C33: a plan that was staged and then installed is live: the configuration read back from the host has
  exactly the plan's listeners, and the user observation finds it in sync. Between the two steps the
  host may change in any way that leaves the candidate file alone; the text library is assumed to
  read back what it wrote.
\<close>

theorem installed_plan_is_in_sync:
  assumes "A \<in> set built_in_cores" and "suits A plan" and "codec_ok T (mc_flavor A)"
    and "stage_config T A plan dir h = (Ok candidate, h1)"
    and "bt_get (ho_files h2) candidate = bt_get (ho_files h1) candidate"
    and "atomic_install T A candidate h2 = (Ok (), h3)"
  shows "live_ports T A (ho_files h3) = Ok (desired_ports plan)
     \<and> (\<exists>n. fst (observe_users T A plan h3) = Ok (InSync n))"
  using installed_in_sync [OF assms] by blast

definition staged_files :: fs where
  "staged_files = [([''tx''], Directory), ([''tx'', ''candidate.json''], RegularFile ''{}'')]"

definition staged_host :: "(bool \<times> bool) host" where
  "staged_host = small_host\<lparr>ho_files := staged_files,
     ho_listeners := (ho_listeners small_host)(''xray'' := \<lparr>ls_previous = [], ls_desired = [(443, False)]\<rparr>)\<rparr>"

definition installed_host :: "(bool \<times> bool) host" where
  "installed_host = snd (atomic_install small_tools xray [''tx'', ''candidate.json''] staged_host)"

lemma res_pair: "fst x = r \<Longrightarrow> x = (r, snd x)"
  by (cases x) simp

lemma small_codec: "codec_ok small_tools FXray"
  by (simp add: codec_ok_def small_tools_def read_document_def)

lemma small_compose: "compose small_tools xray vless_plan = Ok ''{}''"
proof -
  have "\<exists>d. compose_document FXray vless_plan = Ok d"
    using built_in_faithful [OF xray_built_in vless_suits] xray_flavor by auto
  then have "compose_document FXray vless_plan = Ok xray_document" by (auto simp: xray_document_def)
  then show ?thesis by (simp add: compose_def xray_flavor small_tools_def)
qed

lemma small_staged:
  "stage_config small_tools xray vless_plan [''tx''] small_host = (Ok [''tx'', ''candidate.json''], staged_host)"
proof -
  have dest: "candidate_path xray [''tx''] = [''tx'', ''candidate.json'']"
    by (simp add: candidate_path_def xray_flavor)
  have "write_file [''tx'', ''candidate.json''] ''{}'' (ho_files small_host) = (Ok (), staged_files)"
    by code_simp
  moreover have "live_ports small_tools xray staged_files = Ok []" "cm_id (mc_manifest xray) = ''xray''"
    by (simp_all add: live_ports_def read_current_config_def staged_files_def xray_def built_in_cores_def
        managed_core_new_def core_config_def)
  ultimately show ?thesis
    by (simp add: stage_config_def small_compose dest vless_facts staged_host_def)
qed

theorem installed_plan_is_in_sync_witness:
  "live_ports small_tools xray (ho_files installed_host) = Ok [(443, False)]
   \<and> (\<exists>n. fst (observe_users small_tools xray vless_plan installed_host) = Ok (InSync n))"
proof -
  have installed: "atomic_install small_tools xray [''tx'', ''candidate.json''] staged_host = (Ok (), installed_host)"
    unfolding installed_host_def by (rule res_pair) code_simp
  show ?thesis
    using installed_plan_is_in_sync [OF xray_built_in vless_suits _ small_staged refl installed] small_codec
    by (simp add: xray_flavor vless_facts)
qed

text \<open>
  C23: a rollback that reports success has restored what the snapshot recorded: the live configuration,
  present or absent, byte for byte, and whether the service is enabled and active. In between the
  host may have changed in any way, an installation and an activation included, that leaves the
  snapshot's file alone; \<open>systemctl\<close> is assumed to do what it documents.
\<close>

theorem rollback_restores_snapshot:
  assumes "snapshot_config T A dir h = (Ok snapshot, h1)"
    and "mc_config A \<noteq> dir @ [''snapshot'', ''config'']"
    and "mc_config A \<noteq> dir @ [''snapshot'', ''config.absent'']"
    and "bt_get (ho_files h) (dir @ [''snapshot'', ''config'']) = None"
    and "bt_get (ho_files h2) (dir @ [''snapshot'', ''config''])
       = bt_get (ho_files h1) (dir @ [''snapshot'', ''config''])"
    and "service_manager_ok T (cm_service (mc_manifest A))"
    and "rollback_config T A snapshot h2 = (Ok (), h3)"
  shows "read_current_config A (ho_files h3) = read_current_config A (ho_files h)
     \<and> systemctl_is T A ''is-enabled'' h3 = systemctl_is T A ''is-enabled'' h
     \<and> systemctl_is T A ''is-active'' h3 = systemctl_is T A ''is-active'' h"
  using rollback_restores [OF assms] by blast

definition tiny :: managed_core where
  "tiny = managed_core_new ''x'' ''X'' ''x.service'' FXray [''b''] [''e'', ''c''] [] 0 ''v1'' None"

definition old_host :: "(bool \<times> bool) host" where
  "old_host =
     \<lparr>ho_files = [([''e''], Directory), ([''e'', ''c''], RegularFile ''old''),
        ([''t''], Directory), ([''t'', ''n''], RegularFile ''new'')],
      ho_listeners = (\<lambda>i. \<lparr>ls_previous = [], ls_desired = []\<rparr>), ho_units = (True, False)\<rparr>"

definition old_snapshot :: core_snapshot where
  "old_snapshot = \<lparr>cs_path = [''t'', ''snapshot''], cs_service_was_enabled = True, cs_service_was_active = False\<rparr>"

definition saved_host :: "(bool \<times> bool) host" where
  "saved_host = snd (snapshot_config small_tools tiny [''t''] old_host)"

definition replaced_host :: "(bool \<times> bool) host" where
  "replaced_host = snd (activate_config small_tools tiny vless_plan
     (snd (atomic_install small_tools tiny [''t'', ''n''] saved_host)))"

definition restored_host :: "(bool \<times> bool) host" where
  "restored_host = snd (rollback_config small_tools tiny old_snapshot replaced_host)"

lemma small_manager: "service_manager_ok small_tools service"
  by (simp add: service_manager_ok_def small_tools_def manage_def)

theorem rollback_restores_snapshot_witness:
  "read_current_config tiny (ho_files replaced_host) = Ok (Some ''new'')
   \<and> read_current_config tiny (ho_files restored_host) = Ok (Some ''old'')
   \<and> systemctl_is small_tools tiny ''is-enabled'' restored_host
   \<and> \<not> systemctl_is small_tools tiny ''is-active'' restored_host"
proof -
  have saved: "snapshot_config small_tools tiny [''t''] old_host = (Ok old_snapshot, saved_host)"
    unfolding saved_host_def by (rule res_pair) code_simp
  have restored: "rollback_config small_tools tiny old_snapshot replaced_host = (Ok (), restored_host)"
    unfolding restored_host_def by (rule res_pair) code_simp
  have live: "mc_config tiny \<noteq> [''t''] @ [''snapshot'', ''config'']"
    "mc_config tiny \<noteq> [''t''] @ [''snapshot'', ''config.absent'']" by code_simp+
  have fresh: "bt_get (ho_files old_host) ([''t''] @ [''snapshot'', ''config'']) = None" by code_simp
  have kept: "bt_get (ho_files replaced_host) ([''t''] @ [''snapshot'', ''config''])
      = bt_get (ho_files saved_host) ([''t''] @ [''snapshot'', ''config''])" by code_simp
  have before: "read_current_config tiny (ho_files old_host) = Ok (Some ''old'')"
    "systemctl_is small_tools tiny ''is-enabled'' old_host"
    "\<not> systemctl_is small_tools tiny ''is-active'' old_host"
    "read_current_config tiny (ho_files replaced_host) = Ok (Some ''new'')" by code_simp+
  show ?thesis
    using rollback_restores_snapshot [OF saved live fresh kept small_manager restored] before by simp
qed

subsection \<open>Module manifests\<close>


definition demo_manifest :: string where
  "demo_manifest = join [newline]
     [''id=d'', ''name=D'', ''kind=c'', ''role=r'', ''repo=o/r'', ''upstream=release'', ''ref='',
      ''driver=release'', ''root=cores'', ''binary=d'', ''service=infiproxy-d.service'',
      ''config=/etc/infiproxy-cores/d/c'', ''asset_amd64=a'', ''asset_arm64=b'']"

definition demo_spec :: module_spec where
  "demo_spec =
     \<lparr>mo_id = ''d'', mo_name = ''D'', mo_kind = ''c'', mo_role = ''r'', mo_repo = ''o/r'',
      mo_upstream = Release, mo_driver = ''release'', mo_root = ''cores'', mo_binary = ''d'',
      mo_binary_path = ''/opt/infiproxy/cores/d/current/d'', mo_service = ''infiproxy-d.service'',
      mo_config_path = ''/etc/infiproxy-cores/d/c'', mo_asset_amd64 = ''a'', mo_asset_arm64 = ''b''\<rparr>"


subsection \<open>Shipped tables\<close>

definition find_protocol :: "string \<Rightarrow> json_adapter option" where
  "find_protocol i = List.find (\<lambda>a. pm_id (ja_manifest a) = i) built_in_protocols"

definition find_core :: "string \<Rightarrow> managed_core option" where
  "find_core i = List.find (\<lambda>A. cm_id (mc_manifest A) = i) built_in_cores"

definition runtime_matches :: "json_adapter \<Rightarrow> string option \<Rightarrow> bool" where
  "runtime_matches a preferred =
     (case (preferred, pc_preferred_runtime (pm_composition (ja_manifest a))) of
        (Some i, Some runtime) \<Rightarrow>
          (case find_core i of
             None \<Rightarrow> False
           | Some A \<Rightarrow> pm_required_capabilities (ja_manifest a) \<subseteq> cm_capabilities (mc_manifest A)
               \<and> vr_adapter_id runtime = i \<and> vr_version runtime = mc_validated_version A)
      | _ \<Rightarrow> False)"

definition default_fits :: "protocol_profile \<Rightarrow> bool" where
  "default_fits p =
     (\<not> pr_enabled p \<and>
      (case find_protocol (pr_protocol_id p) of
         None \<Rightarrow> False
       | Some a \<Rightarrow> is_ok (validate_config a (pr_schema_version p) (pr_config p))
           \<and> runtime_matches a (pr_preferred_core p)))"

lemma list_all_split: "list_all P (take n xs) \<Longrightarrow> list_all P (drop n xs) \<Longrightarrow> list_all P xs"
  by (metis append_take_drop_id list_all_append)

lemma defaults_fit_0: "list_all default_fits (take 4 (drop 0 default_profiles))"
  by code_simp

lemma defaults_fit_1: "list_all default_fits (take 4 (drop 4 default_profiles))"
  by code_simp

lemma defaults_fit_2: "list_all default_fits (take 4 (drop 8 default_profiles))"
  by code_simp

lemma defaults_fit_3: "list_all default_fits (take 4 (drop 12 default_profiles))"
  by code_simp

lemma defaults_fit_4: "list_all default_fits (take 4 (drop 16 default_profiles))"
  by code_simp

lemma defaults_fit_5: "list_all default_fits (take 4 (drop 20 default_profiles))"
  by code_simp

lemma defaults_fit_6: "list_all default_fits (drop 24 default_profiles)"
  by code_simp

lemma defaults_fit: "list_all default_fits default_profiles"
  using defaults_fit_0 defaults_fit_1 defaults_fit_2 defaults_fit_3 defaults_fit_4 defaults_fit_5
    defaults_fit_6
    list_all_split [of default_fits 4 "drop 20 default_profiles"]
    list_all_split [of default_fits 4 "drop 16 default_profiles"]
    list_all_split [of default_fits 4 "drop 12 default_profiles"]
    list_all_split [of default_fits 4 "drop 8 default_profiles"]
    list_all_split [of default_fits 4 "drop 4 default_profiles"]
    list_all_split [of default_fits 4 default_profiles]
  by simp

lemma defaults_distinct: "distinct (map pr_name default_profiles) \<and> distinct (map pr_port default_profiles)"
  by code_simp

lemma built_in_core_manifests:
  "list_all (\<lambda>A. is_ok (validate_core_manifest (mc_manifest A))) built_in_cores
   \<and> distinct (map (\<lambda>A. cm_id (mc_manifest A)) built_in_cores)"
  by code_simp

lemma built_in_cores_registered:
  obtains reg where "core_registry_of T = Ok reg" and "core_registry_inv reg"
    and "\<forall>A \<in> set built_in_cores. bt_get reg (cm_id (mc_manifest A)) = Some (as_core_adapter T A)"
proof -
  have ident: "ca_id (as_core_adapter T A) = cm_id (mc_manifest A)" for A
    by (simp add: ca_id_def as_core_adapter_def)
  have manifest: "ca_manifest (as_core_adapter T A) = mc_manifest A" for A
    by (simp add: as_core_adapter_def)
  have "\<exists>reg. core_registry_of T = Ok reg"
    unfolding core_registry_of_def
    using built_in_core_manifests
    by (intro cores.register_all_ok) (auto simp: ident manifest list_all_iff comp_def)
  then obtain reg where reg: "core_registry_of T = Ok reg" ..
  have "core_registry_inv reg"
    using cores.reg_inv_add_all [OF cores.reg_inv_empty] reg by (simp add: core_registry_of_def)
  moreover have "bt_get reg (cm_id (mc_manifest A)) = Some (as_core_adapter T A)"
    if "A \<in> set built_in_cores" for A
    using cores.add_all_get [of "map (as_core_adapter T) built_in_cores" "[]" reg "as_core_adapter T A"] reg that
    by (simp add: core_registry_of_def ident)
  ultimately show ?thesis using that reg by blast
qed

text \<open>
  C6: the shipped tables agree with each other: both registries accept all built-in adapters and give
  each of them under its identifier; every default profile is disabled, is accepted by the adapter
  it names, and prefers a runtime that advertises the capabilities this adapter requires and is
  pinned to the version the adapter was validated with; and the default profiles have distinct
  names and distinct ports.
\<close>

theorem shipped_tables_agree:
  "(\<exists>protocols. protocol_registry = Ok protocols \<and> protocol_registry_inv protocols \<and>
      (\<forall>a \<in> set built_in_protocols. bt_get protocols (pm_id (ja_manifest a)) = Some (as_protocol_adapter a)))
   \<and> (\<exists>cores. core_registry_of T = Ok cores \<and> core_registry_inv cores \<and>
      (\<forall>A \<in> set built_in_cores. bt_get cores (cm_id (mc_manifest A)) = Some (as_core_adapter T A)))
   \<and> list_all default_fits default_profiles
   \<and> distinct (map pr_name default_profiles) \<and> distinct (map pr_port default_profiles)"
proof -
  obtain protocols where "protocol_registry = Ok protocols" "protocol_registry_inv protocols"
      "\<forall>a \<in> set built_in_protocols. bt_get protocols (pm_id (ja_manifest a)) = Some (as_protocol_adapter a)"
    by (rule built_in_registered)
  moreover obtain cores where "core_registry_of T = Ok cores" "core_registry_inv cores"
      "\<forall>A \<in> set built_in_cores. bt_get cores (cm_id (mc_manifest A)) = Some (as_core_adapter T A)"
    by (rule built_in_cores_registered)
  ultimately show ?thesis using defaults_fit defaults_distinct by blast
qed

text \<open>
  The theorem quantifies over the shipped adapters, so its hypotheses are memberships; the first
  protocol adapter and the first runtime are such members.
\<close>

theorem shipped_tables_agree_witness:
  "(\<exists>protocols. protocol_registry = Ok protocols \<and>
      bt_get protocols ''vless-reality-tcp'' = Some (as_protocol_adapter vless_adapter))
   \<and> length default_profiles = 26 \<and> default_fits (hd default_profiles)"
proof -
  have i: "pm_id (ja_manifest vless_adapter) = ''vless-reality-tcp''"
    by (simp add: vless_adapter_def reality_adapters_def new_adapter_def)
  have l: "length default_profiles = 26" by (simp add: default_profiles_def)
  then have hd: "hd default_profiles \<in> set default_profiles" by (intro hd_in_set) auto
  note tables = shipped_tables_agree [where T = "undefined :: unit tools"]
  from tables hd have "default_fits (hd default_profiles)" unfolding list_all_iff by blast
  moreover from tables vless_built_in have "\<exists>protocols. protocol_registry = Ok protocols \<and>
      bt_get protocols (pm_id (ja_manifest vless_adapter)) = Some (as_protocol_adapter vless_adapter)" by blast
  ultimately show ?thesis using l i by simp
qed

end
