(* ===== verification/Core_Findings.thy ===== *)
theory Core_Findings
  imports Core_Hosts
begin

text \<open>
  Three places where the built-in adapters and the module manifests accept more than the code that
  uses the accepted value, each shown on a small input.
\<close>

subsection \<open>A blank obfuscation secret stops native Hysteria\<close>

text \<open>
  \<open>validate_config\<close> reads a blank \<open>obfs_password_secret\<close> as absent, and so does the sing-box composer;
  \<open>compose_hysteria\<close> asks only whether the key is there, and then misses the resolved secret.
\<close>

definition hysteria_adapter :: json_adapter where
  "hysteria_adapter = single_core_adapters ! 1"

definition blank_obfs :: json where
  "blank_obfs = jobj [(''password_secret'', JString ''a''), (''sni'', JString ''w''), (''obfs_password_secret'', JString [])]"

definition blank_profile :: protocol_profile where
  "blank_profile =
     \<lparr>pr_name = ''h'', pr_display_name = ''H'', pr_protocol_id = ''hysteria2'', pr_schema_version = 1,
      pr_role = AutoSafe, pr_server = ''n'', pr_port = 443, pr_enabled = True,
      pr_preferred_core = Some ''hysteria'', pr_managed_resource = None, pr_config = blank_obfs\<rparr>"

definition blank_plan :: "string \<Rightarrow> core_plan option" where
  "blank_plan core =
     (case render_server hysteria_adapter blank_profile [] (\<lambda>r. Ok r) of
        Inl _ \<Rightarrow> None
      | Inr f \<Rightarrow> Some \<lparr>cp_generation = 1, cp_core_id = core, cp_fragments = [f]\<rparr>)"

definition composes :: "flavor \<Rightarrow> string \<Rightarrow> bool option" where
  "composes flavor core = map_option (\<lambda>plan. is_ok (compose_document flavor plan)) (blank_plan core)"

lemma blank_obfs_stops_hysteria:
  "validate_config hysteria_adapter 1 blank_obfs = Ok ()
   \<and> composes FSingBox ''sing-box'' = Some True
   \<and> composes FHysteria ''hysteria'' = Some False"
  by code_simp

subsection \<open>A secret reference with surrounding white space\<close>

text \<open>
  \<open>validate_config\<close> parses the trimmed reference, the reference lists parse the value as it is
  stored: a configuration that was accepted can neither be published nor rendered.
\<close>

definition spaced_secret :: json where
  "spaced_secret = jobj [(''password_secret'', JString '' a ''), (''sni'', JString ''w'')]"

lemma spaced_secret_is_accepted:
  "validate_config hysteria_adapter 1 spaced_secret = Ok ()
   \<and> \<not> is_ok (client_secret_references hysteria_adapter spaced_secret)
   \<and> \<not> is_ok (server_secret_references hysteria_adapter spaced_secret)"
  by code_simp

subsection \<open>A binary name of two dots\<close>

text \<open>
  \<open>safe_filename\<close> allows dots and does not ask for anything else, so a manifest whose binary is
  \<open>..\<close> is accepted and its binary path names the directory above the release.
\<close>

definition dotted_spec :: module_spec where
  "dotted_spec =
     \<lparr>mo_id = ''d'', mo_name = ''D'', mo_kind = ''c'', mo_role = ''r'', mo_repo = ''o/r'',
      mo_upstream = Release, mo_driver = ''release'', mo_root = ''cores'', mo_binary = ''..'',
      mo_binary_path = [], mo_service = ''infiproxy-d.service'',
      mo_config_path = ''/etc/infiproxy-cores/d/c'', mo_asset_amd64 = ''a'', mo_asset_arm64 = ''b''\<rparr>"

lemma binary_may_be_the_parent:
  "validate_spec dotted_spec True
     = Ok (dotted_spec\<lparr>mo_binary_path := ''/opt/infiproxy/cores/d/current/..''\<rparr>)"
  by code_simp

end
