(* ===== verification/Spec2Isabelle.thy ===== *)
theory Spec2Isabelle
  imports Reconcile_Claims Planning_Claims Routing_Claims Subscription_Claims User_Claims Storage_Claims Source_Claims Storage_Findings Panel_Claims Core_Claims Core_Findings
begin

text \<open>
  Verification library.
\<close>

end
